(* ===== verification/Knx_Prelude.thy ===== *)
theory Knx_Prelude
  imports Complex_Main "HOL-Library.Word"
begin

text \<open>
  Shared vocabulary of the development: the machine types of the program, the exceptions it
  throws, and the generic facts on lists, options and truncating division that the component
  theories use.  The collections \<open>frame_simps\<close>, \<open>codec_simps\<close> and \<open>val_defs\<close> are filled by the
  components and used by the proofs of the theories above them.
\<close>

unbundle bit_operations_syntax

named_theorems frame_simps \<open>what an operation leaves alone\<close>
named_theorems codec_simps \<open>byte-level encoders and decoders, unfolded\<close>
named_theorems val_defs \<open>the operations of the value classes, unfolded\<close>

section \<open>Machine types\<close>

text \<open>
  \<open>uint8_t\<close>, \<open>uint16_t\<close> (the type \<open>eibaddr_t\<close> of include/eibtypes.h), \<open>uint32_t\<close>/\<open>int32_t\<close> and
  \<open>int64_t\<close>.  A received telegram is a pointer and a length; the pointer is modelled as the memory
  it points to, so that a read past the length yields whatever that memory holds, as it does in
  the code (the caller passes a 200 byte array of which only the first \<open>len\<close> bytes were filled).
\<close>

type_synonym byte = "8 word"
type_synonym eibaddr_t = "16 word"
type_synonym u32 = "32 word"
type_synonym u64 = "64 word"
type_synonym buffer = "nat \<Rightarrow> byte"

definition buf_of :: "byte list \<Rightarrow> buffer" where
  "buf_of bs = (\<lambda>i. if i < length bs then bs ! i else 0)"

lemma buf_of_nth [simp]: "i < length bs \<Longrightarrow> buf_of bs i = bs ! i"
  by (simp add: buf_of_def)

lemma buf_of_Cons [simp]:
  "buf_of (b # bs) 0 = b"
  "buf_of (b # bs) (Suc n) = buf_of bs n"
  "buf_of (b # bs) (numeral k) = buf_of bs (pred_numeral k)"
  by (auto simp: buf_of_def numeral_eq_Suc)

section \<open>Exceptions\<close>

text \<open>
  \<open>ticpp::Exception\<close> carries a message; the model keeps which message it is and the text the
  message quotes.  The last five are not exceptions of the program: \<open>Null_deref\<close> marks a branch where
  the code dereferences a null pointer, \<open>Out_of_bounds\<close> one where it writes past the end of an array,
  \<open>Not_finite\<close> one where it goes on with an infinity or a NaN, which the model does not have,
  \<open>Division_by_zero\<close> an integer division by 0, and \<open>No_return\<close> one where it does not return within the given fuel.
\<close>

datatype exn =
    Bad_value string string
  | Bad_precision string
  | Bad_group_addr string
  | Bad_addr string
  | Bad_duration string
  | Bad_unit string
  | No_milliseconds
  | Bad_time_spec
  | Bad_type string
  | Type_change
  | Missing_id
  | Slash_in_id string
  | No_storage string
  | Duplicate_id
  | Not_found string
  | In_use
  | Listener_registered
  | Bad_trigger
  | Bad_operation string
  | Bad_element string
  | Refused string
  | Missing_element string
  | Bad_config string
  | Null_deref
  | Out_of_bounds
  | Not_finite
  | Division_by_zero
  | No_return

type_synonym 'a result = "exn + 'a"

section \<open>Broken-down time\<close>

text \<open>\<open>struct tm\<close> of the C library; the months count from 0, the years from 1900, Sunday is 0.\<close>

record tm =
  tm_year :: int
  tm_mon :: int
  tm_mday :: int
  tm_wday :: int
  tm_hour :: int
  tm_min :: int
  tm_sec :: int

section \<open>The environment of the value classes\<close>

text \<open>
  What the value classes ask the rest of the system for: the local time, and the two conversions of
  \<open>iconv\<close> they use, UTF-8 to ISO-8859-1 and back.  \<open>iconv\<close> is a library; \<open>None\<close> is its error return.
\<close>

record env =
  clock :: tm
  iconv_to_latin1 :: "string \<Rightarrow> string option"
  iconv_to_utf8 :: "string \<Rightarrow> string option"

text \<open>A fixed clock and the identity as transliteration, for examples.\<close>

definition plain_env :: env where
  "plain_env =
     \<lparr>clock = \<lparr>tm_year = 107, tm_mon = 0, tm_mday = 1, tm_wday = 1, tm_hour = 12, tm_min = 0, tm_sec = 0\<rparr>,
      iconv_to_latin1 = Some, iconv_to_utf8 = Some\<rparr>"

section \<open>Integer division of C\<close>

definition c_div :: "int \<Rightarrow> int \<Rightarrow> int" where
  "c_div a b = sgn a * sgn b * (\<bar>a\<bar> div \<bar>b\<bar>)"

definition c_mod :: "int \<Rightarrow> int \<Rightarrow> int" where
  "c_mod a b = a - c_div a b * b"

lemma c_div_mult_self: "b \<noteq> 0 \<Longrightarrow> c_div (a * b) b = a"
  by (simp add: c_div_def abs_mult sgn_mult mult.assoc mult_sgn_abs sgn_mult_self_eq)

lemma c_mod_eq_0_iff: "b \<noteq> 0 \<Longrightarrow> c_mod a b = 0 \<longleftrightarrow> b dvd a"
proof
  assume "b \<noteq> 0" and "c_mod a b = 0"
  then have "a = c_div a b * b" by (simp add: c_mod_def)
  then show "b dvd a" by (metis dvd_triv_right)
next
  assume "b \<noteq> 0" and "b dvd a"
  then obtain k where "a = k * b" by (metis dvd_def mult.commute)
  with \<open>b \<noteq> 0\<close> show "c_mod a b = 0" by (simp add: c_mod_def c_div_mult_self)
qed

lemma c_div_exact: "b \<noteq> 0 \<Longrightarrow> c_mod a b = 0 \<Longrightarrow> c_div a b * b = a"
  by (simp add: c_mod_def)

section \<open>Lists\<close>

lemma takeWhile_append_stop:
  "(\<forall>x \<in> set xs. P x) \<Longrightarrow> (ys = [] \<or> \<not> P (hd ys)) \<Longrightarrow> takeWhile P (xs @ ys) = xs"
  by (induction xs) (cases ys; auto)+

lemma dropWhile_append_stop:
  "(\<forall>x \<in> set xs. P x) \<Longrightarrow> (ys = [] \<or> \<not> P (hd ys)) \<Longrightarrow> dropWhile P (xs @ ys) = ys"
  by (induction xs) (cases ys; auto)+

lemma nth_less_5:
  fixes n :: nat
  assumes "n < 5"
  obtains "n = 0" | "n = 1" | "n = 2" | "n = 3" | "n = 4"
  using assms by linarith

end
