(* ===== verification/Value_Laws.thy ===== *)
theory Value_Laws
  imports Knx_Prelude
begin

text \<open>
  The contract of the class \<open>ObjectValue\<close> (src/objectcontroller.h): what its virtual operations
  \<open>equals\<close>, \<open>compare\<close> and \<open>set\<close> owe to the conditions and objects that call them.  The theories of
  the value classes interpret it on their own operations; the lemmas here are the ones the clients
  use.  \<open>valid\<close> holds of the values for which a class keeps the contract (a time of day that stands
  for "now" is compared with the clock, and does not).
\<close>

locale object_value =
  fixes valid :: "'v \<Rightarrow> bool"
    and equals :: "'v \<Rightarrow> 'v \<Rightarrow> bool"
    and compare :: "'v \<Rightarrow> 'v \<Rightarrow> int"
    and assign :: "'v \<Rightarrow> 'v \<Rightarrow> bool \<times> 'v"
  assumes equals_refl: "valid a \<Longrightarrow> equals a a"
    and compare_values: "valid a \<Longrightarrow> valid b \<Longrightarrow> compare a b \<in> {- 1, 0, 1}"
    and compare_equals: "valid a \<Longrightarrow> valid b \<Longrightarrow> compare a b = 0 \<longleftrightarrow> equals a b"
    and compare_swap: "valid a \<Longrightarrow> valid b \<Longrightarrow> compare b a = - compare a b"
    and assign_changed: "valid a \<Longrightarrow> valid b \<Longrightarrow> fst (assign a b) \<longleftrightarrow> \<not> equals a b"
    and assign_equals: "valid a \<Longrightarrow> valid b \<Longrightarrow> equals (snd (assign a b)) b"
    and assign_same: "valid a \<Longrightarrow> valid b \<Longrightarrow> equals a b \<Longrightarrow> snd (assign a b) = a"
    and assign_valid: "valid a \<Longrightarrow> valid b \<Longrightarrow> valid (snd (assign a b))"
begin

lemma compare_cases:
  assumes "valid a" and "valid b"
  obtains "compare a b = 0" "equals a b"
    | "compare a b = 1" "\<not> equals a b"
    | "compare a b = - 1" "\<not> equals a b"
  using compare_values [OF assms] compare_equals [OF assms] by auto

lemma equals_sym: "valid a \<Longrightarrow> valid b \<Longrightarrow> equals a b \<longleftrightarrow> equals b a"
  using compare_equals [of a b] compare_equals [of b a] compare_swap [of a b] by simp

text \<open>A value that was assigned is not assigned again: the second call reports no change.\<close>

lemma assign_idem:
  assumes "valid a" and "valid b"
  shows "assign (snd (assign a b)) b = (False, snd (assign a b))"
proof -
  let ?c = "snd (assign a b)"
  have c: "valid ?c" and e: "equals ?c b" using assms by (auto intro: assign_valid assign_equals)
  have "fst (assign ?c b) = False" using assign_changed [OF c assms(2)] e by simp
  moreover have "snd (assign ?c b) = ?c" using assign_same [OF c assms(2) e] .
  ultimately show ?thesis by (metis prod.collapse)
qed

lemma assign_compare: "valid a \<Longrightarrow> valid b \<Longrightarrow> compare (snd (assign a b)) b = 0"
  using compare_equals [of "snd (assign a b)" b] by (simp add: assign_valid assign_equals)

end

text \<open>A class that is ordered by a key of some linear order, and stores the whole value.\<close>

definition cmp3 :: "'k :: linorder \<Rightarrow> 'k \<Rightarrow> int" where
  "cmp3 a b = (if a = b then 0 else if b < a then 1 else - 1)"

lemma cmp3_simps [simp]:
  "cmp3 a a = 0" "cmp3 a b = 0 \<longleftrightarrow> a = b" "cmp3 a b \<in> {- 1, 0, 1}"
  by (auto simp: cmp3_def)

lemma cmp3_swap: "cmp3 b a = - cmp3 a b"
  by (auto simp: cmp3_def)

end
