(* ===== verification/Streams.thy ===== *)
theory Streams
  imports Knx_Prelude
begin

text \<open>
  The parts of the C++ and C standard libraries the program parses and prints text with:
  extraction of integers, words and characters from an \<open>istringstream\<close>, the \<open>%d\<close> and \<open>%x\<close>
  conversions of \<open>sscanf\<close>, and insertion of integers in decimal and hexadecimal with \<open>setw\<close>
  and \<open>setfill('0')\<close>.  An extraction that sets \<open>failbit\<close> is \<open>None\<close>; otherwise it gives the value
  and the text that is left.  The main lemmas say that printing and then extracting returns the
  number, whatever non-digit text follows.
\<close>

section \<open>Characters\<close>

definition is_space :: "char \<Rightarrow> bool" where
  "is_space c \<longleftrightarrow> c = CHR '' '' \<or> (9 \<le> (of_char c :: nat) \<and> (of_char c :: nat) \<le> 13)"

text \<open>The value of a digit in some base up to 16; 16 for a character that is not one.\<close>

definition digit_val :: "char \<Rightarrow> nat" where
  "digit_val c = (let n = of_char c :: nat in
     if 48 \<le> n \<and> n \<le> 57 then n - 48
     else if 97 \<le> n \<and> n \<le> 102 then n - 87
     else if 65 \<le> n \<and> n \<le> 70 then n - 55
     else 16)"

definition is_digit :: "nat \<Rightarrow> char \<Rightarrow> bool" where
  "is_digit b c \<longleftrightarrow> digit_val c < b"

definition digit_char :: "nat \<Rightarrow> char" where
  "digit_char d = char_of (if d < 10 then 48 + d else 87 + d)"

lemma digit_char_numeral [simp]:
  "digit_char 0 = CHR ''0''" "digit_char 1 = CHR ''1''" "digit_char (Suc 0) = CHR ''1''"
  "digit_char 2 = CHR ''2''" "digit_char 3 = CHR ''3''" "digit_char 4 = CHR ''4''"
  "digit_char 5 = CHR ''5''" "digit_char 6 = CHR ''6''" "digit_char 7 = CHR ''7''"
  "digit_char 8 = CHR ''8''" "digit_char 9 = CHR ''9''"
  by code_simp+

lemma digit_val_digit_char [simp]: "d < 16 \<Longrightarrow> digit_val (digit_char d) = d"
  by (auto simp: digit_val_def digit_char_def Let_def)

lemma is_digit_digit_char [simp]: "d < b \<Longrightarrow> b \<le> 16 \<Longrightarrow> is_digit b (digit_char d)"
  by (simp add: is_digit_def)

lemma is_digit_zero [simp]: "is_digit 10 CHR ''0''" "is_digit 16 CHR ''0''"
  by (auto simp: is_digit_def digit_val_def)

lemma digit_not_space: "is_digit b c \<Longrightarrow> b \<le> 16 \<Longrightarrow> \<not> is_space c"
  by (auto simp: is_digit_def digit_val_def is_space_def Let_def split: if_splits)

lemma digit_not_sign:
  "is_digit b c \<Longrightarrow> b \<le> 16 \<Longrightarrow> c \<noteq> CHR ''-''" "is_digit b c \<Longrightarrow> b \<le> 16 \<Longrightarrow> c \<noteq> CHR ''+''"
  "is_digit b c \<Longrightarrow> b \<le> 16 \<Longrightarrow> c \<noteq> CHR ''x''" "is_digit b c \<Longrightarrow> b \<le> 16 \<Longrightarrow> c \<noteq> CHR ''X''"
  by (auto simp: is_digit_def digit_val_def)

section \<open>Numbers as text\<close>

fun show_base :: "nat \<Rightarrow> nat \<Rightarrow> string" where
  "show_base b n =
     (if n < b \<or> b < 2 then [digit_char n] else show_base b (n div b) @ [digit_char (n mod b)])"

declare show_base.simps [simp del]

lemma show_base_numeral [simp]:
  "show_base 10 0 = [digit_char 0]" "show_base 10 1 = [digit_char 1]"
  "show_base 10 (Suc 0) = [digit_char 1]"
  "show_base 10 (numeral k) = (if numeral k < (10 :: nat) then [digit_char (numeral k)]
     else show_base 10 (numeral k div 10) @ [digit_char (numeral k mod 10)])"
  by (simp_all add: show_base.simps [of 10 0] show_base.simps [of 10 1]
      show_base.simps [of 10 "Suc 0"] show_base.simps [of 10 "numeral k"] digit_char_def)

definition val_base :: "nat \<Rightarrow> string \<Rightarrow> nat" where
  "val_base b ds = foldl (\<lambda>n c. b * n + digit_val c) 0 ds"

lemma val_base_snoc [simp]: "val_base b (ds @ [c]) = b * val_base b ds + digit_val c"
  by (simp add: val_base_def)

lemma val_base_Nil [simp]: "val_base b [] = 0"
  by (simp add: val_base_def)

lemma val_base_zeros: "val_base b (replicate k CHR ''0'' @ ds) = val_base b ds"
proof -
  have "foldl (\<lambda>n c. b * n + digit_val c) 0 (replicate k CHR ''0'') = 0"
    by (induction k) (auto simp: digit_val_def)
  then show ?thesis by (simp add: val_base_def)
qed

lemma val_show_base: "2 \<le> b \<Longrightarrow> b \<le> 16 \<Longrightarrow> val_base b (show_base b n) = n"
proof (induction b n rule: show_base.induct)
  case (1 b n)
  show ?case
  proof (cases "n < b")
    case True
    then show ?thesis using "1.prems" by (simp add: show_base.simps [of b n] val_base_def)
  next
    case False
    moreover have "n mod b < b" using "1.prems" by simp
    then have "n mod b < 16" using "1.prems" by linarith
    ultimately show ?thesis using 1 by (simp add: show_base.simps [of b n])
  qed
qed

lemma show_base_digits:
  "2 \<le> b \<Longrightarrow> b \<le> 16 \<Longrightarrow> c \<in> set (show_base b n) \<Longrightarrow> is_digit b c"
proof (induction b n rule: show_base.induct)
  case (1 b n)
  show ?case
  proof (cases "n < b")
    case True
    then show ?thesis using "1.prems" by (simp add: show_base.simps [of b n])
  next
    case False
    then show ?thesis using 1 by (auto simp: show_base.simps [of b n])
  qed
qed

lemma show_base_not_Nil [simp]: "show_base b n \<noteq> []"
  by (subst show_base.simps) simp

definition show_int :: "int \<Rightarrow> string" where
  "show_int i = (if i < 0 then CHR ''-'' # show_base 10 (nat (- i)) else show_base 10 (nat i))"

text \<open>\<open>out << setfill('0') << setw(w) << n\<close>\<close>

definition pad0 :: "nat \<Rightarrow> string \<Rightarrow> string" where
  "pad0 w s = replicate (w - length s) CHR ''0'' @ s"

lemma pad0_not_Nil [simp]: "s \<noteq> [] \<Longrightarrow> pad0 w s \<noteq> []"
  by (simp add: pad0_def)

section \<open>Extraction\<close>

definition skip_ws :: "string \<Rightarrow> string" where
  "skip_ws s = dropWhile is_space s"

fun take_sign :: "string \<Rightarrow> bool \<times> string" where
  "take_sign (c # s) =
     (if c = CHR ''-'' then (True, s) else if c = CHR ''+'' then (False, s) else (False, c # s))"
| "take_sign [] = (False, [])"

text \<open>The optional \<open>0x\<close> of a hexadecimal conversion.\<close>

fun drop_0x :: "string \<Rightarrow> string" where
  "drop_0x (z # x # s) =
     (if z = CHR ''0'' \<and> (x = CHR ''x'' \<or> x = CHR ''X'') then s else z # x # s)"
| "drop_0x s = s"

text \<open>White space, a sign, and at least one digit: sign, magnitude and the rest.\<close>

definition scan_num :: "nat \<Rightarrow> string \<Rightarrow> (bool \<times> nat \<times> string) option" where
  "scan_num b s =
     (let (neg, s1) = take_sign (skip_ws s);
          s2 = (if b = 16 then drop_0x s1 else s1);
          ds = takeWhile (is_digit b) s2
      in if ds = [] then None else Some (neg, val_base b ds, dropWhile (is_digit b) s2))"

text \<open>\<open>val >> n\<close> for a signed integer: a value out of range sets \<open>failbit\<close>.\<close>

definition get_signed :: "nat \<Rightarrow> nat \<Rightarrow> string \<Rightarrow> (int \<times> string) option" where
  "get_signed w b s =
     (case scan_num b s of
        None \<Rightarrow> None
      | Some (neg, m, r) \<Rightarrow>
          (let i = (if neg then - int m else int m)
           in if - (2 ^ (w - 1)) \<le> i \<and> i < 2 ^ (w - 1) then Some (i, r) else None))"

text \<open>
  \<open>val >> n\<close> for an unsigned integer: a minus sign is accepted and the magnitude is negated modulo
  \<open>2 ^ w\<close>; only a magnitude out of range sets \<open>failbit\<close>.
\<close>

definition get_unsigned :: "nat \<Rightarrow> nat \<Rightarrow> string \<Rightarrow> (int \<times> string) option" where
  "get_unsigned w b s =
     (case scan_num b s of
        None \<Rightarrow> None
      | Some (neg, m, r) \<Rightarrow>
          (if int m < 2 ^ w then Some ((if neg then - int m else int m) mod 2 ^ w, r) else None))"

abbreviation get_int :: "string \<Rightarrow> (int \<times> string) option" where
  "get_int \<equiv> get_signed 32 10"

text \<open>\<open>val >> c\<close> for a character, and \<open>val >> s\<close> for a string (empty when nothing is left).\<close>

definition get_char :: "string \<Rightarrow> (char \<times> string) option" where
  "get_char s = (case skip_ws s of [] \<Rightarrow> None | c # r \<Rightarrow> Some (c, r))"

definition get_word :: "string \<Rightarrow> string" where
  "get_word s = takeWhile (\<lambda>c. \<not> is_space c) (skip_ws s)"

text \<open>
  \<open>sscanf\<close>'s \<open>%d\<close> and \<open>%x\<close>: the number is read as a 64 bit \<open>long\<close> that saturates, and stored in
  an \<open>int\<close>; every caller masks the result to at most 16 low bits, so the 64 bit value is kept here.
\<close>

definition scanf_d :: "string \<Rightarrow> (int \<times> string) option" where
  "scanf_d s =
     (case scan_num 10 s of
        None \<Rightarrow> None
      | Some (neg, m, r) \<Rightarrow>
          Some (if neg then max (- (2 ^ 63)) (- int m) else min (2 ^ 63 - 1) (int m), r))"

definition scanf_x :: "string \<Rightarrow> (int \<times> string) option" where
  "scanf_x s =
     (case scan_num 16 s of
        None \<Rightarrow> None
      | Some (neg, m, r) \<Rightarrow>
          (let u = min (2 ^ 64 - 1) (int m)
           in Some (if neg \<and> int m < 2 ^ 64 then - u else u, r)))"

definition lit :: "char \<Rightarrow> string \<Rightarrow> string option" where
  "lit c s = (case s of [] \<Rightarrow> None | d # r \<Rightarrow> if d = c then Some r else None)"

text \<open>What a closed call of the scanners unfolds to.\<close>

lemmas scan_defs =
  get_signed_def get_unsigned_def get_char_def get_word_def scan_num_def skip_ws_def is_space_def
  is_digit_def digit_val_def val_base_def Let_def

section \<open>Printing then scanning\<close>

lemma skip_ws_Nil [simp]: "skip_ws [] = []"
  by (simp add: skip_ws_def)

lemma skip_ws_nonspace [simp]: "\<not> is_space c \<Longrightarrow> skip_ws (c # s) = c # s"
  by (simp add: skip_ws_def)

lemma take_sign_other [simp]:
  "c \<noteq> CHR ''-'' \<Longrightarrow> c \<noteq> CHR ''+'' \<Longrightarrow> take_sign (c # s) = (False, c # s)"
  by simp

lemma drop_0x_digits:
  assumes "\<forall>c \<in> set ds. is_digit b c" and "0 < b" and "b \<le> 16"
    and "rest = [] \<or> \<not> is_digit b (hd rest)"
    and "rest = [] \<or> (hd rest \<noteq> CHR ''x'' \<and> hd rest \<noteq> CHR ''X'')"
  shows "drop_0x (ds @ rest) = ds @ rest"
proof (cases "ds @ rest" rule: drop_0x.cases)
  case (1 z x s)
  have "x \<noteq> CHR ''x'' \<and> x \<noteq> CHR ''X'' \<or> ds = []"
  proof (cases ds)
    case (Cons a ds')
    with 1 have "x = hd (ds' @ rest)" and "ds' @ rest \<noteq> []" by auto
    with Cons assms(1,3,5) show ?thesis
      by (cases ds') (auto dest: digit_not_sign)
  qed simp
  with 1 assms show ?thesis
    by (auto simp: is_digit_def digit_val_def split: if_splits)
qed auto

text \<open>A nonempty run of digits is scanned whole when no digit follows it.\<close>

lemma scan_num_digits:
  assumes "ds \<noteq> []" and "\<forall>c \<in> set ds. is_digit b c" and "b \<le> 16"
    and "rest = [] \<or> \<not> is_digit b (hd rest)"
    and "b = 16 \<Longrightarrow> rest = [] \<or> (hd rest \<noteq> CHR ''x'' \<and> hd rest \<noteq> CHR ''X'')"
  shows "scan_num b (ds @ rest) = Some (False, val_base b ds, rest)"
proof -
  obtain d ds' where ds: "ds = d # ds'" using assms(1) by (cases ds) auto
  have d: "is_digit b d" using assms(2) ds by simp
  have s: "take_sign (skip_ws (ds @ rest)) = (False, ds @ rest)"
    using d assms(3) by (simp add: ds digit_not_space digit_not_sign)
  have x: "(if b = 16 then drop_0x (ds @ rest) else ds @ rest) = ds @ rest"
    using assms drop_0x_digits [of ds b rest] by simp
  show ?thesis
    using assms(1)
    by (simp add: scan_num_def s x takeWhile_append_stop [OF assms(2,4)]
        dropWhile_append_stop [OF assms(2,4)])
qed

lemma scan_num_show:
  assumes "rest = [] \<or> \<not> is_digit 10 (hd rest)"
  shows "scan_num 10 (show_base 10 n @ rest) = Some (False, n, rest)"
  using scan_num_digits [of "show_base 10 n" 10 rest] assms
  by (auto simp: show_base_digits val_show_base)

lemma scan_num_pad:
  assumes "rest = [] \<or> \<not> is_digit 10 (hd rest)"
  shows "scan_num 10 (pad0 w (show_base 10 n) @ rest) = Some (False, n, rest)"
proof -
  have "\<forall>c \<in> set (pad0 w (show_base 10 n)). is_digit 10 c"
    by (auto simp: pad0_def show_base_digits)
  then show ?thesis
    using scan_num_digits [of "pad0 w (show_base 10 n)" 10 rest] assms
    by (simp add: val_base_zeros val_show_base pad0_def)
qed

lemma scan_num_hex_pad:
  shows "scan_num 16 (pad0 w (show_base 16 n)) = Some (False, n, [])"
proof -
  have "\<forall>c \<in> set (pad0 w (show_base 16 n)). is_digit 16 c"
    by (auto simp: pad0_def show_base_digits)
  then show ?thesis
    using scan_num_digits [of "pad0 w (show_base 16 n)" 16 "[]"]
    by (simp add: val_base_zeros val_show_base pad0_def)
qed

lemma scan_num_neg:
  assumes "rest = [] \<or> \<not> is_digit 10 (hd rest)"
  shows "scan_num 10 (CHR ''-'' # show_base 10 n @ rest) = Some (True, n, rest)"
proof -
  have d: "\<forall>c \<in> set (show_base 10 n). is_digit 10 c"
    by (simp add: show_base_digits)
  show ?thesis
    by (simp add: scan_num_def is_space_def takeWhile_append_stop [OF d assms]
        dropWhile_append_stop [OF d assms] val_show_base)
qed

lemma get_signed_show_int:
  assumes "- (2 ^ (w - 1)) \<le> i" and "i < 2 ^ (w - 1)" and "rest = [] \<or> \<not> is_digit 10 (hd rest)"
  shows "get_signed w 10 (show_int i @ rest) = Some (i, rest)"
  using assms
  by (auto simp: get_signed_def show_int_def scan_num_show scan_num_neg)

lemma get_signed_pad:
  assumes "0 \<le> i" and "i < 2 ^ (w - 1)" and "rest = [] \<or> \<not> is_digit 10 (hd rest)"
  shows "get_signed w 10 (pad0 k (show_int i) @ rest) = Some (i, rest)"
proof -
  have "- (2 ^ (w - 1)) \<le> (0 :: int)" by simp
  with assms(1) have "- (2 ^ (w - 1)) \<le> i" by linarith
  with assms show ?thesis
    by (simp add: get_signed_def show_int_def scan_num_pad)
qed

lemma get_unsigned_show_int:
  assumes "0 \<le> i" and "i < 2 ^ w" and "rest = [] \<or> \<not> is_digit 10 (hd rest)"
  shows "get_unsigned w 10 (show_int i @ rest) = Some (i, rest)"
  using assms by (simp add: get_unsigned_def show_int_def scan_num_show)

lemma get_unsigned_hex:
  assumes "n < 2 ^ w"
  shows "get_unsigned w 16 (pad0 k (show_base 16 n)) = Some (int n, [])"
  using assms by (simp add: get_unsigned_def scan_num_hex_pad flip: of_nat_power)

lemma scanf_d_show:
  assumes "int n < 2 ^ 63" and "rest = [] \<or> \<not> is_digit 10 (hd rest)"
  shows "scanf_d (show_base 10 n @ rest) = Some (int n, rest)"
  using assms by (simp add: scanf_d_def scan_num_show)

lemma is_digit_sep [simp]:
  "\<not> is_digit 10 CHR ''/''" "\<not> is_digit 10 CHR ''.''" "\<not> is_digit 10 CHR '':''"
  "\<not> is_digit 10 CHR ''-''" "\<not> is_digit 10 CHR ''d''" "\<not> is_digit 10 CHR ''h''"
  "\<not> is_digit 10 CHR ''m''" "\<not> is_digit 10 CHR ''s''"
  by (auto simp: is_digit_def digit_val_def)

lemma is_space_sep [simp]:
  "\<not> is_space CHR ''/''" "\<not> is_space CHR ''.''" "\<not> is_space CHR '':''" "\<not> is_space CHR ''-''"
  "\<not> is_space CHR ''d''" "\<not> is_space CHR ''h''" "\<not> is_space CHR ''m''" "\<not> is_space CHR ''s''"
  by (auto simp: is_space_def)

lemma lit_Cons [simp]: "lit c (d # s) = (if d = c then Some s else None)"
  by (simp add: lit_def)

lemma lit_Nil [simp]: "lit c [] = None"
  by (simp add: lit_def)

end
