(* ===== verification/CDouble.thy ===== *)
theory CDouble
  imports Streams
begin

text \<open>
  The finite, normal values of the C++ types \<open>float\<close> and \<open>double\<close> as rational numbers: every
  operation of the program on them is the exact operation followed by \<open>fl p\<close>, rounding to the
  nearest number with a \<open>p\<close> bit significand, ties to even (\<open>p\<close> is 53 for a double and 24 for a
  float).  Infinities, NaN, subnormal numbers and overflow to infinity are not represented; the
  quantities of the program stay far from them.  The lemmas bound the rounding error, and show
  that a number that is representable is not changed.
\<close>

section \<open>Powers of two and binary exponents\<close>

definition pow2 :: "int \<Rightarrow> rat" where
  "pow2 e = (if 0 \<le> e then 2 ^ nat e else 1 / 2 ^ nat (- e))"

lemma pow2_pos [simp]: "0 < pow2 e"
  by (simp add: pow2_def)

lemma pow2_powi: "pow2 e = 2 powi e"
  by (simp add: pow2_def power_int_def inverse_eq_divide power_one_over)

lemma pow2_add: "pow2 (a + b) = pow2 a * pow2 b"
  by (simp add: pow2_powi power_int_add)

lemma pow2_diff: "pow2 (a - b) = pow2 a / pow2 b"
  by (simp add: pow2_powi power_int_diff)

lemma pow2_nat: "pow2 (int n) = 2 ^ n"
  by (simp add: pow2_def)

lemma pow2_mono: "a \<le> b \<Longrightarrow> pow2 a \<le> pow2 b"
  by (simp add: pow2_powi power_int_increasing)

lemma pow2_less_iff [simp]: "pow2 a < pow2 b \<longleftrightarrow> a < b"
proof
  assume "pow2 a < pow2 b"
  then show "a < b" by (meson not_le pow2_mono)
next
  assume "a < b"
  then have "pow2 a * 1 < pow2 a * pow2 (b - a)"
    by (intro mult_strict_left_mono) (auto simp: pow2_def)
  then show "pow2 a < pow2 b" by (simp add: pow2_add [symmetric])
qed

text \<open>The floor of a fraction of literals.\<close>

lemma rat_floor_numeral [simp]:
  "\<lfloor>numeral a / numeral b :: rat\<rfloor> = numeral a div numeral b"
  "\<lfloor>1 / numeral b :: rat\<rfloor> = 1 div numeral b"
  "\<lfloor>- (numeral a / numeral b) :: rat\<rfloor> = - numeral a div numeral b"
  "\<lfloor>- (1 / numeral b) :: rat\<rfloor> = - 1 div numeral b"
  using floor_divide_of_int_eq [of "numeral a" "numeral b", where ?'a = rat]
    floor_divide_of_int_eq [of 1 "numeral b", where ?'a = rat]
    floor_divide_of_int_eq [of "- numeral a" "numeral b", where ?'a = rat]
    floor_divide_of_int_eq [of "- 1" "numeral b", where ?'a = rat]
  by simp_all

lemma rat_ceiling_numeral [simp]:
  "\<lceil>numeral a / numeral b :: rat\<rceil> = - (- numeral a div numeral b)"
  "\<lceil>1 / numeral b :: rat\<rceil> = - (- 1 div numeral b)"
  by (simp_all add: ceiling_def)

text \<open>The number of binary digits.\<close>

fun blen :: "nat \<Rightarrow> nat" where
  "blen n = (if n = 0 then 0 else Suc (blen (n div 2)))"

declare blen.simps [simp del]

lemma blen_numeral [simp]:
  "blen 0 = 0" "blen 1 = 1" "blen (Suc 0) = 1"
  "blen (numeral Num.One) = 1"
  "blen (numeral (Num.Bit0 k)) = Suc (blen (numeral k))"
  "blen (numeral (Num.Bit1 k)) = Suc (blen (numeral k))"
proof -
  have "numeral (Num.Bit0 k) div 2 = (numeral k :: nat)" by simp
  moreover have "numeral (Num.Bit1 k) div 2 = (numeral k :: nat)" by simp
  ultimately show "blen (numeral (Num.Bit0 k)) = Suc (blen (numeral k))"
    "blen (numeral (Num.Bit1 k)) = Suc (blen (numeral k))"
    by (simp_all only: blen.simps [of "numeral (Num.Bit0 k)"] blen.simps [of "numeral (Num.Bit1 k)"])
      simp_all
qed (simp_all add: blen.simps)

lemma blen_upper: "n < 2 ^ blen n"
proof (induction n rule: blen.induct)
  case (1 n)
  show ?case
  proof (cases "n = 0")
    case False
    with 1 have "n div 2 + 1 \<le> 2 ^ blen (n div 2)" by simp
    with False show ?thesis by (simp add: blen.simps [of n])
  qed (simp add: blen.simps [of n])
qed

lemma blen_lower: "0 < n \<Longrightarrow> 2 ^ (blen n - 1) \<le> n"
proof (induction n rule: blen.induct)
  case (1 n)
  show ?case
  proof (cases "n div 2 = 0")
    case True
    with "1.prems" show ?thesis by (simp add: blen.simps [of n] blen.simps [of 0])
  next
    case False
    with 1 have "2 ^ (blen (n div 2) - 1) \<le> n div 2" by simp
    then have "2 * 2 ^ (blen (n div 2) - 1) \<le> n" by simp
    moreover have "blen (n div 2) = Suc (blen (n div 2) - 1)"
      using False by (simp add: blen.simps [of "n div 2"])
    ultimately show ?thesis
      using "1.prems" by (simp add: blen.simps [of n]) (metis power_Suc)
  qed
qed

text \<open>The binary exponent of a number that is not 0.\<close>

definition expo :: "rat \<Rightarrow> int" where
  "expo q = (if 1 \<le> \<bar>q\<bar> then int (blen (nat \<lfloor>\<bar>q\<bar>\<rfloor>)) - 1
             else - int (blen (nat (\<lceil>1 / \<bar>q\<bar>\<rceil> - 1))))"

lemma of_nat_less_pow: "n < 2 ^ k \<longleftrightarrow> (of_nat n :: rat) < 2 ^ k"
  by (metis of_nat_less_iff of_nat_numeral of_nat_power)

lemma of_nat_le_pow: "2 ^ k \<le> n \<longleftrightarrow> (2 :: rat) ^ k \<le> of_nat n"
  by (metis of_nat_le_iff of_nat_numeral of_nat_power)

lemma expo_big:
  assumes "1 \<le> a"
  defines "k \<equiv> blen (nat \<lfloor>a :: rat\<rfloor>)"
  shows "pow2 (int k - 1) \<le> a" and "a < pow2 (int k)"
proof -
  have f: "1 \<le> \<lfloor>a\<rfloor>" using assms(1) by simp
  then have n: "0 < nat \<lfloor>a\<rfloor>" by simp
  have "k \<noteq> 0" using n by (simp add: k_def blen.simps [of "nat \<lfloor>a\<rfloor>"])
  have "(2 :: rat) ^ (k - 1) \<le> of_nat (nat \<lfloor>a\<rfloor>)"
    using blen_lower [OF n] by (simp only: k_def of_nat_le_pow)
  also have "\<dots> \<le> a" using f by simp
  finally show "pow2 (int k - 1) \<le> a"
    using \<open>k \<noteq> 0\<close> pow2_nat [of "k - 1"] by (simp add: of_nat_diff)
  have "nat \<lfloor>a\<rfloor> + 1 \<le> 2 ^ k"
    unfolding k_def using blen_upper [of "nat \<lfloor>a\<rfloor>"] by (simp only: Suc_eq_plus1 [symmetric] Suc_le_eq)
  then have "of_nat (nat \<lfloor>a\<rfloor> + 1) \<le> (2 :: rat) ^ k"
    by (metis of_nat_le_iff of_nat_numeral of_nat_power)
  moreover have "of_nat (nat \<lfloor>a\<rfloor> + 1) = of_int \<lfloor>a\<rfloor> + (1 :: rat)" using f by simp
  then have "a < of_nat (nat \<lfloor>a\<rfloor> + 1)" by linarith
  ultimately show "a < pow2 (int k)" by (simp add: pow2_nat)
qed

lemma expo_small:
  assumes "0 < a" and "a < 1"
  defines "k \<equiv> blen (nat (\<lceil>1 / a :: rat\<rceil> - 1))"
  shows "pow2 (- int k) \<le> a" and "a < pow2 (- int k + 1)"
proof -
  have inv: "1 < 1 / a" using assms by simp
  then have c: "2 \<le> \<lceil>1 / a\<rceil>" by linarith
  define n where "n = nat (\<lceil>1 / a\<rceil> - 1)"
  have n: "0 < n" unfolding n_def using c by linarith
  have "k \<noteq> 0" using n by (simp add: k_def n_def [symmetric] blen.simps [of n])
  have "int n = \<lceil>1 / a\<rceil> - 1" unfolding n_def using c by linarith
  then have n1: "of_nat n = of_int \<lceil>1 / a\<rceil> - (1 :: rat)"
    by (metis of_int_1 of_int_diff of_int_of_nat_eq)
  have "n + 1 \<le> 2 ^ k" unfolding k_def n_def
    using blen_upper by (simp only: Suc_eq_plus1 [symmetric] Suc_le_eq)
  then have "of_nat (n + 1) \<le> (2 :: rat) ^ k"
    by (metis of_nat_le_iff of_nat_numeral of_nat_power)
  moreover have "1 / a \<le> of_nat (n + 1)" using n1 by simp
  ultimately have "1 / a \<le> 2 ^ k" by linarith
  then have "1 / 2 ^ k \<le> a" using assms(1) by (simp add: field_simps)
  then show "pow2 (- int k) \<le> a" using \<open>k \<noteq> 0\<close> by (simp add: pow2_def)
  have "(2 :: rat) ^ (k - 1) \<le> of_nat n"
    using blen_lower [OF n] by (simp only: k_def n_def of_nat_le_pow)
  moreover have "of_nat n < 1 / a" using n1 by linarith
  ultimately have "2 ^ (k - 1) < 1 / a" by linarith
  then have "a < 1 / 2 ^ (k - 1)" using assms(1) by (simp add: field_simps)
  moreover have "pow2 (- int k + 1) = 1 / 2 ^ (k - 1)"
    using \<open>k \<noteq> 0\<close> by (cases "k = 1") (auto simp: pow2_def nat_diff_distrib')
  ultimately show "a < pow2 (- int k + 1)" by simp
qed

lemma expo_bounds:
  assumes "q \<noteq> 0"
  shows "pow2 (expo q) \<le> \<bar>q\<bar>" and "\<bar>q\<bar> < pow2 (expo q + 1)"
  using assms expo_big [of "\<bar>q\<bar>"] expo_small [of "\<bar>q\<bar>"]
  by (auto simp: expo_def)

section \<open>Rounding\<close>

text \<open>\<open>rint\<close>: to the nearest integer, ties to even (the default rounding mode).\<close>

definition rne :: "rat \<Rightarrow> int" where
  "rne q = (let f = \<lfloor>q\<rfloor>; r = q - of_int f in
     if r < 1 / 2 then f else if 1 / 2 < r then f + 1 else if even f then f else f + 1)"

definition fl :: "nat \<Rightarrow> rat \<Rightarrow> rat" where
  "fl p q = (if q = 0 then 0
     else let u = pow2 (expo q - (int p - 1)) in of_int (rne (q / u)) * u)"

abbreviation fl_double :: "rat \<Rightarrow> rat" where
  "fl_double \<equiv> fl 53"

abbreviation fl_float :: "rat \<Rightarrow> rat" where
  "fl_float \<equiv> fl 24"

text \<open>Conversion of a floating point number to an integer type truncates towards 0.\<close>

definition c_trunc :: "rat \<Rightarrow> int" where
  "c_trunc q = (if 0 \<le> q then \<lfloor>q\<rfloor> else \<lceil>q\<rceil>)"

lemma rne_error: "\<bar>of_int (rne q) - q\<bar> \<le> 1 / 2"
proof -
  have "of_int \<lfloor>q\<rfloor> \<le> q" and "q < of_int \<lfloor>q\<rfloor> + 1" by linarith+
  then show ?thesis unfolding rne_def Let_def by (auto simp: abs_le_iff)
qed

lemma rne_of_int [simp]: "rne (of_int n) = n"
  by (simp add: rne_def)

lemma rne_nearest:
  assumes "\<bar>q - of_int n\<bar> < 1 / 2"
  shows "rne q = n"
proof -
  have "\<bar>of_int (rne q) - of_int n :: rat\<bar> < 1"
    using assms rne_error [of q] by linarith
  then have "\<bar>rne q - n\<bar> < 1" by (metis of_int_1 of_int_abs of_int_diff of_int_less_iff)
  then show ?thesis by simp
qed

lemma fl_0 [simp]: "fl p 0 = 0"
  by (simp add: fl_def)

lemma fl_error: "\<bar>fl p q - q\<bar> \<le> \<bar>q\<bar> / 2 ^ p"
proof (cases "q = 0")
  case False
  define u where "u = pow2 (expo q - (int p - 1))"
  have u: "0 < u" by (simp add: u_def)
  have "\<bar>of_int (rne (q / u)) - q / u\<bar> * u \<le> 1 / 2 * u"
    using rne_error u by (intro mult_right_mono) auto
  moreover have "fl p q - q = (of_int (rne (q / u)) - q / u) * u"
    using False u by (simp add: fl_def u_def [symmetric] left_diff_distrib)
  ultimately have "\<bar>fl p q - q\<bar> \<le> u / 2" using u by (simp add: abs_mult)
  also have "u / 2 = pow2 (expo q) / 2 ^ p"
    by (simp add: u_def pow2_diff pow2_nat) (simp add: pow2_def)
  also have "\<dots> \<le> \<bar>q\<bar> / 2 ^ p"
    using expo_bounds(1) [OF False] by (intro divide_right_mono) auto
  finally show ?thesis .
qed simp

text \<open>A number with a significand of at most \<open>p\<close> bits is representable.\<close>

lemma fl_exact:
  assumes "q = of_int n * pow2 k" and "\<bar>n\<bar> < 2 ^ p"
  shows "fl p q = q"
proof (cases "q = 0")
  case False
  then have "n \<noteq> 0" using assms(1) by auto
  have "\<bar>pow2 k\<bar> = pow2 k" by (rule abs_of_pos) simp
  then have "\<bar>q\<bar> = of_int \<bar>n\<bar> * pow2 k" using assms(1) by (simp add: abs_mult)
  moreover have "of_int \<bar>n\<bar> * pow2 k < pow2 (int p) * pow2 k"
    using assms(2) by (simp add: pow2_nat) (metis of_int_less_iff of_int_numeral of_int_power of_int_abs)
  ultimately have "\<bar>q\<bar> < pow2 (int p + k)" by (simp add: pow2_add)
  with expo_bounds(1) [OF False] have "pow2 (expo q) < pow2 (int p + k)" by linarith
  then have e: "0 \<le> k - (expo q - (int p - 1))" by simp
  define u where "u = pow2 (expo q - (int p - 1))"
  have "q / u = of_int n * pow2 (k - (expo q - (int p - 1)))"
    using assms(1) by (simp add: u_def pow2_diff)
  also have "\<dots> = of_int (n * 2 ^ nat (k - (expo q - (int p - 1))))"
    using e by (simp add: pow2_def)
  finally have i: "q / u = of_int (n * 2 ^ nat (k - (expo q - (int p - 1))))" .
  have "fl p q = of_int (rne (q / u)) * u" using False by (simp add: fl_def u_def Let_def)
  also have "\<dots> = q / u * u" unfolding i rne_of_int ..
  also have "\<dots> = q" by (simp add: u_def less_imp_neq [OF pow2_pos, symmetric])
  finally show ?thesis .
qed simp

corollary fl_int: "\<bar>n\<bar> < 2 ^ p \<Longrightarrow> fl p (of_int n) = of_int n"
  using fl_exact [of "of_int n" n 0 p] by (simp add: pow2_def)

text \<open>Dividing by 100 and multiplying by 100 again is off by less than a half, and so exact
  after rounding to an integer, for every integer of up to 50 bits.\<close>

lemma rne_hundredths:
  assumes "\<bar>n\<bar> \<le> 2 ^ 50"
  shows "rne (fl_double (fl_double (of_int n / 100) * 100)) = n"
proof -
  define x where "x = fl_double (of_int n / 100)"
  have n: "\<bar>of_int n :: rat\<bar> \<le> 2 ^ 50"
    using assms by (metis of_int_abs of_int_le_iff of_int_numeral of_int_power)
  have "\<bar>x - of_int n / 100\<bar> \<le> \<bar>of_int n / 100\<bar> / 2 ^ 53"
    unfolding x_def by (rule fl_error)
  then have "\<bar>x * 100 - of_int n\<bar> \<le> \<bar>of_int n\<bar> / 2 ^ 53"
    by (simp add: abs_le_iff field_simps)
  then have a: "\<bar>x * 100 - of_int n\<bar> \<le> 1 / 8" using n by (simp add: field_simps)
  then have "\<bar>x * 100\<bar> \<le> 2 ^ 50 + 1 / 8" using n by linarith
  moreover have "\<bar>fl_double (x * 100) - x * 100\<bar> \<le> \<bar>x * 100\<bar> / 2 ^ 53"
    by (rule fl_error)
  ultimately have "\<bar>fl_double (x * 100) - x * 100\<bar> \<le> 1 / 4" by (simp add: field_simps)
  with a have "\<bar>fl_double (x * 100) - of_int n\<bar> < 1 / 2" by linarith
  then show ?thesis unfolding x_def by (rule rne_nearest)
qed

end
