(* ===== verification/Values_Bool.thy ===== *)
theory Values_Bool
  imports Value_Laws CDouble
begin

text \<open>
  The value classes that hold switches and steps: \<open>SwitchingObjectValue\<close> and its template
  \<open>SwitchingImplObjectValue\<close> (DPT 1.x), \<open>SwitchingControlObjectValue\<close> (DPT 2.x), and
  \<open>StepDirObjectValue\<close> with \<open>DimmingObjectValue\<close> (3.007) and \<open>BlindsObjectValue\<close> (3.008), from
  src/objectcontroller.h and .cpp.  The template parameter is the index into the table of names.
\<close>

text \<open>
  \<open>equals\<close>, \<open>compare\<close> and \<open>set\<close> receive a pointer to any \<open>ObjectValue\<close> and \<open>dynamic_cast\<close> it to their
  own class; their second argument here is the result of that cast, \<open>None\<close> for the null pointer.
\<close>

section \<open>DPT 1.x\<close>

definition SwitchingTypes :: "(string \<times> string \<times> string) list" where
  "SwitchingTypes =
    [(''1.xxx'', ''1'', ''0''),
     (''1.001'', ''on'', ''off''),
     (''1.002'', ''true'', ''false''),
     (''1.003'', ''enable'', ''disable''),
     (''1.004'', ''ramp'', ''no ramp''),
     (''1.005'', ''alarm'', ''no alarm''),
     (''1.006'', ''high'', ''low''),
     (''1.007'', ''increase'', ''decrease''),
     (''1.008'', ''down'', ''up''),
     (''1.009'', ''close'', ''open''),
     (''1.010'', ''start'', ''stop''),
     (''1.011'', ''active'', ''inactive''),
     (''1.012'', ''inverted'', ''not inverted''),
     (''1.013'', ''cyclically'', ''start stop''),
     (''1.014'', ''calculated'', ''fixed'')]"

text \<open>\<open>eis\<close> is the template parameter; \<open>SwitchingObjectValue\<close> itself is row 1 of the table.\<close>

record SwitchingObjectValue =
  sw_eis :: nat
  sw_value :: bool

definition SwitchingObjectValue_getType :: "nat \<Rightarrow> string" where
  "SwitchingObjectValue_getType eis = fst (SwitchingTypes ! eis)"

definition SwitchingObjectValue_getValueString :: "nat \<Rightarrow> bool \<Rightarrow> string" where
  "SwitchingObjectValue_getValueString eis value =
     (if value then fst (snd (SwitchingTypes ! eis)) else snd (snd (SwitchingTypes ! eis)))"

definition SwitchingObjectValue_init :: "nat \<Rightarrow> string \<Rightarrow> SwitchingObjectValue result" where
  "SwitchingObjectValue_init eis value =
     (if value = ''1'' \<or> value = ''on'' \<or> value = SwitchingObjectValue_getValueString eis True
      then Inr \<lparr>sw_eis = eis, sw_value = True\<rparr>
      else if value = ''0'' \<or> value = ''off'' \<or> value = SwitchingObjectValue_getValueString eis False
      then Inr \<lparr>sw_eis = eis, sw_value = False\<rparr>
      else Inl (Bad_value (SwitchingObjectValue_getType eis) value))"

definition SwitchingObjectValue_toString :: "SwitchingObjectValue \<Rightarrow> string" where
  "SwitchingObjectValue_toString v = SwitchingObjectValue_getValueString (sw_eis v) (sw_value v)"

definition SwitchingObjectValue_toNumber :: "SwitchingObjectValue \<Rightarrow> rat" where
  "SwitchingObjectValue_toNumber v = (if sw_value v then 1 else 0)"

definition SwitchingObjectValue_equals :: "SwitchingObjectValue \<Rightarrow> SwitchingObjectValue option \<Rightarrow> bool" where
  "SwitchingObjectValue_equals v cast =
     (case cast of None \<Rightarrow> False | Some w \<Rightarrow> sw_value v = sw_value w)"

definition SwitchingObjectValue_compare :: "SwitchingObjectValue \<Rightarrow> SwitchingObjectValue option \<Rightarrow> int" where
  "SwitchingObjectValue_compare v cast =
     (case cast of None \<Rightarrow> 0
      | Some w \<Rightarrow> if sw_value v = sw_value w then 0 else if sw_value v then 1 else - 1)"

text \<open>\<open>set\<close> returns whether the value changed, and the new value of the object.\<close>

definition SwitchingObjectValue_set_bool ::
    "SwitchingObjectValue \<Rightarrow> bool \<Rightarrow> bool \<times> SwitchingObjectValue" where
  "SwitchingObjectValue_set_bool v b =
     (if sw_value v \<noteq> b then (True, v\<lparr>sw_value := b\<rparr>) else (False, v))"

definition SwitchingObjectValue_set ::
    "SwitchingObjectValue \<Rightarrow> SwitchingObjectValue option \<Rightarrow> bool \<times> SwitchingObjectValue" where
  "SwitchingObjectValue_set v cast =
     (case cast of None \<Rightarrow> (False, v) | Some w \<Rightarrow> SwitchingObjectValue_set_bool v (sw_value w))"

definition SwitchingObjectValue_set_double ::
    "SwitchingObjectValue \<Rightarrow> rat \<Rightarrow> bool \<times> SwitchingObjectValue" where
  "SwitchingObjectValue_set_double v d = SwitchingObjectValue_set_bool v (d \<noteq> 0)"

lemmas SwitchingObjectValue_defs [val_defs] =
  SwitchingObjectValue_equals_def SwitchingObjectValue_compare_def SwitchingObjectValue_set_def
  SwitchingObjectValue_set_bool_def SwitchingObjectValue_set_double_def
  SwitchingObjectValue_toNumber_def

interpretation switching: object_value "\<lambda>_. True"
    "\<lambda>v w. SwitchingObjectValue_equals v (Some w)" "\<lambda>v w. SwitchingObjectValue_compare v (Some w)"
    "\<lambda>v w. SwitchingObjectValue_set v (Some w)"
  by unfold_locales (auto simp: val_defs)

section \<open>DPT 2.x\<close>

definition SwitchingControlTypes :: "(string \<times> string \<times> string) list" where
  "SwitchingControlTypes =
    [(''2.xxx'', ''1'', ''0''),
     (''2.001'', ''on'', ''off''),
     (''2.002'', ''true'', ''false''),
     (''2.003'', ''enable'', ''disable''),
     (''2.004'', ''ramp'', ''no ramp''),
     (''2.005'', ''alarm'', ''no alarm''),
     (''2.006'', ''high'', ''low''),
     (''2.007'', ''increase'', ''decrease''),
     (''2.008'', ''down'', ''up''),
     (''2.009'', ''close'', ''open''),
     (''2.010'', ''start'', ''stop''),
     (''2.011'', ''active'', ''inactive''),
     (''2.012'', ''inverted'', ''not inverted'')]"

record SwitchingControlObjectValue =
  sc_eis :: nat
  sc_value :: bool
  sc_control :: bool

definition SwitchingControlObjectValue_getType :: "nat \<Rightarrow> string" where
  "SwitchingControlObjectValue_getType eis = fst (SwitchingControlTypes ! eis)"

definition SwitchingControlObjectValue_getValueString :: "nat \<Rightarrow> bool \<Rightarrow> string" where
  "SwitchingControlObjectValue_getValueString eis value =
     (if value then fst (snd (SwitchingControlTypes ! eis))
      else snd (snd (SwitchingControlTypes ! eis)))"

definition SwitchingControlObjectValue_init :: "nat \<Rightarrow> string \<Rightarrow> SwitchingControlObjectValue result" where
  "SwitchingControlObjectValue_init eis value =
     (let control = (value \<noteq> ''-1'' \<and> value \<noteq> ''no control'') in
      if value = ''1'' \<or> value = ''on'' \<or> value = SwitchingControlObjectValue_getValueString eis True
      then Inr \<lparr>sc_eis = eis, sc_value = True, sc_control = control\<rparr>
      else if \<not> control \<or> value = ''0'' \<or> value = ''off''
            \<or> value = SwitchingControlObjectValue_getValueString eis False
      then Inr \<lparr>sc_eis = eis, sc_value = False, sc_control = control\<rparr>
      else Inl (Bad_value (SwitchingControlObjectValue_getType eis) value))"

definition SwitchingControlObjectValue_toString :: "SwitchingControlObjectValue \<Rightarrow> string" where
  "SwitchingControlObjectValue_toString v =
     (if \<not> sc_control v then ''no control''
      else SwitchingControlObjectValue_getValueString (sc_eis v) (sc_value v))"

definition SwitchingControlObjectValue_toNumber :: "SwitchingControlObjectValue \<Rightarrow> rat" where
  "SwitchingControlObjectValue_toNumber v =
     (if sc_control v then (if sc_value v then 1 else 0) else - 1)"

definition SwitchingControlObjectValue_equals ::
    "SwitchingControlObjectValue \<Rightarrow> SwitchingControlObjectValue option \<Rightarrow> bool" where
  "SwitchingControlObjectValue_equals v cast =
     (case cast of None \<Rightarrow> False
      | Some w \<Rightarrow> (\<not> sc_control v \<and> \<not> sc_control w)
                  \<or> (sc_control v \<and> sc_control w \<and> sc_value v = sc_value w))"

definition SwitchingControlObjectValue_compare ::
    "SwitchingControlObjectValue \<Rightarrow> SwitchingControlObjectValue option \<Rightarrow> int" where
  "SwitchingControlObjectValue_compare v cast =
     (case cast of None \<Rightarrow> 0 | Some w \<Rightarrow>
      if \<not> sc_control v \<and> \<not> sc_control w then 0
      else if sc_control v \<and> \<not> sc_control w then 1
      else if \<not> sc_control v \<and> sc_control w then - 1
      else if sc_value v = sc_value w then 0
      else if sc_value v then 1
      else - 1)"

definition SwitchingControlObjectValue_set_bools ::
    "SwitchingControlObjectValue \<Rightarrow> bool \<Rightarrow> bool \<Rightarrow> bool \<times> SwitchingControlObjectValue" where
  "SwitchingControlObjectValue_set_bools v value control =
     (if sc_control v \<noteq> control \<or> (control \<and> sc_value v \<noteq> value)
      then (True, v\<lparr>sc_value := value, sc_control := control\<rparr>)
      else (False, v))"

definition SwitchingControlObjectValue_set ::
    "SwitchingControlObjectValue \<Rightarrow> SwitchingControlObjectValue option \<Rightarrow> bool \<times> SwitchingControlObjectValue" where
  "SwitchingControlObjectValue_set v cast =
     (case cast of None \<Rightarrow> (False, v)
      | Some w \<Rightarrow> SwitchingControlObjectValue_set_bools v (sc_value w) (sc_control w))"

definition SwitchingControlObjectValue_set_double ::
    "SwitchingControlObjectValue \<Rightarrow> rat \<Rightarrow> bool \<times> SwitchingControlObjectValue" where
  "SwitchingControlObjectValue_set_double v d =
     (if d < 0 then SwitchingControlObjectValue_set_bools v False False
      else SwitchingControlObjectValue_set_bools v (d \<noteq> 0) True)"

lemmas SwitchingControlObjectValue_defs [val_defs] =
  SwitchingControlObjectValue_equals_def SwitchingControlObjectValue_compare_def
  SwitchingControlObjectValue_set_def SwitchingControlObjectValue_set_bools_def
  SwitchingControlObjectValue_set_double_def SwitchingControlObjectValue_toNumber_def

interpretation switching_control: object_value "\<lambda>_. True"
    "\<lambda>v w. SwitchingControlObjectValue_equals v (Some w)" "\<lambda>v w. SwitchingControlObjectValue_compare v (Some w)"
    "\<lambda>v w. SwitchingControlObjectValue_set v (Some w)"
  by unfold_locales (auto simp: val_defs)

section \<open>DPT 3.007 and 3.008\<close>

datatype stepdir_class = Dimming | Blinds

record StepDirObjectValue =
  sd_class :: stepdir_class
  direction_m :: int
  stepcode_m :: int

definition StepDirObjectValue_equals :: "StepDirObjectValue \<Rightarrow> StepDirObjectValue option \<Rightarrow> bool" where
  "StepDirObjectValue_equals v cast =
     (case cast of None \<Rightarrow> False
      | Some w \<Rightarrow> direction_m v = direction_m w \<and> stepcode_m v = stepcode_m w)"

definition StepDirObjectValue_compare :: "StepDirObjectValue \<Rightarrow> StepDirObjectValue option \<Rightarrow> int" where
  "StepDirObjectValue_compare v cast =
     (case cast of None \<Rightarrow> 0 | Some w \<Rightarrow>
      if stepcode_m v = 0 \<and> stepcode_m w = 0 then 0
      else if direction_m v = direction_m w then
        (if stepcode_m v = stepcode_m w then 0
         else if stepcode_m v > stepcode_m w then (if direction_m v \<noteq> 0 then - 1 else 1)
         else (if direction_m v \<noteq> 0 then 1 else - 1))
      else if direction_m v \<noteq> 0 then 1 else - 1)"

definition StepDirObjectValue_assign ::
    "StepDirObjectValue \<Rightarrow> int \<Rightarrow> int \<Rightarrow> bool \<times> StepDirObjectValue" where
  "StepDirObjectValue_assign v direction stepcode =
     (if direction_m v \<noteq> direction \<or> stepcode_m v \<noteq> stepcode
      then (True, v\<lparr>direction_m := direction, stepcode_m := stepcode\<rparr>)
      else (False, v))"

definition StepDirObjectValue_set ::
    "StepDirObjectValue \<Rightarrow> StepDirObjectValue option \<Rightarrow> bool \<times> StepDirObjectValue" where
  "StepDirObjectValue_set v cast =
     (case cast of None \<Rightarrow> (False, v)
      | Some w \<Rightarrow> StepDirObjectValue_assign v (direction_m w) (stepcode_m w))"

definition StepDirObjectValue_set_double ::
    "StepDirObjectValue \<Rightarrow> rat \<Rightarrow> bool \<times> StepDirObjectValue" where
  "StepDirObjectValue_set_double v d =
     (if d < 0 then StepDirObjectValue_assign v 0 (c_trunc (- d))
      else StepDirObjectValue_assign v 1 (c_trunc d))"

definition StepDirObjectValue_toNumber :: "StepDirObjectValue \<Rightarrow> rat" where
  "StepDirObjectValue_toNumber v =
     (if stepcode_m v = 0 then 0
      else (if direction_m v \<noteq> 0 then 1 else - 1) * of_int (stepcode_m v))"

lemmas StepDirObjectValue_defs [val_defs] =
  StepDirObjectValue_equals_def StepDirObjectValue_compare_def StepDirObjectValue_set_def
  StepDirObjectValue_assign_def StepDirObjectValue_set_double_def StepDirObjectValue_toNumber_def

text \<open>
  The part of the parser that \<open>DimmingObjectValue\<close> and \<open>BlindsObjectValue\<close> share word for word:
  the word before the first colon, and the step code from the character after it (1 if there is
  none).
\<close>

definition stepdir_fields :: "string \<Rightarrow> string \<Rightarrow> (string \<times> int) result" where
  "stepdir_fields cls value =
     (let dir = takeWhile (\<lambda>c. c \<noteq> CHR '':'') value;
          rest = dropWhile (\<lambda>c. c \<noteq> CHR '':'') value in
      if length rest > 1 then
        (let step = of_char (rest ! 1) :: nat in
         if 49 \<le> step \<and> step \<le> 55 then Inr (dir, int step - 48)
         else Inl (Bad_value cls value))
      else Inr (dir, 1))"

definition DimmingObjectValue_init :: "string \<Rightarrow> StepDirObjectValue result" where
  "DimmingObjectValue_init value =
     (case stepdir_fields ''DimmingObjectValue'' value of
        Inl e \<Rightarrow> Inl e
      | Inr (dir, step) \<Rightarrow>
          if dir = ''stop'' then Inr \<lparr>sd_class = Dimming, direction_m = 0, stepcode_m = 0\<rparr>
          else if dir = ''up'' then Inr \<lparr>sd_class = Dimming, direction_m = 1, stepcode_m = step\<rparr>
          else if dir = ''down'' then Inr \<lparr>sd_class = Dimming, direction_m = 0, stepcode_m = step\<rparr>
          else Inl (Bad_value ''DimmingObjectValue'' value))"

definition stepdir_suffix :: "int \<Rightarrow> string" where
  "stepdir_suffix stepcode =
     (if stepcode \<noteq> 1 then [CHR '':'', char_of (nat ((48 + stepcode) mod 256))] else [])"

definition DimmingObjectValue_toString :: "StepDirObjectValue \<Rightarrow> string" where
  "DimmingObjectValue_toString v =
     (if stepcode_m v = 0 then ''stop''
      else (if direction_m v \<noteq> 0 then ''up'' else ''down'') @ stepdir_suffix (stepcode_m v))"

definition BlindsObjectValue_init :: "string \<Rightarrow> StepDirObjectValue result" where
  "BlindsObjectValue_init value =
     (case stepdir_fields ''BlindsObjectValue'' value of
        Inl e \<Rightarrow> Inl e
      | Inr (dir, step) \<Rightarrow>
          if dir = ''stop'' then Inr \<lparr>sd_class = Blinds, direction_m = 0, stepcode_m = 0\<rparr>
          else if dir = ''close'' then Inr \<lparr>sd_class = Blinds, direction_m = 1, stepcode_m = step\<rparr>
          else if dir = ''open'' then Inr \<lparr>sd_class = Blinds, direction_m = 0, stepcode_m = step\<rparr>
          else Inl (Bad_value ''BlindsObjectValue'' value))"

definition BlindsObjectValue_toString :: "StepDirObjectValue \<Rightarrow> string" where
  "BlindsObjectValue_toString v =
     (if stepcode_m v = 0 then ''stop''
      else (if direction_m v \<noteq> 0 then ''close'' else ''open'') @ stepdir_suffix (stepcode_m v))"

text \<open>
  The values a telegram or a text yields: a stopped movement has direction 0.  On these the class
  keeps the contract of \<open>ObjectValue\<close>; \<open>set (0.0)\<close> leaves them (theorem
  \<open>stepdir_set_zero_breaks_equals\<close>).
\<close>

definition stepdir_valid :: "StepDirObjectValue \<Rightarrow> bool" where
  "stepdir_valid v \<longleftrightarrow> direction_m v \<in> {0, 1} \<and> stepcode_m v \<in> {0, 1, 2, 3, 4, 5, 6, 7}
     \<and> (stepcode_m v = 0 \<longrightarrow> direction_m v = 0)"

interpretation stepdir: object_value stepdir_valid
    "\<lambda>v w. StepDirObjectValue_equals v (Some w)" "\<lambda>v w. StepDirObjectValue_compare v (Some w)"
    "\<lambda>v w. StepDirObjectValue_set v (Some w)"
proof unfold_locales
  fix a b
  show "StepDirObjectValue_compare b (Some a) = - StepDirObjectValue_compare a (Some b)"
    if "stepdir_valid a" "stepdir_valid b"
    using that unfolding StepDirObjectValue_compare_def stepdir_valid_def
    by (cases "direction_m a = direction_m b") auto
qed (auto simp: val_defs stepdir_valid_def split: if_splits)

section \<open>Properties\<close>

lemma switching_rows:
  assumes "eis < length SwitchingTypes"
  shows "eis \<in> {0, 1, 2, 3, 4, 5, 6, 7, 8, 9, 10, 11, 12, 13, 14}"
  using assms by (auto simp: SwitchingTypes_def numeral_eq_Suc less_Suc_eq)

text \<open>
  For every DPT 1.x type of the table, the text of a switching value is parsed back to the same
  value: exporting an object's value and setting it again changes nothing.
\<close>
theorem switching_text_roundtrip:
  assumes "eis < length SwitchingTypes"
  shows "SwitchingObjectValue_init eis
           (SwitchingObjectValue_toString \<lparr>sw_eis = eis, sw_value = b\<rparr>)
         = Inr \<lparr>sw_eis = eis, sw_value = b\<rparr>"
  using switching_rows [OF assms]
  by (cases b; elim insertE emptyE)
    (simp_all add: SwitchingObjectValue_init_def SwitchingObjectValue_toString_def
      SwitchingObjectValue_getValueString_def SwitchingTypes_def)

theorem switching_text_roundtrip_witness:
  "SwitchingObjectValue_init 8 (SwitchingObjectValue_toString \<lparr>sw_eis = 8, sw_value = False\<rparr>)
   = Inr \<lparr>sw_eis = 8, sw_value = False\<rparr>"
  by (rule switching_text_roundtrip) (simp add: SwitchingTypes_def)

lemma stepdir_suffix_step:
  assumes "s \<in> {2, 3, 4, 5, 6, 7 :: int}"
  shows "stepdir_suffix s = [CHR '':'', char_of (nat (48 + s))]"
  using assms by (auto simp: stepdir_suffix_def)

text \<open>
  The text of a dimming or blinds value (direction and step code 1 to 7, or stop) is parsed back
  to the same direction and step code.
\<close>
theorem stepdir_text_roundtrip:
  assumes "stepdir_valid v"
  shows "(sd_class v = Dimming \<longrightarrow> DimmingObjectValue_init (DimmingObjectValue_toString v) = Inr v) \<and>
         (sd_class v = Blinds \<longrightarrow> BlindsObjectValue_init (BlindsObjectValue_toString v) = Inr v)"
  using assms
  by (cases v)
    (auto simp: stepdir_valid_def stepdir_suffix_def stepdir_fields_def DimmingObjectValue_init_def
      BlindsObjectValue_init_def DimmingObjectValue_toString_def BlindsObjectValue_toString_def)

theorem stepdir_text_roundtrip_witness:
  "DimmingObjectValue_init (DimmingObjectValue_toString
      \<lparr>sd_class = Dimming, direction_m = 1, stepcode_m = 5\<rparr>)
   = Inr \<lparr>sd_class = Dimming, direction_m = 1, stepcode_m = 5\<rparr>"
  using stepdir_text_roundtrip [of "\<lparr>sd_class = Dimming, direction_m = 1, stepcode_m = 5\<rparr>"]
  by (simp add: stepdir_valid_def)

text \<open>
  Setting a step value to the number 0 stores direction 1, while parsing \<open>stop\<close> stores direction
  0: the two compare as equal but are not \<open>equals\<close>, and storing one over the other counts as a change.
\<close>
theorem stepdir_set_zero_breaks_equals:
  assumes "DimmingObjectValue_init ''stop'' = Inr stopped"
    and "StepDirObjectValue_set_double v 0 = (changed, zeroed)"
  shows "StepDirObjectValue_compare zeroed (Some stopped) = 0 \<and>
         \<not> StepDirObjectValue_equals zeroed (Some stopped) \<and>
         fst (StepDirObjectValue_set zeroed (Some stopped))"
  using assms by (auto simp: val_defs DimmingObjectValue_init_def stepdir_fields_def c_trunc_def
      split: if_splits)

theorem stepdir_set_zero_breaks_equals_witness:
  "StepDirObjectValue_compare \<lparr>sd_class = Dimming, direction_m = 1, stepcode_m = 0\<rparr>
      (Some \<lparr>sd_class = Dimming, direction_m = 0, stepcode_m = 0\<rparr>) = 0"
  using stepdir_set_zero_breaks_equals
    [of "\<lparr>sd_class = Dimming, direction_m = 0, stepcode_m = 0\<rparr>"
        "\<lparr>sd_class = Dimming, direction_m = 0, stepcode_m = 3\<rparr>" True
        "\<lparr>sd_class = Dimming, direction_m = 1, stepcode_m = 0\<rparr>"]
  by (simp add: val_defs DimmingObjectValue_init_def stepdir_fields_def c_trunc_def)

end
