(* ===== verification/Values_Time.thy ===== *)
theory Values_Time
  imports Value_Laws CDouble
begin

text \<open>
  The value classes \<open>TimeObjectValue\<close> (DPT 10.001) and \<open>DateObjectValue\<close> (DPT 11.001) of
  src/objectcontroller.cpp.  A value whose hour (or day) is -1 stands for "now": \<open>getTimeValue\<close> and
  \<open>getDateValue\<close> replace it by \<open>localtime (time (0))\<close>, which is the argument \<open>clk\<close> of the operations
  that call them.
\<close>

section \<open>Time of day\<close>

record TimeObjectValue =
  wday_m :: int
  hour_m :: int
  min_m :: int
  sec_m :: int

definition time_now :: TimeObjectValue where
  "time_now = \<lparr>wday_m = - 1, hour_m = - 1, min_m = - 1, sec_m = - 1\<rparr>"

text \<open>\<open>val >> hour_m >> s1 >> min_m >> s2 >> sec_m\<close>, and likewise for a date.\<close>

definition get_triple :: "string \<Rightarrow> (int \<times> char \<times> int \<times> char \<times> int \<times> string) option" where
  "get_triple s =
     Option.bind (get_int s) (\<lambda>(a, r1).
     Option.bind (get_char r1) (\<lambda>(s1, r2).
     Option.bind (get_int r2) (\<lambda>(b, r3).
     Option.bind (get_char r3) (\<lambda>(s2, r4).
     Option.bind (get_int r4) (\<lambda>(c, r5). Some (a, s1, b, s2, c, r5))))))"

definition TimeObjectValue_init :: "string \<Rightarrow> TimeObjectValue result" where
  "TimeObjectValue_init value =
     (if value = ''now'' then Inr time_now
      else case get_triple value of
        None \<Rightarrow> Inl (Bad_value ''TimeObjectValue'' value)
      | Some (hour, s1, mn, s2, sec, rest) \<Rightarrow>
          if rest \<noteq> [] \<or> s1 \<noteq> CHR '':'' \<or> s2 \<noteq> CHR '':''
             \<or> hour < 0 \<or> hour > 23 \<or> mn < 0 \<or> mn > 59 \<or> sec < 0 \<or> sec > 59
          then Inl (Bad_value ''TimeObjectValue'' value)
          else Inr \<lparr>wday_m = 0, hour_m = hour, min_m = mn, sec_m = sec\<rparr>)"

definition TimeObjectValue_toString :: "TimeObjectValue \<Rightarrow> string" where
  "TimeObjectValue_toString v =
     (if hour_m v = - 1 then ''now''
      else pad0 2 (show_int (hour_m v)) @ '':'' @ pad0 2 (show_int (min_m v)) @ '':''
           @ pad0 2 (show_int (sec_m v)))"

definition TimeObjectValue_toNumber :: "TimeObjectValue \<Rightarrow> rat" where
  "TimeObjectValue_toNumber v =
     (if hour_m v = - 1 then - 1 else of_int (hour_m v * 3600 + min_m v * 60 + sec_m v))"

definition TimeObjectValue_getTimeValue :: "tm \<Rightarrow> TimeObjectValue \<Rightarrow> TimeObjectValue" where
  "TimeObjectValue_getTimeValue clk v =
     (if hour_m v = - 1
      then \<lparr>wday_m = (if tm_wday clk = 0 then 7 else tm_wday clk), hour_m = tm_hour clk,
            min_m = tm_min clk, sec_m = tm_sec clk\<rparr>
      else v)"

definition TimeObjectValue_equals :: "tm \<Rightarrow> TimeObjectValue \<Rightarrow> TimeObjectValue option \<Rightarrow> bool" where
  "TimeObjectValue_equals clk v cast =
     (case cast of None \<Rightarrow> False
      | Some val \<Rightarrow>
          let w = TimeObjectValue_getTimeValue clk val in
          sec_m v = sec_m w \<and> min_m v = min_m w \<and> hour_m v = hour_m w \<and> wday_m v = wday_m w)"

definition TimeObjectValue_compare :: "tm \<Rightarrow> TimeObjectValue \<Rightarrow> TimeObjectValue option \<Rightarrow> int" where
  "TimeObjectValue_compare clk v cast =
     (case cast of None \<Rightarrow> 0
      | Some val \<Rightarrow>
          let w = TimeObjectValue_getTimeValue clk val in
          if wday_m v > wday_m w then 1
          else if wday_m v < wday_m w then - 1
          else if hour_m v > hour_m w then 1
          else if hour_m v < hour_m w then - 1
          else if min_m v > min_m w then 1
          else if min_m v < min_m w then - 1
          else if sec_m v > sec_m w then 1
          else if sec_m v < sec_m w then - 1
          else 0)"

definition TimeObjectValue_assign :: "TimeObjectValue \<Rightarrow> TimeObjectValue \<Rightarrow> bool \<times> TimeObjectValue" where
  "TimeObjectValue_assign v w =
     (if wday_m v \<noteq> wday_m w \<or> hour_m v \<noteq> hour_m w \<or> min_m v \<noteq> min_m w \<or> sec_m v \<noteq> sec_m w
      then (True, v\<lparr>wday_m := wday_m w, hour_m := hour_m w, min_m := min_m w, sec_m := sec_m w\<rparr>)
      else (False, v))"

definition TimeObjectValue_set ::
    "tm \<Rightarrow> TimeObjectValue \<Rightarrow> TimeObjectValue option \<Rightarrow> bool \<times> TimeObjectValue" where
  "TimeObjectValue_set clk v cast =
     (case cast of None \<Rightarrow> (False, v)
      | Some val \<Rightarrow> TimeObjectValue_assign v (TimeObjectValue_getTimeValue clk val))"

definition TimeObjectValue_set_double :: "TimeObjectValue \<Rightarrow> rat \<Rightarrow> bool \<times> TimeObjectValue" where
  "TimeObjectValue_set_double v d =
     (if d < 0 then TimeObjectValue_assign v time_now
      else
        let hour = c_trunc (fl_double (d / 3600));
            d1 = fl_double (d - of_int (hour * 3600));
            mn = c_trunc (fl_double (d1 / 60));
            sec = c_trunc (fl_double (d1 - of_int (mn * 60)))
        in TimeObjectValue_assign v \<lparr>wday_m = 0, hour_m = hour, min_m = mn, sec_m = sec\<rparr>)"

lemmas TimeObjectValue_defs [val_defs] =
  TimeObjectValue_equals_def TimeObjectValue_compare_def TimeObjectValue_set_def
  TimeObjectValue_assign_def TimeObjectValue_getTimeValue_def TimeObjectValue_toNumber_def

interpretation time_of_day: object_value "\<lambda>v. hour_m v \<noteq> - 1"
    "\<lambda>v w. TimeObjectValue_equals clk v (Some w)" "\<lambda>v w. TimeObjectValue_compare clk v (Some w)"
    "\<lambda>v w. TimeObjectValue_set clk v (Some w)" for clk
  by unfold_locales (auto simp: val_defs Let_def)

section \<open>Dates\<close>

record DateObjectValue =
  day_m :: int
  month_m :: int
  year_m :: int

definition date_now :: DateObjectValue where
  "date_now = \<lparr>day_m = - 1, month_m = - 1, year_m = - 1\<rparr>"

definition DateObjectValue_init :: "string \<Rightarrow> DateObjectValue result" where
  "DateObjectValue_init value =
     (if value = ''now'' then Inr date_now
      else case get_triple value of
        None \<Rightarrow> Inl (Bad_value ''DateObjectValue'' value)
      | Some (y, s1, month, s2, day, rest) \<Rightarrow>
          let year = y - 1900 in
          if rest \<noteq> [] \<or> s1 \<noteq> CHR ''-'' \<or> s2 \<noteq> CHR ''-''
             \<or> year < 0 \<or> year > 255 \<or> month < 1 \<or> month > 12 \<or> day < 1 \<or> day > 31
          then Inl (Bad_value ''DateObjectValue'' value)
          else Inr \<lparr>day_m = day, month_m = month, year_m = year\<rparr>)"

definition DateObjectValue_toString :: "DateObjectValue \<Rightarrow> string" where
  "DateObjectValue_toString v =
     (if day_m v = - 1 then ''now''
      else show_int (year_m v + 1900) @ ''-'' @ show_int (month_m v) @ ''-'' @ show_int (day_m v))"

definition DateObjectValue_toNumber :: "DateObjectValue \<Rightarrow> rat" where
  "DateObjectValue_toNumber v =
     (if day_m v = - 1 then - 1 else of_int (year_m v * 400 + month_m v * 31 + day_m v))"

definition DateObjectValue_getDateValue :: "tm \<Rightarrow> DateObjectValue \<Rightarrow> DateObjectValue" where
  "DateObjectValue_getDateValue clk v =
     (if day_m v = - 1
      then \<lparr>day_m = tm_mday clk, month_m = tm_mon clk + 1, year_m = tm_year clk\<rparr>
      else v)"

definition DateObjectValue_equals :: "tm \<Rightarrow> DateObjectValue \<Rightarrow> DateObjectValue option \<Rightarrow> bool" where
  "DateObjectValue_equals clk v cast =
     (case cast of None \<Rightarrow> False
      | Some val \<Rightarrow>
          let w = DateObjectValue_getDateValue clk val in
          day_m v = day_m w \<and> month_m v = month_m w \<and> year_m v = year_m w)"

definition DateObjectValue_compare :: "tm \<Rightarrow> DateObjectValue \<Rightarrow> DateObjectValue option \<Rightarrow> int" where
  "DateObjectValue_compare clk v cast =
     (case cast of None \<Rightarrow> 0
      | Some val \<Rightarrow>
          let w = DateObjectValue_getDateValue clk val in
          if year_m v > year_m w then 1
          else if year_m v < year_m w then - 1
          else if month_m v > month_m w then 1
          else if month_m v < month_m w then - 1
          else if day_m v > day_m w then 1
          else if day_m v < day_m w then - 1
          else 0)"

definition DateObjectValue_assign :: "DateObjectValue \<Rightarrow> DateObjectValue \<Rightarrow> bool \<times> DateObjectValue" where
  "DateObjectValue_assign v w =
     (if day_m v \<noteq> day_m w \<or> month_m v \<noteq> month_m w \<or> year_m v \<noteq> year_m w
      then (True, v\<lparr>day_m := day_m w, month_m := month_m w, year_m := year_m w\<rparr>)
      else (False, v))"

definition DateObjectValue_set ::
    "tm \<Rightarrow> DateObjectValue \<Rightarrow> DateObjectValue option \<Rightarrow> bool \<times> DateObjectValue" where
  "DateObjectValue_set clk v cast =
     (case cast of None \<Rightarrow> (False, v)
      | Some val \<Rightarrow> DateObjectValue_assign v (DateObjectValue_getDateValue clk val))"

definition DateObjectValue_set_double :: "DateObjectValue \<Rightarrow> rat \<Rightarrow> bool \<times> DateObjectValue" where
  "DateObjectValue_set_double v d =
     (if d < 0 then DateObjectValue_assign v date_now
      else
        let year = c_trunc (fl_double (d / 400));
            d1 = fl_double (d - of_int (year * 400));
            month = c_trunc (fl_double (d1 / 31));
            day = c_trunc (fl_double (d1 - of_int (month * 31)))
        in DateObjectValue_assign v \<lparr>day_m = day, month_m = month, year_m = year\<rparr>)"

lemmas DateObjectValue_defs [val_defs] =
  DateObjectValue_equals_def DateObjectValue_compare_def DateObjectValue_set_def
  DateObjectValue_assign_def DateObjectValue_getDateValue_def DateObjectValue_toNumber_def

interpretation date: object_value "\<lambda>v. day_m v \<noteq> - 1"
    "\<lambda>v w. DateObjectValue_equals clk v (Some w)" "\<lambda>v w. DateObjectValue_compare clk v (Some w)"
    "\<lambda>v w. DateObjectValue_set clk v (Some w)" for clk
  by unfold_locales (auto simp: val_defs Let_def)

section \<open>Lemmas\<close>

lemma get_char_sep [simp]:
  "\<not> is_space c \<Longrightarrow> get_char (c # s) = Some (c, s)"
  by (simp add: get_char_def)

lemma get_triple_pad:
  assumes "0 \<le> a" "0 \<le> b" "0 \<le> c" "a < 2 ^ 31" "b < 2 ^ 31" "c < 2 ^ 31"
  shows "get_triple (pad0 2 (show_int a) @ '':'' @ pad0 2 (show_int b) @ '':'' @ pad0 2 (show_int c))
         = Some (a, CHR '':'', b, CHR '':'', c, [])"
  using assms get_signed_pad [of c 32 "[]" 2]
  by (simp add: get_triple_def get_signed_pad)

lemma get_triple_show:
  assumes "0 \<le> a" "0 \<le> b" "0 \<le> c" "a < 2 ^ 31" "b < 2 ^ 31" "c < 2 ^ 31"
  shows "get_triple (show_int a @ ''-'' @ show_int b @ ''-'' @ show_int c)
         = Some (a, CHR ''-'', b, CHR ''-'', c, [])"
  using assms get_signed_show_int [of 32 c "[]"]
  by (simp add: get_triple_def get_signed_show_int)

text \<open>Dividing a small number by a small one and truncating: the rounding does not show.\<close>

lemma c_trunc_between: "of_int k \<le> x \<Longrightarrow> x < of_int k + 1 \<Longrightarrow> 0 \<le> k \<Longrightarrow> c_trunc x = k"
  by (auto simp: c_trunc_def floor_unique)

lemma trunc_fl_div:
  assumes "0 \<le> n" and "n < 2 ^ 31" and "0 < m" and "m < 2 ^ 20"
  shows "c_trunc (fl_double (of_int n / of_int m)) = n div m"
proof -
  define q k where "q = (of_int n / of_int m :: rat)" and "k = n div m"
  have m: "(0 :: rat) < of_int m" using assms(3) by simp
  have "n = k * m + n mod m" by (simp add: k_def)
  then have n: "of_int n = of_int k * of_int m + (of_int (n mod m) :: rat)"
    by (metis of_int_add of_int_mult)
  have r: "0 \<le> n mod m" "n mod m \<le> m - 1" using assms(3) by simp_all
  have k: "0 \<le> k" "k < 2 ^ 31"
    using assms pos_imp_zdiv_nonneg_iff [of m n] zdiv_mono2 [of n 1 m] by (auto simp: k_def)
  have q: "q = of_int k + of_int (n mod m) / of_int m"
    using m n by (simp add: q_def add_divide_distrib)
  show ?thesis
  proof (cases "n mod m = 0")
    case True
    then have "fl_double q = of_int k" using q k by (simp add: fl_int)
    then show ?thesis using k by (simp add: q_def k_def c_trunc_def)
  next
    case False
    have "of_int m \<le> (of_int (2 ^ 20) :: rat)" using assms(4) by (simp only: of_int_le_iff)
    then have s: "(1 :: rat) / 2 ^ 20 \<le> 1 / of_int m"
      using m by (intro divide_left_mono) simp_all
    have "1 / of_int m \<le> of_int (n mod m) / (of_int m :: rat)"
      using m r False by (intro divide_right_mono) auto
    moreover have "of_int (n mod m) / of_int m \<le> (of_int (m - 1) / of_int m :: rat)"
      using m r by (intro divide_right_mono) auto
    moreover have "of_int (m - 1) / of_int m = (1 - 1 / of_int m :: rat)"
      using m by (simp add: field_simps)
    ultimately have b: "of_int k + 1 / 2 ^ 20 \<le> q" "q \<le> of_int k + 1 - 1 / 2 ^ 20"
      using q s by linarith+
    have "of_int (k + 1) \<le> (of_int (2 ^ 31) :: rat)"
      using k(2) by (simp only: of_int_le_iff)
    then have "(of_int k :: rat) + 1 \<le> 2 ^ 31" by simp
    moreover have "(0 :: rat) \<le> of_int k" using k(1) by simp
    moreover have "(0 :: rat) < 1 / 2 ^ 20" by simp
    ultimately have "\<bar>q\<bar> \<le> 2 ^ 31" using b by linarith
    then have "\<bar>fl_double q - q\<bar> \<le> 1 / 2 ^ 22"
      using fl_error [of 53 q] by (simp add: field_simps)
    then have "fl_double q \<le> q + 1 / 2 ^ 22" and "q - 1 / 2 ^ 22 \<le> fl_double q"
      unfolding abs_le_iff by linarith+
    moreover have "(1 :: rat) / 2 ^ 22 < 1 / 2 ^ 20" by simp
    ultimately have "of_int k \<le> fl_double q" and "fl_double q < of_int k + 1"
      using b by linarith+
    then show ?thesis
      using k(1) unfolding q_def [symmetric] k_def [symmetric] by (rule c_trunc_between)
  qed
qed

lemma fl_double_int: "\<bar>n\<bar> < 2 ^ 31 \<Longrightarrow> fl_double (of_int n) = of_int n"
  by (rule fl_int) simp

lemma fl_double_mod: "0 < m \<Longrightarrow> m \<le> 2 ^ 31 \<Longrightarrow> fl_double (of_int (n mod m)) = of_int (n mod m)"
  using pos_mod_bound [of m n] pos_mod_sign [of m n] by (intro fl_double_int) linarith

lemma c_trunc_int [simp]: "c_trunc (of_int n) = n"
  by (simp add: c_trunc_def)

text \<open>\<open>set\<close> of a whole number, with the floating point arithmetic evaluated.\<close>

lemma time_set_double_int:
  assumes "0 \<le> n" and "n < 2 ^ 31"
  shows "TimeObjectValue_set_double v (of_int n) =
    TimeObjectValue_assign v \<lparr>wday_m = 0, hour_m = n div 3600, min_m = n mod 3600 div 60,
      sec_m = n mod 3600 mod 60\<rparr>"
proof -
  have h: "c_trunc (fl_double (of_int n / 3600)) = n div 3600"
    using trunc_fl_div [of n 3600] assms by simp
  have r: "n - n div 3600 * 3600 = n mod 3600" by (simp add: minus_div_mult_eq_mod)
  have d: "fl_double (of_int n - of_int (n div 3600 * 3600)) = of_int (n mod 3600)"
    unfolding of_int_diff [symmetric] r
    by (rule fl_double_mod) simp_all
  have m: "0 \<le> n mod 3600" "n mod 3600 < 3600" by simp_all
  have mi: "c_trunc (fl_double (of_int (n mod 3600) / 60)) = n mod 3600 div 60"
    using trunc_fl_div [of "n mod 3600" 60] m by simp
  have r2: "n mod 3600 - n mod 3600 div 60 * 60 = n mod 3600 mod 60"
    by (simp add: minus_div_mult_eq_mod)
  have d2: "fl_double (of_int (n mod 3600) - of_int (n mod 3600 div 60 * 60))
      = of_int (n mod 3600 mod 60)"
    unfolding of_int_diff [symmetric] r2
    by (rule fl_double_mod) simp_all
  show ?thesis
    using assms(1) by (simp only: TimeObjectValue_set_double_def h d mi d2 Let_def c_trunc_int) simp
qed

lemma date_set_double_int:
  assumes "0 \<le> n" and "n < 2 ^ 31"
  shows "DateObjectValue_set_double v (of_int n) =
    DateObjectValue_assign v \<lparr>day_m = n mod 400 mod 31, month_m = n mod 400 div 31,
      year_m = n div 400\<rparr>"
proof -
  have h: "c_trunc (fl_double (of_int n / 400)) = n div 400"
    using trunc_fl_div [of n 400] assms by simp
  have r: "n - n div 400 * 400 = n mod 400" by (simp add: minus_div_mult_eq_mod)
  have d: "fl_double (of_int n - of_int (n div 400 * 400)) = of_int (n mod 400)"
    unfolding of_int_diff [symmetric] r
    by (rule fl_double_mod) simp_all
  have m: "0 \<le> n mod 400" "n mod 400 < 400" by simp_all
  have mi: "c_trunc (fl_double (of_int (n mod 400) / 31)) = n mod 400 div 31"
    using trunc_fl_div [of "n mod 400" 31] m by simp
  have r2: "n mod 400 - n mod 400 div 31 * 31 = n mod 400 mod 31"
    by (simp add: minus_div_mult_eq_mod)
  have d2: "fl_double (of_int (n mod 400) - of_int (n mod 400 div 31 * 31))
      = of_int (n mod 400 mod 31)"
    unfolding of_int_diff [symmetric] r2
    by (rule fl_double_mod) simp_all
  show ?thesis
    using assms(1) by (simp only: DateObjectValue_set_double_def h d mi d2 Let_def c_trunc_int) simp
qed

section \<open>Properties\<close>

definition time_in_range :: "TimeObjectValue \<Rightarrow> bool" where
  "time_in_range w \<longleftrightarrow> wday_m w = 0 \<and> hour_m w \<in> {0..23} \<and> min_m w \<in> {0..59} \<and> sec_m w \<in> {0..59}"

definition date_in_range :: "DateObjectValue \<Rightarrow> bool" where
  "date_in_range w \<longleftrightarrow> day_m w \<in> {1..31} \<and> month_m w \<in> {1..12} \<and> year_m w \<in> {0..255}"

lemma now_not_number [simp]:
  "pad0 w (show_int a) @ CHR '':'' # s \<noteq> ''now''" "show_int a @ CHR ''-'' # s \<noteq> ''now''"
proof -
  have "CHR '':'' \<notin> set ''now''" and "CHR ''-'' \<notin> set ''now''" by auto
  then show "pad0 w (show_int a) @ CHR '':'' # s \<noteq> ''now''" "show_int a @ CHR ''-'' # s \<noteq> ''now''"
    by (metis in_set_conv_decomp)+
qed

lemma assign_time [simp]: "snd (TimeObjectValue_assign v w) = w"
  by (cases v, cases w) (auto simp: TimeObjectValue_assign_def)

lemma assign_date [simp]: "snd (DateObjectValue_assign v w) = w"
  by (cases v, cases w) (auto simp: DateObjectValue_assign_def)

text \<open>
  A time of day and a date survive being written as text and parsed back: times of day with
  two-digit fields, and dates of the years 1900 to 2155.
\<close>
theorem time_date_text_roundtrip:
  "(time_in_range t \<longrightarrow> TimeObjectValue_init (TimeObjectValue_toString t) = Inr t) \<and>
   (date_in_range d \<longrightarrow> DateObjectValue_init (DateObjectValue_toString d) = Inr d)"
proof (intro conjI impI)
  assume t: "time_in_range t"
  then have g: "get_triple (pad0 2 (show_int (hour_m t)) @ '':'' @ pad0 2 (show_int (min_m t)) @ '':''
      @ pad0 2 (show_int (sec_m t))) = Some (hour_m t, CHR '':'', min_m t, CHR '':'', sec_m t, [])"
    by (intro get_triple_pad) (auto simp: time_in_range_def)
  show "TimeObjectValue_init (TimeObjectValue_toString t) = Inr t"
    using t g by (cases t) (auto simp: TimeObjectValue_init_def TimeObjectValue_toString_def
        time_in_range_def)
next
  assume d: "date_in_range d"
  then have g: "get_triple (show_int (year_m d + 1900) @ ''-'' @ show_int (month_m d) @ ''-''
      @ show_int (day_m d)) = Some (year_m d + 1900, CHR ''-'', month_m d, CHR ''-'', day_m d, [])"
    by (intro get_triple_show) (auto simp: date_in_range_def)
  show "DateObjectValue_init (DateObjectValue_toString d) = Inr d"
    using d g by (cases d) (auto simp: DateObjectValue_init_def DateObjectValue_toString_def
        date_in_range_def)
qed

theorem time_date_text_roundtrip_witness:
  "TimeObjectValue_init (TimeObjectValue_toString
     \<lparr>wday_m = 0, hour_m = 7, min_m = 5, sec_m = 59\<rparr>) = Inr \<lparr>wday_m = 0, hour_m = 7, min_m = 5, sec_m = 59\<rparr>
   \<and> DateObjectValue_init (DateObjectValue_toString \<lparr>day_m = 31, month_m = 12, year_m = 107\<rparr>)
     = Inr \<lparr>day_m = 31, month_m = 12, year_m = 107\<rparr>"
  using time_date_text_roundtrip [of "\<lparr>wday_m = 0, hour_m = 7, min_m = 5, sec_m = 59\<rparr>"
      "\<lparr>day_m = 31, month_m = 12, year_m = 107\<rparr>"]
  by (simp add: time_in_range_def date_in_range_def)

text \<open>
  A time of day survives the conversion to a number of seconds and back through \<open>set (double)\<close>,
  with the arithmetic in double precision.
\<close>
theorem time_number_roundtrip:
  assumes "time_in_range w"
  shows "snd (TimeObjectValue_set_double v (TimeObjectValue_toNumber w)) = w"
proof -
  let ?n = "hour_m w * 3600 + min_m w * 60 + sec_m w"
  have w: "wday_m w = 0" "0 \<le> hour_m w" "hour_m w \<le> 23" "0 \<le> min_m w" "min_m w \<le> 59"
    "0 \<le> sec_m w" "sec_m w \<le> 59"
    using assms by (auto simp: time_in_range_def)
  have "?n div 3600 = hour_m w" and "?n mod 3600 = min_m w * 60 + sec_m w"
    using w by (auto intro!: int_div_pos_eq int_mod_pos_eq)
  moreover have "(min_m w * 60 + sec_m w) div 60 = min_m w" and "(min_m w * 60 + sec_m w) mod 60 = sec_m w"
    using w by (auto intro!: int_div_pos_eq int_mod_pos_eq)
  moreover have "TimeObjectValue_toNumber w = of_int ?n"
    using w by (simp add: TimeObjectValue_toNumber_def)
  ultimately show ?thesis
    using w time_set_double_int [of ?n v] by (cases w) simp
qed

theorem time_number_roundtrip_witness:
  "snd (TimeObjectValue_set_double time_now (TimeObjectValue_toNumber
      \<lparr>wday_m = 0, hour_m = 23, min_m = 59, sec_m = 58\<rparr>)) = \<lparr>wday_m = 0, hour_m = 23, min_m = 59, sec_m = 58\<rparr>"
  by (rule time_number_roundtrip) (simp add: time_in_range_def)

text \<open>
  A date survives the conversion to a number and back exactly when its day is at most 30 and
  \<open>31 * month + day\<close> is below 400: the 31st of a month, and the 28th to 30th of December, come back
  as another date.
\<close>
theorem date_number_roundtrip_iff:
  assumes "date_in_range w"
  shows "snd (DateObjectValue_set_double v (DateObjectValue_toNumber w)) = w \<longleftrightarrow>
           day_m w \<le> 30 \<and> month_m w * 31 + day_m w < 400"
proof -
  let ?n = "year_m w * 400 + month_m w * 31 + day_m w"
  let ?md = "month_m w * 31 + day_m w"
  have w: "1 \<le> day_m w" "day_m w \<le> 31" "1 \<le> month_m w" "month_m w \<le> 12" "0 \<le> year_m w" "year_m w \<le> 255"
    using assms by (auto simp: date_in_range_def)
  have "DateObjectValue_toNumber w = of_int ?n"
    using w by (simp add: DateObjectValue_toNumber_def)
  then have s: "snd (DateObjectValue_set_double v (DateObjectValue_toNumber w)) =
      \<lparr>day_m = ?n mod 400 mod 31, month_m = ?n mod 400 div 31, year_m = ?n div 400\<rparr>"
    using w date_set_double_int [of ?n v] by simp
  have eq: "snd (DateObjectValue_set_double v (DateObjectValue_toNumber w)) = w \<longleftrightarrow>
      ?n mod 400 mod 31 = day_m w \<and> ?n mod 400 div 31 = month_m w \<and> ?n div 400 = year_m w"
    unfolding s by (cases w) auto
  show ?thesis
  proof (cases "?md < 400")
    case True
    then have "?n div 400 = year_m w" "?n mod 400 = ?md"
      using w by (auto intro!: int_div_pos_eq int_mod_pos_eq)
    moreover have "?md mod 31 = day_m w \<longleftrightarrow> day_m w \<le> 30" using w by (cases "day_m w = 31") auto
    moreover have "day_m w \<le> 30 \<Longrightarrow> ?md div 31 = month_m w" using w by (auto intro!: int_div_pos_eq)
    ultimately show ?thesis using True eq by auto
  next
    case False
    then have "?n div 400 = year_m w + 1" using w by (auto intro!: int_div_pos_eq)
    then show ?thesis using False eq by simp
  qed
qed

theorem date_number_roundtrip_iff_witness:
  "snd (DateObjectValue_set_double date_now (DateObjectValue_toNumber
      \<lparr>day_m = 31, month_m = 1, year_m = 120\<rparr>)) \<noteq> \<lparr>day_m = 31, month_m = 1, year_m = 120\<rparr>"
  using date_number_roundtrip_iff [of "\<lparr>day_m = 31, month_m = 1, year_m = 120\<rparr>" date_now]
  by (simp add: date_in_range_def)

end
