(* ===== verification/DoubleText.thy ===== *)
theory DoubleText
  imports CDouble
begin

text \<open>
  Floating point numbers as text: \<open>istringstream >> x\<close> for a \<open>double\<close> or \<open>float\<close>, and
  \<open>out.precision (P); out << x\<close>, which formats like \<open>printf\<close>'s \<open>%.Pg\<close>.  Both directions are correctly
  rounded, as they are in the C library the program is built with.
\<close>

section \<open>Extraction\<close>

text \<open>The characters of a decimal number: sign, digits before and after the point, exponent, rest.\<close>

definition split_point :: "string \<Rightarrow> string \<times> string" where
  "split_point s = (case s of c # r \<Rightarrow>
     if c = CHR ''.'' then (takeWhile (is_digit 10) r, dropWhile (is_digit 10) r) else ([], s)
     | [] \<Rightarrow> ([], []))"

text \<open>After an \<open>e\<close>: the sign and digits of the exponent; \<open>None\<close> when the digits are missing.\<close>

definition split_exponent :: "string \<Rightarrow> (bool \<times> string \<times> string) option" where
  "split_exponent s = (case s of c # r \<Rightarrow>
     if c = CHR ''e'' \<or> c = CHR ''E'' then
       (case take_sign r of (neg, r1) \<Rightarrow>
          if takeWhile (is_digit 10) r1 = [] then None
          else Some (neg, takeWhile (is_digit 10) r1, dropWhile (is_digit 10) r1))
     else Some (False, [], s)
     | [] \<Rightarrow> Some (False, [], []))"

definition decimal :: "bool \<Rightarrow> string \<Rightarrow> string \<Rightarrow> bool \<Rightarrow> string \<Rightarrow> rat" where
  "decimal neg ip fp eneg ed =
     (if neg then - 1 else 1) * (of_nat (val_base 10 (ip @ fp)) / 10 ^ length fp)
       * (if eneg then 1 / 10 ^ val_base 10 ed else 10 ^ val_base 10 ed)"

text \<open>A number too large for the type sets \<open>failbit\<close>.\<close>

definition round_text :: "nat \<Rightarrow> rat \<Rightarrow> string \<Rightarrow> (rat \<times> string) option" where
  "round_text p q rest =
     (if (if p = 53 then 2 ^ 1024 else 2 ^ 128) \<le> \<bar>fl p q\<bar> then None else Some (fl p q, rest))"

definition get_float :: "nat \<Rightarrow> string \<Rightarrow> (rat \<times> string) option" where
  "get_float p s =
     (case take_sign (skip_ws s) of (neg, s1) \<Rightarrow>
      case split_point (dropWhile (is_digit 10) s1) of (fp, s2) \<Rightarrow>
      if takeWhile (is_digit 10) s1 @ fp = [] then None
      else case split_exponent s2 of
             None \<Rightarrow> None
           | Some (eneg, ed, rest) \<Rightarrow>
               round_text p (decimal neg (takeWhile (is_digit 10) s1) fp eneg ed) rest)"

abbreviation get_double :: "string \<Rightarrow> (rat \<times> string) option" where
  "get_double \<equiv> get_float 53"

section \<open>Insertion\<close>

text \<open>The number of decimal digits of a number (none for 0), and the decimal exponent.\<close>

fun dlen :: "nat \<Rightarrow> nat" where
  "dlen n = (if n = 0 then 0 else Suc (dlen (n div 10)))"

declare dlen.simps [simp del]

lemma dlen_numeral [simp]:
  "dlen 0 = 0" "dlen 1 = 1" "dlen (Suc 0) = 1"
  "dlen (numeral k) = Suc (dlen (numeral k div 10))"
  by (simp_all add: dlen.simps)

definition dexpo :: "rat \<Rightarrow> int" where
  "dexpo q = (if 1 \<le> q then int (dlen (nat \<lfloor>q\<rfloor>)) - 1 else - int (dlen (nat (\<lceil>1 / q\<rceil> - 1))))"

definition pow10 :: "int \<Rightarrow> rat" where
  "pow10 e = (if 0 \<le> e then 10 ^ nat e else 1 / 10 ^ nat (- e))"

definition strip_zeros :: "string \<Rightarrow> string" where
  "strip_zeros s = rev (dropWhile (\<lambda>c. c = CHR ''0'') (rev s))"

definition with_point :: "string \<Rightarrow> string \<Rightarrow> string" where
  "with_point ip fp = (let f = strip_zeros fp in if f = [] then ip else ip @ CHR ''.'' # f)"

text \<open>\<open>%.Pg\<close> of a positive number: \<open>P\<close> significant digits, and the exponent they stand at.\<close>

definition sig_digits :: "nat \<Rightarrow> rat \<Rightarrow> nat \<times> int" where
  "sig_digits P q =
     (let x = dexpo q; m = nat (rne (q / pow10 (x - (int P - 1))))
      in if 10 ^ P \<le> m then (10 ^ (P - 1), x + 1) else (m, x))"

definition fmt_g_pos :: "nat \<Rightarrow> rat \<Rightarrow> string" where
  "fmt_g_pos P q =
     (let (m, x) = sig_digits P q; ds = pad0 P (show_base 10 m) in
      if - 4 \<le> x \<and> x < int P then
        (if 0 \<le> x then with_point (take (Suc (nat x)) ds) (drop (Suc (nat x)) ds)
         else with_point ''0'' (replicate (nat (- x) - 1) CHR ''0'' @ ds))
      else with_point (take 1 ds) (drop 1 ds) @ CHR ''e'' # (if x < 0 then CHR ''-'' else CHR ''+'')
           # pad0 2 (show_base 10 (nat \<bar>x\<bar>)))"

definition fmt_g :: "nat \<Rightarrow> rat \<Rightarrow> string" where
  "fmt_g P q = (if q = 0 then ''0'' else if q < 0 then CHR ''-'' # fmt_g_pos P (- q) else fmt_g_pos P q)"

lemmas fmt_defs =
  fmt_g_def fmt_g_pos_def sig_digits_def dexpo_def pow10_def with_point_def strip_zeros_def
  pad0_def Let_def rne_def

lemmas get_float_defs =
  get_float_def split_point_def split_exponent_def skip_ws_def is_space_def is_digit_def
  digit_val_def

lemmas float_defs = fl_def expo_def pow2_def rne_def Let_def

end
