(* ===== verification/Values_Number.thy ===== *)
theory Values_Number
  imports Value_Laws DoubleText
begin

text \<open>
  The value classes that hold numbers, from src/objectcontroller.h and .cpp: \<open>ValueObjectValue\<close> with
  \<open>ValueImplObjectValue\<close> (DPT 9.x, two byte floating point) and \<open>ValueObject32Value\<close> (14.xxx),
  \<open>UIntObjectValue\<close> with its subclasses (8, 16 and 32 bit unsigned numbers, percentages, angles,
  heating modes, characters and colours), \<open>IntObjectValue\<close> (6.xxx, 8.xxx, 13.xxx) and
  \<open>S64ObjectValue\<close> (29.xxx and 251.600).
\<close>

section \<open>DPT 9.x and 14.xxx\<close>

text \<open>The table of bounds; the rows without a type are the gaps of the array.\<close>

definition FloatValueTypes :: "(string \<times> rat \<times> rat) list" where
  "FloatValueTypes =
    [(''9.xxx'', - 67108864 / 100, 67076096 / 100),
     (''9.001'', - 273, 670760), (''9.002'', - 670760, 670760), (''9.003'', - 670760, 670760),
     (''9.004'', 0, 670760), (''9.005'', 0, 670760), (''9.006'', 0, 670760),
     (''9.007'', 0, 670760), (''9.008'', 0, 670760), ('''', 0, 0),
     (''9.010'', - 670760, 670760), (''9.011'', - 670760, 670760), ('''', 0, 0),
     ('''', 0, 0), ('''', 0, 0), ('''', 0, 0), ('''', 0, 0), ('''', 0, 0), ('''', 0, 0), ('''', 0, 0),
     (''9.020'', - 670760, 670760), (''9.021'', - 670760, 670760), (''9.022'', - 670760, 670760),
     (''9.023'', - 670760, 670760), (''9.024'', - 670760, 670760), (''9.025'', - 670760, 670760),
     (''9.026'', - 67108864 / 100, 67076096 / 100), (''9.027'', - 4596 / 10, 67076096 / 100),
     (''9.028'', 0, 67076096 / 100)]"

text \<open>\<open>Dpt9 n\<close> is \<open>ValueImplObjectValue<n>\<close>, \<open>Dpt14\<close> is \<open>ValueObject32Value\<close>.\<close>

datatype value_class = Dpt9 nat | Dpt14

record ValueObjectValue =
  vl_class :: value_class
  vl_value :: rat
  precision_m :: rat

fun ValueObjectValue_getType :: "value_class \<Rightarrow> string" where
  "ValueObjectValue_getType (Dpt9 subtype) = fst (FloatValueTypes ! subtype)"
| "ValueObjectValue_getType Dpt14 = ''14.xxx''"

definition ValueImpl_getBound :: "nat \<Rightarrow> bool \<Rightarrow> rat" where
  "ValueImpl_getBound subtype upper =
     fl_double (if upper then snd (snd (FloatValueTypes ! subtype))
                else fst (snd (FloatValueTypes ! subtype)))"

definition ValueObjectValue_init :: "nat \<Rightarrow> string \<Rightarrow> ValueObjectValue result" where
  "ValueObjectValue_init subtype value =
     (case get_double value of
        None \<Rightarrow> Inl (Bad_value (ValueObjectValue_getType (Dpt9 subtype)) value)
      | Some (x, rest) \<Rightarrow>
          if rest \<noteq> [] \<or> x > ValueImpl_getBound subtype True \<or> x < ValueImpl_getBound subtype False
          then Inl (Bad_value (ValueObjectValue_getType (Dpt9 subtype)) value)
          else Inr \<lparr>vl_class = Dpt9 subtype, vl_value = x, precision_m = 0\<rparr>)"

definition ValueObject32Value_init :: "string \<Rightarrow> ValueObjectValue result" where
  "ValueObject32Value_init value =
     (case get_double value of
        None \<Rightarrow> Inl (Bad_value ''ValueObject32Value'' value)
      | Some (x, rest) \<Rightarrow>
          if rest \<noteq> [] then Inl (Bad_value ''ValueObject32Value'' value)
          else Inr \<lparr>vl_class = Dpt14, vl_value = x, precision_m = 0\<rparr>)"

definition ValueObjectValue_setPrecision :: "ValueObjectValue \<Rightarrow> string \<Rightarrow> ValueObjectValue result" where
  "ValueObjectValue_setPrecision v precision =
     (case get_double precision of
        None \<Rightarrow> Inl (Bad_precision precision)
      | Some (x, rest) \<Rightarrow>
          if rest \<noteq> [] then Inl (Bad_precision precision) else Inr (v\<lparr>precision_m := x\<rparr>))"

definition ValueObjectValue_getPrecision :: "ValueObjectValue \<Rightarrow> string" where
  "ValueObjectValue_getPrecision v = (if precision_m v = 0 then '''' else fmt_g 6 (precision_m v))"

definition ValueObjectValue_toString :: "ValueObjectValue \<Rightarrow> string" where
  "ValueObjectValue_toString v = fmt_g 8 (vl_value v)"

definition ValueObjectValue_equals :: "ValueObjectValue \<Rightarrow> ValueObjectValue option \<Rightarrow> bool" where
  "ValueObjectValue_equals v cast =
     (case cast of None \<Rightarrow> False | Some w \<Rightarrow> vl_value v = vl_value w)"

definition ValueObjectValue_compare :: "ValueObjectValue \<Rightarrow> ValueObjectValue option \<Rightarrow> int" where
  "ValueObjectValue_compare v cast =
     (case cast of None \<Rightarrow> 0
      | Some w \<Rightarrow> if vl_value v = vl_value w then 0 else if vl_value v > vl_value w then 1 else - 1)"

text \<open>The shifts that bring a mantissa into range: \<open>while (m > lim) { m = m >> 1; ex++; }\<close>.\<close>

function knx_shift :: "nat \<Rightarrow> nat \<Rightarrow> nat \<Rightarrow> nat \<times> nat" where
  "knx_shift limit m ex = (if m > limit then knx_shift limit (m div 2) (Suc ex) else (m, ex))"
  by auto
termination by (relation "measure (\<lambda>(limit, m, ex). m)") auto

declare knx_shift.simps [simp del]

text \<open>Mantissa and exponent of a number of hundredths.\<close>

definition knx_normalise :: "int \<Rightarrow> int \<times> nat" where
  "knx_normalise m =
     (if m < 0 then (case knx_shift 2048 (nat (- m)) 0 of (m', ex) \<Rightarrow> (- int m', ex))
      else (case knx_shift 2047 (nat m) 0 of (m', ex) \<Rightarrow> (int m', ex)))"

definition roundToKnxPrecision :: "rat \<Rightarrow> rat" where
  "roundToKnxPrecision value =
     (case knx_normalise (rne (fl_double (value * 100))) of
        (m, ex) \<Rightarrow> fl_double (fl_double (of_int m * 2 ^ ex) / 100))"

text \<open>The virtual \<open>roundToKnxPrecision\<close>: \<open>ValueObject32Value\<close> overrides it with the identity.\<close>

definition round_value :: "value_class \<Rightarrow> rat \<Rightarrow> rat" where
  "round_value c value = (case c of Dpt9 _ \<Rightarrow> roundToKnxPrecision value | Dpt14 \<Rightarrow> value)"

definition ValueObjectValue_set_double :: "ValueObjectValue \<Rightarrow> rat \<Rightarrow> bool \<times> ValueObjectValue" where
  "ValueObjectValue_set_double v value =
     (let x = (if precision_m v \<noteq> 0 then
                 fl_double (of_int (c_trunc (fl_double (fl_double (value / precision_m v)
                    + (if value \<ge> 0 then 1 / 2 else - 1 / 2)))) * precision_m v)
               else round_value (vl_class v) value)
      in if vl_value v \<noteq> x then (True, v\<lparr>vl_value := x\<rparr>) else (False, v))"

definition ValueObjectValue_set ::
    "ValueObjectValue \<Rightarrow> ValueObjectValue option \<Rightarrow> bool \<times> ValueObjectValue" where
  "ValueObjectValue_set v cast =
     (case cast of None \<Rightarrow> (False, v) | Some w \<Rightarrow> ValueObjectValue_set_double v (vl_value w))"

section \<open>Unsigned integers\<close>

datatype uint_class =
  U8 | U8Count | Scaling | Angle | HeatingMode | Latin1Char | AsciiChar | U16 | U32 | RGB

record UIntObjectValue =
  ui_class :: uint_class
  ui_value :: u32

text \<open>The constructors that read a number in some base and check its range.\<close>

definition uint_init :: "uint_class \<Rightarrow> string \<Rightarrow> nat \<Rightarrow> int \<Rightarrow> string \<Rightarrow> UIntObjectValue result" where
  "uint_init c name base limit value =
     (case get_unsigned 32 base value of
        None \<Rightarrow> Inl (Bad_value name value)
      | Some (n, rest) \<Rightarrow>
          if rest \<noteq> [] \<or> n > limit then Inl (Bad_value name value)
          else Inr \<lparr>ui_class = c, ui_value = word_of_int n\<rparr>)"

definition U8ObjectValue_init :: "uint_class \<Rightarrow> string \<Rightarrow> UIntObjectValue result" where
  "U8ObjectValue_init c value = uint_init c ''U8ObjectValue'' 10 255 value"

definition U16ObjectValue_init :: "string \<Rightarrow> UIntObjectValue result" where
  "U16ObjectValue_init value = uint_init U16 ''U16ObjectValue'' 10 65535 value"

definition U32ObjectValue_init :: "string \<Rightarrow> UIntObjectValue result" where
  "U32ObjectValue_init value = uint_init U32 ''U32ObjectValue'' 10 (2 ^ 32 - 1) value"

definition RGBObjectValue_init :: "string \<Rightarrow> UIntObjectValue result" where
  "RGBObjectValue_init value = uint_init RGB ''RGBObjectValue'' 16 (2 ^ 32 - 1) value"

text \<open>The constructors that read a \<open>float\<close> between 0 and a limit and scale it.\<close>

definition get_scaled :: "string \<Rightarrow> rat \<Rightarrow> string \<Rightarrow> rat result" where
  "get_scaled name limit value =
     (case get_float 24 value of
        None \<Rightarrow> Inl (Bad_value name value)
      | Some (x, rest) \<Rightarrow>
          if rest \<noteq> [] \<or> x > limit \<or> x < 0 then Inl (Bad_value name value) else Inr x)"

definition ScalingObjectValue_init :: "string \<Rightarrow> UIntObjectValue result" where
  "ScalingObjectValue_init value =
     (case get_scaled ''ScalingObjectValue'' 100 value of
        Inl e \<Rightarrow> Inl e
      | Inr x \<Rightarrow> Inr \<lparr>ui_class = Scaling,
                     ui_value = word_of_int (c_trunc (fl_float (fl_float (x * 255) / 100)))\<rparr>)"

definition AngleObjectValue_init :: "string \<Rightarrow> UIntObjectValue result" where
  "AngleObjectValue_init value =
     (case get_scaled ''AngleObjectValue'' 360 value of
        Inl e \<Rightarrow> Inl e
      | Inr x \<Rightarrow> Inr \<lparr>ui_class = Angle,
                     ui_value = word_of_int
                       (c_mod (c_trunc (fl_float (fl_float (x * 256) / 360))) 256)\<rparr>)"

definition HeatingModeObjectValue_init :: "string \<Rightarrow> UIntObjectValue result" where
  "HeatingModeObjectValue_init value =
     (if value = ''comfort'' then Inr \<lparr>ui_class = HeatingMode, ui_value = 1\<rparr>
      else if value = ''standby'' then Inr \<lparr>ui_class = HeatingMode, ui_value = 2\<rparr>
      else if value = ''night'' then Inr \<lparr>ui_class = HeatingMode, ui_value = 3\<rparr>
      else if value = ''frost'' then Inr \<lparr>ui_class = HeatingMode, ui_value = 4\<rparr>
      else if value = ''auto'' then Inr \<lparr>ui_class = HeatingMode, ui_value = 0\<rparr>
      else Inl (Bad_value ''HeatingModeObjectValue'' value))"

text \<open>\<open>StringObjectValue::transcode\<close>, on the result of \<open>iconv\<close>.\<close>

definition transcode :: "(string \<Rightarrow> string option) \<Rightarrow> string \<Rightarrow> string" where
  "transcode iconv source =
     (if source = [] then source
      else case iconv source of None \<Rightarrow> source | Some target \<Rightarrow> target)"

definition Latin1CharObjectValue_init :: "env \<Rightarrow> string \<Rightarrow> UIntObjectValue result" where
  "Latin1CharObjectValue_init env value =
     (case get_char (transcode (iconv_to_latin1 env) value) of
        None \<Rightarrow> Inl (Bad_value ''Latin1CharObjectValue'' value)
      | Some (c, rest) \<Rightarrow>
          if rest \<noteq> [] then Inl (Bad_value ''Latin1CharObjectValue'' value)
          else Inr \<lparr>ui_class = Latin1Char, ui_value = of_char c\<rparr>)"

definition AsciiCharObjectValue_init :: "string \<Rightarrow> UIntObjectValue result" where
  "AsciiCharObjectValue_init value =
     (case get_char value of
        None \<Rightarrow> Inl (Bad_value ''AsciiCharObjectValue'' value)
      | Some (c, rest) \<Rightarrow>
          if rest \<noteq> [] \<or> (of_char c :: nat) > 127
          then Inl (Bad_value ''AsciiCharObjectValue'' value)
          else Inr \<lparr>ui_class = AsciiChar, ui_value = of_char c\<rparr>)"

text \<open>
  The \<open>toString\<close> of the classes: \<open>UIntObjectValue\<close>, \<open>U8ObjectValue\<close>, \<open>U16ObjectValue\<close> and \<open>U32ObjectValue\<close>
  print the number.
\<close>

definition U8ObjectValue_toString :: "UIntObjectValue \<Rightarrow> string" where
  "U8ObjectValue_toString v = show_base 10 (unat (ui_value v))"

definition U16ObjectValue_toString :: "UIntObjectValue \<Rightarrow> string" where
  "U16ObjectValue_toString v = show_base 10 (unat (ui_value v))"

definition U32ObjectValue_toString :: "UIntObjectValue \<Rightarrow> string" where
  "U32ObjectValue_toString v = show_base 10 (unat (ui_value v))"

definition ScalingObjectValue_toString :: "UIntObjectValue \<Rightarrow> string" where
  "ScalingObjectValue_toString v =
     fmt_g 3 (fl_float (fl_float (fl_float (of_nat (unat (ui_value v))) * 100) / 255))"

definition AngleObjectValue_toString :: "UIntObjectValue \<Rightarrow> string" where
  "AngleObjectValue_toString v =
     fmt_g 4 (fl_float (fl_float (fl_float (of_nat (unat (ui_value v))) * 360) / 256))"

definition HeatingModeObjectValue_toString :: "UIntObjectValue \<Rightarrow> string" where
  "HeatingModeObjectValue_toString v =
     (if ui_value v = 0 then ''auto'' else if ui_value v = 1 then ''comfort''
      else if ui_value v = 2 then ''standby'' else if ui_value v = 3 then ''night''
      else if ui_value v = 4 then ''frost'' else ''frost'')"

definition Latin1CharObjectValue_toString :: "env \<Rightarrow> UIntObjectValue \<Rightarrow> string" where
  "Latin1CharObjectValue_toString env v =
     transcode (iconv_to_utf8 env) [char_of (unat (ui_value v))]"

definition AsciiCharObjectValue_toString :: "UIntObjectValue \<Rightarrow> string" where
  "AsciiCharObjectValue_toString v = [char_of (unat (ui_value v))]"

definition RGBObjectValue_toString :: "UIntObjectValue \<Rightarrow> string" where
  "RGBObjectValue_toString v = pad0 6 (show_base 16 (unat (ui_value v)))"

definition UIntObjectValue_toNumber :: "UIntObjectValue \<Rightarrow> rat" where
  "UIntObjectValue_toNumber v = of_nat (unat (ui_value v))"

definition UIntObjectValue_equals :: "UIntObjectValue \<Rightarrow> UIntObjectValue option \<Rightarrow> bool" where
  "UIntObjectValue_equals v cast =
     (case cast of None \<Rightarrow> False | Some w \<Rightarrow> ui_value v = ui_value w)"

definition UIntObjectValue_compare :: "UIntObjectValue \<Rightarrow> UIntObjectValue option \<Rightarrow> int" where
  "UIntObjectValue_compare v cast =
     (case cast of None \<Rightarrow> 0
      | Some w \<Rightarrow> if ui_value v = ui_value w then 0 else if ui_value v > ui_value w then 1 else - 1)"

definition UIntObject_setInt :: "UIntObjectValue \<Rightarrow> u32 \<Rightarrow> bool \<times> UIntObjectValue" where
  "UIntObject_setInt v n = (if ui_value v \<noteq> n then (True, v\<lparr>ui_value := n\<rparr>) else (False, v))"

definition UIntObjectValue_set ::
    "UIntObjectValue \<Rightarrow> UIntObjectValue option \<Rightarrow> bool \<times> UIntObjectValue" where
  "UIntObjectValue_set v cast =
     (case cast of None \<Rightarrow> (False, v)
      | Some w \<Rightarrow> if ui_value v \<noteq> ui_value w then (True, v\<lparr>ui_value := ui_value w\<rparr>) else (False, v))"

definition UIntObject_set_double :: "UIntObjectValue \<Rightarrow> rat \<Rightarrow> bool \<times> UIntObjectValue" where
  "UIntObject_set_double v d = UIntObject_setInt v (word_of_int (c_trunc d))"

section \<open>Signed integers\<close>

datatype int_class = S8 | S16 | S32

text \<open>The \<open>int32_t\<close> is kept as its 32 bits and read with \<open>sint\<close>.\<close>

record IntObjectValue =
  si_class :: int_class
  si_value :: u32

definition int_init :: "int_class \<Rightarrow> string \<Rightarrow> int \<Rightarrow> int \<Rightarrow> string \<Rightarrow> IntObjectValue result" where
  "int_init c name lo hi value =
     (case get_int value of
        None \<Rightarrow> Inl (Bad_value name value)
      | Some (n, rest) \<Rightarrow>
          if rest \<noteq> [] \<or> n > hi \<or> n < lo then Inl (Bad_value name value)
          else Inr \<lparr>si_class = c, si_value = word_of_int n\<rparr>)"

definition S8ObjectValue_init :: "string \<Rightarrow> IntObjectValue result" where
  "S8ObjectValue_init value = int_init S8 ''S8ObjectValue'' (- 128) 127 value"

definition S16ObjectValue_init :: "string \<Rightarrow> IntObjectValue result" where
  "S16ObjectValue_init value = int_init S16 ''S16ObjectValue'' (- 32768) 32767 value"

definition S32ObjectValue_init :: "string \<Rightarrow> IntObjectValue result" where
  "S32ObjectValue_init value = int_init S32 ''S32ObjectValue'' (- (2 ^ 31)) (2 ^ 31 - 1) value"

definition IntObjectValue_toString :: "IntObjectValue \<Rightarrow> string" where
  "IntObjectValue_toString v = show_int (sint (si_value v))"

definition IntObjectValue_toNumber :: "IntObjectValue \<Rightarrow> rat" where
  "IntObjectValue_toNumber v = of_int (sint (si_value v))"

definition IntObjectValue_equals :: "IntObjectValue \<Rightarrow> IntObjectValue option \<Rightarrow> bool" where
  "IntObjectValue_equals v cast =
     (case cast of None \<Rightarrow> False | Some w \<Rightarrow> si_value v = si_value w)"

definition IntObjectValue_compare :: "IntObjectValue \<Rightarrow> IntObjectValue option \<Rightarrow> int" where
  "IntObjectValue_compare v cast =
     (case cast of None \<Rightarrow> 0
      | Some w \<Rightarrow> if si_value v = si_value w then 0
                 else if sint (si_value v) > sint (si_value w) then 1 else - 1)"

definition IntObject_setInt :: "IntObjectValue \<Rightarrow> u32 \<Rightarrow> bool \<times> IntObjectValue" where
  "IntObject_setInt v n = (if si_value v \<noteq> n then (True, v\<lparr>si_value := n\<rparr>) else (False, v))"

definition IntObjectValue_set ::
    "IntObjectValue \<Rightarrow> IntObjectValue option \<Rightarrow> bool \<times> IntObjectValue" where
  "IntObjectValue_set v cast =
     (case cast of None \<Rightarrow> (False, v)
      | Some w \<Rightarrow> if si_value v \<noteq> si_value w then (True, v\<lparr>si_value := si_value w\<rparr>) else (False, v))"

definition IntObject_set_double :: "IntObjectValue \<Rightarrow> rat \<Rightarrow> bool \<times> IntObjectValue" where
  "IntObject_set_double v d = IntObject_setInt v (word_of_int (c_trunc d))"

datatype s64_class = S64 | RGBW

record S64ObjectValue =
  sl_class :: s64_class
  sl_value :: u64

definition s64_init :: "s64_class \<Rightarrow> string \<Rightarrow> nat \<Rightarrow> string \<Rightarrow> S64ObjectValue result" where
  "s64_init c name base value =
     (case get_signed 64 base value of
        None \<Rightarrow> Inl (Bad_value name value)
      | Some (n, rest) \<Rightarrow>
          if rest \<noteq> [] then Inl (Bad_value name value)
          else Inr \<lparr>sl_class = c, sl_value = word_of_int n\<rparr>)"

definition S64ObjectValue_init :: "string \<Rightarrow> S64ObjectValue result" where
  "S64ObjectValue_init value = s64_init S64 ''S64ObjectValue'' 10 value"

definition RGBWObjectValue_init :: "string \<Rightarrow> S64ObjectValue result" where
  "RGBWObjectValue_init value = s64_init RGBW ''RGBWObjectValue'' 16 value"

definition S64ObjectValue_toString :: "S64ObjectValue \<Rightarrow> string" where
  "S64ObjectValue_toString v = show_int (sint (sl_value v))"

text \<open>Hexadecimal output of an \<open>int64_t\<close> prints its bits.\<close>

definition RGBWObjectValue_toString :: "S64ObjectValue \<Rightarrow> string" where
  "RGBWObjectValue_toString v = pad0 8 (show_base 16 (unat (sl_value v)))"

definition S64ObjectValue_toNumber :: "S64ObjectValue \<Rightarrow> rat" where
  "S64ObjectValue_toNumber v = fl_double (of_int (sint (sl_value v)))"

definition S64ObjectValue_equals :: "S64ObjectValue \<Rightarrow> S64ObjectValue option \<Rightarrow> bool" where
  "S64ObjectValue_equals v cast =
     (case cast of None \<Rightarrow> False | Some w \<Rightarrow> sl_value v = sl_value w)"

definition S64ObjectValue_compare :: "S64ObjectValue \<Rightarrow> S64ObjectValue option \<Rightarrow> int" where
  "S64ObjectValue_compare v cast =
     (case cast of None \<Rightarrow> 0
      | Some w \<Rightarrow> if sl_value v = sl_value w then 0
                 else if sint (sl_value v) > sint (sl_value w) then 1 else - 1)"

definition S64Object_setInt :: "S64ObjectValue \<Rightarrow> u64 \<Rightarrow> bool \<times> S64ObjectValue" where
  "S64Object_setInt v n = (if sl_value v \<noteq> n then (True, v\<lparr>sl_value := n\<rparr>) else (False, v))"

definition S64ObjectValue_set ::
    "S64ObjectValue \<Rightarrow> S64ObjectValue option \<Rightarrow> bool \<times> S64ObjectValue" where
  "S64ObjectValue_set v cast =
     (case cast of None \<Rightarrow> (False, v)
      | Some w \<Rightarrow> if sl_value v \<noteq> sl_value w then (True, v\<lparr>sl_value := sl_value w\<rparr>) else (False, v))"

definition S64Object_set_double :: "S64ObjectValue \<Rightarrow> rat \<Rightarrow> bool \<times> S64ObjectValue" where
  "S64Object_set_double v d = S64Object_setInt v (word_of_int (c_trunc d))"

section \<open>The contract of ObjectValue\<close>

lemmas number_value_defs [val_defs] =
  ValueObjectValue_equals_def ValueObjectValue_compare_def ValueObjectValue_set_def
  UIntObjectValue_equals_def UIntObjectValue_compare_def UIntObjectValue_set_def
  UIntObject_setInt_def UIntObject_set_double_def UIntObjectValue_toNumber_def
  IntObjectValue_equals_def IntObjectValue_compare_def IntObjectValue_set_def
  IntObject_setInt_def IntObject_set_double_def IntObjectValue_toNumber_def
  S64ObjectValue_equals_def S64ObjectValue_compare_def S64ObjectValue_set_def
  S64Object_setInt_def S64Object_set_double_def S64ObjectValue_toNumber_def

interpretation uint: object_value "\<lambda>_. True"
    "\<lambda>v w. UIntObjectValue_equals v (Some w)" "\<lambda>v w. UIntObjectValue_compare v (Some w)"
    "\<lambda>v w. UIntObjectValue_set v (Some w)"
  by unfold_locales (auto simp: val_defs)

interpretation sint32: object_value "\<lambda>_. True"
    "\<lambda>v w. IntObjectValue_equals v (Some w)" "\<lambda>v w. IntObjectValue_compare v (Some w)"
    "\<lambda>v w. IntObjectValue_set v (Some w)"
  by unfold_locales (auto simp: val_defs dest: signed_word_eqI)

interpretation sint64: object_value "\<lambda>_. True"
    "\<lambda>v w. S64ObjectValue_equals v (Some w)" "\<lambda>v w. S64ObjectValue_compare v (Some w)"
    "\<lambda>v w. S64ObjectValue_set v (Some w)"
  by unfold_locales (auto simp: val_defs dest: signed_word_eqI)

section \<open>Printing a number and reading it back\<close>

lemmas uint_init_defs =
  U8ObjectValue_init_def U16ObjectValue_init_def U32ObjectValue_init_def RGBObjectValue_init_def
  uint_init_def

lemmas uint_toString_defs =
  U8ObjectValue_toString_def U16ObjectValue_toString_def U32ObjectValue_toString_def
  RGBObjectValue_toString_def

lemma unat_u32_less: "unat (w :: u32) < 2 ^ 32"
proof -
  have "unat w < 2 ^ LENGTH(32)" by (rule unsigned_less)
  then show ?thesis by simp
qed

lemma get_unsigned_show_u32: "get_unsigned 32 10 (show_base 10 (unat (w :: u32))) = Some (int (unat w), [])"
  using get_unsigned_show_int [of "uint w" 32 "[]"] uint_lt2p [of w]
  by (simp add: show_int_def)

lemma get_unsigned_hex_u32:
  "get_unsigned 32 16 (pad0 k (show_base 16 (unat (w :: u32)))) = Some (int (unat w), [])"
  by (rule get_unsigned_hex [OF unat_u32_less])

lemma uint_init_shown:
  assumes "get_unsigned 32 b s = Some (int (unat (ui_value v)), [])" and "int (unat (ui_value v)) \<le> limit"
  shows "uint_init (ui_class v) name b limit s = Inr v"
  using assms by (simp add: uint_init_def)

lemma int_init_shown:
  assumes "lo \<le> sint (si_value v)" and "sint (si_value v) \<le> hi"
  shows "int_init (si_class v) name lo hi (IntObjectValue_toString v) = Inr v"
  using assms get_signed_show_int [of 32 "sint (si_value v)" "[]"]
    sint_ge [of "si_value v"] sint_lt [of "si_value v"]
  by (simp add: int_init_def IntObjectValue_toString_def)

lemma get_signed_show_word:
  fixes w :: "'a :: len word"
  shows "get_signed LENGTH('a) 10 (show_int (sint w)) = Some (sint w, [])"
  using get_signed_show_int [of "LENGTH('a)" "sint w" "[]"] sint_ge [of w] sint_lt [of w] by simp

lemma s64_init_shown: "s64_init (sl_class v) name 10 (S64ObjectValue_toString v) = Inr v"
  using get_signed_show_word [of "sl_value v"]
  by (simp add: s64_init_def S64ObjectValue_toString_def)

text \<open>A negative number prints as the 16 digits of its bits, which do not fit when they are read.\<close>

lemma get_signed_hex:
  "get_signed w 16 (pad0 k (show_base 16 n)) = (if n < 2 ^ (w - 1) then Some (int n, []) else None)"
proof -
  have "- (2 ^ (w - 1)) \<le> int n" using zero_le_power [of "2 :: int" "w - 1"] by linarith
  then show ?thesis by (auto simp: get_signed_def scan_num_hex_pad Let_def)
qed

lemma rgbw_init_shown:
  assumes "sl_class v = RGBW"
  shows "RGBWObjectValue_init (RGBWObjectValue_toString v) =
    (if unat (sl_value v) < 2 ^ 63 then Inr v
     else Inl (Bad_value ''RGBWObjectValue'' (RGBWObjectValue_toString v)))"
  using assms
  by (simp add: RGBWObjectValue_init_def s64_init_def RGBWObjectValue_toString_def get_signed_hex
      flip: assms)

lemma heating_init_shown:
  assumes "ui_class v = HeatingMode"
  shows "HeatingModeObjectValue_init (HeatingModeObjectValue_toString v) = Inr v \<longleftrightarrow> unat (ui_value v) \<le> 4"
proof -
  have "unat (ui_value v) \<le> 4 \<longleftrightarrow> ui_value v \<in> {0, 1, 2, 3, 4}"
  proof
    assume "unat (ui_value v) \<le> 4"
    then consider "unat (ui_value v) = 0" | "unat (ui_value v) = 1" | "unat (ui_value v) = 2"
      | "unat (ui_value v) = 3" | "unat (ui_value v) = 4" by linarith
    then show "ui_value v \<in> {0, 1, 2, 3, 4}"
      using word_unat_eq_iff [of "ui_value v"] by cases simp_all
  qed auto
  then show ?thesis using assms
    by (auto simp: HeatingModeObjectValue_init_def HeatingModeObjectValue_toString_def
        intro!: UIntObjectValue.equality)
qed

end
