(* ===== verification/Values_String.thy ===== *)
theory Values_String
  imports Values_Number "HOL-Library.List_Lexorder" "HOL-Library.Char_ord"
begin

text \<open>
  The value classes that hold text, from src/objectcontroller.h and .cpp: \<open>StringObjectValue\<close>
  (28.001), \<open>String14ObjectValue\<close> (16.001, at most 14 characters of ISO-8859-1) and
  \<open>String14AsciiObjectValue\<close> (16.000).  A character is a byte; \<open>std::string\<close> orders them unsigned, as
  the linear order of the library on \<open>char\<close> does.
\<close>

datatype string_class = String28 | String14 | String14Ascii

record StringObjectValue =
  st_class :: string_class
  st_value :: string

definition StringObjectValue_init :: "string \<Rightarrow> StringObjectValue result" where
  "StringObjectValue_init value = Inr \<lparr>st_class = String28, st_value = value\<rparr>"

definition String14ObjectValue_init :: "env \<Rightarrow> string \<Rightarrow> StringObjectValue result" where
  "String14ObjectValue_init env value =
     (if length (transcode (iconv_to_latin1 env) value) > 14
      then Inl (Bad_value ''String14ObjectValue'' value)
      else Inr \<lparr>st_class = String14, st_value = value\<rparr>)"

text \<open>A byte above 127 is a negative \<open>char\<close>, or one above 127 where \<open>char\<close> is unsigned.\<close>

definition String14AsciiObjectValue_init :: "string \<Rightarrow> StringObjectValue result" where
  "String14AsciiObjectValue_init value =
     (if length value > 14 then Inl (Bad_value ''String14AsciiObjectValue'' value)
      else if \<exists>c \<in> set value. (of_char c :: nat) > 127
      then Inl (Bad_value ''String14AsciiObjectValue'' value)
      else Inr \<lparr>st_class = String14Ascii, st_value = value\<rparr>)"

definition StringObjectValue_toString :: "StringObjectValue \<Rightarrow> string" where
  "StringObjectValue_toString v = st_value v"

definition StringObjectValue_toNumber :: "StringObjectValue \<Rightarrow> rat" where
  "StringObjectValue_toNumber v =
     (case get_double (st_value v) of
        None \<Rightarrow> 0 | Some (x, rest) \<Rightarrow> if rest \<noteq> [] then 0 else x)"

definition StringObjectValue_equals :: "StringObjectValue \<Rightarrow> StringObjectValue option \<Rightarrow> bool" where
  "StringObjectValue_equals v cast =
     (case cast of None \<Rightarrow> False | Some w \<Rightarrow> st_value v = st_value w)"

definition StringObjectValue_compare :: "StringObjectValue \<Rightarrow> StringObjectValue option \<Rightarrow> int" where
  "StringObjectValue_compare v cast =
     (case cast of None \<Rightarrow> - 1
      | Some w \<Rightarrow> if st_value v = st_value w then 0 else if st_value v < st_value w then - 1 else 1)"

definition StringObjectValue_set ::
    "StringObjectValue \<Rightarrow> StringObjectValue option \<Rightarrow> bool \<times> StringObjectValue" where
  "StringObjectValue_set v cast =
     (case cast of None \<Rightarrow> (False, v)
      | Some w \<Rightarrow> if st_value v \<noteq> st_value w then (True, v\<lparr>st_value := st_value w\<rparr>) else (False, v))"

definition StringObjectValue_set_double :: "StringObjectValue \<Rightarrow> rat \<Rightarrow> bool \<times> StringObjectValue" where
  "StringObjectValue_set_double v d =
     (if st_value v \<noteq> fmt_g 6 d then (True, v\<lparr>st_value := fmt_g 6 d\<rparr>) else (False, v))"

lemmas StringObjectValue_defs [val_defs] =
  StringObjectValue_equals_def StringObjectValue_compare_def StringObjectValue_set_def

interpretation str: object_value "\<lambda>_. True"
    "\<lambda>v w. StringObjectValue_equals v (Some w)" "\<lambda>v w. StringObjectValue_compare v (Some w)"
    "\<lambda>v w. StringObjectValue_set v (Some w)"
  by unfold_locales (auto simp: val_defs)

text \<open>What the frame of a 14 character string has room for.\<close>

definition string14_fits :: "env \<Rightarrow> StringObjectValue \<Rightarrow> bool" where
  "string14_fits env v =
     (case st_class v of
        String28 \<Rightarrow> True
      | String14 \<Rightarrow> length (transcode (iconv_to_latin1 env) (st_value v)) \<le> 14
      | String14Ascii \<Rightarrow> length (st_value v) \<le> 14)"

lemma string14_init_fits:
  "String14ObjectValue_init env s = Inr v \<Longrightarrow> string14_fits env v"
  "String14AsciiObjectValue_init s = Inr v \<Longrightarrow> string14_fits env v"
  "StringObjectValue_init s = Inr v \<Longrightarrow> string14_fits env v"
  by (auto simp: String14ObjectValue_init_def String14AsciiObjectValue_init_def
      StringObjectValue_init_def string14_fits_def split: if_splits)

end
