(* ===== verification/Dpt9.thy ===== *)
theory Dpt9
  imports Values_Number
begin

text \<open>
  The two byte floating point format of DPT 9.x: which hundredths it can hold, and that
  \<open>roundToKnxPrecision\<close> (src/objectcontroller.cpp) rounds to exactly these.
\<close>

section \<open>Shifting a mantissa into range\<close>

lemma knx_shift_le: "fst (knx_shift limit m ex) \<le> limit"
proof (induction limit m ex rule: knx_shift.induct)
  case (1 limit m ex)
  then show ?case by (cases "m > limit") (simp_all add: knx_shift.simps [of limit m ex])
qed

lemma knx_shift_exponent: "ex \<le> snd (knx_shift limit m ex)"
proof (induction limit m ex rule: knx_shift.induct)
  case (1 limit m ex)
  then show ?case by (cases "m > limit") (simp_all add: knx_shift.simps [of limit m ex])
qed

text \<open>What is left is the number shifted by the exponent gained.\<close>

lemma knx_shift_value: "fst (knx_shift limit m ex) = m div 2 ^ (snd (knx_shift limit m ex) - ex)"
proof (induction limit m ex rule: knx_shift.induct)
  case (1 limit m ex)
  show ?case
  proof (cases "m > limit")
    case True
    define k where "k = snd (knx_shift limit (m div 2) (Suc ex))"
    have "Suc ex \<le> k" unfolding k_def by (rule knx_shift_exponent)
    then have "k - ex = Suc (k - Suc ex)" by simp
    then have "m div 2 ^ (k - ex) = m div 2 div 2 ^ (k - Suc ex)" by (simp add: div_mult2_eq)
    then show ?thesis using "1" True by (simp add: knx_shift.simps [of limit m ex] k_def)
  qed (simp add: knx_shift.simps [of limit m ex])
qed

text \<open>A number the format can hold is shifted without loss.\<close>

lemma knx_shift_exact:
  assumes "m = a * 2 ^ k" and "a \<le> limit"
  shows "fst (knx_shift limit m ex) * 2 ^ (snd (knx_shift limit m ex) - ex) = m"
  using assms
proof (induction limit m ex arbitrary: k rule: knx_shift.induct)
  case (1 limit m ex)
  show ?case
  proof (cases "m > limit")
    case True
    then obtain j where k: "k = Suc j" using "1.prems" by (cases k) auto
    then have m: "m div 2 = a * 2 ^ j" "m = 2 * (m div 2)" using "1.prems" by auto
    define s where "s = knx_shift limit (m div 2) (Suc ex)"
    have "Suc ex \<le> snd s" unfolding s_def by (rule knx_shift_exponent)
    then have "snd s - ex = Suc (snd s - Suc ex)" by simp
    then have "fst s * 2 ^ (snd s - ex) = 2 * (fst s * 2 ^ (snd s - Suc ex))" by simp
    also have "\<dots> = m" using "1.IH" [OF True m(1)] "1.prems" m(2) by (simp add: s_def)
    finally show ?thesis using True by (simp add: knx_shift.simps [of limit m ex] s_def)
  qed (simp add: knx_shift.simps [of limit m ex])
qed

text \<open>How often a number is halved: at most until it has as many digits as the limit.\<close>

lemma knx_shift_bound:
  assumes "m \<le> (limit + 1) * 2 ^ k - 1"
  shows "snd (knx_shift limit m ex) \<le> ex + k"
  using assms
proof (induction limit m ex arbitrary: k rule: knx_shift.induct)
  case (1 limit m ex)
  show ?case
  proof (cases "m > limit")
    case True
    then obtain j where k: "k = Suc j" using "1.prems" by (cases k) auto
    have "m div 2 \<le> (limit + 1) * 2 ^ j - 1" using "1.prems" unfolding k by simp
    from "1.IH" [OF True this] show ?thesis using True k by (simp add: knx_shift.simps [of limit m ex])
  qed (simp add: knx_shift.simps [of limit m ex])
qed

section \<open>The numbers of the format\<close>

text \<open>The hundredths a telegram can carry: a signed 11 bit mantissa and a 4 bit exponent.\<close>

definition knx_hundredths :: "int \<Rightarrow> bool" where
  "knx_hundredths n \<longleftrightarrow> (\<exists>m. \<exists>ex \<le> 15. n = m * 2 ^ ex \<and> - 2048 \<le> m \<and> m \<le> 2047)"

definition knx_value :: "int \<times> nat \<Rightarrow> int" where
  "knx_value p = fst p * 2 ^ snd p"

lemma knx_normalise_range:
  "- 2048 \<le> fst (knx_normalise n)" "fst (knx_normalise n) \<le> 2047"
  using knx_shift_le [of 2048 "nat (- n)" 0] knx_shift_le [of 2047 "nat n" 0]
  by (auto simp: knx_normalise_def split: prod.splits)

lemma knx_normalise_exponent:
  assumes "- 67110911 \<le> n" and "n \<le> 67108863"
  shows "snd (knx_normalise n) \<le> 15"
  using assms knx_shift_bound [of "nat (- n)" 2048 15 0] knx_shift_bound [of "nat n" 2047 15 0]
  by (auto simp: knx_normalise_def nat_le_iff split: prod.splits)

lemma knx_normalise_hundredths:
  assumes "- 67110911 \<le> n" and "n \<le> 67108863"
  shows "knx_hundredths (knx_value (knx_normalise n))"
  unfolding knx_hundredths_def knx_value_def
  using knx_normalise_range [of n] knx_normalise_exponent [OF assms] by blast

lemma knx_normalise_exact:
  assumes "knx_hundredths n"
  shows "knx_value (knx_normalise n) = n"
proof -
  obtain m ex where n: "n = m * 2 ^ ex" "- 2048 \<le> m" "m \<le> 2047"
    using assms by (auto simp: knx_hundredths_def)
  show ?thesis
  proof (cases "n < 0")
    case True
    then have "m < 0" using n by (simp add: mult_less_0_iff)
    then have "nat (- n) = nat (- m) * 2 ^ ex" "nat (- m) \<le> 2048"
      using n by (auto simp: nat_mult_distrib nat_power_eq simp flip: mult_minus_left)
    from knx_shift_exact [OF this, of 0]
    have "int (fst (knx_shift 2048 (nat (- n)) 0) * 2 ^ snd (knx_shift 2048 (nat (- n)) 0)) = int (nat (- n))"
      by simp
    then show ?thesis using True
      by (auto simp: knx_normalise_def knx_value_def split: prod.splits)
  next
    case False
    then have "0 \<le> m" using n by (simp add: mult_less_0_iff not_less)
    then have "nat n = nat m * 2 ^ ex" "nat m \<le> 2047"
      using n by (auto simp: nat_mult_distrib nat_power_eq)
    from knx_shift_exact [OF this, of 0]
    have "int (fst (knx_shift 2047 (nat n) 0) * 2 ^ snd (knx_shift 2047 (nat n) 0)) = int (nat n)"
      by simp
    then show ?thesis using False
      by (auto simp: knx_normalise_def knx_value_def split: prod.splits)
  qed
qed

lemma knx_hundredths_bound: "knx_hundredths n \<Longrightarrow> \<bar>n\<bar> \<le> 67108864"
proof -
  assume "knx_hundredths n"
  then obtain m ex where n: "n = m * 2 ^ ex" "- 2048 \<le> m" "m \<le> 2047" "ex \<le> 15"
    by (auto simp: knx_hundredths_def)
  have "(2 :: int) ^ ex \<le> 2 ^ 15" using n(4) by (intro power_increasing) auto
  moreover have "\<bar>m\<bar> \<le> 2048" using n by linarith
  ultimately have "\<bar>m\<bar> * 2 ^ ex \<le> 2048 * 2 ^ 15" by (intro mult_mono) auto
  then show ?thesis using n(1) by (simp add: abs_mult)
qed

section \<open>roundToKnxPrecision\<close>

text \<open>The number of the format that the code chooses for a value.\<close>

definition knx_round :: "rat \<Rightarrow> int" where
  "knx_round value = knx_value (knx_normalise (rne (fl_double (value * 100))))"

text \<open>The values in the range of the types 9.x, with the slack of the rounding.\<close>

definition knx_in_range :: "rat \<Rightarrow> bool" where
  "knx_in_range value \<longleftrightarrow> - 67110911 \<le> rne (fl_double (value * 100)) \<and> rne (fl_double (value * 100)) \<le> 67108863"

lemma knx_round_hundredths: "knx_in_range value \<Longrightarrow> knx_hundredths (knx_round value)"
  unfolding knx_in_range_def knx_round_def by (intro knx_normalise_hundredths) auto

lemma roundToKnxPrecision_eq:
  assumes "knx_in_range value"
  shows "roundToKnxPrecision value = fl_double (of_int (knx_round value) / 100)"
proof -
  obtain m ex where p: "knx_normalise (rne (fl_double (value * 100))) = (m, ex)" by (cases "knx_normalise (rne (fl_double (value * 100)))")
  then have "knx_round value = m * 2 ^ ex" by (simp add: knx_round_def knx_value_def)
  moreover have "\<bar>knx_round value\<bar> \<le> 67108864"
    using knx_round_hundredths [OF assms] by (rule knx_hundredths_bound)
  ultimately show ?thesis
    using fl_int [of "knx_round value" 53] p by (simp add: roundToKnxPrecision_def)
qed

lemma rne_knx_hundredths:
  "knx_hundredths n \<Longrightarrow> rne (fl_double (fl_double (of_int n / 100) * 100)) = n"
  using knx_hundredths_bound [of n] by (intro rne_hundredths) simp

lemma roundToKnxPrecision_fixed:
  assumes "knx_hundredths n"
  shows "roundToKnxPrecision (fl_double (of_int n / 100)) = fl_double (of_int n / 100)"
proof -
  have "knx_value (knx_normalise n) = n" by (rule knx_normalise_exact [OF assms])
  moreover have "\<bar>n\<bar> \<le> 67108864" using assms by (rule knx_hundredths_bound)
  ultimately show ?thesis
    using fl_int [of n 53]
    by (auto simp: roundToKnxPrecision_def rne_knx_hundredths [OF assms] knx_value_def split: prod.splits)
qed

lemma knx_round_fixed:
  assumes "knx_hundredths n"
  shows "knx_round (fl_double (of_int n / 100)) = n"
  by (simp add: knx_round_def rne_knx_hundredths [OF assms] knx_normalise_exact [OF assms])

text \<open>A mantissa that was shifted at all has all its digits.\<close>

lemma knx_shift_min: "ex < snd (knx_shift limit m ex) \<Longrightarrow> (limit + 1) div 2 \<le> fst (knx_shift limit m ex)"
proof (induction limit m ex rule: knx_shift.induct)
  case (1 limit m ex)
  show ?case
  proof (cases "m > limit")
    case True
    then have eq: "knx_shift limit m ex = knx_shift limit (m div 2) (Suc ex)"
      by (simp add: knx_shift.simps [of limit m ex])
    show ?thesis
    proof (cases "m div 2 > limit")
      case True
      then have "Suc ex < snd (knx_shift limit (m div 2) (Suc ex))"
        using knx_shift_exponent [of "Suc (Suc ex)" limit "m div 2 div 2"]
        by (simp add: knx_shift.simps [of limit "m div 2" "Suc ex"])
      then show ?thesis using "1.IH" [OF \<open>m > limit\<close>] eq by simp
    next
      case False
      then have "knx_shift limit (m div 2) (Suc ex) = (m div 2, Suc ex)"
        by (simp add: knx_shift.simps [of limit "m div 2" "Suc ex"])
      then show ?thesis using eq \<open>m > limit\<close> by (simp add: div_le_mono)
    qed
  qed (use "1.prems" in \<open>simp add: knx_shift.simps [of limit m ex]\<close>)
qed

lemma knx_shift_error:
  assumes "2047 \<le> limit"
  shows "fst (knx_shift limit m 0) * 2 ^ snd (knx_shift limit m 0) \<le> m"
    and "1024 * (m - fst (knx_shift limit m 0) * 2 ^ snd (knx_shift limit m 0)) \<le> m"
proof -
  define a k where "a = fst (knx_shift limit m 0)" and "k = snd (knx_shift limit m 0)"
  have a: "a = m div 2 ^ k" using knx_shift_value [of limit m 0] by (simp add: a_def k_def)
  then have d: "m - a * 2 ^ k = m mod 2 ^ k" "a * 2 ^ k \<le> m" by (simp_all add: minus_div_mult_eq_mod)
  then show "fst (knx_shift limit m 0) * 2 ^ snd (knx_shift limit m 0) \<le> m" by (simp add: a_def k_def)
  have "1024 * (m mod 2 ^ k) \<le> m"
  proof (cases "k = 0")
    case False
    then have "1024 \<le> a" using knx_shift_min [of 0 limit m] assms by (simp add: a_def k_def)
    then have "1024 * 2 ^ k \<le> a * 2 ^ k" by (rule mult_right_mono) simp
    moreover have "1024 * (m mod 2 ^ k) \<le> 1024 * 2 ^ k" by (simp add: less_imp_le)
    ultimately show ?thesis using d(2) by linarith
  qed simp
  then show "1024 * (m - fst (knx_shift limit m 0) * 2 ^ snd (knx_shift limit m 0)) \<le> m"
    using d by (simp add: a_def k_def)
qed

lemma knx_normalise_error:
  "\<bar>knx_value (knx_normalise n)\<bar> \<le> \<bar>n\<bar>" "1024 * \<bar>n - knx_value (knx_normalise n)\<bar> \<le> \<bar>n\<bar>"
proof -
  define L where "L = (if n < 0 then 2048 else 2047 :: nat)"
  define q where "q = fst (knx_shift L (nat \<bar>n\<bar>) 0) * 2 ^ snd (knx_shift L (nat \<bar>n\<bar>) 0)"
  have v: "knx_value (knx_normalise n) = (if n < 0 then - int q else int q)"
    by (auto simp: knx_normalise_def knx_value_def q_def L_def split: prod.splits)
  have "q \<le> nat \<bar>n\<bar>" and e: "1024 * (nat \<bar>n\<bar> - q) \<le> nat \<bar>n\<bar>"
    unfolding q_def using knx_shift_error [of L "nat \<bar>n\<bar>"] by (auto simp: L_def)
  then show "\<bar>knx_value (knx_normalise n)\<bar> \<le> \<bar>n\<bar>" "1024 * \<bar>n - knx_value (knx_normalise n)\<bar> \<le> \<bar>n\<bar>"
    unfolding v by auto
qed

section \<open>The two bytes of a telegram\<close>

lemma or_disjoint: "0 \<le> x \<Longrightarrow> x < 2 ^ k \<Longrightarrow> x OR push_bit k y = x + 2 ^ k * (y :: int)"
  using concat_bit_eq [of k x y] by (simp add: concat_bit_def take_bit_int_eq_self push_bit_eq_mult)

text \<open>The first byte: sign, exponent and the upper bits of the mantissa.\<close>

definition dpt9_high :: "int \<Rightarrow> nat \<Rightarrow> bool \<Rightarrow> int" where
  "dpt9_high m ex neg =
     (let high = (drop_bit 8 m AND 0x07) OR (push_bit 3 (int ex) AND 0x78)
      in if neg then high OR push_bit 7 1 else high)"

lemma and_field: "n AND push_bit k (mask j) = push_bit k (take_bit j (drop_bit k (n :: int)))"
  by (rule bit_eqI) (auto simp: bit_simps)

lemma and_field_mod: "n AND (2 ^ j - 1) * 2 ^ k = 2 ^ k * (n div 2 ^ k mod 2 ^ j :: int)"
proof -
  have "n AND push_bit k (mask j) = push_bit k (take_bit j (drop_bit k n))" by (rule and_field)
  then show ?thesis
    unfolding push_bit_eq_mult mask_eq_exp_minus_1 take_bit_eq_mod drop_bit_eq_div by (simp only: mult.commute)
qed

lemma and_masks:
  fixes n :: int
  shows "n AND 0x07 = n mod 8" "n AND 0xff = n mod 256" "n AND 0x7ff = n mod 2048"
    "n AND 0x78 = 8 * (n div 8 mod 16)" "n AND 0x8000 = 32768 * (n div 32768 mod 2)"
    "n AND 0x7800 = 2048 * (n div 2048 mod 16)"
proof -
  show "n AND 0x07 = n mod 8" using and_field_mod [of n 3 0] by simp
  show "n AND 0xff = n mod 256" using and_field_mod [of n 8 0] by simp
  show "n AND 0x7ff = n mod 2048" using and_field_mod [of n 11 0] by simp
  show "n AND 0x78 = 8 * (n div 8 mod 16)" using and_field_mod [of n 4 3] by simp
  show "n AND 0x8000 = 32768 * (n div 32768 mod 2)" using and_field_mod [of n 1 15] by simp
  show "n AND 0x7800 = 2048 * (n div 2048 mod 16)" using and_field_mod [of n 4 11] by simp
qed

lemma dpt9_high:
  assumes "ex \<le> 15"
  shows "dpt9_high m ex neg = (m div 256) mod 8 + 8 * int ex + (if neg then 128 else 0)"
proof -
  have a: "(m div 256) mod 8 OR push_bit 3 (int ex) = (m div 256) mod 8 + 2 ^ 3 * int ex"
    by (rule or_disjoint) auto
  have "int ex mod 16 = int ex" using assms by simp
  then have e: "push_bit 3 (int ex) AND 0x78 = push_bit 3 (int ex)"
    by (simp add: and_masks push_bit_eq_mult)
  have "0 \<le> (m div 256) mod 8" "(m div 256) mod 8 < 8" by simp_all
  then have "0 \<le> (m div 256) mod 8 + 8 * int ex" "(m div 256) mod 8 + 8 * int ex < 128"
    using assms by linarith+
  then have "((m div 256) mod 8 + 8 * int ex) OR push_bit 7 1 = ((m div 256) mod 8 + 8 * int ex) + 2 ^ 7 * 1"
    by (intro or_disjoint) simp_all
  with a show ?thesis
    unfolding dpt9_high_def e by (simp add: and_masks drop_bit_eq_div)
qed

lemma sign_extend: "0 \<le> u \<Longrightarrow> u < 2048 \<Longrightarrow> u OR NOT 0x7ff = u - (2048 :: int)"
  using or_disjoint [of u 11 "- 1"] by (simp add: push_bit_eq_mult not_int_def)

lemma div_eq: "q * b \<le> a \<Longrightarrow> a < (q + 1) * b \<Longrightarrow> a div b = (q :: int)"
  using int_div_pos_eq [of a b q "a - b * q"] by (simp add: algebra_simps)

lemma dpt9_fields:
  assumes "- 2048 \<le> m" "m \<le> 2047" "ex \<le> 15" "neg = (m < 0)"
  defines "d \<equiv> dpt9_high m ex neg * 256 + m mod 256"
  shows "d = m mod 2048 + 2048 * int ex + (if neg then 32768 else 0)"
    and "(if d AND 0x8000 \<noteq> 0 then (d AND 0x7ff) OR NOT 0x7ff else d AND 0x7ff) = m"
    and "nat (drop_bit 11 (d AND 0x7800)) = ex"
proof -
  have "256 * ((m div 256) mod 8) + m mod 256 = m mod 2048" 
    using zmod_zmult2_eq [of 8 m 256] by simp
  then show d: "d = m mod 2048 + 2048 * int ex + (if neg then 32768 else 0)"
    unfolding d_def dpt9_high [OF assms(3)] by simp
  have u: "0 \<le> m mod 2048" "m mod 2048 < 2048" by simp_all
  have m: "m = (if neg then m mod 2048 - 2048 else m mod 2048)"
  proof (cases neg)
    case True
    then have "(m + 2048) mod 2048 = m + 2048" using assms by (intro mod_pos_pos_trivial) auto
    then show ?thesis using True by simp
  qed (use assms in simp)
  have x: "int ex \<le> 15" using assms(3) by simp
  have "d = m mod 2048 + 2048 * (int ex + (if neg then 16 else 0))" unfolding d by simp
  then have "d mod 2048 = m mod 2048" by (simp only: mod_mult_self2 mod_mod_trivial)
  moreover have "d div 32768 = (if neg then 1 else 0)"
  proof (rule div_eq)
    show "(if neg then 1 else 0) * 32768 \<le> d" "d < ((if neg then 1 else 0) + 1) * 32768"
      using u x unfolding d by (cases neg; simp; linarith)+
  qed
  ultimately show "(if d AND 0x8000 \<noteq> 0 then (d AND 0x7ff) OR NOT 0x7ff else d AND 0x7ff) = m"
    using sign_extend [OF u] m by (auto simp: and_masks)
  have "d div 2048 = int ex + (if neg then 16 else 0)"
  proof (rule div_eq)
    show "(int ex + (if neg then 16 else 0)) * 2048 \<le> d"
      "d < (int ex + (if neg then 16 else 0) + 1) * 2048"
      using u unfolding d by (cases neg; simp)+
  qed
  then have "d div 2048 mod 16 = int ex" using x by (cases neg) simp_all
  then show "nat (drop_bit 11 (d AND 0x7800)) = ex"
    by (simp add: and_masks drop_bit_eq_div)
qed
lemma knx_hundredths_upper: "knx_hundredths n \<Longrightarrow> n \<le> 67108863"
proof -
  assume "knx_hundredths n"
  then obtain m ex where n: "n = m * 2 ^ ex" "- 2048 \<le> m" "m \<le> 2047" "ex \<le> 15"
    by (auto simp: knx_hundredths_def)
  have "(2 :: int) ^ ex \<le> 2 ^ 15" using n(4) by (intro power_increasing) auto
  then have "2047 * 2 ^ ex \<le> (67076096 :: int)" by simp
  moreover have "m * 2 ^ ex \<le> 2047 * 2 ^ ex" using n(3) by (intro mult_right_mono) auto
  ultimately show ?thesis using n(1) by linarith
qed

lemma knx_normalise_fits:
  assumes "knx_hundredths n" and "knx_normalise n = (m, ex)"
  shows "- 2048 \<le> m" "m \<le> 2047" "ex \<le> 15" "m * 2 ^ ex = n" "n < 0 \<longleftrightarrow> m < 0"
proof -
  show "- 2048 \<le> m" "m \<le> 2047" using knx_normalise_range [of n] assms(2) by auto
  show "ex \<le> 15" using knx_normalise_exponent [of n] knx_hundredths_upper [OF assms(1)]
      knx_hundredths_bound [OF assms(1)] assms(2) by auto
  show "m * 2 ^ ex = n" using knx_normalise_exact [OF assms(1)] assms(2) by (simp add: knx_value_def)
  then show "n < 0 \<longleftrightarrow> m < 0" by (auto simp: mult_less_0_iff)
qed

lemma dpt9_high_byte:
  assumes "ex \<le> 15"
  shows "0 \<le> dpt9_high m ex neg" "dpt9_high m ex neg < 256"
proof -
  have "0 \<le> (m div 256) mod 8" "(m div 256) mod 8 < 8" by simp_all
  then show "0 \<le> dpt9_high m ex neg" "dpt9_high m ex neg < 256"
    unfolding dpt9_high [OF assms] using assms by (cases neg; simp)+
qed

section \<open>Properties\<close>

text \<open>
  C23. Storing a number in a DPT 9.x object (without a precision) keeps the number of hundredths that
  the two byte format can hold: the result is such a number, storing it again changes nothing, it is
  never larger in magnitude than the number rounded to hundredths, and the relative error to that is
  below 1/1024.
\<close>

theorem roundToKnxPrecision_spec:
  assumes "knx_in_range value"
  defines "h \<equiv> rne (fl_double (value * 100))" and "n \<equiv> knx_round value"
  shows "roundToKnxPrecision value = fl_double (of_int n / 100) \<and> knx_hundredths n
    \<and> roundToKnxPrecision (roundToKnxPrecision value) = roundToKnxPrecision value
    \<and> \<bar>n\<bar> \<le> \<bar>h\<bar> \<and> 1024 * \<bar>h - n\<bar> \<le> \<bar>h\<bar>"
proof (intro conjI)
  show r: "roundToKnxPrecision value = fl_double (of_int n / 100)"
    unfolding n_def by (rule roundToKnxPrecision_eq [OF assms(1)])
  show n: "knx_hundredths n" unfolding n_def by (rule knx_round_hundredths [OF assms(1)])
  show "roundToKnxPrecision (roundToKnxPrecision value) = roundToKnxPrecision value"
    unfolding r by (rule roundToKnxPrecision_fixed [OF n])
  show "\<bar>n\<bar> \<le> \<bar>h\<bar>" and "1024 * \<bar>h - n\<bar> \<le> \<bar>h\<bar>"
    using knx_normalise_error [of h] by (simp_all add: n_def h_def knx_round_def)
qed

theorem roundToKnxPrecision_spec_witness:
  "roundToKnxPrecision (2137 / 100) = fl_double (2136 / 100)"
  using roundToKnxPrecision_spec [of "2137 / 100"]
  by (simp add: knx_in_range_def knx_round_def knx_normalise_def knx_value_def knx_shift.simps float_defs)

end
