(* ===== verification/ObjectValues.thy ===== *)
theory ObjectValues
  imports Values_Bool Values_Time Values_String Dpt9
begin

text \<open>
  \<open>ObjectValue\<close> as a closed union of the value classes, with the virtual operations of
  src/objectcontroller.h dispatched on it, \<open>Object::create (type)\<close>, which chooses the class of a new
  object from its type string, and the \<open>createObjectValue\<close> of the object classes.
\<close>

section \<open>The union and its casts\<close>

datatype ObjectValue =
    Switching SwitchingObjectValue
  | SwitchingControl SwitchingControlObjectValue
  | StepDir StepDirObjectValue
  | TimeOfDay TimeObjectValue
  | CalDate DateObjectValue
  | FloatValue ValueObjectValue
  | UIntValue UIntObjectValue
  | IntValue IntObjectValue
  | S64Value S64ObjectValue
  | StringValue StringObjectValue

text \<open>\<open>dynamic_cast\<close> to the base class that implements \<open>equals\<close>, \<open>compare\<close> and \<open>set\<close>.\<close>

fun cast_switching where "cast_switching (Switching v) = Some v" | "cast_switching _ = None"
fun cast_control where "cast_control (SwitchingControl v) = Some v" | "cast_control _ = None"
fun cast_stepdir where "cast_stepdir (StepDir v) = Some v" | "cast_stepdir _ = None"
fun cast_time where "cast_time (TimeOfDay v) = Some v" | "cast_time _ = None"
fun cast_date where "cast_date (CalDate v) = Some v" | "cast_date _ = None"
fun cast_float where "cast_float (FloatValue v) = Some v" | "cast_float _ = None"
fun cast_uint where "cast_uint (UIntValue v) = Some v" | "cast_uint _ = None"
fun cast_int where "cast_int (IntValue v) = Some v" | "cast_int _ = None"
fun cast_s64 where "cast_s64 (S64Value v) = Some v" | "cast_s64 _ = None"
fun cast_string where "cast_string (StringValue v) = Some v" | "cast_string _ = None"

section \<open>The virtual operations\<close>

fun ov_equals :: "env \<Rightarrow> ObjectValue \<Rightarrow> ObjectValue \<Rightarrow> bool" where
  "ov_equals env (Switching v) w = SwitchingObjectValue_equals v (cast_switching w)"
| "ov_equals env (SwitchingControl v) w = SwitchingControlObjectValue_equals v (cast_control w)"
| "ov_equals env (StepDir v) w = StepDirObjectValue_equals v (cast_stepdir w)"
| "ov_equals env (TimeOfDay v) w = TimeObjectValue_equals (clock env) v (cast_time w)"
| "ov_equals env (CalDate v) w = DateObjectValue_equals (clock env) v (cast_date w)"
| "ov_equals env (FloatValue v) w = ValueObjectValue_equals v (cast_float w)"
| "ov_equals env (UIntValue v) w = UIntObjectValue_equals v (cast_uint w)"
| "ov_equals env (IntValue v) w = IntObjectValue_equals v (cast_int w)"
| "ov_equals env (S64Value v) w = S64ObjectValue_equals v (cast_s64 w)"
| "ov_equals env (StringValue v) w = StringObjectValue_equals v (cast_string w)"

fun ov_compare :: "env \<Rightarrow> ObjectValue \<Rightarrow> ObjectValue \<Rightarrow> int" where
  "ov_compare env (Switching v) w = SwitchingObjectValue_compare v (cast_switching w)"
| "ov_compare env (SwitchingControl v) w = SwitchingControlObjectValue_compare v (cast_control w)"
| "ov_compare env (StepDir v) w = StepDirObjectValue_compare v (cast_stepdir w)"
| "ov_compare env (TimeOfDay v) w = TimeObjectValue_compare (clock env) v (cast_time w)"
| "ov_compare env (CalDate v) w = DateObjectValue_compare (clock env) v (cast_date w)"
| "ov_compare env (FloatValue v) w = ValueObjectValue_compare v (cast_float w)"
| "ov_compare env (UIntValue v) w = UIntObjectValue_compare v (cast_uint w)"
| "ov_compare env (IntValue v) w = IntObjectValue_compare v (cast_int w)"
| "ov_compare env (S64Value v) w = S64ObjectValue_compare v (cast_s64 w)"
| "ov_compare env (StringValue v) w = StringObjectValue_compare v (cast_string w)"

fun ov_set :: "env \<Rightarrow> ObjectValue \<Rightarrow> ObjectValue \<Rightarrow> bool \<times> ObjectValue" where
  "ov_set env (Switching v) w = map_prod id Switching (SwitchingObjectValue_set v (cast_switching w))"
| "ov_set env (SwitchingControl v) w =
     map_prod id SwitchingControl (SwitchingControlObjectValue_set v (cast_control w))"
| "ov_set env (StepDir v) w = map_prod id StepDir (StepDirObjectValue_set v (cast_stepdir w))"
| "ov_set env (TimeOfDay v) w = map_prod id TimeOfDay (TimeObjectValue_set (clock env) v (cast_time w))"
| "ov_set env (CalDate v) w = map_prod id CalDate (DateObjectValue_set (clock env) v (cast_date w))"
| "ov_set env (FloatValue v) w = map_prod id FloatValue (ValueObjectValue_set v (cast_float w))"
| "ov_set env (UIntValue v) w = map_prod id UIntValue (UIntObjectValue_set v (cast_uint w))"
| "ov_set env (IntValue v) w = map_prod id IntValue (IntObjectValue_set v (cast_int w))"
| "ov_set env (S64Value v) w = map_prod id S64Value (S64ObjectValue_set v (cast_s64 w))"
| "ov_set env (StringValue v) w = map_prod id StringValue (StringObjectValue_set v (cast_string w))"

fun ov_set_double :: "ObjectValue \<Rightarrow> rat \<Rightarrow> bool \<times> ObjectValue" where
  "ov_set_double (Switching v) d = map_prod id Switching (SwitchingObjectValue_set_double v d)"
| "ov_set_double (SwitchingControl v) d =
     map_prod id SwitchingControl (SwitchingControlObjectValue_set_double v d)"
| "ov_set_double (StepDir v) d = map_prod id StepDir (StepDirObjectValue_set_double v d)"
| "ov_set_double (TimeOfDay v) d = map_prod id TimeOfDay (TimeObjectValue_set_double v d)"
| "ov_set_double (CalDate v) d = map_prod id CalDate (DateObjectValue_set_double v d)"
| "ov_set_double (FloatValue v) d = map_prod id FloatValue (ValueObjectValue_set_double v d)"
| "ov_set_double (UIntValue v) d = map_prod id UIntValue (UIntObject_set_double v d)"
| "ov_set_double (IntValue v) d = map_prod id IntValue (IntObject_set_double v d)"
| "ov_set_double (S64Value v) d = map_prod id S64Value (S64Object_set_double v d)"
| "ov_set_double (StringValue v) d = map_prod id StringValue (StringObjectValue_set_double v d)"

fun ov_toNumber :: "ObjectValue \<Rightarrow> rat" where
  "ov_toNumber (Switching v) = SwitchingObjectValue_toNumber v"
| "ov_toNumber (SwitchingControl v) = SwitchingControlObjectValue_toNumber v"
| "ov_toNumber (StepDir v) = StepDirObjectValue_toNumber v"
| "ov_toNumber (TimeOfDay v) = TimeObjectValue_toNumber v"
| "ov_toNumber (CalDate v) = DateObjectValue_toNumber v"
| "ov_toNumber (FloatValue v) = vl_value v"
| "ov_toNumber (UIntValue v) = UIntObjectValue_toNumber v"
| "ov_toNumber (IntValue v) = IntObjectValue_toNumber v"
| "ov_toNumber (S64Value v) = S64ObjectValue_toNumber v"
| "ov_toNumber (StringValue v) = StringObjectValue_toNumber v"

definition stepdir_toString :: "StepDirObjectValue \<Rightarrow> string" where
  "stepdir_toString v =
     (case sd_class v of Dimming \<Rightarrow> DimmingObjectValue_toString v | Blinds \<Rightarrow> BlindsObjectValue_toString v)"

definition uint_toString :: "env \<Rightarrow> UIntObjectValue \<Rightarrow> string" where
  "uint_toString env v =
     (case ui_class v of
        U8 \<Rightarrow> U8ObjectValue_toString v
      | U8Count \<Rightarrow> U8ObjectValue_toString v
      | Scaling \<Rightarrow> ScalingObjectValue_toString v
      | Angle \<Rightarrow> AngleObjectValue_toString v
      | HeatingMode \<Rightarrow> HeatingModeObjectValue_toString v
      | Latin1Char \<Rightarrow> Latin1CharObjectValue_toString env v
      | AsciiChar \<Rightarrow> AsciiCharObjectValue_toString v
      | U16 \<Rightarrow> U16ObjectValue_toString v
      | U32 \<Rightarrow> U32ObjectValue_toString v
      | RGB \<Rightarrow> RGBObjectValue_toString v)"

definition s64_toString :: "S64ObjectValue \<Rightarrow> string" where
  "s64_toString v =
     (case sl_class v of S64 \<Rightarrow> S64ObjectValue_toString v | RGBW \<Rightarrow> RGBWObjectValue_toString v)"

fun ov_toString :: "env \<Rightarrow> ObjectValue \<Rightarrow> string" where
  "ov_toString env (Switching v) = SwitchingObjectValue_toString v"
| "ov_toString env (SwitchingControl v) = SwitchingControlObjectValue_toString v"
| "ov_toString env (StepDir v) = stepdir_toString v"
| "ov_toString env (TimeOfDay v) = TimeObjectValue_toString v"
| "ov_toString env (CalDate v) = DateObjectValue_toString v"
| "ov_toString env (FloatValue v) = ValueObjectValue_toString v"
| "ov_toString env (UIntValue v) = uint_toString env v"
| "ov_toString env (IntValue v) = IntObjectValue_toString v"
| "ov_toString env (S64Value v) = s64_toString v"
| "ov_toString env (StringValue v) = StringObjectValue_toString v"

text \<open>Only the floating point classes have a precision.\<close>

fun ov_setPrecision :: "ObjectValue \<Rightarrow> string \<Rightarrow> ObjectValue result" where
  "ov_setPrecision (FloatValue v) precision =
     (case ValueObjectValue_setPrecision v precision of Inl e \<Rightarrow> Inl e | Inr v' \<Rightarrow> Inr (FloatValue v'))"
| "ov_setPrecision v precision = Inr v"

fun ov_getPrecision :: "ObjectValue \<Rightarrow> string" where
  "ov_getPrecision (FloatValue v) = ValueObjectValue_getPrecision v"
| "ov_getPrecision _ = ''''"

section \<open>Types\<close>

definition uint_getType :: "uint_class \<Rightarrow> string" where
  "uint_getType c =
     (case c of U8 \<Rightarrow> ''5.xxx'' | U8Count \<Rightarrow> ''5.010'' | Scaling \<Rightarrow> ''5.001'' | Angle \<Rightarrow> ''5.003''
      | HeatingMode \<Rightarrow> ''20.102'' | Latin1Char \<Rightarrow> ''4.002'' | AsciiChar \<Rightarrow> ''4.001''
      | U16 \<Rightarrow> ''7.xxx'' | U32 \<Rightarrow> ''12.xxx'' | RGB \<Rightarrow> ''232.600'')"

definition int_getType :: "int_class \<Rightarrow> string" where
  "int_getType c = (case c of S8 \<Rightarrow> ''6.xxx'' | S16 \<Rightarrow> ''8.xxx'' | S32 \<Rightarrow> ''13.xxx'')"

definition string_getType :: "string_class \<Rightarrow> string" where
  "string_getType c = (case c of String28 \<Rightarrow> ''28.001'' | String14 \<Rightarrow> ''16.001'' | String14Ascii \<Rightarrow> ''16.000'')"

fun ov_getType :: "ObjectValue \<Rightarrow> string" where
  "ov_getType (Switching v) = SwitchingObjectValue_getType (sw_eis v)"
| "ov_getType (SwitchingControl v) = SwitchingControlObjectValue_getType (sc_eis v)"
| "ov_getType (StepDir v) = (case sd_class v of Dimming \<Rightarrow> ''3.007'' | Blinds \<Rightarrow> ''3.008'')"
| "ov_getType (TimeOfDay v) = ''10.001''"
| "ov_getType (CalDate v) = ''11.001''"
| "ov_getType (FloatValue v) = ValueObjectValue_getType (vl_class v)"
| "ov_getType (UIntValue v) = uint_getType (ui_class v)"
| "ov_getType (IntValue v) = int_getType (si_class v)"
| "ov_getType (S64Value v) = (case sl_class v of S64 \<Rightarrow> ''29.xxx'' | RGBW \<Rightarrow> ''251.600'')"
| "ov_getType (StringValue v) = string_getType (st_class v)"

text \<open>
  \<open>Object::create (type)\<close>: the value a new object of that type holds, \<open>None\<close> for the null pointer.  The
  integers of the signed classes are not initialised by their constructors; \<open>junk\<close> is what the memory
  of the object held before.
\<close>

abbreviation new_switching :: "nat \<Rightarrow> ObjectValue" where
  "new_switching eis \<equiv> Switching \<lparr>sw_eis = eis, sw_value = False\<rparr>"
abbreviation new_control :: "nat \<Rightarrow> ObjectValue" where
  "new_control eis \<equiv> SwitchingControl \<lparr>sc_eis = eis, sc_value = False, sc_control = False\<rparr>"
abbreviation new_float :: "value_class \<Rightarrow> ObjectValue" where
  "new_float c \<equiv> FloatValue \<lparr>vl_class = c, vl_value = 0, precision_m = 0\<rparr>"
abbreviation new_uint :: "uint_class \<Rightarrow> ObjectValue" where
  "new_uint c \<equiv> UIntValue \<lparr>ui_class = c, ui_value = 0\<rparr>"
abbreviation new_int :: "u64 \<Rightarrow> int_class \<Rightarrow> ObjectValue" where
  "new_int junk c \<equiv> IntValue \<lparr>si_class = c, si_value = ucast junk\<rparr>"
abbreviation new_string :: "string_class \<Rightarrow> ObjectValue" where
  "new_string c \<equiv> StringValue \<lparr>st_class = c, st_value = ''''\<rparr>"

definition Object_create :: "u64 \<Rightarrow> string \<Rightarrow> ObjectValue option" where
  "Object_create junk type =
     (if type = '''' \<or> type = ''EIS1'' \<or> type = ''1.001'' then Some (new_switching 1)
      else if take 2 type = ''1.'' then
        map_option new_switching (map_of
          [(''1.002'', 2), (''1.003'', 3), (''1.004'', 4), (''1.005'', 5), (''1.006'', 6),
           (''1.007'', 7), (''1.008'', 8), (''1.009'', 9), (''1.010'', 10), (''1.011'', 11),
           (''1.012'', 12), (''1.013'', 13), (''1.014'', 14)] type)
      else if take 2 type = ''2.'' then
        map_option new_control (map_of
          [(''2.xxx'', 0), (''2.001'', 1), (''2.002'', 2), (''2.003'', 3), (''2.004'', 4),
           (''2.005'', 5), (''2.006'', 6), (''2.007'', 7), (''2.008'', 8), (''2.009'', 9),
           (''2.010'', 10), (''2.011'', 11), (''2.012'', 12)] type)
      else if type = ''EIS2'' \<or> type = ''3.007'' then
        Some (StepDir \<lparr>sd_class = Dimming, direction_m = 0, stepcode_m = 0\<rparr>)
      else if type = ''3.008'' then
        Some (StepDir \<lparr>sd_class = Blinds, direction_m = 0, stepcode_m = 0\<rparr>)
      else if type = ''4.001'' then Some (new_uint AsciiChar)
      else if type = ''4.002'' then Some (new_uint Latin1Char)
      else if type = ''EIS3'' \<or> type = ''10.001'' then
        Some (TimeOfDay \<lparr>wday_m = 0, hour_m = 0, min_m = 0, sec_m = 0\<rparr>)
      else if type = ''EIS4'' \<or> type = ''11.001'' then
        Some (CalDate \<lparr>day_m = 0, month_m = 0, year_m = 0\<rparr>)
      else if type = ''EIS5'' \<or> type = ''9.xxx'' then Some (new_float (Dpt9 0))
      else if take 2 type = ''9.'' then
        map_option (\<lambda>n. new_float (Dpt9 n)) (map_of
          [(''9.001'', 1), (''9.002'', 2), (''9.003'', 3), (''9.004'', 4), (''9.005'', 5),
           (''9.006'', 6), (''9.007'', 7), (''9.008'', 8), (''9.010'', 10), (''9.011'', 11),
           (''9.020'', 20), (''9.021'', 21), (''9.022'', 22), (''9.023'', 23), (''9.024'', 24),
           (''9.025'', 25), (''9.026'', 26), (''9.027'', 27), (''9.028'', 28)] type)
      else if type = ''14.xxx'' then Some (new_float Dpt14)
      else if type = ''EIS6'' \<or> type = ''5.xxx'' then Some (new_uint U8)
      else if type = ''5.001'' then Some (new_uint Scaling)
      else if type = ''5.003'' then Some (new_uint Angle)
      else if type = ''5.010'' then Some (new_uint U8Count)
      else if type = ''heat-mode'' \<or> type = ''20.102'' then Some (new_uint HeatingMode)
      else if type = ''EIS10'' \<or> type = ''7.xxx'' then Some (new_uint U16)
      else if type = ''EIS11'' \<or> type = ''12.xxx'' then Some (new_uint U32)
      else if type = ''EIS14'' \<or> type = ''6.xxx'' then Some (new_int junk S8)
      else if type = ''8.xxx'' then Some (new_int junk S16)
      else if type = ''13.xxx'' then Some (new_int junk S32)
      else if type = ''29.xxx'' then Some (S64Value \<lparr>sl_class = S64, sl_value = junk\<rparr>)
      else if type = ''16.001'' then Some (new_string String14)
      else if type = ''EIS15'' \<or> type = ''16.000'' then Some (new_string String14Ascii)
      else if type = ''28.001'' then Some (new_string String28)
      else if type = ''232.600'' then Some (new_uint RGB)
      else if type = ''251.600'' then Some (S64Value \<lparr>sl_class = RGBW, sl_value = junk\<rparr>)
      else None)"

section \<open>createObjectValue\<close>

definition lift_value :: "('v \<Rightarrow> ObjectValue) \<Rightarrow> 'v result \<Rightarrow> ObjectValue result" where
  "lift_value f r = (case r of Inl e \<Rightarrow> Inl e | Inr v \<Rightarrow> Inr (f v))"

definition create_uint :: "env \<Rightarrow> uint_class \<Rightarrow> string \<Rightarrow> UIntObjectValue result" where
  "create_uint env c value =
     (case c of
        U8 \<Rightarrow> U8ObjectValue_init U8 value
      | U8Count \<Rightarrow> U8ObjectValue_init U8Count value
      | Scaling \<Rightarrow> ScalingObjectValue_init value
      | Angle \<Rightarrow> AngleObjectValue_init value
      | HeatingMode \<Rightarrow> HeatingModeObjectValue_init value
      | Latin1Char \<Rightarrow> Latin1CharObjectValue_init env value
      | AsciiChar \<Rightarrow> AsciiCharObjectValue_init value
      | U16 \<Rightarrow> U16ObjectValue_init value
      | U32 \<Rightarrow> U32ObjectValue_init value
      | RGB \<Rightarrow> RGBObjectValue_init value)"

definition create_string :: "env \<Rightarrow> string_class \<Rightarrow> string \<Rightarrow> StringObjectValue result" where
  "create_string env c value =
     (case c of
        String28 \<Rightarrow> StringObjectValue_init value
      | String14 \<Rightarrow> String14ObjectValue_init env value
      | String14Ascii \<Rightarrow> String14AsciiObjectValue_init value)"

text \<open>The value an object of the class of \<open>v\<close> makes from a text.\<close>

fun createObjectValue :: "env \<Rightarrow> ObjectValue \<Rightarrow> string \<Rightarrow> ObjectValue result" where
  "createObjectValue env (Switching v) value = lift_value Switching (SwitchingObjectValue_init (sw_eis v) value)"
| "createObjectValue env (SwitchingControl v) value =
     lift_value SwitchingControl (SwitchingControlObjectValue_init (sc_eis v) value)"
| "createObjectValue env (StepDir v) value =
     lift_value StepDir (case sd_class v of Dimming \<Rightarrow> DimmingObjectValue_init value
                         | Blinds \<Rightarrow> BlindsObjectValue_init value)"
| "createObjectValue env (TimeOfDay v) value = lift_value TimeOfDay (TimeObjectValue_init value)"
| "createObjectValue env (CalDate v) value = lift_value CalDate (DateObjectValue_init value)"
| "createObjectValue env (FloatValue v) value =
     lift_value FloatValue (case vl_class v of Dpt9 n \<Rightarrow> ValueObjectValue_init n value
                            | Dpt14 \<Rightarrow> ValueObject32Value_init value)"
| "createObjectValue env (UIntValue v) value = lift_value UIntValue (create_uint env (ui_class v) value)"
| "createObjectValue env (IntValue v) value =
     lift_value IntValue (case si_class v of S8 \<Rightarrow> S8ObjectValue_init value
                          | S16 \<Rightarrow> S16ObjectValue_init value | S32 \<Rightarrow> S32ObjectValue_init value)"
| "createObjectValue env (S64Value v) value =
     lift_value S64Value (case sl_class v of S64 \<Rightarrow> S64ObjectValue_init value
                          | RGBW \<Rightarrow> RGBWObjectValue_init value)"
| "createObjectValue env (StringValue v) value =
     lift_value StringValue (create_string env (st_class v) value)"

section \<open>The contract of ObjectValue, for all classes\<close>

text \<open>
  Two values are of the same kind when each can be cast to the class of the other and rounds like it;
  on the values of one kind that are \<open>regular\<close>, the operations keep the contract of
  \<open>object_value\<close>.  Regular excludes the values the classes treat specially: "now" for times and
  dates, a stopped movement with a direction, and a floating point value that is not one of the
  numbers \<open>set\<close> would store.
\<close>

fun ov_kind :: "ObjectValue \<Rightarrow> nat \<times> bool" where
  "ov_kind (Switching v) = (0, False)"
| "ov_kind (SwitchingControl v) = (1, False)"
| "ov_kind (StepDir v) = (2, False)"
| "ov_kind (TimeOfDay v) = (3, False)"
| "ov_kind (CalDate v) = (4, False)"
| "ov_kind (FloatValue v) = (5, vl_class v = Dpt14)"
| "ov_kind (UIntValue v) = (6, False)"
| "ov_kind (IntValue v) = (7, False)"
| "ov_kind (S64Value v) = (8, False)"
| "ov_kind (StringValue v) = (9, False)"

fun ov_regular :: "ObjectValue \<Rightarrow> bool" where
  "ov_regular (StepDir v) = stepdir_valid v"
| "ov_regular (TimeOfDay v) = (hour_m v \<noteq> - 1)"
| "ov_regular (CalDate v) = (day_m v \<noteq> - 1)"
| "ov_regular (FloatValue v) = (precision_m v = 0 \<and> round_value (vl_class v) (vl_value v) = vl_value v)"
| "ov_regular _ = True"

lemma ov_kind_cases:
  assumes "ov_kind a = ov_kind b"
  obtains v w where "a = Switching v" "b = Switching w"
    | v w where "a = SwitchingControl v" "b = SwitchingControl w"
    | v w where "a = StepDir v" "b = StepDir w"
    | v w where "a = TimeOfDay v" "b = TimeOfDay w"
    | v w where "a = CalDate v" "b = CalDate w"
    | v w where "a = FloatValue v" "b = FloatValue w" "(vl_class v = Dpt14) = (vl_class w = Dpt14)"
    | v w where "a = UIntValue v" "b = UIntValue w"
    | v w where "a = IntValue v" "b = IntValue w"
    | v w where "a = S64Value v" "b = S64Value w"
    | v w where "a = StringValue v" "b = StringValue w"
  using assms by (cases a; cases b; simp)

lemma round_value_class:
  "(vl_class v = Dpt14) = (vl_class w = Dpt14) \<Longrightarrow> round_value (vl_class v) = round_value (vl_class w)"
  by (auto simp: round_value_def fun_eq_iff split: value_class.splits)

lemma float_set_regular:
  assumes "precision_m v = 0" and "(vl_class v = Dpt14) = (vl_class w = Dpt14)"
    and "round_value (vl_class w) (vl_value w) = vl_value w"
  shows "ValueObjectValue_set v (Some w) = (vl_value v \<noteq> vl_value w, v\<lparr>vl_value := vl_value w\<rparr>)"
  using assms round_value_class [OF assms(2)]
  by (simp add: ValueObjectValue_set_def ValueObjectValue_set_double_def Let_def)

text \<open>The floating point classes among themselves.\<close>

interpretation float_value: object_value
    "\<lambda>v. (vl_class v = Dpt14) = k \<and> precision_m v = 0 \<and> round_value (vl_class v) (vl_value v) = vl_value v"
    "\<lambda>v w. ValueObjectValue_equals v (Some w)" "\<lambda>v w. ValueObjectValue_compare v (Some w)"
    "\<lambda>v w. ValueObjectValue_set v (Some w)" for k
proof unfold_locales
  fix a b :: ValueObjectValue
  assume "(vl_class a = Dpt14) = k \<and> precision_m a = 0 \<and> round_value (vl_class a) (vl_value a) = vl_value a"
    and "(vl_class b = Dpt14) = k \<and> precision_m b = 0 \<and> round_value (vl_class b) (vl_value b) = vl_value b"
  then have s: "ValueObjectValue_set a (Some b) = (vl_value a \<noteq> vl_value b, a\<lparr>vl_value := vl_value b\<rparr>)"
    and c: "round_value (vl_class a) (vl_value b) = vl_value b" and "(vl_class a = Dpt14) = k" and "precision_m a = 0"
    using round_value_class [of a b] by (auto intro: float_set_regular)
  then show "(vl_class (snd (ValueObjectValue_set a (Some b))) = Dpt14) = k \<and>
      precision_m (snd (ValueObjectValue_set a (Some b))) = 0 \<and>
      round_value (vl_class (snd (ValueObjectValue_set a (Some b)))) (vl_value (snd (ValueObjectValue_set a (Some b))))
        = vl_value (snd (ValueObjectValue_set a (Some b)))" by simp
  from s show "fst (ValueObjectValue_set a (Some b)) = (\<not> ValueObjectValue_equals a (Some b))"
    and "ValueObjectValue_equals (snd (ValueObjectValue_set a (Some b))) (Some b)"
    and "ValueObjectValue_equals a (Some b) \<Longrightarrow> snd (ValueObjectValue_set a (Some b)) = a"
    by (auto simp: ValueObjectValue_equals_def)
qed (auto simp: ValueObjectValue_equals_def ValueObjectValue_compare_def)

text \<open>The laws of the ten classes, law by law.\<close>

lemmas ov_equals_refl =
  switching.equals_refl switching_control.equals_refl stepdir.equals_refl time_of_day.equals_refl date.equals_refl
  float_value.equals_refl uint.equals_refl sint32.equals_refl sint64.equals_refl str.equals_refl
lemmas ov_compare_values =
  switching.compare_values switching_control.compare_values stepdir.compare_values time_of_day.compare_values date.compare_values
  float_value.compare_values uint.compare_values sint32.compare_values sint64.compare_values str.compare_values
lemmas ov_compare_equals =
  switching.compare_equals switching_control.compare_equals stepdir.compare_equals time_of_day.compare_equals date.compare_equals
  float_value.compare_equals uint.compare_equals sint32.compare_equals sint64.compare_equals str.compare_equals
lemma float_compare_swap:
  "ValueObjectValue_compare w (Some v) = - ValueObjectValue_compare v (Some w)"
  by (simp add: ValueObjectValue_compare_def)

lemmas ov_compare_swap =
  switching.compare_swap switching_control.compare_swap stepdir.compare_swap time_of_day.compare_swap date.compare_swap
  float_compare_swap uint.compare_swap sint32.compare_swap sint64.compare_swap str.compare_swap
lemmas ov_assign_changed =
  switching.assign_changed switching_control.assign_changed stepdir.assign_changed time_of_day.assign_changed date.assign_changed
  float_value.assign_changed uint.assign_changed sint32.assign_changed sint64.assign_changed str.assign_changed
lemmas ov_assign_equals =
  switching.assign_equals switching_control.assign_equals stepdir.assign_equals time_of_day.assign_equals date.assign_equals
  float_value.assign_equals uint.assign_equals sint32.assign_equals sint64.assign_equals str.assign_equals
lemmas ov_assign_same =
  switching.assign_same switching_control.assign_same stepdir.assign_same time_of_day.assign_same date.assign_same
  float_value.assign_same uint.assign_same sint32.assign_same sint64.assign_same str.assign_same
lemmas ov_assign_valid =
  switching.assign_valid switching_control.assign_valid stepdir.assign_valid time_of_day.assign_valid date.assign_valid
  float_value.assign_valid uint.assign_valid sint32.assign_valid sint64.assign_valid str.assign_valid

interpretation ov: object_value "\<lambda>v. ov_kind v = k \<and> ov_regular v"
    "ov_equals env" "ov_compare env" "ov_set env" for k env
proof unfold_locales
  fix a b
  assume a: "ov_kind a = k \<and> ov_regular a"
  then show "ov_equals env a a"
    by (cases a) (simp_all add: ov_equals_refl)
  assume b: "ov_kind b = k \<and> ov_regular b"
  have k: "ov_kind a = ov_kind b" using a b by simp
  show "ov_compare env a b \<in> {- 1, 0, 1}"
    using a b ov_compare_values by (cases rule: ov_kind_cases [OF k]) simp_all
  show "ov_compare env b a = - ov_compare env a b"
    using a b by (cases rule: ov_kind_cases [OF k]) (auto intro!: ov_compare_swap)
  show "(ov_compare env a b = 0) = ov_equals env a b"
    using a b by (cases rule: ov_kind_cases [OF k]) (simp_all add: ov_compare_equals)
  show "fst (ov_set env a b) = (\<not> ov_equals env a b)"
    using a b by (cases rule: ov_kind_cases [OF k]) (simp_all add: ov_assign_changed)
  show "ov_equals env (snd (ov_set env a b)) b"
    using a b by (cases rule: ov_kind_cases [OF k]) (simp_all add: ov_assign_equals)
  show "ov_kind (snd (ov_set env a b)) = k \<and> ov_regular (snd (ov_set env a b))"
    using a b by (cases rule: ov_kind_cases [OF k]) (simp_all add: ov_assign_valid)
  show "ov_equals env a b \<Longrightarrow> snd (ov_set env a b) = a"
    using a b by (cases rule: ov_kind_cases [OF k]) (simp_all add: ov_assign_same)
qed

section \<open>Properties\<close>

text \<open>
  Assigning a value to an object of the same kind settles it: the object then compares equal to
  the value, and assigning it again reports no change, for every kind of value and any clock.
\<close>

theorem set_settles:
  assumes "ov_kind a = ov_kind b" and "ov_regular a" and "ov_regular b"
  shows "ov_compare env (snd (ov_set env a b)) b = 0
    \<and> ov_set env (snd (ov_set env a b)) b = (False, snd (ov_set env a b))"
  using ov.assign_compare [of a "ov_kind b" b env] ov.assign_idem [of a "ov_kind b" b env] assms by simp

theorem set_settles_witness:
  "ov_compare plain_env (snd (ov_set plain_env (new_switching 1) (Switching \<lparr>sw_eis = 2, sw_value = True\<rparr>)))
     (Switching \<lparr>sw_eis = 2, sw_value = True\<rparr>) = 0"
  using set_settles [of "new_switching 1" "Switching \<lparr>sw_eis = 2, sw_value = True\<rparr>" plain_env] by simp

text \<open>
  Across kinds nothing is assigned and nothing is equal, but \<open>compare\<close> still answers 0, which the
  rule conditions read as "equal"; only the text classes answer -1.
\<close>

theorem mismatched_kinds:
  assumes "fst (ov_kind a) \<noteq> fst (ov_kind b)"
  shows "\<not> ov_equals env a b \<and> ov_set env a b = (False, a)
    \<and> ov_compare env a b = (if cast_string a = None then 0 else - 1)"
  using assms
  by (cases a; cases b;
      simp add: SwitchingObjectValue_defs SwitchingControlObjectValue_defs StepDirObjectValue_defs
        TimeObjectValue_defs DateObjectValue_defs number_value_defs StringObjectValue_defs)

theorem mismatched_kinds_witness:
  "\<not> ov_equals plain_env (new_switching 1) (new_uint U8) \<and> ov_compare plain_env (new_switching 1) (new_uint U8) = 0"
  using mismatched_kinds [of "new_switching 1" "new_uint U8" plain_env] by simp

text \<open>
  A condition on a DPT 9.x object that names a number the format cannot hold is never met: after
  the object was set to the very number, it still differs from it.  The values the two byte format
  holds are exactly those for which this does not happen.
\<close>

theorem float_condition_met_iff:
  assumes "vl_class v = Dpt9 n" and "precision_m v = 0" and "vl_class w = Dpt9 n"
  shows "ov_equals env (snd (ov_set env (FloatValue v) (FloatValue w))) (FloatValue w)
    \<longleftrightarrow> roundToKnxPrecision (vl_value w) = vl_value w"
  using assms
  by (auto simp: ValueObjectValue_set_def ValueObjectValue_set_double_def ValueObjectValue_equals_def
      round_value_def Let_def)

theorem float_condition_met_iff_witness:
  "\<not> ov_equals plain_env (snd (ov_set plain_env (new_float (Dpt9 1))
      (FloatValue \<lparr>vl_class = Dpt9 1, vl_value = fl_double (2137 / 100), precision_m = 0\<rparr>)))
      (FloatValue \<lparr>vl_class = Dpt9 1, vl_value = fl_double (2137 / 100), precision_m = 0\<rparr>)"
proof -
  have "roundToKnxPrecision (fl_double (2137 / 100)) \<noteq> fl_double (2137 / 100)"
    by (simp add: roundToKnxPrecision_def knx_normalise_def knx_shift.simps float_defs)
  then show ?thesis
    using float_condition_met_iff [of "\<lparr>vl_class = Dpt9 1, vl_value = 0, precision_m = 0\<rparr>" 1
        "\<lparr>vl_class = Dpt9 1, vl_value = fl_double (2137 / 100), precision_m = 0\<rparr>" plain_env] by simp
qed

lemmas ov_type_defs =
  SwitchingObjectValue_getType_def SwitchingTypes_def SwitchingControlObjectValue_getType_def
  SwitchingControlTypes_def FloatValueTypes_def uint_getType_def int_getType_def string_getType_def

text \<open>A predicate holds of every value \<open>Object::create\<close> can make when it holds of those it names.\<close>

lemma pred_option_if: "pred_option P x \<Longrightarrow> pred_option P y \<Longrightarrow> pred_option P (if c then x else y)"
  by simp

lemma pred_option_map_of:
  "list_all (\<lambda>(k, n). P (f n)) xs \<Longrightarrow> pred_option P (map_option f (map_of xs t))"
  by (induction xs) auto

lemma type_stable_create:
  "pred_option (\<lambda>v. Object_create junk (ov_getType v) = Some v) (Object_create junk t)"
  by (subst (2) Object_create_def, intro pred_option_if pred_option_map_of)
    (simp_all add: Object_create_def ov_type_defs)

text \<open>
  The type string an object reports is accepted by \<open>Object::create\<close> and makes an object of the same
  class, whatever alias (EIS1, EIS2, ..., the empty string) it was created from.
\<close>

theorem type_roundtrip:
  "Object_create junk t = Some v \<Longrightarrow> Object_create junk (ov_getType v) = Some v"
  using type_stable_create [of junk t] by simp

theorem type_roundtrip_witness: "Object_create 0 (ov_getType (new_float (Dpt9 0))) = Some (new_float (Dpt9 0))"
  by (rule type_roundtrip [of 0 "''EIS5''"]) (simp add: Object_create_def)

text \<open>
  The values of the integer, heating mode and text classes whose text is read back: the range of the
  type, and for \<open>251.600\<close> the numbers that are not negative as an \<open>int64_t\<close>.
\<close>

fun text_exact :: "env \<Rightarrow> ObjectValue \<Rightarrow> bool" where
  "text_exact env (UIntValue v) =
     (case ui_class v of
        U8 \<Rightarrow> uint (ui_value v) \<le> 255 | U8Count \<Rightarrow> uint (ui_value v) \<le> 255
      | HeatingMode \<Rightarrow> unat (ui_value v) \<le> 4
      | U16 \<Rightarrow> uint (ui_value v) \<le> 65535
      | U32 \<Rightarrow> True | RGB \<Rightarrow> True | _ \<Rightarrow> False)"
| "text_exact env (IntValue v) =
     (case si_class v of
        S8 \<Rightarrow> - 128 \<le> sint (si_value v) \<and> sint (si_value v) \<le> 127
      | S16 \<Rightarrow> - 32768 \<le> sint (si_value v) \<and> sint (si_value v) \<le> 32767
      | S32 \<Rightarrow> True)"
| "text_exact env (S64Value v) = (sl_class v = RGBW \<longrightarrow> unat (sl_value v) < 2 ^ 63)"
| "text_exact env (StringValue v) = (string14_fits env v \<and>
     (st_class v = String14Ascii \<longrightarrow> (\<forall>c \<in> set (st_value v). of_char c \<le> (127 :: nat))))"
| "text_exact env _ = False"

lemma uint_text_exact:
  assumes "text_exact env (UIntValue v)"
  shows "create_uint env (ui_class v) (uint_toString env v) = Inr v"
  using assms heating_init_shown [of v] uint_init_shown [of 10 "U8ObjectValue_toString v" v]
    uint_init_shown [of 16 "RGBObjectValue_toString v" v] get_unsigned_show_u32 [of "ui_value v"]
    get_unsigned_hex_u32 [of 6 "ui_value v"] uint_lt2p [of "ui_value v"]
  by (cases "ui_class v")
    (auto simp: create_uint_def uint_toString_def uint_init_defs uint_toString_defs)

lemma int_text_exact:
  assumes "text_exact env (IntValue v)"
  shows "createObjectValue env (IntValue v) (IntObjectValue_toString v) = Inr (IntValue v)"
  using assms int_init_shown [of _ v] sint_ge [of "si_value v"] sint_lt [of "si_value v"]
  by (cases "si_class v")
    (auto simp: lift_value_def S8ObjectValue_init_def S16ObjectValue_init_def S32ObjectValue_init_def)

text \<open>
  The integer classes (8, 16 and 32 bits, counters, colours, signed numbers of 8 to 64 bits), heating
  modes and the three text classes read back the text they print, for every value in the range of
  the type.
\<close>

theorem integer_and_text_roundtrip:
  assumes "text_exact env v"
  shows "createObjectValue env v (ov_toString env v) = Inr v"
proof (cases v)
  case (UIntValue u)
  then show ?thesis using assms uint_text_exact [of env u] by (simp add: lift_value_def)
next
  case (IntValue i)
  then show ?thesis using assms int_text_exact [of env i] by simp
next
  case (S64Value l)
  then show ?thesis using assms s64_init_shown [of l] rgbw_init_shown [of l]
    by (cases "sl_class l") (auto simp: s64_toString_def lift_value_def S64ObjectValue_init_def)
next
  case (StringValue t)
  then show ?thesis using assms
    by (cases t; cases "st_class t")
      (auto simp: lift_value_def create_string_def StringObjectValue_toString_def string14_fits_def
        StringObjectValue_init_def String14ObjectValue_init_def String14AsciiObjectValue_init_def)
qed (use assms in simp_all)

theorem integer_and_text_roundtrip_witness:
  "createObjectValue plain_env (IntValue \<lparr>si_class = S8, si_value = - 100\<rparr>)
     (ov_toString plain_env (IntValue \<lparr>si_class = S8, si_value = - 100\<rparr>)) = Inr (IntValue \<lparr>si_class = S8, si_value = - 100\<rparr>)"
  by (rule integer_and_text_roundtrip) simp

text \<open>
  A percentage does not survive its own text: the byte 127 prints as 49.8 and is read back as 126,
  because the text keeps three digits and the constructor truncates.  Copying a 5.001 object by its
  text loses a step.
\<close>

theorem percentage_text_loses_a_step:
  "ScalingObjectValue_toString \<lparr>ui_class = Scaling, ui_value = 127\<rparr> = ''49.8''
   \<and> ScalingObjectValue_init ''49.8'' = Inr \<lparr>ui_class = Scaling, ui_value = 126\<rparr>"
proof
  show "ScalingObjectValue_toString \<lparr>ui_class = Scaling, ui_value = 127\<rparr> = ''49.8''"
    by (simp add: ScalingObjectValue_toString_def fmt_defs float_defs)
  have "get_float 24 ''49.8'' = Some (fl_float (498 / 10), [])"
    by (simp add: get_float_defs)
      (simp add: decimal_def val_base_def digit_val_def round_text_def float_defs)
  then show "ScalingObjectValue_init ''49.8'' = Inr \<lparr>ui_class = Scaling, ui_value = 126\<rparr>"
    by (simp add: ScalingObjectValue_init_def get_scaled_def float_defs c_trunc_def)
qed

end
