(* ===== verification/Codecs.thy ===== *)
theory Codecs
  imports ObjectValues
begin

text \<open>
  The telegrams of the object classes of src/objectcontroller.h and .cpp: \<open>doSend\<close> builds the bytes that
  are written to the bus, \<open>doWrite\<close> reads a received telegram into the value and tells whether
  \<open>onUpdate\<close> is called.  \<open>force\<close> is \<open>forceUpdate ()\<close> of the object.  A received telegram is a memory and
  a length, since several classes read bytes without looking at the length.
\<close>

section \<open>BufferBuilder\<close>

text \<open>
  The memory of a new builder is not initialised; every frame fills it completely (lemma
  \<open>frame_filled\<close>), so the zeros of the model never show.  \<open>setValue\<close> stores \<open>(uint8_t)value\<close>: the cast is
  written where the value is computed.
\<close>

record BufferBuilder =
  bb_buffer :: "byte list"
  bb_index :: nat

definition BufferBuilder_new :: "nat \<Rightarrow> BufferBuilder" where
  "BufferBuilder_new n = \<lparr>bb_buffer = replicate n 0, bb_index = 0\<rparr>"

definition BufferBuilder_setValue :: "BufferBuilder \<Rightarrow> nat \<Rightarrow> byte \<Rightarrow> BufferBuilder" where
  "BufferBuilder_setValue b index value =
     (if index \<ge> length (bb_buffer b) then b else b\<lparr>bb_buffer := (bb_buffer b)[index := value]\<rparr>)"

definition BufferBuilder_put :: "BufferBuilder \<Rightarrow> byte \<Rightarrow> BufferBuilder" where
  "BufferBuilder_put b value =
     (let b' = BufferBuilder_setValue b (bb_index b) value in b'\<lparr>bb_index := bb_index b' + 1\<rparr>)"

text \<open>\<open>builder << v0 << v1 << \<dots>\<close>, then \<open>getBuffer ()\<close>.\<close>

definition frame :: "nat \<Rightarrow> byte list \<Rightarrow> byte list" where
  "frame n bs = bb_buffer (foldl BufferBuilder_put (BufferBuilder_new n) bs)"

text \<open>The APCI byte: a write or a response.\<close>

definition apci :: "bool \<Rightarrow> byte" where
  "apci isWrite = (if isWrite then 0x80 else 0x40)"

section \<open>DPT 1, 2 and 3\<close>

definition SwitchingObject_doSend :: "bool \<Rightarrow> SwitchingObjectValue \<Rightarrow> byte list" where
  "SwitchingObject_doSend isWrite v = [0, apci isWrite OR (if sw_value v then 1 else 0)]"

definition SwitchingObject_doWrite ::
    "bool \<Rightarrow> buffer \<Rightarrow> nat \<Rightarrow> SwitchingObjectValue \<Rightarrow> bool \<times> SwitchingObjectValue" where
  "SwitchingObject_doWrite force buf len v =
     (let newValue = (if len = 2 then buf 1 AND 0x3F \<noteq> 0 else buf 2 \<noteq> 0);
          (changed, v') = SwitchingObjectValue_set_bool v newValue
      in (changed \<or> force, v'))"

definition SwitchingControlObject_doSend :: "bool \<Rightarrow> SwitchingControlObjectValue \<Rightarrow> byte list" where
  "SwitchingControlObject_doSend isWrite v =
     frame 2 [0, apci isWrite OR (if sc_control v then 2 else 0) OR (if sc_value v then 1 else 0)]"

text \<open>\<open>set (newValue)\<close> with an \<open>int\<close> argument is \<open>set (double)\<close>.\<close>

definition SwitchingControlObject_doWrite ::
    "bool \<Rightarrow> buffer \<Rightarrow> nat \<Rightarrow> SwitchingControlObjectValue \<Rightarrow> bool \<times> SwitchingControlObjectValue" where
  "SwitchingControlObject_doWrite force buf len v =
     (let newValue = uint (if len = 2 then buf 1 AND 0x3F else buf 2);
          (changed, v') = SwitchingControlObjectValue_set_double v (of_int newValue)
      in (changed \<or> force, v'))"

definition StepDirObject_doSend :: "bool \<Rightarrow> StepDirObjectValue \<Rightarrow> byte list" where
  "StepDirObject_doSend isWrite v =
     [0, apci isWrite OR (if direction_m v \<noteq> 0 then 8 else 0) OR (word_of_int (stepcode_m v) AND 0x07)]"

definition StepDirObject_doWrite ::
    "bool \<Rightarrow> buffer \<Rightarrow> nat \<Rightarrow> StepDirObjectValue \<Rightarrow> bool \<times> StepDirObjectValue" where
  "StepDirObject_doWrite force buf len v =
     (let newValue = (if len = 2 then buf 1 AND 0x3F else buf 2);
          direction = uint (drop_bit 3 (newValue AND 0x08));
          stepcode = uint (newValue AND 0x07);
          direction = (if stepcode = 0 then 0 else direction);
          (changed, v') = StepDirObjectValue_assign v direction stepcode
      in (changed \<or> force, v'))"

section \<open>DPT 10 and 11\<close>

definition TimeObject_doSend :: "bool \<Rightarrow> TimeObjectValue \<Rightarrow> byte list" where
  "TimeObject_doSend isWrite v =
     [0, apci isWrite,
      word_of_int ((push_bit 5 (wday_m v) AND 0xE0) OR (hour_m v AND 0x1F)),
      word_of_int (min_m v), word_of_int (sec_m v)]"

definition TimeObject_doWrite ::
    "bool \<Rightarrow> buffer \<Rightarrow> nat \<Rightarrow> TimeObjectValue \<Rightarrow> bool \<times> TimeObjectValue" where
  "TimeObject_doWrite force buf len v =
     (if len < 5 then (False, v)
      else
        let w = \<lparr>wday_m = uint (drop_bit 5 (buf 2 AND 0xE0)), hour_m = uint (buf 2 AND 0x1F),
                 min_m = uint (buf 3), sec_m = uint (buf 4)\<rparr>
        in if force \<or> wday_m w \<noteq> wday_m v \<or> hour_m w \<noteq> hour_m v \<or> min_m w \<noteq> min_m v \<or> sec_m w \<noteq> sec_m v
           then (True, w) else (False, v))"

definition DateObject_doSend :: "bool \<Rightarrow> DateObjectValue \<Rightarrow> byte list" where
  "DateObject_doSend isWrite v =
     frame 5 [0, apci isWrite, word_of_int (day_m v), word_of_int (month_m v),
       word_of_int (if year_m v \<ge> 100 \<and> year_m v < 190 then year_m v - 100 else year_m v)]"

definition DateObject_doWrite ::
    "bool \<Rightarrow> buffer \<Rightarrow> nat \<Rightarrow> DateObjectValue \<Rightarrow> bool \<times> DateObjectValue" where
  "DateObject_doWrite force buf len v =
     (if len < 5 then (False, v)
      else
        let day = uint (buf 2); month = uint (buf 3);
            year = (if uint (buf 4) < 90 then uint (buf 4) + 100 else uint (buf 4))
        in if force \<or> day \<noteq> day_m v \<or> month \<noteq> month_m v \<or> year \<noteq> year_m v
           then (True, \<lparr>day_m = day, month_m = month, year_m = year\<rparr>) else (False, v))"

section \<open>DPT 9 and 14\<close>

text \<open>
  \<open>getFloatValue ()\<close> is the value here; that it may first read the bus is modelled with the object
  (theory \<open>GroupObject\<close>).
\<close>

definition ValueObject_doSend :: "bool \<Rightarrow> ValueObjectValue \<Rightarrow> byte list" where
  "ValueObject_doSend isWrite v =
     (let h = rne (fl_double (vl_value v * 100)); (m, ex) = knx_normalise h;
          high = (drop_bit 8 m AND 0x07) OR (push_bit 3 (int ex) AND 0x78);
          b = foldl BufferBuilder_put (BufferBuilder_new 4) [0, apci isWrite, 0, 0];
          b2 = BufferBuilder_setValue b 2 (word_of_int (if h < 0 then high OR push_bit 7 1 else high));
          b3 = BufferBuilder_setValue b2 3 (word_of_int (m AND 0xff))
      in bb_buffer b3)"

definition ValueObject_decode :: "byte \<Rightarrow> byte \<Rightarrow> rat" where
  "ValueObject_decode b2 b3 =
     (let d1 = uint b2 * 256 + uint b3;
          m = d1 AND 0x7ff;
          m = (if d1 AND 0x8000 \<noteq> 0 then m OR NOT 0x7ff else m);
          ex = nat (drop_bit 11 (d1 AND 0x7800))
      in fl_double (fl_double (of_int m * 2 ^ ex) / 100))"

definition ValueObject_doWrite ::
    "bool \<Rightarrow> buffer \<Rightarrow> nat \<Rightarrow> ValueObjectValue \<Rightarrow> bool \<times> ValueObjectValue" where
  "ValueObject_doWrite force buf len v =
     (if len < 4 then (False, v)
      else let (changed, v') = ValueObjectValue_set_double v (ValueObject_decode (buf 2) (buf 3))
           in (changed \<or> force, v'))"

text \<open>
  \<open>convfloat\<close>: the bits of a \<open>float\<close>.  \<open>None\<close> stands for the infinities and NaNs, which are not rational
  numbers; they are outside of the model.
\<close>

definition float_of_bits :: "u32 \<Rightarrow> rat option" where
  "float_of_bits w =
     (let e = uint (drop_bit 23 w AND 0xff); f = uint (w AND 0x7fffff);
          s = (if bit w 31 then - 1 else 1 :: rat)
      in if e = 255 then None
         else if e = 0 then Some (s * of_int f * pow2 (- 149))
         else Some (s * of_int (2 ^ 23 + f) * pow2 (e - 150)))"

definition bits_of_float :: "rat \<Rightarrow> u32" where
  "bits_of_float q =
     (let s = (if q < 0 then 2 ^ 31 else 0 :: int); a = \<bar>q\<bar>; x = fl_float a in
      word_of_int (s +
        (if a < pow2 (- 126) then rne (a * pow2 149)
         else if x \<ge> pow2 128 then 255 * 2 ^ 23
         else (expo x + 127) * 2 ^ 23 + (\<lfloor>x * pow2 (23 - expo x)\<rfloor> - 2 ^ 23))))"

definition ValueObject32_doSend :: "bool \<Rightarrow> ValueObjectValue \<Rightarrow> byte list" where
  "ValueObject32_doSend isWrite v =
     (let u = bits_of_float (vl_value v);
          b = foldl BufferBuilder_put (BufferBuilder_new 6) [0, apci isWrite, 0, 0, 0, 0];
          b = BufferBuilder_setValue b 5 (ucast (u AND 0x000000FF));
          b = BufferBuilder_setValue b 4 (ucast (drop_bit 8 (u AND 0x0000FF00)));
          b = BufferBuilder_setValue b 3 (ucast (drop_bit 16 (u AND 0x00FF0000)));
          b = BufferBuilder_setValue b 2 (ucast (drop_bit 24 (u AND 0xFF000000)))
      in bb_buffer b)"

definition be32 :: "byte \<Rightarrow> byte \<Rightarrow> byte \<Rightarrow> byte \<Rightarrow> u32" where
  "be32 a b c d = push_bit 24 (ucast a) OR push_bit 16 (ucast b) OR push_bit 8 (ucast c) OR ucast d"

definition ValueObject32_doWrite ::
    "bool \<Rightarrow> buffer \<Rightarrow> nat \<Rightarrow> ValueObjectValue \<Rightarrow> (bool \<times> ValueObjectValue) option" where
  "ValueObject32_doWrite force buf len v =
     (if len < 6 then Some (False, v)
      else case float_of_bits (be32 (buf 2) (buf 3) (buf 4) (buf 5)) of
             None \<Rightarrow> None
           | Some newValue \<Rightarrow>
               let (changed, v') = ValueObjectValue_set_double v newValue in Some (changed \<or> force, v'))"

section \<open>The integer classes\<close>

definition U8ImplObject_doSend :: "bool \<Rightarrow> UIntObjectValue \<Rightarrow> byte list" where
  "U8ImplObject_doSend isWrite v = frame 3 [0, apci isWrite, ucast (ui_value v AND 0xff)]"

definition U8ImplObject_doWrite ::
    "bool \<Rightarrow> buffer \<Rightarrow> nat \<Rightarrow> UIntObjectValue \<Rightarrow> bool \<times> UIntObjectValue" where
  "U8ImplObject_doWrite force buf len v =
     (let newValue = ucast (if len = 2 then buf 1 AND 0x3F else buf 2);
          (changed, v') = UIntObject_setInt v newValue
      in (changed \<or> force, v'))"

text \<open>\<open>if (forceUpdate() || newValue != value_m)\<close>, in the classes that store the number themselves.\<close>

definition store_uint :: "bool \<Rightarrow> u32 \<Rightarrow> UIntObjectValue \<Rightarrow> bool \<times> UIntObjectValue" where
  "store_uint force newValue v =
     (if force \<or> newValue \<noteq> ui_value v then (True, v\<lparr>ui_value := newValue\<rparr>) else (False, v))"

definition store_int :: "bool \<Rightarrow> u32 \<Rightarrow> IntObjectValue \<Rightarrow> bool \<times> IntObjectValue" where
  "store_int force newValue v =
     (if force \<or> newValue \<noteq> si_value v then (True, v\<lparr>si_value := newValue\<rparr>) else (False, v))"

definition store_s64 :: "bool \<Rightarrow> u64 \<Rightarrow> S64ObjectValue \<Rightarrow> bool \<times> S64ObjectValue" where
  "store_s64 force newValue v =
     (if force \<or> newValue \<noteq> sl_value v then (True, v\<lparr>sl_value := newValue\<rparr>) else (False, v))"

definition U16Object_doSend :: "bool \<Rightarrow> UIntObjectValue \<Rightarrow> byte list" where
  "U16Object_doSend isWrite v =
     frame 4 [0, apci isWrite, ucast (drop_bit 8 (ui_value v AND 0xff00)), ucast (ui_value v AND 0xff)]"

definition U16Object_doWrite ::
    "bool \<Rightarrow> buffer \<Rightarrow> nat \<Rightarrow> UIntObjectValue \<Rightarrow> bool \<times> UIntObjectValue" where
  "U16Object_doWrite force buf len v =
     store_uint force (push_bit 8 (ucast (buf 2)) OR ucast (buf 3)) v"

definition U32Object_doSend :: "bool \<Rightarrow> UIntObjectValue \<Rightarrow> byte list" where
  "U32Object_doSend isWrite v =
     frame 6 [0, apci isWrite, ucast (drop_bit 24 (ui_value v AND 0xff000000)),
       ucast (drop_bit 16 (ui_value v AND 0xff0000)), ucast (drop_bit 8 (ui_value v AND 0xff00)),
       ucast (ui_value v AND 0xff)]"

definition U32Object_doWrite ::
    "bool \<Rightarrow> buffer \<Rightarrow> nat \<Rightarrow> UIntObjectValue \<Rightarrow> bool \<times> UIntObjectValue" where
  "U32Object_doWrite force buf len v = store_uint force (be32 (buf 2) (buf 3) (buf 4) (buf 5)) v"

definition RGBObject_doSend :: "bool \<Rightarrow> UIntObjectValue \<Rightarrow> byte list" where
  "RGBObject_doSend isWrite v =
     frame 5 [0, apci isWrite, ucast (drop_bit 16 (ui_value v AND 0xff0000)),
       ucast (drop_bit 8 (ui_value v AND 0xff00)), ucast (ui_value v AND 0xff)]"

definition RGBObject_doWrite ::
    "bool \<Rightarrow> buffer \<Rightarrow> nat \<Rightarrow> UIntObjectValue \<Rightarrow> bool \<times> UIntObjectValue" where
  "RGBObject_doWrite force buf len v =
     store_uint force (push_bit 16 (ucast (buf 2)) OR push_bit 8 (ucast (buf 3)) OR ucast (buf 4)) v"

text \<open>The \<open>int64_t\<close> is masked and shifted as an \<open>int64_t\<close>; the four colour bytes are its low 32 bits.\<close>

definition RGBWObject_doSend :: "bool \<Rightarrow> S64ObjectValue \<Rightarrow> byte list" where
  "RGBWObject_doSend isWrite v =
     frame 8 [0, apci isWrite, ucast (drop_bit 24 (sl_value v AND 0xff000000)),
       ucast (drop_bit 16 (sl_value v AND 0xff0000)), ucast (drop_bit 8 (sl_value v AND 0xff00)),
       ucast (sl_value v AND 0xff), 0x00, 0x0f]"

text \<open>The received number is an \<open>unsigned int\<close>, widened without a sign.\<close>

definition RGBWObject_doWrite ::
    "bool \<Rightarrow> buffer \<Rightarrow> nat \<Rightarrow> S64ObjectValue \<Rightarrow> bool \<times> S64ObjectValue" where
  "RGBWObject_doWrite force buf len v = store_s64 force (ucast (be32 (buf 2) (buf 3) (buf 4) (buf 5))) v"

definition S8Object_doSend :: "bool \<Rightarrow> IntObjectValue \<Rightarrow> byte list" where
  "S8Object_doSend isWrite v = frame 3 [0, apci isWrite, ucast (si_value v AND 0xff)]"

definition S8Object_doWrite ::
    "bool \<Rightarrow> buffer \<Rightarrow> nat \<Rightarrow> IntObjectValue \<Rightarrow> bool \<times> IntObjectValue" where
  "S8Object_doWrite force buf len v =
     (let n = uint (if len = 2 then buf 1 AND 0x3F else buf 2)
      in store_int force (word_of_int (if n > 127 then n - 256 else n)) v)"

definition S16Object_doSend :: "bool \<Rightarrow> IntObjectValue \<Rightarrow> byte list" where
  "S16Object_doSend isWrite v =
     frame 4 [0, apci isWrite, ucast (drop_bit 8 (si_value v AND 0xff00)), ucast (si_value v AND 0xff)]"

definition S16Object_doWrite ::
    "bool \<Rightarrow> buffer \<Rightarrow> nat \<Rightarrow> IntObjectValue \<Rightarrow> bool \<times> IntObjectValue" where
  "S16Object_doWrite force buf len v =
     (let n = uint (push_bit 8 (ucast (buf 2)) OR ucast (buf 3) :: u32)
      in store_int force (word_of_int (if n > 32767 then n - 65536 else n)) v)"

definition S32Object_doSend :: "bool \<Rightarrow> IntObjectValue \<Rightarrow> byte list" where
  "S32Object_doSend isWrite v =
     frame 6 [0, apci isWrite, ucast (drop_bit 24 (si_value v AND 0xff000000)),
       ucast (drop_bit 16 (si_value v AND 0xff0000)), ucast (drop_bit 8 (si_value v AND 0xff00)),
       ucast (si_value v AND 0xff)]"

definition S32Object_doWrite ::
    "bool \<Rightarrow> buffer \<Rightarrow> nat \<Rightarrow> IntObjectValue \<Rightarrow> bool \<times> IntObjectValue" where
  "S32Object_doWrite force buf len v = store_int force (be32 (buf 2) (buf 3) (buf 4) (buf 5)) v"

definition S64Object_doSend :: "bool \<Rightarrow> S64ObjectValue \<Rightarrow> byte list" where
  "S64Object_doSend isWrite v =
     (let w = sl_value v in
      frame 10 [0, apci isWrite, ucast (drop_bit 56 (w AND 0xff00000000000000)),
        ucast (drop_bit 48 (w AND 0xff000000000000)), ucast (drop_bit 40 (w AND 0xff0000000000)),
        ucast (drop_bit 32 (w AND 0xff00000000)), ucast (drop_bit 24 (w AND 0xff000000)),
        ucast (drop_bit 16 (w AND 0xff0000)), ucast (drop_bit 8 (w AND 0xff00)), ucast (w AND 0xff)])"

text \<open>
  The high four bytes are cast to \<open>int64_t\<close> before they are shifted; the low four are shifted as \<open>int\<close>
  and then widened with their sign, each operand of the \<open>|\<close> on its own.
\<close>

definition S64Object_decode :: "buffer \<Rightarrow> u64" where
  "S64Object_decode buf =
     push_bit 56 (ucast (buf 2)) OR push_bit 48 (ucast (buf 3)) OR push_bit 40 (ucast (buf 4))
     OR push_bit 32 (ucast (buf 5)) OR scast (push_bit 24 (ucast (buf 6)) :: u32)
     OR scast (push_bit 16 (ucast (buf 7)) :: u32) OR scast (push_bit 8 (ucast (buf 8)) :: u32)
     OR ucast (buf 9)"

definition S64Object_doWrite ::
    "bool \<Rightarrow> buffer \<Rightarrow> nat \<Rightarrow> S64ObjectValue \<Rightarrow> bool \<times> S64ObjectValue" where
  "S64Object_doWrite force buf len v = store_s64 force (S64Object_decode buf) v"

section \<open>Text\<close>

definition byte_of :: "char \<Rightarrow> byte" where
  "byte_of c = of_nat (of_char c)"

definition char_of_byte :: "byte \<Rightarrow> char" where
  "char_of_byte b = char_of (unat b)"

text \<open>\<open>for (j = 2; j < len && buf[j] != 0; j++) value.push_back (buf[j])\<close>\<close>

definition text_of_frame :: "buffer \<Rightarrow> nat \<Rightarrow> string" where
  "text_of_frame buf len = map char_of_byte (takeWhile (\<lambda>b. b \<noteq> 0) (map buf [2 ..< len]))"

text \<open>The buffer has one byte more than the text, which receives the terminating 0.\<close>

definition StringObject_doSend :: "bool \<Rightarrow> StringObjectValue \<Rightarrow> byte list" where
  "StringObject_doSend isWrite v = [0, apci isWrite] @ map byte_of (st_value v) @ [0]"

definition StringObject_doWrite ::
    "bool \<Rightarrow> buffer \<Rightarrow> nat \<Rightarrow> StringObjectValue \<Rightarrow> bool \<times> StringObjectValue" where
  "StringObject_doWrite force buf len v =
     (if len < 2 then (False, v)
      else let (changed, v') = StringObjectValue_set v
                 (Some \<lparr>st_class = String28, st_value = text_of_frame buf len\<rparr>)
           in (changed \<or> force, v'))"

text \<open>
  The 16 byte array on the stack; a longer text would be written past its end, which the model
  answers with the branch \<open>Out_of_bounds\<close>.
\<close>

definition string14_frame :: "bool \<Rightarrow> string \<Rightarrow> byte list result" where
  "string14_frame isWrite s =
     (if length s > 14 then Inl Out_of_bounds
      else Inr ([0, apci isWrite] @ map byte_of s @ replicate (14 - length s) 0))"

definition String14Object_doSend :: "env \<Rightarrow> bool \<Rightarrow> StringObjectValue \<Rightarrow> byte list result" where
  "String14Object_doSend env isWrite v =
     string14_frame isWrite (transcode (iconv_to_latin1 env) (st_value v))"

definition String14Object_doWrite ::
    "env \<Rightarrow> bool \<Rightarrow> buffer \<Rightarrow> nat \<Rightarrow> StringObjectValue \<Rightarrow> (bool \<times> StringObjectValue) result" where
  "String14Object_doWrite env force buf len v =
     (if len < 2 then Inr (False, v)
      else case String14ObjectValue_init env (transcode (iconv_to_utf8 env) (text_of_frame buf len)) of
             Inl e \<Rightarrow> Inl e
           | Inr val \<Rightarrow> let (changed, v') = StringObjectValue_set v (Some val) in Inr (changed \<or> force, v'))"

definition String14AsciiObject_doSend :: "bool \<Rightarrow> StringObjectValue \<Rightarrow> byte list result" where
  "String14AsciiObject_doSend isWrite v = string14_frame isWrite (st_value v)"

definition String14AsciiObject_doWrite ::
    "bool \<Rightarrow> buffer \<Rightarrow> nat \<Rightarrow> StringObjectValue \<Rightarrow> (bool \<times> StringObjectValue) result" where
  "String14AsciiObject_doWrite force buf len v =
     (if len < 2 then Inr (False, v)
      else case String14AsciiObjectValue_init (text_of_frame buf len) of
             Inl e \<Rightarrow> Inl e
           | Inr val \<Rightarrow> let (changed, v') = StringObjectValue_set v (Some val) in Inr (changed \<or> force, v'))"

section \<open>Dispatch\<close>

definition uint_doSend :: "bool \<Rightarrow> UIntObjectValue \<Rightarrow> byte list" where
  "uint_doSend isWrite v =
     (case ui_class v of
        U16 \<Rightarrow> U16Object_doSend isWrite v
      | U32 \<Rightarrow> U32Object_doSend isWrite v
      | RGB \<Rightarrow> RGBObject_doSend isWrite v
      | _ \<Rightarrow> U8ImplObject_doSend isWrite v)"

definition uint_doWrite ::
    "bool \<Rightarrow> buffer \<Rightarrow> nat \<Rightarrow> UIntObjectValue \<Rightarrow> bool \<times> UIntObjectValue" where
  "uint_doWrite force buf len v =
     (case ui_class v of
        U16 \<Rightarrow> U16Object_doWrite force buf len v
      | U32 \<Rightarrow> U32Object_doWrite force buf len v
      | RGB \<Rightarrow> RGBObject_doWrite force buf len v
      | _ \<Rightarrow> U8ImplObject_doWrite force buf len v)"

definition int_doSend :: "bool \<Rightarrow> IntObjectValue \<Rightarrow> byte list" where
  "int_doSend isWrite v =
     (case si_class v of
        S8 \<Rightarrow> S8Object_doSend isWrite v
      | S16 \<Rightarrow> S16Object_doSend isWrite v
      | S32 \<Rightarrow> S32Object_doSend isWrite v)"

definition int_doWrite :: "bool \<Rightarrow> buffer \<Rightarrow> nat \<Rightarrow> IntObjectValue \<Rightarrow> bool \<times> IntObjectValue" where
  "int_doWrite force buf len v =
     (case si_class v of
        S8 \<Rightarrow> S8Object_doWrite force buf len v
      | S16 \<Rightarrow> S16Object_doWrite force buf len v
      | S32 \<Rightarrow> S32Object_doWrite force buf len v)"

fun ov_doSend :: "env \<Rightarrow> bool \<Rightarrow> ObjectValue \<Rightarrow> byte list result" where
  "ov_doSend env isWrite (Switching v) = Inr (SwitchingObject_doSend isWrite v)"
| "ov_doSend env isWrite (SwitchingControl v) = Inr (SwitchingControlObject_doSend isWrite v)"
| "ov_doSend env isWrite (StepDir v) = Inr (StepDirObject_doSend isWrite v)"
| "ov_doSend env isWrite (TimeOfDay v) = Inr (TimeObject_doSend isWrite v)"
| "ov_doSend env isWrite (CalDate v) = Inr (DateObject_doSend isWrite v)"
| "ov_doSend env isWrite (FloatValue v) =
     Inr (case vl_class v of Dpt9 _ \<Rightarrow> ValueObject_doSend isWrite v | Dpt14 \<Rightarrow> ValueObject32_doSend isWrite v)"
| "ov_doSend env isWrite (UIntValue v) = Inr (uint_doSend isWrite v)"
| "ov_doSend env isWrite (IntValue v) = Inr (int_doSend isWrite v)"
| "ov_doSend env isWrite (S64Value v) =
     Inr (case sl_class v of S64 \<Rightarrow> S64Object_doSend isWrite v | RGBW \<Rightarrow> RGBWObject_doSend isWrite v)"
| "ov_doSend env isWrite (StringValue v) =
     (case st_class v of
        String28 \<Rightarrow> Inr (StringObject_doSend isWrite v)
      | String14 \<Rightarrow> String14Object_doSend env isWrite v
      | String14Ascii \<Rightarrow> String14AsciiObject_doSend isWrite v)"

fun ov_doWrite ::
    "env \<Rightarrow> bool \<Rightarrow> buffer \<Rightarrow> nat \<Rightarrow> ObjectValue \<Rightarrow> (bool \<times> ObjectValue) result" where
  "ov_doWrite env force buf len (Switching v) =
     Inr (map_prod id Switching (SwitchingObject_doWrite force buf len v))"
| "ov_doWrite env force buf len (SwitchingControl v) =
     Inr (map_prod id SwitchingControl (SwitchingControlObject_doWrite force buf len v))"
| "ov_doWrite env force buf len (StepDir v) =
     Inr (map_prod id StepDir (StepDirObject_doWrite force buf len v))"
| "ov_doWrite env force buf len (TimeOfDay v) =
     Inr (map_prod id TimeOfDay (TimeObject_doWrite force buf len v))"
| "ov_doWrite env force buf len (CalDate v) =
     Inr (map_prod id CalDate (DateObject_doWrite force buf len v))"
| "ov_doWrite env force buf len (FloatValue v) =
     (case vl_class v of
        Dpt9 _ \<Rightarrow> Inr (map_prod id FloatValue (ValueObject_doWrite force buf len v))
      | Dpt14 \<Rightarrow> (case ValueObject32_doWrite force buf len v of
                   None \<Rightarrow> Inl Not_finite
                 | Some r \<Rightarrow> Inr (map_prod id FloatValue r)))"
| "ov_doWrite env force buf len (UIntValue v) =
     Inr (map_prod id UIntValue (uint_doWrite force buf len v))"
| "ov_doWrite env force buf len (IntValue v) =
     Inr (map_prod id IntValue (int_doWrite force buf len v))"
| "ov_doWrite env force buf len (S64Value v) =
     Inr (map_prod id S64Value (case sl_class v of
            S64 \<Rightarrow> S64Object_doWrite force buf len v | RGBW \<Rightarrow> RGBWObject_doWrite force buf len v))"
| "ov_doWrite env force buf len (StringValue v) =
     (case (case st_class v of
              String28 \<Rightarrow> Inr (StringObject_doWrite force buf len v)
            | String14 \<Rightarrow> String14Object_doWrite env force buf len v
            | String14Ascii \<Rightarrow> String14AsciiObject_doWrite force buf len v) of
        Inl e \<Rightarrow> Inl e | Inr r \<Rightarrow> Inr (map_prod id StringValue r))"

section \<open>Bytes of words\<close>

lemma frame_filled: "length bs = n \<Longrightarrow> frame n bs = bs"
proof -
  have "bb_buffer (foldl BufferBuilder_put \<lparr>bb_buffer = xs @ ys, bb_index = length xs\<rparr> bs) = xs @ bs"
    if "length ys = length bs" for xs ys
    using that
  proof (induction bs arbitrary: xs ys)
    case (Cons b bs)
    then obtain y ys' where ys: "ys = y # ys'" "length ys' = length bs" by (cases ys) auto
    then show ?case using Cons.IH [of ys' "xs @ [b]"]
      by (simp add: BufferBuilder_put_def BufferBuilder_setValue_def)
  qed simp
  from this [of "replicate n 0" "[]"] show "length bs = n \<Longrightarrow> frame n bs = bs"
    by (simp add: frame_def BufferBuilder_new_def)
qed

lemma byte_masks [codec_simps]:
  fixes w :: "'a :: len word"
  shows "w AND 0xff = w AND mask 8" "w AND 0xff00 = w AND push_bit 8 (mask 8)"
    "w AND 0xff0000 = w AND push_bit 16 (mask 8)" "w AND 0xff000000 = w AND push_bit 24 (mask 8)"
    "w AND 0xff00000000 = w AND push_bit 32 (mask 8)"
    "w AND 0xff0000000000 = w AND push_bit 40 (mask 8)"
    "w AND 0xff000000000000 = w AND push_bit 48 (mask 8)"
    "w AND 0xff00000000000000 = w AND push_bit 56 (mask 8)"
  by (simp_all add: mask_eq_exp_minus_1 push_bit_eq_mult)

lemma byte_at_mask [codec_simps]:
  fixes w :: "'a :: len word"
  assumes "k + 8 \<le> LENGTH('a)"
  shows "(ucast (drop_bit k w AND drop_bit k (push_bit k (mask 8))) :: byte) = ucast (drop_bit k w)"
  by (rule bit_word_eqI) (use assms in \<open>auto simp: bit_simps\<close>)

lemma byte_low_mask [codec_simps]: "(ucast (w AND mask 8 :: 'a :: len word) :: byte) = ucast w"
  by (rule bit_word_eqI) (auto simp: bit_simps dest: bit_imp_le_length)

lemma be32_bytes:
  "be32 (ucast (drop_bit 24 w)) (ucast (drop_bit 16 w)) (ucast (drop_bit 8 w)) (ucast w) = w"
proof (rule bit_word_eqI)
  fix n :: nat
  consider "n < 8" | "8 \<le> n" "n < 16" | "16 \<le> n" "n < 24" | "24 \<le> n" by linarith
  then show "bit (be32 (ucast (drop_bit 24 w)) (ucast (drop_bit 16 w)) (ucast (drop_bit 8 w)) (ucast w)) n = bit w n"
    if "n < LENGTH(32)" using that by cases (auto simp: bit_simps be32_def)
qed

lemma be16_bytes:
  "push_bit 8 (ucast (ucast (drop_bit 8 (w :: u32)) :: byte)) OR ucast (ucast w :: byte) = take_bit 16 w"
  by (rule bit_word_eqI) (auto simp: bit_simps)

lemma be24_bytes:
  "push_bit 16 (ucast (ucast (drop_bit 16 (w :: u32)) :: byte)) OR take_bit 16 w = take_bit 24 w"
  by (rule bit_word_eqI) (auto simp: bit_simps)

lemma take_bit_u32 [simp]: "uint (w :: u32) < 2 ^ n \<Longrightarrow> take_bit n w = w"
  by (simp add: word_uint_eq_iff unsigned_take_bit_eq take_bit_int_eq_self)

text \<open>What the 64 bit decoder makes of the eight bytes of a number: bit 31 spreads upwards.\<close>

lemma S64Object_decode_bit:
  assumes "buf 2 = ucast (drop_bit 56 w)" "buf 3 = ucast (drop_bit 48 w)" "buf 4 = ucast (drop_bit 40 w)"
    "buf 5 = ucast (drop_bit 32 w)" "buf 6 = ucast (drop_bit 24 w)" "buf 7 = ucast (drop_bit 16 w)"
    "buf 8 = ucast (drop_bit 8 w)" "buf 9 = ucast w" and n: "n < 64"
  shows "bit (S64Object_decode buf) n = (bit w n \<or> (32 \<le> n \<and> bit w 31))"
proof -
  define k where "k = n mod 8"
  have nk: "n = 8 * (n div 8) + k" "k < 8" by (simp_all add: k_def)
  then have k: "k < 7 \<or> k = 7" by linarith
  have "n div 8 < 8" using n by simp
  then consider "n div 8 = 0" | "n div 8 = 1" | "n div 8 = 2" | "n div 8 = 3" | "n div 8 = 4"
    | "n div 8 = 5" | "n div 8 = 6" | "n div 8 = 7" by linarith
  then consider "n = k" | "n = 8 + k" | "n = 16 + k" | "n = 24 + k" "k < 7" | "n = 31" | "n = 32 + k"
    | "n = 40 + k" | "n = 48 + k" | "n = 56 + k"
    using nk(1) k by cases (simp, simp, simp, fastforce, simp_all)
  then show ?thesis using nk(2)
    by cases (auto simp: S64Object_decode_def assms bit_simps min_def)
qed

end
