(* ===== verification/Telegram_Codec.thy ===== *)
theory Telegram_Codec
  imports Codecs
begin

text \<open>
  The contract between \<open>doSend\<close> and \<open>doWrite\<close> of src/objectcontroller.cpp: a telegram that an object sends,
  received by an object of the same class, puts that object into the state of the sender.  The
  locale states it for any pair of functions; the interpretation discharges it for the classes of
  the program, with the values for which it holds.
\<close>

locale telegram_codec =
  fixes fits :: "'v \<Rightarrow> bool"
    and same :: "'v \<Rightarrow> 'v \<Rightarrow> bool"
    and encode :: "bool \<Rightarrow> 'v \<Rightarrow> byte list result"
    and decode :: "bool \<Rightarrow> buffer \<Rightarrow> nat \<Rightarrow> 'v \<Rightarrow> (bool \<times> 'v) result"
  assumes same_refl: "same v v"
    and encode_frame: "fits v \<Longrightarrow> \<exists>bs. encode w v = Inr bs \<and> 2 \<le> length bs \<and> bs ! 0 = 0
      \<and> bs ! 1 AND 0xC0 = (if w then 0x80 else 0x40)"
    and decode_encode: "fits v \<Longrightarrow> same a v \<Longrightarrow> encode w v = Inr bs
      \<Longrightarrow> decode force (buf_of bs) (length bs) a = Inr (force \<or> a \<noteq> v, v)"
begin

text \<open>An object that receives its own telegram is not changed.\<close>

lemma echo: "fits v \<Longrightarrow> encode w v = Inr bs \<Longrightarrow> decode force (buf_of bs) (length bs) v = Inr (force, v)"
  using decode_encode [of v v w bs force] same_refl by simp

text \<open>Two values of one class with the same telegram are equal.\<close>

lemma encode_inj:
  assumes "fits v" and "fits u" and "same u v" and "encode w v = Inr bs" and "encode w' u = Inr bs"
  shows "u = v"
proof -
  have "decode False (buf_of bs) (length bs) u = Inr (u \<noteq> v, v)"
    using decode_encode [OF assms(1) assms(3) assms(4)] by simp
  moreover have "decode False (buf_of bs) (length bs) u = Inr (False, u)"
    using echo [OF assms(2) assms(5)] by simp
  ultimately show ?thesis by simp
qed

end

section \<open>The switches and steps\<close>

lemma apci_and [simp]:
  "apci w AND 0xC0 = (if w then 0x80 else 0x40)" "(apci w OR 1) AND 0xC0 = (if w then 0x80 else 0x40)"
  by (simp_all add: apci_def)

lemma switching_echo:
  assumes "sw_eis a = sw_eis v"
  shows "SwitchingObject_doWrite force (buf_of (SwitchingObject_doSend w v)) 2 a = (force \<or> a \<noteq> v, v)"
  using assms
  by (cases a; cases v; cases w)
    (auto simp: SwitchingObject_doWrite_def SwitchingObject_doSend_def apci_def
      SwitchingObjectValue_set_bool_def Let_def)

lemma control_echo:
  assumes "sc_eis a = sc_eis v" and "sc_control v" and "sc_value v"
  shows "SwitchingControlObject_doWrite force (buf_of (SwitchingControlObject_doSend w v)) 2 a = (force \<or> a \<noteq> v, v)"
  using assms
  by (cases a; cases v; cases w)
    (auto simp: SwitchingControlObject_doWrite_def SwitchingControlObject_doSend_def apci_def frame_filled
      SwitchingControlObjectValue_set_double_def SwitchingControlObjectValue_set_bools_def Let_def)

lemma stepdir_echo:
  assumes "sd_class a = sd_class v" and "stepdir_valid v"
  shows "StepDirObject_doWrite force (buf_of (StepDirObject_doSend w v)) 2 a = (force \<or> a \<noteq> v, v)"
proof -
  obtain c d s where v: "v = \<lparr>sd_class = c, direction_m = d, stepcode_m = s\<rparr>" by (cases v)
  have "d \<in> {0, 1}" and "s \<in> {0, 1, 2, 3, 4, 5, 6, 7}" and "s = 0 \<longrightarrow> d = 0"
    using assms(2) by (auto simp: stepdir_valid_def v)
  then have "StepDirObject_doWrite force (buf_of (StepDirObject_doSend w v)) 2 a
      = (case StepDirObjectValue_assign a d s of (ch, v') \<Rightarrow> (ch \<or> force, v'))"
    by (elim insertE emptyE; cases w)
      (simp_all add: v StepDirObject_doWrite_def StepDirObject_doSend_def apci_def Let_def)
  then show ?thesis using assms(1)
    by (cases a) (auto simp: v StepDirObjectValue_assign_def)
qed

section \<open>Times and dates\<close>

definition time_frame_fits :: "TimeObjectValue \<Rightarrow> bool" where
  "time_frame_fits v \<longleftrightarrow> wday_m v \<in> {0..7} \<and> hour_m v \<in> {0..31} \<and> min_m v \<in> {0..255} \<and> sec_m v \<in> {0..255}"

definition date_frame_fits :: "DateObjectValue \<Rightarrow> bool" where
  "date_frame_fits v \<longleftrightarrow> day_m v \<in> {0..255} \<and> month_m v \<in> {0..255} \<and> year_m v \<in> {90..255}"

lemma uint_byte: "0 \<le> n \<Longrightarrow> n < 256 \<Longrightarrow> uint (word_of_int n :: byte) = n"
  by (simp add: uint_word_of_int)

lemma and_masks_time:
  fixes n :: int
  shows "n AND 0xE0 = 32 * (n div 32 mod 8)" "n AND 0x1F = n mod 32"
proof -
  show "n AND 0xE0 = 32 * (n div 32 mod 8)" using and_field_mod [of n 3 5] by simp
  show "n AND 0x1F = n mod 32" using and_field_mod [of n 5 0] by simp
qed

lemma time_byte:
  assumes "wd \<in> {0..7}" and "h \<in> {0..31}"
  defines "b \<equiv> word_of_int ((push_bit 5 wd AND 0xE0) OR (h AND 0x1F)) :: byte"
  shows "uint (drop_bit 5 (b AND 0xE0)) = wd" "uint (b AND 0x1F) = h"
proof -
  have h: "h mod 32 = h" and wd: "wd mod 8 = wd" using assms by auto
  have "(push_bit 5 wd AND 0xE0) OR (h AND 0x1F) = h OR push_bit 5 wd"
    using h wd by (simp add: and_masks_time push_bit_eq_mult or.commute mult.commute)
  also have "\<dots> = h + 32 * wd" using or_disjoint [of h 5 wd] assms by simp
  finally have "b = word_of_int (h + 32 * wd)" unfolding b_def by (rule arg_cong)
  moreover have "uint (word_of_int (h + 32 * wd) :: byte) = h + 32 * wd"
    using assms(1,2) by (intro uint_byte) auto
  ultimately have b: "uint b = h + 32 * wd" by (simp only:)
  have "uint (drop_bit 5 (b AND 0xE0)) = uint (b AND 0xE0) div 32"
    by (simp add: drop_bit_eq_div uint_div)
  also have "uint (b AND 0xE0) = uint b AND 0xE0" by (simp add: uint_and)
  also have "(uint b AND 0xE0) div 32 = wd" unfolding b and_masks_time using assms(1,2) by simp
  finally show "uint (drop_bit 5 (b AND 0xE0)) = wd" .
  have "uint (b AND 0x1F) = uint b AND 0x1F" by (simp add: uint_and)
  also have "\<dots> = h" unfolding b and_masks_time using assms(1,2) by simp
  finally show "uint (b AND 0x1F) = h" .
qed

lemma time_echo:
  assumes "time_frame_fits v"
  shows "TimeObject_doWrite force (buf_of (TimeObject_doSend w v)) 5 a = (force \<or> a \<noteq> v, v)"
  using assms time_byte [of "wday_m v" "hour_m v"]
  by (cases a; cases v)
    (auto simp: TimeObject_doWrite_def TimeObject_doSend_def time_frame_fits_def uint_byte Let_def)

lemma date_echo:
  assumes "date_frame_fits v"
  shows "DateObject_doWrite force (buf_of (DateObject_doSend w v)) 5 a = (force \<or> a \<noteq> v, v)"
  using assms
  by (cases a; cases v)
    (auto simp: DateObject_doWrite_def DateObject_doSend_def date_frame_fits_def frame_filled uint_byte Let_def)

section \<open>Floating point numbers\<close>

definition float_frame_fits :: "ValueObjectValue \<Rightarrow> bool" where
  "float_frame_fits v \<longleftrightarrow> vl_class v \<noteq> Dpt14 \<and> precision_m v = 0
     \<and> (\<exists>n. knx_hundredths n \<and> vl_value v = fl_double (of_int n / 100))"

lemma new_4: "BufferBuilder_new 4 = \<lparr>bb_buffer = [0, 0, 0, 0], bb_index = 0\<rparr>"
  by (simp add: BufferBuilder_new_def numeral_eq_Suc)

lemma value_send_bytes:
  assumes "knx_hundredths n" and "vl_value v = fl_double (of_int n / 100)" and "knx_normalise n = (m, ex)"
  shows "ValueObject_doSend w v = [0, apci w, word_of_int (dpt9_high m ex (m < 0)), word_of_int (m mod 256)]"
  using knx_normalise_fits(5) [OF assms(1,3)] assms
  by (simp add: ValueObject_doSend_def rne_knx_hundredths dpt9_high_def Let_def new_4
      BufferBuilder_put_def BufferBuilder_setValue_def and_masks numeral_2_eq_2 numeral_3_eq_3)

lemma value_decode:
  assumes "knx_hundredths n" and "knx_normalise n = (m, ex)"
  shows "ValueObject_decode (word_of_int (dpt9_high m ex (m < 0))) (word_of_int (m mod 256))
    = fl_double (of_int n / 100)"
proof -
  note f = knx_normalise_fits [OF assms]
  define d where "d = dpt9_high m ex (m < 0) * 256 + m mod 256"
  have e: "uint (word_of_int (dpt9_high m ex (m < 0)) :: byte) * 256 + uint (word_of_int (m mod 256) :: byte) = d"
    using dpt9_high_byte [OF f(3)] by (simp add: uint_byte d_def)
  have "(if d AND 0x8000 \<noteq> 0 then (d AND 0x7ff) OR NOT 0x7ff else d AND 0x7ff) = m"
    and "nat (drop_bit 11 (d AND 0x7800)) = ex"
    unfolding d_def using dpt9_fields [OF f(1,2,3) refl] by simp_all
  moreover have "fl_double (of_int m * 2 ^ ex) = of_int n"
    using fl_int [of n 53] knx_hundredths_bound [OF assms(1)] f(4) by auto
  ultimately show ?thesis
    unfolding ValueObject_decode_def Let_def e by simp
qed

lemma value_echo:
  assumes "float_frame_fits v" and "vl_class a = vl_class v" and "precision_m a = 0"
  shows "ValueObject_doWrite force (buf_of (ValueObject_doSend w v)) 4 a = (force \<or> a \<noteq> v, v)"
proof -
  obtain n where n: "knx_hundredths n" "vl_value v = fl_double (of_int n / 100)"
    using assms(1) by (auto simp: float_frame_fits_def)
  obtain m ex where m: "knx_normalise n = (m, ex)" by (cases "knx_normalise n")
  have "ValueObject_decode (buf_of (ValueObject_doSend w v) 2) (buf_of (ValueObject_doSend w v) 3) = vl_value v"
    using value_decode [OF n(1) m] by (simp add: value_send_bytes [OF n m] n(2))
  moreover have "round_value (vl_class a) (vl_value v) = vl_value v"
    using assms(1,2) n roundToKnxPrecision_fixed [OF n(1)]
    by (auto simp: round_value_def float_frame_fits_def split: value_class.splits)
  ultimately show ?thesis using assms
    by (cases a; cases v) (auto simp: ValueObject_doWrite_def ValueObjectValue_set_double_def
        float_frame_fits_def Let_def)
qed

section \<open>Integers\<close>

definition uint_frame_fits :: "UIntObjectValue \<Rightarrow> bool" where
  "uint_frame_fits v \<longleftrightarrow>
     uint (ui_value v) < (case ui_class v of U16 \<Rightarrow> 2 ^ 16 | U32 \<Rightarrow> 2 ^ 32 | RGB \<Rightarrow> 2 ^ 24 | _ \<Rightarrow> 2 ^ 8)"

definition int_frame_fits :: "IntObjectValue \<Rightarrow> bool" where
  "int_frame_fits v \<longleftrightarrow>
     (case si_class v of
        S8 \<Rightarrow> - 128 \<le> sint (si_value v) \<and> sint (si_value v) \<le> 127
      | S16 \<Rightarrow> - 32768 \<le> sint (si_value v) \<and> sint (si_value v) \<le> 32767
      | S32 \<Rightarrow> True)"

text \<open>Bit 31 of a 64 bit number is copied to all higher bits.\<close>

definition s64_frame_fits :: "S64ObjectValue \<Rightarrow> bool" where
  "s64_frame_fits v \<longleftrightarrow>
     (case sl_class v of
        S64 \<Rightarrow> (bit (sl_value v) 31 \<longrightarrow> (\<forall>n \<in> {32..<64}. bit (sl_value v) n))
      | RGBW \<Rightarrow> uint (sl_value v) < 2 ^ 32)"

lemma ucast_byte: "uint (w :: u32) < 256 \<Longrightarrow> ucast (ucast w :: byte) = w"
proof -
  assume "uint w < 256"
  then have "take_bit 8 w = w" by simp
  moreover have "ucast (ucast w :: byte) = take_bit 8 w" by (rule bit_word_eqI) (auto simp: bit_simps)
  ultimately show ?thesis by simp
qed

lemmas uint_frame_defs =
  uint_doWrite_def uint_doSend_def U8ImplObject_doWrite_def U8ImplObject_doSend_def
  U16Object_doWrite_def U16Object_doSend_def U32Object_doWrite_def U32Object_doSend_def
  RGBObject_doWrite_def RGBObject_doSend_def store_uint_def UIntObject_setInt_def frame_filled

lemma uint_echo:
  assumes "uint_frame_fits v" and "ui_class a = ui_class v"
  shows "uint_doWrite force (buf_of (uint_doSend w v)) (length (uint_doSend w v)) a = (force \<or> a \<noteq> v, v)"
  using assms
  by (cases a; cases v; cases "ui_class v")
    (auto simp: uint_frame_defs uint_frame_fits_def codec_simps be32_bytes be16_bytes be24_bytes ucast_byte)

lemma s8_byte:
  assumes "- 128 \<le> sint (w :: u32)" and "sint w \<le> 127"
  shows "word_of_int (let n = uint (ucast w :: byte) in if n > 127 then n - 256 else n) = w"
proof -
  have "uint (ucast w :: byte) = uint w mod 256"
    by (simp add: unsigned_ucast_eq take_bit_eq_mod)
  also have "\<dots> = sint w mod 256" by (simp add: uint_sint take_bit_eq_mod mod_mod_cancel)
  also have "\<dots> = (if sint w < 0 then sint w + 256 else sint w)"
  proof (cases "sint w < 0")
    case True
    then have "(sint w + 256) mod 256 = sint w + 256" using assms by (intro mod_pos_pos_trivial) auto
    then show ?thesis using True by simp
  qed (use assms in simp)
  finally have "(let n = uint (ucast w :: byte) in if n > 127 then n - 256 else n) = sint w"
    using assms by (auto simp: Let_def)
  then show ?thesis by simp
qed

lemma s16_bytes:
  assumes "- 32768 \<le> sint (w :: u32)" and "sint w \<le> 32767"
  shows "word_of_int (let n = uint (take_bit 16 w) in if n > 32767 then n - 65536 else n) = w"
proof -
  have "uint (take_bit 16 w) = take_bit 16 (uint w)" by (rule unsigned_take_bit_eq)
  also have "\<dots> = sint w mod 65536" by (simp add: uint_sint take_bit_eq_mod mod_mod_cancel)
  also have "\<dots> = (if sint w < 0 then sint w + 65536 else sint w)"
  proof (cases "sint w < 0")
    case True
    then have "(sint w + 65536) mod 65536 = sint w + 65536" using assms by (intro mod_pos_pos_trivial) auto
    then show ?thesis using True by simp
  qed (use assms in simp)
  finally have "(let n = uint (take_bit 16 w) in if n > 32767 then n - 65536 else n) = sint w"
    using assms by (auto simp: Let_def)
  then show ?thesis by simp
qed

lemmas int_frame_defs =
  int_doWrite_def int_doSend_def S8Object_doWrite_def S8Object_doSend_def S16Object_doWrite_def
  S16Object_doSend_def S32Object_doWrite_def S32Object_doSend_def store_int_def frame_filled

lemma int_echo:
  assumes "int_frame_fits v" and "si_class a = si_class v"
  shows "int_doWrite force (buf_of (int_doSend w v)) (length (int_doSend w v)) a = (force \<or> a \<noteq> v, v)"
proof (cases "si_class v")
  case S8
  then show ?thesis using assms s8_byte [of "si_value v"]
    by (cases a; cases v) (auto simp: int_frame_defs int_frame_fits_def codec_simps Let_def)
next
  case S16
  then show ?thesis using assms s16_bytes [of "si_value v"]
    by (cases a; cases v) (auto simp: int_frame_defs int_frame_fits_def codec_simps be16_bytes Let_def)
next
  case S32
  then show ?thesis using assms
    by (cases a; cases v) (auto simp: int_frame_defs codec_simps be32_bytes)
qed

lemma s64_decode:
  "S64Object_decode (buf_of (S64Object_doSend w v)) = sl_value v
     \<longleftrightarrow> (bit (sl_value v) 31 \<longrightarrow> (\<forall>n \<in> {32..<64}. bit (sl_value v) n))"
proof -
  let ?b = "buf_of (S64Object_doSend w v)"
  have "bit (S64Object_decode ?b) n = (bit (sl_value v) n \<or> (32 \<le> n \<and> bit (sl_value v) 31))" if "n < 64" for n
    using that
    by (intro S64Object_decode_bit) (simp_all add: S64Object_doSend_def Let_def frame_filled codec_simps)
  then show ?thesis by (auto simp: bit_eq_iff)
qed

lemma rgbw_bytes:
  "uint (w :: u64) < 2 ^ 32 \<Longrightarrow>
   ucast (be32 (ucast (drop_bit 24 w)) (ucast (drop_bit 16 w)) (ucast (drop_bit 8 w)) (ucast w)) = w"
proof -
  assume "uint w < 2 ^ 32"
  then have w: "ucast (ucast w :: u32) = w"
    by (simp add: word_uint_eq_iff unsigned_ucast_eq unsigned_take_bit_eq take_bit_int_eq_self)
  have d: "ucast (drop_bit k w) = (ucast (drop_bit k (ucast w :: u32)) :: byte)" if "k + 8 \<le> 32" for k
    by (rule bit_word_eqI) (use that in \<open>auto simp: bit_simps\<close>)
  then have "be32 (ucast (drop_bit 24 w)) (ucast (drop_bit 16 w)) (ucast (drop_bit 8 w)) (ucast w)
      = be32 (ucast (drop_bit 24 (ucast w :: u32))) (ucast (drop_bit 16 (ucast w :: u32)))
         (ucast (drop_bit 8 (ucast w :: u32))) (ucast (ucast w :: u32))"
    using d [of 0] by (simp add: d)
  then show ?thesis using w by (simp add: be32_bytes)
qed

section \<open>Text\<close>

lemma unat_byte_of: "unat (byte_of c) = of_char c"
proof -
  have "unat (of_nat n :: byte) = n mod 256" for n by (simp add: unat_of_nat)
  from this [of "of_char c"] show ?thesis by (simp only: byte_of_def of_char_mod_256)
qed

lemma char_of_byte_of [simp]: "char_of_byte (byte_of c) = c"
  by (simp add: char_of_byte_def unat_byte_of)

lemma byte_of_eq_0: "byte_of c = 0 \<longleftrightarrow> c = CHR 0x00"
proof
  assume "byte_of c = 0"
  then have "(of_char c :: nat) = of_char (CHR 0x00)" using unat_byte_of [of c] by simp
  then show "c = CHR 0x00" by (simp only: of_char_eq_iff)
qed (simp add: byte_of_def)

lemma map_buf_of: "map (buf_of bs) [k ..< length bs] = drop k bs"
  by (rule nth_equalityI) auto

lemma text_of_sent:
  assumes "CHR 0x00 \<notin> set s" and "rest = [] \<or> hd rest = 0"
  shows "text_of_frame (buf_of ([a, c] @ map byte_of s @ rest)) (length ([a, c] @ map byte_of s @ rest)) = s"
proof -
  have "takeWhile (\<lambda>b. b \<noteq> 0) (map byte_of s @ rest) = map byte_of s"
    using assms by (intro takeWhile_append_stop) (auto simp: byte_of_eq_0)
  then show ?thesis
    using map_buf_of [of "[a, c] @ map byte_of s @ rest" 2]
    by (simp add: text_of_frame_def comp_def)
qed

definition string_frame_fits :: "env \<Rightarrow> StringObjectValue \<Rightarrow> bool" where
  "string_frame_fits env v \<longleftrightarrow>
     (case st_class v of
        String28 \<Rightarrow> CHR 0x00 \<notin> set (st_value v)
      | String14 \<Rightarrow> (let s = transcode (iconv_to_latin1 env) (st_value v) in
          length s \<le> 14 \<and> CHR 0x00 \<notin> set s \<and> transcode (iconv_to_utf8 env) s = st_value v)
      | String14Ascii \<Rightarrow> length (st_value v) \<le> 14 \<and> CHR 0x00 \<notin> set (st_value v)
          \<and> (\<forall>c \<in> set (st_value v). of_char c \<le> (127 :: nat)))"

lemma string_set_eq:
  "st_class a = st_class v \<Longrightarrow>
   StringObjectValue_set a (Some \<lparr>st_class = c, st_value = st_value v\<rparr>) = (a \<noteq> v, v)"
  by (cases a; cases v) (auto simp: StringObjectValue_set_def)

lemma string28_echo:
  assumes "string_frame_fits env v" and "st_class v = String28" and "st_class a = String28"
  shows "StringObject_doWrite force (buf_of (StringObject_doSend w v)) (length (StringObject_doSend w v)) a
    = (force \<or> a \<noteq> v, v)"
  using assms text_of_sent [of "st_value v" "[0]" 0 "apci w"] string_set_eq [of a v String28]
  by (auto simp: string_frame_fits_def StringObject_doWrite_def StringObject_doSend_def)

lemma string14_sent:
  assumes "length s \<le> 14" and "CHR 0x00 \<notin> set s"
  shows "\<exists>bs. string14_frame w s = Inr bs \<and> length bs = 16 \<and> bs ! 0 = 0 \<and> bs ! 1 = apci w
    \<and> text_of_frame (buf_of bs) 16 = s"
proof -
  let ?bs = "[0, apci w] @ map byte_of s @ replicate (14 - length s) 0"
  have "replicate (14 - length s) (0 :: byte) = [] \<or> hd (replicate (14 - length s) (0 :: byte)) = 0"
    by (cases "14 - length s") auto
  then have "text_of_frame (buf_of ?bs) (length ?bs) = s" using assms(2) by (intro text_of_sent)
  moreover have "length ?bs = 16" using assms(1) by simp
  ultimately have "text_of_frame (buf_of ?bs) 16 = s" by (simp only:)
  with \<open>length ?bs = 16\<close> assms(1) show ?thesis by (simp add: string14_frame_def)
qed

lemma string14_echo:
  assumes "string_frame_fits env v" and "st_class v = String14" and "st_class a = String14"
    and "String14Object_doSend env w v = Inr bs"
  shows "String14Object_doWrite env force (buf_of bs) (length bs) a = Inr (force \<or> a \<noteq> v, v)"
  using assms string14_sent [of "transcode (iconv_to_latin1 env) (st_value v)" w] string_set_eq [of a v String14]
  by (auto simp: string_frame_fits_def String14Object_doWrite_def String14Object_doSend_def
      String14ObjectValue_init_def Let_def)

lemma string14ascii_echo:
  assumes "string_frame_fits env v" and "st_class v = String14Ascii" and "st_class a = String14Ascii"
    and "String14AsciiObject_doSend w v = Inr bs"
  shows "String14AsciiObject_doWrite force (buf_of bs) (length bs) a = Inr (force \<or> a \<noteq> v, v)"
  using assms string14_sent [of "st_value v" w] string_set_eq [of a v String14Ascii]
  by (auto simp: string_frame_fits_def String14AsciiObject_doWrite_def String14AsciiObject_doSend_def
      String14AsciiObjectValue_init_def)

section \<open>The contract, for all classes\<close>

text \<open>
  The values whose telegram carries them: all switches; steps a telegram can name; times, dates of 1990
  to 2155, the numbers of the two byte format, and the integers in the range of their type.  The
  four byte floating point class (14.xxx) is not covered.
\<close>

fun ov_frame_fits :: "env \<Rightarrow> ObjectValue \<Rightarrow> bool" where
  "ov_frame_fits env (Switching v) = True"
| "ov_frame_fits env (SwitchingControl v) = (sc_control v \<and> sc_value v)"
| "ov_frame_fits env (StepDir v) = stepdir_valid v"
| "ov_frame_fits env (TimeOfDay v) = time_frame_fits v"
| "ov_frame_fits env (CalDate v) = date_frame_fits v"
| "ov_frame_fits env (FloatValue v) = float_frame_fits v"
| "ov_frame_fits env (UIntValue v) = uint_frame_fits v"
| "ov_frame_fits env (IntValue v) = int_frame_fits v"
| "ov_frame_fits env (S64Value v) = s64_frame_fits v"
| "ov_frame_fits env (StringValue v) = string_frame_fits env v"

text \<open>The class of a value, with its template parameter; for the floating point classes with the precision.\<close>

datatype value_tag =
    SwTag nat | ScTag nat | SdTag stepdir_class | TmTag | DtTag | FlTag value_class rat
  | UiTag uint_class | SiTag int_class | SlTag s64_class | StTag string_class

fun ov_tag :: "ObjectValue \<Rightarrow> value_tag" where
  "ov_tag (Switching v) = SwTag (sw_eis v)"
| "ov_tag (SwitchingControl v) = ScTag (sc_eis v)"
| "ov_tag (StepDir v) = SdTag (sd_class v)"
| "ov_tag (TimeOfDay v) = TmTag"
| "ov_tag (CalDate v) = DtTag"
| "ov_tag (FloatValue v) = FlTag (vl_class v) (precision_m v)"
| "ov_tag (UIntValue v) = UiTag (ui_class v)"
| "ov_tag (IntValue v) = SiTag (si_class v)"
| "ov_tag (S64Value v) = SlTag (sl_class v)"
| "ov_tag (StringValue v) = StTag (st_class v)"

lemma ov_tag_cases:
  assumes "ov_tag a = ov_tag v"
  obtains x y where "a = Switching x" "v = Switching y" "sw_eis x = sw_eis y"
    | x y where "a = SwitchingControl x" "v = SwitchingControl y" "sc_eis x = sc_eis y"
    | x y where "a = StepDir x" "v = StepDir y" "sd_class x = sd_class y"
    | x y where "a = TimeOfDay x" "v = TimeOfDay y"
    | x y where "a = CalDate x" "v = CalDate y"
    | x y where "a = FloatValue x" "v = FloatValue y" "vl_class x = vl_class y" "precision_m x = precision_m y"
    | x y where "a = UIntValue x" "v = UIntValue y" "ui_class x = ui_class y"
    | x y where "a = IntValue x" "v = IntValue y" "si_class x = si_class y"
    | x y where "a = S64Value x" "v = S64Value y" "sl_class x = sl_class y"
    | x y where "a = StringValue x" "v = StringValue y" "st_class x = st_class y"
  using assms by (cases a; cases v; simp)

lemma s64_echo:
  assumes "s64_frame_fits v" and "sl_class a = sl_class v" and "ov_doSend env w (S64Value v) = Inr bs"
  shows "ov_doWrite env force (buf_of bs) (length bs) (S64Value a) = Inr (force \<or> a \<noteq> v, S64Value v)"
proof (cases "sl_class v")
  case S64
  then have "S64Object_decode (buf_of bs) = sl_value v"
    using assms s64_decode [of w v] by (auto simp: s64_frame_fits_def)
  then show ?thesis using assms(2) S64
    by (cases a; cases v) (auto simp: S64Object_doWrite_def store_s64_def)
next
  case RGBW
  then show ?thesis using assms rgbw_bytes [of "sl_value v"]
    by (cases a; cases v)
      (auto simp: RGBWObject_doWrite_def RGBWObject_doSend_def store_s64_def frame_filled codec_simps
        s64_frame_fits_def)
qed

lemma string_echo:
  assumes "string_frame_fits env v" and "st_class a = st_class v" and "ov_doSend env w (StringValue v) = Inr bs"
  shows "ov_doWrite env force (buf_of bs) (length bs) (StringValue a) = Inr (force \<or> a \<noteq> v, StringValue v)"
  using assms string28_echo [of env v a force w] string14_echo [of env v a w bs force]
    string14ascii_echo [of env v a w bs force]
  by (cases "st_class v") auto

lemma send_lengths [simp]:
  "length (SwitchingObject_doSend w v1) = 2" "length (SwitchingControlObject_doSend w v2) = 2"
  "length (StepDirObject_doSend w v3) = 2" "length (TimeObject_doSend w v4) = 5"
  "length (DateObject_doSend w v5) = 5"
  by (simp_all add: SwitchingObject_doSend_def SwitchingControlObject_doSend_def
      StepDirObject_doSend_def TimeObject_doSend_def DateObject_doSend_def frame_filled)

lemma value_send_length [simp]: "length (ValueObject_doSend w v) = 4"
  by (simp add: ValueObject_doSend_def new_4 BufferBuilder_put_def BufferBuilder_setValue_def Let_def
      split: prod.splits)

text \<open>The head of every frame: a zero byte and the APCI, which the data bits of a short frame do not touch.\<close>

definition frame_head :: "bool \<Rightarrow> byte list \<Rightarrow> bool" where
  "frame_head w bs \<longleftrightarrow> 2 \<le> length bs \<and> bs ! 0 = 0 \<and> bs ! 1 AND 0xC0 = (if w then 0x80 else 0x40)"

lemma frame_head_Cons: "frame_head w (0 # b # bs) \<longleftrightarrow> b AND 0xC0 = (if w then 0x80 else 0x40)"
  by (simp add: frame_head_def)

lemma stepdir_head: "stepdir_valid v \<Longrightarrow> frame_head w (StepDirObject_doSend w v)"
proof -
  assume "stepdir_valid v"
  then have "direction_m v \<in> {0, 1}" and "stepcode_m v \<in> {0, 1, 2, 3, 4, 5, 6, 7}"
    by (auto simp: stepdir_valid_def)
  then show ?thesis
    by (elim insertE emptyE; cases w)
      (simp_all add: StepDirObject_doSend_def frame_head_Cons apci_def)
qed

lemma bit_heads:
  "frame_head w (SwitchingObject_doSend w v1)" "frame_head w (SwitchingControlObject_doSend w v2)"
  "frame_head w (TimeObject_doSend w v3)" "frame_head w (DateObject_doSend w v4)"
  "frame_head w (ValueObject_doSend w v5)" "frame_head w (uint_doSend w v6)"
  "frame_head w (int_doSend w v7)" "frame_head w (S64Object_doSend w v8)"
  "frame_head w (RGBWObject_doSend w v9)" "frame_head w (StringObject_doSend w v10)"
proof -
  show "frame_head w (SwitchingObject_doSend w v1)"
    by (simp add: SwitchingObject_doSend_def frame_head_Cons)
  show "frame_head w (SwitchingControlObject_doSend w v2)"
    by (cases w; cases "sc_control v2"; cases "sc_value v2")
      (simp_all add: SwitchingControlObject_doSend_def frame_filled frame_head_Cons apci_def)
  show "frame_head w (TimeObject_doSend w v3)" by (simp add: TimeObject_doSend_def frame_head_Cons)
  show "frame_head w (DateObject_doSend w v4)"
    by (simp add: DateObject_doSend_def frame_filled frame_head_Cons)
  show "frame_head w (ValueObject_doSend w v5)"
    by (simp add: ValueObject_doSend_def frame_head_def new_4 BufferBuilder_put_def
        BufferBuilder_setValue_def Let_def split: prod.splits)
  show "frame_head w (uint_doSend w v6)"
    by (cases "ui_class v6") (simp_all add: uint_frame_defs frame_head_Cons)
  show "frame_head w (int_doSend w v7)"
    by (cases "si_class v7") (simp_all add: int_frame_defs frame_head_Cons)
  show "frame_head w (S64Object_doSend w v8)"
    by (simp add: S64Object_doSend_def Let_def frame_filled frame_head_Cons)
  show "frame_head w (RGBWObject_doSend w v9)"
    by (simp add: RGBWObject_doSend_def frame_filled frame_head_Cons)
  show "frame_head w (StringObject_doSend w v10)"
    by (simp add: StringObject_doSend_def frame_head_Cons)
qed

lemma string_head: "string_frame_fits env v \<Longrightarrow> \<exists>bs. ov_doSend env w (StringValue v) = Inr bs \<and> frame_head w bs"
  using bit_heads(10) [of w v] string14_sent [of "transcode (iconv_to_latin1 env) (st_value v)" w]
    string14_sent [of "st_value v" w]
  by (cases "st_class v")
    (auto simp: string_frame_fits_def String14Object_doSend_def String14AsciiObject_doSend_def
      frame_head_def Let_def)

lemma ov_head: "ov_frame_fits env v \<Longrightarrow> \<exists>bs. ov_doSend env w v = Inr bs \<and> frame_head w bs"
  using string_head [of env _ w]
  by (cases v) (auto simp: bit_heads stepdir_head float_frame_fits_def
      simp del: ov_doSend.simps(10) split: value_class.splits s64_class.splits)

interpretation ov_codec: telegram_codec "ov_frame_fits env" "\<lambda>a v. ov_tag a = ov_tag v"
    "ov_doSend env" "ov_doWrite env" for env
proof unfold_locales
  fix v w a bs force
  show "ov_tag v = ov_tag v" ..
  assume fits: "ov_frame_fits env v"
  assume "ov_tag a = ov_tag v" and send: "ov_doSend env w v = Inr bs"
  then show "ov_doWrite env force (buf_of bs) (length bs) a = Inr (force \<or> a \<noteq> v, v)"
  proof (cases rule: ov_tag_cases)
    case 1
    then show ?thesis using send switching_echo by auto
  next
    case 2
    then show ?thesis using send fits control_echo by auto
  next
    case 3
    then show ?thesis using send fits stepdir_echo by auto
  next
    case 4
    then show ?thesis using send fits time_echo by auto
  next
    case 5
    then show ?thesis using send fits date_echo by auto
  next
    case (6 x y)
    then have "bs = ValueObject_doSend w y" using send fits
      by (auto simp: float_frame_fits_def split: value_class.splits)
    then show ?thesis using 6 fits value_echo [of y x force w]
      by (auto simp: float_frame_fits_def split: value_class.splits)
  next
    case 7
    then show ?thesis using send fits uint_echo by auto
  next
    case 8
    then show ?thesis using send fits int_echo by auto
  next
    case 9
    then show ?thesis using send fits s64_echo by auto
  next
    case 10
    then show ?thesis using send fits string_echo by auto
  qed
next
  fix v w
  assume "ov_frame_fits env v"
  then show "\<exists>bs. ov_doSend env w v = Inr bs \<and> 2 \<le> length bs \<and> bs ! 0 = 0
      \<and> bs ! 1 AND 0xC0 = (if w then 0x80 else 0x40)"
    using ov_head [of env v w] by (simp add: frame_head_def)
qed

section \<open>Properties\<close>



text \<open>
  A 64 bit counter (29.xxx) is received as it was sent exactly when its bits 32 to 63 repeat bit 31 or
  bit 31 is clear: the byte with bits 24 to 31 is shifted as a 32 bit integer and its sign is spread
  over the upper half.  The number 2147483648 arrives as -2147483648.
\<close>

theorem s64_telegram_roundtrip_iff:
  assumes "sl_class a = S64" and "sl_class v = S64"
  shows "snd (S64Object_doWrite True (buf_of (S64Object_doSend w v)) 10 a) = v
    \<longleftrightarrow> (bit (sl_value v) 31 \<longrightarrow> (\<forall>n \<in> {32..<64}. bit (sl_value v) n))"
proof -
  have "snd (S64Object_doWrite True (buf_of (S64Object_doSend w v)) 10 a) = v
      \<longleftrightarrow> S64Object_decode (buf_of (S64Object_doSend w v)) = sl_value v"
    using assms by (cases a; cases v) (auto simp: S64Object_doWrite_def store_s64_def)
  then show ?thesis using s64_decode [of w v] by simp
qed

theorem s64_telegram_roundtrip_iff_witness:
  "snd (S64Object_doWrite True (buf_of (S64Object_doSend True \<lparr>sl_class = S64, sl_value = 0x80000000\<rparr>)) 10
     \<lparr>sl_class = S64, sl_value = 0\<rparr>) \<noteq> \<lparr>sl_class = S64, sl_value = 0x80000000\<rparr>"
proof -
  have "bit (0x80000000 :: u64) 31" and "\<not> bit (0x80000000 :: u64) 32" by simp_all
  moreover have "32 \<in> {32..<64 :: nat}" by simp
  ultimately have "\<not> (bit (0x80000000 :: u64) 31 \<longrightarrow> (\<forall>n \<in> {32..<64}. bit (0x80000000 :: u64) n))" by blast
  then show ?thesis
    using s64_telegram_roundtrip_iff [of "\<lparr>sl_class = S64, sl_value = 0\<rparr>"
        "\<lparr>sl_class = S64, sl_value = 0x80000000\<rparr>" True] by simp
qed

text \<open>
  Of the states of a DPT 2.x object only "controlled, on" survives its own telegram: the receiver takes
  every telegram as controlled, and the control bit as a set value, so that "controlled, off" is
  received as "on".
\<close>

theorem control_telegram_roundtrip_iff:
  assumes "sc_eis a = sc_eis v"
  shows "snd (SwitchingControlObject_doWrite force (buf_of (SwitchingControlObject_doSend w v)) 2 a) = v
    \<longleftrightarrow> sc_control v \<and> sc_value v"
  using assms
  by (cases a; cases v; cases w; cases "sc_control v"; cases "sc_value v")
    (simp_all add: SwitchingControlObject_doWrite_def SwitchingControlObject_doSend_def apci_def
      frame_filled SwitchingControlObjectValue_set_double_def SwitchingControlObjectValue_set_bools_def)

theorem control_telegram_roundtrip_iff_witness:
  "snd (SwitchingControlObject_doWrite False
     (buf_of (SwitchingControlObject_doSend True \<lparr>sc_eis = 1, sc_value = False, sc_control = True\<rparr>)) 2
     \<lparr>sc_eis = 1, sc_value = False, sc_control = True\<rparr>)
   \<noteq> \<lparr>sc_eis = 1, sc_value = False, sc_control = True\<rparr>"
  using control_telegram_roundtrip_iff [of "\<lparr>sc_eis = 1, sc_value = False, sc_control = True\<rparr>"
      "\<lparr>sc_eis = 1, sc_value = False, sc_control = True\<rparr>" False True] by simp

text \<open>
  The classes 7.xxx, 8.xxx, 12.xxx, 13.xxx, 29.xxx and 232.600 do not look at the length of a telegram:
  for a telegram of two bytes, the value they store is decided by memory past its end.
\<close>

theorem short_telegram_reads_past_end:
  assumes "ov_tag v \<in> {UiTag U16, UiTag U32, UiTag RGB, SiTag S16, SiTag S32, SlTag S64}"
  shows "\<exists>buf buf'. (\<forall>i < 2. buf i = buf' i)
    \<and> ov_doWrite env True buf 2 v \<noteq> ov_doWrite env True buf' 2 v"
proof -
  define a b :: buffer where "a = (\<lambda>_. 0)" and "b = (\<lambda>i. if i < 2 then 0 else 1)"
  have bytes: "a 2 = 0" "a 3 = 0" "a 4 = 0" "a 5 = 0" "b 2 = 1" "b 3 = 1" "b 4 = 1" "b 5 = 1" "a 6 = 0" "a 7 = 0"
    "a 8 = 0" "a 9 = 0" "b 6 = 1" "b 7 = 1" "b 8 = 1" "b 9 = 1"
    by (simp_all add: a_def b_def)
  have "ov_doWrite env True a 2 v \<noteq> ov_doWrite env True b 2 v"
  proof (cases v)
    case (UIntValue u)
    then show ?thesis using assms
      by (cases u) (auto simp: uint_frame_defs be32_def bytes)
  next
    case (IntValue i)
    then show ?thesis using assms
      by (cases i) (auto simp: int_frame_defs be32_def bytes)
  next
    case (S64Value l)
    then show ?thesis using assms
      by (cases l) (auto simp: S64Object_doWrite_def S64Object_decode_def store_s64_def bytes)
  qed (use assms in simp_all)
  moreover have "\<forall>i < 2. a i = b i" by (simp add: a_def b_def)
  ultimately show ?thesis by blast
qed

theorem short_telegram_reads_past_end_witness:
  "\<exists>buf buf'. (\<forall>i < 2. buf i = buf' i)
    \<and> ov_doWrite plain_env True buf 2 (new_uint U16) \<noteq> ov_doWrite plain_env True buf' 2 (new_uint U16)"
  by (rule short_telegram_reads_past_end) simp

text \<open>The values an object can come to hold, whatever its class.\<close>

inductive stored_value :: "env \<Rightarrow> ObjectValue \<Rightarrow> bool" for env where
  created: "Object_create junk type = Some v \<Longrightarrow> stored_value env v"
| from_text: "createObjectValue env x s = Inr v \<Longrightarrow> stored_value env v"
| received: "stored_value env x \<Longrightarrow> ov_doWrite env force buf len x = Inr (called, v) \<Longrightarrow> stored_value env v"
| assigned: "stored_value env x \<Longrightarrow> stored_value env y \<Longrightarrow> ov_tag x = ov_tag y
    \<Longrightarrow> stored_value env (snd (ov_set env x y))"

lemma overrun_iff:
  "ov_doSend env w v = Inl Out_of_bounds \<longleftrightarrow> (\<exists>t. v = StringValue t \<and> \<not> string14_fits env t)"
  by (cases v)
    (auto simp: string14_fits_def String14Object_doSend_def String14AsciiObject_doSend_def string14_frame_def
      split: string_class.splits if_splits)

definition ov_fits14 :: "env \<Rightarrow> ObjectValue \<Rightarrow> bool" where
  "ov_fits14 env v \<longleftrightarrow> (\<forall>t. v = StringValue t \<longrightarrow> string14_fits env t)"

lemma create_fits14: "createObjectValue e x s = Inr v \<Longrightarrow> ov_fits14 e v"
  using string14_init_fits [where env = e and s = s]
  by (cases x)
    (auto simp: ov_fits14_def lift_value_def create_string_def split: sum.splits string_class.splits)

lemma new_fits14: "pred_option (ov_fits14 env) (Object_create junk t)"
  by (subst Object_create_def, intro pred_option_if pred_option_map_of)
    (simp_all add: ov_fits14_def string14_fits_def transcode_def)

lemma map_prod_eq_iff: "map_prod f g p = (a, b) \<longleftrightarrow> f (fst p) = a \<and> g (snd p) = b"
  by (cases p) simp

lemma string_set_fits14:
  "string14_fits env x \<Longrightarrow> string14_fits env y \<Longrightarrow> st_class x = st_class y
    \<Longrightarrow> string14_fits env (snd (StringObjectValue_set x (Some y)))"
  by (auto simp: StringObjectValue_set_def string14_fits_def split: string_class.splits)

lemma string14_write_fits:
  assumes "String14Object_doWrite env force buf len a = Inr (ch, v)" and "st_class a = String14"
    and "string14_fits env a"
  shows "string14_fits env v"
  using assms
  by (auto simp: String14Object_doWrite_def String14ObjectValue_init_def StringObjectValue_set_def
      string14_fits_def split: if_splits sum.splits)

lemma string14ascii_write_fits:
  assumes "String14AsciiObject_doWrite force buf len a = Inr (ch, v)" and "st_class a = String14Ascii"
    and "string14_fits env a"
  shows "string14_fits env v"
  using assms
  by (auto simp: String14AsciiObject_doWrite_def String14AsciiObjectValue_init_def
      StringObjectValue_set_def string14_fits_def split: if_splits sum.splits)

lemma string28_write_fits: "st_class a = String28 \<Longrightarrow> string14_fits env (snd (StringObject_doWrite force buf len a))"
  by (auto simp: StringObject_doWrite_def StringObjectValue_set_def string14_fits_def Let_def)

lemma write_fits14:
  "ov_fits14 env x \<Longrightarrow> ov_doWrite env force buf len x = Inr (ch, v) \<Longrightarrow> ov_fits14 env v"
  using string28_write_fits [of _ env force buf len]
  by (cases x)
    (auto simp: ov_fits14_def string14_write_fits string14ascii_write_fits map_prod_eq_iff
      split: value_class.splits option.splits string_class.splits sum.splits)

lemma set_fits14:
  "ov_fits14 env x \<Longrightarrow> ov_fits14 env y \<Longrightarrow> ov_tag x = ov_tag y \<Longrightarrow> ov_fits14 env (snd (ov_set env x y))"
  using string_set_fits14 by (cases x; cases y) (auto simp: ov_fits14_def)

lemma stored_fits14: "stored_value env v \<Longrightarrow> ov_fits14 env v"
proof (induction rule: stored_value.induct)
  case (created junk type v)
  then show ?case using new_fits14 [of env junk type] by simp
qed (auto intro: create_fits14 write_fits14 set_fits14)

text \<open>
  The 16 byte array of a 14 character string telegram is never overrun: any value an object comes to
  hold, by creation, from a text, from the bus or by assignment from another value of its class, fits.
\<close>

theorem string14_never_overruns:
  assumes "stored_value env v"
  shows "ov_doSend env isWrite v \<noteq> Inl Out_of_bounds"
  using stored_fits14 [OF assms] by (auto simp: overrun_iff ov_fits14_def)

theorem string14_never_overruns_witness:
  "ov_doSend plain_env True (StringValue \<lparr>st_class = String14Ascii, st_value = ''hello''\<rparr>) \<noteq> Inl Out_of_bounds"
proof (rule string14_never_overruns [OF stored_value.from_text])
  show "createObjectValue plain_env (new_string String14Ascii) ''hello''
    = Inr (StringValue \<lparr>st_class = String14Ascii, st_value = ''hello''\<rparr>)"
    by (simp add: lift_value_def create_string_def String14AsciiObjectValue_init_def)
qed

end
