(* ===== verification/Durations.thy ===== *)
theory Durations
  imports Streams
begin

text \<open>
  Durations in the configuration: \<open>RuleServer::parseDuration\<close> and \<open>RuleServer::formatDuration\<close> of
  src/ruleserver.cpp.  A duration is an \<open>int\<close> of seconds, or of milliseconds when \<open>useMilliseconds\<close>
  is set.  The multiplications of the parser are not checked: \<open>s32\<close> is the two's complement wrap
  of an \<open>int\<close> (the C++ standard leaves the overflow undefined; this is what the compiled code does).
\<close>

section \<open>The code\<close>

definition s32 :: "int \<Rightarrow> int" where
  "s32 i = (i + 2 ^ 31) mod 2 ^ 32 - 2 ^ 31"

definition parseDuration :: "string \<Rightarrow> bool \<Rightarrow> bool \<Rightarrow> int result" where
  "parseDuration duration allowNegative useMilliseconds =
     (if duration = [] then Inr 0
      else case get_int duration of
        None \<Rightarrow> Inl (Bad_duration duration)
      | Some (num, rest) \<Rightarrow>
          if num < 0 \<and> \<not> allowNegative then Inl (Bad_duration duration)
          else
            let unit = get_word rest in
            if unit \<noteq> ''d'' \<and> unit \<noteq> ''h'' \<and> unit \<noteq> ''m'' \<and> unit \<noteq> '''' \<and> unit \<noteq> ''s'' \<and> unit \<noteq> ''ms''
            then Inl (Bad_unit unit)
            else
              let num = (if unit = ''d'' then s32 (s32 (num * 3600) * 24)
                         else if unit = ''h'' then s32 (num * 3600)
                         else if unit = ''m'' then s32 (num * 60)
                         else num) in
              if unit = ''ms'' then (if useMilliseconds then Inr num else Inl No_milliseconds)
              else if useMilliseconds then Inr (s32 (num * 1000))
              else Inr num)"

definition formatDuration :: "int \<Rightarrow> bool \<Rightarrow> string" where
  "formatDuration duration useMilliseconds =
     (if duration = 0 then ''''
      else if useMilliseconds \<and> c_mod duration 1000 \<noteq> 0 then show_int duration @ ''ms''
      else
        let duration = (if useMilliseconds then c_div duration 1000 else duration) in
        if c_mod duration (3600 * 24) = 0 then show_int (c_div duration (3600 * 24)) @ ''d''
        else if c_mod duration 3600 = 0 then show_int (c_div duration 3600) @ ''h''
        else if c_mod duration 60 = 0 then show_int (c_div duration 60) @ ''m''
        else show_int duration)"

section \<open>Lemmas\<close>

abbreviation in_s32 :: "int \<Rightarrow> bool" where
  "in_s32 i \<equiv> - (2 ^ 31) \<le> i \<and> i < 2 ^ 31"

lemma s32_id: "in_s32 i \<Longrightarrow> s32 i = i"
  by (simp add: s32_def)

lemma s32_range: "in_s32 (s32 i)"
  by (simp add: s32_def)

lemma in_s32_factor:
  assumes "in_s32 (q * m)" and "0 < m"
  shows "in_s32 q"
proof -
  have "\<bar>q\<bar> * 1 \<le> \<bar>q\<bar> * m" using assms(2) by (intro mult_left_mono) auto
  then have "\<bar>q\<bar> \<le> \<bar>q * m\<bar>" using assms(2) by (simp add: abs_mult)
  moreover have "q * m = - (2 ^ 31) \<or> \<bar>q * m\<bar> < 2 ^ 31" using assms(1) by auto
  moreover have "q * m < 0 \<Longrightarrow> q < 0" using assms(2) by (simp add: mult_less_0_iff)
  ultimately show ?thesis by auto
qed

lemma get_word_unit:
  assumes "\<forall>c \<in> set u. \<not> is_space c"
  shows "get_word u = u"
proof -
  have "skip_ws u = u" using assms by (cases u) (simp_all add: skip_ws_def)
  then show ?thesis using assms by (simp add: get_word_def)
qed

lemma show_int_not_Nil [simp]: "show_int i \<noteq> []"
  by (simp add: show_int_def)

text \<open>Parsing a printed number followed by a unit.\<close>

lemma parseDuration_show:
  assumes "in_s32 q" and "neg \<or> 0 \<le> q" and "u \<in> {'''', ''d'', ''h'', ''m'', ''ms''}"
  shows "parseDuration (show_int q @ u) neg ms =
     (let num = (if u = ''d'' then s32 (s32 (q * 3600) * 24)
                 else if u = ''h'' then s32 (q * 3600)
                 else if u = ''m'' then s32 (q * 60) else q) in
      if u = ''ms'' then (if ms then Inr num else Inl No_milliseconds)
      else if ms then Inr (s32 (num * 1000)) else Inr num)"
proof -
  have g: "get_int (show_int q @ u) = Some (q, u)"
    using assms by (intro get_signed_show_int) auto
  have w: "get_word u = u"
    using assms(3) by (intro get_word_unit) auto
  have unit: "(u \<noteq> ''d'' \<and> u \<noteq> ''h'' \<and> u \<noteq> ''m'' \<and> u \<noteq> '''' \<and> u \<noteq> ''s'' \<and> u \<noteq> ''ms'') = False"
    using assms(3) by blast
  have sign: "(q < 0 \<and> \<not> neg) = False" using assms(2) by auto
  show ?thesis
    by (simp only: parseDuration_def g w unit sign Let_def if_False option.case prod.case
        append_is_Nil_conv show_int_not_Nil simp_thms)
qed

lemma s32_scaled:
  assumes "in_s32 (q * (3600 * 24))"
  shows "s32 (s32 (q * 3600) * 24) = q * (3600 * 24)"
proof -
  have "in_s32 (q * 3600)"
    using assms in_s32_factor [of "q * 3600" 24] by (simp add: mult.assoc)
  with assms show ?thesis by (simp add: s32_id mult.assoc)
qed

text \<open>The round trip in seconds; \<open>k\<close> is 1, or 1000 when the result is scaled once more.\<close>

lemma parse_format_seconds:
  assumes d: "in_s32 d" and "neg \<or> 0 \<le> d" and "d \<noteq> 0"
  shows "parseDuration (formatDuration d False) neg ms = Inr (if ms then s32 (d * 1000) else d)"
proof -
  have quot: "in_s32 (c_div d m) \<and> (neg \<or> 0 \<le> c_div d m) \<and> in_s32 (c_div d m * m)"
    if "c_mod d m = 0" and "0 < m" for m
  proof -
    have e: "c_div d m * m = d" using that by (simp add: c_div_exact)
    with d have r: "in_s32 (c_div d m * m)" by simp
    moreover have "neg \<or> 0 \<le> c_div d m"
      using assms(2) e that(2) by (metis linorder_not_less mult_neg_pos)
    ultimately show ?thesis using in_s32_factor [OF r that(2)] by simp
  qed
  consider
    "c_mod d (3600 * 24) = 0"
    | "c_mod d (3600 * 24) \<noteq> 0" "c_mod d 3600 = 0"
    | "c_mod d (3600 * 24) \<noteq> 0" "c_mod d 3600 \<noteq> 0" "c_mod d 60 = 0"
    | "c_mod d (3600 * 24) \<noteq> 0" "c_mod d 3600 \<noteq> 0" "c_mod d 60 \<noteq> 0"
    by blast
  then show ?thesis
  proof cases
    case 1
    with quot [OF 1] \<open>d \<noteq> 0\<close> show ?thesis
      using s32_scaled [of "c_div d (3600 * 24)"] c_div_exact [of "3600 * 24" d]
      by (simp add: formatDuration_def parseDuration_show)
  next
    case 2
    with quot [OF 2(2)] \<open>d \<noteq> 0\<close> show ?thesis
      using c_div_exact [of 3600 d]
      by (simp add: formatDuration_def parseDuration_show s32_id)
  next
    case 3
    with quot [OF 3(3)] \<open>d \<noteq> 0\<close> show ?thesis
      using c_div_exact [of 60 d]
      by (simp add: formatDuration_def parseDuration_show s32_id)
  next
    case 4
    with assms show ?thesis
      using parseDuration_show [of d neg "''''" ms] by (simp add: formatDuration_def)
  qed
qed

text \<open>In both units, whatever unit the text has.\<close>

lemma parse_format_duration:
  assumes d: "in_s32 d" and "neg \<or> 0 \<le> d"
  shows "parseDuration (formatDuration d ms) neg ms = Inr d"
proof (cases "ms \<and> d \<noteq> 0")
  case False
  then show ?thesis
    using parse_format_seconds [OF d, of neg ms] assms
    by (cases "d = 0") (auto simp: formatDuration_def parseDuration_def)
next
  case True
  show ?thesis
  proof (cases "c_mod d 1000 = 0")
    case False
    with True assms show ?thesis
      by (simp add: formatDuration_def parseDuration_show)
  next
    case milli: True
    let ?q = "c_div d 1000"
    have e: "?q * 1000 = d" using milli by (simp add: c_div_exact)
    with d have "in_s32 (?q * 1000)" by simp
    then have q: "in_s32 ?q" by (rule in_s32_factor) simp
    have "neg \<or> 0 \<le> ?q" and "?q \<noteq> 0" using assms e True by auto
    with q have "parseDuration (formatDuration ?q False) neg ms = Inr (s32 d)"
      using parse_format_seconds [of ?q neg ms] e True by simp
    moreover have "formatDuration d ms = formatDuration ?q False"
      using True milli \<open>?q \<noteq> 0\<close> by (simp add: formatDuration_def)
    ultimately show ?thesis using d by (simp add: s32_id)
  qed
qed

section \<open>Properties\<close>

text \<open>
  C26. Every \<open>int\<close> duration survives being written to the configuration and read back, in seconds
  and in milliseconds, whatever unit the writer chose; a negative one when the reader accepts
  negative durations.
\<close>
theorem duration_roundtrip:
  fixes d :: u32
  assumes "allowNegative \<or> 0 \<le> sint d"
  shows "parseDuration (formatDuration (sint d) ms) allowNegative ms = Inr (sint d)"
  by (rule parse_format_duration [OF _ assms]) (use sint_ge [of d] sint_lt [of d] in simp)

theorem duration_roundtrip_witness:
  "parseDuration (formatDuration (sint (5400000 :: u32)) True) False True = Inr (sint (5400000 :: u32))"
  by (rule duration_roundtrip) simp

text \<open>
  A duration is rejected exactly when it does not start with an \<open>int\<close>, when it is negative and
  negative ones are not allowed, when its unit is unknown, or when it is in milliseconds and those
  are not supported.
\<close>
theorem parseDuration_rejects_iff:
  "(\<exists>e. parseDuration s neg ms = Inl e) \<longleftrightarrow>
     s \<noteq> [] \<and>
     (case get_int s of
        None \<Rightarrow> True
      | Some (n, rest) \<Rightarrow>
          n < 0 \<and> \<not> neg \<or> get_word rest \<notin> {'''', ''s'', ''m'', ''h'', ''d'', ''ms''}
          \<or> get_word rest = ''ms'' \<and> \<not> ms)"
  by (auto simp: parseDuration_def Let_def split: option.splits)

theorem parseDuration_rejects_iff_witness: "\<exists>e. parseDuration ''5x'' False True = Inl e"
  by (subst parseDuration_rejects_iff) (simp add: scan_defs)

text \<open>
  The multiplications are unchecked: 25000 days is accepted although negative durations are not
  allowed, and the number of seconds it yields is negative.
\<close>
theorem parseDuration_overflow:
  "parseDuration ''25000d'' False False = Inr (- 2134967296)"
  by (simp add: parseDuration_def scan_defs s32_def)

end
