(* ===== verification/EibAddr.thy ===== *)
theory EibAddr
  imports Streams
begin

text \<open>
  KNX addresses: \<open>Object::ReadGroupAddr\<close>, \<open>ReadAddr\<close>, \<open>WriteGroupAddr\<close> and \<open>WriteAddr\<close> of
  src/objectcontroller.cpp.  An address is a \<open>uint16_t\<close>; a group address is written with three
  levels (5, 3 and 8 bits) or two (5 and 11 bits), an individual address with 4, 4 and 8 bits, and
  both may be given in hexadecimal.
\<close>

section \<open>The code\<close>

text \<open>\<open>sscanf (addr, "%dS%dS%d", &a, &b, &c) == 3\<close> for a separator \<open>S\<close>.\<close>

definition sscanf_ddd :: "char \<Rightarrow> string \<Rightarrow> (int \<times> int \<times> int) option" where
  "sscanf_ddd sep s =
     Option.bind (scanf_d s) (\<lambda>(a, s1).
     Option.bind (lit sep s1) (\<lambda>s2.
     Option.bind (scanf_d s2) (\<lambda>(b, s3).
     Option.bind (lit sep s3) (\<lambda>s4.
     Option.bind (scanf_d s4) (\<lambda>(c, _). Some (a, b, c))))))"

definition sscanf_dd :: "char \<Rightarrow> string \<Rightarrow> (int \<times> int) option" where
  "sscanf_dd sep s =
     Option.bind (scanf_d s) (\<lambda>(a, s1).
     Option.bind (lit sep s1) (\<lambda>s2.
     Option.bind (scanf_d s2) (\<lambda>(b, _). Some (a, b))))"

definition group_addr3 :: "int \<Rightarrow> int \<Rightarrow> int \<Rightarrow> eibaddr_t" where
  "group_addr3 a b c =
     push_bit 11 (word_of_int a AND 0x1f) OR push_bit 8 (word_of_int b AND 0x07)
       OR (word_of_int c AND 0xff)"

definition group_addr2 :: "int \<Rightarrow> int \<Rightarrow> eibaddr_t" where
  "group_addr2 a b = push_bit 11 (word_of_int a AND 0x1f) OR (word_of_int b AND 0x7ff)"

definition ReadGroupAddr :: "string \<Rightarrow> eibaddr_t result" where
  "ReadGroupAddr addr =
     (case sscanf_ddd CHR ''/'' addr of
        Some (a, b, c) \<Rightarrow> Inr (group_addr3 a b c)
      | None \<Rightarrow>
     (case sscanf_dd CHR ''/'' addr of
        Some (a, b) \<Rightarrow> Inr (group_addr2 a b)
      | None \<Rightarrow>
     (case scanf_x addr of
        Some (a, _) \<Rightarrow> Inr (word_of_int a AND 0xffff)
      | None \<Rightarrow> Inl (Bad_group_addr addr))))"

definition ReadAddr :: "string \<Rightarrow> eibaddr_t result" where
  "ReadAddr addr =
     (case sscanf_ddd CHR ''.'' addr of
        Some (a, b, c) \<Rightarrow>
          Inr (push_bit 12 (word_of_int a AND 0x0f) OR push_bit 8 (word_of_int b AND 0x0f)
                 OR (word_of_int c AND 0xff))
      | None \<Rightarrow>
     (case scanf_x addr of
        Some (a, _) \<Rightarrow> Inr (word_of_int a AND 0xffff)
      | None \<Rightarrow> Inl (Bad_addr addr)))"

definition WriteGroupAddr :: "eibaddr_t \<Rightarrow> string" where
  "WriteGroupAddr addr =
     show_base 10 (unat (drop_bit 11 addr AND 0x1f)) @ [CHR ''/''] @
     show_base 10 (unat (drop_bit 8 addr AND 0x07)) @ [CHR ''/''] @
     show_base 10 (unat (addr AND 0xff))"

definition WriteAddr :: "eibaddr_t \<Rightarrow> string" where
  "WriteAddr addr =
     show_base 10 (unat (drop_bit 12 addr AND 0x0f)) @ [CHR ''.''] @
     show_base 10 (unat (drop_bit 8 addr AND 0x0f)) @ [CHR ''.''] @
     show_base 10 (unat (addr AND 0xff))"

section \<open>Scanning printed addresses\<close>

lemma uint16_lt: "uint (w :: eibaddr_t) < 9223372036854775808"
proof -
  have "uint w < 2 ^ 16" using uint_lt2p [of w] by simp
  then show ?thesis by simp
qed

lemma sscanf_ddd_show:
  assumes "sep \<in> {CHR ''/'', CHR ''.''}" and "int a < 2 ^ 63" and "int b < 2 ^ 63" and "int c < 2 ^ 63"
  shows "sscanf_ddd sep (show_base 10 a @ [sep] @ show_base 10 b @ [sep] @ show_base 10 c)
           = Some (int a, int b, int c)"
  using assms scanf_d_show [of c "[]"] by (auto simp: sscanf_ddd_def scanf_d_show)

lemma sscanf_dd_show:
  assumes "int a < 2 ^ 63" and "int b < 2 ^ 63"
  shows "sscanf_dd CHR ''/'' (show_base 10 a @ [CHR ''/''] @ show_base 10 b) = Some (int a, int b)"
    and "sscanf_ddd CHR ''/'' (show_base 10 a @ [CHR ''/''] @ show_base 10 b) = None"
  using assms scanf_d_show [of b "[]"] by (simp_all add: sscanf_dd_def sscanf_ddd_def scanf_d_show)

section \<open>Bit fields\<close>

lemma less_16_cases:
  fixes n :: nat
  assumes "n < 16"
  shows "n \<in> {0, 1, 2, 3, 4, 5, 6, 7, 8, 9, 10, 11, 12, 13, 14, 15}"
  using assms by (auto simp: numeral_eq_Suc less_Suc_eq)

lemma group_fields:
  "push_bit 11 (drop_bit 11 w) AND 63488 OR push_bit 8 (drop_bit 8 w) AND 1792 OR w AND 255
     = (w :: eibaddr_t)"
  by (rule bit_word_eqI) (auto simp: bit_simps dest!: less_16_cases)

lemma addr_fields:
  "push_bit 12 (drop_bit 12 w) AND 61440 OR push_bit 8 (drop_bit 8 w) AND 3840 OR w AND 255
     = (w :: eibaddr_t)"
  by (rule bit_word_eqI) (auto simp: bit_simps dest!: less_16_cases)

section \<open>Printed lengths\<close>

lemma length_show_base:
  "n < 10 ^ k \<Longrightarrow> 0 < k \<Longrightarrow> length (show_base 10 n) \<le> k"
proof (induction k arbitrary: n)
  case 0
  then show ?case by simp
next
  case (Suc k)
  show ?case
  proof (cases "n < 10")
    case True
    then show ?thesis by (simp add: show_base.simps [of 10 n])
  next
    case False
    with Suc.prems have "0 < k" and "n div 10 < 10 ^ k"
      by (cases k; auto)+
    with Suc.IH [of "n div 10"] False show ?thesis
      by (simp add: show_base.simps [of 10 n])
  qed
qed

lemma unat_and_le: "unat (w AND v :: eibaddr_t) \<le> unat v"
  by (metis word_and_le1 word_le_nat_alt)

lemma length_show_word:
  assumes "unat v < 10 ^ k" and "0 < k"
  shows "length (show_base 10 (unat (w AND v :: eibaddr_t))) \<le> k"
  using assms unat_and_le [of w v] by (intro length_show_base) (auto intro: le_less_trans)

lemma group_addr2_split:
  "group_addr2 a (int b) = group_addr3 a (int (b div 256)) (int (b mod 256))"
proof -
  have d: "b div 256 = drop_bit 8 b" and m: "b mod 256 = take_bit 8 b"
    by (simp_all add: drop_bit_eq_div take_bit_eq_mod)
  show ?thesis
    unfolding group_addr2_def group_addr3_def d m
  proof (rule bit_word_eqI)
    fix n :: nat
    assume "n < LENGTH(16)"
    then have "n \<in> {0, 1, 2, 3, 4, 5, 6, 7, 8, 9, 10, 11, 12, 13, 14, 15}"
      by (intro less_16_cases) simp
    then show "bit (push_bit 11 (word_of_int a AND 0x1f) OR (word_of_int (int b) AND 0x7ff)
          :: eibaddr_t) n =
        bit (push_bit 11 (word_of_int a AND 0x1f)
          OR push_bit 8 (word_of_int (int (drop_bit 8 b)) AND 0x07)
          OR (word_of_int (int (take_bit 8 b)) AND 0xff) :: eibaddr_t) n"
      by (elim insertE emptyE) (simp_all add: bit_simps)
  qed
qed

lemma read_written_group_addr [simp]: "ReadGroupAddr (WriteGroupAddr addr) = Inr addr"
  unfolding ReadGroupAddr_def WriteGroupAddr_def
  by (subst sscanf_ddd_show) (simp_all add: uint16_lt group_addr3_def group_fields)

section \<open>Properties\<close>

text \<open>
  Writing a group address and reading it back gives the same 16 bits: what
  \<open>Object::exportXml\<close> stores in the configuration is read by \<open>Object::importXml\<close> as the same address.
\<close>
theorem group_addr_roundtrip: "ReadGroupAddr (WriteGroupAddr addr) = Inr addr"
  by (rule read_written_group_addr)

text \<open>
  Writing an individual address and reading it back gives the same 16 bits (the \<open>src\<close> attribute
  of an object-src condition survives export and import).
\<close>
theorem individual_addr_roundtrip: "ReadAddr (WriteAddr addr) = Inr addr"
  unfolding ReadAddr_def WriteAddr_def
  by (subst sscanf_ddd_show) (simp_all add: uint16_lt addr_fields)

text \<open>
  No address overruns the 16 byte buffers \<open>sprintf\<close> writes it to: with the terminating NUL the
  text of a group or individual address takes at most 16 bytes (in fact at most 10).
\<close>
theorem written_addr_fits_buffer:
  "length (WriteGroupAddr addr) + 1 \<le> 16 \<and> length (WriteAddr addr) + 1 \<le> 16"
proof -
  have "length (WriteGroupAddr addr) \<le> 2 + (1 + (1 + (1 + 3)))"
    unfolding WriteGroupAddr_def length_append
    by (intro add_mono length_show_word) simp_all
  moreover have "length (WriteAddr addr) \<le> 2 + (1 + (2 + (1 + 3)))"
    unfolding WriteAddr_def length_append
    by (intro add_mono length_show_word) simp_all
  ultimately show ?thesis by simp
qed

text \<open>
  A two level address \<open>a/b\<close> denotes the same group as the three level address
  \<open>a/(b div 256)/(b mod 256)\<close>, for all components that fit 16 bits.
\<close>
theorem two_level_addr_equiv:
  fixes a b :: eibaddr_t
  shows "ReadGroupAddr (show_base 10 (unat a) @ [CHR ''/''] @ show_base 10 (unat b)) =
         ReadGroupAddr (show_base 10 (unat a) @ [CHR ''/''] @ show_base 10 (unat b div 256)
           @ [CHR ''/''] @ show_base 10 (unat b mod 256))"
proof -
  have b: "int (unat b) < 2 ^ 63" and a: "int (unat a) < 2 ^ 63" by (simp_all add: uint16_lt)
  have "int (unat b div 256) < 2 ^ 63" and "int (unat b mod 256) < 2 ^ 63"
    using b by (simp_all add: zdiv_int zmod_int)
  with a b show ?thesis
    by (simp only: ReadGroupAddr_def sscanf_dd_show sscanf_ddd_show insertI1)
      (simp only: option.case prod.case group_addr2_split)
qed

end
