(* ===== verification/Xml.thy ===== *)
theory Xml
  imports Knx_Prelude
begin

text \<open>
  The part of the XML library (src/ticpp) that the configuration code uses: an element with its tag,
  its attributes and its children, the getters and setters for attributes, and the text of an element.
\<close>

datatype xml =
    Element string "(string \<times> string) list" "xml list"
  | Text string
  | Comment string

fun tag :: "xml \<Rightarrow> string" where
  "tag (Element t _ _) = t"
| "tag (Text s) = s"
| "tag (Comment s) = s"

fun attributes :: "xml \<Rightarrow> (string \<times> string) list" where
  "attributes (Element _ as _) = as"
| "attributes _ = []"

fun children :: "xml \<Rightarrow> xml list" where
  "children (Element _ _ cs) = cs"
| "children _ = []"

fun is_element :: "xml \<Rightarrow> bool" where
  "is_element (Element _ _ _) = True"
| "is_element _ = False"

text \<open>\<open>GetAttribute (name, &value)\<close> throws when the attribute is missing, which is \<open>None\<close> here.\<close>

definition attribute :: "xml \<Rightarrow> string \<Rightarrow> string option" where
  "attribute e name = map_of (attributes e) name"

definition GetAttribute :: "xml \<Rightarrow> string \<Rightarrow> string" where
  "GetAttribute e name = (case attribute e name of None \<Rightarrow> [] | Some v \<Rightarrow> v)"

definition GetAttributeOrDefault :: "xml \<Rightarrow> string \<Rightarrow> string \<Rightarrow> string" where
  "GetAttributeOrDefault e name d = (case attribute e name of None \<Rightarrow> d | Some v \<Rightarrow> v)"

text \<open>Attributes keep the order in which they were first set.\<close>

fun put_attribute :: "string \<Rightarrow> string \<Rightarrow> (string \<times> string) list \<Rightarrow> (string \<times> string) list" where
  "put_attribute name value [] = [(name, value)]"
| "put_attribute name value ((n, v) # as) =
     (if n = name then (n, value) # as else (n, v) # put_attribute name value as)"

fun SetAttribute :: "string \<Rightarrow> string \<Rightarrow> xml \<Rightarrow> xml" where
  "SetAttribute name value (Element t as cs) = Element t (put_attribute name value as) cs"
| "SetAttribute name value e = e"

fun LinkEndChild :: "xml \<Rightarrow> xml \<Rightarrow> xml" where
  "LinkEndChild c (Element t as cs) = Element t as (cs @ [c])"
| "LinkEndChild c e = e"

text \<open>The text is the first child: it is set, or put before the other children.\<close>

fun SetText :: "string \<Rightarrow> xml \<Rightarrow> xml" where
  "SetText s (Element t as (Text _ # cs)) = Element t as (Text s # cs)"
| "SetText s (Element t as cs) = Element t as (Text s # cs)"
| "SetText s e = e"

definition elements :: "string \<Rightarrow> xml \<Rightarrow> xml list" where
  "elements t e = filter (\<lambda>c. is_element c \<and> tag c = t) (children e)"

text \<open>The two getters throw, or return null, when there is no such child; the text must be the first child.\<close>

definition FirstChildElement :: "string \<Rightarrow> xml \<Rightarrow> xml option" where
  "FirstChildElement t e = (case elements t e of [] \<Rightarrow> None | c # _ \<Rightarrow> Some c)"

definition GetText :: "xml \<Rightarrow> string option" where
  "GetText e = (case children e of Text s # _ \<Rightarrow> Some s | _ \<Rightarrow> None)"

lemma size_child: "c \<in> set (children e) \<Longrightarrow> size c < size e"
  by (cases e) (auto dest: size_list_estimation' [where f = size])

lemma size_elements: "size_list size (elements t e) \<le> size e"
proof (cases e)
  case (Element n as cs)
  have "size_list size (filter P cs) \<le> size_list size cs" for P by (induction cs) auto
  then show ?thesis using Element by (simp add: elements_def le_SucI trans_le_add2)
qed (simp_all add: elements_def)

lemma size_FirstChildElement: "FirstChildElement t e = Some c \<Longrightarrow> size c < size e"
  using size_child [of c e] by (auto simp: FirstChildElement_def elements_def split: list.splits dest: filter_eq_ConsD)

lemma map_of_put_attribute:
  "map_of (put_attribute name value as) n = (if n = name then Some value else map_of as n)"
  by (induction as) auto

lemma attribute_SetAttribute [simp]:
  "is_element e \<Longrightarrow> attribute (SetAttribute name value e) n = (if n = name then Some value else attribute e n)"
  by (cases e) (auto simp: attribute_def map_of_put_attribute)

lemma children_SetAttribute [simp]: "children (SetAttribute name value e) = children e"
  by (cases e) auto

lemma attribute_LinkEndChild [simp]: "attribute (LinkEndChild c e) n = attribute e n"
  by (cases e) (auto simp: attribute_def)

lemma children_LinkEndChild [simp]: "is_element e \<Longrightarrow> children (LinkEndChild c e) = children e @ [c]"
  by (cases e) auto

lemma attribute_SetText [simp]: "attribute (SetText s e) n = attribute e n"
  by (cases "(s, e)" rule: SetText.cases) (auto simp: attribute_def)

lemma children_SetText: "is_element e \<Longrightarrow> children e = [] \<Longrightarrow> children (SetText s e) = [Text s]"
  by (cases e) auto

lemma is_element_SetAttribute [simp]: "is_element (SetAttribute name value e) = is_element e"
  by (cases e) auto

lemma is_element_LinkEndChild [simp]: "is_element (LinkEndChild c e) = is_element e"
  by (cases e) auto

lemma is_element_SetText [simp]: "is_element (SetText s e) = is_element e"
  by (cases "(s, e)" rule: SetText.cases) auto

end
