(* ===== verification/GroupObject.thy ===== *)
theory GroupObject
  imports Codecs EibAddr Xml
begin

text \<open>
  The class \<open>Object\<close> of src/objectcontroller.h and .cpp: a communication object with its flags, its group
  addresses, its value and its listeners.  An operation returns the effects it has outside the
  object, in the order they happen, and the new state.
\<close>

section \<open>State and effects\<close>

text \<open>
  The services an object uses: whether the bus connection is the void one, and what the persistent
  storage returns for an object, \<open>None\<close> when none is configured.
\<close>

record services = env +
  con_isVoid :: bool
  storage :: "(string \<Rightarrow> string) option"

type_synonym listener = nat

text \<open>
  The effects outside: a telegram, the call of a listener with the object that changed (by its ID, by which the registry
  knows it; \<open>None\<close> is the null pointer), the two calls of the persistent storage; and, of the layers above, the start and
  the end of the thread of an action, the calls of the gateways and the shell, what an action that is not modelled does, by
  its configuration, a message to a client of the configuration server, and a configuration file written.
\<close>

datatype effect =
    Send eibaddr_t "byte list"
  | OnChange listener "string option"
  | PersistWrite string string
  | PersistLog string string
  | Execute nat
  | Cancel nat
  | Sms string string
  | Email string string string
  | Shell string
  | Foreign xml
  | Message listener string
  | SaveFile string xml

record Object =
  init_m :: bool
  flags_m :: byte
  id_m :: string
  initValue_m :: string
  descr_m :: string
  refCount_m :: int
  gad_m :: eibaddr_t
  readRequestGad_m :: eibaddr_t
  lastTx_m :: eibaddr_t
  persist_m :: bool
  writeLog_m :: bool
  readPending_m :: bool
  listenerList_m :: "listener list"
  listenerGadList_m :: "eibaddr_t list"
  obj_value :: ObjectValue

definition Comm :: byte where "Comm = 0x01"
definition Read :: byte where "Read = 0x02"
definition Write :: byte where "Write = 0x04"
definition Transmit :: byte where "Transmit = 0x08"
definition Update :: byte where "Update = 0x10"
definition Init :: byte where "Init = 0x20"
definition Stateless :: byte where "Stateless = 0x80"
definition Default :: byte where "Default = Comm OR Write OR Transmit OR Update"

lemmas flag_defs = Comm_def Read_def Write_def Transmit_def Update_def Init_def Stateless_def Default_def

definition has_flag :: "byte \<Rightarrow> Object \<Rightarrow> bool" where
  "has_flag f obj \<longleftrightarrow> flags_m obj AND f \<noteq> 0"

text \<open>The constructor; \<open>lastTx_m\<close> is not initialised.\<close>

definition Object_new :: "eibaddr_t \<Rightarrow> ObjectValue \<Rightarrow> Object" where
  "Object_new junk v =
     \<lparr>init_m = False, flags_m = Default, id_m = '''', initValue_m = '''', descr_m = '''', refCount_m = 0,
      gad_m = 0, readRequestGad_m = 0, lastTx_m = junk, persist_m = False, writeLog_m = False,
      readPending_m = False, listenerList_m = [], listenerGadList_m = [], obj_value = v\<rparr>"

definition forceUpdate :: "Object \<Rightarrow> bool" where
  "forceUpdate obj \<longleftrightarrow> \<not> init_m obj \<or> has_flag Stateless obj"

text \<open>
  An operation that may throw: the effects so far, the exception if there was one, and the state it
  leaves behind in either case.
\<close>

type_synonym 's outcome = "effect list \<times> exn option \<times> 's"

definition finish :: "'s \<Rightarrow> 's outcome" where
  "finish s = ([], None, s)"

definition throw :: "exn \<Rightarrow> 's \<Rightarrow> 's outcome" where
  "throw e s = ([], Some e, s)"

definition and_then :: "'s outcome \<Rightarrow> ('s \<Rightarrow> 's outcome) \<Rightarrow> 's outcome" where
  "and_then r f =
     (case r of (effs, Some e, s) \<Rightarrow> (effs, Some e, s)
      | (effs, None, s) \<Rightarrow> (case f s of (effs', e, s') \<Rightarrow> (effs @ effs', e, s')))"

section \<open>Updates\<close>

definition addChangeListener :: "listener \<Rightarrow> Object \<Rightarrow> Object" where
  "addChangeListener l obj = obj\<lparr>listenerList_m := listenerList_m obj @ [l]\<rparr>"

text \<open>\<open>std::list::remove\<close> removes every occurrence.\<close>

definition removeChangeListener :: "listener \<Rightarrow> Object \<Rightarrow> Object" where
  "removeChangeListener l obj = obj\<lparr>listenerList_m := filter (\<lambda>x. x \<noteq> l) (listenerList_m obj)\<rparr>"

text \<open>
  The listeners are called on the updated object; what they do is modelled with the rules.
\<close>

definition onUpdate :: "services \<Rightarrow> Object \<Rightarrow> Object outcome" where
  "onUpdate sv obj =
     (let obj' = obj\<lparr>init_m := True\<rparr>;
          text = ov_toString (env.truncate sv) (obj_value obj');
          log = (if persist_m obj' \<or> writeLog_m obj' then
                   (case storage sv of
                      None \<Rightarrow> []
                    | Some _ \<Rightarrow> (if persist_m obj' then [PersistWrite (id_m obj') text] else [])
                                @ (if writeLog_m obj' then [PersistLog (id_m obj') text] else []))
                 else [])
      in (map (\<lambda>l. OnChange l (Some (id_m obj'))) (listenerList_m obj') @ log, None, obj'))"

definition doWrite :: "services \<Rightarrow> buffer \<Rightarrow> nat \<Rightarrow> Object \<Rightarrow> Object outcome" where
  "doWrite sv buf len obj =
     (case ov_doWrite (env.truncate sv) (forceUpdate obj) buf len (obj_value obj) of
        Inl e \<Rightarrow> throw e obj
      | Inr (called, v) \<Rightarrow>
          (let obj' = obj\<lparr>obj_value := v\<rparr> in if called then onUpdate sv obj' else finish obj'))"

definition onWrite :: "services \<Rightarrow> buffer \<Rightarrow> nat \<Rightarrow> eibaddr_t \<Rightarrow> Object \<Rightarrow> Object outcome" where
  "onWrite sv buf len src obj =
     (if has_flag Write obj \<and> has_flag Comm obj then doWrite sv buf len (obj\<lparr>lastTx_m := src\<rparr>)
      else finish obj)"

definition onResponse :: "services \<Rightarrow> buffer \<Rightarrow> nat \<Rightarrow> eibaddr_t \<Rightarrow> Object \<Rightarrow> Object outcome" where
  "onResponse sv buf len src obj =
     (if has_flag Update obj \<and> has_flag Comm obj
      then doWrite sv buf len (obj\<lparr>readPending_m := False, lastTx_m := src\<rparr>)
      else finish obj)"

section \<open>Reading the bus\<close>

text \<open>
  While \<open>read ()\<close> waits, the telegrams that come in are dispatched; \<open>arrivals\<close> lists those for this
  object, in order: writes and responses (\<open>True\<close>), with buffer, length and source.  The wait ends when
  a response is accepted, or after a second, when the list is exhausted.
\<close>

type_synonym arrival = "bool \<times> buffer \<times> nat \<times> eibaddr_t"

fun wait_response :: "services \<Rightarrow> arrival list \<Rightarrow> Object \<Rightarrow> Object outcome" where
  "wait_response sv [] obj = finish obj"
| "wait_response sv ((response, buf, len, src) # as) obj =
     (if \<not> readPending_m obj then finish obj
      else and_then ((if response then onResponse else onWrite) sv buf len src obj)
             (wait_response sv as))"

definition read :: "services \<Rightarrow> arrival list \<Rightarrow> Object \<Rightarrow> Object outcome" where
  "read sv arrivals obj =
     (if con_isVoid sv then finish (obj\<lparr>init_m := True\<rparr>)
      else and_then
        (and_then
          (if \<not> readPending_m obj then ([Send (readRequestGad_m obj) [0, 0]], None, obj) else finish obj)
          (\<lambda>obj. wait_response sv arrivals (obj\<lparr>readPending_m := True\<rparr>)))
        (\<lambda>obj. finish (obj\<lparr>init_m := True\<rparr>)))"

definition get :: "services \<Rightarrow> arrival list \<Rightarrow> Object \<Rightarrow> Object outcome" where
  "get sv arrivals obj = (if \<not> init_m obj then read sv arrivals obj else finish obj)"

text \<open>
  \<open>doSend\<close> writes the value it holds; only \<open>ValueObject::doSend\<close> asks for it with \<open>getFloatValue ()\<close>,
  which reads the bus first when the object is not initialised.
\<close>

definition send_value :: "services \<Rightarrow> bool \<Rightarrow> Object \<Rightarrow> Object outcome" where
  "send_value sv isWrite obj =
     (case ov_doSend (env.truncate sv) isWrite (obj_value obj) of
        Inl e \<Rightarrow> throw e obj
      | Inr bs \<Rightarrow> ([Send (gad_m obj) bs], None, obj))"

fun is_dpt9 :: "ObjectValue \<Rightarrow> bool" where
  "is_dpt9 (FloatValue v) = (vl_class v \<noteq> Dpt14)"
| "is_dpt9 _ = False"

definition doSend :: "services \<Rightarrow> arrival list \<Rightarrow> bool \<Rightarrow> Object \<Rightarrow> Object outcome" where
  "doSend sv arrivals isWrite obj =
     and_then (if is_dpt9 (obj_value obj) then get sv arrivals obj else finish obj) (send_value sv isWrite)"

definition onRead :: "services \<Rightarrow> arrival list \<Rightarrow> Object \<Rightarrow> Object outcome" where
  "onRead sv arrivals obj =
     (if has_flag Read obj \<and> has_flag Comm obj then doSend sv arrivals False obj else finish obj)"

definition onInternalUpdate :: "services \<Rightarrow> arrival list \<Rightarrow> Object \<Rightarrow> Object outcome" where
  "onInternalUpdate sv arrivals obj =
     and_then (if has_flag Transmit obj \<and> has_flag Comm obj then doSend sv arrivals True obj else finish obj)
       (onUpdate sv)"

text \<open>\<open>Object::setValue (ObjectValue*)\<close>, \<open>setFloatValue\<close> and \<open>setValue (string)\<close>.\<close>

definition setValue :: "services \<Rightarrow> arrival list \<Rightarrow> ObjectValue \<Rightarrow> Object \<Rightarrow> Object outcome" where
  "setValue sv arrivals v obj =
     (case ov_set (env.truncate sv) (obj_value obj) v of
        (changed, v') \<Rightarrow>
          (let obj' = obj\<lparr>obj_value := v'\<rparr>
           in if changed \<or> forceUpdate obj' then onInternalUpdate sv arrivals obj' else finish obj'))"

definition setFloatValue :: "services \<Rightarrow> arrival list \<Rightarrow> rat \<Rightarrow> Object \<Rightarrow> Object outcome" where
  "setFloatValue sv arrivals d obj =
     (case ov_set_double (obj_value obj) d of
        (changed, v') \<Rightarrow>
          (let obj' = obj\<lparr>obj_value := v'\<rparr>
           in if changed \<or> forceUpdate obj' then onInternalUpdate sv arrivals obj' else finish obj'))"

definition setValue_string :: "services \<Rightarrow> arrival list \<Rightarrow> string \<Rightarrow> Object \<Rightarrow> Object outcome" where
  "setValue_string sv arrivals s obj =
     (case createObjectValue (env.truncate sv) (obj_value obj) s of
        Inl e \<Rightarrow> throw e obj
      | Inr v \<Rightarrow> setValue sv arrivals v obj)"

text \<open>\<open>getValue ()\<close>: the state after the read it may cause, and the text.\<close>

definition getValue :: "services \<Rightarrow> arrival list \<Rightarrow> Object \<Rightarrow> Object outcome \<times> string" where
  "getValue sv arrivals obj =
     (let r = get sv arrivals obj in (r, ov_toString (env.truncate sv) (obj_value (snd (snd r)))))"

section \<open>Configuration\<close>

text \<open>\<open>Object::importXml\<close>, in the order of its parts; \<open>junk\<close> initialises the temporary object.\<close>

definition import_type :: "u64 \<Rightarrow> xml \<Rightarrow> Object \<Rightarrow> Object outcome" where
  "import_type junk cfg obj =
     (let type = GetAttribute cfg ''type'' in
      if type = ov_getType (obj_value obj) then finish obj
      else case Object_create junk type of
             None \<Rightarrow> throw Null_deref obj
           | Some v \<Rightarrow> if ov_getType v \<noteq> ov_getType (obj_value obj) then throw Type_change obj
                       else finish obj)"

definition import_id :: "xml \<Rightarrow> Object \<Rightarrow> Object outcome" where
  "import_id cfg obj =
     (let id = GetAttribute cfg ''id'' in
      if id = '''' then throw Missing_id obj
      else if CHR ''/'' \<in> set id then throw (Slash_in_id id) obj
      else finish (if id_m obj = '''' then obj\<lparr>id_m := id\<rparr> else obj))"

definition import_gad :: "xml \<Rightarrow> Object \<Rightarrow> Object outcome" where
  "import_gad cfg obj =
     (let gad = GetAttributeOrDefault cfg ''gad'' ''nochange'' in
      if gad = '''' then finish (obj\<lparr>gad_m := 0, readRequestGad_m := 0\<rparr>)
      else if gad \<noteq> ''nochange'' then
        (case ReadGroupAddr gad of
           Inl e \<Rightarrow> throw e obj
         | Inr a \<Rightarrow> finish (obj\<lparr>gad_m := a, readRequestGad_m := a\<rparr>))
      else finish (obj\<lparr>readRequestGad_m := gad_m obj\<rparr>))"

text \<open>The loop over the children, with its two flags.\<close>

fun import_children :: "bool \<Rightarrow> bool \<Rightarrow> xml list \<Rightarrow> Object \<Rightarrow> Object outcome" where
  "import_children has_descr has_listener [] obj = finish obj"
| "import_children has_descr has_listener (Text s # cs) obj =
     (if s = '''' then import_children has_descr has_listener cs obj
      else import_children True has_listener cs
             (obj\<lparr>descr_m := (if has_descr then descr_m obj else '''') @ s\<rparr>))"
| "import_children has_descr has_listener (Element t as ns # cs) obj =
     (if t = ''listener'' then
        (let obj' = (if has_listener then obj else obj\<lparr>listenerGadList_m := []\<rparr>) in
         case ReadGroupAddr (GetAttribute (Element t as ns) ''gad'') of
           Inl e \<Rightarrow> throw e obj'
         | Inr a \<Rightarrow>
             import_children has_descr True cs
               (obj'\<lparr>listenerGadList_m := listenerGadList_m obj' @ [a],
                     readRequestGad_m := (if GetAttribute (Element t as ns) ''read'' = ''true'' then a
                                          else readRequestGad_m obj')\<rparr>))
      else import_children has_descr has_listener cs obj)"
| "import_children has_descr has_listener (Comment s # cs) obj =
     import_children has_descr has_listener cs obj"

definition parse_flags :: "string \<Rightarrow> byte" where
  "parse_flags s =
     (if CHR ''c'' \<in> set s then Comm else 0) OR (if CHR ''r'' \<in> set s then Read else 0)
     OR (if CHR ''w'' \<in> set s then Write else 0) OR (if CHR ''t'' \<in> set s then Transmit else 0)
     OR (if CHR ''u'' \<in> set s then Update else 0) OR (if CHR ''i'' \<in> set s then Init else 0)
     OR (if CHR ''s'' \<in> set s \<or> CHR ''f'' \<in> set s then Stateless else 0)"

definition import_flags :: "xml \<Rightarrow> Object \<Rightarrow> Object outcome" where
  "import_flags cfg obj =
     finish (obj\<lparr>flags_m := (case attribute cfg ''flags'' of None \<Rightarrow> Default | Some s \<Rightarrow> parse_flags s)\<rparr>)"

definition import_log :: "xml \<Rightarrow> Object \<Rightarrow> Object outcome" where
  "import_log cfg obj = finish (obj\<lparr>writeLog_m := (GetAttribute cfg ''log'' = ''true'')\<rparr>)"

definition import_precision :: "xml \<Rightarrow> Object \<Rightarrow> Object outcome" where
  "import_precision cfg obj =
     (let precision = GetAttribute cfg ''precision'' in
      if precision = '''' then finish obj
      else case ov_setPrecision (obj_value obj) precision of
             Inl e \<Rightarrow> throw e obj
           | Inr v \<Rightarrow> finish (obj\<lparr>obj_value := v\<rparr>))"

text \<open>\<open>set (createObjectValue (val))\<close>, without the updates of \<open>setValue\<close>.\<close>

definition set_text :: "services \<Rightarrow> string \<Rightarrow> Object \<Rightarrow> Object outcome" where
  "set_text sv s obj =
     (case createObjectValue (env.truncate sv) (obj_value obj) s of
        Inl e \<Rightarrow> throw e obj
      | Inr v \<Rightarrow> finish (obj\<lparr>obj_value := snd (ov_set (env.truncate sv) (obj_value obj) v)\<rparr>))"

definition import_init :: "services \<Rightarrow> xml \<Rightarrow> Object \<Rightarrow> Object outcome" where
  "import_init sv cfg obj =
     (let init = GetAttribute cfg ''init''; obj = obj\<lparr>persist_m := False, initValue_m := init\<rparr> in
      if init = ''persist'' then
        (case storage sv of
           None \<Rightarrow> throw (No_storage (id_m obj)) obj
         | Some persistent_read \<Rightarrow>
             and_then (if persistent_read (id_m obj) \<noteq> '''' then set_text sv (persistent_read (id_m obj)) obj
                       else finish obj)
               (\<lambda>obj. finish (obj\<lparr>persist_m := True\<rparr>)))
      else if init \<noteq> '''' \<and> init \<noteq> ''request'' then set_text sv init obj
      else finish obj)"

definition Object_importXml :: "services \<Rightarrow> u64 \<Rightarrow> xml \<Rightarrow> Object \<Rightarrow> Object outcome" where
  "Object_importXml sv junk cfg obj =
     foldl and_then (finish obj)
       [import_type junk cfg, import_id cfg, import_gad cfg, import_children False False (children cfg),
        import_flags cfg, import_log cfg, import_precision cfg, import_init sv cfg]"

text \<open>\<open>Object::create (pConfig)\<close>\<close>

definition Object_create_xml :: "services \<Rightarrow> u64 \<Rightarrow> xml \<Rightarrow> Object outcome option" where
  "Object_create_xml sv junk cfg =
     (case Object_create junk (GetAttribute cfg ''type'') of
        None \<Rightarrow> None
      | Some v \<Rightarrow> Some (Object_importXml sv junk cfg (Object_new (ucast junk) v)))"

definition show_flags :: "Object \<Rightarrow> string" where
  "show_flags obj =
     (if has_flag Comm obj then ''c'' else '''') @ (if has_flag Read obj then ''r'' else '''')
     @ (if has_flag Write obj then ''w'' else '''') @ (if has_flag Transmit obj then ''t'' else '''')
     @ (if has_flag Update obj then ''u'' else '''') @ (if has_flag Init obj then ''i'' else '''')
     @ (if has_flag Stateless obj then ''s'' else '''')"

definition listener_xml :: "eibaddr_t \<Rightarrow> eibaddr_t \<Rightarrow> xml" where
  "listener_xml readGad a =
     (let e = SetAttribute ''gad'' (WriteGroupAddr a) (Element ''listener'' [] [])
      in if readGad = a then SetAttribute ''read'' ''true'' e else e)"

definition Object_exportXml :: "Object \<Rightarrow> xml \<Rightarrow> xml" where
  "Object_exportXml obj e =
     (let e = SetAttribute ''type'' (ov_getType (obj_value obj)) e;
          e = SetAttribute ''id'' (id_m obj) e;
          e = (if gad_m obj \<noteq> 0 then SetAttribute ''gad'' (WriteGroupAddr (gad_m obj)) e else e);
          e = (if initValue_m obj \<noteq> '''' then SetAttribute ''init'' (initValue_m obj) e else e);
          e = (if writeLog_m obj then SetAttribute ''log'' ''true'' e else e);
          precision = ov_getPrecision (obj_value obj);
          e = (if precision \<noteq> '''' then SetAttribute ''precision'' precision e else e);
          e = (if flags_m obj \<noteq> Default then SetAttribute ''flags'' (show_flags obj) e else e);
          e = (if descr_m obj \<noteq> '''' then SetText (descr_m obj) e else e)
      in foldl (\<lambda>e a. LinkEndChild (listener_xml (readRequestGad_m obj) a) e) e (listenerGadList_m obj))"

end
