(* ===== verification/Object_Laws.thy ===== *)
theory Object_Laws
  imports GroupObject Telegram_Codec
begin

text \<open>
  What the operations of \<open>Object\<close> (theory \<open>GroupObject\<close>) guarantee: which telegrams the flags let
  through, what \<open>setValue\<close> does and when it does nothing, how an uninitialised floating point object
  behaves, and that a configuration survives \<open>exportXml\<close> and \<open>importXml\<close>.
\<close>

section \<open>Outcomes\<close>

lemma and_then_simps [simp]:
  "and_then (effs, Some e, s) f = (effs, Some e, s)"
  "and_then (finish s) f = f s"
  "and_then (effs, None, s) f = (effs @ fst (f s), fst (snd (f s)), snd (snd (f s)))"
  "and_then (throw e s) f = throw e s"
  by (simp_all add: and_then_def finish_def throw_def split: prod.splits)

definition sends :: "effect list \<Rightarrow> (eibaddr_t \<times> byte list) list" where
  "sends effs = concat (map (\<lambda>e. case e of Send a bs \<Rightarrow> [(a, bs)] | _ \<Rightarrow> []) effs)"

lemma sends_simps [simp]:
  "sends [] = []" "sends (Send a bs # es) = (a, bs) # sends es" "sends (OnChange l x # es) = sends es"
  "sends (PersistWrite i s # es) = sends es" "sends (PersistLog i s # es) = sends es"
  "sends (es @ es') = sends es @ sends es'" "sends (map (\<lambda>l. OnChange l x) ls) = []"
  by (simp_all add: sends_def comp_def)

lemma sends_onUpdate [simp]: "sends (fst (onUpdate sv obj)) = []"
  by (simp add: onUpdate_def Let_def split: option.splits)

lemma onUpdate_state [simp]: "snd (onUpdate sv obj) = (None, obj\<lparr>init_m := True\<rparr>)"
  by (simp add: onUpdate_def Let_def)

text \<open>A running system for the examples.\<close>

definition plain_services :: services where
  "plain_services =
     \<lparr>clock = clock plain_env, iconv_to_latin1 = Some, iconv_to_utf8 = Some, con_isVoid = False, storage = None\<rparr>"

section \<open>Setting a value\<close>

abbreviation transmits :: "Object \<Rightarrow> bool" where
  "transmits obj \<equiv> has_flag Transmit obj \<and> has_flag Comm obj"

lemma send_value_ok:
  "ov_doSend (env.truncate sv) w (obj_value obj) = Inr bs \<Longrightarrow> send_value sv w obj = ([Send (gad_m obj) bs], None, obj)"
  by (simp add: send_value_def)

lemma is_dpt9_set [simp]: "is_dpt9 (snd (ov_set e a b)) = is_dpt9 a"
  by (cases a) (auto simp: ValueObjectValue_set_def ValueObjectValue_set_double_def Let_def
      split: option.splits)

text \<open>
  Setting an object to the value it has does nothing at all: if it is initialised, not stateless,
  and the new value is of its kind and equal, no telegram is sent, no listener is called and the
  object is unchanged.  This is what stops two objects that copy each other.
\<close>

theorem setValue_same_is_silent:
  assumes "init_m obj" and "\<not> has_flag Stateless obj"
    and "ov_kind (obj_value obj) = ov_kind v" and "ov_regular (obj_value obj)" and "ov_regular v"
    and "ov_equals (env.truncate sv) (obj_value obj) v"
  shows "setValue sv arrivals v obj = finish obj"
proof -
  let ?e = "env.truncate sv"
  have "fst (ov_set ?e (obj_value obj) v) = False"
    using ov.assign_changed [of "obj_value obj" "ov_kind v" v ?e] assms by simp
  moreover have "snd (ov_set ?e (obj_value obj) v) = obj_value obj"
    using ov.assign_same [of "obj_value obj" "ov_kind v" v ?e] assms by simp
  ultimately have "ov_set ?e (obj_value obj) v = (False, obj_value obj)" by (metis prod.collapse)
  then show ?thesis using assms by (simp add: setValue_def forceUpdate_def)
qed


theorem setValue_same_is_silent_witness:
  "setValue plain_services [] (new_uint U8) ((Object_new 0 (new_uint U8))\<lparr>init_m := True\<rparr>)
     = finish ((Object_new 0 (new_uint U8))\<lparr>init_m := True\<rparr>)"
  by (rule setValue_same_is_silent)
    (simp_all add: Object_new_def has_flag_def flag_defs UIntObjectValue_equals_def)


lemma doWrite_state:
  assumes "ov_doWrite (env.truncate sv) (forceUpdate obj) buf len (obj_value obj) = Inr (called, u)"
  shows "\<exists>effs i. doWrite sv buf len obj = (effs, None, obj\<lparr>obj_value := u, init_m := i\<rparr>) \<and> sends effs = []"
proof (cases called)
  case True
  then have "doWrite sv buf len obj = onUpdate sv (obj\<lparr>obj_value := u\<rparr>)"
    using assms by (simp add: doWrite_def Let_def)
  then show ?thesis
    using onUpdate_state [of sv "obj\<lparr>obj_value := u\<rparr>"] sends_onUpdate [of sv "obj\<lparr>obj_value := u\<rparr>"]
    by (metis prod.collapse)
next
  case False
  then have "doWrite sv buf len obj = ([], None, obj\<lparr>obj_value := u, init_m := init_m obj\<rparr>)"
    using assms by (simp add: doWrite_def Let_def finish_def)
  then show ?thesis by (metis sends_simps(1))
qed

text \<open>
  Setting a DPT 9.x object that is not initialised yet can lose the value: the code first asks the bus
  for the current value, and the answer overwrites the value that was just stored.  What is then
  sent, and what the object holds at the end, is the value of the answer.
\<close>

theorem uninitialised_float_set_is_lost:
  assumes "is_dpt9 (obj_value obj)" and "\<not> init_m obj" and "transmits obj" and "has_flag Update obj"
    and "\<not> con_isVoid sv" and "\<not> readPending_m obj"
    and "v' = snd (ov_set (env.truncate sv) (obj_value obj) v)"
    and "ov_doWrite (env.truncate sv) True buf len v' = Inr (called, u)"
    and "is_dpt9 u" and "ov_doSend (env.truncate sv) True u = Inr bs"
  shows "\<exists>effs obj'. setValue sv [(True, buf, len, src)] v obj = (effs, None, obj') \<and> obj_value obj' = u
    \<and> sends effs = [(readRequestGad_m obj, [0, 0]), (gad_m obj, bs)]"
proof -
  let ?e = "env.truncate sv"
  let ?o = "obj\<lparr>obj_value := v'\<rparr>"
  let ?p = "?o\<lparr>readPending_m := False, lastTx_m := src\<rparr>"
  have dpt9: "is_dpt9 v'" using assms(1) unfolding assms(7) by simp
  have "ov_doWrite ?e (forceUpdate ?p) buf len (obj_value ?p) = Inr (called, u)"
    using assms(2,8) by (simp add: forceUpdate_def)
  from doWrite_state [OF this] obtain effs i where
    w: "doWrite sv buf len ?p = (effs, None, ?p\<lparr>obj_value := u, init_m := i\<rparr>)" "sends effs = []" by blast
  let ?q = "?p\<lparr>obj_value := u, init_m := True\<rparr>"
  have rsp: "onResponse sv buf len src (?o\<lparr>readPending_m := True\<rparr>) = (effs, None, ?p\<lparr>obj_value := u, init_m := i\<rparr>)"
    using w(1) assms(3,4) by (simp add: onResponse_def has_flag_def)
  have "get sv [(True, buf, len, src)] ?o = ([Send (readRequestGad_m obj) [0, 0]] @ effs, None, ?q)"
    using assms(2,5,6) by (simp add: get_def read_def rsp) (simp add: finish_def)
  then have send: "doSend sv [(True, buf, len, src)] True ?o
      = ([Send (readRequestGad_m obj) [0, 0]] @ effs @ [Send (gad_m obj) bs], None, ?q)"
    using dpt9 assms(10) by (simp add: doSend_def send_value_def)
  obtain changed where "ov_set ?e (obj_value obj) v = (changed, v')" using assms(7) by (metis prod.collapse)
  then have "setValue sv [(True, buf, len, src)] v obj = onInternalUpdate sv [(True, buf, len, src)] ?o"
    using assms(2) by (simp add: setValue_def forceUpdate_def Let_def)
  also have "\<dots> = ([Send (readRequestGad_m obj) [0, 0]] @ effs @ [Send (gad_m obj) bs] @ fst (onUpdate sv ?q),
      None, ?q\<lparr>init_m := True\<rparr>)"
    using assms(3) send by (simp add: onInternalUpdate_def has_flag_def)
  finally show ?thesis using w(2) by simp
qed

definition room_temperature :: Object where
  "room_temperature = (Object_new 0 (new_float (Dpt9 1)))\<lparr>id_m := ''temp'', gad_m := 0x0901, readRequestGad_m := 0x0901\<rparr>"

lemma decode_18_degrees: "ValueObject_decode 7 8 = 18"
  by (simp add: ValueObject_decode_def float_defs)

text \<open>The object is set to 21 degrees; the answer of the bus says 18.\<close>

theorem uninitialised_float_set_is_lost_witness:
  "\<exists>effs obj'. setValue plain_services [(True, buf_of [0, 0x40, 7, 8], 4, 0x1101)]
       (FloatValue \<lparr>vl_class = Dpt9 1, vl_value = 21, precision_m = 0\<rparr>) room_temperature = (effs, None, obj')
     \<and> obj_value obj' = FloatValue \<lparr>vl_class = Dpt9 1, vl_value = 18, precision_m = 0\<rparr>"
proof -
  let ?u = "FloatValue \<lparr>vl_class = Dpt9 1, vl_value = 18, precision_m = 0\<rparr>"
  let ?v = "FloatValue \<lparr>vl_class = Dpt9 1, vl_value = 21, precision_m = 0\<rparr>"
  have r: "roundToKnxPrecision 18 = 18" "roundToKnxPrecision 21 = 21"
    by (simp_all add: roundToKnxPrecision_def knx_normalise_def knx_shift.simps float_defs)
  have "ov_doWrite (env.truncate plain_services) True (buf_of [0, 0x40, 7, 8]) 4 ?v = Inr (True, ?u)"
    by (simp add: ValueObject_doWrite_def decode_18_degrees ValueObjectValue_set_double_def round_value_def r)
  moreover have "snd (ov_set (env.truncate plain_services) (obj_value room_temperature) ?v) = ?v"
    by (simp add: room_temperature_def Object_new_def ValueObjectValue_set_def
        ValueObjectValue_set_double_def round_value_def r)
  ultimately show ?thesis
    using uninitialised_float_set_is_lost [where obj = room_temperature and sv = plain_services
        and v' = ?v and v = ?v and buf = "buf_of [0, 0x40, 7, 8]" and len = 4 and called = True and u = ?u
        and bs = "ValueObject_doSend True \<lparr>vl_class = Dpt9 1, vl_value = 18, precision_m = 0\<rparr>" and src = "0x1101"]
    by (auto simp: room_temperature_def Object_new_def has_flag_def flag_defs plain_services_def)
qed



text \<open>
  An object that receives its own telegram back stays as it is: no listener is called, nothing is
  sent, and only the last sender changes, for every value whose telegram carries it.
\<close>

theorem own_telegram_is_silent:
  assumes "ov_frame_fits (env.truncate sv) (obj_value obj)" and "init_m obj" and "\<not> has_flag Stateless obj"
    and "ov_doSend (env.truncate sv) w (obj_value obj) = Inr bs"
  shows "onWrite sv (buf_of bs) (length bs) src obj =
    finish (if has_flag Write obj \<and> has_flag Comm obj then obj\<lparr>lastTx_m := src\<rparr> else obj)"
  using ov_codec.echo [OF assms(1,4), of False] assms(2,3)
  by (auto simp: onWrite_def doWrite_def forceUpdate_def has_flag_def Let_def)

theorem own_telegram_is_silent_witness:
  "onWrite plain_services (buf_of [0, 0x81]) (length [0, 0x81 :: byte]) 5 ((Object_new 0 (Switching \<lparr>sw_eis = 1, sw_value = True\<rparr>))\<lparr>init_m := True\<rparr>)
   = finish ((Object_new 0 (Switching \<lparr>sw_eis = 1, sw_value = True\<rparr>))\<lparr>init_m := True, lastTx_m := 5\<rparr>)"
  using own_telegram_is_silent [of plain_services "(Object_new 0 (Switching \<lparr>sw_eis = 1, sw_value = True\<rparr>))\<lparr>init_m := True\<rparr>"
      True "[0, 0x81]" 5]
  by (simp add: Object_new_def has_flag_def flag_defs SwitchingObject_doSend_def apci_def)

section \<open>Export and import\<close>

lemma shown_flags:
  "CHR ''c'' \<in> set (show_flags obj) \<longleftrightarrow> has_flag Comm obj" "CHR ''r'' \<in> set (show_flags obj) \<longleftrightarrow> has_flag Read obj"
  "CHR ''w'' \<in> set (show_flags obj) \<longleftrightarrow> has_flag Write obj" "CHR ''t'' \<in> set (show_flags obj) \<longleftrightarrow> has_flag Transmit obj"
  "CHR ''u'' \<in> set (show_flags obj) \<longleftrightarrow> has_flag Update obj" "CHR ''i'' \<in> set (show_flags obj) \<longleftrightarrow> has_flag Init obj"
  "CHR ''s'' \<in> set (show_flags obj) \<longleftrightarrow> has_flag Stateless obj" "CHR ''f'' \<notin> set (show_flags obj)"
  by (simp_all add: show_flags_def)

lemma flags_roundtrip: "flags_m obj AND 0x40 = 0 \<Longrightarrow> parse_flags (show_flags obj) = flags_m obj"
proof (rule bit_word_eqI)
  fix n
  assume f: "flags_m obj AND 0x40 = 0" and "n < LENGTH(8)"
  have flag: "has_flag (push_bit k 1) obj \<longleftrightarrow> bit (flags_m obj) k" if "k < 8" for k
    unfolding has_flag_def using that by (auto simp: bit_iff_and_push_bit_not_eq_0)
  have b: "has_flag 1 obj = bit (flags_m obj) 0" "has_flag 2 obj = bit (flags_m obj) 1"
    "has_flag 4 obj = bit (flags_m obj) 2" "has_flag 8 obj = bit (flags_m obj) 3"
    "has_flag 0x10 obj = bit (flags_m obj) 4" "has_flag 0x20 obj = bit (flags_m obj) 5"
    "has_flag 0x80 obj = bit (flags_m obj) 7"
    using flag [of 0] flag [of 1] flag [of 2] flag [of 3] flag [of 4] flag [of 5] flag [of 7]
    by simp_all
  have "\<not> bit (flags_m obj) 6" using f by (simp add: bit_iff_and_push_bit_not_eq_0)
  moreover have "n \<in> {0, 1, 2, 3, 4, 5, 6, 7}" using \<open>n < LENGTH(8)\<close> by auto
  ultimately show "bit (parse_flags (show_flags obj)) n = bit (flags_m obj) n"
    by (elim insertE emptyE)
      (simp_all only: parse_flags_def shown_flags, simp_all add: b flag_defs bit_simps)
qed

lemma listener_xml_eq:
  "listener_xml rg a = Element ''listener'' (if rg = a then [(''gad'', WriteGroupAddr a), (''read'', ''true'')]
      else [(''gad'', WriteGroupAddr a)]) []"
  by (simp add: listener_xml_def Let_def)

lemma import_listeners:
  "import_children d True (map (listener_xml rg) as) obj =
     finish (obj\<lparr>listenerGadList_m := listenerGadList_m obj @ as,
       readRequestGad_m := (if rg \<in> set as then rg else readRequestGad_m obj)\<rparr>)"
proof (induction as arbitrary: obj)
  case (Cons a as)
  then show ?case by (auto simp: listener_xml_eq GetAttribute_def attribute_def)
qed simp

lemma import_listeners_fresh:
  assumes "listenerGadList_m obj = []"
  shows "import_children d False (map (listener_xml rg) as) obj =
     finish (obj\<lparr>listenerGadList_m := as, readRequestGad_m := (if rg \<in> set as then rg else readRequestGad_m obj)\<rparr>)"
proof (cases as)
  case (Cons a as')
  then show ?thesis using assms
    by (auto simp: listener_xml_eq GetAttribute_def attribute_def import_listeners Let_def)
next
  case Nil
  then have "obj\<lparr>listenerGadList_m := []\<rparr> = obj" using assms by (cases obj) simp
  then show ?thesis using Nil by simp
qed

lemma link_all:
  assumes "is_element e"
  shows "attribute (foldl (\<lambda>e a. LinkEndChild (f a) e) e as) n = attribute e n"
    and "children (foldl (\<lambda>e a. LinkEndChild (f a) e) e as) = children e @ map f as"
    and "is_element (foldl (\<lambda>e a. LinkEndChild (f a) e) e as)"
  using assms by (induction as arbitrary: e) auto

definition empty_object_element :: xml where
  "empty_object_element = Element ''object'' [] []"

lemma set_if:
  "is_element e \<Longrightarrow> attribute (if c then SetAttribute name value e else e) n
     = (if c \<and> n = name then Some value else attribute e n)"
  "is_element (if c then SetAttribute name value e else e) = is_element e"
  "children (if c then SetAttribute name value e else e) = children e"
  "attribute (if c then SetText s e else e) n = attribute e n"
  "is_element (if c then SetText s e else e) = is_element e"
  "is_element e \<Longrightarrow> children e = [] \<Longrightarrow> children (if c then SetText s e else e) = (if c then [Text s] else [])"
  by (simp_all add: children_SetText)

lemma export_attributes:
  fixes obj :: Object
  defines "e \<equiv> Object_exportXml obj empty_object_element"
  shows "attribute e ''type'' = Some (ov_getType (obj_value obj))" "attribute e ''id'' = Some (id_m obj)"
    "attribute e ''gad'' = (if gad_m obj \<noteq> 0 then Some (WriteGroupAddr (gad_m obj)) else None)"
    "attribute e ''init'' = (if initValue_m obj \<noteq> '''' then Some (initValue_m obj) else None)"
    "attribute e ''log'' = (if writeLog_m obj then Some ''true'' else None)"
    "attribute e ''precision'' =
       (if ov_getPrecision (obj_value obj) \<noteq> '''' then Some (ov_getPrecision (obj_value obj)) else None)"
    "attribute e ''flags'' = (if flags_m obj \<noteq> Default then Some (show_flags obj) else None)"
proof -
  have n: "attribute (Element t as cs) n = map_of as n" for t as cs n by (simp add: attribute_def)
  show "attribute e ''type'' = Some (ov_getType (obj_value obj))" "attribute e ''id'' = Some (id_m obj)"
    "attribute e ''gad'' = (if gad_m obj \<noteq> 0 then Some (WriteGroupAddr (gad_m obj)) else None)"
    "attribute e ''init'' = (if initValue_m obj \<noteq> '''' then Some (initValue_m obj) else None)"
    "attribute e ''log'' = (if writeLog_m obj then Some ''true'' else None)"
    "attribute e ''precision'' =
       (if ov_getPrecision (obj_value obj) \<noteq> '''' then Some (ov_getPrecision (obj_value obj)) else None)"
    "attribute e ''flags'' = (if flags_m obj \<noteq> Default then Some (show_flags obj) else None)"
    unfolding e_def
    by (simp_all add: Object_exportXml_def Let_def link_all empty_object_element_def set_if n split del: if_split)
      (simp_all add: set_if n)
qed

lemma export_children:
  "children (Object_exportXml obj empty_object_element) =
     (if descr_m obj \<noteq> '''' then [Text (descr_m obj)] else [])
       @ map (listener_xml (readRequestGad_m obj)) (listenerGadList_m obj)"
  by (simp add: Object_exportXml_def Let_def link_all empty_object_element_def set_if split del: if_split)

lemma ov_tag_type: "ov_tag a = ov_tag v \<Longrightarrow> ov_getType a = ov_getType v \<and> ov_getPrecision a = ov_getPrecision v"
  by (erule ov_tag_cases) (simp_all add: ValueObjectValue_getPrecision_def)

lemma created_precision: "pred_option (\<lambda>v. ov_getPrecision v = '''') (Object_create junk t)"
  by (subst Object_create_def, intro pred_option_if pred_option_map_of)
    (simp_all add: ValueObjectValue_getPrecision_def)

lemma WriteGroupAddr_neq: "WriteGroupAddr a \<noteq> ''nochange''" "WriteGroupAddr a \<noteq> ''''"
proof -
  have "CHR ''/'' \<in> set (WriteGroupAddr a)" by (simp add: WriteGroupAddr_def)
  then show "WriteGroupAddr a \<noteq> ''nochange''" "WriteGroupAddr a \<noteq> ''''" by auto
qed

text \<open>
  The configurations in question: the value is of a class that \<open>Object::create\<close> makes (so without a
  precision of its own), the ID is legal, the address to read from is the object's own or that of a
  listener, and no undefined flag is set; the initial value is not one that loads a value.
\<close>

definition exportable :: "Object \<Rightarrow> bool" where
  "exportable obj \<longleftrightarrow>
     id_m obj \<noteq> '''' \<and> CHR ''/'' \<notin> set (id_m obj)
     \<and> readRequestGad_m obj \<in> insert (gad_m obj) (set (listenerGadList_m obj))
     \<and> flags_m obj AND 0x40 = 0 \<and> initValue_m obj \<in> {'''', ''request''}"

text \<open>
  C24. A configuration survives: importing what an object exports into a new object yields the same type,
  ID, addresses, read address, flags, initial value, log setting, description and listening
  addresses, without an exception and without a telegram.
\<close>

theorem config_roundtrip:
  assumes "exportable obj" and "Object_create 0 t = Some v" and "ov_tag (obj_value obj) = ov_tag v"
  shows "Object_create_xml sv 0 (Object_exportXml obj empty_object_element) = Some (finish
    \<lparr>init_m = False, flags_m = flags_m obj, id_m = id_m obj, initValue_m = initValue_m obj,
     descr_m = descr_m obj, refCount_m = 0, gad_m = gad_m obj, readRequestGad_m = readRequestGad_m obj,
     lastTx_m = 0, persist_m = False, writeLog_m = writeLog_m obj, readPending_m = False,
     listenerList_m = [], listenerGadList_m = listenerGadList_m obj, obj_value = v\<rparr>)"
proof -
  let ?cfg = "Object_exportXml obj empty_object_element"
  note a = assms(1) [unfolded exportable_def]
  have type: "ov_getType (obj_value obj) = ov_getType v" using ov_tag_type [OF assms(3)] by simp
  have prec: "ov_getPrecision (obj_value obj) = ''''"
    using ov_tag_type [OF assms(3)] created_precision [of 0 t] assms(2) by simp
  have create: "Object_create 0 (GetAttribute ?cfg ''type'') = Some v"
    using type_stable_create [of 0 t] assms(2) by (simp add: GetAttribute_def export_attributes type)
  define o1 where "o1 = (Object_new 0 v)\<lparr>id_m := id_m obj\<rparr>"
  define o2 where "o2 = o1\<lparr>gad_m := gad_m obj, readRequestGad_m := gad_m obj\<rparr>"
  define o3 where "o3 = o2\<lparr>descr_m := descr_m obj, listenerGadList_m := listenerGadList_m obj,
      readRequestGad_m := readRequestGad_m obj\<rparr>"
  define o4 where "o4 = o3\<lparr>flags_m := flags_m obj, writeLog_m := writeLog_m obj\<rparr>"
  have s1: "import_type 0 ?cfg (Object_new 0 v) = finish (Object_new 0 v)"
    by (simp add: import_type_def GetAttribute_def export_attributes type Object_new_def)
  have s2: "import_id ?cfg (Object_new 0 v) = finish o1"
    using a by (simp add: import_id_def GetAttribute_def export_attributes Object_new_def o1_def)
  have s3: "import_gad ?cfg o1 = finish o2"
    by (simp add: import_gad_def GetAttributeOrDefault_def export_attributes o2_def o1_def Object_new_def
        WriteGroupAddr_neq)
  have s4: "import_children False False (children ?cfg) o2 = finish o3"
    using a import_listeners_fresh [of o2] import_listeners_fresh [of "o2\<lparr>descr_m := descr_m obj\<rparr>"]
    by (auto simp: export_children o3_def o2_def o1_def Object_new_def)
  have s5: "and_then (import_flags ?cfg o3) (import_log ?cfg) = finish o4"
    using a flags_roundtrip [of obj]
    by (simp add: import_flags_def import_log_def GetAttribute_def export_attributes o4_def)
  have s6: "import_precision ?cfg o4 = finish o4"
    by (simp add: import_precision_def GetAttribute_def export_attributes prec)
  have s7: "import_init sv ?cfg o4 = finish (o4\<lparr>initValue_m := initValue_m obj\<rparr>)"
    using a by (auto simp: import_init_def GetAttribute_def export_attributes o4_def o3_def o2_def o1_def Object_new_def)
  show ?thesis
    using s5 by (simp add: Object_create_xml_def create Object_importXml_def s1 s2 s3 s4 s6 s7)
      (simp add: o4_def o3_def o2_def o1_def Object_new_def)
qed

theorem config_roundtrip_witness:
  "Object_create_xml plain_services 0
     (Object_exportXml (room_temperature\<lparr>listenerGadList_m := [0x0a01], flags_m := 0x87\<rparr>) empty_object_element)
   = Some (finish (room_temperature\<lparr>listenerGadList_m := [0x0a01], flags_m := 0x87\<rparr>))"
  using config_roundtrip [of "room_temperature\<lparr>listenerGadList_m := [0x0a01], flags_m := 0x87\<rparr>"
      "''9.001''" "new_float (Dpt9 1)" plain_services]
  by (simp add: exportable_def room_temperature_def Object_new_def Object_create_def)

section \<open>What an import establishes\<close>

definition read_gad_ok :: "Object \<Rightarrow> bool" where
  "read_gad_ok obj \<longleftrightarrow> readRequestGad_m obj \<in> insert (gad_m obj) (set (listenerGadList_m obj))"

lemma import_children_read_gad:
  assumes "import_children d l cs obj = (effs, None, obj')" and "read_gad_ok obj"
    and "\<not> l \<Longrightarrow> readRequestGad_m obj = gad_m obj"
  shows "read_gad_ok obj'"
  using assms
proof (induction d l cs obj rule: import_children.induct)
  case (3 d l t as ns cs obj)
  show ?case
  proof (cases "t = ''listener''")
    case True
    let ?o = "if l then obj else obj\<lparr>listenerGadList_m := []\<rparr>"
    obtain a where a: "ReadGroupAddr (GetAttribute (Element t as ns) ''gad'') = Inr a"
      using "3.prems"(1) True by (auto simp: Let_def throw_def split: sum.splits)
    have "read_gad_ok ?o" using "3.prems" by (auto simp: read_gad_ok_def)
    then show ?thesis
      using "3.IH"(1) [OF True refl a] "3.prems"(1) True a by (auto simp: read_gad_ok_def Let_def)
  qed (use 3 in auto)
qed (auto simp: finish_def read_gad_ok_def split: if_splits)

text \<open>Partial correctness of a step that may throw, and its rule for sequences of steps.\<close>

definition ensures :: "('s \<Rightarrow> bool) \<Rightarrow> 's outcome \<Rightarrow> bool" where
  "ensures P r \<longleftrightarrow> (\<forall>effs s. r = (effs, None, s) \<longrightarrow> P s)"

lemma ensures_finish [simp]: "ensures P (finish s) \<longleftrightarrow> P s"
  by (simp add: ensures_def finish_def)

lemma ensures_throw [simp]: "ensures P (throw e s)"
  by (simp add: ensures_def throw_def)

lemma ensures_and_then:
  assumes "ensures P r" and "\<And>s. P s \<Longrightarrow> ensures Q (f s)"
  shows "ensures Q (and_then r f)"
proof (cases r)
  case (fields effs e s)
  show ?thesis
  proof (cases e)
    case None
    then have "ensures Q (f s)" using assms fields by (auto simp: ensures_def)
    then show ?thesis using fields None by (cases "f s") (auto simp: ensures_def)
  qed (simp add: fields ensures_def)
qed

lemma ensures_True [simp]: "ensures (\<lambda>_. True) r"
  by (simp add: ensures_def)

lemma ensures_frame: "P (snd (snd r)) \<Longrightarrow> ensures P r"
  by (auto simp: ensures_def)

definition addresses :: "Object \<Rightarrow> eibaddr_t \<times> eibaddr_t \<times> eibaddr_t list" where
  "addresses obj = (gad_m obj, readRequestGad_m obj, listenerGadList_m obj)"

lemma read_gad_ok_frame: "read_gad_ok s \<Longrightarrow> addresses a = addresses s \<Longrightarrow> read_gad_ok a"
  by (simp add: addresses_def read_gad_ok_def)

lemma outcome_simps [simp]:
  "fst (finish s) = []" "fst (snd (finish s)) = None" "snd (snd (finish s)) = s"
  "fst (throw e s) = []" "fst (snd (throw e s)) = Some e" "snd (snd (throw e s)) = s"
  by (simp_all add: finish_def throw_def)

lemma late_steps_addresses [simp]:
  "addresses (snd (snd (import_flags cfg obj))) = addresses obj"
  "addresses (snd (snd (import_log cfg obj))) = addresses obj"
  "addresses (snd (snd (import_precision cfg obj))) = addresses obj"
  by (simp_all add: addresses_def import_flags_def import_log_def import_precision_def Let_def
      split: sum.splits)

lemma set_text_frame: "addresses (snd (snd (set_text sv s obj))) = addresses obj" "fst (set_text sv s obj) = []"
  by (simp_all add: addresses_def set_text_def split: sum.splits)

lemma import_init_addresses [simp]: "addresses (snd (snd (import_init sv cfg obj))) = addresses obj"
proof -
  have s: "addresses (snd (snd (and_then (set_text sv s o1) (\<lambda>obj. finish (obj\<lparr>persist_m := True\<rparr>))))) = addresses o1"
    for s o1
    using set_text_frame(1) [of sv s o1]
    by (cases "set_text sv s o1"; cases "fst (snd (set_text sv s o1))") (auto simp: addresses_def)
  show ?thesis
    by (auto simp: import_init_def Let_def set_text_frame s split: option.splits)
      (simp_all add: addresses_def)
qed

lemma import_gad_read_gad: "ensures (\<lambda>obj. readRequestGad_m obj = gad_m obj) (import_gad cfg obj)"
  by (auto simp: import_gad_def Let_def split: sum.splits)

lemma import_read_gad_ok: "ensures read_gad_ok (Object_importXml sv junk cfg obj)"
  unfolding Object_importXml_def foldl.simps
proof (rule ensures_and_then, rule ensures_and_then, rule ensures_and_then, rule ensures_and_then,
    rule ensures_and_then, rule ensures_and_then)
  show "ensures (\<lambda>_. True) (and_then (and_then (finish obj) (import_type junk cfg)) (import_id cfg))" by simp
  show "ensures (\<lambda>obj. readRequestGad_m obj = gad_m obj) (import_gad cfg s)" for s
    by (rule import_gad_read_gad)
  show "ensures read_gad_ok (import_children False False (children cfg) s)"
    if "readRequestGad_m s = gad_m s" for s
    using that import_children_read_gad [of False False "children cfg" s]
    by (auto simp: ensures_def read_gad_ok_def)
  show "ensures read_gad_ok (import_flags cfg s)" "ensures read_gad_ok (import_log cfg s)"
    "ensures read_gad_ok (import_precision cfg s)" "ensures read_gad_ok (import_init sv cfg s)"
    if "read_gad_ok s" for s
    using that by (auto intro!: ensures_frame intro: read_gad_ok_frame)
qed

text \<open>
  After any import that succeeds, into a new or an existing object, the address the object reads from is
  its own group address or one of its listening addresses.
\<close>

theorem import_read_address:
  assumes "Object_importXml sv junk cfg obj = (effs, None, obj')"
  shows "readRequestGad_m obj' \<in> insert (gad_m obj') (set (listenerGadList_m obj'))"
  using import_read_gad_ok [of sv junk cfg obj] assms by (simp add: ensures_def read_gad_ok_def)

theorem import_read_address_witness:
  "readRequestGad_m room_temperature \<in> insert (gad_m room_temperature) (set (listenerGadList_m room_temperature))"
proof (rule import_read_address)
  show "Object_importXml plain_services 0
      (Element ''object'' [(''type'', ''9.001''), (''id'', ''temp''), (''gad'', ''1/1/1'')] [])
      (Object_new 0 (new_float (Dpt9 1))) = ([], None, room_temperature)"
  proof -
    have "ReadGroupAddr ''1/1/1'' = Inr 0x0901"
      using read_written_group_addr [of "0x0901"] by (simp add: WriteGroupAddr_def)
    then show ?thesis
      by (simp add: Object_importXml_def import_type_def import_id_def import_gad_def import_flags_def
          import_log_def import_precision_def import_init_def GetAttribute_def GetAttributeOrDefault_def
          attribute_def ov_type_defs room_temperature_def Object_new_def Let_def)
        (simp add: finish_def)
  qed
qed

end
