(* ===== verification/ObjectController.thy ===== *)
theory ObjectController
  imports Object_Laws
begin

text \<open>
  The class \<open>ObjectController\<close> of src/objectcontroller.h and .cpp: the objects by ID, the objects by the
  group addresses they listen to, and the dispatch of telegrams.  Objects are shared by pointer with the
  rules; the model keeps a heap, in which a pointer that was deleted is free again.
\<close>

section \<open>The containers\<close>

text \<open>
  \<open>std::multimap\<close> with the operations the code uses: the entries of one key keep the order in which
  they were inserted.
\<close>

type_synonym ptr = nat
type_synonym address_map = "(eibaddr_t \<times> ptr) list"

definition mm_insert :: "eibaddr_t \<Rightarrow> ptr \<Rightarrow> address_map \<Rightarrow> address_map" where
  "mm_insert a p m = m @ [(a, p)]"

definition mm_range :: "eibaddr_t \<Rightarrow> address_map \<Rightarrow> ptr list" where
  "mm_range a m = map snd (filter (\<lambda>e. fst e = a) m)"

definition mm_erase :: "eibaddr_t \<Rightarrow> ptr \<Rightarrow> address_map \<Rightarrow> address_map" where
  "mm_erase a p m = filter (\<lambda>e. e \<noteq> (a, p)) m"

text \<open>What the controller relies on.\<close>

locale multimap =
  fixes insert :: "'k \<Rightarrow> 'p \<Rightarrow> 'm \<Rightarrow> 'm" and range :: "'k \<Rightarrow> 'm \<Rightarrow> 'p list"
    and erase :: "'k \<Rightarrow> 'p \<Rightarrow> 'm \<Rightarrow> 'm"
  assumes range_insert: "range b (insert a p m) = range b m @ (if a = b then [p] else [])"
    and range_erase: "range b (erase a p m) = (if a = b then filter (\<lambda>q. q \<noteq> p) (range b m) else range b m)"
begin

definition insert_all :: "'k list \<Rightarrow> 'p \<Rightarrow> 'm \<Rightarrow> 'm" where
  "insert_all as p m = foldl (\<lambda>m a. insert a p m) m as"

definition erase_all :: "'k list \<Rightarrow> 'p \<Rightarrow> 'm \<Rightarrow> 'm" where
  "erase_all as p m = foldl (\<lambda>m a. erase a p m) m as"

lemma range_insert_all: "range b (insert_all as p m) = range b m @ replicate (count_list as b) p"
proof (induction as arbitrary: m)
  case (Cons a as)
  then show ?case
    using range_insert [of b a p m] by (auto simp: insert_all_def replicate_app_Cons_same)
qed (simp add: insert_all_def)

lemma range_erase_all:
  "range b (erase_all as p m) = (if b \<in> set as then filter (\<lambda>q. q \<noteq> p) (range b m) else range b m)"
  by (induction as arbitrary: m) (auto simp: erase_all_def range_erase)

text \<open>Erasing at every address at which it is listed removes a pointer from the map.\<close>

lemma erase_all_removes:
  assumes "\<And>b. p \<in> set (range b m) \<Longrightarrow> b \<in> set as"
  shows "p \<notin> set (range b (erase_all as p m))"
  using assms [of b] by (auto simp: range_erase_all)

lemma erase_all_other: "q \<noteq> p \<Longrightarrow> q \<in> set (range b (erase_all as p m)) \<longleftrightarrow> q \<in> set (range b m)"
  by (auto simp: range_erase_all)

lemma in_insert_all: "q \<in> set (range b (insert_all as p m)) \<longleftrightarrow> q \<in> set (range b m) \<or> (q = p \<and> b \<in> set as)"
  by (auto simp: range_insert_all count_list_0_iff)

end

interpretation mm: multimap mm_insert mm_range mm_erase
proof unfold_locales
  fix b a p m
  show "mm_range b (mm_insert a p m) = mm_range b m @ (if a = b then [p] else [])"
    by (simp add: mm_range_def mm_insert_def)
  show "mm_range b (mm_erase a p m) =
      (if a = b then filter (\<lambda>q. q \<noteq> p) (mm_range b m) else mm_range b m)"
    by (induction m) (auto simp: mm_range_def mm_erase_def)
qed

text \<open>\<open>std::map\<close> from IDs to objects, in the order of the IDs.  \<open>insert\<close> does not replace an entry.\<close>

type_synonym id_map = "(string \<times> ptr) list"

fun idm_insert :: "string \<Rightarrow> ptr \<Rightarrow> id_map \<Rightarrow> id_map" where
  "idm_insert k p [] = [(k, p)]"
| "idm_insert k p ((k', p') # m) =
     (if k = k' then (k', p') # m
      else if k < k' then (k, p) # (k', p') # m
      else (k', p') # idm_insert k p m)"

definition idm_erase :: "string \<Rightarrow> id_map \<Rightarrow> id_map" where
  "idm_erase k m = filter (\<lambda>e. fst e \<noteq> k) m"

section \<open>The controller\<close>

record ObjectController =
  heap :: "ptr \<Rightarrow> Object option"
  next_ptr :: ptr
  objectMap_m :: address_map
  objectIdMap_m :: id_map

definition ObjectController_new :: ObjectController where
  "ObjectController_new = \<lparr>heap = (\<lambda>_. None), next_ptr = 0, objectMap_m = [], objectIdMap_m = []\<rparr>"

definition update_object :: "ptr \<Rightarrow> Object \<Rightarrow> ObjectController \<Rightarrow> ObjectController" where
  "update_object p obj oc = oc\<lparr>heap := (heap oc)(p \<mapsto> obj)\<rparr>"

definition delete_object :: "ptr \<Rightarrow> ObjectController \<Rightarrow> ObjectController" where
  "delete_object p oc = oc\<lparr>heap := (heap oc)(p := None)\<rparr>"

text \<open>Calling an object: a deleted one is a dangling pointer.\<close>

definition call_object :: "ptr \<Rightarrow> (Object \<Rightarrow> Object outcome) \<Rightarrow> ObjectController \<Rightarrow> ObjectController outcome" where
  "call_object p f oc =
     (case heap oc p of
        None \<Rightarrow> throw Null_deref oc
      | Some obj \<Rightarrow> (case f obj of (effs, e, obj') \<Rightarrow> (effs, e, update_object p obj' oc)))"

fun call_all :: "ptr list \<Rightarrow> (Object \<Rightarrow> Object outcome) \<Rightarrow> ObjectController \<Rightarrow> ObjectController outcome" where
  "call_all [] f oc = finish oc"
| "call_all (p # ps) f oc = and_then (call_object p f oc) (call_all ps f)"

definition ObjectController_onWrite ::
    "services \<Rightarrow> eibaddr_t \<Rightarrow> eibaddr_t \<Rightarrow> buffer \<Rightarrow> nat \<Rightarrow> ObjectController \<Rightarrow> ObjectController outcome" where
  "ObjectController_onWrite sv src dest buf len oc =
     call_all (mm_range dest (objectMap_m oc)) (onWrite sv buf len src) oc"

definition ObjectController_onRead ::
    "services \<Rightarrow> arrival list \<Rightarrow> eibaddr_t \<Rightarrow> ObjectController \<Rightarrow> ObjectController outcome" where
  "ObjectController_onRead sv arrivals dest oc =
     call_all (mm_range dest (objectMap_m oc)) (onRead sv arrivals) oc"

definition ObjectController_onResponse ::
    "services \<Rightarrow> eibaddr_t \<Rightarrow> eibaddr_t \<Rightarrow> buffer \<Rightarrow> nat \<Rightarrow> ObjectController \<Rightarrow> ObjectController outcome" where
  "ObjectController_onResponse sv src dest buf len oc =
     call_all (mm_range dest (objectMap_m oc)) (onResponse sv buf len src) oc"

definition incRefCount :: "Object \<Rightarrow> Object" where
  "incRefCount obj = obj\<lparr>refCount_m := refCount_m obj + 1\<rparr>"

definition inUse :: "Object \<Rightarrow> bool" where
  "inUse obj \<longleftrightarrow> refCount_m obj > 0"

text \<open>\<open>decRefCount\<close> ends the program when the count is already 0.\<close>

definition decRefCount :: "Object \<Rightarrow> Object option" where
  "decRefCount obj = (if refCount_m obj < 1 then None else Some (obj\<lparr>refCount_m := refCount_m obj - 1\<rparr>))"

definition getObject :: "string \<Rightarrow> ObjectController \<Rightarrow> ObjectController outcome \<times> ptr option" where
  "getObject oid oc =
     (case map_of (objectIdMap_m oc) oid of
        None \<Rightarrow> (throw (Not_found oid) oc, None)
      | Some p \<Rightarrow> (call_object p (\<lambda>obj. finish (incRefCount obj)) oc, Some p))"

text \<open>The addresses under which an object is entered.\<close>

definition entered_addresses :: "Object \<Rightarrow> eibaddr_t list" where
  "entered_addresses obj = (if gad_m obj \<noteq> 0 then [gad_m obj] else []) @ listenerGadList_m obj"

definition enter_object :: "ptr \<Rightarrow> Object \<Rightarrow> ObjectController \<Rightarrow> ObjectController" where
  "enter_object p obj oc =
     oc\<lparr>objectMap_m := foldl (\<lambda>m a. mm_insert a p m) (objectMap_m oc) (entered_addresses obj)\<rparr>"

definition addObject :: "ptr \<Rightarrow> ObjectController \<Rightarrow> ObjectController outcome" where
  "addObject p oc =
     (case heap oc p of
        None \<Rightarrow> throw Null_deref oc
      | Some obj \<Rightarrow>
          if map_of (objectIdMap_m oc) (id_m obj) \<noteq> None then throw Duplicate_id oc
          else finish (enter_object p obj (oc\<lparr>objectIdMap_m := idm_insert (id_m obj) p (objectIdMap_m oc)\<rparr>)))"

definition removeObjectFromAddressMap :: "eibaddr_t \<Rightarrow> ptr \<Rightarrow> address_map \<Rightarrow> address_map" where
  "removeObjectFromAddressMap gad p m = (if gad = 0 then m else mm_erase gad p m)"

definition leave_object :: "ptr \<Rightarrow> Object \<Rightarrow> ObjectController \<Rightarrow> ObjectController" where
  "leave_object p obj oc =
     oc\<lparr>objectMap_m := foldl (\<lambda>m a. removeObjectFromAddressMap a p m) (objectMap_m oc)
          (gad_m obj # listenerGadList_m obj)\<rparr>"

text \<open>
  \<open>removeObject\<close> looks the object up by its ID; the object found has the address that is removed, the
  object passed the listening addresses.
\<close>

definition removeObject :: "ptr \<Rightarrow> ObjectController \<Rightarrow> ObjectController outcome" where
  "removeObject p oc =
     (case heap oc p of
        None \<Rightarrow> throw Null_deref oc
      | Some obj \<Rightarrow>
     (case map_of (objectIdMap_m oc) (id_m obj) of
        None \<Rightarrow> finish oc
      | Some q \<Rightarrow>
     (case heap oc q of
        None \<Rightarrow> throw Null_deref oc
      | Some found \<Rightarrow>
          (let oc' = leave_object p (obj\<lparr>gad_m := gad_m found\<rparr>) oc in
           if inUse found then throw In_use oc'
           else finish (delete_object q (oc'\<lparr>objectIdMap_m := idm_erase (id_m obj) (objectIdMap_m oc')\<rparr>))))))"

section \<open>Configuration\<close>

text \<open>One \<open>object\<close> element of \<open>ObjectController::importXml\<close>.\<close>

definition import_object :: "services \<Rightarrow> u64 \<Rightarrow> xml \<Rightarrow> ObjectController \<Rightarrow> ObjectController outcome" where
  "import_object sv junk cfg oc =
     (let oid = GetAttribute cfg ''id''; del = (GetAttribute cfg ''delete'' = ''true'') in
      case map_of (objectIdMap_m oc) oid of
        Some p \<Rightarrow>
          (case heap oc p of
             None \<Rightarrow> throw Null_deref oc
           | Some obj \<Rightarrow>
               (let oc' = leave_object p obj oc in
                if del then
                  (if inUse obj then throw In_use oc'
                   else finish (delete_object p (oc'\<lparr>objectIdMap_m := idm_erase oid (objectIdMap_m oc')\<rparr>)))
                else
                  (case Object_importXml sv junk cfg obj of
                     (effs, Some e, obj') \<Rightarrow> (effs, Some e, update_object p obj' oc')
                   | (effs, None, obj') \<Rightarrow> (effs, None, enter_object p obj' (update_object p obj' oc')))))
      | None \<Rightarrow>
          if del then throw (Not_found oid) oc
          else
            (case Object_create_xml sv junk cfg of
               None \<Rightarrow> throw (Bad_type (GetAttribute cfg ''type'')) oc
             | Some (effs, Some e, obj) \<Rightarrow> (effs, Some e, oc)
             | Some (effs, None, obj) \<Rightarrow>
                 (let p = next_ptr oc; oc' = update_object p obj (oc\<lparr>next_ptr := p + 1\<rparr>) in
                  (effs, None,
                   (enter_object p obj oc')\<lparr>objectIdMap_m := idm_insert oid p (objectIdMap_m oc')\<rparr>))))"

fun import_objects :: "services \<Rightarrow> u64 \<Rightarrow> xml list \<Rightarrow> ObjectController \<Rightarrow> ObjectController outcome" where
  "import_objects sv junk [] oc = finish oc"
| "import_objects sv junk (cfg # cfgs) oc = and_then (import_object sv junk cfg oc) (import_objects sv junk cfgs)"

definition ObjectController_importXml ::
    "services \<Rightarrow> u64 \<Rightarrow> xml \<Rightarrow> ObjectController \<Rightarrow> ObjectController outcome" where
  "ObjectController_importXml sv junk cfg oc = import_objects sv junk (elements ''object'' cfg) oc"

text \<open>The two exports; \<open>None\<close> is the dereference of a dangling pointer.\<close>

fun export_objects :: "(ptr \<Rightarrow> Object option) \<Rightarrow> id_map \<Rightarrow> xml \<Rightarrow> xml option" where
  "export_objects h [] e = Some e"
| "export_objects h ((oid, p) # m) e =
     (case h p of
        None \<Rightarrow> None
      | Some obj \<Rightarrow> export_objects h m (LinkEndChild (Object_exportXml obj (Element ''object'' [] [])) e))"

definition ObjectController_exportXml :: "ObjectController \<Rightarrow> xml \<Rightarrow> xml option" where
  "ObjectController_exportXml oc e = export_objects (heap oc) (objectIdMap_m oc) e"

text \<open>Exporting the values asks every object for its value, which may read the bus.\<close>

fun export_values ::
    "services \<Rightarrow> (ptr \<Rightarrow> arrival list) \<Rightarrow> id_map \<Rightarrow> xml \<Rightarrow> ObjectController \<Rightarrow> ObjectController outcome \<times> xml" where
  "export_values sv arrivals [] e oc = (finish oc, e)"
| "export_values sv arrivals ((oid, p) # m) e oc =
     (case heap oc p of
        None \<Rightarrow> (throw Null_deref oc, e)
      | Some obj \<Rightarrow>
          (case getValue sv (arrivals p) obj of
             ((effs, Some exn, obj'), v) \<Rightarrow> ((effs, Some exn, update_object p obj' oc), e)
           | ((effs, None, obj'), v) \<Rightarrow>
               (let child = SetAttribute ''value'' v
                      (SetAttribute ''id'' (id_m obj) (Element ''object'' [] []));
                    (r, e') = export_values sv arrivals m (LinkEndChild child e) (update_object p obj' oc)
                in (and_then (effs, None, oc) (\<lambda>_. r), e'))))"

definition exportObjectValues ::
    "services \<Rightarrow> (ptr \<Rightarrow> arrival list) \<Rightarrow> xml \<Rightarrow> ObjectController \<Rightarrow> ObjectController outcome \<times> xml" where
  "exportObjectValues sv arrivals e oc = export_values sv arrivals (objectIdMap_m oc) e oc"

text \<open>\<open>getObjects\<close>: a reference to every object, in the order of their IDs.\<close>

definition getObjects :: "ObjectController \<Rightarrow> ObjectController outcome \<times> ptr list" where
  "getObjects oc =
     (let ps = map snd (objectIdMap_m oc) in (call_all ps (\<lambda>obj. finish (incRefCount obj)) oc, ps))"

end
