(* ===== verification/Controller_Laws.thy ===== *)
theory Controller_Laws
  imports ObjectController
begin

text \<open>
  The registry of objects (theory \<open>ObjectController\<close>): the invariant that ties the address map to the
  objects, which every operation keeps, and what it gives: a telegram reaches exactly the objects
  that listen to its destination.  Group address 0 is outside the invariant, because the code
  enters a listener at address 0 and never removes it; the last section shows what follows.
\<close>

section \<open>The registry invariant\<close>

definition registered :: "ObjectController \<Rightarrow> ptr \<Rightarrow> Object \<Rightarrow> bool" where
  "registered oc p obj \<longleftrightarrow> p \<in> snd ` set (objectIdMap_m oc) \<and> heap oc p = Some obj"

definition subscriptions :: "ObjectController \<Rightarrow> eibaddr_t \<Rightarrow> ptr \<Rightarrow> nat" where
  "subscriptions oc a p = count_list (mm_range a (objectMap_m oc)) p"

definition attached :: "ObjectController \<Rightarrow> ptr \<Rightarrow> Object \<Rightarrow> bool" where
  "attached oc p obj \<longleftrightarrow> (\<forall>a. a \<noteq> 0 \<longrightarrow> subscriptions oc a p = count_list (entered_addresses obj) a)"

definition detached :: "ObjectController \<Rightarrow> ptr \<Rightarrow> bool" where
  "detached oc p \<longleftrightarrow> (\<forall>a. a \<noteq> 0 \<longrightarrow> subscriptions oc a p = 0)"

definition well_named :: "ObjectController \<Rightarrow> bool" where
  "well_named oc \<longleftrightarrow>
     sorted_wrt (<) (map fst (objectIdMap_m oc))
     \<and> (\<forall>k p. (k, p) \<in> set (objectIdMap_m oc) \<longrightarrow> (\<exists>obj. heap oc p = Some obj \<and> id_m obj = k))
     \<and> (\<forall>p. heap oc p \<noteq> None \<longrightarrow> p < next_ptr oc)"

definition safe :: "ObjectController \<Rightarrow> bool" where
  "safe oc \<longleftrightarrow> well_named oc
     \<and> (\<forall>p. p \<notin> snd ` set (objectIdMap_m oc) \<longrightarrow> detached oc p)
     \<and> (\<forall>p obj. registered oc p obj \<longrightarrow> attached oc p obj \<or> detached oc p)"

definition consistent :: "ObjectController \<Rightarrow> bool" where
  "consistent oc \<longleftrightarrow> safe oc \<and> (\<forall>p obj. registered oc p obj \<longrightarrow> attached oc p obj)"

section \<open>The ID map\<close>

lemma idm_insert_set: "k \<notin> fst ` set m \<Longrightarrow> set (idm_insert k p m) = insert (k, p) (set m)"
  by (induction k p m rule: idm_insert.induct) auto

lemma idm_insert_sorted:
  "sorted_wrt (<) (map fst m) \<Longrightarrow> k \<notin> fst ` set m \<Longrightarrow> sorted_wrt (<) (map fst (idm_insert k p m))"
  for k :: string
proof (induction k p m rule: idm_insert.induct)
  case (2 k p k' p' m)
  then show ?case by (force simp: idm_insert_set)
qed simp

lemma idm_erase_simps [simp]:
  "set (idm_erase k m) = {e \<in> set m. fst e \<noteq> k}"
  "sorted_wrt (<) (map fst m) \<Longrightarrow> sorted_wrt (<) (map fst (idm_erase k m))"
  by (auto simp: idm_erase_def sorted_wrt_map sorted_wrt_filter)

lemma sorted_fst_distinct: "sorted_wrt (<) (map fst m) \<Longrightarrow> distinct (map fst m)"
  for m :: "(string \<times> 'a) list"
  by (simp add: strict_sorted_iff)

lemma map_of_id:
  assumes "well_named oc"
  shows "map_of (objectIdMap_m oc) k = Some p \<longleftrightarrow> (k, p) \<in> set (objectIdMap_m oc)"
  using map_of_eq_Some_iff [OF sorted_fst_distinct [of "objectIdMap_m oc"]] assms
  by (simp add: well_named_def)

lemma well_named_name: "well_named oc \<Longrightarrow> (k, p) \<in> set (objectIdMap_m oc) \<Longrightarrow> heap oc p = Some obj \<Longrightarrow> id_m obj = k"
  by (fastforce simp: well_named_def)

lemma registered_iff:
  "well_named oc \<Longrightarrow> registered oc p obj \<longleftrightarrow> (id_m obj, p) \<in> set (objectIdMap_m oc) \<and> heap oc p = Some obj"
  by (force simp: registered_def well_named_def)

lemma registered_lookup:
  "well_named oc \<Longrightarrow> registered oc p obj \<Longrightarrow> map_of (objectIdMap_m oc) (id_m obj) = Some p"
  by (simp add: registered_iff map_of_id)

section \<open>The address map\<close>

lemma entering: "foldl (\<lambda>m a. mm_insert a p m) m as = mm.insert_all as p m"
  by (simp add: mm.insert_all_def)

lemma leaving: "foldl (\<lambda>m a. removeObjectFromAddressMap a p m) m as = mm.erase_all (filter (\<lambda>a. a \<noteq> 0) as) p m"
  by (induction as arbitrary: m) (auto simp: mm.erase_all_def removeObjectFromAddressMap_def)

lemma count_list_replicate: "count_list (replicate n q) p = (if p = q then n else 0)"
  by (induction n) auto

lemma count_list_filter_neq: "count_list (filter (\<lambda>q. q \<noteq> r) xs) p = (if p = r then 0 else count_list xs p)"
  by (induction xs) auto

lemma enter_object_simps [simp]:
  "heap (enter_object p obj oc) = heap oc" "next_ptr (enter_object p obj oc) = next_ptr oc"
  "objectIdMap_m (enter_object p obj oc) = objectIdMap_m oc"
  by (simp_all add: enter_object_def)

lemma leave_object_simps [simp]:
  "heap (leave_object p obj oc) = heap oc" "next_ptr (leave_object p obj oc) = next_ptr oc"
  "objectIdMap_m (leave_object p obj oc) = objectIdMap_m oc"
  by (simp_all add: leave_object_def)

lemma update_object_simps [simp]:
  "heap (update_object p obj oc) = (heap oc)(p \<mapsto> obj)" "next_ptr (update_object p obj oc) = next_ptr oc"
  "objectIdMap_m (update_object p obj oc) = objectIdMap_m oc" "objectMap_m (update_object p obj oc) = objectMap_m oc"
  by (simp_all add: update_object_def)

lemma delete_object_simps [simp]:
  "heap (delete_object p oc) = (heap oc)(p := None)" "next_ptr (delete_object p oc) = next_ptr oc"
  "objectIdMap_m (delete_object p oc) = objectIdMap_m oc" "objectMap_m (delete_object p oc) = objectMap_m oc"
  by (simp_all add: delete_object_def)

lemma subscriptions_frame: "objectMap_m oc' = objectMap_m oc \<Longrightarrow> subscriptions oc' = subscriptions oc"
  by (simp add: subscriptions_def fun_eq_iff)

lemma subscriptions_enter:
  "subscriptions (enter_object p obj oc) a q =
     subscriptions oc a q + (if q = p then count_list (entered_addresses obj) a else 0)"
  by (simp add: subscriptions_def enter_object_def entering mm.range_insert_all count_list_replicate)

lemma entered_iff: "a \<noteq> 0 \<Longrightarrow> a \<in> set (entered_addresses obj) \<longleftrightarrow> a = gad_m obj \<or> a \<in> set (listenerGadList_m obj)"
  by (auto simp: entered_addresses_def)

lemma subscriptions_leave:
  "a \<noteq> 0 \<Longrightarrow> subscriptions (leave_object p obj oc) a q =
     (if q = p \<and> a \<in> set (entered_addresses obj) then 0 else subscriptions oc a q)"
  by (auto simp: subscriptions_def leave_object_def leaving mm.range_erase_all count_list_filter_neq
      entered_iff simp del: foldl_Cons)

lemma leave_detaches:
  assumes "attached oc p obj \<or> detached oc p"
  shows "detached (leave_object p obj oc) p"
  using assms by (auto simp: detached_def attached_def subscriptions_leave)

lemma leave_other: "q \<noteq> p \<Longrightarrow> a \<noteq> 0 \<Longrightarrow> subscriptions (leave_object p obj oc) a q = subscriptions oc a q"
  by (simp add: subscriptions_leave)

lemma enter_attaches: "detached oc p \<Longrightarrow> attached (enter_object p obj oc) p obj"
  by (simp add: detached_def attached_def subscriptions_enter)

lemma enter_other: "q \<noteq> p \<Longrightarrow> subscriptions (enter_object p obj oc) a q = subscriptions oc a q"
  by (simp add: subscriptions_enter)

text \<open>
  An operation on the entries of one object keeps the invariant if it leaves that object attached
  or detached.
\<close>

definition only_at :: "ptr \<Rightarrow> ObjectController \<Rightarrow> ObjectController \<Rightarrow> bool" where
  "only_at p oc oc' \<longleftrightarrow>
     (\<forall>q. q \<noteq> p \<longrightarrow> heap oc' q = heap oc q \<and> (q \<in> snd ` set (objectIdMap_m oc') \<longleftrightarrow> q \<in> snd ` set (objectIdMap_m oc))
        \<and> (\<forall>a. a \<noteq> 0 \<longrightarrow> subscriptions oc' a q = subscriptions oc a q))"

lemma safe_only_at:
  assumes "safe oc" and "only_at p oc oc'" and "well_named oc'"
    and "p \<notin> snd ` set (objectIdMap_m oc') \<Longrightarrow> detached oc' p"
    and "\<And>obj. registered oc' p obj \<Longrightarrow> attached oc' p obj \<or> detached oc' p"
  shows "safe oc'"
proof -
  have "detached oc' q" if "q \<notin> snd ` set (objectIdMap_m oc')" for q
    using assms that by (cases "q = p") (auto simp: safe_def only_at_def detached_def)
  moreover have "attached oc' q obj \<or> detached oc' q" if "registered oc' q obj" for q obj
  proof (cases "q = p")
    case False
    then have "registered oc q obj" using assms(2) that by (simp add: only_at_def registered_def)
    then have "attached oc q obj \<or> detached oc q" using assms(1) by (simp add: safe_def)
    then show ?thesis using assms(2) False by (simp add: only_at_def attached_def detached_def)
  qed (use assms that in simp)
  ultimately show ?thesis using assms(3) by (simp add: safe_def)
qed

lemma consistent_only_at:
  assumes "consistent oc" and "only_at p oc oc'" and "well_named oc'"
    and "p \<notin> snd ` set (objectIdMap_m oc') \<Longrightarrow> detached oc' p"
    and "\<And>obj. registered oc' p obj \<Longrightarrow> attached oc' p obj"
  shows "consistent oc'"
proof -
  have "attached oc' q obj" if "registered oc' q obj" for q obj
  proof (cases "q = p")
    case False
    then have "registered oc q obj" using assms(2) that by (simp add: only_at_def registered_def)
    then have "attached oc q obj" using assms(1) by (simp add: consistent_def)
    then show ?thesis using assms(2) False by (simp add: only_at_def attached_def)
  qed (use assms that in simp)
  then show ?thesis
    using safe_only_at [of oc p oc'] assms by (auto simp: consistent_def)
qed

section \<open>What the operations of an object leave alone\<close>

definition name_and_uses :: "Object \<Rightarrow> string \<times> int" where
  "name_and_uses obj = (id_m obj, refCount_m obj)"

definition bus_view :: "Object \<Rightarrow> string \<times> int \<times> eibaddr_t \<times> eibaddr_t list" where
  "bus_view obj = (id_m obj, refCount_m obj, gad_m obj, listenerGadList_m obj)"

lemma bus_view_entered: "bus_view a = bus_view b \<Longrightarrow> entered_addresses a = entered_addresses b \<and> id_m a = id_m b"
  by (simp add: bus_view_def entered_addresses_def)

text \<open>\<open>keeps f r s\<close>: whether it throws or not, the operation leaves \<open>f\<close> of the state as it was.\<close>

definition keeps :: "('s \<Rightarrow> 'a) \<Rightarrow> 's outcome \<Rightarrow> 's \<Rightarrow> bool" where
  "keeps f r s \<longleftrightarrow> f (snd (snd r)) = f s"

lemma keeps_and_then:
  assumes "keeps f r s" and "\<And>s'. f s' = f s \<Longrightarrow> keeps f (g s') s"
  shows "keeps f (and_then r g) s"
proof -
  obtain effs oe s1 where r: "r = (effs, oe, s1)" by (metis prod.collapse)
  then have s1: "f s1 = f s" using assms(1) by (simp add: keeps_def)
  show ?thesis using assms(2) [OF s1] s1 r
    ""by (cases oe; cases "g s1") (simp_all add: and_then_def keeps_def)
qed

lemma keeps_simps [simp]:
  "keeps f (finish s') s \<longleftrightarrow> f s' = f s" "keeps f (throw e s') s \<longleftrightarrow> f s' = f s"
  "keeps f (effs, oe, s') s \<longleftrightarrow> f s' = f s"
  by (simp_all add: keeps_def finish_def throw_def)

lemma bus_view_updates [simp]:
  "bus_view (obj\<lparr>obj_value := v\<rparr>) = bus_view obj" "bus_view (obj\<lparr>init_m := b\<rparr>) = bus_view obj"
  "bus_view (obj\<lparr>readPending_m := b\<rparr>) = bus_view obj" "bus_view (obj\<lparr>lastTx_m := a\<rparr>) = bus_view obj"
  by (simp_all add: bus_view_def)

lemma bus_view_onUpdate [simp]: "bus_view (snd (snd (onUpdate sv obj))) = bus_view obj"
  by simp

lemma bus_view_doWrite [simp]: "bus_view (snd (snd (doWrite sv buf len obj))) = bus_view obj"
  by (simp add: doWrite_def throw_def finish_def Let_def split: sum.split prod.split)

lemma bus_view_onWrite [simp]: "bus_view (snd (snd (onWrite sv buf len src obj))) = bus_view obj"
  by (simp add: onWrite_def finish_def)

lemma bus_view_onResponse [simp]: "bus_view (snd (snd (onResponse sv buf len src obj))) = bus_view obj"
  by (simp add: onResponse_def finish_def)

lemma keeps_bus_view: "bus_view s = v \<Longrightarrow> bus_view (snd (snd r)) = v \<Longrightarrow> keeps bus_view r s"
  by (simp add: keeps_def)

lemma keeps_wait_response: "keeps bus_view (wait_response sv as obj) obj"
proof (induction sv as obj rule: wait_response.induct)
  case (2 sv response buf len src as obj)
  show ?case
  proof (cases "readPending_m obj")
    case True
    have "keeps bus_view (and_then ((if response then onResponse else onWrite) sv buf len src obj)
        (wait_response sv as)) obj"
      using 2 True by (intro keeps_and_then) (simp_all add: keeps_def)
    then show ?thesis using True by simp
  qed simp
qed simp

lemma bus_view_wait_response [simp]: "bus_view (snd (snd (wait_response sv as obj))) = bus_view obj"
  using keeps_wait_response by (simp add: keeps_def)

lemma keeps_read: "keeps bus_view (read sv arrivals obj) obj"
proof (cases "con_isVoid sv")
  case False
  have "keeps bus_view (if \<not> readPending_m obj then ([Send (readRequestGad_m obj) [0, 0]], None, obj)
      else finish obj) obj"
    by simp
  then show ?thesis
    using False by (auto simp: read_def keeps_def split del: if_split intro!: keeps_and_then [unfolded keeps_def])
qed (simp add: read_def)

lemma bus_view_doSend [simp]: "bus_view (snd (snd (doSend sv arrivals w obj))) = bus_view obj"
proof -
  have "keeps bus_view (doSend sv arrivals w obj) obj"
    unfolding doSend_def get_def
    by (intro keeps_and_then) (simp_all add: keeps_read send_value_def split: sum.split)
  then show ?thesis by (simp add: keeps_def)
qed

lemma bus_view_onRead [simp]: "bus_view (snd (snd (onRead sv arrivals obj))) = bus_view obj"
  by (simp add: onRead_def finish_def)

text \<open>Importing a configuration may change the addresses, not the number of uses, and only sets a missing ID.\<close>

lemma name_and_uses_updates [simp]:
  "name_and_uses (obj\<lparr>obj_value := v\<rparr>) = name_and_uses obj"
  "name_and_uses (obj\<lparr>persist_m := b\<rparr>) = name_and_uses obj"
  "name_and_uses (obj\<lparr>initValue_m := i\<rparr>) = name_and_uses obj"
  "name_and_uses (obj\<lparr>gad_m := a\<rparr>) = name_and_uses obj"
  "name_and_uses (obj\<lparr>readRequestGad_m := a\<rparr>) = name_and_uses obj"
  "name_and_uses (obj\<lparr>descr_m := i\<rparr>) = name_and_uses obj"
  "name_and_uses (obj\<lparr>listenerGadList_m := as\<rparr>) = name_and_uses obj"
  "name_and_uses (obj\<lparr>writeLog_m := b\<rparr>) = name_and_uses obj"
  "name_and_uses (obj\<lparr>flags_m := fgs\<rparr>) = name_and_uses obj"
  by (simp_all add: name_and_uses_def)

lemma keeps_trans: "keeps f r s' \<Longrightarrow> f s' = f s \<Longrightarrow> keeps f r s"
  by (simp add: keeps_def)

lemma keeps_import_children: "keeps name_and_uses (import_children d l cs obj) obj"
proof (induction d l cs obj rule: import_children.induct)
  case (2 d l s cs obj)
  then show ?case by (simp add: keeps_def)
next
  case (3 d l t as ns cs obj)
  then show ?case by (cases l) (simp_all add: Let_def keeps_def throw_def split: sum.split)
qed simp_all

lemma keeps_set_text: "keeps name_and_uses (set_text sv s obj) obj"
  by (simp add: set_text_def split: sum.split)

lemma keeps_import_init: "keeps name_and_uses (import_init sv cfg obj) obj"
proof -
  have set: "keeps name_and_uses (set_text sv s (obj\<lparr>persist_m := False, initValue_m := i\<rparr>)) obj" for s i
    by (rule keeps_trans [OF keeps_set_text]) simp
  then show ?thesis
    by (simp add: import_init_def Let_def keeps_and_then split: option.split)
qed

lemma keeps_import_rest:
  "keeps name_and_uses (import_type junk cfg obj) obj" "keeps name_and_uses (import_gad cfg obj) obj"
  "keeps name_and_uses (import_flags cfg obj) obj" "keeps name_and_uses (import_log cfg obj) obj"
  "keeps name_and_uses (import_precision cfg obj) obj"
  by (simp_all add: import_type_def import_gad_def import_flags_def import_log_def import_precision_def Let_def
      split: option.split sum.split)

lemma keeps_import_id:
  "ensures (\<lambda>obj'. id_m obj' = (if id_m obj = '''' then GetAttribute cfg ''id'' else id_m obj) \<and>
      refCount_m obj' = refCount_m obj) (import_id cfg obj)"
  "keeps refCount_m (import_id cfg obj) obj" "(id_m obj = '''' \<longrightarrow> GetAttribute cfg ''id'' = '''') \<Longrightarrow> keeps id_m (import_id cfg obj) obj"
  by (auto simp: import_id_def Let_def)

lemma keeps_weaken: "keeps name_and_uses r s \<Longrightarrow> keeps id_m r s \<and> keeps refCount_m r s"
  by (simp add: keeps_def name_and_uses_def)

lemmas keeps_import_steps = keeps_import_rest keeps_import_children keeps_import_init

lemma Object_importXml_keeps:
  "keeps refCount_m (Object_importXml sv junk cfg obj) obj"
  "(id_m obj = '''' \<longrightarrow> GetAttribute cfg ''id'' = '''') \<Longrightarrow> keeps id_m (Object_importXml sv junk cfg obj) obj"
proof -
  show "keeps refCount_m (Object_importXml sv junk cfg obj) obj"
    unfolding Object_importXml_def foldl.simps
    by (intro keeps_and_then)
      (auto intro: keeps_trans [OF keeps_weaken [THEN conjunct2]] keeps_trans [OF keeps_import_id(2)] keeps_import_steps)
  show "keeps id_m (Object_importXml sv junk cfg obj) obj" if "id_m obj = '''' \<longrightarrow> GetAttribute cfg ''id'' = ''''"
    unfolding Object_importXml_def foldl.simps using that
    by (intro keeps_and_then)
      (auto intro: keeps_trans [OF keeps_weaken [THEN conjunct1]] keeps_trans [OF keeps_import_id(3)] keeps_import_steps)
qed

lemma ensures_keeps: "keeps f r s \<Longrightarrow> f s = v \<Longrightarrow> ensures (\<lambda>s. f s = v) r"
  by (rule ensures_frame) (simp add: keeps_def)

lemma Object_importXml_name:
  assumes "id_m obj = ''''"
  shows "ensures (\<lambda>obj'. id_m obj' = GetAttribute cfg ''id'') (Object_importXml sv junk cfg obj)"
proof -
  let ?P = "\<lambda>obj'. id_m obj' = GetAttribute cfg ''id''"
  have step: "ensures ?P (f s)" if "?P s" and "keeps name_and_uses (f s) s" for f :: "Object \<Rightarrow> Object outcome" and s
    using that keeps_weaken by (blast intro: ensures_keeps)
  have 1: "ensures (\<lambda>s. id_m s = '''') (and_then (finish obj) (import_type junk cfg))"
    using assms keeps_weaken [OF keeps_import_rest(1)] by (auto intro: ensures_keeps)
  have 2: "ensures ?P (import_id cfg s)" if "id_m s = ''''" for s
    using keeps_import_id(1) [of s cfg] that by (simp add: ensures_def split: prod.splits)
  have named: "ensures ?P (and_then (and_then (finish obj) (import_type junk cfg)) (import_id cfg))"
    by (rule ensures_and_then [OF 1 2])
  show ?thesis
    unfolding Object_importXml_def foldl.simps
    by (rule named ensures_and_then [where P = ?P] | (rule step, assumption, rule keeps_import_steps))+
qed

section \<open>Every operation keeps the invariant\<close>

text \<open>The state an operation leaves is safe; when it does not throw, it is also consistent.\<close>

definition keeps_registry :: "ObjectController \<Rightarrow> ObjectController outcome \<Rightarrow> bool" where
  "keeps_registry oc r \<longleftrightarrow>
     (safe oc \<longrightarrow> safe (snd (snd r))) \<and> (consistent oc \<longrightarrow> ensures consistent r)"

lemma keeps_registry_finish [simp]: "keeps_registry oc (finish oc)"
  by (simp add: keeps_registry_def finish_def ensures_def)

lemma keeps_registry_throw [simp]: "keeps_registry oc (throw e oc)"
  by (simp add: keeps_registry_def throw_def ensures_def)

lemma keeps_registry_and_then:
  assumes "keeps_registry oc r" and "\<And>oc'. keeps_registry oc' (f oc')"
  shows "keeps_registry oc (and_then r f)"
proof -
  obtain effs oe s where r: "r = (effs, oe, s)" by (metis prod.collapse)
  show ?thesis
    using assms(1) assms(2) [of s] r
    by (cases oe; cases "f s") (auto simp: keeps_registry_def ensures_def)
qed

lemma well_named_update:
  assumes "well_named oc" and "heap oc p = Some obj" and "id_m obj' = id_m obj"
  shows "well_named (update_object p obj' oc)"
  using assms by (fastforce simp: well_named_def)

lemma well_named_enter [simp]: "well_named (enter_object p obj oc) \<longleftrightarrow> well_named oc"
  by (simp add: well_named_def)

lemma well_named_leave [simp]: "well_named (leave_object p obj oc) \<longleftrightarrow> well_named oc"
  by (simp add: well_named_def)

lemma subscriptions_update [simp]: "subscriptions (update_object p obj oc) = subscriptions oc"
  by (rule subscriptions_frame) simp

lemma attached_update [simp]: "attached (update_object p obj oc) = attached oc" "detached (update_object p obj oc) = detached oc"
  by (simp_all add: fun_eq_iff attached_def detached_def)

lemma only_at_update: "only_at p oc oc' \<Longrightarrow> only_at p oc (update_object p obj oc')"
  by (simp add: only_at_def)

lemma only_at_leave: "only_at p oc (leave_object p obj oc)"
  by (simp add: only_at_def leave_other)

lemma only_at_enter: "only_at p oc oc' \<Longrightarrow> only_at p oc (enter_object p obj oc')"
  by (simp add: only_at_def enter_other)

lemma safe_attached: "safe oc \<Longrightarrow> heap oc p = Some obj \<Longrightarrow> attached oc p obj \<or> detached oc p"
  by (auto simp: safe_def registered_def)

text \<open>Leaving an object in the registry without entries, as an operation does that then throws.\<close>

lemma safe_leave: "safe oc \<Longrightarrow> heap oc p = Some obj \<Longrightarrow> safe (leave_object p obj oc)"
  using leave_detaches [OF safe_attached]
  by (intro safe_only_at [OF _ only_at_leave]) (auto simp: safe_def)

lemma leave_is_detached: "safe oc \<Longrightarrow> heap oc p = Some obj \<Longrightarrow> detached (leave_object p obj oc) p"
  by (simp add: leave_detaches safe_attached)

text \<open>Erasing an object.\<close>

definition erase_object :: "ptr \<Rightarrow> Object \<Rightarrow> ObjectController \<Rightarrow> ObjectController" where
  "erase_object p obj oc =
     delete_object p ((leave_object p obj oc)\<lparr>objectIdMap_m := idm_erase (id_m obj) (objectIdMap_m oc)\<rparr>)"

lemma erase_object_simps [simp]:
  "heap (erase_object p obj oc) = (heap oc)(p := None)" "next_ptr (erase_object p obj oc) = next_ptr oc"
  "objectIdMap_m (erase_object p obj oc) = idm_erase (id_m obj) (objectIdMap_m oc)"
  "objectMap_m (erase_object p obj oc) = objectMap_m (leave_object p obj oc)"
  by (simp_all add: erase_object_def)

lemma erase_registered:
  assumes "well_named oc" and "registered oc p obj"
  shows "q \<in> snd ` set (idm_erase (id_m obj) (objectIdMap_m oc)) \<longleftrightarrow> q \<noteq> p \<and> q \<in> snd ` set (objectIdMap_m oc)"
proof -
  have p: "(id_m obj, p) \<in> set (objectIdMap_m oc)" "heap oc p = Some obj"
    using assms registered_iff by blast+
  have "k = id_m obj \<longleftrightarrow> q = p" if "(k, q) \<in> set (objectIdMap_m oc)" for k
  proof
    assume "k = id_m obj"
    then show "q = p" using that p map_of_id [OF assms(1)] by (metis option.inject)
  next
    assume "q = p"
    then show "k = id_m obj" using that p well_named_name [OF assms(1)] by blast
  qed
  then show ?thesis by force
qed

lemma erase_keeps:
  assumes "registered oc p obj"
  shows "safe oc \<Longrightarrow> safe (erase_object p obj oc)" "consistent oc \<Longrightarrow> consistent (erase_object p obj oc)"
proof -
  have main: "only_at p oc (erase_object p obj oc) \<and> well_named (erase_object p obj oc)
      \<and> detached (erase_object p obj oc) p \<and> (\<forall>obj'. \<not> registered (erase_object p obj oc) p obj')"
    if safe: "safe oc"
  proof -
    have wn: "well_named oc" using safe by (simp add: safe_def)
    note ids = erase_registered [OF wn assms]
    have subs: "subscriptions (erase_object p obj oc) = subscriptions (leave_object p obj oc)"
      by (rule subscriptions_frame) simp
    have "only_at p oc (erase_object p obj oc)"
      by (simp add: only_at_def subs leave_other ids del: idm_erase_simps(1))
    moreover have "well_named (erase_object p obj oc)"
    proof -
      have "q \<noteq> p" if "(k, q) \<in> set (objectIdMap_m oc)" "k \<noteq> id_m obj" for k q
        using that ids [of q] by force
      then show ?thesis using wn by (auto simp: well_named_def)
    qed
    moreover have "detached (erase_object p obj oc) p"
      using leave_is_detached [OF safe] assms by (simp add: detached_def subs registered_def)
    ultimately show ?thesis by (simp add: registered_def)
  qed
  show "safe oc \<Longrightarrow> safe (erase_object p obj oc)"
    by (rule safe_only_at [of oc p]) (use main in simp_all)
  show "consistent oc \<Longrightarrow> consistent (erase_object p obj oc)"
    by (rule consistent_only_at [of oc p]) (use main in \<open>simp_all add: consistent_def\<close>)
qed


text \<open>Entering an object that has no entries.\<close>

lemma enter_keeps:
  assumes "only_at p oc oc'" and "well_named oc'" and "detached oc' p" and "heap oc' p = Some obj"
    and "p \<in> snd ` set (objectIdMap_m oc')"
  shows "safe oc \<Longrightarrow> safe (enter_object p obj oc')" "consistent oc \<Longrightarrow> consistent (enter_object p obj oc')"
proof -
  have "attached (enter_object p obj oc') p obj" by (rule enter_attaches) fact
  then show "safe oc \<Longrightarrow> safe (enter_object p obj oc')" "consistent oc \<Longrightarrow> consistent (enter_object p obj oc')"
    using assms only_at_enter [OF assms(1)]
    by (auto intro!: safe_only_at [of oc p] consistent_only_at [of oc p] simp: registered_def)
qed

text \<open>An existing object is configured again.\<close>

lemma reimport_keeps:
  assumes "safe oc" and "registered oc p obj" and "id_m obj' = id_m obj"
  defines "oc' \<equiv> update_object p obj' (leave_object p obj oc)"
  shows "safe oc'" "safe (enter_object p obj' oc')" "consistent oc \<Longrightarrow> consistent (enter_object p obj' oc')"
proof -
  have obj: "heap oc p = Some obj" "p \<in> snd ` set (objectIdMap_m oc)"
    using assms(2) by (simp_all add: registered_def)
  have only: "only_at p oc oc'" unfolding oc'_def by (intro only_at_update only_at_leave)
  have named: "well_named oc'"
    unfolding oc'_def using assms(1,3) obj by (intro well_named_update) (simp_all add: safe_def)
  have det: "detached oc' p" unfolding oc'_def using leave_is_detached [OF assms(1) obj(1)] by simp
  then show "safe oc'"
    using safe_only_at [OF assms(1) only named] by simp
  show "safe (enter_object p obj' oc')" "consistent oc \<Longrightarrow> consistent (enter_object p obj' oc')"
    using enter_keeps [OF only named det, of obj'] assms(1) obj by (simp_all add: oc'_def)
qed

text \<open>A new object is entered under an ID that is free.\<close>

lemma map_of_free: "map_of m k = None \<longleftrightarrow> k \<notin> fst ` set m"
  by (simp add: map_of_eq_None_iff)

lemma fresh_keeps:
  assumes "safe oc" and "map_of (objectIdMap_m oc) (id_m obj) = None" and "p \<notin> snd ` set (objectIdMap_m oc)"
    and "oc' = oc\<lparr>next_ptr := n, heap := (heap oc)(p \<mapsto> obj),
           objectIdMap_m := idm_insert (id_m obj) p (objectIdMap_m oc)\<rparr>"
    and "next_ptr oc \<le> n" and "p < n"
  shows "safe (enter_object p obj oc')" "consistent oc \<Longrightarrow> consistent (enter_object p obj oc')"
proof -
  have free: "id_m obj \<notin> fst ` set (objectIdMap_m oc)" using assms(2) by (simp add: map_of_free)
  have ids: "set (objectIdMap_m oc') = insert (id_m obj, p) (set (objectIdMap_m oc))"
    using idm_insert_set [OF free] assms(4) by simp
  have subs: "subscriptions oc' = subscriptions oc"
    by (rule subscriptions_frame) (simp add: assms(4))
  have only: "only_at p oc oc'"
    by (auto simp: only_at_def ids subs) (simp_all add: assms(4))
  have "well_named oc" using assms(1) by (simp add: safe_def)
  moreover have "p' \<noteq> p" if "(k, p') \<in> set (objectIdMap_m oc)" for k p'
    using that assms(3) by force
  moreover have "q < n" if "heap oc q = Some y" for q y
    using \<open>well_named oc\<close> that assms(5) by (auto simp: well_named_def intro: less_le_trans)
  ultimately have named: "well_named oc'"
    using assms(6) idm_insert_sorted [OF _ free, of p]
    by (auto simp: well_named_def ids) (auto simp: assms(4) split: if_splits)
  have "detached oc' p" using assms(1,3) by (simp add: safe_def detached_def subs)
  then show "safe (enter_object p obj oc')" "consistent oc \<Longrightarrow> consistent (enter_object p obj oc')"
    using enter_keeps [OF only named, of obj] assms(1) ids by (simp_all add: assms(4))
qed


lemma safe_registered:
  assumes "safe oc" and "map_of (objectIdMap_m oc) k = Some p"
  obtains obj where "heap oc p = Some obj" "id_m obj = k" "registered oc p obj"
proof -
  have "well_named oc" and k: "(k, p) \<in> set (objectIdMap_m oc)"
    using assms map_of_id by (auto simp: safe_def)
  then obtain obj where "heap oc p = Some obj" "id_m obj = k" by (auto simp: well_named_def)
  moreover from this k have "registered oc p obj" by (force simp: registered_def)
  ultimately show thesis by (rule that)
qed

lemma leave_same_address [simp]: "leave_object p (obj\<lparr>gad_m := gad_m obj\<rparr>) oc = leave_object p obj oc"
  by (simp add: leave_object_def)

lemma enter_under_id:
  "(enter_object p obj oc)\<lparr>objectIdMap_m := m\<rparr> = enter_object p obj (oc\<lparr>objectIdMap_m := m\<rparr>)"
  by (simp add: enter_object_def)

lemma addObject_keeps: "safe oc \<Longrightarrow> keeps_registry oc (addObject p oc)"
proof (cases "heap oc p")
  case (Some obj)
  assume safe: "safe oc"
  show ?thesis
  proof (cases "map_of (objectIdMap_m oc) (id_m obj)")
    case None
    have named: "well_named oc" using safe by (simp add: safe_def)
    have "p \<notin> snd ` set (objectIdMap_m oc)"
      using None Some well_named_name [OF named] by (force simp: map_of_free)
    moreover have "p < next_ptr oc" using named Some by (simp add: well_named_def)
    ultimately show ?thesis
      using fresh_keeps [OF safe None, of p _ "next_ptr oc"] Some None
      by (simp add: keeps_registry_def addObject_def finish_def ensures_def fun_upd_idem)
  qed (simp add: addObject_def Some)
qed (simp add: addObject_def)

lemma removeObject_eq:
  assumes "safe oc" and "registered oc p obj"
  shows "removeObject p oc =
    (if inUse obj then throw In_use (leave_object p obj oc) else finish (erase_object p obj oc))"
  using assms registered_lookup [of oc p obj]
  by (simp add: removeObject_def safe_def registered_def Let_def erase_object_def)

lemma removeObject_keeps: "safe oc \<Longrightarrow> registered oc p obj \<Longrightarrow> keeps_registry oc (removeObject p oc)"
  using erase_keeps [of oc p obj] safe_leave [of oc p obj]
  by (simp add: removeObject_eq keeps_registry_def registered_def finish_def throw_def ensures_def)

lemma import_object_keeps:
  assumes safe: "safe oc"
  shows "keeps_registry oc (import_object sv junk cfg oc)"
proof (cases "map_of (objectIdMap_m oc) (GetAttribute cfg ''id'')")
  case (Some p)
  then obtain obj where obj: "heap oc p = Some obj" "id_m obj = GetAttribute cfg ''id''" "registered oc p obj"
    by (rule safe_registered [OF safe])
  obtain effs oe obj' where r: "Object_importXml sv junk cfg obj = (effs, oe, obj')" by (metis prod.collapse)
  have "id_m obj' = id_m obj"
    using Object_importXml_keeps(2) [of obj cfg sv junk] obj(2) r by simp
  then show ?thesis
    using reimport_keeps [OF safe obj(3), of obj'] erase_keeps [OF obj(3)] safe_leave [OF safe obj(1)] safe
    by (cases oe) (auto simp: import_object_def Let_def Some obj r keeps_registry_def finish_def throw_def
        ensures_def erase_object_def)
next
  case None
  show ?thesis
  proof (cases "Object_create_xml sv junk cfg")
    case (Some r)
    obtain effs oe obj where r: "r = (effs, oe, obj)" by (metis prod.collapse)
    show ?thesis
    proof (cases oe)
      case None': None
      let ?p = "next_ptr oc"
      have "id_m obj = GetAttribute cfg ''id''"
        using Object_importXml_name [of "Object_new (ucast junk) v" for v, where sv = sv and junk = junk and cfg = cfg] Some r None'
        by (force simp: Object_create_xml_def Object_new_def ensures_def split: option.splits)
      moreover have "?p \<notin> snd ` set (objectIdMap_m oc)"
        using safe by (force simp: safe_def well_named_def)
      ultimately show ?thesis
        using fresh_keeps [OF safe, of obj ?p _ "?p + 1"] Some r None None' safe
        by (simp add: import_object_def Let_def keeps_registry_def ensures_def enter_under_id update_object_def throw_def)
    qed (use safe None Some r in \<open>simp add: import_object_def Let_def keeps_registry_def ensures_def throw_def\<close>)
  qed (simp add: import_object_def None Let_def)
qed

lemma import_objects_keeps: "safe oc \<Longrightarrow> keeps_registry oc (import_objects sv junk cfgs oc)"
proof (induction cfgs arbitrary: oc)
  case (Cons cfg cfgs)
  obtain effs oe oc' where r: "import_object sv junk cfg oc = (effs, oe, oc')" by (metis prod.collapse)
  have k: "keeps_registry oc (import_object sv junk cfg oc)" using Cons.prems by (rule import_object_keeps)
  then have "safe oc'" using Cons.prems r by (simp add: keeps_registry_def)
  then have "keeps_registry oc' (import_objects sv junk cfgs oc')" by (rule Cons.IH)
  then show ?case
    using k r Cons.prems
    by (cases oe; cases "import_objects sv junk cfgs oc'") (auto simp: keeps_registry_def ensures_def)
qed simp

text \<open>
  C4. Importing objects keeps the registry: whatever the configuration is, and whether the import succeeds or
  throws half way, every ID leads to a live object of that name and no group address other than 0
  leads to an object that is not registered (no dangling pointer).  If it succeeds on a consistent registry, every object
  is entered at exactly its own addresses, as many times as they are listed.
\<close>

theorem importXml_keeps_registry:
  assumes "safe oc"
  shows "safe (snd (snd (ObjectController_importXml sv junk cfg oc)))
    \<and> (consistent oc \<longrightarrow> ensures consistent (ObjectController_importXml sv junk cfg oc))"
  using import_objects_keeps [OF assms] assms
  by (simp_all add: ObjectController_importXml_def keeps_registry_def)

lemma new_controller_consistent: "consistent ObjectController_new"
  by (simp add: consistent_def safe_def well_named_def registered_def detached_def subscriptions_def
      ObjectController_new_def mm_range_def)

definition lamp_config :: xml where
  "lamp_config = Element ''objects'' []
     [Element ''object'' [(''type'', ''1.001''), (''id'', ''lamp''), (''gad'', ''1/1/1'')] []]"

theorem importXml_keeps_registry_witness:
  "ensures consistent (ObjectController_importXml plain_services 0 lamp_config ObjectController_new)"
  using importXml_keeps_registry [of ObjectController_new plain_services 0 lamp_config] new_controller_consistent
  by (simp add: consistent_def)


section \<open>Dispatch\<close>

lemma distinct_count_list: "(\<And>x. count_list xs x \<le> 1) \<Longrightarrow> distinct xs"
proof (induction xs)
  case (Cons a xs)
  have "count_list xs x \<le> 1" for x using Cons.prems [of x] by (simp split: if_splits)
  moreover have "a \<notin> set xs" using Cons.prems [of a] by (simp add: count_list_0_iff)
  ultimately show ?case using Cons.IH by simp
qed simp

lemma count_list_distinct: "distinct xs \<Longrightarrow> count_list xs x \<le> 1"
  by (induction xs) (auto simp: count_list_0_iff [THEN iffD2])

text \<open>Calling live objects, each once, when none of them throws.\<close>

lemma call_all_ok:
  assumes "distinct ps" and "\<And>p. p \<in> set ps \<Longrightarrow> \<exists>obj. heap oc p = Some obj \<and> fst (snd (f obj)) = None"
  shows "call_all ps f oc = (concat (map (\<lambda>p. fst (f (the (heap oc p)))) ps), None,
     oc\<lparr>heap := (\<lambda>q. if q \<in> set ps then map_option (\<lambda>obj. snd (snd (f obj))) (heap oc q) else heap oc q)\<rparr>)"
  using assms
proof (induction ps arbitrary: oc)
  case Nil
  have "(\<lambda>q. heap oc q) = heap oc" by simp
  then show ?case by (simp add: finish_def)
next
  case (Cons p ps)
  obtain obj where obj: "heap oc p = Some obj" "fst (snd (f obj)) = None" using Cons.prems(2) [of p] by auto
  obtain effs obj' where r: "f obj = (effs, None, obj')" using obj(2) by (metis prod.collapse)
  let ?oc = "update_object p obj' oc"
  have p: "p \<notin> set ps" using Cons.prems(1) by simp
  then have "heap ?oc q = heap oc q" if "q \<in> set ps" for q using that by auto
  then have ih: "call_all ps f ?oc = (concat (map (\<lambda>p. fst (f (the (heap oc p)))) ps), None,
     ?oc\<lparr>heap := (\<lambda>q. if q \<in> set ps then map_option (\<lambda>obj. snd (snd (f obj))) (heap ?oc q) else heap ?oc q)\<rparr>)"
    using Cons.IH [of ?oc] Cons.prems by (simp cong: map_cong)
  have "?oc\<lparr>heap := (\<lambda>q. if q \<in> set ps then map_option (\<lambda>obj. snd (snd (f obj))) (heap ?oc q) else heap ?oc q)\<rparr>
      = oc\<lparr>heap := (\<lambda>q. if q \<in> set (p # ps) then map_option (\<lambda>obj. snd (snd (f obj))) (heap oc q) else heap oc q)\<rparr>"
    using p obj r by (auto simp: update_object_def fun_eq_iff)
  then show ?case using ih obj r by (simp add: call_object_def)
qed

lemma consistent_heap:
  assumes "consistent oc" and "\<And>p. map_option bus_view (h p) = map_option bus_view (heap oc p)"
  shows "consistent (oc\<lparr>heap := h\<rparr>)"
proof -
  have none: "h p = None \<longleftrightarrow> heap oc p = None" for p using assms(2) [of p] by (metis map_option_is_None)
  have some: "\<exists>obj. heap oc p = Some obj \<and> entered_addresses obj' = entered_addresses obj \<and> id_m obj' = id_m obj"
    if "h p = Some obj'" for p obj'
    using assms(2) [of p] that by (cases "heap oc p") (auto dest: bus_view_entered)
  have some': "\<exists>obj. h p = Some obj \<and> id_m obj' = id_m obj" if "heap oc p = Some obj'" for p obj'
    using assms(2) [of p] that by (cases "h p") (auto dest: bus_view_entered)
  have "subscriptions (oc\<lparr>heap := h\<rparr>) = subscriptions oc" by (rule subscriptions_frame) simp
  then have att: "attached (oc\<lparr>heap := h\<rparr>) p obj' \<longleftrightarrow> attached oc p obj"
    if "entered_addresses obj' = entered_addresses obj" for p obj obj'
    using that by (simp add: attached_def)
  have "well_named (oc\<lparr>heap := h\<rparr>)"
    using assms(1) none some' by (fastforce simp: consistent_def safe_def well_named_def)
  moreover have "attached (oc\<lparr>heap := h\<rparr>) p obj'" if "registered (oc\<lparr>heap := h\<rparr>) p obj'" for p obj'
  proof -
    have in_map: "p \<in> snd ` set (objectIdMap_m oc)" and "h p = Some obj'"
      using that by (simp_all add: registered_def)
    then obtain obj where obj: "heap oc p = Some obj" "entered_addresses obj' = entered_addresses obj"
      using some by blast
    then have "attached oc p obj" using assms(1) in_map by (simp add: consistent_def registered_def)
    then show ?thesis using att [OF obj(2)] by simp
  qed
  moreover have "detached (oc\<lparr>heap := h\<rparr>) p" if "p \<notin> snd ` set (objectIdMap_m oc)" for p
    using that assms(1) \<open>subscriptions _ = _\<close> by (simp add: consistent_def safe_def detached_def)
  ultimately show ?thesis by (simp add: consistent_def safe_def)
qed

lemma subscribers:
  assumes "consistent oc" and "a \<noteq> 0"
  shows "set (mm_range a (objectMap_m oc)) = {p. \<exists>obj. registered oc p obj \<and> a \<in> set (entered_addresses obj)}"
    and "(\<And>p obj. registered oc p obj \<Longrightarrow> distinct (entered_addresses obj)) \<Longrightarrow> distinct (mm_range a (objectMap_m oc))"
proof -
  have reg: "subscriptions oc a p = count_list (entered_addresses obj) a" if "registered oc p obj" for p obj
    using assms that by (auto simp: consistent_def attached_def)
  have unreg: "subscriptions oc a p = 0" if "\<nexists>obj. registered oc p obj" for p
  proof -
    have "p \<notin> snd ` set (objectIdMap_m oc)"
    proof
      assume p: "p \<in> snd ` set (objectIdMap_m oc)"
      then obtain k where "(k, p) \<in> set (objectIdMap_m oc)" by auto
      then obtain obj where "heap oc p = Some obj"
        using assms(1) unfolding consistent_def safe_def well_named_def by blast
      then show False using that p by (simp add: registered_def)
    qed
    then have "detached oc p" using assms(1) unfolding consistent_def safe_def by blast
    then show ?thesis using assms(2) by (simp add: detached_def)
  qed
  have "p \<in> set (mm_range a (objectMap_m oc)) \<longleftrightarrow> (\<exists>obj. registered oc p obj \<and> a \<in> set (entered_addresses obj))" for p
  proof -
    have in_range: "p \<in> set (mm_range a (objectMap_m oc)) \<longleftrightarrow> subscriptions oc a p \<noteq> 0"
      by (simp add: subscriptions_def count_list_0_iff)
    show ?thesis
    proof (cases "\<exists>obj. registered oc p obj")
      case True
      then obtain obj where obj: "registered oc p obj" ..
      then have "registered oc p obj' \<longleftrightarrow> obj' = obj" for obj' by (auto simp: registered_def)
      then show ?thesis using in_range reg [OF obj] by (simp add: count_list_0_iff)
    qed (use in_range unreg in auto)
  qed
  then show "set (mm_range a (objectMap_m oc)) = {p. \<exists>obj. registered oc p obj \<and> a \<in> set (entered_addresses obj)}"
    by blast
  show "distinct (mm_range a (objectMap_m oc))" if "\<And>p obj. registered oc p obj \<Longrightarrow> distinct (entered_addresses obj)"
  proof (rule distinct_count_list)
    fix p
    show "count_list (mm_range a (objectMap_m oc)) p \<le> 1"
    proof (cases "\<exists>obj. registered oc p obj")
      case True
      then obtain obj where obj: "registered oc p obj" ..
      show ?thesis
        using reg [OF obj] count_list_distinct [OF that [OF obj], of a] by (simp add: subscriptions_def)
    qed (use unreg [of p] in \<open>simp add: subscriptions_def\<close>)
  qed
qed


lemma dispatch_write:
  assumes "consistent oc" and "dest \<noteq> 0"
    and "\<And>p obj. registered oc p obj \<Longrightarrow> distinct (entered_addresses obj)"
    and "\<And>p obj. registered oc p obj \<Longrightarrow> dest \<in> set (entered_addresses obj) \<Longrightarrow>
           fst (snd (onWrite sv buf len src obj)) = None"
  shows "\<exists>effs oc'. ObjectController_onWrite sv src dest buf len oc = (effs, None, oc') \<and> consistent oc'
    \<and> objectIdMap_m oc' = objectIdMap_m oc
    \<and> (\<forall>p obj. registered oc p obj \<longrightarrow> heap oc' p =
         Some (if dest \<in> set (entered_addresses obj) then snd (snd (onWrite sv buf len src obj)) else obj))"
proof -
  let ?ps = "mm_range dest (objectMap_m oc)" and ?f = "onWrite sv buf len src"
  let ?h = "\<lambda>q. if q \<in> set ?ps then map_option (\<lambda>obj. snd (snd (?f obj))) (heap oc q) else heap oc q"
  have ps: "set ?ps = {p. \<exists>obj. registered oc p obj \<and> dest \<in> set (entered_addresses obj)}"
    by (rule subscribers(1)) fact+
  have "distinct ?ps" using subscribers(2) [OF assms(1,2)] assms(3) by blast
  moreover have "\<exists>obj. heap oc p = Some obj \<and> fst (snd (?f obj)) = None" if "p \<in> set ?ps" for p
    using that assms(4) unfolding ps by (auto simp: registered_def)
  ultimately have call: "ObjectController_onWrite sv src dest buf len oc
      = (concat (map (\<lambda>p. fst (?f (the (heap oc p)))) ?ps), None, oc\<lparr>heap := ?h\<rparr>)"
    unfolding ObjectController_onWrite_def by (rule call_all_ok)
  have "consistent (oc\<lparr>heap := ?h\<rparr>)"
    by (rule consistent_heap [OF assms(1)]) (simp add: option.map_comp comp_def)
  moreover have "?h p = Some (if dest \<in> set (entered_addresses obj) then snd (snd (?f obj)) else obj)"
    if reg: "registered oc p obj" for p obj
    using reg unfolding ps by (auto simp: registered_def)
  ultimately show ?thesis using call by simp
qed


definition lamp :: Object where
  "lamp = (Object_new 0 (new_uint U8))\<lparr>id_m := ''lamp'', gad_m := 0x0901, readRequestGad_m := 0x0901\<rparr>"

definition with_lamp :: "Object \<Rightarrow> ObjectController" where
  "with_lamp obj = \<lparr>heap = [0 \<mapsto> obj], next_ptr = 1,
     objectMap_m = map (\<lambda>a. (a, 0)) (entered_addresses obj), objectIdMap_m = [(id_m obj, 0)]\<rparr>"

lemma range_constant: "mm_range a (map (\<lambda>a. (a, p)) as) = replicate (count_list as a) p"
  by (induction as) (auto simp: mm_range_def)

lemma with_lamp_consistent: "consistent (with_lamp obj)"
proof -
  have "subscriptions (with_lamp obj) a p = (if p = 0 then count_list (entered_addresses obj) a else 0)" for a p
    by (simp add: subscriptions_def with_lamp_def range_constant count_list_replicate)
  then have "attached (with_lamp obj) 0 obj" "p \<noteq> 0 \<Longrightarrow> detached (with_lamp obj) p" for p
    by (simp_all add: attached_def detached_def)
  then show ?thesis
    by (auto simp: consistent_def safe_def well_named_def registered_def) (auto simp: with_lamp_def split: if_splits)
qed



text \<open>
  C37. A refused delete silences the object: deleting an object that is in use throws, and the object stays registered,
  but the code has already taken it out of the address map: from then on no write telegram to a
  group address other than 0 reaches it.
\<close>

theorem refused_delete_silences:
  assumes "safe oc" and "registered oc p obj" and "inUse obj"
  shows "\<exists>oc'. removeObject p oc = throw In_use oc' \<and> registered oc' p obj
    \<and> (\<forall>dest. dest \<noteq> 0 \<longrightarrow> p \<notin> set (mm_range dest (objectMap_m oc')))"
proof -
  let ?oc = "leave_object p obj oc"
  have "detached ?oc p" using leave_is_detached [OF assms(1)] assms(2) by (simp add: registered_def)
  then have "\<forall>dest. dest \<noteq> 0 \<longrightarrow> p \<notin> set (mm_range dest (objectMap_m ?oc))"
    by (simp add: detached_def subscriptions_def count_list_0_iff)
  moreover have "registered ?oc p obj" using assms(2) by (simp add: registered_def)
  ultimately show ?thesis using removeObject_eq [OF assms(1,2)] assms(3) by (intro exI [of _ ?oc]) simp
qed

theorem refused_delete_silences_witness:
  "\<exists>oc'. removeObject 0 (with_lamp (incRefCount lamp)) = throw In_use oc' \<and> 0 \<notin> set (mm_range 0x0901 (objectMap_m oc'))"
  using refused_delete_silences [of "with_lamp (incRefCount lamp)" 0 "incRefCount lamp"]
    with_lamp_consistent [of "incRefCount lamp"]
  by (auto simp: consistent_def registered_def with_lamp_def inUse_def incRefCount_def lamp_def Object_new_def)

section \<open>Group address 0\<close>

definition zero_listener :: Object where
  "zero_listener = lamp\<lparr>listenerGadList_m := [0]\<rparr>"

text \<open>
  A listener at address 0/0/0 leaves a dangling pointer: importing an object with such a listener enters it at address
  0, removing the object (which is not in use) frees it but leaves that entry, and the next telegram to address 0 is
  dispatched to the freed object.
\<close>

theorem zero_listener_dangles:
  "\<exists>oc'. removeObject 0 (with_lamp zero_listener) = finish oc' \<and> heap oc' 0 = None
     \<and> ObjectController_onWrite sv src 0 buf len oc' = throw Null_deref oc'"
  by (simp add: removeObject_def with_lamp_def zero_listener_def lamp_def Object_new_def Let_def inUse_def finish_def
      leave_object_def removeObjectFromAddressMap_def entered_addresses_def mm_erase_def delete_object_def
      ObjectController_onWrite_def mm_range_def call_object_def throw_def)


end
