(* ===== verification/KnxConnection.thy ===== *)
theory KnxConnection
  imports Controller_Laws
begin

text \<open>
  The connection to the bus, src/knxconnection.h and .cpp: sending, the dispatch of received packets
  to the telegram listener, and the connection loop.  The library of the eibd daemon is a parameter:
  what it returns is an input of the definitions.  The second half composes the connection with the
  objects of a sender and of a receiver.
\<close>

section \<open>State\<close>

record KnxConnection =
  con_m :: bool
  isRunning_m :: bool
  isReady_m :: bool
  url_m :: string
  listener_m :: "nat option"

definition KnxConnection_new :: KnxConnection where
  "KnxConnection_new = \<lparr>con_m = False, isRunning_m = False, isReady_m = False, url_m = '''', listener_m = None\<rparr>"

definition isVoid :: "KnxConnection \<Rightarrow> bool" where
  "isVoid kc \<longleftrightarrow> url_m kc = ''''"

definition KnxConnection_exportXml :: "KnxConnection \<Rightarrow> xml \<Rightarrow> xml" where
  "KnxConnection_exportXml kc e = SetAttribute ''url'' (url_m kc) e"

text \<open>A running connection is stopped and started again, which the model of the loop below does with the new URL.\<close>

definition KnxConnection_importXml :: "xml \<Rightarrow> KnxConnection \<Rightarrow> KnxConnection" where
  "KnxConnection_importXml cfg kc = kc\<lparr>url_m := GetAttribute cfg ''url''\<rparr>"

definition addTelegramListener :: "nat \<Rightarrow> KnxConnection \<Rightarrow> KnxConnection result" where
  "addTelegramListener l kc =
     (case listener_m kc of Some _ \<Rightarrow> Inl Listener_registered | None \<Rightarrow> Inr (kc\<lparr>listener_m := Some l\<rparr>))"

definition removeTelegramListener :: "nat \<Rightarrow> KnxConnection \<Rightarrow> bool \<times> KnxConnection" where
  "removeTelegramListener l kc =
     (if listener_m kc \<noteq> Some l then (False, kc) else (True, kc\<lparr>listener_m := None\<rparr>))"

section \<open>Sending\<close>

text \<open>The calls of \<open>EIBSendGroup\<close>.\<close>

definition KnxConnection_write :: "KnxConnection \<Rightarrow> eibaddr_t \<Rightarrow> byte list \<Rightarrow> (eibaddr_t \<times> byte list) list" where
  "KnxConnection_write kc gad bs = (if gad = 0 then [] else if con_m kc then [(gad, bs)] else [])"

section \<open>Receiving\<close>

text \<open>
  What \<open>EIBGetGroup_Src\<close> returns: the length or -1, the buffer, the source and the destination; and whether
  the event passed to \<open>checkInput\<close> (if any) and the stop event have occurred by then.
\<close>

record packet =
  pk_len :: int
  pk_buf :: buffer
  pk_src :: eibaddr_t
  pk_dest :: eibaddr_t
  pk_ev :: "bool option"
  pk_stop :: bool

datatype apdu = APDU_Read | APDU_Response | APDU_Write

record telegram =
  tg_apdu :: apdu
  tg_src :: eibaddr_t
  tg_dest :: eibaddr_t
  tg_buf :: buffer
  tg_len :: nat

definition apdu_of :: "byte \<Rightarrow> apdu option" where
  "apdu_of b =
     (if b AND 0xC0 = 0x00 then Some APDU_Read
      else if b AND 0xC0 = 0x40 then Some APDU_Response
      else if b AND 0xC0 = 0x80 then Some APDU_Write else None)"

text \<open>The return value and the call of the listener, if there is one.\<close>

definition checkInput :: "KnxConnection \<Rightarrow> packet \<Rightarrow> int \<times> telegram option" where
  "checkInput kc p =
     (if \<not> con_m kc then (0, None)
      else if pk_ev p = Some True then (- 1, None)
      else if pk_stop p then (- 1, None)
      else if pk_len p = - 1 then (0, None)
      else if pk_len p < 2 then (0, None)
      else if pk_buf p 0 AND 0x3 \<noteq> 0 \<or> pk_buf p 1 AND 0xC0 = 0xC0 then (1, None)
      else (1, if listener_m kc = None then None
               else map_option (\<lambda>k. \<lparr>tg_apdu = k, tg_src = pk_src p, tg_dest = pk_dest p, tg_buf = pk_buf p,
                                     tg_len = nat (pk_len p)\<rparr>) (apdu_of (pk_buf p 1))))"

text \<open>The object controller as the listener.\<close>

definition dispatch :: "services \<Rightarrow> arrival list \<Rightarrow> telegram \<Rightarrow> ObjectController \<Rightarrow> ObjectController outcome" where
  "dispatch sv arrivals t oc =
     (case tg_apdu t of
        APDU_Read \<Rightarrow> ObjectController_onRead sv arrivals (tg_dest t) oc
      | APDU_Response \<Rightarrow> ObjectController_onResponse sv (tg_src t) (tg_dest t) (tg_buf t) (tg_len t) oc
      | APDU_Write \<Rightarrow> ObjectController_onWrite sv (tg_src t) (tg_dest t) (tg_buf t) (tg_len t) oc)"

section \<open>The connection loop\<close>

text \<open>The inner loop, on the packets that come in: the telegrams, and the value it ends with; \<open>None\<close> when it is still waiting.\<close>

fun receive_loop :: "KnxConnection \<Rightarrow> packet list \<Rightarrow> telegram list \<times> int option" where
  "receive_loop kc [] = ([], None)"
| "receive_loop kc (p # ps) =
     (case checkInput kc p of
        (r, t) \<Rightarrow>
          (let ts = (case t of None \<Rightarrow> [] | Some t \<Rightarrow> [t]) in
           if r > 0 then (case receive_loop kc ps of (ts', r') \<Rightarrow> (ts @ ts', r')) else (ts, Some r)))"

text \<open>
  One turn of the outer loop: whether the socket and the group socket could be opened, the packets, and
  whether the stop event occurs in the 60 seconds before the next attempt.
\<close>

record attempt =
  at_socket :: bool
  at_group :: bool
  at_packets :: "packet list"
  at_stop :: bool

fun KnxConnection_Run :: "attempt list \<Rightarrow> KnxConnection \<Rightarrow> telegram list \<times> KnxConnection" where
  "KnxConnection_Run [] kc = ([], kc)"
| "KnxConnection_Run (a # as) kc =
     (if url_m kc = '''' then ([], kc)
      else if \<not> at_socket a then
        (if at_stop a then ([], kc\<lparr>con_m := False\<rparr>) else KnxConnection_Run as (kc\<lparr>con_m := False\<rparr>))
      else if \<not> at_group a then
        (if at_stop a then ([], kc\<lparr>con_m := False\<rparr>) else KnxConnection_Run as (kc\<lparr>con_m := False\<rparr>))
      else
        (let kc1 = kc\<lparr>con_m := True, isReady_m := True\<rparr> in
         case receive_loop kc1 (at_packets a) of
           (ts, None) \<Rightarrow> (ts, kc1)
         | (ts, Some r) \<Rightarrow>
             (let kc2 = kc1\<lparr>con_m := False\<rparr> in
              if r = - 1 \<or> at_stop a then (ts, kc2)
              else (case KnxConnection_Run as kc2 of (ts', kc') \<Rightarrow> (ts @ ts', kc')))))"

section \<open>Laws\<close>

lemma apdu_of_total: "b AND 0xC0 \<noteq> 0xC0 \<Longrightarrow> apdu_of b \<noteq> None" for b :: byte
proof -
  assume b: "b AND 0xC0 \<noteq> 0xC0"
  have mask: "b AND 0xC0 = (if bit b 7 then 0x80 else 0) OR (if bit b 6 then 0x40 else 0)"
    by (rule bit_word_eqI) (auto simp: bit_simps less_Suc_eq numeral_eq_Suc)
  show ?thesis
    using b mask by (cases "bit b 7"; cases "bit b 6") (simp_all add: apdu_of_def)
qed

lemma map_subscribers_value:
  assumes "ov_frame_fits (env.truncate sv) v" and "ov_doSend (env.truncate sv) w v = Inr bs"
    and "ov_tag (obj_value obj) = ov_tag v" and "has_flag Write obj" and "has_flag Comm obj"
  shows "fst (snd (onWrite sv (buf_of bs) (length bs) src obj)) = None
    \<and> obj_value (snd (snd (onWrite sv (buf_of bs) (length bs) src obj))) = v"
proof -
  let ?o = "obj\<lparr>lastTx_m := src\<rparr>"
  have "ov_doWrite (env.truncate sv) (forceUpdate ?o) (buf_of bs) (length bs) (obj_value obj)
      = Inr (forceUpdate ?o \<or> obj_value obj \<noteq> v, v)"
    using ov_codec.decode_encode [OF assms(1) assms(3) assms(2)] .
  then have "\<exists>effs i. doWrite sv (buf_of bs) (length bs) ?o = (effs, None, ?o\<lparr>obj_value := v, init_m := i\<rparr>)"
    using doWrite_state [of sv ?o "buf_of bs" "length bs"] by fastforce
  then show ?thesis using assms(4,5) by (auto simp: onWrite_def)
qed

text \<open>
  C2. From one linknx to another: when an object sends a value in the range of its telegram, its connection is
  up and its group address is not 0, the packet that goes out, received by another instance whose
  registry is consistent, is dispatched as a write, and every registered object there that
  listens to the address, is of the same class and has the flags C and W ends with exactly the value sent.
\<close>

theorem value_travels:
  assumes "ov_frame_fits (env.truncate sv) (obj_value obj)" and "gad_m obj \<noteq> 0" and "con_m sender"
    and "con_m receiver" and "listener_m receiver = Some l" and "consistent oc"
    and "\<And>p r. registered oc p r \<Longrightarrow> distinct (entered_addresses r)"
    and "\<And>p r. registered oc p r \<Longrightarrow> gad_m obj \<in> set (entered_addresses r) \<Longrightarrow>
           ov_tag (obj_value r) = ov_tag (obj_value obj) \<and> has_flag Write r \<and> has_flag Comm r"
  shows "\<exists>bs t effs oc'. send_value sv True obj = ([Send (gad_m obj) bs], None, obj)
    \<and> KnxConnection_write sender (gad_m obj) bs = [(gad_m obj, bs)]
    \<and> checkInput receiver \<lparr>pk_len = int (length bs), pk_buf = buf_of bs, pk_src = src, pk_dest = gad_m obj,
        pk_ev = None, pk_stop = False\<rparr> = (1, Some t)
    \<and> dispatch sv arrivals t oc = (effs, None, oc')
    \<and> (\<forall>p r. registered oc p r \<longrightarrow> gad_m obj \<in> set (entered_addresses r) \<longrightarrow>
         (\<exists>r'. heap oc' p = Some r' \<and> obj_value r' = obj_value obj))"
proof -
  let ?e = "env.truncate sv" and ?v = "obj_value obj"
  obtain bs where bs: "ov_doSend ?e True ?v = Inr bs" "2 \<le> length bs" "bs ! 0 = 0" "bs ! 1 AND 0xC0 = 0x80"
    using ov_codec.encode_frame [OF assms(1), of True] by auto
  let ?t = "\<lparr>tg_apdu = APDU_Write, tg_src = src, tg_dest = gad_m obj, tg_buf = buf_of bs, tg_len = length bs\<rparr>"
  have send: "send_value sv True obj = ([Send (gad_m obj) bs], None, obj)" using bs by (simp add: send_value_ok)
  have written: "KnxConnection_write sender (gad_m obj) bs = [(gad_m obj, bs)]"
    using assms(2,3) by (simp add: KnxConnection_write_def)
  have recv: "checkInput receiver \<lparr>pk_len = int (length bs), pk_buf = buf_of bs, pk_src = src, pk_dest = gad_m obj,
      pk_ev = None, pk_stop = False\<rparr> = (1, Some ?t)"
    using assms(4,5) bs by (cases bs; cases "tl bs") (auto simp: checkInput_def apdu_of_def)
  have ok: "fst (snd (onWrite sv (buf_of bs) (length bs) src r)) = None"
    "obj_value (snd (snd (onWrite sv (buf_of bs) (length bs) src r))) = ?v"
    if "registered oc p r" "gad_m obj \<in> set (entered_addresses r)" for p r
    using map_subscribers_value [OF assms(1) bs(1), of r src] assms(8) [OF that] by blast+
  obtain effs oc' where "ObjectController_onWrite sv src (gad_m obj) (buf_of bs) (length bs) oc = (effs, None, oc')"
    and "\<forall>p r. registered oc p r \<longrightarrow> heap oc' p =
         Some (if gad_m obj \<in> set (entered_addresses r) then snd (snd (onWrite sv (buf_of bs) (length bs) src r)) else r)"
    using dispatch_write [OF assms(6,2), of sv "buf_of bs" "length bs" src] assms(7) ok(1) by blast
  then have "dispatch sv arrivals ?t oc = (effs, None, oc')" and "\<forall>p r. registered oc p r \<longrightarrow>
      gad_m obj \<in> set (entered_addresses r) \<longrightarrow> (\<exists>r'. heap oc' p = Some r' \<and> obj_value r' = ?v)"
    using ok(2) by (auto simp: dispatch_def)
  then show ?thesis using send written recv by blast
qed


theorem value_travels_witness:
  "\<exists>bs t effs oc' r. send_value plain_services True (lamp\<lparr>obj_value := UIntValue \<lparr>ui_class = U8, ui_value = 7\<rparr>\<rparr>)
      = ([Send 0x0901 bs], None, lamp\<lparr>obj_value := UIntValue \<lparr>ui_class = U8, ui_value = 7\<rparr>\<rparr>)
    \<and> dispatch plain_services [] t (with_lamp lamp) = (effs, None, oc') \<and> heap oc' 0 = Some r
    \<and> obj_value r = UIntValue \<lparr>ui_class = U8, ui_value = 7\<rparr>"
proof -
  let ?kc = "KnxConnection_new\<lparr>con_m := True, listener_m := Some 0\<rparr>"
  have "registered (with_lamp lamp) p r \<longleftrightarrow> p = 0 \<and> r = lamp" for p r
    by (auto simp: registered_def with_lamp_def)
  then show ?thesis
    using value_travels [of plain_services "lamp\<lparr>obj_value := UIntValue \<lparr>ui_class = U8, ui_value = 7\<rparr>\<rparr>" ?kc ?kc 0
        "with_lamp lamp" "0x1101" "[]"] with_lamp_consistent [of lamp]
    by (auto simp: uint_frame_fits_def lamp_def Object_new_def has_flag_def flag_defs entered_addresses_def
        KnxConnection_new_def)
qed

end
