(* ===== verification/Calendar.thy ===== *)
theory Calendar
  imports Knx_Prelude
begin

text \<open>
  \<open>mktime\<close> and \<open>localtime\<close> of the C library as src/timermanager.cpp uses them, in a time zone with a fixed
  offset from UTC (a zone without daylight saving): the proleptic Gregorian calendar, with the
  months counted from 0 and the years from 1900 as in \<open>struct tm\<close>.
\<close>

section \<open>Days\<close>

definition leap :: "int \<Rightarrow> bool" where
  "leap y \<longleftrightarrow> y mod 4 = 0 \<and> (y mod 100 \<noteq> 0 \<or> y mod 400 = 0)"

definition year_days :: "int \<Rightarrow> int" where
  "year_days y = (if leap y then 366 else 365)"

definition month_days :: "int \<Rightarrow> int \<Rightarrow> int" where
  "month_days y m =
     (if m = 1 then (if leap y then 29 else 28) else if m \<in> {3, 5, 8, 10} then 30 else 31)"

text \<open>Days from January 1st of year 0 to January 1st of a year.\<close>

definition days_before_year :: "int \<Rightarrow> int" where
  "days_before_year y = 365 * y + (y + 3) div 4 - (y + 99) div 100 + (y + 399) div 400"

definition days_before_month :: "int \<Rightarrow> int \<Rightarrow> int" where
  "days_before_month y m = (\<Sum>k \<leftarrow> [0..m - 1]. month_days y k)"

text \<open>The number of a day, of any year, month and day of the month, also outside their ranges.\<close>

definition day_number :: "int \<Rightarrow> int \<Rightarrow> int \<Rightarrow> int" where
  "day_number y m d =
     days_before_year (y + m div 12) + days_before_month (y + m div 12) (m mod 12) + (d - 1)"

text \<open>The year of a day, found by walking from the start of its 400 year cycle; then the month.\<close>

function year_walk :: "int \<Rightarrow> int \<Rightarrow> int \<times> int" where
  "year_walk y d = (if d < year_days y then (y, d) else year_walk (y + 1) (d - year_days y))"
  by auto
termination by (relation "measure (\<lambda>(y, d). nat d)") (auto simp: year_days_def split: if_splits)

function month_walk :: "int \<Rightarrow> int \<Rightarrow> int \<Rightarrow> int \<times> int" where
  "month_walk y m d =
     (if m \<ge> 11 \<or> d < month_days y m then (m, d) else month_walk y (m + 1) (d - month_days y m))"
  by auto
termination by (relation "measure (\<lambda>(y, m, d). nat (11 - m))") auto

declare year_walk.simps [simp del] month_walk.simps [simp del]

definition date_of_day :: "int \<Rightarrow> int \<times> int \<times> int" where
  "date_of_day n =
     (case year_walk (400 * (n div 146097)) (n mod 146097) of
        (y, d) \<Rightarrow> (case month_walk y 0 d of (m, d) \<Rightarrow> (y, m, d + 1)))"

section \<open>Times\<close>

text \<open>Day 719528 is January 1st, 1970, a Thursday.\<close>

definition mktime :: "int \<Rightarrow> tm \<Rightarrow> int" where
  "mktime zone t =
     (day_number (tm_year t + 1900) (tm_mon t) (tm_mday t) - 719528) * 86400
       + tm_hour t * 3600 + tm_min t * 60 + tm_sec t - zone"

definition localtime :: "int \<Rightarrow> int \<Rightarrow> tm" where
  "localtime zone s =
     (let l = s + zone; n = l div 86400 + 719528; r = l mod 86400 in
      case date_of_day n of (y, m, d) \<Rightarrow>
        \<lparr>tm_year = y - 1900, tm_mon = m, tm_mday = d, tm_wday = (n + 6) mod 7,
         tm_hour = r div 3600, tm_min = r div 60 mod 60, tm_sec = r mod 60\<rparr>)"

section \<open>Laws\<close>

lemma div_count:
  fixes n y :: int
  assumes "0 < n"
  shows "(y + n) div n = (y + (n - 1)) div n + (if y mod n = 0 then 1 else 0)"
proof -
  obtain q r where y: "y = q * n + r" "0 \<le> r" "r < n"
    using assms div_mult_mod_eq [of y n] pos_mod_sign [of n y] pos_mod_bound [of n y] by metis
  have yn: "(y + n) div n = q + 1" using y by (intro int_div_pos_eq [of _ _ _ r]) (auto simp: algebra_simps)
  show ?thesis
  proof (cases "r = 0")
    case True
    then have "(y + (n - 1)) div n = q" using y assms by (intro int_div_pos_eq [of _ _ _ "n - 1"]) (auto simp: algebra_simps)
    then show ?thesis using True y yn by simp
  next
    case False
    then have "(y + (n - 1)) div n = q + 1" using y by (intro int_div_pos_eq [of _ _ _ "r - 1"]) (auto simp: algebra_simps)
    moreover have "y mod n = r" using y by (intro int_mod_pos_eq [of _ _ q]) (auto simp: algebra_simps)
    ultimately show ?thesis using False yn by simp
  qed
qed

lemma days_before_year_Suc: "days_before_year (y + 1) = days_before_year y + year_days y"
proof -
  have m: "y mod 100 = 0 \<Longrightarrow> y mod 4 = 0" "y mod 400 = 0 \<Longrightarrow> y mod 100 = 0"
    using dvd_trans [of 4 100 y] dvd_trans [of 100 400 y] by (simp_all add: mod_eq_0_iff_dvd)
  have "days_before_year (y + 1) = 365 * (y + 1) + (y + 4) div 4 - (y + 100) div 100 + (y + 400) div 400"
    by (simp only: days_before_year_def add.assoc) simp
  also have "\<dots> = days_before_year y + 365 + ((if y mod 4 = 0 then 1 else 0) - (if y mod 100 = 0 then 1 else 0)
      + (if y mod 400 = 0 then 1 else 0))"
  proof -
    have split: "365 * (y + 1) + (a + i) - (b + j) + (c + k) = (365 * y + a - b + c) + 365 + (i - j + k)" for a b c i j k
      by simp
    have c4: "(y + 4) div 4 = (y + 3) div 4 + (if y mod 4 = 0 then 1 else 0)" using div_count [of 4 y] by simp
    have c100: "(y + 100) div 100 = (y + 99) div 100 + (if y mod 100 = 0 then 1 else 0)" using div_count [of 100 y] by simp
    have c400: "(y + 400) div 400 = (y + 399) div 400 + (if y mod 400 = 0 then 1 else 0)" using div_count [of 400 y] by simp
    show ?thesis unfolding c4 c100 c400 days_before_year_def by (rule split)
  qed
  also have "\<dots> = days_before_year y + year_days y"
  proof -
    have "year_days y = 365 + ((if y mod 4 = 0 then 1 else 0) - (if y mod 100 = 0 then 1 else 0)
        + (if y mod 400 = 0 then 1 else 0))"
      using m by (cases "y mod 4 = 0"; cases "y mod 100 = 0"; cases "y mod 400 = 0")
        (simp_all add: year_days_def leap_def)
    then show ?thesis by simp
  qed
  finally show ?thesis .
qed

lemma days_before_year_cycle: "days_before_year (400 * c) = 146097 * c"
  by (simp add: days_before_year_def)

lemma year_days_pos: "0 < year_days y"
  by (simp add: year_days_def)

lemma month_days_pos: "27 < month_days y m"
  by (simp add: month_days_def)

lemma year_walk_days:
  "0 \<le> d \<Longrightarrow> year_walk y d = (y', d') \<Longrightarrow>
     days_before_year y' + d' = days_before_year y + d \<and> 0 \<le> d' \<and> d' < year_days y' \<and> y \<le> y'"
proof (induction y d arbitrary: y' d' rule: year_walk.induct)
  case (1 y d)
  show ?case
  proof (cases "d < year_days y")
    case True
    then show ?thesis using "1.prems" by (simp add: year_walk.simps)
  next
    case False
    then have "year_walk (y + 1) (d - year_days y) = (y', d')" using "1.prems" by (subst (asm) year_walk.simps) simp
    then show ?thesis using "1.IH" [OF False] False days_before_year_Suc [of y] by force
  qed
qed

lemma days_before_year_mono: "y \<le> y' \<Longrightarrow> days_before_year y \<le> days_before_year y'"
proof (induction rule: int_ge_induct)
  case (step i)
  then show ?case using days_before_year_Suc [of i] year_days_pos [of i] by simp
qed simp

lemma days_before_month_Suc: "0 \<le> m \<Longrightarrow> days_before_month y (m + 1) = days_before_month y m + month_days y m"
  by (simp add: days_before_month_def upto_rec2)

lemma days_before_month_simps [simp]:
  "days_before_month y 0 = 0" "days_before_month y 12 = year_days y"
  by (simp_all add: days_before_month_def upto_rec1 month_days_def year_days_def)

lemma days_before_month_11: "days_before_month y 11 = year_days y - 31"
  using days_before_month_Suc [of 11 y] by (simp add: month_days_def)

lemma days_before_month_mono:
  assumes "m \<le> m'" and "0 \<le> m"
  shows "days_before_month y m \<le> days_before_month y m'"
  using assms
proof (induction rule: int_ge_induct)
  case (step i)
  then show ?case using days_before_month_Suc [of i y] month_days_pos [of y i] by simp
qed simp

lemma month_walk_days:
  "0 \<le> m \<Longrightarrow> m \<le> 11 \<Longrightarrow> 0 \<le> d \<Longrightarrow> days_before_month y m + d < year_days y \<Longrightarrow> month_walk y m d = (m', d') \<Longrightarrow>
     days_before_month y m' + d' = days_before_month y m + d \<and> 0 \<le> d' \<and> d' < month_days y m' \<and> 0 \<le> m' \<and> m' \<le> 11"
proof (induction y m d arbitrary: m' d' rule: month_walk.induct)
  case (1 y m d)
  show ?case
  proof (cases "m \<ge> 11 \<or> d < month_days y m")
    case True
    then have "m' = m" "d' = d" using "1.prems"(5) by (simp_all add: month_walk.simps)
    moreover have "d < month_days y m" if "m \<ge> 11"
    proof -
      have "m = 11" using that "1.prems"(2) by simp
      then show ?thesis using "1.prems"(4) days_before_month_11 [of y] by (simp add: month_days_def)
    qed
    ultimately show ?thesis using True "1.prems" by auto
  next
    case False
    then have "month_walk y (m + 1) (d - month_days y m) = (m', d')"
      using "1.prems"(5) by (subst (asm) month_walk.simps) simp
    then show ?thesis
      using "1.IH" [OF False, of m' d'] False "1.prems" days_before_month_Suc [of m y] by simp
  qed
qed

definition valid_date :: "int \<Rightarrow> int \<Rightarrow> int \<Rightarrow> bool" where
  "valid_date y m d \<longleftrightarrow> 0 \<le> m \<and> m \<le> 11 \<and> 1 \<le> d \<and> d \<le> month_days y m"

lemma day_number_valid:
  "0 \<le> m \<Longrightarrow> m \<le> 11 \<Longrightarrow> day_number y m d = days_before_year y + days_before_month y m + (d - 1)"
  by (simp add: day_number_def)

lemma date_of_day:
  assumes "date_of_day n = (y, m, d)"
  shows "day_number y m d = n \<and> valid_date y m d"
proof -
  obtain y' d1 where yw: "year_walk (400 * (n div 146097)) (n mod 146097) = (y', d1)" by fastforce
  obtain m' d2 where mw: "month_walk y' 0 d1 = (m', d2)" by fastforce
  have eq: "y = y'" "m = m'" "d = d2 + 1" using assms yw mw by (simp_all add: date_of_day_def)
  have 1: "days_before_year y' + d1 = days_before_year (400 * (n div 146097)) + n mod 146097"
    "0 \<le> d1" "d1 < year_days y'"
    using year_walk_days [OF _ yw] by auto
  have n: "days_before_year y' + d1 = n" using 1(1) by (simp add: days_before_year_cycle)
  have 2: "days_before_month y' m' + d2 = d1" "0 \<le> d2" "d2 < month_days y' m'" "0 \<le> m'" "m' \<le> 11"
    using month_walk_days [OF _ _ 1(2) _ mw] 1(3) by auto
  then show ?thesis using n eq by (simp add: day_number_valid valid_date_def)
qed

text \<open>The order of dates is the order of their numbers.\<close>

lemma before_month_end:
  assumes "valid_date y m d"
  shows "0 \<le> days_before_month y m + (d - 1)" "days_before_month y m + (d - 1) < days_before_month y (m + 1)"
    "days_before_month y m + (d - 1) < year_days y"
proof -
  show 1: "days_before_month y m + (d - 1) < days_before_month y (m + 1)"
    using assms days_before_month_Suc [of m y] by (simp add: valid_date_def)
  show "0 \<le> days_before_month y m + (d - 1)"
    using assms days_before_month_mono [of 0 m y] by (simp add: valid_date_def)
  show "days_before_month y m + (d - 1) < year_days y"
    using 1 assms days_before_month_mono [of "m + 1" 12 y] by (simp add: valid_date_def)
qed

lemma day_number_less:
  assumes "valid_date y m d" and "valid_date y' m' d'" and "y < y' \<or> y = y' \<and> (m < m' \<or> m = m' \<and> d < d')"
  shows "day_number y m d < day_number y' m' d'"
proof -
  have n: "day_number y m d = days_before_year y + (days_before_month y m + (d - 1))"
    "day_number y' m' d' = days_before_year y' + (days_before_month y' m' + (d' - 1))"
    using assms(1,2) by (simp_all add: valid_date_def day_number_valid)
  from assms(3) consider "y < y'" | "y = y'" "m < m'" | "y = y'" "m = m'" "d < d'" by blast
  then show ?thesis
  proof cases
    case 1
    then have "days_before_year y + year_days y \<le> days_before_year y'"
      using days_before_year_mono [of "y + 1" y'] days_before_year_Suc [of y] by simp
    then show ?thesis using n before_month_end(3) [OF assms(1)] before_month_end(1) [OF assms(2)] by linarith
  next
    case 2
    then have "days_before_month y (m + 1) \<le> days_before_month y m'"
      using assms(1) by (intro days_before_month_mono) (simp_all add: valid_date_def)
    then show ?thesis using n 2 before_month_end(2) [OF assms(1)] assms(2) by (simp add: valid_date_def)
  qed (use n in simp)
qed

lemma date_of_day_number: "valid_date y m d \<Longrightarrow> date_of_day (day_number y m d) = (y, m, d)"
proof -
  assume v: "valid_date y m d"
  obtain y' m' d' where w: "date_of_day (day_number y m d) = (y', m', d')" by (metis prod_cases3)
  then have n: "day_number y' m' d' = day_number y m d" "valid_date y' m' d'" using date_of_day by blast+
  then have "\<not> (y < y' \<or> y = y' \<and> (m < m' \<or> m = m' \<and> d < d'))" "\<not> (y' < y \<or> y' = y \<and> (m' < m \<or> m' = m \<and> d' < d))"
    using day_number_less v by force+
  then show ?thesis using w by auto
qed

text \<open>Broken-down times: \<open>mktime\<close> and \<open>localtime\<close> are inverse on normalised times.\<close>

definition valid_tm :: "tm \<Rightarrow> bool" where
  "valid_tm t \<longleftrightarrow> valid_date (tm_year t + 1900) (tm_mon t) (tm_mday t) \<and> tm_hour t \<in> {0..23} \<and> tm_min t \<in> {0..59} \<and> tm_sec t \<in> {0..59}"

definition same_fields :: "tm \<Rightarrow> tm \<Rightarrow> bool" where
  "same_fields a b \<longleftrightarrow> tm_year a = tm_year b \<and> tm_mon a = tm_mon b \<and> tm_mday a = tm_mday b \<and> tm_hour a = tm_hour b
     \<and> tm_min a = tm_min b \<and> tm_sec a = tm_sec b"

lemma time_of_day:
  fixes r :: int
  assumes "0 \<le> r" and "r < 86400"
  shows "r div 3600 * 3600 + r div 60 mod 60 * 60 + r mod 60 = r" "r div 3600 \<in> {0..23}"
proof -
  have "r = r div 60 * 60 + r mod 60" by simp
  moreover have "r div 60 = r div 60 div 60 * 60 + r div 60 mod 60" by simp
  moreover have "r div 60 div 60 = r div 3600" by (simp add: zdiv_zmult2_eq [symmetric])
  ultimately show "r div 3600 * 3600 + r div 60 mod 60 * 60 + r mod 60 = r" by linarith
  show "r div 3600 \<in> {0..23}" using assms by auto
qed

lemma localtime_valid: "valid_tm (localtime z s)"
proof -
  obtain y m d where "date_of_day ((s + z) div 86400 + 719528) = (y, m, d)" by (metis prod_cases3)
  moreover from this have "valid_date y m d" using date_of_day by blast
  moreover have "(s + z) mod 86400 div 3600 \<in> {0..23}" by (rule time_of_day(2)) simp_all
  moreover have "(x :: int) mod 60 \<le> 59" for x using pos_mod_bound [of 60 x] by simp
  ultimately show ?thesis by (simp add: localtime_def Let_def valid_tm_def)
qed

lemma mktime_localtime: "mktime z (localtime z s) = s"
proof -
  define q r where "q = (s + z) div 86400" and "r = (s + z) mod 86400"
  obtain y m d where d: "date_of_day (q + 719528) = (y, m, d)" by (metis prod_cases3)
  then have n: "day_number y m d = q + 719528" using date_of_day by blast
  have t: "localtime z s = \<lparr>tm_year = y - 1900, tm_mon = m, tm_mday = d, tm_wday = (q + 719528 + 6) mod 7,
      tm_hour = r div 3600, tm_min = r div 60 mod 60, tm_sec = r mod 60\<rparr>"
    unfolding localtime_def Let_def q_def [symmetric] r_def [symmetric] d by simp
  have r: "r div 3600 * 3600 + r div 60 mod 60 * 60 + r mod 60 = r" unfolding r_def by (rule time_of_day(1)) simp_all
  have s: "q * 86400 + r = s + z" unfolding q_def r_def by simp
  have "mktime z (localtime z s) = q * 86400 + (r div 3600 * 3600 + r div 60 mod 60 * 60 + r mod 60) - z"
    unfolding t mktime_def by (simp add: n)
  then show ?thesis unfolding r s by simp
qed

lemma split_seconds:
  fixes q h m s :: int
  assumes "h \<in> {0..23}" and "m \<in> {0..59}" and "s \<in> {0..59}"
  defines "r \<equiv> h * 3600 + m * 60 + s"
  shows "(q * 86400 + r) div 86400 = q" "(q * 86400 + r) mod 86400 = r" "r div 3600 = h" "r div 60 mod 60 = m" "r mod 60 = s"
proof -
  have r: "0 \<le> r" "r < 86400" using assms by auto
  then show "(q * 86400 + r) div 86400 = q" by (intro int_div_pos_eq [of _ _ _ r]) auto
  show "(q * 86400 + r) mod 86400 = r" using r by (intro int_mod_pos_eq [of _ _ q]) auto
  show "r div 3600 = h" using assms by (intro int_div_pos_eq [of _ _ _ "m * 60 + s"]) auto
  have "r div 60 = h * 60 + m" using assms by (intro int_div_pos_eq [of _ _ _ s]) (auto simp: algebra_simps)
  then show "r div 60 mod 60 = m" using assms by (intro int_mod_pos_eq [of _ _ h]) auto
  show "r mod 60 = s" using assms by (intro int_mod_pos_eq [of _ _ "h * 60 + m"]) (auto simp: algebra_simps)
qed

lemma localtime_split:
  assumes "s + z = q * 86400 + (h * 3600 + mi * 60 + sec)" and "date_of_day (q + 719528) = (y, m, d)"
    and "h \<in> {0..23}" and "mi \<in> {0..59}" and "sec \<in> {0..59}"
  shows "localtime z s = \<lparr>tm_year = y - 1900, tm_mon = m, tm_mday = d, tm_wday = (q + 719528 + 6) mod 7,
      tm_hour = h, tm_min = mi, tm_sec = sec\<rparr>"
  unfolding localtime_def Let_def assms(1) split_seconds(1,2) [OF assms(3-5)] split_seconds(3-5) [OF assms(3-5)] assms(2)
  by simp

lemma localtime_mktime: "valid_tm t \<Longrightarrow> same_fields (localtime z (mktime z t)) t"
proof -
  assume v: "valid_tm t"
  let ?n = "day_number (tm_year t + 1900) (tm_mon t) (tm_mday t)"
  have "date_of_day (?n - 719528 + 719528) = (tm_year t + 1900, tm_mon t, tm_mday t)"
    using v date_of_day_number by (simp add: valid_tm_def)
  moreover have "mktime z t + z = (?n - 719528) * 86400 + (tm_hour t * 3600 + tm_min t * 60 + tm_sec t)"
    by (simp add: mktime_def)
  ultimately show ?thesis
    using v localtime_split [of "mktime z t" z "?n - 719528" "tm_hour t" "tm_min t" "tm_sec t"]
    by (simp add: valid_tm_def same_fields_def)
qed

lemma mktime_same_fields: "same_fields a b \<Longrightarrow> mktime z a = mktime z b"
  by (simp add: same_fields_def mktime_def)

lemma localtime_mktime_iff: "same_fields (localtime z (mktime z t)) t \<longleftrightarrow> valid_tm t"
  using localtime_mktime localtime_valid [of z "mktime z t"] by (auto simp: same_fields_def valid_tm_def)

end
