(* ===== verification/DateTime.thy ===== *)
theory DateTime
  imports Calendar
begin

text \<open>
  The class \<open>DateTime\<close> of src/timermanager.h and .cpp: a point in time as five fields, each of which is fixed by
  a schedule or free to be adjusted, with the search for the next point that meets the constraints.
  The loops that ask \<open>mktime\<close> take fuel; \<open>None\<close> means that it ran out.
\<close>

section \<open>State\<close>

abbreviation Year :: nat where "Year \<equiv> 0"
abbreviation Month :: nat where "Month \<equiv> 1"
abbreviation Day :: nat where "Day \<equiv> 2"
abbreviation Hour :: nat where "Hour \<equiv> 3"
abbreviation Minute :: nat where "Minute \<equiv> 4"

record DateTime =
  fields_m :: "int list"
  freeFields_m :: int
  weekdays_m :: int

definition DateTime_new :: "tm \<Rightarrow> DateTime" where
  "DateTime_new t =
     \<lparr>fields_m = [tm_year t, tm_mon t, tm_mday t, tm_hour t, tm_min t], freeFields_m = 0x1F, weekdays_m = 0\<rparr>"

definition getField :: "DateTime \<Rightarrow> nat \<Rightarrow> int" where
  "getField dt field = fields_m dt ! field"

definition isFieldFree :: "DateTime \<Rightarrow> nat \<Rightarrow> bool" where
  "isFieldFree dt field \<longleftrightarrow> freeFields_m dt AND push_bit field 1 \<noteq> 0"

text \<open>Setting a field resets the free fields below it.\<close>

function (sequential) setField :: "nat \<Rightarrow> int \<Rightarrow> bool \<Rightarrow> DateTime \<Rightarrow> DateTime"
  and resetFieldIfFree :: "nat \<Rightarrow> bool \<Rightarrow> DateTime \<Rightarrow> DateTime" where
  "setField field value fixesIfChanged dt =
     (if value = - 1 then dt\<lparr>freeFields_m := freeFields_m dt OR push_bit field 1\<rparr>
      else
        let fixes = (fixesIfChanged \<and> (field > Day \<or> weekdays_m dt = 0));
            dt1 = (if fixes then dt\<lparr>freeFields_m := freeFields_m dt AND NOT (push_bit field 1)\<rparr> else dt);
            dt2 = dt1\<lparr>fields_m := (fields_m dt1)[field := value]\<rparr>
        in if field < Minute then resetFieldIfFree (field + 1) True dt2 else dt2)"
| "resetFieldIfFree field recurses dt =
     (let dt1 = (if isFieldFree dt field then setField field (if field = Day then 1 else 0) False dt else dt)
      in if recurses \<and> field < Minute then resetFieldIfFree (field + 1) True dt1 else dt1)"
  by pat_completeness auto
termination
  by (relation "measure (\<lambda>x. case x of Inl (f, _) \<Rightarrow> 2 * (5 - f) | Inr (f, _) \<Rightarrow> 2 * (5 - f) + 1)") auto

declare setField.simps [simp del] resetFieldIfFree.simps [simp del]

definition increaseField :: "nat \<Rightarrow> bool \<Rightarrow> DateTime \<Rightarrow> DateTime" where
  "increaseField field fixes dt = setField field (getField dt field + 1) fixes dt"

text \<open>The search for the closest free field towards the year; \<open>None\<close> is the field \<open>Invalid\<close>.\<close>

fun closest_free :: "DateTime \<Rightarrow> nat \<Rightarrow> nat option" where
  "closest_free dt 0 = (if isFieldFree dt 0 then Some 0 else None)"
| "closest_free dt (Suc f) = (if isFieldFree dt (Suc f) then Some (Suc f) else closest_free dt f)"

definition tryIncreaseClosestGreaterFreeField :: "nat \<Rightarrow> DateTime \<Rightarrow> bool \<times> DateTime" where
  "tryIncreaseClosestGreaterFreeField current dt =
     (case closest_free dt current of None \<Rightarrow> (False, dt) | Some f \<Rightarrow> (True, increaseField f False dt))"

section \<open>The calendar\<close>

definition tm_of :: "DateTime \<Rightarrow> tm" where
  "tm_of dt =
     \<lparr>tm_year = getField dt Year, tm_mon = getField dt Month, tm_mday = getField dt Day, tm_wday = 0,
      tm_hour = getField dt Hour, tm_min = getField dt Minute, tm_sec = 0\<rparr>"

text \<open>\<open>getTime\<close> returns the time and the broken-down time that \<open>mktime\<close> has normalised.\<close>

definition DateTime_getTime :: "int \<Rightarrow> DateTime \<Rightarrow> int \<times> tm" where
  "DateTime_getTime zone dt = (let s = mktime zone (tm_of dt) in (s, localtime zone s))"

definition isCompatibleWithWeekDays :: "int \<Rightarrow> DateTime \<Rightarrow> bool" where
  "isCompatibleWithWeekDays zone dt =
     (if weekdays_m dt \<noteq> 0 then
        (let wd = (tm_wday (snd (DateTime_getTime zone dt)) + 6) mod 7
         in weekdays_m dt AND push_bit (nat wd) 1 \<noteq> 0)
      else True)"

datatype ProjectionResult = Projection_Succeeded | Projection_Failed | Projection_Changed | Projection_Impossible

text \<open>The loop over the fields, with its two flags.\<close>

fun project_fields :: "DateTime \<Rightarrow> nat list \<Rightarrow> bool \<Rightarrow> bool \<Rightarrow> DateTime \<Rightarrow> ProjectionResult \<times> DateTime" where
  "project_fields projected [] isChanged hasFreeField dt =
     (if isChanged then Projection_Changed else Projection_Succeeded, dt)"
| "project_fields projected (f # fs) isChanged hasFreeField dt =
     (if getField dt f \<noteq> getField projected f then
        (if isFieldFree dt f then
           project_fields projected fs True True (dt\<lparr>fields_m := (fields_m dt)[f := getField projected f]\<rparr>)
         else if isChanged then (Projection_Changed, dt)
         else (if hasFreeField then Projection_Failed else Projection_Impossible, dt))
      else project_fields projected fs isChanged (hasFreeField \<or> isFieldFree dt f) dt)"

definition projectOnActualCalendar :: "int \<Rightarrow> DateTime \<Rightarrow> ProjectionResult \<times> DateTime" where
  "projectOnActualCalendar zone dt =
     project_fields (DateTime_new (snd (DateTime_getTime zone dt))) [Year ..< Suc Minute] False False dt"

section \<open>Resolution\<close>

text \<open>The first loop compares the fields above \<open>from\<close>, the second adjusts the fields up to \<open>to\<close>.\<close>

fun compare_fields :: "DateTime \<Rightarrow> nat list \<Rightarrow> DateTime \<Rightarrow> bool option" where
  "compare_fields current [] dt = None"
| "compare_fields current (f # fs) dt =
     (if getField dt f > getField current f then Some True
      else if getField dt f < getField current f then Some False
      else compare_fields current fs dt)"

fun resolve_fields :: "DateTime \<Rightarrow> nat list \<Rightarrow> DateTime \<Rightarrow> bool \<times> DateTime" where
  "resolve_fields current [] dt = (True, dt)"
| "resolve_fields current (f # fs) dt =
     (let currentField = getField current f; targetField = getField dt f in
      if targetField < currentField then
        (if isFieldFree dt f then resolve_fields current fs (setField f currentField False dt)
         else tryIncreaseClosestGreaterFreeField f dt)
      else if targetField > currentField then (True, dt)
      else resolve_fields current fs dt)"

definition tryResolveWithoutWeekdays :: "DateTime \<Rightarrow> nat \<Rightarrow> nat \<Rightarrow> DateTime \<Rightarrow> bool \<times> DateTime" where
  "tryResolveWithoutWeekdays current from to dt =
     (case compare_fields current [Year ..< from] dt of
        Some r \<Rightarrow> (r, dt)
      | None \<Rightarrow> resolve_fields current [from ..< Suc to] dt)"

fun tryResolveUnprojected :: "nat \<Rightarrow> int \<Rightarrow> DateTime \<Rightarrow> nat \<Rightarrow> nat \<Rightarrow> DateTime \<Rightarrow> (bool \<times> DateTime) option" where
  "tryResolveUnprojected 0 zone current from to dt = None"
| "tryResolveUnprojected (Suc n) zone current from to dt =
     (case tryResolveWithoutWeekdays current from to dt of
        (False, dt) \<Rightarrow> Some (False, dt)
      | (True, dt) \<Rightarrow>
          if isCompatibleWithWeekDays zone dt then Some (True, dt)
          else (case tryIncreaseClosestGreaterFreeField Day dt of
                  (False, dt) \<Rightarrow> Some (False, dt)
                | (True, dt) \<Rightarrow> tryResolveUnprojected n zone current from to dt))"

datatype ResolutionResult = Resolution_Resolved | Resolution_Unresolved | Resolution_Impossible

fun tryResolve :: "nat \<Rightarrow> int \<Rightarrow> DateTime \<Rightarrow> nat \<Rightarrow> nat \<Rightarrow> DateTime \<Rightarrow> (ResolutionResult \<times> DateTime) option" where
  "tryResolve 0 zone current from to dt = None"
| "tryResolve (Suc n) zone current from to dt =
     (case tryResolveUnprojected n zone current from to dt of
        None \<Rightarrow> None
      | Some (False, dt) \<Rightarrow> Some (Resolution_Impossible, dt)
      | Some (True, dt) \<Rightarrow>
          (case projectOnActualCalendar zone dt of
             (Projection_Changed, dt) \<Rightarrow> tryResolve n zone current from to dt
           | (Projection_Succeeded, dt) \<Rightarrow> Some (Resolution_Resolved, dt)
           | (Projection_Failed, dt) \<Rightarrow> Some (Resolution_Unresolved, dt)
           | (Projection_Impossible, dt) \<Rightarrow> Some (Resolution_Impossible, dt)))"

end
