(* ===== verification/TimeSpec.thy ===== *)
theory TimeSpec
  imports DateTime Durations ObjectController
begin

text \<open>
  Time specifications of src/timermanager.h and .cpp: when a timer fires, with optional fields,
  days of the week, exceptions and an offset; their configuration; the variable specification, whose fields come from
  time and date objects, and the days of the solar one (src/suncalc.cpp); and the list of exception days.
\<close>

section \<open>Attributes that are numbers\<close>

definition res_bind :: "'a result \<Rightarrow> ('a \<Rightarrow> 'b result) \<Rightarrow> 'b result" where
  "res_bind r f = (case r of Inl e \<Rightarrow> Inl e | Inr x \<Rightarrow> f x)"

lemma res_bind_simps [simp]: "res_bind (Inl e) f = Inl e" "res_bind (Inr x) f = f x"
  by (simp_all add: res_bind_def)

lemma res_bind_Inr: "res_bind r f = Inr y \<longleftrightarrow> (\<exists>x. r = Inr x \<and> f x = Inr y)"
  by (cases r) auto

text \<open>\<open>FromString\<close> throws when the extraction fails; what follows the number is ignored.\<close>

definition attribute_int :: "xml \<Rightarrow> string \<Rightarrow> int \<Rightarrow> int result" where
  "attribute_int cfg name d =
     (case attribute cfg name of
        None \<Rightarrow> Inr d
      | Some s \<Rightarrow> (case get_int s of None \<Rightarrow> Inl (Bad_config s) | Some (i, _) \<Rightarrow> Inr i))"

section \<open>State\<close>

datatype ExceptionMode = No | Yes | DontCare

datatype SpecClass = FixedSpec | VariableSpec "ptr option" "ptr option" | SunriseSpec | SunsetSpec | SolarNoonSpec

record TimeSpec =
  ts_class :: SpecClass
  ts_min :: int
  ts_hour :: int
  ts_mday :: int
  ts_mon :: int
  ts_year :: int
  ts_wdays :: int
  ts_offset :: int
  ts_exception :: ExceptionMode

definition TimeSpec_new :: "SpecClass \<Rightarrow> TimeSpec" where
  "TimeSpec_new k =
     \<lparr>ts_class = k, ts_min = - 1, ts_hour = - 1, ts_mday = - 1, ts_mon = - 1, ts_year = - 1, ts_wdays = 0,
      ts_offset = 0, ts_exception = DontCare\<rparr>"

text \<open>The two other constructors; only the first shifts the year and the month.\<close>

definition TimeSpec_of_date :: "int \<Rightarrow> int \<Rightarrow> int \<Rightarrow> int \<Rightarrow> int \<Rightarrow> int \<Rightarrow> TimeSpec" where
  "TimeSpec_of_date mi h d m y offset =
     (TimeSpec_new FixedSpec)
       \<lparr>ts_min := mi, ts_hour := h, ts_mday := d, ts_mon := (if m > 0 then m - 1 else m),
        ts_year := (if y \<ge> 1900 then y - 1900 else y), ts_offset := offset\<rparr>"

definition TimeSpec_of_week :: "int \<Rightarrow> int \<Rightarrow> int \<Rightarrow> ExceptionMode \<Rightarrow> TimeSpec" where
  "TimeSpec_of_week mi h wdays exc =
     (TimeSpec_new FixedSpec)\<lparr>ts_min := mi, ts_hour := h, ts_wdays := wdays, ts_exception := exc\<rparr>"

definition TimeSpec_create_type :: "string \<Rightarrow> TimeSpec" where
  "TimeSpec_create_type type =
     TimeSpec_new (if type = ''variable'' then VariableSpec None None
                   else if type = ''sunrise'' then SunriseSpec
                   else if type = ''sunset'' then SunsetSpec
                   else if type = ''noon'' then SolarNoonSpec else FixedSpec)"

section \<open>Validity\<close>

text \<open>A complete date is left to \<open>mktime\<close>; then the hour and the minute are not looked at.\<close>

definition TimeSpec_isValid :: "TimeSpec \<Rightarrow> bool" where
  "TimeSpec_isValid ts =
     (let hasDay = (ts_mday ts \<noteq> - 1); hasMonth = (ts_mon ts \<noteq> - 1); hasYear = (ts_year ts \<noteq> - 1) in
      if hasDay \<and> hasMonth \<and> hasYear then
        (let t = localtime 0 (mktime 0 \<lparr>tm_year = ts_year ts, tm_mon = ts_mon ts, tm_mday = ts_mday ts, tm_wday = 0,
                                        tm_hour = 0, tm_min = 0, tm_sec = 0\<rparr>)
         in tm_year t = ts_year ts \<and> tm_mon t = ts_mon ts \<and> tm_mday t = ts_mday ts)
      else if hasMonth \<and> (ts_mon ts < 0 \<or> ts_mon ts > 11) then False
      else if hasDay \<and> ts_mday ts < 1 then False
      else if hasDay \<and> ts_mday ts >
          (if hasMonth then
             (if ts_mon ts = 1 then 29
              else if ts_mon ts = 3 \<or> ts_mon ts = 5 \<or> ts_mon ts = 8 \<or> ts_mon ts = 10 then 30 else 31)
           else 31) then False
      else if ts_hour ts \<noteq> - 1 \<and> (ts_hour ts < 0 \<or> ts_hour ts > 23) then False
      else if ts_min ts \<noteq> - 1 \<and> (ts_min ts < 0 \<or> ts_min ts > 59) then False
      else True)"

definition checkIsValid :: "TimeSpec \<Rightarrow> unit result" where
  "checkIsValid ts = (if TimeSpec_isValid ts then Inr () else Inl Bad_time_spec)"

section \<open>Configuration\<close>

definition parse_wdays :: "string \<Rightarrow> int" where
  "parse_wdays s =
     (if CHR ''1'' \<in> set s then 0x01 else 0) OR (if CHR ''2'' \<in> set s then 0x02 else 0)
     OR (if CHR ''3'' \<in> set s then 0x04 else 0) OR (if CHR ''4'' \<in> set s then 0x08 else 0)
     OR (if CHR ''5'' \<in> set s then 0x10 else 0) OR (if CHR ''6'' \<in> set s then 0x20 else 0)
     OR (if CHR ''7'' \<in> set s then 0x40 else 0)"

definition format_wdays :: "int \<Rightarrow> string" where
  "format_wdays w =
     (if w AND 0x01 \<noteq> 0 then ''1'' else '''') @ (if w AND 0x02 \<noteq> 0 then ''2'' else '''')
     @ (if w AND 0x04 \<noteq> 0 then ''3'' else '''') @ (if w AND 0x08 \<noteq> 0 then ''4'' else '''')
     @ (if w AND 0x10 \<noteq> 0 then ''5'' else '''') @ (if w AND 0x20 \<noteq> 0 then ''6'' else '''')
     @ (if w AND 0x40 \<noteq> 0 then ''7'' else '''')"

definition parse_exception :: "string \<Rightarrow> ExceptionMode" where
  "parse_exception s =
     (if s = ''yes'' \<or> s = ''true'' then Yes else if s = ''no'' \<or> s = ''false'' then No else DontCare)"

definition TimeSpec_importXml :: "xml \<Rightarrow> TimeSpec \<Rightarrow> TimeSpec result" where
  "TimeSpec_importXml cfg ts =
     res_bind (attribute_int cfg ''year'' (- 1)) (\<lambda>y.
     res_bind (attribute_int cfg ''month'' (- 1)) (\<lambda>m.
     res_bind (attribute_int cfg ''day'' (- 1)) (\<lambda>d.
     res_bind (attribute_int cfg ''hour'' (- 1)) (\<lambda>h.
     res_bind (attribute_int cfg ''min'' (- 1)) (\<lambda>mi.
     res_bind (parseDuration (GetAttribute cfg ''offset'') True False) (\<lambda>offset.
       let ts' = ts\<lparr>ts_year := (if y \<ge> 1900 then y - 1900 else y), ts_mon := (if m \<ge> 0 then m - 1 else m),
                    ts_mday := d, ts_hour := h, ts_min := mi, ts_wdays := parse_wdays (GetAttribute cfg ''wdays''),
                    ts_exception := parse_exception (GetAttribute cfg ''exception''), ts_offset := offset\<rparr>
       in res_bind (checkIsValid ts') (\<lambda>_. Inr ts')))))))"

definition TimeSpec_exportXml :: "TimeSpec \<Rightarrow> xml \<Rightarrow> xml" where
  "TimeSpec_exportXml ts e =
     (let e = (if ts_hour ts \<noteq> - 1 then SetAttribute ''hour'' (show_int (ts_hour ts)) e else e);
          e = (if ts_min ts \<noteq> - 1 then SetAttribute ''min'' (show_int (ts_min ts)) e else e);
          e = (if ts_mday ts \<noteq> - 1 then SetAttribute ''day'' (show_int (ts_mday ts)) e else e);
          e = (if ts_mon ts \<noteq> - 1 then SetAttribute ''month'' (show_int (ts_mon ts + 1)) e else e);
          e = (if ts_year ts \<noteq> - 1 then SetAttribute ''year'' (show_int (ts_year ts + 1900)) e else e);
          e = (if ts_exception ts = Yes then SetAttribute ''exception'' ''yes'' e
               else if ts_exception ts = No then SetAttribute ''exception'' ''no'' e else e);
          e = (if ts_wdays ts \<noteq> 0 then SetAttribute ''wdays'' (format_wdays (ts_wdays ts)) e else e)
      in if ts_offset ts \<noteq> 0 then SetAttribute ''offset'' (formatDuration (ts_offset ts) False) e else e)"

text \<open>
  A variable specification keeps references to its objects, and the owner of the timer as a listener of them.  An object
  of the wrong class gives its reference back.
\<close>

fun is_time_object :: "ObjectValue \<Rightarrow> bool" where
  "is_time_object (TimeOfDay _) = True"
| "is_time_object _ = False"

fun is_date_object :: "ObjectValue \<Rightarrow> bool" where
  "is_date_object (CalDate _) = True"
| "is_date_object _ = False"

definition reference_object ::
    "(ObjectValue \<Rightarrow> bool) \<Rightarrow> listener option \<Rightarrow> string \<Rightarrow> ObjectController \<Rightarrow> ObjectController outcome \<times> ptr option" where
  "reference_object ok cl oid oc =
     (if oid = '''' then (finish oc, None)
      else case getObject oid oc of
        ((effs, None, oc'), Some p) \<Rightarrow>
          (case heap oc' p of
             None \<Rightarrow> (throw Null_deref oc', None)
           | Some obj \<Rightarrow>
               if \<not> ok (obj_value obj) then
                 (case decRefCount obj of
                    None \<Rightarrow> (throw Null_deref oc', None)
                  | Some obj' \<Rightarrow> (throw (Bad_type oid) (update_object p obj' oc'), None))
               else (finish (case cl of None \<Rightarrow> oc' | Some l \<Rightarrow> update_object p (addChangeListener l obj) oc'), Some p))
      | (r, _) \<Rightarrow> (r, None))"

definition VariableTimeSpec_importXml ::
    "listener option \<Rightarrow> xml \<Rightarrow> TimeSpec \<Rightarrow> ObjectController \<Rightarrow> (ObjectController \<times> TimeSpec) outcome" where
  "VariableTimeSpec_importXml cl cfg ts oc =
     (case TimeSpec_importXml cfg ts of
        Inl e \<Rightarrow> throw e (oc, ts)
      | Inr ts1 \<Rightarrow>
     (case reference_object is_time_object cl (GetAttribute cfg ''time'') oc of
        ((effs, Some e, oc1), _) \<Rightarrow> (effs, Some e, (oc1, ts1))
      | ((effs, None, oc1), t) \<Rightarrow>
     (case reference_object is_date_object cl (GetAttribute cfg ''date'') oc1 of
        ((effs', e, oc2), d) \<Rightarrow> (effs @ effs', e, (oc2, ts1\<lparr>ts_class := VariableSpec t d\<rparr>)))))"

text \<open>\<open>TimeSpec::create (pConfig, cl)\<close>: the object it returns, or the exception.\<close>

definition TimeSpec_create :: "listener option \<Rightarrow> xml \<Rightarrow> ObjectController \<Rightarrow> (ObjectController \<times> TimeSpec) outcome" where
  "TimeSpec_create cl cfg oc =
     (let ts = TimeSpec_create_type (GetAttribute cfg ''type'') in
      case ts_class ts of
        VariableSpec _ _ \<Rightarrow> VariableTimeSpec_importXml cl cfg ts oc
      | _ \<Rightarrow> (case TimeSpec_importXml cfg ts of Inl e \<Rightarrow> throw e (oc, ts) | Inr ts' \<Rightarrow> finish (oc, ts')))"

definition object_id :: "ObjectController \<Rightarrow> ptr \<Rightarrow> string" where
  "object_id oc p = (case heap oc p of None \<Rightarrow> '''' | Some obj \<Rightarrow> id_m obj)"

definition TimeSpec_exportXml_virtual :: "ObjectController \<Rightarrow> TimeSpec \<Rightarrow> xml \<Rightarrow> xml" where
  "TimeSpec_exportXml_virtual oc ts e =
     (case ts_class ts of
        FixedSpec \<Rightarrow> TimeSpec_exportXml ts e
      | SunriseSpec \<Rightarrow> TimeSpec_exportXml ts (SetAttribute ''type'' ''sunrise'' e)
      | SunsetSpec \<Rightarrow> TimeSpec_exportXml ts (SetAttribute ''type'' ''sunset'' e)
      | SolarNoonSpec \<Rightarrow> TimeSpec_exportXml ts (SetAttribute ''type'' ''noon'' e)
      | VariableSpec t d \<Rightarrow>
          (let e = TimeSpec_exportXml ts (SetAttribute ''type'' ''variable'' e);
               e = (case t of None \<Rightarrow> e | Some p \<Rightarrow> SetAttribute ''time'' (object_id oc p) e)
           in case d of None \<Rightarrow> e | Some p \<Rightarrow> SetAttribute ''date'' (object_id oc p) e))"

section \<open>The fields of a specification\<close>

text \<open>
  The values of the objects, as the code reads them (\<open>TimeObject::getTime\<close> and \<open>DateObject::getDate\<close> do not ask the
  bus).  An object keeps its class, so that a reference to a time object is never of another one.
\<close>

record spec_fields =
  sf_min :: int
  sf_hour :: int
  sf_mday :: int
  sf_mon :: int
  sf_year :: int
  sf_wdays :: int

definition DateObject_getDate :: "DateObjectValue \<Rightarrow> int \<times> int \<times> int" where
  "DateObject_getDate v = (day_m v, month_m v, if year_m v < 1900 then 1900 + year_m v else 1900)"

definition time_fields :: "TimeObjectValue \<Rightarrow> spec_fields \<Rightarrow> spec_fields" where
  "time_fields v f =
     f\<lparr>sf_min := (if sf_min f = - 1 then min_m v else sf_min f),
       sf_hour := (if sf_hour f = - 1 then hour_m v else sf_hour f),
       sf_wdays := (if sf_wdays f = 0 \<and> wday_m v > 0 then push_bit (nat (wday_m v - 1)) 1 else sf_wdays f)\<rparr>"

definition date_fields :: "DateObjectValue \<Rightarrow> spec_fields \<Rightarrow> spec_fields" where
  "date_fields v f =
     (case DateObject_getDate v of (d, m, y) \<Rightarrow>
        f\<lparr>sf_mday := (if sf_mday f = - 1 then d else sf_mday f),
          sf_mon := (if sf_mon f = - 1 then m - 1 else sf_mon f),
          sf_year := (if sf_year f = - 1 then y - 1900 else sf_year f)\<rparr>)"

definition getDataFromObject :: "(ptr \<Rightarrow> ObjectValue option) \<Rightarrow> TimeSpec \<Rightarrow> spec_fields \<Rightarrow> spec_fields" where
  "getDataFromObject vals ts f =
     (case ts_class ts of
        VariableSpec t d \<Rightarrow>
          (let f = (case Option.bind t vals of Some (TimeOfDay v) \<Rightarrow> time_fields v f | _ \<Rightarrow> f)
           in case Option.bind d vals of Some (CalDate v) \<Rightarrow> date_fields v f | _ \<Rightarrow> f)
      | _ \<Rightarrow> f)"

text \<open>The day, month, year and weekdays, and the minute and hour, of the plain and the variable class.\<close>

definition TimeSpec_getDay :: "TimeSpec \<Rightarrow> int \<times> int \<times> int \<times> int" where
  "TimeSpec_getDay ts = (ts_mday ts, ts_mon ts, ts_year ts, ts_wdays ts)"

definition TimeSpec_getTime :: "TimeSpec \<Rightarrow> int \<times> int" where
  "TimeSpec_getTime ts = (ts_min ts, ts_hour ts)"

definition VariableTimeSpec_getDay :: "(ptr \<Rightarrow> ObjectValue option) \<Rightarrow> TimeSpec \<Rightarrow> int \<times> int \<times> int \<times> int" where
  "VariableTimeSpec_getDay vals ts =
     (case TimeSpec_getDay ts of (d, m, y, w) \<Rightarrow>
        (let f = getDataFromObject vals ts
                   \<lparr>sf_min = 0, sf_hour = - 1, sf_mday = d, sf_mon = m, sf_year = y, sf_wdays = w\<rparr>
         in (sf_mday f, sf_mon f, sf_year f, sf_wdays f)))"

definition VariableTimeSpec_getTime :: "(ptr \<Rightarrow> ObjectValue option) \<Rightarrow> TimeSpec \<Rightarrow> int \<times> int" where
  "VariableTimeSpec_getTime vals ts =
     (case TimeSpec_getTime ts of (mi, h) \<Rightarrow>
        (let f = getDataFromObject vals ts
                   \<lparr>sf_min = mi, sf_hour = h, sf_mday = - 1, sf_mon = - 1, sf_year = - 1, sf_wdays = - 1\<rparr>
         in (sf_min f, sf_hour f)))"

section \<open>Exception days\<close>

record DaySpec =
  dy_mday :: int
  dy_mon :: int
  dy_year :: int

definition DaySpec_new :: DaySpec where
  "DaySpec_new = \<lparr>dy_mday = - 1, dy_mon = - 1, dy_year = - 1\<rparr>"

definition DaySpec_importXml :: "xml \<Rightarrow> DaySpec \<Rightarrow> DaySpec result" where
  "DaySpec_importXml cfg ds =
     res_bind (attribute_int cfg ''year'' (- 1)) (\<lambda>y.
     res_bind (attribute_int cfg ''month'' (- 1)) (\<lambda>m.
     res_bind (attribute_int cfg ''day'' (- 1)) (\<lambda>d.
       Inr (ds\<lparr>dy_year := (if y \<ge> 1900 then y - 1900 else y), dy_mon := (if m \<ge> 0 then m - 1 else m), dy_mday := d\<rparr>))))"

definition DaySpec_exportXml :: "DaySpec \<Rightarrow> xml \<Rightarrow> xml" where
  "DaySpec_exportXml ds e =
     (let e = (if dy_mday ds \<noteq> - 1 then SetAttribute ''day'' (show_int (dy_mday ds)) e else e);
          e = (if dy_mon ds \<noteq> - 1 then SetAttribute ''month'' (show_int (dy_mon ds + 1)) e else e)
      in if dy_year ds \<noteq> - 1 then SetAttribute ''year'' (show_int (dy_year ds + 1900)) e else e)"

text \<open>The list of days, in the order they were added; an exception leaves the days before it in the list.\<close>

fun import_days :: "xml list \<Rightarrow> DaySpec list \<Rightarrow> exn option \<times> DaySpec list" where
  "import_days [] ds = (None, ds)"
| "import_days (e # es) ds =
     (if \<not> is_element e then import_days es ds
      else if tag e = ''date'' then
        (case DaySpec_importXml e DaySpec_new of
           Inl x \<Rightarrow> (Some x, ds)
         | Inr d \<Rightarrow> import_days es (ds @ [d]))
      else (Some (Bad_element (tag e)), ds))"

definition ExceptionDays_importXml :: "xml \<Rightarrow> DaySpec list \<Rightarrow> exn option \<times> DaySpec list" where
  "ExceptionDays_importXml cfg ds = import_days (children cfg) (if GetAttribute cfg ''clear'' = ''true'' then [] else ds)"

definition ExceptionDays_exportXml :: "DaySpec list \<Rightarrow> xml \<Rightarrow> xml" where
  "ExceptionDays_exportXml ds e = foldl (\<lambda>e d. LinkEndChild (DaySpec_exportXml d (Element ''date'' [] [])) e) e ds"

definition day_matches :: "tm \<Rightarrow> DaySpec \<Rightarrow> bool" where
  "day_matches t d \<longleftrightarrow>
     (dy_year d = - 1 \<or> dy_year d = tm_year t) \<and> (dy_mon d = - 1 \<or> dy_mon d = tm_mon t)
     \<and> (dy_mday d = - 1 \<or> dy_mday d = tm_mday t)"

definition isException :: "int \<Rightarrow> DaySpec list \<Rightarrow> int \<Rightarrow> bool" where
  "isException zone ds time = list_ex (day_matches (localtime zone time)) ds"

definition addDay :: "DaySpec \<Rightarrow> DaySpec list \<Rightarrow> DaySpec list" where
  "addDay d ds = ds @ [d]"

section \<open>What is imported can be exported\<close>

lemma get_int_range: "get_int s = Some (i, r) \<Longrightarrow> in_s32 i"
  by (auto simp: get_signed_def Let_def split: option.splits prod.splits if_splits)

lemma attribute_int_range: "attribute_int cfg name (- 1) = Inr i \<Longrightarrow> in_s32 i"
  by (auto simp: attribute_int_def dest!: get_int_range split: option.splits)

lemma parseDuration_range: "parseDuration s neg False = Inr d \<Longrightarrow> in_s32 d"
  using s32_range by (auto simp: parseDuration_def Let_def dest!: get_int_range split: option.splits if_splits)

lemma get_int_show: "in_s32 i \<Longrightarrow> get_int (show_int i) = Some (i, [])"
  using get_signed_show_int [of 32 i "[]"] by simp

lemma attribute_int_export:
  "attribute e name = (if i \<noteq> - 1 then Some (show_int j) else None) \<Longrightarrow> in_s32 j \<Longrightarrow>
     attribute_int e name (- 1) = Inr (if i \<noteq> - 1 then j else - 1)"
  by (simp add: attribute_int_def get_int_show)

lemma parse_format_offset:
  "in_s32 d \<Longrightarrow> d \<noteq> 0 \<Longrightarrow> parseDuration (formatDuration d False) True False = Inr d"
  using parse_format_seconds [of d True False] by simp

lemma parse_format_wdays: "0 \<le> w \<Longrightarrow> w < 128 \<Longrightarrow> parse_wdays (format_wdays w) = w"
proof -
  assume w: "0 \<le> w" "w < 128"
  have "list_all (\<lambda>w. parse_wdays (format_wdays w) = w) [0..127]" by code_simp
  with w show ?thesis by (simp add: list_all_iff)
qed

lemma parse_wdays_range: "0 \<le> parse_wdays s \<and> parse_wdays s < 128"
  by (simp add: parse_wdays_def)

text \<open>Attributes that were not set are missing; those that were hold the last text.\<close>

lemma attribute_when:
  "is_element e \<Longrightarrow> attribute (if b then SetAttribute name v e else e) n = (if b \<and> n = name then Some v else attribute e n)"
  by simp

lemma is_element_when: "is_element (if b then SetAttribute name v e else e) = is_element e"
  by simp

lemma attribute_fresh: "attribute (Element t [] cs) n = None"
  by (simp add: attribute_def)

lemma TimeSpec_isValid_ranges:
  assumes "TimeSpec_isValid ts"
  shows "- 1 \<le> ts_mon ts \<and> ts_mon ts \<le> 11" "ts_mday ts = - 1 \<or> 1 \<le> ts_mday ts \<and> ts_mday ts \<le> 31"
proof -
  define t where "t = localtime 0 (mktime 0 \<lparr>tm_year = ts_year ts, tm_mon = ts_mon ts, tm_mday = ts_mday ts,
      tm_wday = 0, tm_hour = 0, tm_min = 0, tm_sec = 0\<rparr>)"
  have "valid_tm t" unfolding t_def by (rule localtime_valid)
  moreover have "month_days y m \<le> 31" for y m by (simp add: month_days_def)
  ultimately have t: "0 \<le> tm_mon t \<and> tm_mon t \<le> 11 \<and> 1 \<le> tm_mday t \<and> tm_mday t \<le> 31"
    by (fastforce simp: valid_tm_def valid_date_def intro: order_trans)
  show "- 1 \<le> ts_mon ts \<and> ts_mon ts \<le> 11" "ts_mday ts = - 1 \<or> 1 \<le> ts_mday ts \<and> ts_mday ts \<le> 31"
    using assms t by (auto simp: TimeSpec_isValid_def t_def [symmetric] Let_def split: if_splits)
qed

text \<open>What a specification must satisfy to survive its own configuration.\<close>

definition exportable :: "TimeSpec \<Rightarrow> bool" where
  "exportable ts \<longleftrightarrow>
     TimeSpec_isValid ts \<and> in_s32 (ts_mday ts) \<and> in_s32 (ts_hour ts) \<and> in_s32 (ts_min ts) \<and> in_s32 (ts_offset ts)
     \<and> - 1 \<le> ts_year ts \<and> in_s32 (ts_year ts + 1900) \<and> 0 \<le> ts_wdays ts \<and> ts_wdays ts < 128"

lemma exported_attributes:
  fixes ts :: TimeSpec
  assumes "is_element e" and "\<forall>n \<in> {''hour'', ''min'', ''day'', ''month'', ''year'', ''exception'', ''wdays'', ''offset''}. attribute e n = None"
  defines "x \<equiv> TimeSpec_exportXml ts e"
  shows "attribute x ''hour'' = (if ts_hour ts \<noteq> - 1 then Some (show_int (ts_hour ts)) else None)"
    "attribute x ''min'' = (if ts_min ts \<noteq> - 1 then Some (show_int (ts_min ts)) else None)"
    "attribute x ''day'' = (if ts_mday ts \<noteq> - 1 then Some (show_int (ts_mday ts)) else None)"
    "attribute x ''month'' = (if ts_mon ts \<noteq> - 1 then Some (show_int (ts_mon ts + 1)) else None)"
    "attribute x ''year'' = (if ts_year ts \<noteq> - 1 then Some (show_int (ts_year ts + 1900)) else None)"
    "attribute x ''exception'' = (case ts_exception ts of Yes \<Rightarrow> Some ''yes'' | No \<Rightarrow> Some ''no'' | DontCare \<Rightarrow> None)"
    "attribute x ''wdays'' = (if ts_wdays ts \<noteq> 0 then Some (format_wdays (ts_wdays ts)) else None)"
    "attribute x ''offset'' = (if ts_offset ts \<noteq> 0 then Some (formatDuration (ts_offset ts) False) else None)"
  using assms(1,2) unfolding x_def TimeSpec_exportXml_def Let_def
  by (simp_all add: attribute_when is_element_when split: ExceptionMode.split)

lemma TimeSpec_importXml_intro:
  assumes "attribute_int cfg ''year'' (- 1) = Inr y" "attribute_int cfg ''month'' (- 1) = Inr m"
      "attribute_int cfg ''day'' (- 1) = Inr d" "attribute_int cfg ''hour'' (- 1) = Inr h"
      "attribute_int cfg ''min'' (- 1) = Inr mi" "parseDuration (GetAttribute cfg ''offset'') True False = Inr off"
    and "ts = old\<lparr>ts_year := (if y \<ge> 1900 then y - 1900 else y), ts_mon := (if m \<ge> 0 then m - 1 else m),
                    ts_mday := d, ts_hour := h, ts_min := mi, ts_wdays := parse_wdays (GetAttribute cfg ''wdays''),
                    ts_exception := parse_exception (GetAttribute cfg ''exception''), ts_offset := off\<rparr>"
    and "TimeSpec_isValid ts"
  shows "TimeSpec_importXml cfg old = Inr ts"
  unfolding TimeSpec_importXml_def assms(1-6) res_bind_simps Let_def assms(7) [symmetric]
  using assms(8) by (simp add: checkIsValid_def)

lemma TimeSpec_isValid_class: "TimeSpec_isValid (ts\<lparr>ts_class := k\<rparr>) = TimeSpec_isValid ts"
proof -
  have sel: "ts_mday (ts\<lparr>ts_class := k\<rparr>) = ts_mday ts" "ts_mon (ts\<lparr>ts_class := k\<rparr>) = ts_mon ts"
    "ts_year (ts\<lparr>ts_class := k\<rparr>) = ts_year ts" "ts_hour (ts\<lparr>ts_class := k\<rparr>) = ts_hour ts"
    "ts_min (ts\<lparr>ts_class := k\<rparr>) = ts_min ts" by simp_all
  show ?thesis unfolding TimeSpec_isValid_def sel ..
qed

lemma TimeSpec_import_export:
  assumes ts: "exportable ts" and "is_element e"
    and "\<forall>n \<in> {''hour'', ''min'', ''day'', ''month'', ''year'', ''exception'', ''wdays'', ''offset''}. attribute e n = None"
  shows "TimeSpec_importXml (TimeSpec_exportXml ts e) old = Inr (ts\<lparr>ts_class := ts_class old\<rparr>)"
proof -
  let ?x = "TimeSpec_exportXml ts e"
  note as = exported_attributes [OF assms(2,3), of ts]
  have v: "TimeSpec_isValid ts" using ts by (simp add: exportable_def)
  note r = TimeSpec_isValid_ranges [OF v]
  have ints: "attribute_int ?x ''year'' (- 1) = Inr (if ts_year ts \<noteq> - 1 then ts_year ts + 1900 else - 1)"
    "attribute_int ?x ''month'' (- 1) = Inr (if ts_mon ts \<noteq> - 1 then ts_mon ts + 1 else - 1)"
    "attribute_int ?x ''day'' (- 1) = Inr (if ts_mday ts \<noteq> - 1 then ts_mday ts else - 1)"
    "attribute_int ?x ''hour'' (- 1) = Inr (if ts_hour ts \<noteq> - 1 then ts_hour ts else - 1)"
    "attribute_int ?x ''min'' (- 1) = Inr (if ts_min ts \<noteq> - 1 then ts_min ts else - 1)"
    using attribute_int_export [OF as(5)] attribute_int_export [OF as(4)] attribute_int_export [OF as(3)]
      attribute_int_export [OF as(1)] attribute_int_export [OF as(2)] ts r
    unfolding exportable_def by auto
  have wdays: "parse_wdays (GetAttribute ?x ''wdays'') = ts_wdays ts"
  proof (cases "ts_wdays ts = 0")
    case True
    then show ?thesis by (simp add: GetAttribute_def as(7) parse_wdays_def)
  next
    case False
    then show ?thesis using ts by (simp add: GetAttribute_def as(7) parse_format_wdays exportable_def)
  qed
  have exc: "parse_exception (GetAttribute ?x ''exception'') = ts_exception ts"
    by (simp add: GetAttribute_def as(6) parse_exception_def split: ExceptionMode.split)
  have offset: "parseDuration (GetAttribute ?x ''offset'') True False = Inr (ts_offset ts)"
  proof (cases "ts_offset ts = 0")
    case True
    then show ?thesis by (simp add: GetAttribute_def as(8) parseDuration_def)
  next
    case False
    then show ?thesis using ts by (simp add: GetAttribute_def as(8) parse_format_offset exportable_def)
  qed
  have y: "(if (if ts_year ts \<noteq> - 1 then ts_year ts + 1900 else - 1) \<ge> 1900
      then (if ts_year ts \<noteq> - 1 then ts_year ts + 1900 else - 1) - 1900
      else (if ts_year ts \<noteq> - 1 then ts_year ts + 1900 else - 1)) = ts_year ts"
    using ts by (auto simp: exportable_def)
  have m: "(if (if ts_mon ts \<noteq> - 1 then ts_mon ts + 1 else - 1) \<ge> 0
      then (if ts_mon ts \<noteq> - 1 then ts_mon ts + 1 else - 1) - 1
      else (if ts_mon ts \<noteq> - 1 then ts_mon ts + 1 else - 1)) = ts_mon ts"
    using r by auto
  have id: "(if i \<noteq> - 1 then i else - 1) = i" for i :: int by simp
  have ts': "old\<lparr>ts_year := ts_year ts, ts_mon := ts_mon ts, ts_mday := ts_mday ts, ts_hour := ts_hour ts,
      ts_min := ts_min ts, ts_wdays := ts_wdays ts, ts_exception := ts_exception ts, ts_offset := ts_offset ts\<rparr>
      = ts\<lparr>ts_class := ts_class old\<rparr>" by simp
  show ?thesis
  proof (rule TimeSpec_importXml_intro [OF ints offset])
    show "TimeSpec_isValid (ts\<lparr>ts_class := ts_class old\<rparr>)" using v by (simp only: TimeSpec_isValid_class)
    show "ts\<lparr>ts_class := ts_class old\<rparr> = old\<lparr>ts_year := (if (if ts_year ts \<noteq> - 1 then ts_year ts + 1900 else - 1) \<ge> 1900
      then (if ts_year ts \<noteq> - 1 then ts_year ts + 1900 else - 1) - 1900
      else (if ts_year ts \<noteq> - 1 then ts_year ts + 1900 else - 1)),
      ts_mon := (if (if ts_mon ts \<noteq> - 1 then ts_mon ts + 1 else - 1) \<ge> 0
      then (if ts_mon ts \<noteq> - 1 then ts_mon ts + 1 else - 1) - 1
      else (if ts_mon ts \<noteq> - 1 then ts_mon ts + 1 else - 1)),
      ts_mday := (if ts_mday ts \<noteq> - 1 then ts_mday ts else - 1), ts_hour := (if ts_hour ts \<noteq> - 1 then ts_hour ts else - 1),
      ts_min := (if ts_min ts \<noteq> - 1 then ts_min ts else - 1), ts_wdays := parse_wdays (GetAttribute ?x ''wdays''),
      ts_exception := parse_exception (GetAttribute ?x ''exception''), ts_offset := ts_offset ts\<rparr>"
      unfolding y m id wdays exc ts' ..
  qed
qed

lemma imported_exportable:
  assumes "TimeSpec_importXml cfg old = Inr ts" and "- 1 \<le> ts_year ts"
  shows "exportable ts \<and> ts_class ts = ts_class old"
proof -
  obtain y m d h mi off where a: "attribute_int cfg ''year'' (- 1) = Inr y" "attribute_int cfg ''month'' (- 1) = Inr m"
      "attribute_int cfg ''day'' (- 1) = Inr d" "attribute_int cfg ''hour'' (- 1) = Inr h"
      "attribute_int cfg ''min'' (- 1) = Inr mi" "parseDuration (GetAttribute cfg ''offset'') True False = Inr off"
    and ts: "ts = old\<lparr>ts_year := (if y \<ge> 1900 then y - 1900 else y), ts_mon := (if m \<ge> 0 then m - 1 else m),
                    ts_mday := d, ts_hour := h, ts_min := mi, ts_wdays := parse_wdays (GetAttribute cfg ''wdays''),
                    ts_exception := parse_exception (GetAttribute cfg ''exception''), ts_offset := off\<rparr>"
    and v: "checkIsValid ts = Inr ()"
    using assms(1) by (auto simp: TimeSpec_importXml_def Let_def res_bind_Inr)
  have "in_s32 y" "in_s32 d" "in_s32 h" "in_s32 mi" "in_s32 off"
    using a by (auto dest!: attribute_int_range parseDuration_range)
  moreover have "TimeSpec_isValid ts" using v by (simp add: checkIsValid_def split: if_splits)
  moreover have "0 \<le> ts_wdays ts \<and> ts_wdays ts < 128" using parse_wdays_range by (simp add: ts)
  moreover have "ts_year ts = (if y \<ge> 1900 then y - 1900 else y)" "ts_mday ts = d" "ts_hour ts = h" "ts_min ts = mi"
    "ts_offset ts = off" "ts_class ts = ts_class old" by (simp_all add: ts)
  ultimately show ?thesis using assms(2) by (auto simp: exportable_def)
qed

text \<open>
  A time specification survives its configuration: whatever \<open>importXml\<close> accepted, unless its year is negative,
  is read back unchanged from what \<open>exportXml\<close> writes, into an object with any old contents.
\<close>

theorem timespec_config_roundtrip:
  assumes "TimeSpec_importXml cfg old = Inr ts" and "- 1 \<le> ts_year ts" and "ts_class other = ts_class old"
  shows "TimeSpec_importXml (TimeSpec_exportXml ts (Element t [] [])) other = Inr ts"
  using TimeSpec_import_export [of ts "Element t [] []" other] imported_exportable [OF assms(1,2)] assms(3)
  by (simp add: attribute_fresh)

theorem timespec_config_roundtrip_witness:
  "TimeSpec_importXml (TimeSpec_exportXml (TimeSpec_of_week 30 6 0x1F No) (Element ''at'' [] [])) (TimeSpec_new FixedSpec)
     = Inr (TimeSpec_of_week 30 6 0x1F No)"
proof (rule timespec_config_roundtrip)
  show "TimeSpec_importXml (Element ''at'' [(''hour'', ''6''), (''min'', ''30''), (''wdays'', ''12345''), (''exception'', ''no'')] [])
      (TimeSpec_new FixedSpec) = Inr (TimeSpec_of_week 30 6 0x1F No)"
    by (simp add: TimeSpec_importXml_def TimeSpec_of_week_def TimeSpec_new_def attribute_int_def attribute_def GetAttribute_def
        scan_defs parse_wdays_def parse_exception_def parseDuration_def checkIsValid_def TimeSpec_isValid_def)
qed (simp_all add: TimeSpec_of_week_def TimeSpec_new_def)

end
