(* ===== verification/Schedule.thy ===== *)
theory Schedule
  imports TimeSpec
begin

text \<open>
  The search for the next execution time of a timer: \<open>PeriodicTask::findNext\<close> and \<open>goToNextDayAndFindNext\<close> of
  src/timermanager.cpp, with the virtual \<open>getDay\<close> and \<open>getTime\<close> of the specifications.  The search calls
  itself and resolves its target with loops that ask the calendar; all of them take fuel.
\<close>

text \<open>
  What the search asks the rest of the system for: the offset of the time zone, the values of the objects, the minute and hour at which
  the sun rises, sets or is at its highest on a day (year, month and day of the month), and the exception days.
\<close>

record schedule =
  sc_zone :: int
  sc_values :: "ptr \<Rightarrow> ObjectValue option"
  sc_sun :: "SpecClass \<Rightarrow> int \<Rightarrow> int \<Rightarrow> int \<Rightarrow> int \<times> int"
  sc_days :: "DaySpec list"

section \<open>The virtual functions of the specifications\<close>

text \<open>The solar specification takes the fields of \<open>current\<close> that are not set, and the next day when the sun was earlier.\<close>

definition SolarTimeSpec_getDay :: "nat \<Rightarrow> schedule \<Rightarrow> tm \<Rightarrow> TimeSpec \<Rightarrow> (int \<times> int \<times> int \<times> int) option" where
  "SolarTimeSpec_getDay n sc current ts =
     (case TimeSpec_getDay ts of (mday, mon, year, wdays) \<Rightarrow>
       let currentDate = setField Day mday True (setField Month mon True (setField Year year True (DateTime_new current)));
           (mi, h) = sc_sun sc (ts_class ts) (getField currentDate Year) (getField currentDate Month) (getField currentDate Day);
           solarTime = setField Minute mi True (setField Hour h True currentDate) in
       if fst (DateTime_getTime (sc_zone sc) solarTime) < fst (DateTime_getTime (sc_zone sc) currentDate) then
         (case tryResolve n (sc_zone sc) currentDate Year Day
                 (snd (tryIncreaseClosestGreaterFreeField Day solarTime)) of
            None \<Rightarrow> None
          | Some (_, solarTime) \<Rightarrow> Some (getField solarTime Day, getField solarTime Month, getField solarTime Year, wdays))
       else Some (getField solarTime Day, getField solarTime Month, getField solarTime Year, wdays))"

definition spec_getDay :: "nat \<Rightarrow> schedule \<Rightarrow> tm \<Rightarrow> TimeSpec \<Rightarrow> (int \<times> int \<times> int \<times> int) option" where
  "spec_getDay n sc current ts =
     (case ts_class ts of
        FixedSpec \<Rightarrow> Some (TimeSpec_getDay ts)
      | VariableSpec _ _ \<Rightarrow> Some (VariableTimeSpec_getDay (sc_values sc) ts)
      | _ \<Rightarrow> SolarTimeSpec_getDay n sc current ts)"

definition spec_getTime :: "schedule \<Rightarrow> int \<Rightarrow> int \<Rightarrow> int \<Rightarrow> TimeSpec \<Rightarrow> int \<times> int" where
  "spec_getTime sc mday mon year ts =
     (case ts_class ts of
        FixedSpec \<Rightarrow> TimeSpec_getTime ts
      | VariableSpec _ _ \<Rightarrow> VariableTimeSpec_getTime (sc_values sc) ts
      | k \<Rightarrow> sc_sun sc k year mon mday)"

section \<open>The search\<close>

text \<open>Moving forward one minute, and to the last minute of a day.\<close>

definition next_minute :: "int \<Rightarrow> int \<Rightarrow> tm" where
  "next_minute zone start =
     (let t = localtime zone start in localtime zone (mktime zone (t\<lparr>tm_min := tm_min t + 1\<rparr>)))"

definition goToNextDay :: "int \<Rightarrow> DateTime \<Rightarrow> int" where
  "goToNextDay zone current = mktime zone ((snd (DateTime_getTime zone current))\<lparr>tm_hour := 23, tm_min := 59\<rparr>)"

text \<open>The target with the day, or the time, that a specification asks for.\<close>

definition day_target :: "int \<times> int \<times> int \<times> int \<Rightarrow> DateTime \<Rightarrow> DateTime" where
  "day_target spec dt =
     (case spec of (mday, mon, year, wdays) \<Rightarrow>
       let (mday, mon, year) = (if wdays \<noteq> 0 then (- 1, - 1, - 1) else (mday, mon, year))
       in (setField Day mday True (setField Month mon True (setField Year year True dt)))\<lparr>weekdays_m := wdays\<rparr>)"

definition time_target :: "int \<times> int \<Rightarrow> DateTime \<Rightarrow> DateTime" where
  "time_target spec dt = (case spec of (mi, h) \<Rightarrow> setField Minute mi True (setField Hour h True dt))"

text \<open>Whether a time is excluded by the exception days.\<close>

definition excluded :: "schedule \<Rightarrow> TimeSpec \<Rightarrow> int \<Rightarrow> bool" where
  "excluded sc ts t =
     (ts_exception ts \<noteq> DontCare \<and>
      (let e = isException (sc_zone sc) (sc_days sc) t
       in e \<and> ts_exception ts = No \<or> \<not> e \<and> ts_exception ts = Yes))"

text \<open>The result 0 means that nothing is scheduled.\<close>

fun findNext :: "nat \<Rightarrow> schedule \<Rightarrow> int \<Rightarrow> TimeSpec option \<Rightarrow> int option" where
  "findNext 0 sc start next = None"
| "findNext (Suc n) sc start None = Some 0"
| "findNext (Suc n) sc start (Some ts) =
     (if \<not> TimeSpec_isValid ts then Some 0
      else
        let timeinfo = next_minute (sc_zone sc) start; current = DateTime_new timeinfo in
        case spec_getDay n sc timeinfo ts of
          None \<Rightarrow> None
        | Some day \<Rightarrow>
        (case tryResolve n (sc_zone sc) current Year Day (day_target day current) of
          None \<Rightarrow> None
        | Some (Resolution_Unresolved, target) \<Rightarrow> findNext n sc (goToNextDay (sc_zone sc) target) (Some ts)
        | Some (Resolution_Impossible, target) \<Rightarrow> Some 0
        | Some (Resolution_Resolved, target) \<Rightarrow>
        (case tryResolve n (sc_zone sc) current Hour Minute
                (time_target (spec_getTime sc (getField target Day) (getField target Month) (getField target Year) ts) target) of
          None \<Rightarrow> None
        | Some (Resolution_Unresolved, target) \<Rightarrow> findNext n sc (goToNextDay (sc_zone sc) target) (Some ts)
        | Some (Resolution_Impossible, target) \<Rightarrow> Some 0
        | Some (Resolution_Resolved, target) \<Rightarrow>
            (let nextExecTime = fst (DateTime_getTime (sc_zone sc) target) in
             if nextExecTime \<le> start then Some 0
             else if excluded sc ts nextExecTime then findNext n sc (goToNextDay (sc_zone sc) target) (Some ts)
             else if nextExecTime + ts_offset ts \<le> start then findNext n sc nextExecTime (Some ts)
             else Some (nextExecTime + ts_offset ts)))))"

end
