(* ===== verification/DateTime_Laws.thy ===== *)
theory DateTime_Laws
  imports DateTime
begin

text \<open>
  What the operations of \<open>DateTime\<close> do to the fields, and what resolving a target means: it never passes over a point
  in time that meets the constraints, and when it gives up there is none.
\<close>

section \<open>Fields and bits\<close>

text \<open>The least value of a field.\<close>

definition least :: "nat \<Rightarrow> int" where
  "least f = (if f = Day then 1 else 0)"

definition wf :: "DateTime \<Rightarrow> bool" where
  "wf dt \<longleftrightarrow> length (fields_m dt) = 5"

lemma wf_new [simp]: "wf (DateTime_new t)"
  by (simp add: wf_def DateTime_new_def)

lemma isFieldFree_bit: "isFieldFree dt f \<longleftrightarrow> bit (freeFields_m dt) f"
  by (simp add: isFieldFree_def bit_iff_and_push_bit_not_eq_0)

lemma free_new: "f \<le> Minute \<Longrightarrow> isFieldFree (DateTime_new t) f"
proof -
  assume "f \<le> Minute"
  then have "f = 0 \<or> f = 1 \<or> f = 2 \<or> f = 3 \<or> f = 4" by linarith
  then show ?thesis by (auto simp: isFieldFree_def DateTime_new_def)
qed

definition reset_from :: "nat \<Rightarrow> DateTime \<Rightarrow> int list \<Rightarrow> int list" where
  "reset_from f dt xs = map (\<lambda>k. if f \<le> k \<and> isFieldFree dt k then least k else xs ! k) [0 ..< 5]"

lemma length_reset_from [simp]: "length (reset_from f dt xs) = 5"
  by (simp add: reset_from_def)

lemma nth_reset_from: "k < 5 \<Longrightarrow> reset_from f dt xs ! k = (if f \<le> k \<and> isFieldFree dt k then least k else xs ! k)"
  by (simp add: reset_from_def)

lemma reset_from_free: "freeFields_m dt = freeFields_m dt' \<Longrightarrow> reset_from f dt xs = reset_from f dt' xs"
  by (simp add: reset_from_def isFieldFree_def)

lemma resetFieldIfFree_fields:
  "f \<le> Minute \<Longrightarrow> wf dt \<Longrightarrow> resetFieldIfFree f True dt = dt\<lparr>fields_m := reset_from f dt (fields_m dt)\<rparr>"
proof (induction "Minute - f" arbitrary: f dt)
  case 0
  then have f: "f = Minute" by simp
  show ?case
  proof (cases "isFieldFree dt f")
    case True
    have "(fields_m dt)[4 := 0] = reset_from 4 dt (fields_m dt)"
      using 0 True f by (intro nth_equalityI) (auto simp: nth_reset_from wf_def least_def nth_list_update)
    then show ?thesis using True f by (simp add: resetFieldIfFree.simps setField.simps)
  next
    case False
    have "\<not> (4 \<le> i \<and> isFieldFree dt i)" if "i < 5" for i
      using that False f by (cases "i = 4") auto
    then have "fields_m dt = reset_from 4 dt (fields_m dt)"
      using 0 False f by (intro nth_equalityI) (auto simp: nth_reset_from wf_def)
    then show ?thesis using False f by (simp add: resetFieldIfFree.simps)
  qed
next
  case (Suc n)
  then have lt: "f < Minute" and n: "n = Minute - (f + 1)" by auto
  note IH = Suc(1) [OF n]
  let ?v = "if f = Day then 1 else 0 :: int"
  have v: "?v \<noteq> - 1" "?v = least f" by (simp_all add: least_def)
  show ?case
  proof (cases "isFieldFree dt f")
    case True
    let ?d2 = "dt\<lparr>fields_m := (fields_m dt)[f := least f]\<rparr>"
    let ?d1 = "dt\<lparr>fields_m := reset_from (f + 1) dt ((fields_m dt)[f := least f])\<rparr>"
    have "setField f ?v False dt = resetFieldIfFree (f + 1) True ?d2"
      using lt unfolding v(2) by (simp add: setField.simps least_def)
    also have "\<dots> = ?d1" using IH [of ?d2] lt Suc.prems by (simp add: wf_def reset_from_def isFieldFree_def)
    finally have s: "setField f ?v False dt = ?d1" .
    have "resetFieldIfFree f True dt = resetFieldIfFree (f + 1) True ?d1"
      using True lt s by (simp add: resetFieldIfFree.simps [of f] Let_def)
    also have "\<dots> = ?d1\<lparr>fields_m := reset_from (f + 1) ?d1 (fields_m ?d1)\<rparr>" using IH [of ?d1] lt by (simp add: wf_def)
    also have "\<dots> = dt\<lparr>fields_m := reset_from f dt (fields_m dt)\<rparr>"
    proof -
      have "reset_from (f + 1) ?d1 (fields_m ?d1) = reset_from f dt (fields_m dt)"
        using True Suc.prems lt
        by (intro nth_equalityI) (auto simp: nth_reset_from wf_def isFieldFree_def nth_list_update not_less_eq_eq)
      then show ?thesis by simp
    qed
    finally show ?thesis .
  next
    case False
    have "resetFieldIfFree f True dt = resetFieldIfFree (f + 1) True dt"
      using False lt by (simp add: resetFieldIfFree.simps [of f])
    also have "\<dots> = dt\<lparr>fields_m := reset_from (f + 1) dt (fields_m dt)\<rparr>" using IH [of dt] lt Suc.prems by simp
    also have "reset_from (f + 1) dt (fields_m dt) = reset_from f dt (fields_m dt)"
      using False by (intro nth_equalityI) (auto simp: nth_reset_from not_less_eq_eq le_antisym)
    finally show ?thesis .
  qed
qed

text \<open>A value that is set resets what is free below it; -1 only frees the field.\<close>

definition fixes_field :: "nat \<Rightarrow> bool \<Rightarrow> DateTime \<Rightarrow> bool" where
  "fixes_field f fx dt \<longleftrightarrow> fx \<and> (f > Day \<or> weekdays_m dt = 0)"

lemma setField_frees [simp]:
  "fields_m (setField f (- 1) fx dt) = fields_m dt" "weekdays_m (setField f (- 1) fx dt) = weekdays_m dt"
  "isFieldFree (setField f (- 1) fx dt) k \<longleftrightarrow> k = f \<or> isFieldFree dt k"
  by (auto simp: setField.simps isFieldFree_bit bit_simps)

lemma setField_value:
  assumes "v \<noteq> - 1" and "f \<le> Minute" and "wf dt"
  shows "weekdays_m (setField f v fx dt) = weekdays_m dt"
    "wf (setField f v fx dt)"
    "isFieldFree (setField f v fx dt) k \<longleftrightarrow> isFieldFree dt k \<and> \<not> (k = f \<and> fixes_field f fx dt)"
    "k < 5 \<Longrightarrow> getField (setField f v fx dt) k =
       (if k = f then v else if f < k \<and> isFieldFree dt k then least k else getField dt k)"
proof -
  define d1 where "d1 = (if fixes_field f fx dt then dt\<lparr>freeFields_m := freeFields_m dt AND NOT (push_bit f 1)\<rparr> else dt)"
  define d2 where "d2 = d1\<lparr>fields_m := (fields_m d1)[f := v]\<rparr>"
  have s: "setField f v fx dt = (if f < Minute then resetFieldIfFree (f + 1) True d2 else d2)"
    using assms(1) unfolding setField.simps [of f v] d2_def d1_def fixes_field_def by (simp add: Let_def)
  have d2: "wf d2" "weekdays_m d2 = weekdays_m dt" "fields_m d2 = (fields_m dt)[f := v]"
    "isFieldFree d2 k \<longleftrightarrow> isFieldFree dt k \<and> \<not> (k = f \<and> fixes_field f fx dt)" for k
    using assms(3) by (auto simp: d2_def d1_def wf_def isFieldFree_bit bit_simps)
  have e: "setField f v fx dt = (if f < Minute then d2\<lparr>fields_m := reset_from (f + 1) d2 (fields_m d2)\<rparr> else d2)"
    unfolding s using resetFieldIfFree_fields [of "f + 1" d2] d2(1) by auto
  show "weekdays_m (setField f v fx dt) = weekdays_m dt" "wf (setField f v fx dt)"
    "isFieldFree (setField f v fx dt) k \<longleftrightarrow> isFieldFree dt k \<and> \<not> (k = f \<and> fixes_field f fx dt)"
    unfolding e using d2 by (auto simp: wf_def isFieldFree_def)
  show "getField (setField f v fx dt) k =
       (if k = f then v else if f < k \<and> isFieldFree dt k then least k else getField dt k)" if "k < 5"
    unfolding e using d2(2-4) that assms(2,3)
    by (auto simp: getField_def nth_reset_from d2(4) nth_list_update wf_def Suc_le_eq)
qed

section \<open>Points in time\<close>

text \<open>Points are compared field by field, the year first.\<close>

definition lex_le :: "(nat \<Rightarrow> int) \<Rightarrow> (nat \<Rightarrow> int) \<Rightarrow> bool" where
  "lex_le a b \<longleftrightarrow> (\<forall>i < 5. a i = b i) \<or> (\<exists>i < 5. (\<forall>j < i. a j = b j) \<and> a i < b i)"

lemma lex_le_refl [simp]: "lex_le a a"
  by (simp add: lex_le_def)

lemma lex_le_less: "i < 5 \<Longrightarrow> \<forall>j < i. a j = b j \<Longrightarrow> a i < b i \<Longrightarrow> lex_le a b"
  by (auto simp: lex_le_def)

lemma lex_le_suffix:
  assumes "\<forall>j < i. a j = b j" and "\<forall>j < 5. i \<le> j \<longrightarrow> a j \<le> b j"
  shows "lex_le a b"
proof (cases "\<forall>j < 5. a j = b j")
  case True
  then show ?thesis by (simp add: lex_le_def)
next
  case False
  then obtain k where k: "k < 5 \<and> a k \<noteq> b k" and least_k: "\<forall>j < k. \<not> (j < 5 \<and> a j \<noteq> b j)"
    using exists_least_iff [of "\<lambda>j. j < 5 \<and> a j \<noteq> b j"] by blast
  then have "\<forall>j < k. a j = b j" by auto
  moreover have "i \<le> k" using assms(1) k by (meson not_le)
  then have "a k < b k" using assms(2) k by fastforce
  ultimately show ?thesis using k lex_le_less by blast
qed

lemma lex_le_prefix:
  assumes "lex_le a b"
  obtains "\<forall>j < n. j < 5 \<longrightarrow> a j = b j" | i where "i < n" "i < 5" "\<forall>j < i. a j = b j" "a i < b i"
proof (cases "\<forall>j < 5. a j = b j")
  case True
  then show ?thesis using that(1) by blast
next
  case False
  then obtain i where i: "i < 5" "\<forall>j < i. a j = b j" "a i < b i" using assms by (auto simp: lex_le_def)
  show ?thesis
  proof (cases "i < n")
    case True
    then show ?thesis using that(2) i by blast
  next
    case False
    then show ?thesis using that(1) i by (meson less_le_trans not_le)
  qed
qed

text \<open>A point that has the fixed fields of a target.\<close>

definition meets :: "DateTime \<Rightarrow> (nat \<Rightarrow> int) \<Rightarrow> bool" where
  "meets dt X \<longleftrightarrow> (\<forall>k < 5. least k \<le> X k \<and> (\<not> isFieldFree dt k \<longrightarrow> X k = getField dt k))"

lemma lex_le_setField:
  assumes "lex_le (getField dt) X" and "X f = v" and "v \<noteq> - 1" and "f \<le> Minute" and "wf dt"
    and "\<forall>k < 5. f < k \<longrightarrow> (if isFieldFree dt k then least k else getField dt k) \<le> X k"
  shows "lex_le (getField (setField f v fx dt)) X"
proof -
  let ?d = "setField f v fx dt"
  note d = setField_value(4) [OF assms(3-5), of _ fx]
  consider "\<forall>j < f. j < 5 \<longrightarrow> getField dt j = X j" | i where "i < f" "i < 5" "\<forall>j < i. getField dt j = X j" "getField dt i < X i"
    using assms(1) by (rule lex_le_prefix)
  then show ?thesis
  proof cases
    case 1
    show ?thesis
    proof (rule lex_le_suffix [of f])
      show "\<forall>j < f. getField ?d j = X j" using 1 assms(4) d by auto
      show "\<forall>j < 5. f \<le> j \<longrightarrow> getField ?d j \<le> X j" using assms(2,6) d by (auto split: if_splits)
    qed
  next
    case 2
    then show ?thesis using d by (intro lex_le_less [of i]) auto
  qed
qed

section \<open>Increasing a field\<close>

lemma closest_free_Some:
  "closest_free dt f = Some g \<Longrightarrow> g \<le> f \<and> isFieldFree dt g \<and> (\<forall>j. g < j \<and> j \<le> f \<longrightarrow> \<not> isFieldFree dt j)"
  by (induction f) (auto split: if_splits simp: le_Suc_eq)

lemma closest_free_None: "closest_free dt f = None \<Longrightarrow> \<forall>j \<le> f. \<not> isFieldFree dt j"
  by (induction f) (auto split: if_splits simp: le_Suc_eq)

text \<open>What stays the same when a target is adjusted.\<close>

definition same_frame :: "DateTime \<Rightarrow> DateTime \<Rightarrow> bool" where
  "same_frame dt dt' \<longleftrightarrow>
     wf dt' \<and> freeFields_m dt' = freeFields_m dt \<and> weekdays_m dt' = weekdays_m dt
     \<and> (\<forall>k < 5. \<not> isFieldFree dt k \<longrightarrow> getField dt' k = getField dt k)"

lemma same_frame_refl: "wf dt \<Longrightarrow> same_frame dt dt"
  by (simp add: same_frame_def)

lemma same_frame_free: "same_frame dt dt' \<Longrightarrow> isFieldFree dt' k = isFieldFree dt k"
  by (simp add: same_frame_def isFieldFree_def)

lemma same_frame_trans: "same_frame a b \<Longrightarrow> same_frame b c \<Longrightarrow> same_frame a c"
  by (auto simp: same_frame_def isFieldFree_def)

lemma same_frame_meets: "same_frame dt dt' \<Longrightarrow> meets dt' X = meets dt X"
  by (auto simp: meets_def same_frame_free) (auto simp: same_frame_def)

lemma same_frame_setField:
  assumes "v \<noteq> - 1" and "f \<le> Minute" and "wf dt" and "isFieldFree dt f"
  shows "same_frame dt (setField f v False dt)"
proof -
  have "freeFields_m (setField f v False dt) = freeFields_m dt"
    by (rule bit_eqI) (use setField_value(3) [OF assms(1-3), of False] in \<open>simp add: isFieldFree_bit fixes_field_def\<close>)
  then show ?thesis
    using setField_value(1,2) [OF assms(1-3), of False] setField_value(4) [OF assms(1-3), of _ False] assms(4)
    by (auto simp: same_frame_def)
qed

section \<open>Resolving without the weekdays\<close>

text \<open>A target that has reached the current time in its first \<open>n\<close> fields, and the ways in which it was moved.\<close>

definition ahead :: "nat \<Rightarrow> (nat \<Rightarrow> int) \<Rightarrow> (nat \<Rightarrow> int) \<Rightarrow> bool" where
  "ahead n c a \<longleftrightarrow> (\<forall>j < n. a j = c j) \<or> (\<exists>i < n. (\<forall>j < i. a j = c j) \<and> c i < a i)"

definition moved :: "(nat \<Rightarrow> int) \<Rightarrow> DateTime \<Rightarrow> DateTime \<Rightarrow> bool" where
  "moved c dt dt' \<longleftrightarrow>
     (\<exists>i < 5. isFieldFree dt i \<and> (\<forall>j < i. getField dt' j = c j) \<and> (getField dt' i = c i \<or> (\<exists>f. i < f \<and> f \<le> Minute \<and> \<not> isFieldFree dt f) \<and> getField dt' i = c i + 1)
        \<and> (\<forall>j < 5. i < j \<longrightarrow> getField dt' j = (if isFieldFree dt j then least j else getField dt j)))"

lemma aheadI: "i < n \<Longrightarrow> \<forall>j < i. a j = c j \<Longrightarrow> c i < a i \<Longrightarrow> ahead n c a"
  unfolding ahead_def by blast

lemma movedI:
  assumes "i < 5" and "isFieldFree dt i" and "\<forall>j < i. getField dt' j = c j"
    and "getField dt' i = c i \<or> (\<exists>f. i < f \<and> f \<le> Minute \<and> \<not> isFieldFree dt f) \<and> getField dt' i = c i + 1"
    and "\<forall>j < 5. i < j \<longrightarrow> getField dt' j = (if isFieldFree dt j then least j else getField dt j)"
  shows "moved c dt dt'"
  unfolding moved_def using assms by blast

lemma lex_le_moved:
  assumes "meets dt X" and "\<forall>j < i. a j = X j" and "a i \<le> X i" and "i < 5"
    and "\<forall>j < 5. i < j \<longrightarrow> a j = (if isFieldFree dt j then least j else getField dt j)"
  shows "lex_le a X"
  using assms by (intro lex_le_suffix [of i]) (auto simp: meets_def le_less)

lemma tryIncrease_fixed:
  assumes "wf dt" and "f \<le> Minute" and "\<forall>j < f. getField dt j = c j" and "\<not> isFieldFree dt f"
    and "getField dt f < c f" and "\<forall>j < 5. 0 \<le> c j" and r: "tryIncreaseClosestGreaterFreeField f dt = (b, dt')"
  shows "if b then same_frame dt dt' \<and> moved c dt dt' \<and> ahead (Suc f) c (getField dt') else dt' = dt"
    and "meets dt X \<Longrightarrow> lex_le c X \<Longrightarrow> b \<and> lex_le (getField dt') X"
proof -
  have first: "\<exists>i < f. isFieldFree dt i \<and> (\<forall>j < i. X j = c j) \<and> c i < X i"
    if X: "meets dt X" "lex_le c X"
  proof -
    have f: "X f = getField dt f" using X(1) assms(2,4) by (simp add: meets_def)
    consider "\<forall>j < Suc f. j < 5 \<longrightarrow> c j = X j" | i where "i < Suc f" "i < 5" "\<forall>j < i. c j = X j" "c i < X i"
      using X(2) by (rule lex_le_prefix)
    then show ?thesis
    proof cases
      case 1
      then show ?thesis using f assms(2,5) by fastforce
    next
      case 2
      then have "i \<noteq> f" using f assms(5) by auto
      then have i: "i < f" using 2 by simp
      have "isFieldFree dt i"
      proof (rule ccontr)
        assume "\<not> isFieldFree dt i"
        then have "X i = c i" using X(1) 2(2) assms(3) i by (simp add: meets_def)
        then show False using 2(4) by simp
      qed
      then show ?thesis using 2 i by auto
    qed
  qed
  show "if b then same_frame dt dt' \<and> moved c dt dt' \<and> ahead (Suc f) c (getField dt') else dt' = dt"
    and "meets dt X \<Longrightarrow> lex_le c X \<Longrightarrow> b \<and> lex_le (getField dt') X"
  proof (atomize (full), cases "closest_free dt f")
    case None
    then have "b = False" "dt' = dt" using r by (auto simp: tryIncreaseClosestGreaterFreeField_def)
    moreover have "\<not> (meets dt X \<and> lex_le c X)" using first closest_free_None [OF None] by fastforce
    ultimately show "(if b then same_frame dt dt' \<and> moved c dt dt' \<and> ahead (Suc f) c (getField dt') else dt' = dt) \<and>
        (meets dt X \<longrightarrow> lex_le c X \<longrightarrow> b \<and> lex_le (getField dt') X)" by simp
  next
    case (Some g)
    note g = closest_free_Some [OF Some]
    have "g \<noteq> f" using g assms(4) by auto
    then have gf: "g < f" using g by simp
    have gc: "getField dt g = c g" using assms(3) gf by simp
    have b: "b" and dt': "dt' = setField g (c g + 1) False dt"
      using r Some gc by (auto simp: tryIncreaseClosestGreaterFreeField_def increaseField_def)
    have v: "c g + 1 \<noteq> - 1" "g \<le> Minute" using assms(2,6) gf by (auto dest: spec [of _ g])
    note fields = setField_value(4) [OF v assms(1), of _ False]
    have before: "\<forall>j < g. getField dt' j = c j" and at: "getField dt' g = c g + 1"
      and after: "\<forall>j < 5. g < j \<longrightarrow> getField dt' j = (if isFieldFree dt j then least j else getField dt j)"
      using fields gf v assms(3) by (auto simp: dt')
    have "same_frame dt dt'" using same_frame_setField [OF v assms(1)] g by (simp add: dt')
    moreover have "moved c dt dt'" using before at after g v gf assms(2) by (intro movedI [of g]) auto
    moreover have "ahead (Suc f) c (getField dt')" using before at gf by (intro aheadI [of g]) auto
    moreover have "lex_le (getField dt') X" if X: "meets dt X" "lex_le c X"
    proof -
      obtain i where i: "i < f" "isFieldFree dt i" "\<forall>j < i. X j = c j" "c i < X i" using first [OF X] by blast
      then have "i \<le> g" using g by (meson less_imp_le not_le)
      show ?thesis
      proof (cases "i = g")
        case True
        then show ?thesis using i at before after X(1) v by (intro lex_le_moved [of dt X g]) auto
      next
        case False
        then show ?thesis using i \<open>i \<le> g\<close> before v by (intro lex_le_less [of i]) auto
      qed
    qed
    ultimately show "(if b then same_frame dt dt' \<and> moved c dt dt' \<and> ahead (Suc f) c (getField dt') else dt' = dt) \<and>
        (meets dt X \<longrightarrow> lex_le c X \<longrightarrow> b \<and> lex_le (getField dt') X)" using b by simp
  qed
qed

text \<open>The second loop, entered where the target and the current time agree.\<close>

lemma resolve_fields:
  assumes "wf dt" and "to \<le> Minute" and "k \<le> Suc to" and "\<forall>j < k. getField dt j = c j" and "\<forall>j < 5. 0 \<le> c j"
    and "c = getField cur" and "resolve_fields cur [k ..< Suc to] dt = (b, dt')"
  shows "b \<longrightarrow> same_frame dt dt' \<and> (dt' = dt \<or> moved c dt dt') \<and> ahead (Suc to) c (getField dt')"
    and "meets dt X \<Longrightarrow> lex_le c X \<Longrightarrow> lex_le (getField dt) X \<Longrightarrow> b \<and> lex_le (getField dt') X"
  using assms(1,3,4,7)
proof (atomize (full), induction "Suc to - k" arbitrary: k dt)
  case 0
  then have k: "k = Suc to" by simp
  then have "dt' = dt" "b" using 0 by auto
  moreover have "ahead (Suc to) c (getField dt)" using 0 k by (auto simp: ahead_def)
  ultimately show ?case using 0 by (auto simp: same_frame_refl)
next
  case (Suc n)
  then have k: "k < Suc to" and n: "n = Suc to - Suc k" by auto
  have r: "resolve_fields cur (k # [Suc k ..< Suc to]) dt = (b, dt')"
    unfolding upt_conv_Cons [OF k, symmetric] using Suc.prems by blast
  have k4: "k \<le> Minute" "k < 5" using k assms(2) by auto
  have prefix: "\<forall>j < k. getField dt j = c j" and wf: "wf dt" using Suc.prems by auto
  consider "getField dt k < c k" "isFieldFree dt k" | "getField dt k < c k" "\<not> isFieldFree dt k"
    | "getField dt k > c k" | "getField dt k = c k" by linarith
  then show ?case
  proof cases
    case 1
    let ?d = "setField k (c k) False dt"
    have v: "c k \<noteq> - 1" using assms(5) k4 by (auto dest: spec [of _ k])
    note d = setField_value(2) [OF v k4(1) wf, of False]
    have sf: "same_frame dt ?d" using same_frame_setField [OF v k4(1) wf 1(2)] .
    have fields: "getField ?d j = (if j = k then c k else if k < j \<and> isFieldFree dt j then least j else getField dt j)"
      if "j < 5" for j using setField_value(4) [OF v k4(1) wf that, of False] .
    have pre: "\<forall>j < Suc k. getField ?d j = c j" using fields prefix k4 by (auto simp: less_Suc_eq)
    have at: "getField ?d k = c k" and after: "\<forall>j < 5. k < j \<longrightarrow> getField ?d j = (if isFieldFree dt j then least j else getField dt j)"
      using fields k4 by auto
    have mv: "moved c dt ?d" using 1 pre k4 at after by (intro movedI [of k]) (auto simp del: all_simps)
    have "resolve_fields cur [Suc k ..< Suc to] ?d = (b, dt')" using r 1 assms(6) by (simp add: Let_def)
    then have IH: "(b \<longrightarrow> same_frame ?d dt' \<and> (dt' = ?d \<or> moved c ?d dt') \<and> ahead (Suc to) c (getField dt'))
        \<and> (meets ?d X \<longrightarrow> lex_le c X \<longrightarrow> lex_le (getField ?d) X \<longrightarrow> b \<and> lex_le (getField dt') X)"
      using Suc.hyps(1) [OF n, of ?d] d k pre by simp
    have "moved c dt dt'" if "moved c ?d dt'"
    proof -
      obtain i where i: "i < 5" "isFieldFree ?d i" "\<forall>j < i. getField dt' j = c j"
        "getField dt' i = c i \<or> (\<exists>f. i < f \<and> f \<le> Minute \<and> \<not> isFieldFree ?d f) \<and> getField dt' i = c i + 1"
        "\<forall>j < 5. i < j \<longrightarrow> getField dt' j = (if isFieldFree ?d j then least j else getField ?d j)"
        using \<open>moved c ?d dt'\<close> unfolding moved_def by blast
      show ?thesis
      proof (rule movedI [of i])
        show "\<forall>j < 5. i < j \<longrightarrow> getField dt' j = (if isFieldFree dt j then least j else getField dt j)"
          using i(5) fields same_frame_free [OF sf] 1(2) by auto
      qed (use i same_frame_free [OF sf] in auto)
    qed
    moreover have "lex_le (getField ?d) X" if X: "meets dt X" "lex_le c X"
    proof -
      consider "\<forall>j < Suc k. j < 5 \<longrightarrow> c j = X j" | i where "i < Suc k" "i < 5" "\<forall>j < i. c j = X j" "c i < X i"
        using X(2) by (rule lex_le_prefix)
      then show ?thesis
      proof cases
        assume "\<forall>j < Suc k. j < 5 \<longrightarrow> c j = X j"
        then have "\<forall>j < Suc k. getField ?d j = X j" using pre k4 by simp
        then show ?thesis using X(1) after k4 by (intro lex_le_moved [of dt X k]) (auto simp del: all_simps)
      next
        fix i assume "i < Suc k" "i < 5" "\<forall>j < i. c j = X j" "c i < X i"
        then show ?thesis using pre by (intro lex_le_less [of i]) auto
      qed
    qed
    ultimately show ?thesis using IH mv sf same_frame_meets [OF sf, of X] same_frame_trans [OF sf] by blast
  next
    case 2
    then have "tryIncreaseClosestGreaterFreeField k dt = (b, dt')" using r assms(6) by (simp add: Let_def)
    note t = tryIncrease_fixed [OF wf k4(1) prefix 2(2,1) assms(5) this]
    have ah: "ahead (Suc to) c (getField dt')" if "ahead (Suc k) c (getField dt')" "b"
    proof -
      have "same_frame dt dt'" using t(1) that(2) by simp
      then have "getField dt' k = getField dt k" using 2(2) k4(2) by (simp add: same_frame_def)
      then have "getField dt' k \<noteq> c k" using 2(1) by simp
      then have "\<not> (\<forall>j < Suc k. getField dt' j = c j)" by (meson lessI)
      then have "\<exists>i < Suc k. (\<forall>j < i. getField dt' j = c j) \<and> c i < getField dt' i"
        using that(1) unfolding ahead_def by (simp only: simp_thms)
      then obtain i where i: "i < Suc k" "\<forall>j < i. getField dt' j = c j" "c i < getField dt' i" by (elim exE conjE)
      have "i < Suc to" using i(1) k by simp
      then show ?thesis using i(2,3) by (rule aheadI)
    qed
    show ?thesis
    proof (cases b)
      case True
      then show ?thesis using t(1) ah t(2) [of X] by simp
    next
      case False
      then have "\<not> (meets dt X \<and> lex_le c X)" using t(2) [of X] by blast
      then show ?thesis using False by blast
    qed
  next
    case 3
    then have "dt' = dt" "b" using r assms(6) by (auto simp: Let_def)
    moreover have "ahead (Suc to) c (getField dt)" using 3 k prefix by (intro aheadI [of k]) auto
    ultimately show ?thesis using wf by (auto simp: same_frame_refl)
  next
    case 4
    then have "resolve_fields cur [Suc k ..< Suc to] dt = (b, dt')" using r assms(6) by (simp add: Let_def)
    then show ?thesis using Suc.hyps(1) [OF n, of dt] wf k prefix 4 by (simp add: less_Suc_eq)
  qed
qed

lemma ahead_cases:
  assumes "ahead n c a"
  obtains "\<forall>j < n. a j = c j" | i where "i < n" "\<forall>j < i. a j = c j" "c i < a i"
  using assms unfolding ahead_def by blast

lemma compare_fields_same:
  "k \<le> n \<Longrightarrow> \<forall>j < n. getField dt j = getField cur j \<Longrightarrow> compare_fields cur [k ..< n] dt = None"
  by (induction "n - k" arbitrary: k) (simp_all add: upt_conv_Cons)

lemma compare_fields_greater:
  assumes "i < n" and "\<forall>j < i. getField dt j = getField cur j" and "getField cur i < getField dt i"
  shows "k \<le> i \<Longrightarrow> compare_fields cur [k ..< n] dt = Some True"
  using assms
  by (induction "i - k" arbitrary: k) (simp_all add: upt_conv_Cons)

lemma resolve_fields_ahead:
  assumes "ahead (Suc to) (getField cur) (getField dt)" and "k \<le> Suc to" and "\<forall>j < k. getField dt j = getField cur j"
  shows "resolve_fields cur [k ..< Suc to] dt = (True, dt)"
  using assms(2,3)
proof (induction "Suc to - k" arbitrary: k)
  case 0
  then show ?case by simp
next
  case (Suc n)
  have le: "getField cur k \<le> getField dt k" using assms(1)
  proof (rule ahead_cases)
    fix i assume "i < Suc to" "\<forall>j < i. getField dt j = getField cur j" "getField cur i < getField dt i"
    then show ?thesis using Suc.prems(2) by (cases "k < i"; cases "k = i") (auto dest: spec [of _ i])
  qed (use Suc in simp)
  have k: "k < Suc to" using Suc by simp
  show ?case
  proof (cases "getField dt k = getField cur k")
    case True
    then have "resolve_fields cur [Suc k ..< Suc to] dt = (True, dt)"
      using Suc.prems Suc.hyps k by (intro Suc.hyps(1)) (auto simp: less_Suc_eq)
    then show ?thesis unfolding upt_conv_Cons [OF k] using True by (simp add: Let_def)
  next
    case False
    then show ?thesis unfolding upt_conv_Cons [OF k] using le by (simp add: Let_def)
  qed
qed

lemma tryResolve_ahead:
  assumes "ahead (Suc to) (getField cur) (getField dt)" and "from \<le> Suc to"
  shows "tryResolveWithoutWeekdays cur from to dt = (True, dt)"
proof (cases "\<forall>j < from. getField dt j = getField cur j")
  case True
  then show ?thesis
    using resolve_fields_ahead [OF assms] compare_fields_same [of 0 "from" dt cur]
    unfolding tryResolveWithoutWeekdays_def by simp
next
  case False
  from assms(1) show ?thesis
  proof (rule ahead_cases)
    assume "\<forall>j < Suc to. getField dt j = getField cur j"
    then show ?thesis using False assms(2) by (meson less_le_trans)
  next
    fix i assume i: "i < Suc to" "\<forall>j < i. getField dt j = getField cur j" "getField cur i < getField dt i"
    then have "i < from" using False by (meson less_le_trans not_le)
    then show ?thesis
      using compare_fields_greater [OF _ i(2,3), of "from" 0] unfolding tryResolveWithoutWeekdays_def by simp
  qed
qed

lemma tryResolveWithoutWeekdays:
  assumes "wf dt" and "to \<le> Minute" and "from \<le> Suc to" and "ahead from c (getField dt)" and "\<forall>j < 5. 0 \<le> c j"
    and "c = getField cur" and "tryResolveWithoutWeekdays cur from to dt = (b, dt')"
  shows "b \<longrightarrow> same_frame dt dt' \<and> (dt' = dt \<or> moved c dt dt') \<and> ahead (Suc to) c (getField dt')"
    and "meets dt X \<Longrightarrow> lex_le c X \<Longrightarrow> lex_le (getField dt) X \<Longrightarrow> b \<and> lex_le (getField dt') X"
proof -
  have "(b \<longrightarrow> same_frame dt dt' \<and> (dt' = dt \<or> moved c dt dt') \<and> ahead (Suc to) c (getField dt'))
    \<and> (meets dt X \<longrightarrow> lex_le c X \<longrightarrow> lex_le (getField dt) X \<longrightarrow> b \<and> lex_le (getField dt') X)"
    using assms(4)
  proof (rule ahead_cases)
    assume eq: "\<forall>j < from. getField dt j = c j"
    then have "resolve_fields cur [from ..< Suc to] dt = (b, dt')"
      using assms(6,7) compare_fields_same [of 0 "from" dt cur] unfolding tryResolveWithoutWeekdays_def by simp
    then show ?thesis using resolve_fields [OF assms(1-3) eq assms(5,6)] by blast
  next
    fix i assume i: "i < from" "\<forall>j < i. getField dt j = c j" "c i < getField dt i"
    then have a: "ahead (Suc to) c (getField dt)" using assms(3) by (intro aheadI [of i]) auto
    then have "b" "dt' = dt" using tryResolve_ahead [of "to" cur dt "from"] assms(3,6,7) by auto
    then show ?thesis using a same_frame_refl [OF assms(1)] by blast
  qed
  then show "b \<longrightarrow> same_frame dt dt' \<and> (dt' = dt \<or> moved c dt dt') \<and> ahead (Suc to) c (getField dt')"
    and "meets dt X \<Longrightarrow> lex_le c X \<Longrightarrow> lex_le (getField dt) X \<Longrightarrow> b \<and> lex_le (getField dt') X" by blast+
qed

end
