(* ===== verification/Resolution.thy ===== *)
theory Resolution
  imports DateTime_Laws
begin

text \<open>
  What projecting a target on the calendar does, for the targets that the search produces: a valid
  point stays, a day past the end of its month, a thirteenth month or a 25th hour is carried over when the fields
  above are free, and otherwise the result says whether another attempt can help.
\<close>

section \<open>Points and minutes\<close>

definition date_no :: "(nat \<Rightarrow> int) \<Rightarrow> int" where
  "date_no a = day_number (a Year + 1900) (a Month) (a Day)"

definition minute_no :: "(nat \<Rightarrow> int) \<Rightarrow> int" where
  "minute_no a = date_no a * 1440 + a Hour * 60 + a Minute"

definition valid_point :: "(nat \<Rightarrow> int) \<Rightarrow> bool" where
  "valid_point a \<longleftrightarrow> valid_date (a Year + 1900) (a Month) (a Day) \<and> a Hour \<in> {0..23} \<and> a Minute \<in> {0..59}"

lemma all_fields: "(\<forall>k < (5 :: nat). P k) \<longleftrightarrow> P 0 \<and> P 1 \<and> P 2 \<and> P 3 \<and> P 4"
proof
  assume *: "P 0 \<and> P 1 \<and> P 2 \<and> P 3 \<and> P 4"
  show "\<forall>k < (5 :: nat). P k"
  proof (intro allI impI)
    fix k :: nat assume "k < 5"
    then have "k = 0 \<or> k = 1 \<or> k = 2 \<or> k = 3 \<or> k = 4" by linarith
    then show "P k" using * by blast
  qed
qed simp

lemma date_no_less:
  assumes "valid_point a" and "valid_point b"
    and "a 0 < b 0 \<or> a 0 = b 0 \<and> (a 1 < b 1 \<or> a 1 = b 1 \<and> a 2 < b 2)"
  shows "date_no a < date_no b"
  using assms day_number_less [of "a 0 + 1900" "a 1" "a 2" "b 0 + 1900" "b 1" "b 2"]
  by (auto simp: valid_point_def date_no_def)

text \<open>On valid points the order of the fields is the order of time.\<close>

lemma minute_no_less:
  assumes "valid_point a" and "valid_point b" and "\<not> lex_le b a"
  shows "minute_no a < minute_no b"
proof -
  have ts: "0 \<le> a 3 * 60 + a 4" "a 3 * 60 + a 4 < 1440" "0 \<le> b 3 * 60 + b 4" "b 3 * 60 + b 4 < 1440"
    using assms(1,2) by (auto simp: valid_point_def)
  have "\<exists>i < 5. (\<forall>j < i. a j = b j) \<and> a i < b i"
  proof -
    have "\<not> (\<forall>j < 5. a j = b j)" using assms(3) by (auto simp: lex_le_def)
    then obtain k where k: "k < 5" "a k \<noteq> b k" and eq: "\<forall>j < k. \<not> (j < 5 \<and> a j \<noteq> b j)"
      using exists_least_iff [of "\<lambda>j. j < 5 \<and> a j \<noteq> b j"] by blast
    then have "\<forall>j < k. a j = b j" by auto
    moreover have "\<not> b k < a k" using assms(3) k calculation by (metis lex_le_less)
    ultimately show ?thesis using k by (metis linorder_neqE_linordered_idom)
  qed
  then obtain i where i: "i < 5" "\<forall>j < i. a j = b j" "a i < b i" by blast
  show ?thesis
  proof (cases "i < 3")
    case True
    then have "i = 0 \<or> i = 1 \<or> i = 2" by linarith
    then have "date_no a < date_no b" using i by (intro date_no_less assms(1,2)) (auto simp: numeral_eq_Suc less_Suc_eq)
    then show ?thesis using ts unfolding minute_no_def by linarith
  next
    case False
    then have "date_no a = date_no b" using i by (simp add: date_no_def)
    moreover have "a 3 < b 3 \<or> a 3 = b 3 \<and> a 4 < b 4"
    proof -
      have "i = 3 \<or> i = 4" using False i(1) by linarith
      then show ?thesis using i by auto
    qed
    ultimately show ?thesis using assms(1,2) unfolding minute_no_def by (auto simp: valid_point_def)
  qed
qed

lemma lex_le_minute_no:
  assumes "valid_point a" and "valid_point b"
  shows "lex_le a b \<longleftrightarrow> minute_no a \<le> minute_no b"
proof
  assume l: "lex_le a b"
  show "minute_no a \<le> minute_no b"
  proof (cases "lex_le b a")
    case False
    then show ?thesis using minute_no_less [OF assms] by simp
  next
    case True
    have "\<forall>j < 5. a j = b j"
    proof (rule ccontr)
      assume "\<not> (\<forall>j < 5. a j = b j)"
      then obtain i i' where "i < 5" "\<forall>j < i. a j = b j" "a i < b i" and "i' < 5" "\<forall>j < i'. b j = a j" "b i' < a i'"
        using l True by (auto simp: lex_le_def)
      then show False by (metis linorder_neqE_nat order_less_irrefl order_less_asym)
    qed
    then have "a 0 = b 0" "a 1 = b 1" "a 2 = b 2" "a 3 = b 3" "a 4 = b 4" by simp_all
    then show ?thesis by (simp add: minute_no_def date_no_def)
  qed
next
  assume "minute_no a \<le> minute_no b"
  then show "lex_le a b" using minute_no_less [OF assms(2,1)] by fastforce
qed

text \<open>What \<open>getTime\<close> makes of a target, valid or not.\<close>

lemma mktime_minute_no: "mktime zone (tm_of dt) = (minute_no (getField dt) - 719528 * 1440) * 60 - zone"
  by (simp add: mktime_def tm_of_def minute_no_def date_no_def)

definition fields_of :: "tm \<Rightarrow> nat \<Rightarrow> int" where
  "fields_of t = getField (DateTime_new t)"

lemma fields_of_simps [simp]:
  "fields_of t 0 = tm_year t" "fields_of t (Suc 0) = tm_mon t" "fields_of t 2 = tm_mday t" "fields_of t 3 = tm_hour t"
  "fields_of t 4 = tm_min t"
  by (simp_all add: fields_of_def DateTime_new_def getField_def)

lemma valid_fields_of: "valid_tm t \<Longrightarrow> valid_point (fields_of t)"
  by (simp add: valid_point_def valid_tm_def)

lemma projected_point:
  assumes "valid_point p" and "minute_no p = minute_no (getField dt)"
  shows "\<forall>k < 5. fields_of (snd (DateTime_getTime zone dt)) k = p k"
proof -
  let ?t = "\<lparr>tm_year = p 0, tm_mon = p 1, tm_mday = p 2, tm_wday = 0, tm_hour = p 3, tm_min = p 4, tm_sec = 0\<rparr>"
  have "mktime zone ?t = mktime zone (tm_of dt)"
    unfolding mktime_minute_no assms(2) [symmetric] by (simp add: mktime_def minute_no_def date_no_def)
  moreover have "valid_tm ?t" using assms(1) by (simp add: valid_tm_def valid_point_def)
  ultimately have "same_fields (snd (DateTime_getTime zone dt)) ?t"
    using localtime_mktime [of ?t zone] by (simp add: DateTime_getTime_def Let_def)
  then show ?thesis by (simp add: all_fields same_fields_def)
qed

section \<open>The projection loop\<close>

text \<open>The fields that are free take the projected value, up to the first fixed one that differs.\<close>

definition take_fields :: "nat \<Rightarrow> nat \<Rightarrow> (nat \<Rightarrow> int) \<Rightarrow> DateTime \<Rightarrow> DateTime \<Rightarrow> bool" where
  "take_fields k n p dt dt' \<longleftrightarrow>
     wf dt' \<and> freeFields_m dt' = freeFields_m dt \<and> weekdays_m dt' = weekdays_m dt
     \<and> (\<forall>j < 5. getField dt' j = (if k \<le> j \<and> j < n then p j else getField dt j))"

lemma take_fields_refl: "wf dt \<Longrightarrow> (\<And>j. k \<le> j \<Longrightarrow> j < n \<Longrightarrow> j < 5 \<Longrightarrow> getField dt j = p j) \<Longrightarrow> take_fields k n p dt dt"
  by (auto simp: take_fields_def)

lemma take_fields_step:
  assumes "wf dt" and "k < 5" and "k < n" and "take_fields (Suc k) n p (dt\<lparr>fields_m := (fields_m dt)[k := p k]\<rparr>) dt'"
  shows "take_fields k n p dt dt'"
  using assms by (auto simp: take_fields_def getField_def wf_def nth_list_update)

lemma take_fields_skip:
  assumes "k < 5" and "getField dt k = p k" and "k < n" and "take_fields (Suc k) n p dt dt'"
  shows "take_fields k n p dt dt'"
proof -
  have "getField dt' j = (if k \<le> j \<and> j < n then p j else getField dt j)" if "j < 5" for j
    using that assms by (cases "j = k") (auto simp: take_fields_def)
  then show ?thesis using assms(4) by (simp add: take_fields_def)
qed

lemma take_fields_frame: "take_fields k n p dt dt' \<Longrightarrow> isFieldFree dt' j = isFieldFree dt j"
  by (simp add: take_fields_def isFieldFree_def)

lemma getField_other: "wf dt \<Longrightarrow> k < j \<Longrightarrow> getField (dt\<lparr>fields_m := (fields_m dt)[k := v]\<rparr>) j = getField dt j"
  by (simp add: getField_def wf_def)

text \<open>All fields that differ are free.\<close>

lemma project_fields_free:
  assumes "wf dt" and "k \<le> 5" and "\<And>j. k \<le> j \<Longrightarrow> j < 5 \<Longrightarrow> getField dt j \<noteq> getField q j \<Longrightarrow> isFieldFree dt j"
  shows "\<exists>dt'. project_fields q [k ..< 5] ch hf dt =
      (if ch \<or> (\<exists>j. k \<le> j \<and> j < 5 \<and> getField dt j \<noteq> getField q j) then Projection_Changed else Projection_Succeeded, dt')
    \<and> take_fields k 5 (getField q) dt dt'"
  using assms
proof (induction "5 - k" arbitrary: k ch hf dt)
  case 0
  then show ?case by (auto simp: take_fields_refl)
next
  case (Suc n)
  then have k: "k < 5" and n: "n = 5 - Suc k" by auto
  have ex: "(\<exists>j. k \<le> j \<and> j < 5 \<and> P j) \<longleftrightarrow> P k \<or> (\<exists>j. Suc k \<le> j \<and> j < 5 \<and> P j)" for P :: "nat \<Rightarrow> bool"
    using k by (metis Suc_leD Suc_leI le_eq_less_or_eq)
  show ?case
  proof (cases "getField dt k = getField q k")
    case True
    obtain dt' where "project_fields q [Suc k ..< 5] ch (hf \<or> isFieldFree dt k) dt =
        (if ch \<or> (\<exists>j. Suc k \<le> j \<and> j < 5 \<and> getField dt j \<noteq> getField q j) then Projection_Changed
         else Projection_Succeeded, dt')"
      and t: "take_fields (Suc k) 5 (getField q) dt dt'"
      using Suc.hyps(1) [OF n Suc.prems(1), of ch "hf \<or> isFieldFree dt k"] Suc.prems(3) k by fastforce
    then have "project_fields q [k ..< 5] ch hf dt =
        (if ch \<or> (\<exists>j. k \<le> j \<and> j < 5 \<and> getField dt j \<noteq> getField q j) then Projection_Changed
         else Projection_Succeeded, dt')"
      unfolding upt_conv_Cons [OF k] using True by (simp add: ex)
    then show ?thesis using take_fields_skip [OF k True k t] by blast
  next
    case False
    let ?d = "dt\<lparr>fields_m := (fields_m dt)[k := getField q k]\<rparr>"
    have free: "isFieldFree dt k" using Suc.prems(3) [of k] False k by simp
    have "wf ?d" using Suc.prems(1) by (simp add: wf_def)
    moreover have "isFieldFree ?d j" if "Suc k \<le> j" "j < 5" "getField ?d j \<noteq> getField q j" for j
      using Suc.prems(3) [of j] that getField_other [OF Suc.prems(1), of k j] by (simp add: isFieldFree_def)
    ultimately obtain dt' where "project_fields q [Suc k ..< 5] True True ?d = (Projection_Changed, dt')"
      and t: "take_fields (Suc k) 5 (getField q) ?d dt'"
      using Suc.hyps(1) [OF n, of ?d True True] k by auto
    then have "project_fields q [k ..< 5] ch hf dt = (Projection_Changed, dt')"
      unfolding upt_conv_Cons [OF k] using False free by simp
    moreover have "(if ch \<or> (\<exists>j. k \<le> j \<and> j < 5 \<and> getField dt j \<noteq> getField q j) then Projection_Changed
         else Projection_Succeeded) = Projection_Changed"
      using False by (simp add: ex)
    ultimately show ?thesis using take_fields_step [OF Suc.prems(1) k k t] by auto
  qed
qed

text \<open>The first field that differs and is fixed is \<open>i\<close>.\<close>

lemma project_fields_fixed:
  assumes "wf dt" and "k \<le> i" and "i < 5" and "\<not> isFieldFree dt i" and "getField dt i \<noteq> getField q i"
    and "\<And>j. k \<le> j \<Longrightarrow> j < i \<Longrightarrow> getField dt j \<noteq> getField q j \<Longrightarrow> isFieldFree dt j"
  shows "\<exists>dt'. project_fields q [k ..< 5] ch hf dt =
      (if ch \<or> (\<exists>j. k \<le> j \<and> j < i \<and> getField dt j \<noteq> getField q j) then Projection_Changed
       else if hf \<or> (\<exists>j. k \<le> j \<and> j < i \<and> isFieldFree dt j) then Projection_Failed else Projection_Impossible, dt')
    \<and> take_fields k i (getField q) dt dt'"
  using assms
proof (induction "i - k" arbitrary: k ch hf dt)
  case 0
  then have "k = i" by simp
  then show ?case
    unfolding upt_conv_Cons [OF \<open>i < 5\<close>] using 0 by (auto simp: upt_conv_Cons take_fields_refl)
next
  case (Suc n)
  then have k: "k < i" "k < 5" and n: "n = i - Suc k" by auto
  have ex: "(\<exists>j. k \<le> j \<and> j < i \<and> P j) \<longleftrightarrow> P k \<or> (\<exists>j. Suc k \<le> j \<and> j < i \<and> P j)" for P :: "nat \<Rightarrow> bool"
    using k by (metis Suc_leD Suc_leI le_eq_less_or_eq)
  show ?case
  proof (cases "getField dt k = getField q k")
    case True
    obtain dt' where "project_fields q [Suc k ..< 5] ch (hf \<or> isFieldFree dt k) dt =
        (if ch \<or> (\<exists>j. Suc k \<le> j \<and> j < i \<and> getField dt j \<noteq> getField q j) then Projection_Changed
         else if (hf \<or> isFieldFree dt k) \<or> (\<exists>j. Suc k \<le> j \<and> j < i \<and> isFieldFree dt j) then Projection_Failed
         else Projection_Impossible, dt')"
      and t: "take_fields (Suc k) i (getField q) dt dt'"
      using Suc.hyps(1) [OF n Suc.prems(1) _ Suc.prems(3-5), of ch "hf \<or> isFieldFree dt k"] Suc.prems(6) k by fastforce
    then have "project_fields q [k ..< 5] ch hf dt =
        (if ch \<or> (\<exists>j. k \<le> j \<and> j < i \<and> getField dt j \<noteq> getField q j) then Projection_Changed
         else if hf \<or> (\<exists>j. k \<le> j \<and> j < i \<and> isFieldFree dt j) then Projection_Failed else Projection_Impossible, dt')"
      unfolding upt_conv_Cons [OF k(2)] ex by (simp only: project_fields.simps True if_False simp_thms disj_assoc)
    then show ?thesis using take_fields_skip [OF k(2) True k(1) t] by blast
  next
    case False
    let ?d = "dt\<lparr>fields_m := (fields_m dt)[k := getField q k]\<rparr>"
    have free: "isFieldFree dt k" using Suc.prems(6) [of k] False k by simp
    have "wf ?d" using Suc.prems(1) by (simp add: wf_def)
    moreover have "isFieldFree ?d j" if "Suc k \<le> j" "j < i" "getField ?d j \<noteq> getField q j" for j
      using Suc.prems(6) [of j] that getField_other [OF Suc.prems(1), of k j] by (simp add: isFieldFree_def)
    moreover have "\<not> isFieldFree ?d i" using Suc.prems(4) by (simp add: isFieldFree_def)
    moreover have "getField ?d i \<noteq> getField q i" using Suc.prems(5) getField_other [OF Suc.prems(1) k(1)] by simp
    ultimately obtain dt' where "project_fields q [Suc k ..< 5] True True ?d = (Projection_Changed, dt')"
      and t: "take_fields (Suc k) i (getField q) ?d dt'"
      using Suc.hyps(1) [OF n, of ?d True True] k Suc.prems(3) by auto
    then have "project_fields q [k ..< 5] ch hf dt = (Projection_Changed, dt')"
      unfolding upt_conv_Cons [OF k(2)] using False free by simp
    moreover have "(if ch \<or> (\<exists>j. k \<le> j \<and> j < i \<and> getField dt j \<noteq> getField q j) then Projection_Changed
         else if hf \<or> (\<exists>j. k \<le> j \<and> j < i \<and> isFieldFree dt j) then Projection_Failed else Projection_Impossible) = Projection_Changed"
      using False by (simp add: ex)
    ultimately show ?thesis using take_fields_step [OF Suc.prems(1) k(2) k(1) t] by auto
  qed
qed

section \<open>What the projection does\<close>

definition keeps_frame :: "DateTime \<Rightarrow> DateTime \<Rightarrow> bool" where
  "keeps_frame dt dt' \<longleftrightarrow> wf dt' \<and> freeFields_m dt' = freeFields_m dt \<and> weekdays_m dt' = weekdays_m dt"

lemma projectOnActualCalendar_fields:
  "projectOnActualCalendar zone dt = project_fields (DateTime_new (snd (DateTime_getTime zone dt))) [0 ..< 5] False False dt"
  by (simp add: projectOnActualCalendar_def)

lemma project_free:
  assumes "wf dt" and "valid_point p" and "minute_no p = minute_no (getField dt)"
    and "\<And>j. j < 5 \<Longrightarrow> getField dt j \<noteq> p j \<Longrightarrow> isFieldFree dt j"
  shows "\<exists>dt'. projectOnActualCalendar zone dt =
      (if \<forall>j < 5. getField dt j = p j then Projection_Succeeded else Projection_Changed, dt')
    \<and> keeps_frame dt dt' \<and> (\<forall>j < 5. getField dt' j = p j)"
proof -
  let ?q = "DateTime_new (snd (DateTime_getTime zone dt))"
  have q: "getField ?q j = p j" if "j < 5" for j
    using projected_point [OF assms(2,3), of zone] that by (simp add: fields_of_def)
  have c: "(\<exists>j. 0 \<le> j \<and> j < 5 \<and> getField dt j \<noteq> getField ?q j) \<longleftrightarrow> \<not> (\<forall>j < 5. getField dt j = p j)" using q by auto
  obtain dt' where "project_fields ?q [0 ..< 5] False False dt =
      (if False \<or> (\<exists>j. 0 \<le> j \<and> j < 5 \<and> getField dt j \<noteq> getField ?q j) then Projection_Changed else Projection_Succeeded, dt')"
    "take_fields 0 5 (getField ?q) dt dt'"
    using project_fields_free [OF assms(1), of 0 ?q False False] assms(4) q by fastforce
  then show ?thesis unfolding projectOnActualCalendar_fields c keeps_frame_def using q by (auto simp: take_fields_def)
qed

lemma project_fixed:
  assumes "wf dt" and "valid_point p" and "minute_no p = minute_no (getField dt)"
    and "i < 5" and "\<not> isFieldFree dt i" and "getField dt i \<noteq> p i"
    and "\<And>j. j < i \<Longrightarrow> getField dt j \<noteq> p j \<Longrightarrow> isFieldFree dt j"
  shows "\<exists>dt'. projectOnActualCalendar zone dt =
      (if \<exists>j < i. getField dt j \<noteq> p j then Projection_Changed
       else if \<exists>j < i. isFieldFree dt j then Projection_Failed else Projection_Impossible, dt')
    \<and> keeps_frame dt dt' \<and> (\<forall>j < 5. getField dt' j = (if j < i then p j else getField dt j))"
proof -
  let ?q = "DateTime_new (snd (DateTime_getTime zone dt))"
  have q: "getField ?q j = p j" if "j < 5" for j
    using projected_point [OF assms(2,3), of zone] that by (simp add: fields_of_def)
  have c: "(\<exists>j. 0 \<le> j \<and> j < i \<and> getField dt j \<noteq> getField ?q j) \<longleftrightarrow> (\<exists>j < i. getField dt j \<noteq> p j)"
    "(\<exists>j. 0 \<le> j \<and> j < i \<and> isFieldFree dt j) \<longleftrightarrow> (\<exists>j < i. isFieldFree dt j)" using q assms(4) by auto
  obtain dt' where "project_fields ?q [0 ..< 5] False False dt =
      (if False \<or> (\<exists>j. 0 \<le> j \<and> j < i \<and> getField dt j \<noteq> getField ?q j) then Projection_Changed
       else if False \<or> (\<exists>j. 0 \<le> j \<and> j < i \<and> isFieldFree dt j) then Projection_Failed else Projection_Impossible, dt')"
    "take_fields 0 i (getField ?q) dt dt'"
    using project_fields_fixed [OF assms(1) _ assms(4,5), of 0 ?q False False] assms(4,6,7) q by fastforce
  then show ?thesis
    unfolding projectOnActualCalendar_fields c keeps_frame_def using q assms(4) by (auto simp: take_fields_def)
qed

section \<open>Targets that are not valid\<close>

abbreviation pt :: "int \<Rightarrow> int \<Rightarrow> int \<Rightarrow> int \<Rightarrow> int \<Rightarrow> nat \<Rightarrow> int" where
  "pt y m d h mi \<equiv> (!) [y, m, d, h, mi]"

lemma day_number_month_12: "day_number y 12 d = day_number (y + 1) 0 d"
  by (simp add: day_number_def)

lemma day_number_overflow:
  assumes "0 \<le> m" and "m \<le> 11"
  shows "day_number y m (month_days y m + d) = (if m = 11 then day_number (y + 1) 0 d else day_number y (m + 1) d)"
proof (cases "m = 11")
  case True
  then show ?thesis
    using days_before_month_11 [of y] days_before_year_Suc [of y] by (simp add: day_number_valid month_days_def)
next
  case False
  then show ?thesis using assms days_before_month_Suc [of m y] by (simp add: day_number_valid)
qed

lemma day_number_Suc: "day_number y m (d + 1) = day_number y m d + 1"
  by (simp add: day_number_def)

lemma day_number_shift: "day_number y m (d + k) = day_number y m d + k"
  by (simp add: day_number_def)

text \<open>The day after a date.\<close>

definition next_date :: "int \<Rightarrow> int \<Rightarrow> int \<Rightarrow> int \<times> int \<times> int" where
  "next_date y m d =
     (if d < month_days (y + 1900) m then (y, m, d + 1) else if m < 11 then (y, m + 1, 1) else (y + 1, 0, 1))"

lemma next_date:
  assumes "valid_date (y + 1900) m d" and "next_date y m d = (y', m', d')"
  shows "valid_date (y' + 1900) m' d'" "day_number (y' + 1900) m' d' = day_number (y + 1900) m d + 1"
proof -
  show "valid_date (y' + 1900) m' d'"
    using assms month_days_pos [of "y + 1900" "m + 1"] month_days_pos [of "1901 + y" 0]
    by (auto simp: next_date_def valid_date_def split: if_splits)
  show "day_number (y' + 1900) m' d' = day_number (y + 1900) m d + 1"
  proof (cases "d < month_days (y + 1900) m")
    case True
    then show ?thesis using assms(2) by (auto simp: next_date_def day_number_Suc)
  next
    case False
    then have d: "d = month_days (y + 1900) m" using assms(1) by (simp add: valid_date_def)
    have "day_number (y + 1900) m (month_days (y + 1900) m + 1) = day_number (y' + 1900) m' d'"
      using assms day_number_overflow [of m "y + 1900" 1] False by (auto simp: next_date_def valid_date_def split: if_splits)
    then show ?thesis using d by (simp add: day_number_Suc)
  qed
qed

section \<open>Ranges\<close>

text \<open>
  A target before it is adjusted: its fields are in range, and its day exists unless it is fixed, when the free
  fields below have been reset.
\<close>

definition in_range :: "DateTime \<Rightarrow> bool" where
  "in_range dt \<longleftrightarrow>
     0 \<le> getField dt 0 \<and> getField dt 1 \<in> {0..11} \<and> getField dt 2 \<in> {1..31}
     \<and> (isFieldFree dt 2 \<longrightarrow> getField dt 2 \<le> month_days (getField dt 0 + 1900) (getField dt 1))
     \<and> getField dt 3 \<in> {0..23} \<and> getField dt 4 \<in> {0..59}
     \<and> (getField dt 2 > month_days (getField dt 0 + 1900) (getField dt 1) \<longrightarrow>
          (isFieldFree dt 3 \<longrightarrow> getField dt 3 = 0) \<and> (isFieldFree dt 4 \<longrightarrow> getField dt 4 = 0))"

lemma month_days_le: "month_days y m \<le> 31"
  by (simp add: month_days_def)

lemma in_range_nonneg: "in_range dt \<Longrightarrow> \<forall>j < 5. 0 \<le> getField dt j"
  unfolding all_fields by (simp add: in_range_def)

lemma valid_nonneg: "valid_point c \<Longrightarrow> 0 \<le> c 0 \<Longrightarrow> \<forall>j < 5. 0 \<le> c j"
  unfolding all_fields by (simp add: valid_point_def valid_date_def)

lemma in_range_cong:
  "in_range dt \<Longrightarrow> freeFields_m dt' = freeFields_m dt \<Longrightarrow> \<forall>j < 5. getField dt' j = getField dt j \<Longrightarrow> in_range dt'"
  by (simp add: in_range_def isFieldFree_def)

text \<open>The four ways in which it can leave its range.\<close>

lemma moved_cases:
  assumes "in_range dt" and "valid_point c" and "0 \<le> c 0" and "moved c dt dt'" and "same_frame dt dt'"
  obtains (range) "in_range dt'"
    | (month) "isFieldFree dt 1" "getField dt' 1 = 12" "0 \<le> getField dt' 0" "getField dt' 2 \<in> {1..31}"
        "isFieldFree dt 2 \<Longrightarrow> getField dt' 2 = 1" "getField dt' 3 \<in> {0..23}" "getField dt' 4 \<in> {0..59}"
        "isFieldFree dt 3 \<Longrightarrow> getField dt' 3 = 0" "isFieldFree dt 4 \<Longrightarrow> getField dt' 4 = 0"
    | (day) "isFieldFree dt 2" "getField dt' 0 = c 0" "getField dt' 1 = c 1"
        "getField dt' 2 = month_days (c 0 + 1900) (c 1) + 1" "getField dt' 3 \<in> {0..23}" "getField dt' 4 \<in> {0..59}"
        "isFieldFree dt 3 \<Longrightarrow> getField dt' 3 = 0" "isFieldFree dt 4 \<Longrightarrow> getField dt' 4 = 0"
    | (hour) "isFieldFree dt 3" "\<not> isFieldFree dt 4" "getField dt' 0 = c 0" "getField dt' 1 = c 1" "getField dt' 2 = c 2"
        "getField dt' 3 = 24" "getField dt' 4 \<in> {0..59}"
proof -
  obtain i where i: "i < 5" "isFieldFree dt i" "\<forall>j < i. getField dt' j = c j"
    "getField dt' i = c i \<or> (\<exists>f. i < f \<and> f \<le> Minute \<and> \<not> isFieldFree dt f) \<and> getField dt' i = c i + 1"
    "\<forall>j < 5. i < j \<longrightarrow> getField dt' j = (if isFieldFree dt j then least j else getField dt j)"
    using assms(4) unfolding moved_def by blast
  have free: "isFieldFree dt' j = isFieldFree dt j" for j using same_frame_free [OF assms(5)] .
  have r: "0 \<le> getField dt 0" "getField dt 1 \<in> {0..11}" "getField dt 2 \<in> {1..31}" "getField dt 3 \<in> {0..23}"
    "getField dt 4 \<in> {0..59}" using assms(1) by (simp_all add: in_range_def)
  have v: "c 1 \<in> {0..11}" "1 \<le> c 2" "c 2 \<le> month_days (c 0 + 1900) (c 1)" "c 3 \<in> {0..23}" "c 4 \<in> {0..59}" "c 2 \<le> 31"
    using assms(2) month_days_le [of "c 0 + 1900" "c 1"] by (auto simp: valid_point_def valid_date_def)
  have md: "1 \<le> month_days y m" for y m using month_days_pos [of y m] by simp
  have below: "getField dt' 1 = (if isFieldFree dt 1 then 0 else getField dt 1)" if "i < 1"
    using i(5) that by (simp add: least_def)
  have below2: "getField dt' 2 = (if isFieldFree dt 2 then 1 else getField dt 2)" if "i < 2"
    using i(5) that by (simp add: least_def)
  have below3: "getField dt' 3 = (if isFieldFree dt 3 then 0 else getField dt 3)" if "i < 3"
    using i(5) that by (simp add: least_def)
  have below4: "getField dt' 4 = (if isFieldFree dt 4 then 0 else getField dt 4)" if "i < 4"
    using i(5) that by (simp add: least_def)
  have "i = 0 \<or> i = 1 \<or> i = 2 \<or> i = 3 \<or> i = 4" using i(1) by linarith
  then consider "i = 0" | "i = 1" | "i = 2" | "i = 3" | "i = 4" by blast
  then show ?thesis
  proof cases
    case 1
    then have "in_range dt'" using i(4) below below2 below3 below4 r assms(3) md by (auto simp: in_range_def free)
    then show ?thesis by (rule range)
  next
    case 2
    then have y: "getField dt' 0 = c 0" using i(3) by simp
    show ?thesis
    proof (cases "getField dt' 1 = 12")
      case True
      then show ?thesis using 2 y below2 below3 below4 r assms(3) i(2) by (intro month) auto
    next
      case False
      then have "getField dt' 1 \<in> {0..11}" using i(4) v 2 by auto
      then have "in_range dt'" using 2 y below2 below3 below4 r assms(3) md by (auto simp: in_range_def free)
      then show ?thesis by (rule range)
    qed
  next
    case 3
    then have y: "getField dt' 0 = c 0" "getField dt' 1 = c 1" using i(3) by simp_all
    show ?thesis
    proof (cases "getField dt' 2 = month_days (c 0 + 1900) (c 1) + 1")
      case True
      then show ?thesis using 3 y below3 below4 r i(2) by (intro day) auto
    next
      case False
      then have "getField dt' 2 \<in> {1..month_days (c 0 + 1900) (c 1)}" using i(4) v 3 by auto
      then have "in_range dt'"
        using 3 y below3 below4 r v assms(3) month_days_le [of "c 0 + 1900" "c 1"] by (auto simp: in_range_def free)
      then show ?thesis by (rule range)
    qed
  next
    case 4
    then have y: "getField dt' 0 = c 0" "getField dt' 1 = c 1" "getField dt' 2 = c 2" using i(3) by simp_all
    show ?thesis
    proof (cases "getField dt' 3 = 24")
      case True
      then have "\<not> isFieldFree dt 4" using i(4) v 4 by (auto simp: le_Suc_eq numeral_eq_Suc)
      then show ?thesis using True 4 y below4 r i(2) by (intro hour) auto
    next
      case False
      then have "getField dt' 3 \<in> {0..23}" using i(4) v 4 by auto
      then have "in_range dt'" using 4 y below4 r v assms(3) by (auto simp: in_range_def free)
      then show ?thesis by (rule range)
    qed
  next
    case 5
    then have "getField dt' 0 = c 0" "getField dt' 1 = c 1" "getField dt' 2 = c 2" "getField dt' 3 = c 3"
      "getField dt' 4 = c 4" using i(3,4) by auto
    then have "in_range dt'" using v assms(3) by (auto simp: in_range_def)
    then show ?thesis by (rule range)
  qed
qed

section \<open>Projecting an adjusted target without weekdays\<close>

text \<open>
  \<open>Xs\<close> are the points that meet the constraints and do not come before the target.  A target that projects to another one is
  not past any of them; an attempt fails when they all lie after the projected day, and it is impossible when there are none.
\<close>

definition good_step :: "int \<Rightarrow> nat \<Rightarrow> (nat \<Rightarrow> int) \<Rightarrow> (nat \<Rightarrow> int) set \<Rightarrow> DateTime \<Rightarrow> bool" where
  "good_step zone n c Xs dt \<longleftrightarrow>
     (case projectOnActualCalendar zone dt of
        (r, dt') \<Rightarrow>
          keeps_frame dt dt' \<and> (\<forall>k < 5. \<not> isFieldFree dt k \<longrightarrow> getField dt' k = getField dt k)
          \<and> (case r of
               Projection_Succeeded \<Rightarrow> valid_point (getField dt) \<and> (\<forall>k < 5. getField dt' k = getField dt k)
             | Projection_Changed \<Rightarrow>
                 valid_point (getField dt') \<and> ahead n c (getField dt') \<and> (\<forall>X \<in> Xs. lex_le (getField dt') X)
             | Projection_Failed \<Rightarrow>
                 (\<exists>p. valid_point p \<and> minute_no p = minute_no (getField dt') \<and> p 0 = getField dt' 0
                    \<and> date_no c \<le> date_no p \<and> (\<forall>X \<in> Xs. date_no p < date_no X)) \<and> (isFieldFree dt 0 \<or> isFieldFree dt 1)
             | Projection_Impossible \<Rightarrow> Xs = {}))"

lemma point_cong:
  assumes "\<forall>j < 5. a j = b j"
  shows "valid_point a = valid_point b" "lex_le a X = lex_le b X" "n \<le> 5 \<Longrightarrow> ahead n c a = ahead n c b"
    "minute_no a = minute_no b" "date_no a = date_no b"
proof -
  show "valid_point a = valid_point b" "lex_le a X = lex_le b X"
    "minute_no a = minute_no b" "date_no a = date_no b"
    using assms by (auto simp: valid_point_def lex_le_def minute_no_def date_no_def)
  show "ahead n c a = ahead n c b" if "n \<le> 5"
  proof -
    have e: "a j = b j" if "j < n" for j using assms \<open>n \<le> 5\<close> that by simp
    have "(\<forall>j < m. a j = c j) \<longleftrightarrow> (\<forall>j < m. b j = c j)" if "m \<le> n" for m
      using e that by (simp add: less_le_trans)
    then show ?thesis using e by (simp add: ahead_def less_imp_le cong: conj_cong)
  qed
qed

lemma good_step_free:
  assumes "wf dt" and "valid_point p" and "minute_no p = minute_no (getField dt)"
    and "\<And>j. j < 5 \<Longrightarrow> getField dt j \<noteq> p j \<Longrightarrow> isFieldFree dt j"
    and "ahead n c p" and "\<And>X. X \<in> Xs \<Longrightarrow> lex_le p X" and "n \<le> 5"
  shows "good_step zone n c Xs dt"
proof -
  obtain dt' where dt': "projectOnActualCalendar zone dt =
      (if \<forall>j < 5. getField dt j = p j then Projection_Succeeded else Projection_Changed, dt')"
    "keeps_frame dt dt'" "\<forall>j < 5. getField dt' j = p j"
    using project_free [OF assms(1-4)] by blast
  note cong = point_cong [where b = p]
  show ?thesis
  proof (cases "\<forall>j < 5. getField dt j = p j")
    case True
    then show ?thesis using dt' assms(2) cong(1) [OF True] by (auto simp: good_step_def)
  next
    case False
    have "ahead n c (getField dt')" using assms(5,7) cong(3) [OF dt'(3)] by simp
    moreover have "getField dt' k = getField dt k" if "k < 5" "\<not> isFieldFree dt k" for k
    proof -
      have "getField dt k = p k" using that assms(4) [of k] by blast
      then show ?thesis using that dt'(3) by simp
    qed
    moreover have "valid_point (getField dt')" "\<And>X. X \<in> Xs \<Longrightarrow> lex_le (getField dt') X"
      using cong(1,2) [OF dt'(3)] assms(2,6) by auto
    ultimately show ?thesis using dt'(1,2) False by (auto simp: good_step_def)
  qed
qed

lemma good_step_changed:
  assumes "wf dt" and "valid_point p" and "minute_no p = minute_no (getField dt)"
    and "i < 5" and "\<not> isFieldFree dt i" and "getField dt i \<noteq> p i"
    and "\<And>j. j < i \<Longrightarrow> getField dt j \<noteq> p j \<Longrightarrow> isFieldFree dt j"
    and "\<exists>j < i. getField dt j \<noteq> p j"
    and "\<forall>j < 5. q j = (if j < i then p j else getField dt j)"
    and "valid_point q" and "ahead n c q" and "\<And>X. X \<in> Xs \<Longrightarrow> lex_le q X" and "n \<le> 5"
  shows "good_step zone n c Xs dt"
proof -
  obtain dt' where dt': "projectOnActualCalendar zone dt = (Projection_Changed, dt')" "keeps_frame dt dt'"
    "\<forall>j < 5. getField dt' j = (if j < i then p j else getField dt j)"
    using project_fixed [OF assms(1-7), of zone] assms(8) by auto
  then have q: "\<forall>j < 5. getField dt' j = q j" using assms(9) by simp
  have "getField dt' k = getField dt k" if "k < 5" "\<not> isFieldFree dt k" for k
  proof -
    have "k < i \<Longrightarrow> getField dt k = p k" using that assms(7) [of k] by blast
    then show ?thesis using that dt'(3) by simp
  qed
  then show ?thesis using dt'(1,2) point_cong(1-3) [OF q] assms(10-13) by (auto simp: good_step_def)
qed

lemma good_step_failed:
  assumes "wf dt" and "valid_point p" and "minute_no p = minute_no (getField dt)"
    and "i < 3" and "\<not> isFieldFree dt i" and "getField dt i \<noteq> p i"
    and "\<forall>j < i. getField dt j = p j"
    and "\<exists>j < i. isFieldFree dt j \<Longrightarrow> date_no c \<le> date_no p \<and> (\<forall>X \<in> Xs. date_no p < date_no X)"
    and "\<forall>j < i. \<not> isFieldFree dt j \<Longrightarrow> Xs = {}"
  shows "good_step zone n c Xs dt"
proof -
  have i5: "i < 5" using assms(4) by simp
  obtain dt' where dt': "projectOnActualCalendar zone dt =
      (if \<exists>j < i. isFieldFree dt j then Projection_Failed else Projection_Impossible, dt')" "keeps_frame dt dt'"
    "\<forall>j < 5. getField dt' j = (if j < i then p j else getField dt j)"
  proof -
    have "(\<exists>j < i. getField dt j \<noteq> p j) = False" using assms(7) by simp
    then show ?thesis using that project_fixed [OF assms(1-3) i5 assms(5,6), of zone] assms(7) by (simp only: if_False) blast
  qed
  then have q: "\<forall>j < 5. getField dt' j = getField dt j" using assms(7) by simp
  show ?thesis
  proof (cases "\<exists>j < i. isFieldFree dt j")
    case True
    then have "isFieldFree dt 0 \<or> isFieldFree dt 1" using assms(4) by (auto simp: numeral_eq_Suc less_Suc_eq)
    moreover have "p 0 = getField dt' 0" using True assms(7) q by auto
    ultimately show ?thesis using dt'(1,2) q assms(2,3,8) True point_cong(4) [OF q] by (auto simp: good_step_def)
  next
    case False
    then show ?thesis using dt'(1,2) q assms(9) by (auto simp: good_step_def)
  qed
qed

lemma lex_le_cascade:
  assumes "lex_le a X"
  shows "a 0 \<le> X 0" "a 0 = X 0 \<Longrightarrow> a 1 \<le> X 1" "a 0 = X 0 \<Longrightarrow> a 1 = X 1 \<Longrightarrow> a 2 \<le> X 2"
    "a 0 = X 0 \<Longrightarrow> a 1 = X 1 \<Longrightarrow> a 2 = X 2 \<Longrightarrow> a 3 \<le> X 3"
proof -
  have *: "a k \<le> X k" if "\<forall>j < k. a j = X j" "k < 5" for k
    using assms
  proof (rule lex_le_prefix [where n = "Suc k"])
    assume "\<forall>j < Suc k. j < 5 \<longrightarrow> a j = X j"
    then show ?thesis using that(2) by simp
  next
    fix i assume "i < Suc k" "a i < X i"
    then show ?thesis using that(1) by (cases "i = k") auto
  qed
  show "a 0 \<le> X 0" using * [of 0] by simp
  show "a 0 = X 0 \<Longrightarrow> a 1 \<le> X 1" using * [of 1] by simp
  show "a 0 = X 0 \<Longrightarrow> a 1 = X 1 \<Longrightarrow> a 2 \<le> X 2" using * [of 2] by (simp add: numeral_eq_Suc less_Suc_eq)
  show "a 0 = X 0 \<Longrightarrow> a 1 = X 1 \<Longrightarrow> a 2 = X 2 \<Longrightarrow> a 3 \<le> X 3" using * [of 3] by (simp add: numeral_eq_Suc less_Suc_eq)
qed

lemma ahead_cascade:
  assumes "ahead n c a" and "2 \<le> n"
  shows "c 0 \<le> a 0" "c 0 = a 0 \<Longrightarrow> c 1 \<le> a 1"
proof -
  have *: "c k \<le> a k" if "\<forall>j < k. c j = a j" "k < n" for k
    using assms(1)
  proof (rule ahead_cases)
    fix i assume i: "i < n" "\<forall>j < i. a j = c j" "c i < a i"
    show ?thesis
    proof (cases "i = k")
      case False
      then show ?thesis using i that(1) by (cases "i < k") auto
    qed (use i in simp)
  qed (use that in simp)
  show "c 0 \<le> a 0" "c 0 = a 0 \<Longrightarrow> c 1 \<le> a 1" using * [of 0] * [of 1] assms(2) by auto
qed

lemma ahead_month: "2 \<le> n \<Longrightarrow> c 0 < a 0 \<or> c 0 = a 0 \<and> c 1 < a 1 \<Longrightarrow> ahead n c a"
  using aheadI [of 0 n a c] aheadI [of 1 n a c] by auto

lemma lex_le_date:
  "a 0 < X 0 \<or> a 0 = X 0 \<and> (a 1 < X 1 \<or> a 1 = X 1 \<and> (a 2 < X 2 \<or> a 2 = X 2 \<and> a 3 \<le> X 3 \<and> a 4 \<le> X 4)) \<Longrightarrow> lex_le a X"
proof -
  assume *: "a 0 < X 0 \<or> a 0 = X 0 \<and> (a 1 < X 1 \<or> a 1 = X 1 \<and> (a 2 < X 2 \<or> a 2 = X 2 \<and> a 3 \<le> X 3 \<and> a 4 \<le> X 4))"
  then consider "a 0 < X 0" | "a 0 = X 0" "a 1 < X 1" | "a 0 = X 0" "a 1 = X 1" "a 2 < X 2"
    | "a 0 = X 0" "a 1 = X 1" "a 2 = X 2" "a 3 \<le> X 3" "a 4 \<le> X 4" by blast
  then show ?thesis
  proof cases
    case 1
    then show ?thesis by (intro lex_le_less [of 0]) auto
  next
    case 2
    then show ?thesis by (intro lex_le_less [of 1]) auto
  next
    case 3
    then show ?thesis by (intro lex_le_less [of 2]) (auto simp: numeral_eq_Suc less_Suc_eq)
  next
    case 4
    then show ?thesis by (intro lex_le_suffix [of 3]) (auto simp: numeral_eq_Suc less_Suc_eq)
  qed
qed

text \<open>The constraints a target carries that the search does not survive (see the header of \<open>Schedule_Laws\<close>).\<close>

definition runaway :: "DateTime \<Rightarrow> bool" where
  "runaway dt \<longleftrightarrow>
     isFieldFree dt 0 \<and> \<not> isFieldFree dt 1 \<and> getField dt 1 = 11 \<and> isFieldFree dt 2
     \<or> isFieldFree dt 3 \<and> \<not> isFieldFree dt 4 \<and> \<not> isFieldFree dt 2 \<and> 28 \<le> getField dt 2
       \<and> (isFieldFree dt 1 \<or> isFieldFree dt 0 \<and> getField dt 1 = 11)"

definition later_points :: "DateTime \<Rightarrow> (nat \<Rightarrow> int) set \<Rightarrow> bool" where
  "later_points dt Xs \<longleftrightarrow> (\<forall>X \<in> Xs. valid_point X \<and> meets dt X \<and> lex_le (getField dt) X)"

lemma meets_fixed: "meets dt X \<Longrightarrow> k < 5 \<Longrightarrow> \<not> isFieldFree dt k \<Longrightarrow> X k = getField dt k"
  by (simp add: meets_def)

lemma meets_fresh:
  "meets dt X \<Longrightarrow> k < 5 \<Longrightarrow> 3 \<le> k \<Longrightarrow> (isFieldFree dt k \<Longrightarrow> getField dt k = 0) \<Longrightarrow> getField dt k \<le> X k"
  by (auto simp: meets_def least_def)

lemma step_in_range:
  assumes "wf dt" and r: "in_range dt" and c: "valid_point c" and a: "ahead n c (getField dt)" and n: "2 \<le> n" "n \<le> 5"
    and Xs: "later_points dt Xs"
  shows "good_step zone n c Xs dt"
proof (cases "getField dt 2 \<le> month_days (getField dt 0 + 1900) (getField dt 1)")
  case True
  then have "valid_point (getField dt)" using r by (auto simp: in_range_def valid_point_def valid_date_def)
  then show ?thesis using assms by (intro good_step_free [of dt "getField dt"]) (auto simp: later_points_def)
next
  case False
  define y m d h mi where ymd: "y = getField dt 0" "m = getField dt 1" "d = getField dt 2" "h = getField dt 3" "mi = getField dt 4"
  have fixed2: "\<not> isFieldFree dt 2" and fresh: "isFieldFree dt 3 \<Longrightarrow> h = 0" "isFieldFree dt 4 \<Longrightarrow> mi = 0"
    and rng: "0 \<le> m" "m \<le> 11" "d \<le> 31" "month_days (y + 1900) m < d" "h \<in> {0..23}" "mi \<in> {0..59}"
    using False r by (auto simp: in_range_def ymd)
  have m: "m \<le> 10" and next31: "month_days (y + 1900) (m + 1) = 31"
    using rng by (auto simp: month_days_def split: if_splits)
  let ?p = "pt y (m + 1) (d - month_days (y + 1900) m) h mi"
  have vp: "valid_point ?p"
    using rng m next31 month_days_pos [of "y + 1900" m] by (simp add: valid_point_def valid_date_def)
  have mp: "minute_no ?p = minute_no (getField dt)"
    using day_number_overflow [of m "y + 1900" "d - month_days (y + 1900) m"] rng m
    by (simp add: minute_no_def date_no_def ymd)
  have X: "valid_point X \<and> X 2 = d \<and> y \<le> X 0 \<and> (y = X 0 \<longrightarrow> m < X 1) \<and> h \<le> X 3 \<and> mi \<le> X 4 \<and> meets dt X" if "X \<in> Xs" for X
  proof -
    have x: "valid_point X" "meets dt X" "lex_le (getField dt) X" using Xs that by (auto simp: later_points_def)
    have "X 2 = d" using meets_fixed [OF x(2) _ fixed2] by (simp add: ymd)
    moreover have "y = X 0 \<Longrightarrow> m \<noteq> X 1" using x(1) rng(4) \<open>X 2 = d\<close> by (auto simp: valid_point_def valid_date_def)
    ultimately show ?thesis
      using lex_le_cascade [OF x(3)] x(1,2) meets_fresh [OF x(2), of 3] meets_fresh [OF x(2), of 4] fresh
      by (auto simp: ymd order_le_less)
  qed
  have ca: "c 0 \<le> y" "c 0 = y \<Longrightarrow> c 1 \<le> m" using ahead_cascade [OF a n(1)] by (simp_all add: ymd)
  show ?thesis
  proof (cases "isFieldFree dt 1")
    case True
    let ?q = "pt y (m + 1) d h mi"
    show ?thesis
    proof (rule good_step_changed [OF assms(1) vp mp, where i = 2 and q = ?q])
      show "valid_point ?q" using rng m next31 month_days_pos [of "y + 1900" m] by (simp add: valid_point_def valid_date_def)
      show "ahead n c ?q" using ca n(1) by (intro ahead_month) auto
      show "lex_le ?q X" if "X \<in> Xs" for X using X [OF that] by (intro lex_le_date) auto
      show "getField dt 2 \<noteq> ?p 2" using month_days_pos [of "y + 1900" m] by (simp add: ymd)
      show "\<forall>j < 5. ?q j = (if j < 2 then ?p j else getField dt j)" unfolding all_fields by (simp add: ymd)
      show "\<exists>j < 2. getField dt j \<noteq> ?p j" by (rule exI [of _ 1]) (simp add: ymd)
      show "isFieldFree dt j" if "j < 2" "getField dt j \<noteq> ?p j" for j
        using that True by (cases "j = 0"; cases "j = 1") (auto simp: ymd)
    qed (use fixed2 n in auto)
  next
    case fixed1: False
    show ?thesis
    proof (rule good_step_failed [OF assms(1) vp mp, where i = 1])
      show "date_no c \<le> date_no ?p \<and> (\<forall>X \<in> Xs. date_no ?p < date_no X)" if "\<exists>j < 1. isFieldFree dt j"
      proof -
        have "date_no c < date_no ?p" using ca by (intro date_no_less c vp) auto
        moreover have "date_no ?p < date_no X" if "X \<in> Xs" for X
          using X [OF that] meets_fixed [of dt X 1] fixed1 by (intro date_no_less vp) (auto simp: ymd)
        ultimately show ?thesis by auto
      qed
      show "Xs = {}" if "\<forall>j < 1. \<not> isFieldFree dt j"
        using that X meets_fixed [of dt _ 0] meets_fixed [of dt _ 1] fixed1 by (force simp: ymd)
    qed (use fixed1 in \<open>simp_all add: ymd\<close>)
  qed
qed

lemma step_month:
  assumes "wf dt" and f: "isFieldFree dt 1" "getField dt 1 = 12" "0 \<le> getField dt 0" "getField dt 2 \<in> {1..31}"
      "isFieldFree dt 2 \<Longrightarrow> getField dt 2 = 1" "getField dt 3 \<in> {0..23}" "getField dt 4 \<in> {0..59}"
      "isFieldFree dt 3 \<Longrightarrow> getField dt 3 = 0" "isFieldFree dt 4 \<Longrightarrow> getField dt 4 = 0"
    and a: "ahead n c (getField dt)" and n: "2 \<le> n" "n \<le> 5"
    and Xs: "later_points dt Xs"
  shows "good_step zone n c Xs dt"
proof -
  define y d h mi where ymd: "y = getField dt 0" "d = getField dt 2" "h = getField dt 3" "mi = getField dt 4"
  let ?p = "pt (y + 1) 0 d h mi"
  have vp: "valid_point ?p" using f by (simp add: valid_point_def valid_date_def month_days_def ymd)
  have mp: "minute_no ?p = minute_no (getField dt)"
    using day_number_month_12 [of "y + 1900" d] f(2) by (simp add: minute_no_def date_no_def ymd add.commute)
  have X: "meets dt X \<and> y + 1 \<le> X 0 \<and> 0 \<le> X 1 \<and> d \<le> X 2 \<and> h \<le> X 3 \<and> mi \<le> X 4" if "X \<in> Xs" for X
  proof -
    have x: "valid_point X" "meets dt X" "lex_le (getField dt) X" using Xs that by (auto simp: later_points_def)
    have "d \<le> X 2" using x(2) f(5) meets_fixed [OF x(2), of 2] x(1)
      by (cases "isFieldFree dt 2") (auto simp: ymd valid_point_def valid_date_def)
    moreover have "y + 1 \<le> X 0" "0 \<le> X 1"
    proof -
      have x1: "0 \<le> X 1" "X 1 \<le> 11" using x(1) by (simp_all add: valid_point_def valid_date_def)
      then show "0 \<le> X 1" by simp
      have "y \<noteq> X 0" using lex_le_cascade(2) [OF x(3)] f(2) x1 by (auto simp: ymd)
      then show "y + 1 \<le> X 0" using lex_le_cascade(1) [OF x(3)] by (simp add: ymd)
    qed
    ultimately show ?thesis
      using x(2) meets_fresh [OF x(2), of 3] meets_fresh [OF x(2), of 4] f(8,9) by (auto simp: ymd)
  qed
  show ?thesis
  proof (cases "isFieldFree dt 0")
    case True
    show ?thesis
    proof (rule good_step_free [OF assms(1) vp mp])
      show "isFieldFree dt j" if "j < 5" "getField dt j \<noteq> ?p j" for j
      proof -
        have "j = 0 \<or> j = 1 \<or> j = 2 \<or> j = 3 \<or> j = 4" using that(1) by linarith
        then show ?thesis using that(2) True f(1) by (auto simp: ymd)
      qed
      show "ahead n c ?p" using ahead_cascade [OF a n(1)] n(1) by (intro ahead_month) (auto simp: ymd)
      show "lex_le ?p X" if "X \<in> Xs" for X using X [OF that] by (intro lex_le_date) auto
    qed (rule n(2))
  next
    case False
    show ?thesis
    proof (rule good_step_failed [OF assms(1) vp mp, where i = 0])
      show "Xs = {}" using X meets_fixed [of dt _ 0] False by (force simp: ymd)
    qed (use False in \<open>simp_all add: ymd\<close>)
  qed
qed

text \<open>The day after the last of a month, and the hour after the last of a day: in both cases the points come after the projected day.\<close>

lemma step_overflow:
  assumes "wf dt" and f: "m = getField dt 1" "y = getField dt 0" "0 \<le> m" "m \<le> 11"
    and p: "p = (if m < 11 then pt y (m + 1) 1 h mi else pt (y + 1) 0 1 h mi)" and vp: "valid_point p"
    and mp: "minute_no p = minute_no (getField dt)"
    and differs: "getField dt 2 \<noteq> 1" and rest: "\<And>j. j < 5 \<Longrightarrow> 3 \<le> j \<Longrightarrow> getField dt j \<noteq> p j \<Longrightarrow> isFieldFree dt j"
    and nr: "\<not> (isFieldFree dt 0 \<and> \<not> isFieldFree dt 1 \<and> m = 11)"
    and free2: "isFieldFree dt 2 \<or> \<not> isFieldFree dt 1 \<or> m = 11 \<and> \<not> isFieldFree dt 0"
    and c: "valid_point c" "c 0 = y" "c 1 = m" and n: "2 \<le> n" "n \<le> 5"
    and X: "\<And>X. X \<in> Xs \<Longrightarrow> valid_point X \<and> meets dt X \<and> (y < X 0 \<or> y = X 0 \<and> m < X 1) \<and> lex_le p X"
  shows "good_step zone n c Xs dt"
proof -
  have p_simps: "p 0 = (if m < 11 then y else y + 1)" "p (Suc 0) = (if m < 11 then m + 1 else 0)" "p 2 = 1" by (simp_all add: p)
  have none_fixed: False if "X \<in> Xs" "\<not> isFieldFree dt 0" "m = 11 \<or> \<not> isFieldFree dt 1" for X
  proof -
    have "X 0 = y" using X [OF that(1)] meets_fixed [of dt X 0] that(2) f(2) by simp
    moreover have "X 1 \<le> 11" using X [OF that(1)] by (auto simp: valid_point_def valid_date_def)
    ultimately show False using X [OF that(1)] meets_fixed [of dt X 1] that(3) f(1) by auto
  qed
  consider "m = 11" "\<not> isFieldFree dt 0" | "m < 11" "\<not> isFieldFree dt 1" | "isFieldFree dt 1" "isFieldFree dt 2" "m < 11 \<or> isFieldFree dt 0"
  proof -
    have "m = 11 \<or> m < 11" using f(4) by linarith
    then show ?thesis using nr free2 that by blast
  qed
  then show ?thesis
  proof cases
    case 1
    show ?thesis
    proof (rule good_step_failed [OF assms(1) vp mp, where i = 0])
      show "Xs = {}" using none_fixed 1 by blast
    qed (use 1 f(2) p_simps in auto)
  next
    case 2
    show ?thesis
    proof (rule good_step_failed [OF assms(1) vp mp, where i = 1])
      show "date_no c \<le> date_no p \<and> (\<forall>X \<in> Xs. date_no p < date_no X)" if "\<exists>j < 1. isFieldFree dt j"
      proof -
        have "date_no c < date_no p" using 2 c p_simps by (intro date_no_less c vp) auto
        moreover have "date_no p < date_no X" if "X \<in> Xs" for X
          using X [OF that] meets_fixed [of dt X 1] 2 f p_simps by (intro date_no_less vp) auto
        ultimately show ?thesis by auto
      qed
      show "Xs = {}" if "\<forall>j < 1. \<not> isFieldFree dt j" using none_fixed 2 that by auto
    qed (use 2 f p_simps in auto)
  next
    case 3
    show ?thesis
    proof (rule good_step_free [OF assms(1) vp mp])
      show "isFieldFree dt j" if "j < 5" "getField dt j \<noteq> p j" for j
      proof (cases "3 \<le> j")
        case True
        then show ?thesis using rest that by blast
      next
        case False
        then have "j = 0 \<or> j = 1 \<or> j = 2" by linarith
        then show ?thesis using that 3 p_simps f(2) by auto
      qed
      show "ahead n c p" using c p_simps n(1) by (intro ahead_month) auto
      show "lex_le p X" if "X \<in> Xs" for X using X [OF that] by blast
    qed (rule n(2))
  qed
qed

lemma step_day:
  assumes "wf dt" and f: "isFieldFree dt 2" "getField dt 0 = c 0" "getField dt 1 = c 1"
      "getField dt 2 = month_days (c 0 + 1900) (c 1) + 1" "getField dt 3 \<in> {0..23}" "getField dt 4 \<in> {0..59}"
      "isFieldFree dt 3 \<Longrightarrow> getField dt 3 = 0" "isFieldFree dt 4 \<Longrightarrow> getField dt 4 = 0"
    and c: "valid_point c" and n: "2 \<le> n" "n \<le> 5" and Xs: "later_points dt Xs" and nr: "\<not> runaway dt"
  shows "good_step zone n c Xs dt"
proof -
  define y m h mi where ymd: "y = getField dt 0" "m = getField dt 1" "h = getField dt 3" "mi = getField dt 4"
  define p where "p = (if m < 11 then pt y (m + 1) 1 h mi else pt (y + 1) 0 1 h mi)"
  have m: "0 \<le> m" "m \<le> 11" using c f(3) by (simp_all add: ymd valid_point_def valid_date_def)
  have pos: "27 < month_days y' m'" for y' m' by (rule month_days_pos)
  show ?thesis
  proof (rule step_overflow [OF assms(1) ymd(2,1) m p_def])
    show vp: "valid_point p"
      using m f(5,6) pos [of "y + 1900" "m + 1"] by (auto simp: p_def valid_point_def valid_date_def month_days_def ymd)
    show "minute_no p = minute_no (getField dt)"
      using day_number_overflow [OF m, of "y + 1900" 1] f(2-4) m
      by (auto simp: p_def minute_no_def date_no_def ymd add.commute)
    show "getField dt 2 \<noteq> 1" using f(4) pos [of "c 0 + 1900" "c 1"] by simp
    show "isFieldFree dt j" if "j < 5" "3 \<le> j" "getField dt j \<noteq> p j" for j
    proof -
      have "j = 3 \<or> j = 4" using that(1,2) by linarith
      then show ?thesis using that(3) by (auto simp: p_def ymd split: if_splits)
    qed
    show "\<not> (isFieldFree dt 0 \<and> \<not> isFieldFree dt 1 \<and> m = 11)" using nr f(1) by (auto simp: runaway_def ymd)
    show "valid_point X \<and> meets dt X \<and> (y < X 0 \<or> y = X 0 \<and> m < X 1) \<and> lex_le p X" if "X \<in> Xs" for X
    proof -
      have x: "valid_point X" "meets dt X" "lex_le (getField dt) X" using Xs that by (auto simp: later_points_def)
      have "\<not> (y = X 0 \<and> m = X 1)"
        using x(1) lex_le_cascade(3) [OF x(3)] f(2-4) by (auto simp: ymd valid_point_def valid_date_def)
      then have ym: "y < X 0 \<or> y = X 0 \<and> m < X 1" using lex_le_cascade(1,2) [OF x(3)] by (auto simp: ymd order_le_less)
      have "1 \<le> X 2" "0 \<le> X 1" "X 1 \<le> 11" using x(1) by (auto simp: valid_point_def valid_date_def)
      moreover have "h \<le> X 3" "mi \<le> X 4" using meets_fresh [OF x(2), of 3] meets_fresh [OF x(2), of 4] f(7,8) by (auto simp: ymd)
      ultimately have "lex_le p X" using ym by (intro lex_le_date) (auto simp: p_def order_le_less)
      then show ?thesis using x ym by blast
    qed
  qed (use f(1-3) c n in \<open>auto simp: ymd\<close>)
qed

lemma step_hour:
  assumes "wf dt" and f: "isFieldFree dt 3" "\<not> isFieldFree dt 4" "getField dt 0 = c 0" "getField dt 1 = c 1"
      "getField dt 2 = c 2" "getField dt 3 = 24" "getField dt 4 \<in> {0..59}"
    and c: "valid_point c" and n: "3 \<le> n" "n \<le> 5" and Xs: "later_points dt Xs" and nr: "\<not> runaway dt"
  shows "good_step zone n c Xs dt"
proof -
  define y m d mi where ymd: "y = getField dt 0" "m = getField dt 1" "d = getField dt 2" "mi = getField dt 4"
  have v: "valid_date (y + 1900) m d" using c f(3-5) by (simp add: ymd valid_point_def)
  obtain y' m' d' where nd: "next_date y m d = (y', m', d')" by (metis prod_cases3)
  note nxt = next_date [OF v nd]
  define p where "p = pt y' m' d' 0 mi"
  have vp: "valid_point p" using nxt(1) f(7) by (simp add: p_def valid_point_def ymd)
  have mp: "minute_no p = minute_no (getField dt)" using nxt(2) f(6) by (simp add: p_def minute_no_def date_no_def ymd)
  have dp: "date_no p = date_no c + 1" using nxt(2) f(3-5) by (simp add: p_def date_no_def ymd)
  have X: "valid_point X \<and> meets dt X \<and> lex_le p X \<and> y \<le> X 0 \<and> (y = X 0 \<longrightarrow> m \<le> X 1) \<and> (y = X 0 \<longrightarrow> m = X 1 \<longrightarrow> d < X 2)"
    if "X \<in> Xs" for X
  proof -
    have x: "valid_point X" "meets dt X" "lex_le (getField dt) X" using Xs that by (auto simp: later_points_def)
    have "\<not> (y = X 0 \<and> m = X 1 \<and> d = X 2)"
      using x(1) lex_le_cascade(4) [OF x(3)] f(6) by (auto simp: ymd valid_point_def)
    then have lt: "y < X 0 \<or> y = X 0 \<and> (m < X 1 \<or> m = X 1 \<and> d < X 2)"
      using lex_le_cascade(1-3) [OF x(3)] by (auto simp: ymd order_le_less)
    then have "date_no c < date_no X" using f(3-5) by (intro date_no_less c x(1)) (auto simp: ymd)
    moreover have "X 4 = mi" "0 \<le> X 3" using meets_fixed [OF x(2) _ f(2)] x(1) by (auto simp: ymd valid_point_def)
    moreover have "p 3 = 0" "p 4 = mi" by (simp_all add: p_def)
    ultimately have "minute_no p \<le> minute_no X" using dp unfolding minute_no_def by simp
    then show ?thesis using lex_le_minute_no [OF vp x(1)] x lt by auto
  qed
  show ?thesis
  proof (cases "d < month_days (y + 1900) m")
    case True
    then have p: "p = pt y m (d + 1) 0 mi" using nd by (simp add: p_def next_date_def)
    show ?thesis
    proof (cases "isFieldFree dt 2")
      case True
      show ?thesis
      proof (rule good_step_free [OF assms(1) vp mp])
        show "isFieldFree dt j" if "j < 5" "getField dt j \<noteq> p j" for j
        proof -
          have "j = 0 \<or> j = 1 \<or> j = 2 \<or> j = 3 \<or> j = 4" using that(1) by linarith
          then show ?thesis using that(2) True f(1) by (auto simp: p ymd)
        qed
        show "ahead n c p" using f(3-5) n(1) by (intro aheadI [of 2]) (auto simp: p ymd numeral_eq_Suc less_Suc_eq)
        show "lex_le p X" if "X \<in> Xs" for X using X [OF that] by blast
      qed (rule n(2))
    next
      case fixed2: False
      show ?thesis
      proof (rule good_step_failed [OF assms(1) vp mp, where i = 2])
        show "date_no c \<le> date_no p \<and> (\<forall>X \<in> Xs. date_no p < date_no X)"
        proof -
          have "date_no p < date_no X" if "X \<in> Xs" for X
            using X [OF that] meets_fixed [of dt X 2] fixed2 by (intro date_no_less vp) (auto simp: p ymd order_le_less)
          then show ?thesis using dp by simp
        qed
        show "Xs = {}" if "\<forall>j < 2. \<not> isFieldFree dt j"
        proof -
          have free: "\<not> isFieldFree dt 0" "\<not> isFieldFree dt 1" using that by auto
          have False if "X \<in> Xs" for X
          proof -
            have "meets dt X" using X [OF that] by blast
            then have "X 0 = y" "X 1 = m" "X 2 = d" using free fixed2 by (simp_all add: meets_fixed ymd)
            then show False using X [OF that] by simp
          qed
          then show ?thesis by blast
        qed
        show "\<forall>j < 2. getField dt j = p j" by (auto simp: p ymd numeral_eq_Suc less_Suc_eq)
      qed (use fixed2 in \<open>simp_all add: p ymd\<close>)
    qed
  next
    case False
    then have d: "d = month_days (y + 1900) m" using v by (simp add: valid_date_def)
    then have d28: "28 \<le> d" using month_days_pos [of "y + 1900" m] by simp
    show ?thesis
    proof (rule step_overflow [OF assms(1) ymd(2,1)])
      show "p = (if m < 11 then pt y (m + 1) 1 0 mi else pt (y + 1) 0 1 0 mi)"
        using nd False by (auto simp: p_def next_date_def split: if_splits)
      show "isFieldFree dt j" if "j < 5" "3 \<le> j" "getField dt j \<noteq> p j" for j
      proof -
        have "j = 3 \<or> j = 4" using that(1,2) by linarith
        then show ?thesis using that(3) f(1) by (auto simp: p_def ymd)
      qed
      show "\<not> (isFieldFree dt 0 \<and> \<not> isFieldFree dt 1 \<and> m = 11)"
        using nr f(1,2) d28 by (auto simp: runaway_def ymd)
      show "isFieldFree dt 2 \<or> \<not> isFieldFree dt 1 \<or> m = 11 \<and> \<not> isFieldFree dt 0"
        using nr f(1,2) d28 by (auto simp: runaway_def ymd)
      show "valid_point X \<and> meets dt X \<and> (y < X 0 \<or> y = X 0 \<and> m < X 1) \<and> lex_le p X" if "X \<in> Xs" for X
      proof -
        have x: "valid_point X" "meets dt X" "lex_le p X" "y \<le> X 0" "y = X 0 \<longrightarrow> m \<le> X 1" "y = X 0 \<longrightarrow> m = X 1 \<longrightarrow> d < X 2"
          using X [OF that] by blast+
        have "\<not> (y = X 0 \<and> m = X 1)" using x(1,6) d by (auto simp: valid_point_def valid_date_def)
        then show ?thesis using x(1-5) by linarith
      qed
    qed (use f(3,4) v vp mp c n d28 in \<open>auto simp: ymd valid_date_def\<close>)
  qed
qed

end
