(* ===== verification/Search.thy ===== *)
theory Search
  imports Resolution
begin

text \<open>
  What \<open>tryResolve\<close> finds: the first valid point from the current one on that has the fixed fields of the target and falls on one of
  its weekdays.
\<close>

section \<open>The result\<close>

definition resolution :: "nat \<Rightarrow> (nat \<Rightarrow> int) \<Rightarrow> (nat \<Rightarrow> int) set \<Rightarrow> DateTime \<Rightarrow> ResolutionResult \<times> DateTime \<Rightarrow> bool" where
  "resolution n c Xs dt res \<longleftrightarrow>
     (case res of
        (r, dt') \<Rightarrow>
          (r \<noteq> Resolution_Impossible \<longrightarrow>
             keeps_frame dt dt' \<and> (\<forall>k < 5. \<not> isFieldFree dt k \<longrightarrow> getField dt' k = getField dt k))
          \<and> (case r of
               Resolution_Resolved \<Rightarrow>
                 valid_point (getField dt') \<and> ahead n c (getField dt') \<and> (\<forall>X \<in> Xs. lex_le (getField dt') X)
             | Resolution_Unresolved \<Rightarrow>
                 (\<exists>p. valid_point p \<and> minute_no p = minute_no (getField dt') \<and> p 0 = getField dt' 0
                    \<and> date_no c \<le> date_no p \<and> (\<forall>X \<in> Xs. date_no p < date_no X)) \<and> (isFieldFree dt 0 \<or> isFieldFree dt 1)
             | Resolution_Impossible \<Rightarrow> Xs = {}))"

lemma keeps_frame_free: "keeps_frame dt dt' \<Longrightarrow> isFieldFree dt' k = isFieldFree dt k"
  by (simp add: keeps_frame_def isFieldFree_def)

lemma keeps_frame_trans: "keeps_frame a b \<Longrightarrow> keeps_frame b c \<Longrightarrow> keeps_frame a c"
  by (simp add: keeps_frame_def)

lemma same_keeps_frame: "same_frame a b \<Longrightarrow> keeps_frame a b"
  by (simp add: keeps_frame_def same_frame_def)

lemma resolution_trans:
  assumes "keeps_frame a b" and "\<forall>k < 5. \<not> isFieldFree a k \<longrightarrow> getField b k = getField a k" and "resolution n c Xs b res"
  shows "resolution n c Xs a res"
proof -
  obtain r d where res: "res = (r, d)" by fastforce
  have "keeps_frame a d \<and> (\<forall>k < 5. \<not> isFieldFree a k \<longrightarrow> getField d k = getField a k)" if "r \<noteq> Resolution_Impossible"
    using assms keeps_frame_trans keeps_frame_free [OF assms(1)] that by (auto simp: resolution_def res)
  then show ?thesis
    using assms(3) keeps_frame_free [OF assms(1)] by (cases r) (simp_all add: resolution_def res)
qed

section \<open>A target that is already right\<close>

lemma tryResolveUnprojected_ahead:
  assumes "ahead (Suc to) (getField cur) (getField dt)" and "from \<le> Suc to" and "isCompatibleWithWeekDays zone dt"
  shows "tryResolveUnprojected (Suc n) zone cur from to dt = Some (True, dt)"
  using tryResolve_ahead [OF assms(1,2)] assms(3) by simp

lemma tryResolve_valid:
  assumes "wf dt" and "valid_point (getField dt)" and "ahead (Suc to) (getField cur) (getField dt)" and "from \<le> Suc to"
    and "to \<le> Minute" and "isCompatibleWithWeekDays zone dt" and "\<forall>X \<in> Xs. lex_le (getField dt) X"
  shows "\<exists>dt'. tryResolve (Suc (Suc n)) zone cur from to dt = Some (Resolution_Resolved, dt')
    \<and> resolution (Suc to) (getField cur) Xs dt (Resolution_Resolved, dt') \<and> (\<forall>k < 5. getField dt' k = getField dt k)"
proof -
  obtain dt' where dt': "projectOnActualCalendar zone dt = (Projection_Succeeded, dt')" "keeps_frame dt dt'"
    "\<forall>k < 5. getField dt' k = getField dt k"
    using project_free [OF assms(1,2) refl] by force
  have "tryResolve (Suc (Suc n)) zone cur from to dt = Some (Resolution_Resolved, dt')"
    using tryResolveUnprojected_ahead [OF assms(3,4,6)] dt'(1) by simp
  moreover have "resolution (Suc to) (getField cur) Xs dt (Resolution_Resolved, dt')"
    using dt'(2,3) assms(2,3,5,7) point_cong(1-3) [OF dt'(3)] by (auto simp: resolution_def)
  ultimately show ?thesis using dt'(3) by blast
qed

section \<open>Targets without weekdays\<close>

lemma same_frame_runaway:
  assumes "same_frame dt dt'"
  shows "runaway dt' = runaway dt"
proof -
  note free = same_frame_free [OF assms]
  have "\<not> isFieldFree dt k \<Longrightarrow> k < 5 \<Longrightarrow> getField dt' k = getField dt k" for k
    using assms by (simp add: same_frame_def)
  from this [of 1] this [of 2] show ?thesis unfolding runaway_def free by auto
qed

lemma compatible_no_weekdays [simp]: "weekdays_m dt = 0 \<Longrightarrow> isCompatibleWithWeekDays zone dt"
  by (simp add: isCompatibleWithWeekDays_def)

lemma adjusted_step:
  assumes "wf dt" and r: "in_range dt" and c: "valid_point c" "0 \<le> c 0" and sf: "same_frame dt dt'"
    and mv: "dt' = dt \<or> moved c dt dt'" and a: "ahead n c (getField dt')" and n: "3 \<le> n" "n \<le> 5"
    and Xs: "later_points dt' Xs" and nr: "\<not> runaway dt"
  shows "good_step zone n c Xs dt'"
proof -
  have wf: "wf dt'" using sf by (simp add: same_frame_def)
  have nr': "\<not> runaway dt'" using nr same_frame_runaway [OF sf] by simp
  have n2: "2 \<le> n" using n(1) by simp
  note free = same_frame_free [OF sf]
  from mv show ?thesis
  proof
    assume "dt' = dt"
    then have "in_range dt'" using r by simp
    then show ?thesis by (rule step_in_range [OF wf _ c(1) a n2 n(2) Xs])
  next
    assume m: "moved c dt dt'"
    show ?thesis
    proof (rule moved_cases [OF r c m sf], goal_cases range month day hour)
      case range
      then show ?thesis by (rule step_in_range [OF wf _ c(1) a n2 n(2) Xs])
    next
      case month
      show ?thesis by (rule step_month [OF wf _ _ _ _ _ _ _ _ _ a n2 n(2) Xs]) (use month free in auto)
    next
      case day
      show ?thesis by (rule step_day [OF wf _ _ _ _ _ _ _ _ c(1) n2 n(2) Xs nr']) (use day free in auto)
    next
      case hour
      show ?thesis by (rule step_hour [OF wf _ _ _ _ _ _ _ c(1) n Xs nr']) (use hour free in auto)
    qed
  qed
qed

lemma tryResolve_no_weekdays:
  assumes "wf dt" and "in_range dt" and "weekdays_m dt = 0" and "\<not> runaway dt"
    and "valid_point (getField cur)" and "0 \<le> getField cur 0" and "2 \<le> to" and "to \<le> Minute" and "from \<le> Suc to"
    and "ahead from (getField cur) (getField dt)" and "later_points dt Xs" and "\<forall>X \<in> Xs. lex_le (getField cur) X"
  shows "\<exists>res. tryResolve (n + 3) zone cur from to dt = Some res \<and> resolution (Suc to) (getField cur) Xs dt res"
proof -
  define c where "c = getField cur"
  have c: "valid_point c" "0 \<le> c 0" "\<forall>j < 5. 0 \<le> c j" using valid_nonneg assms(5,6) by (auto simp: c_def)
  obtain b dt1 where rw: "tryResolveWithoutWeekdays cur from to dt = (b, dt1)" by fastforce
  note t = tryResolveWithoutWeekdays [OF assms(1,8,9) assms(10) [folded c_def] c(3) c_def rw]
  have fuel: "n + 3 = Suc (Suc (Suc n))" by simp
  show ?thesis
  proof (cases b)
    case False
    have "Xs = {}" using t(2) False assms(11,12) by (fastforce simp: later_points_def c_def)
    moreover have "tryResolve (n + 3) zone cur from to dt = Some (Resolution_Impossible, dt1)"
      unfolding fuel using rw False by simp
    ultimately show ?thesis by (auto simp: resolution_def)
  next
    case True
    then have sf: "same_frame dt dt1" and mv: "dt1 = dt \<or> moved c dt dt1" and a: "ahead (Suc to) c (getField dt1)" using t(1) by auto
    have later: "later_points dt1 Xs"
      using assms(11,12) t(2) same_frame_meets [OF sf] by (auto simp: later_points_def c_def)
    have w1: "weekdays_m dt1 = 0" "wf dt1" using sf assms(3) by (simp_all add: same_frame_def)
    have g: "good_step zone (Suc to) c Xs dt1"
      using adjusted_step [OF assms(1,2) c(1,2) sf mv a _ _ later assms(4)] assms(7,8) by simp
    obtain r dt2 where p: "projectOnActualCalendar zone dt1 = (r, dt2)" by fastforce
    have k2: "keeps_frame dt1 dt2" "\<forall>k < 5. \<not> isFieldFree dt1 k \<longrightarrow> getField dt2 k = getField dt1 k"
      using g p by (auto simp: good_step_def)
    have fr: "keeps_frame dt dt2" "\<forall>k < 5. \<not> isFieldFree dt k \<longrightarrow> getField dt2 k = getField dt k"
      using k2 same_keeps_frame [OF sf] keeps_frame_trans same_frame_free [OF sf] sf by (auto simp: same_frame_def)
    have un: "tryResolveUnprojected (Suc (Suc n)) zone cur from to dt = Some (True, dt1)" using rw True w1 by simp
    show ?thesis
    proof (cases r)
      case Projection_Succeeded
      then have "valid_point (getField dt1)" and eq: "\<forall>k < 5. getField dt2 k = getField dt1 k" using g p by (auto simp: good_step_def)
      then have "resolution (Suc to) c Xs dt (Resolution_Resolved, dt2)"
        using fr later a point_cong(1-3) [OF eq] assms(8) by (auto simp: resolution_def later_points_def)
      then show ?thesis unfolding fuel using un p Projection_Succeeded by (simp add: c_def)
    next
      case Projection_Failed
      then have "resolution (Suc to) c Xs dt (Resolution_Unresolved, dt2)"
        using g p fr same_frame_free [OF sf] by (simp add: good_step_def resolution_def)
      then show ?thesis unfolding fuel using un p Projection_Failed by (simp add: c_def)
    next
      case Projection_Impossible
      then have "resolution (Suc to) c Xs dt (Resolution_Impossible, dt2)" using g p fr by (simp add: good_step_def resolution_def)
      then show ?thesis unfolding fuel using un p Projection_Impossible by (simp add: c_def)
    next
      case Projection_Changed
      then have v: "valid_point (getField dt2)" "ahead (Suc to) c (getField dt2)" "\<forall>X \<in> Xs. lex_le (getField dt2) X"
        using g p by (auto simp: good_step_def)
      have "wf dt2" "weekdays_m dt2 = 0" using k2(1) w1 by (simp_all add: keeps_frame_def)
      then obtain dt3 where "tryResolve (Suc (Suc n)) zone cur from to dt2 = Some (Resolution_Resolved, dt3)"
        "resolution (Suc to) c Xs dt2 (Resolution_Resolved, dt3)"
        using tryResolve_valid [OF _ v(1) v(2) [unfolded c_def] assms(9,8) _ v(3), of zone n] by (auto simp: c_def)
      then show ?thesis
        unfolding fuel using un p Projection_Changed resolution_trans [OF fr] by (auto simp: c_def)
    qed
  qed
qed

section \<open>Targets with weekdays\<close>

definition weekday_ok :: "int \<Rightarrow> int \<Rightarrow> bool" where
  "weekday_ok w n \<longleftrightarrow> bit w (nat ((n + 5) mod 7))"

lemma minute_day:
  assumes "a 3 \<in> {0..23}" and "a 4 \<in> {0..59}"
  shows "minute_no a div 1440 = date_no a"
proof -
  define t where "t = a 3 * 60 + a 4"
  have "0 \<le> t" "t < 1440" using assms by (auto simp: t_def)
  then show ?thesis by (intro int_div_pos_eq [of _ _ _ t]) (auto simp: minute_no_def t_def)
qed

lemma weekday_of_time: "(tm_wday (localtime zone ((n - 719528 * 1440) * 60 - zone)) + 6) mod 7 = (n div 1440 + 5) mod 7"
proof -
  define q r where "q = n div 1440" and "r = n mod 1440"
  have qr: "n = q * 1440 + r" "0 \<le> r" "r < 1440" by (simp_all add: q_def r_def)
  have d: "((n - 719528 * 1440) * 60 - zone + zone) div 86400 = q - 719528"
    using qr by (intro int_div_pos_eq [of _ _ _ "r * 60"]) auto
  obtain y m d where "date_of_day q = (y, m, d)" by (metis prod_cases3)
  then have "tm_wday (localtime zone ((n - 719528 * 1440) * 60 - zone)) = (q + 6) mod 7"
    unfolding localtime_def Let_def d by simp
  then have "(tm_wday (localtime zone ((n - 719528 * 1440) * 60 - zone)) + 6) mod 7 = (q + 6 + 6) mod 7"
    by (simp only: mod_add_left_eq)
  also have "\<dots> = (q + 5 + 1 * 7) mod 7" by simp
  also have "\<dots> = (q + 5) mod 7" by (rule mod_mult_self1)
  finally show ?thesis unfolding q_def .
qed

lemma isCompatible_weekday:
  "isCompatibleWithWeekDays zone dt \<longleftrightarrow>
     weekdays_m dt = 0 \<or> weekday_ok (weekdays_m dt) (minute_no (getField dt) div 1440)"
  unfolding isCompatibleWithWeekDays_def DateTime_getTime_def Let_def mktime_minute_no snd_conv weekday_of_time
  by (simp add: weekday_ok_def bit_iff_and_push_bit_not_eq_0)

lemma weekday_within_week:
  assumes "0 < w" and "w < 128"
  shows "\<exists>k \<le> 6. weekday_ok w (n + int k)"
proof -
  have "\<exists>b < 7. bit w b"
  proof (rule ccontr)
    assume *: "\<not> (\<exists>b < 7. bit w b)"
    have "bit w b = bit 0 b" for b
    proof (cases "b < 7")
      case False
      have "w = take_bit 7 w" using assms by (simp add: take_bit_int_eq_self)
      then show ?thesis using False by (metis bit_0_eq bit_take_bit_iff bot_apply bot_bool_def)
    qed (use * in auto)
    then have "w = 0" by (rule bit_eqI)
    then show False using assms by simp
  qed
  then obtain b where b: "b < 7" "bit w b" by blast
  define k where "k = nat ((int b - (n + 5)) mod 7)"
  have k: "int k = (int b - (n + 5)) mod 7" by (simp add: k_def)
  have "(n + int k + 5) mod 7 = (n + 5 + (int b - (n + 5)) mod 7) mod 7" unfolding k by (simp add: algebra_simps)
  also have "\<dots> = (n + 5 + (int b - (n + 5))) mod 7" by (rule mod_add_right_eq)
  also have "\<dots> = int b" using b(1) by simp
  finally have "(n + int k + 5) mod 7 = int b" .
  then have "weekday_ok w (n + int k)" using b(2) by (simp add: weekday_ok_def)
  moreover have "int k < 7" unfolding k by simp
  ultimately show ?thesis by (intro exI [of _ k]) auto
qed

text \<open>The point a target is projected to.\<close>

lemma normalised:
  obtains p where "valid_point p" "minute_no p = minute_no (getField dt)"
proof
  let ?s = "mktime zone (tm_of dt)"
  show "valid_point (fields_of (localtime zone ?s))" by (rule valid_fields_of) (rule localtime_valid)
  let ?t = "localtime zone ?s"
  have "mktime zone (?t\<lparr>tm_sec := 0\<rparr>) = ?s - tm_sec ?t" using mktime_localtime [of zone ?s] by (simp add: mktime_def)
  moreover have "(minute_no (fields_of ?t) - 719528 * 1440) * 60 - zone = mktime zone (?t\<lparr>tm_sec := 0\<rparr>)"
    by (simp add: mktime_def minute_no_def date_no_def)
  moreover have "0 \<le> tm_sec ?t \<and> tm_sec ?t \<le> 59" using localtime_valid [of zone ?s] by (simp add: valid_tm_def)
  ultimately have "(minute_no (fields_of ?t) - minute_no (getField dt)) * 60 = - tm_sec ?t" "0 \<le> tm_sec ?t" "tm_sec ?t \<le> 59"
    unfolding mktime_minute_no by simp_all
  moreover have "x = y" if "(x - y) * 60 = - s" "0 \<le> s" "s \<le> 59" for x y s :: int
  proof -
    have e: "60 * x - 60 * y = - s" using that(1) by (simp add: algebra_simps)
    have "\<not> x < y"
    proof
      assume "x < y"
      then have "60 * x + 60 \<le> 60 * y" by simp
      then show False using e that(3) by simp
    qed
    moreover have "\<not> y < x"
    proof
      assume "y < x"
      then have "60 * y + 60 \<le> 60 * x" by simp
      then show False using e that(2) by simp
    qed
    ultimately show ?thesis by simp
  qed
  ultimately show "minute_no (fields_of ?t) = minute_no (getField dt)" by blast
qed

lemma ahead_date_no:
  assumes "valid_point c" and "valid_point p" and "date_no c < date_no p" and "3 \<le> n"
  shows "ahead n c p"
proof -
  have "c 0 < p 0 \<or> c 0 = p 0 \<and> (c 1 < p 1 \<or> c 1 = p 1 \<and> c 2 < p 2)"
  proof (rule ccontr)
    assume *: "\<not> ?thesis"
    show False
    proof (cases "p 0 = c 0 \<and> p 1 = c 1 \<and> p 2 = c 2")
      case True
      then show False using assms(3) by (simp add: date_no_def)
    next
      case False
      then have "date_no p < date_no c" using * by (intro date_no_less assms(1,2)) linarith
      then show False using assms(3) by simp
    qed
  qed
  then consider "c 0 < p 0" | "c 0 = p 0" "c 1 < p 1" | "c 0 = p 0" "c 1 = p 1" "c 2 < p 2" by blast
  then show ?thesis
  proof cases
    case 3
    then show ?thesis using assms(4) by (intro aheadI [of 2]) (auto simp: numeral_eq_Suc less_Suc_eq)
  qed (use assms(4) in \<open>auto intro: ahead_month\<close>)
qed

lemma lex_le_of_minutes: "valid_point p \<Longrightarrow> valid_point X \<Longrightarrow> minute_no p \<le> minute_no X \<Longrightarrow> lex_le p X"
  by (simp add: lex_le_minute_no)

text \<open>A target whose date is free, and the next day of it.\<close>

definition free_date :: "DateTime \<Rightarrow> bool" where
  "free_date dt \<longleftrightarrow> wf dt \<and> isFieldFree dt 0 \<and> isFieldFree dt 1 \<and> isFieldFree dt 2 \<and> 1 \<le> getField dt 2"

lemma free_date_next:
  assumes "free_date dt"
  shows "\<exists>dt'. tryIncreaseClosestGreaterFreeField Day dt = (True, dt') \<and> free_date dt' \<and> same_frame dt dt'
    \<and> getField dt' 0 = getField dt 0 \<and> getField dt' 1 = getField dt 1 \<and> getField dt' 2 = getField dt 2 + 1
    \<and> getField dt' 3 = (if isFieldFree dt 3 then 0 else getField dt 3)
    \<and> getField dt' 4 = (if isFieldFree dt 4 then 0 else getField dt 4)"
proof -
  let ?v = "getField dt 2 + 1"
  have v: "?v \<noteq> - 1" "Day \<le> Minute" "wf dt" "isFieldFree dt Day" using assms by (auto simp: free_date_def)
  let ?d = "setField Day ?v False dt"
  have sf: "same_frame dt ?d" using same_frame_setField [OF v] .
  note f = setField_value(4) [OF v(1-3), of _ False]
  have "closest_free dt Day = Some Day" using v(4) by (simp add: numeral_eq_Suc)
  then have t: "tryIncreaseClosestGreaterFreeField Day dt = (True, ?d)"
    by (simp add: tryIncreaseClosestGreaterFreeField_def increaseField_def)
  have fields: "getField ?d 0 = getField dt 0" "getField ?d 1 = getField dt 1" "getField ?d 2 = getField dt 2 + 1"
    "getField ?d 3 = (if isFieldFree dt 3 then 0 else getField dt 3)"
    "getField ?d 4 = (if isFieldFree dt 4 then 0 else getField dt 4)"
    using f [of 0] f [of 1] f [of 2] f [of 3] f [of 4] by (simp_all add: least_def)
  have "free_date ?d" using assms fields sf same_frame_free [OF sf] by (simp add: free_date_def same_frame_def)
  then show ?thesis using t sf fields by blast
qed

lemma ahead_next_day:
  assumes "ahead n c a" and "3 \<le> n" and "b 0 = a 0" and "b 1 = a 1" and "a 2 < b 2"
  shows "ahead n c b"
  using assms(1)
proof (rule ahead_cases)
  assume "\<forall>j < n. a j = c j"
  then show ?thesis using assms(2-5) by (intro aheadI [of 2]) (auto simp: numeral_eq_Suc less_Suc_eq)
next
  fix i assume i: "i < n" "\<forall>j < i. a j = c j" "c i < a i"
  have "i = 0 \<or> i = 1 \<or> i = 2 \<or> 3 \<le> i" by linarith
  then show ?thesis
  proof (elim disjE)
    assume "3 \<le> i"
    then show ?thesis using i assms(2-5) by (intro aheadI [of 2]) (auto simp: numeral_eq_Suc less_Suc_eq)
  qed (use i assms(2-5) in \<open>auto intro: aheadI [of i] aheadI [of 0] aheadI [of 1] aheadI [of 2] simp: numeral_eq_Suc less_Suc_eq\<close>)
qed

text \<open>The points that are asked for with weekdays.\<close>

definition week_points :: "DateTime \<Rightarrow> (nat \<Rightarrow> int) set \<Rightarrow> bool" where
  "week_points dt Xs \<longleftrightarrow>
     (\<forall>X \<in> Xs. valid_point X \<and> meets dt X \<and> weekday_ok (weekdays_m dt) (date_no X) \<and> minute_no (getField dt) \<le> minute_no X)"

lemma date_of_valid: "valid_point X \<Longrightarrow> minute_no X div 1440 = date_no X"
  by (rule minute_day) (simp_all add: valid_point_def)

text \<open>Going to the next day when the weekday is not right loses no point.\<close>

lemma week_points_next:
  assumes "week_points dt Xs" and "same_frame dt dt'" and "\<not> weekday_ok (weekdays_m dt) (minute_no (getField dt) div 1440)"
    and "date_no (getField dt') \<le> minute_no (getField dt) div 1440 + 1"
    and "getField dt' 3 = (if isFieldFree dt 3 then 0 else getField dt 3)"
    and "getField dt' 4 = (if isFieldFree dt 4 then 0 else getField dt 4)" and "getField dt' 3 \<in> {0..23}" "getField dt' 4 \<in> {0..59}"
  shows "week_points dt' Xs"
  unfolding week_points_def
proof
  fix X assume "X \<in> Xs"
  then have x: "valid_point X" "meets dt X" "weekday_ok (weekdays_m dt) (date_no X)" "minute_no (getField dt) \<le> minute_no X"
    using assms(1) by (auto simp: week_points_def)
  have "minute_no (getField dt) div 1440 \<le> date_no X" using zdiv_mono1 [OF x(4), of 1440] date_of_valid [OF x(1)] by simp
  moreover have "minute_no (getField dt) div 1440 \<noteq> date_no X" using x(3) assms(3) by auto
  ultimately have d: "date_no (getField dt') \<le> date_no X" using assms(4) by simp
  have "getField dt' 3 \<le> X 3" "getField dt' 4 \<le> X 4"
    using x(1,2) assms(5,6) by (auto simp: meets_def valid_point_def)
  then have "minute_no (getField dt') \<le> minute_no X" using d unfolding minute_no_def by linarith
  then show "valid_point X \<and> meets dt' X \<and> weekday_ok (weekdays_m dt') (date_no X) \<and> minute_no (getField dt') \<le> minute_no X"
    using x same_frame_meets [OF assms(2)] assms(2) by (simp add: same_frame_def)
qed

definition clock_fields :: "DateTime \<Rightarrow> bool" where
  "clock_fields dt \<longleftrightarrow> getField dt 3 \<in> {0..23} \<and> getField dt 4 \<in> {0..59}"

lemma weekday_loop:
  assumes "free_date dt" and "weekdays_m dt \<noteq> 0" and "clock_fields dt" and "2 \<le> to" and "from \<le> Suc to"
    and "ahead (Suc to) (getField cur) (getField dt)" and "week_points dt Xs"
    and "weekday_ok (weekdays_m dt) (date_no (getField dt) + int k)"
  shows "\<exists>dt'. tryResolveUnprojected (Suc (k + n)) zone cur from to dt = Some (True, dt')
    \<and> free_date dt' \<and> clock_fields dt' \<and> same_frame dt dt' \<and> isCompatibleWithWeekDays zone dt' \<and> week_points dt' Xs
    \<and> ahead (Suc to) (getField cur) (getField dt') \<and> (dt' = dt \<or> date_no (getField dt) < date_no (getField dt'))"
  using assms(1,2,3,6,7,8)
proof (induction k arbitrary: dt)
  case 0
  have "minute_no (getField dt) div 1440 = date_no (getField dt)" using 0 by (intro minute_day) (simp_all add: clock_fields_def)
  then have c: "isCompatibleWithWeekDays zone dt" using 0 by (simp add: isCompatible_weekday)
  have "wf dt" using 0(1) by (simp add: free_date_def)
  then show ?case using tryResolveUnprojected_ahead [OF 0(4) assms(5) c, of n] 0 c same_frame_refl by auto
next
  case (Suc k)
  have day: "minute_no (getField dt) div 1440 = date_no (getField dt)"
    using Suc.prems(3) by (intro minute_day) (simp_all add: clock_fields_def)
  have wf: "wf dt" using Suc.prems(1) by (simp add: free_date_def)
  show ?case
  proof (cases "weekday_ok (weekdays_m dt) (date_no (getField dt))")
    case True
    then have c: "isCompatibleWithWeekDays zone dt" by (simp add: isCompatible_weekday day)
    then show ?thesis
      using tryResolveUnprojected_ahead [OF Suc.prems(4) assms(5) c, of "Suc k + n"] Suc.prems same_frame_refl [OF wf] by auto
  next
    case False
    then have c: "\<not> isCompatibleWithWeekDays zone dt" using Suc.prems(2) by (simp add: isCompatible_weekday day)
    obtain dt1 where d1: "tryIncreaseClosestGreaterFreeField Day dt = (True, dt1)" "free_date dt1" "same_frame dt dt1"
      "getField dt1 0 = getField dt 0" "getField dt1 1 = getField dt 1" "getField dt1 2 = getField dt 2 + 1"
      "getField dt1 3 = (if isFieldFree dt 3 then 0 else getField dt 3)"
      "getField dt1 4 = (if isFieldFree dt 4 then 0 else getField dt 4)"
      using free_date_next [OF Suc.prems(1)] by blast
    have dn: "date_no (getField dt1) = date_no (getField dt) + 1" using d1(4-6) by (simp add: date_no_def day_number_Suc)
    have cf: "clock_fields dt1" using d1(7,8) Suc.prems(3) by (simp add: clock_fields_def)
    have w1: "weekdays_m dt1 = weekdays_m dt" using d1(3) by (simp add: same_frame_def)
    have a1: "ahead (Suc to) (getField cur) (getField dt1)"
      using ahead_next_day [OF Suc.prems(4) _ d1(4,5)] d1(6) assms(4) by simp
    have wp: "week_points dt1 Xs"
      using week_points_next [OF Suc.prems(5) d1(3) _ _ d1(7,8)] False dn day cf by (simp add: clock_fields_def)
    have ok: "weekday_ok (weekdays_m dt1) (date_no (getField dt1) + int k)"
      using Suc.prems(6) dn w1 by (simp add: add.commute add.left_commute)
    obtain dt' where dt': "tryResolveUnprojected (Suc (k + n)) zone cur from to dt1 = Some (True, dt')"
      "free_date dt'" "clock_fields dt'" "same_frame dt1 dt'" "isCompatibleWithWeekDays zone dt'" "week_points dt' Xs"
      "ahead (Suc to) (getField cur) (getField dt')" "dt' = dt1 \<or> date_no (getField dt1) < date_no (getField dt')"
      using Suc.IH [OF d1(2) _ cf a1 wp ok] w1 Suc.prems(2) by auto
    have "tryResolveUnprojected (Suc (Suc k + n)) zone cur from to dt = Some (True, dt')"
      using tryResolve_ahead [OF Suc.prems(4) assms(5)] c d1(1) dt'(1) by simp
    then show ?thesis using dt' same_frame_trans [OF d1(3) dt'(4)] dn by auto
  qed
qed

text \<open>With a free date a target projects to another one as a whole.\<close>

lemma clock_of_minutes:
  fixes q q' h h' m m' :: int
  assumes "q * 1440 + h * 60 + m = q' * 1440 + h' * 60 + m'" and "h \<in> {0..23}" "m \<in> {0..59}" "h' \<in> {0..23}" "m' \<in> {0..59}"
  shows "q = q' \<and> h = h' \<and> m = m'"
proof -
  have t: "(q * 1440 + h * 60 + m) div 1440 = q" "(q' * 1440 + h' * 60 + m') div 1440 = q'"
    using assms(2-5) by (auto intro!: int_div_pos_eq)
  then have "q = q'" using assms(1) by simp
  then have e: "h * 60 + m = h' * 60 + m'" using assms(1) by simp
  have "(h * 60 + m) div 60 = h" "(h' * 60 + m') div 60 = h'" using assms(2-5) by (auto intro!: int_div_pos_eq)
  then show ?thesis using e \<open>q = q'\<close> by simp
qed

definition clock_24 :: "DateTime \<Rightarrow> bool" where
  "clock_24 dt \<longleftrightarrow> isFieldFree dt 3 \<and> getField dt 3 = 24 \<and> getField dt 4 \<in> {0..59}"

lemma mismatch_free:
  assumes "free_date dt" and "clock_fields dt \<or> clock_24 dt" and "valid_point p" and "minute_no p = minute_no (getField dt)"
    and "j < 5" and "getField dt j \<noteq> p j"
  shows "isFieldFree dt j"
proof -
  have j: "j = 0 \<or> j = 1 \<or> j = 2 \<or> j = 3 \<or> j = 4" using assms(5) by linarith
  have p: "p 3 \<in> {0..23}" "p 4 \<in> {0..59}" using assms(3) by (simp_all add: valid_point_def)
  from assms(2) show ?thesis
  proof
    assume "clock_fields dt"
    then have "p 3 = getField dt 3" "p 4 = getField dt 4"
      using clock_of_minutes [OF assms(4) [unfolded minute_no_def] p] by (simp_all add: clock_fields_def)
    then show ?thesis using j assms(1,6) by (auto simp: free_date_def)
  next
    assume c: "clock_24 dt"
    then have "date_no p * 1440 + p 3 * 60 + p 4 = (date_no (getField dt) + 1) * 1440 + 0 * 60 + getField dt 4"
      using assms(4) by (simp add: minute_no_def clock_24_def algebra_simps)
    from clock_of_minutes [OF this p] have "p 4 = getField dt 4" using c by (simp add: clock_24_def)
    then show ?thesis using j assms(1,6) c by (auto simp: free_date_def clock_24_def)
  qed
qed

lemma day_of_24: "clock_24 dt \<Longrightarrow> minute_no (getField dt) div 1440 = date_no (getField dt) + 1"
  by (rule int_div_pos_eq [of _ _ _ "getField dt 4"]) (auto simp: minute_no_def clock_24_def algebra_simps)

lemma ahead_le_date:
  assumes "valid_point c" and "valid_point p" and "ahead n c p" and "3 \<le> n"
  shows "date_no c \<le> date_no p"
proof (rule ccontr)
  assume nle: "\<not> ?thesis"
  then have "date_no p < date_no c" by simp
  then have "ahead n p c" using ahead_date_no [OF assms(2,1) _ assms(4)] by blast
  have "c 0 = p 0 \<and> c 1 = p 1 \<and> c 2 = p 2 \<or> (c 0 < p 0 \<or> c 0 = p 0 \<and> (c 1 < p 1 \<or> c 1 = p 1 \<and> c 2 < p 2))"
    using assms(3)
  proof (rule ahead_cases)
    fix i assume i: "i < n" "\<forall>j < i. p j = c j" "c i < p i"
    then have "i = 0 \<or> i = 1 \<or> i = 2 \<or> 3 \<le> i" by linarith
    then show ?thesis using i by auto
  qed (use assms(4) in auto)
  then have "date_no c \<le> date_no p"
  proof
    assume "c 0 = p 0 \<and> c 1 = p 1 \<and> c 2 = p 2"
    then show ?thesis by (simp add: date_no_def)
  next
    assume "c 0 < p 0 \<or> c 0 = p 0 \<and> (c 1 < p 1 \<or> c 1 = p 1 \<and> c 2 < p 2)"
    then show ?thesis using date_no_less [OF assms(1,2)] by simp
  qed
  then show False using nle by simp
qed

text \<open>A compatible target with a free date is projected, and then it is right.\<close>

lemma tryResolve_compatible:
  assumes "free_date dt" and "clock_fields dt \<or> clock_24 dt" and "isCompatibleWithWeekDays zone dt" and "week_points dt Xs"
    and "valid_point p" and "minute_no p = minute_no (getField dt)" and "ahead (Suc to) (getField cur) p" and "from \<le> Suc to" and "to \<le> Minute"
    and "tryResolveUnprojected (Suc (Suc n)) zone cur from to dt0 = Some (True, dt)"
  shows "\<exists>dt'. tryResolve (Suc (Suc (Suc n))) zone cur from to dt0 = Some (Resolution_Resolved, dt')
    \<and> resolution (Suc to) (getField cur) Xs dt (Resolution_Resolved, dt') \<and> minute_no (getField dt') = minute_no (getField dt)"
proof -
  have wf: "wf dt" using assms(1) by (simp add: free_date_def)
  obtain dt1 where d1: "projectOnActualCalendar zone dt =
      (if \<forall>j < 5. getField dt j = p j then Projection_Succeeded else Projection_Changed, dt1)"
    "keeps_frame dt dt1" "\<forall>j < 5. getField dt1 j = p j"
    using project_free [OF wf assms(5,6) mismatch_free [OF assms(1,2,5,6)]] by blast
  note cong = point_cong [OF d1(3)]
  have lower: "\<forall>X \<in> Xs. lex_le (getField dt1) X"
    using assms(4) cong(2) lex_le_of_minutes [OF assms(5)] assms(6) by (auto simp: week_points_def)
  have v1: "valid_point (getField dt1)" "ahead (Suc to) (getField cur) (getField dt1)"
    using cong(1,3) assms(5,7,9) by auto
  have m1: "minute_no (getField dt1) = minute_no (getField dt)" using cong(4) assms(6) by simp
  have fr: "\<forall>k < 5. \<not> isFieldFree dt k \<longrightarrow> getField dt1 k = getField dt k"
    using mismatch_free [OF assms(1,2,5,6)] d1(3) by force
  have c1: "isCompatibleWithWeekDays zone dt1" using assms(3) m1 d1(2) by (simp add: isCompatible_weekday keeps_frame_def)
  show ?thesis
  proof (cases "\<forall>j < 5. getField dt j = p j")
    case True
    then have "tryResolve (Suc (Suc (Suc n))) zone cur from to dt0 = Some (Resolution_Resolved, dt1)"
      unfolding tryResolve.simps assms(10) option.case prod.case bool.case d1(1) by simp
    moreover have "resolution (Suc to) (getField cur) Xs dt (Resolution_Resolved, dt1)"
      using d1(2) fr lower v1 by (simp add: resolution_def)
    ultimately show ?thesis using m1 by blast
  next
    case False
    have "wf dt1" using d1(2) by (simp add: keeps_frame_def)
    then obtain dt2 where d2: "tryResolve (Suc (Suc n)) zone cur from to dt1 = Some (Resolution_Resolved, dt2)"
      "resolution (Suc to) (getField cur) Xs dt1 (Resolution_Resolved, dt2)" "\<forall>k < 5. getField dt2 k = getField dt1 k"
      using tryResolve_valid [OF _ v1 assms(8,9) c1 lower, of n] by blast
    have "tryResolve (Suc (Suc (Suc n))) zone cur from to dt0 = Some (Resolution_Resolved, dt2)"
      using False d2(1) unfolding tryResolve.simps(2) [of "Suc (Suc n)"] assms(10) option.case prod.case bool.case d1(1)
      by (simp only: if_False prod.case ProjectionResult.case)
    then show ?thesis using resolution_trans [OF d1(2) fr d2(2)] m1 point_cong(4) [OF d2(3)] by auto
  qed
qed

lemma tryResolve_weekdays:
  assumes "free_date dt" and w: "0 < weekdays_m dt" "weekdays_m dt < 128" and "in_range dt"
    and c: "valid_point (getField cur)" "0 \<le> getField cur 0" and to: "2 \<le> to" "to \<le> Minute" "from \<le> Suc to"
    and "ahead from (getField cur) (getField dt)"
    and Xs: "\<forall>X \<in> Xs. valid_point X \<and> meets dt X \<and> weekday_ok (weekdays_m dt) (date_no X) \<and> lex_le (getField dt) X \<and> lex_le (getField cur) X"
  shows "\<exists>res. tryResolve (n + 10) zone cur from to dt = Some res \<and> resolution (Suc to) (getField cur) Xs dt res
    \<and> (fst res = Resolution_Resolved \<longrightarrow> weekday_ok (weekdays_m dt) (date_no (getField (snd res))))
    \<and> fst res \<noteq> Resolution_Unresolved"
proof -
  let ?c = "getField cur"
  have wf: "wf dt" using assms(1) by (simp add: free_date_def)
  have c0: "\<forall>j < 5. 0 \<le> ?c j" using valid_nonneg [OF c] .
  obtain b dt1 where rw: "tryResolveWithoutWeekdays cur from to dt = (b, dt1)" by fastforce
  note t = tryResolveWithoutWeekdays [OF wf to(2,3) assms(10) c0 refl rw]
  have fuel: "n + 10 = Suc (Suc (Suc (n + 7)))" by simp
  show ?thesis
  proof (cases b)
    case False
    have "Xs = {}" using t(2) False Xs by fastforce
    moreover obtain N where N: "n + 10 = Suc (Suc N)" by (rule that [of "n + 8"]) simp
    have "tryResolve (n + 10) zone cur from to dt = Some (Resolution_Impossible, dt1)"
      unfolding N using rw False by simp
    ultimately show ?thesis by (auto simp: resolution_def)
  next
    case True
    then have sf: "same_frame dt dt1" and mv: "dt1 = dt \<or> moved ?c dt dt1" and a: "ahead (Suc to) ?c (getField dt1)" using t(1) by auto
    note free = same_frame_free [OF sf]
    have w1: "weekdays_m dt1 = weekdays_m dt" "wf dt1" using sf by (simp_all add: same_frame_def)
    have later: "later_points dt1 Xs" using Xs t(2) same_frame_meets [OF sf] by (auto simp: later_points_def)
    have nr: "\<not> runaway dt" using assms(1) by (simp add: runaway_def free_date_def)
    have g: "good_step zone (Suc to) ?c Xs dt1"
      using adjusted_step [OF wf assms(4) c sf mv a _ _ later nr] to(1,2) by simp
    have shape: "1 \<le> getField dt1 2 \<and> (clock_fields dt1 \<or> clock_24 dt1)"
    proof (cases "dt1 = dt")
      case True
      then show ?thesis using assms(4) by (simp add: in_range_def clock_fields_def)
    next
      case False
      then have m: "moved ?c dt dt1" using mv by simp
      have "27 < month_days y m'" for y m' by (rule month_days_pos)
      note pos = this [of "?c 0 + 1900" "?c 1"]
      show ?thesis
        by (rule moved_cases [OF assms(4) c m sf])
          (use pos c(1) free in \<open>auto simp: in_range_def clock_fields_def clock_24_def valid_point_def valid_date_def\<close>)
    qed
    then have fd: "free_date dt1" and clk: "clock_fields dt1 \<or> clock_24 dt1" using assms(1) w1(2) free by (simp_all add: free_date_def)
    obtain p where p: "valid_point p" "minute_no p = minute_no (getField dt1)" by (rule normalised)
    obtain dt' where pr: "projectOnActualCalendar zone dt1 =
        (if \<forall>j < 5. getField dt1 j = p j then Projection_Succeeded else Projection_Changed, dt')"
      and eq: "\<forall>j < 5. getField dt' j = p j"
      using project_free [OF w1(2) p mismatch_free [OF fd clk p]] by blast
    have pa: "ahead (Suc to) ?c p \<and> (\<forall>X \<in> Xs. lex_le p X)"
    proof (cases "\<forall>j < 5. getField dt1 j = p j")
      case True
      then show ?thesis using a later point_cong(2,3) [OF True] to(2) by (auto simp: later_points_def)
    next
      case False
      then have "projectOnActualCalendar zone dt1 = (Projection_Changed, dt')" using pr by (simp only: if_False)
      then have "ahead (Suc to) ?c (getField dt')" "\<forall>X \<in> Xs. lex_le (getField dt') X" using g by (simp_all add: good_step_def)
      then show ?thesis using point_cong(2,3) [OF eq] to(2) by auto
    qed
    have wp: "week_points dt1 Xs"
      using pa later Xs w1(1) lex_le_minute_no [OF p(1)] p(2) by (auto simp: week_points_def later_points_def)
    have cp: "date_no ?c \<le> date_no p" using ahead_le_date [OF c(1) p(1), of "Suc to"] pa to(1) by simp
    have dp: "date_no p = minute_no (getField dt1) div 1440" using date_of_valid [OF p(1)] p(2) by simp
    have "\<exists>dt2 p2. tryResolveUnprojected (n + 9) zone cur from to dt = Some (True, dt2) \<and> free_date dt2
        \<and> (clock_fields dt2 \<or> clock_24 dt2) \<and> same_frame dt dt2 \<and> isCompatibleWithWeekDays zone dt2 \<and> week_points dt2 Xs
        \<and> valid_point p2 \<and> minute_no p2 = minute_no (getField dt2) \<and> ahead (Suc to) ?c p2"
    proof (cases "isCompatibleWithWeekDays zone dt1")
      case True
      obtain N where N: "n + 9 = Suc N" by (rule that [of "n + 8"]) simp
      have "tryResolveUnprojected (n + 9) zone cur from to dt = Some (True, dt1)" unfolding N using rw True \<open>b\<close> by simp
      then show ?thesis using fd clk sf True wp p pa by blast
    next
      case False
      then have nw: "\<not> weekday_ok (weekdays_m dt1) (minute_no (getField dt1) div 1440)" by (simp add: isCompatible_weekday)
      obtain dt2 where d2: "tryIncreaseClosestGreaterFreeField Day dt1 = (True, dt2)" "free_date dt2" "same_frame dt1 dt2"
        "getField dt2 0 = getField dt1 0" "getField dt2 1 = getField dt1 1" "getField dt2 2 = getField dt1 2 + 1"
        "getField dt2 3 = (if isFieldFree dt1 3 then 0 else getField dt1 3)"
        "getField dt2 4 = (if isFieldFree dt1 4 then 0 else getField dt1 4)"
        using free_date_next [OF fd] by blast
      have cf: "clock_fields dt2" using clk d2(7,8) by (auto simp: clock_fields_def clock_24_def)
      have w2: "weekdays_m dt2 = weekdays_m dt" using d2(3) w1(1) by (simp add: same_frame_def)
      have dn: "date_no (getField dt2) = date_no (getField dt1) + 1" using d2(4-6) by (simp add: date_no_def day_number_Suc)
      have day1: "date_no (getField dt2) = date_no p + 1 \<or> date_no (getField dt2) = date_no p"
        using clk day_of_24 [of dt1] minute_day [of "getField dt1"] dp dn by (auto simp: clock_fields_def)
      have wp2: "week_points dt2 Xs"
        using week_points_next [OF wp d2(3) nw _ d2(7,8)] cf day1 dp by (auto simp: clock_fields_def)
      have a2: "ahead (Suc to) ?c (getField dt2)" using ahead_next_day [OF a _ d2(4,5)] d2(6) to(1) by simp
      obtain k where k: "k \<le> 6" "weekday_ok (weekdays_m dt2) (date_no (getField dt2) + int k)"
        using weekday_within_week [OF w, of "date_no (getField dt2)"] w2 by auto
      obtain m where m: "n + 8 = Suc (k + m)" using k(1) by (intro that [of "n + 7 - k"]) simp
      obtain dt3 where d3: "tryResolveUnprojected (n + 8) zone cur from to dt2 = Some (True, dt3)" "free_date dt3" "clock_fields dt3"
        "same_frame dt2 dt3" "isCompatibleWithWeekDays zone dt3" "week_points dt3 Xs"
        "dt3 = dt2 \<or> date_no (getField dt2) < date_no (getField dt3)"
        using weekday_loop [OF d2(2) _ cf to(1,3) a2 wp2 k(2), of m zone] w w2 unfolding m by fastforce
      obtain N where N: "n + 9 = Suc N" "n + 8 = N" by (rule that [of "n + 8"]) simp_all
      have u: "tryResolveUnprojected (n + 9) zone cur from to dt = Some (True, dt3)"
        unfolding N(1) using rw False \<open>b\<close> d2(1) d3(1) [unfolded N(2)] by simp
      obtain p3 where p3: "valid_point p3" "minute_no p3 = minute_no (getField dt3)" by (rule normalised)
      have day3: "date_no p3 = date_no (getField dt3)"
        using date_of_valid [OF p3(1)] p3(2) minute_day [of "getField dt3"] d3(3) by (simp add: clock_fields_def)
      have "weekdays_m dt3 = weekdays_m dt1" using d3(4) w1(1) w2 by (simp add: same_frame_def)
      then have "date_no p3 \<noteq> date_no p"
        using d3(5) nw w w1(1) date_of_valid [OF p3(1)] p3(2) dp by (auto simp: isCompatible_weekday)
      then have "date_no p < date_no p3" using d3(7) day1 day3 by auto
      then have "ahead (Suc to) ?c p3" using cp to(1) by (intro ahead_date_no c(1) p3(1)) auto
      then show ?thesis
        using u d3(2,3,5,6) p3 same_frame_trans [OF sf same_frame_trans [OF d2(3) d3(4)]] by blast
    qed
    then obtain dt2 p2 where d: "tryResolveUnprojected (Suc (Suc (n + 7))) zone cur from to dt = Some (True, dt2)" "free_date dt2"
      "clock_fields dt2 \<or> clock_24 dt2" "same_frame dt dt2" "isCompatibleWithWeekDays zone dt2" "week_points dt2 Xs"
      "valid_point p2" "minute_no p2 = minute_no (getField dt2)" "ahead (Suc to) ?c p2"
      by (auto simp: numeral_eq_Suc)
    obtain dt3 where d3: "tryResolve (n + 10) zone cur from to dt = Some (Resolution_Resolved, dt3)"
      "resolution (Suc to) ?c Xs dt2 (Resolution_Resolved, dt3)" "minute_no (getField dt3) = minute_no (getField dt2)"
      using tryResolve_compatible [OF d(2,3,5-9) to(3,2) d(1)] unfolding fuel by blast
    have "resolution (Suc to) ?c Xs dt (Resolution_Resolved, dt3)"
      using resolution_trans [OF same_keeps_frame [OF d(4)] _ d3(2)] d(4) by (simp add: same_frame_def)
    moreover have "weekday_ok (weekdays_m dt) (date_no (getField dt3))"
    proof -
      have "valid_point (getField dt3)" using d3(2) by (simp add: resolution_def)
      from date_of_valid [OF this] have "date_no (getField dt3) = minute_no (getField dt2) div 1440" using d3(3) by simp
      then show ?thesis using d(4,5) w by (simp add: isCompatible_weekday same_frame_def)
    qed
    ultimately show ?thesis using d3(1) by auto
  qed
qed


section \<open>More fuel\<close>

lemma tryResolveUnprojected_more:
  "tryResolveUnprojected n zone cur from to dt = Some r \<Longrightarrow> tryResolveUnprojected (n + k) zone cur from to dt = Some r"
proof (induction n arbitrary: dt)
  case (Suc n)
  obtain b dt1 where "tryResolveWithoutWeekdays cur from to dt = (b, dt1)" by fastforce
  then show ?case using Suc by (auto split: bool.splits prod.splits if_splits)
qed simp

lemma tryResolve_more:
  "tryResolve n zone cur from to dt = Some r \<Longrightarrow> tryResolve (n + k) zone cur from to dt = Some r"
proof (induction n arbitrary: dt)
  case (Suc n)
  show ?case
  proof (cases "tryResolveUnprojected n zone cur from to dt")
    case None
    then show ?thesis using Suc.prems by simp
  next
    case (Some q)
    then show ?thesis
      using Suc tryResolveUnprojected_more [OF Some, of k]
      by (auto split: bool.splits prod.splits ProjectionResult.splits)
  qed
qed simp

end
