(* ===== verification/Schedule_Laws.thy ===== *)
theory Schedule_Laws
  imports Schedule Search
begin

text \<open>
  What \<open>findNext\<close> finds: the first whole minute after the start that a specification asks for.  The search does not end for
  some specifications: a December day without a year (the projection of December 32nd leads to another December 32nd), a
  minute without an hour on a fixed late day of the month, exceptions that never apply, and an offset back beyond
  the previous occurrence.
\<close>

section \<open>Times that a specification asks for\<close>

definition fires :: "TimeSpec \<Rightarrow> tm \<Rightarrow> bool" where
  "fires ts t \<longleftrightarrow>
     tm_sec t = 0
     \<and> (if ts_wdays ts \<noteq> 0 then ts_wdays ts AND push_bit (nat ((tm_wday t + 6) mod 7)) 1 \<noteq> 0
        else (ts_mday ts = - 1 \<or> tm_mday t = ts_mday ts) \<and> (ts_mon ts = - 1 \<or> tm_mon t = ts_mon ts)
             \<and> (ts_year ts = - 1 \<or> tm_year t = ts_year ts))
     \<and> (ts_hour ts = - 1 \<or> tm_hour t = ts_hour ts) \<and> (ts_min ts = - 1 \<or> tm_min t = ts_min ts)"

definition first_after :: "int \<Rightarrow> TimeSpec \<Rightarrow> int \<Rightarrow> int \<Rightarrow> bool" where
  "first_after zone ts start t \<longleftrightarrow>
     start < t \<and> fires ts (localtime zone t) \<and> (\<forall>u. start < u \<and> u < t \<longrightarrow> \<not> fires ts (localtime zone u))"

text \<open>The specifications for which the search ends: valid, with a proper hour and minute, and not one of the two traps.\<close>

definition search_ends :: "TimeSpec \<Rightarrow> bool" where
  "search_ends ts \<longleftrightarrow>
     ts_class ts = FixedSpec \<and> TimeSpec_isValid ts \<and> ts_hour ts \<in> {- 1..23} \<and> ts_min ts \<in> {- 1..59}
     \<and> ts_wdays ts \<in> {0..127} \<and> - 1 \<le> ts_year ts
     \<and> (ts_wdays ts = 0 \<longrightarrow>
          \<not> (ts_year ts = - 1 \<and> ts_mon ts = 11 \<and> ts_mday ts = - 1)
          \<and> \<not> (ts_hour ts = - 1 \<and> ts_min ts \<noteq> - 1 \<and> 28 \<le> ts_mday ts
                \<and> (ts_mon ts = - 1 \<or> ts_mon ts = 11 \<and> ts_year ts = - 1)))"

section \<open>Instants and points\<close>

definition instant :: "int \<Rightarrow> (nat \<Rightarrow> int) \<Rightarrow> int" where
  "instant zone a = (minute_no a - 719528 * 1440) * 60 - zone"

lemma instant_mono: "instant zone a \<le> instant zone b \<longleftrightarrow> minute_no a \<le> minute_no b"
  by (simp add: instant_def)

lemma instant_less: "instant zone a < instant zone b \<longleftrightarrow> minute_no a < minute_no b"
  by (simp add: instant_def)

lemma instant_of_time: "instant zone (fields_of (localtime zone s)) = s - tm_sec (localtime zone s)"
proof -
  let ?t = "localtime zone s"
  have "mktime zone ?t = s" by (rule mktime_localtime)
  then show ?thesis by (simp add: instant_def minute_no_def date_no_def mktime_def)
qed

lemma time_of_instant:
  assumes "valid_point a"
  shows "\<forall>k < 5. fields_of (localtime zone (instant zone a)) k = a k" "tm_sec (localtime zone (instant zone a)) = 0"
    "(tm_wday (localtime zone (instant zone a)) + 6) mod 7 = (date_no a + 5) mod 7"
proof -
  let ?t = "\<lparr>tm_year = a 0, tm_mon = a 1, tm_mday = a 2, tm_wday = 0, tm_hour = a 3, tm_min = a 4, tm_sec = 0\<rparr>"
  have m: "mktime zone ?t = instant zone a" by (simp add: mktime_def instant_def minute_no_def date_no_def)
  moreover have "valid_tm ?t" using assms by (simp add: valid_tm_def valid_point_def)
  ultimately have "same_fields (localtime zone (instant zone a)) ?t" using localtime_mktime [of ?t zone] by simp
  then show "\<forall>k < 5. fields_of (localtime zone (instant zone a)) k = a k" "tm_sec (localtime zone (instant zone a)) = 0"
    by (simp_all add: all_fields same_fields_def)
  show "(tm_wday (localtime zone (instant zone a)) + 6) mod 7 = (date_no a + 5) mod 7"
    unfolding instant_def weekday_of_time using date_of_valid [OF assms] by simp
qed

definition asked :: "TimeSpec \<Rightarrow> (nat \<Rightarrow> int) \<Rightarrow> bool" where
  "asked ts X \<longleftrightarrow>
     (if ts_wdays ts \<noteq> 0 then weekday_ok (ts_wdays ts) (date_no X)
      else (ts_mday ts = - 1 \<or> X 2 = ts_mday ts) \<and> (ts_mon ts = - 1 \<or> X 1 = ts_mon ts) \<and> (ts_year ts = - 1 \<or> X 0 = ts_year ts))
     \<and> (ts_hour ts = - 1 \<or> X 3 = ts_hour ts) \<and> (ts_min ts = - 1 \<or> X 4 = ts_min ts)"

lemma fires_instant: "valid_point X \<Longrightarrow> fires ts (localtime zone (instant zone X)) \<longleftrightarrow> asked ts X"
proof -
  assume v: "valid_point X"
  note t = time_of_instant [OF v, of zone]
  show ?thesis
    using t(1,2) unfolding fires_def asked_def t(3) by (auto simp: all_fields weekday_ok_def bit_iff_and_push_bit_not_eq_0)
qed

lemma fires_point:
  assumes "fires ts (localtime zone u)"
  obtains X where "valid_point X" "u = instant zone X" "asked ts X"
proof
  let ?X = "fields_of (localtime zone u)"
  show v: "valid_point ?X" by (rule valid_fields_of) (rule localtime_valid)
  show u: "u = instant zone ?X" using assms by (simp add: instant_of_time fires_def)
  show "asked ts ?X" using assms u fires_instant [OF v, of ts zone] by simp
qed

text \<open>The minute the search starts from.\<close>

lemma next_minute: "next_minute zone start = localtime zone (start + 60)"
proof -
  let ?t = "localtime zone start"
  have "mktime zone (?t\<lparr>tm_min := tm_min ?t + 1\<rparr>) = mktime zone ?t + 60" by (simp add: mktime_def)
  then show ?thesis by (simp add: next_minute_def Let_def mktime_localtime)
qed

lemma after_start:
  assumes "c = fields_of (next_minute zone start)" and "valid_point X"
  shows "start < instant zone X \<longleftrightarrow> minute_no c \<le> minute_no X"
proof -
  let ?s = "tm_sec (localtime zone (start + 60))"
  have c: "instant zone c = start + 60 - ?s" unfolding assms(1) next_minute by (rule instant_of_time)
  have s: "0 \<le> ?s" "?s \<le> 59" using localtime_valid [of zone "start + 60"] by (simp_all add: valid_tm_def)
  have e: "instant zone X - instant zone c = (minute_no X - minute_no c) * 60" by (simp add: instant_def)
  show ?thesis
  proof
    assume "start < instant zone X"
    then have "- 60 < (minute_no X - minute_no c) * 60" using c s e by simp
    then show "minute_no c \<le> minute_no X" by simp
  next
    assume "minute_no c \<le> minute_no X"
    then have "instant zone c \<le> instant zone X" by (simp add: instant_mono)
    then show "start < instant zone X" using c s by simp
  qed
qed

section \<open>Setting the fields of a target\<close>

text \<open>A field is set while the fields below it are still free.\<close>

definition open_below :: "nat \<Rightarrow> DateTime \<Rightarrow> bool" where
  "open_below f dt \<longleftrightarrow> wf dt \<and> (\<forall>k < 5. f < k \<longrightarrow> isFieldFree dt k)"

lemma set_option:
  fixes v :: int
  assumes "open_below f dt" and "f \<le> Minute" and "f > Day \<or> weekdays_m dt = 0" and "isFieldFree dt f"
  defines "dt' \<equiv> setField f v True dt"
  shows "open_below f dt'" "weekdays_m dt' = weekdays_m dt" "isFieldFree dt' k \<longleftrightarrow> (if k = f then v = - 1 else isFieldFree dt k)"
    "k < 5 \<Longrightarrow> getField dt' k =
       (if v = - 1 then getField dt k else if k = f then v else if f < k then least k else getField dt k)"
    "lex_le (getField dt) X \<Longrightarrow> \<forall>k < 5. least k \<le> X k \<Longrightarrow> v = - 1 \<or> X f = v \<Longrightarrow> lex_le (getField dt') X"
proof -
  have wf: "wf dt" using assms(1) by (simp add: open_below_def)
  have free: "isFieldFree dt k" if "f < k" "k < 5" for k using assms(1) that by (simp add: open_below_def)
  have all: "weekdays_m dt' = weekdays_m dt \<and> wf dt' \<and> (\<forall>k. isFieldFree dt' k \<longleftrightarrow> (if k = f then v = - 1 else isFieldFree dt k))
    \<and> (\<forall>k < 5. getField dt' k =
       (if v = - 1 then getField dt k else if k = f then v else if f < k then least k else getField dt k))"
  proof (cases "v = - 1")
    case True
    then show ?thesis using wf assms(4) by (auto simp: dt'_def wf_def getField_def)
  next
    case False
    note s = setField_value(1-3) [OF False assms(2) wf, of True] setField_value(4) [OF False assms(2) wf, of _ True]
    show ?thesis using s False assms(3) free by (auto simp: dt'_def fixes_field_def)
  qed
  then show "weekdays_m dt' = weekdays_m dt" "isFieldFree dt' k \<longleftrightarrow> (if k = f then v = - 1 else isFieldFree dt k)"
    "k < 5 \<Longrightarrow> getField dt' k =
       (if v = - 1 then getField dt k else if k = f then v else if f < k then least k else getField dt k)"
    "open_below f dt'"
    using free by (auto simp: open_below_def)
  show "lex_le (getField dt') X" if "lex_le (getField dt) X" "\<forall>k < 5. least k \<le> X k" "v = - 1 \<or> X f = v"
  proof (cases "v = - 1")
    case True
    then have "\<forall>j < 5. getField dt' j = getField dt j" using all by simp
    then show ?thesis using point_cong(2) that(1) by blast
  next
    case False
    then show ?thesis
      unfolding dt'_def using that free by (intro lex_le_setField [OF _ _ False assms(2) wf]) auto
  qed
qed

lemma open_below_mono: "open_below f dt \<Longrightarrow> f \<le> g \<Longrightarrow> open_below g dt"
  by (simp add: open_below_def)

lemma least_valid: "valid_point X \<Longrightarrow> 0 \<le> X 0 \<Longrightarrow> \<forall>k < 5. least k \<le> X k"
  unfolding all_fields by (simp add: valid_point_def valid_date_def least_def)

text \<open>The target for the day, without weekdays and with them.\<close>

lemma day_target_fixed:
  assumes "valid_tm t" and "0 \<le> tm_year t" and "d \<in> {- 1} \<union> {1..31}" and "m \<in> {- 1..11}" and "- 1 \<le> y"
  defines "dt \<equiv> day_target (d, m, y, 0) (DateTime_new t)"
  shows "wf dt" "weekdays_m dt = 0" "in_range dt"
    "isFieldFree dt 0 \<longleftrightarrow> y = - 1" "isFieldFree dt 1 \<longleftrightarrow> m = - 1" "isFieldFree dt 2 \<longleftrightarrow> d = - 1" "isFieldFree dt 3" "isFieldFree dt 4"
    "y \<noteq> - 1 \<Longrightarrow> getField dt 0 = y" "m \<noteq> - 1 \<Longrightarrow> getField dt 1 = m" "d \<noteq> - 1 \<Longrightarrow> getField dt 2 = d"
    "lex_le (fields_of t) X \<Longrightarrow> valid_point X \<Longrightarrow> y = - 1 \<or> X 0 = y \<Longrightarrow> m = - 1 \<or> X 1 = m \<Longrightarrow> d = - 1 \<or> X 2 = d \<Longrightarrow>
       lex_le (getField dt) X"
proof -
  define d0 d1 d2 d3 where "d0 = DateTime_new t" and "d1 = setField 0 y True d0" and "d2 = setField 1 m True d1"
    and "d3 = setField 2 d True d2"
  have dt: "dt = d3\<lparr>weekdays_m := 0\<rparr>" unfolding dt_def day_target_def d0_def d1_def d2_def d3_def by simp
  have 0: "open_below 0 d0" "weekdays_m d0 = 0" "isFieldFree d0 0" "isFieldFree d0 1" "isFieldFree d0 2" "isFieldFree d0 3" "isFieldFree d0 4"
    unfolding d0_def by (simp_all add: open_below_def free_new) (simp add: DateTime_new_def)
  have f1: "open_below 0 d1" "weekdays_m d1 = 0" "isFieldFree d1 k \<longleftrightarrow> (if k = 0 then y = - 1 else isFieldFree d0 k)"
    "k < 5 \<Longrightarrow> getField d1 k = (if y = - 1 then getField d0 k else if k = 0 then y else least k)" for k
    using set_option(1,2) [OF 0(1) _ _ 0(3), where v = y] set_option(3,4) [OF 0(1) _ _ 0(3), where v = y and k = k] 0(2) by (simp_all add: d1_def)
  have o1: "open_below 1 d1" "isFieldFree d1 1" using open_below_mono [OF f1(1)] f1(3) [of 1] 0 by simp_all
  have f2: "open_below 1 d2" "weekdays_m d2 = 0" "isFieldFree d2 k \<longleftrightarrow> (if k = 1 then m = - 1 else isFieldFree d1 k)"
    "k < 5 \<Longrightarrow> getField d2 k = (if m = - 1 then getField d1 k else if k = 1 then m else if 1 < k then least k else getField d1 k)" for k
    using set_option(1,2) [OF o1(1) _ _ o1(2), where v = m] set_option(3,4) [OF o1(1) _ _ o1(2), where v = m and k = k] f1(2) by (simp_all add: d2_def)
  have o2: "open_below 2 d2" "isFieldFree d2 2" using open_below_mono [OF f2(1)] f2(3) [of 2] f1(3) [of 2] 0 by simp_all
  have f3: "open_below 2 d3" "weekdays_m d3 = 0" "isFieldFree d3 k \<longleftrightarrow> (if k = 2 then d = - 1 else isFieldFree d2 k)"
    "k < 5 \<Longrightarrow> getField d3 k = (if d = - 1 then getField d2 k else if k = 2 then d else if 2 < k then least k else getField d2 k)" for k
    using set_option(1,2) [OF o2(1) _ _ o2(2), where v = d] set_option(3,4) [OF o2(1) _ _ o2(2), where v = d and k = k] f2(2) by (simp_all add: d3_def)
  have same: "getField dt k = getField d3 k" "isFieldFree dt k = isFieldFree d3 k" for k
    by (simp_all add: dt getField_def isFieldFree_def)
  show "wf dt" using f3(1) by (simp add: dt open_below_def wf_def)
  show "weekdays_m dt = 0" by (simp add: dt)
  show fr: "isFieldFree dt 0 \<longleftrightarrow> y = - 1" "isFieldFree dt 1 \<longleftrightarrow> m = - 1" "isFieldFree dt 2 \<longleftrightarrow> d = - 1" "isFieldFree dt 3" "isFieldFree dt 4"
    unfolding same using f1(3) f2(3) f3(3) 0 by simp_all
  show "y \<noteq> - 1 \<Longrightarrow> getField dt 0 = y" "m \<noteq> - 1 \<Longrightarrow> getField dt 1 = m" "d \<noteq> - 1 \<Longrightarrow> getField dt 2 = d"
    unfolding same using f1(4) f2(4) f3(4) by simp_all
  have g0: "getField d0 k = fields_of t k" for k by (simp add: d0_def fields_of_def)
  have v: "valid_point (fields_of t)" using valid_fields_of [OF assms(1)] .
  have md: "27 < month_days y' m'" for y' m' by (rule month_days_pos)
  have vr: "0 \<le> tm_mon t" "tm_mon t \<le> 11" "1 \<le> tm_mday t" "tm_mday t \<le> 31"
    "tm_mday t \<le> month_days (tm_year t + 1900) (tm_mon t)" "tm_hour t \<in> {0..23}" "tm_min t \<in> {0..59}"
    using assms(1) month_days_le [of "tm_year t + 1900" "tm_mon t"] by (auto simp: valid_tm_def valid_date_def)
  have fields: "getField dt 0 = (if y = - 1 then tm_year t else y)"
    "getField dt 1 = (if m = - 1 then if y = - 1 then tm_mon t else 0 else m)"
    "getField dt 2 = (if d = - 1 then if m = - 1 \<and> y = - 1 then tm_mday t else 1 else d)"
    "getField dt 3 = (if d = - 1 \<and> m = - 1 \<and> y = - 1 then tm_hour t else 0)"
    "getField dt 4 = (if d = - 1 \<and> m = - 1 \<and> y = - 1 then tm_min t else 0)"
    unfolding same using f1(4) f2(4) f3(4) by (auto simp: g0 least_def)
  show "in_range dt"
    unfolding in_range_def fields fr using assms(2-5) vr md [of "y + 1900" 0] md [of "tm_year t + 1900" m] md [of "y + 1900" m]
    by auto
  show "lex_le (getField dt) X" if "lex_le (fields_of t) X" "valid_point X" "y = - 1 \<or> X 0 = y" "m = - 1 \<or> X 1 = m" "d = - 1 \<or> X 2 = d"
  proof -
    have "0 \<le> X 0" using lex_le_cascade(1) [OF that(1)] assms(2) by simp
    note lv = least_valid [OF that(2) this]
    have "lex_le (getField d0) X" using that(1) g0 by (simp add: fields_of_def d0_def)
    then have "lex_le (getField d1) X" unfolding d1_def using set_option(5) [OF 0(1) _ _ 0(3)] 0(2) lv that(3) by simp
    then have "lex_le (getField d2) X" unfolding d2_def using set_option(5) [OF o1(1) _ _ o1(2)] f1(2) lv that(4) by simp
    then have "lex_le (getField d3) X" unfolding d3_def using set_option(5) [OF o2(1) _ _ o2(2)] f2(2) lv that(5) by simp
    then show ?thesis using same(1) by (simp add: lex_le_def)
  qed
qed

lemma day_target_week:
  fixes d m y w :: int
  assumes "valid_tm t" and "0 \<le> tm_year t" and "w \<noteq> 0"
  defines "dt \<equiv> day_target (d, m, y, w) (DateTime_new t)"
  shows "free_date dt" "weekdays_m dt = w" "in_range dt" "\<forall>k < 5. getField dt k = fields_of t k" "\<And>k. k < 5 \<Longrightarrow> isFieldFree dt k"
proof -
  let ?d = "setField 2 (- 1) True (setField 1 (- 1) True (setField 0 (- 1) True (DateTime_new t)))"
  have dt: "dt = ?d\<lparr>weekdays_m := w\<rparr>" using assms(3) by (simp add: dt_def day_target_def)
  show f: "\<forall>k < 5. getField dt k = fields_of t k" by (simp add: dt getField_def fields_of_def)
  show fr: "isFieldFree dt k" if "k < 5" for k
  proof -
    have "isFieldFree dt k = isFieldFree ?d k" by (simp add: dt isFieldFree_def)
    then show ?thesis using that free_new [of k t] by simp
  qed
  show "weekdays_m dt = w" by (simp add: dt)
  have wf: "wf dt" using wf_new [of t] by (simp add: dt wf_def)
  have vr: "0 \<le> tm_mon t" "tm_mon t \<le> 11" "1 \<le> tm_mday t" "tm_mday t \<le> 31"
    "tm_mday t \<le> month_days (tm_year t + 1900) (tm_mon t)" "tm_hour t \<in> {0..23}" "tm_min t \<in> {0..59}"
    using assms(1) month_days_le [of "tm_year t + 1900" "tm_mon t"] by (auto simp: valid_tm_def valid_date_def)
  show "free_date dt" "in_range dt" using wf fr f vr assms(2) unfolding free_date_def in_range_def by (simp_all add: all_fields)
qed

text \<open>The target for the time, when the day has been found.\<close>

lemma time_target_fixed:
  fixes h mi :: int
  assumes "wf dt" and "valid_point (getField dt)" and "0 \<le> getField dt 0" and "isFieldFree dt 3" "isFieldFree dt 4" and "h \<in> {- 1..23}" "mi \<in> {- 1..59}"
  defines "dt' \<equiv> time_target (mi, h) dt"
  shows "wf dt'" "weekdays_m dt' = weekdays_m dt" "in_range dt'"
    "isFieldFree dt' k \<longleftrightarrow> (if k = 3 then h = - 1 else if k = 4 then mi = - 1 else isFieldFree dt k)"
    "k < 3 \<Longrightarrow> getField dt' k = getField dt k" "h \<noteq> - 1 \<Longrightarrow> getField dt' 3 = h" "mi \<noteq> - 1 \<Longrightarrow> getField dt' 4 = mi"
    "lex_le (getField dt) X \<Longrightarrow> valid_point X \<Longrightarrow> h = - 1 \<or> X 3 = h \<Longrightarrow> mi = - 1 \<or> X 4 = mi \<Longrightarrow> lex_le (getField dt') X"
proof -
  define d1 where "d1 = setField 3 h True dt"
  have dt': "dt' = setField 4 mi True d1" unfolding dt'_def time_target_def d1_def by simp
  have "isFieldFree dt j" if "3 < j" "j < 5" for j
  proof -
    have "j = 4" using that by linarith
    then show ?thesis using assms(5) by simp
  qed
  then have o0: "open_below 3 dt" using assms(1) by (simp add: open_below_def)
  have f1: "open_below 3 d1" "weekdays_m d1 = weekdays_m dt" "isFieldFree d1 k \<longleftrightarrow> (if k = 3 then h = - 1 else isFieldFree dt k)"
    "k < 5 \<Longrightarrow> getField d1 k = (if h = - 1 then getField dt k else if k = 3 then h else if 3 < k then least k else getField dt k)" for k
    using set_option(1,2) [OF o0 _ _ assms(4), where v = h] set_option(3,4) [OF o0 _ _ assms(4), where v = h and k = k]
    by (simp_all add: d1_def)
  have o1: "open_below 4 d1" "isFieldFree d1 4" using open_below_mono [OF f1(1)] f1(3) [of 4] assms(5) by simp_all
  have f2: "open_below 4 dt'" "weekdays_m dt' = weekdays_m dt" "isFieldFree dt' k \<longleftrightarrow> (if k = 4 then mi = - 1 else isFieldFree d1 k)"
    "k < 5 \<Longrightarrow> getField dt' k = (if mi = - 1 then getField d1 k else if k = 4 then mi else if 4 < k then least k else getField d1 k)" for k
    using set_option(1,2) [OF o1(1) _ _ o1(2), where v = mi] set_option(3,4) [OF o1(1) _ _ o1(2), where v = mi and k = k] f1(2)
    by (simp_all add: dt')
  show "wf dt'" using f2(1) by (simp add: open_below_def)
  show "weekdays_m dt' = weekdays_m dt" by (rule f2(2))
  show fr: "isFieldFree dt' k \<longleftrightarrow> (if k = 3 then h = - 1 else if k = 4 then mi = - 1 else isFieldFree dt k)" for k
    using f1(3) f2(3) by simp
  show date: "k < 3 \<Longrightarrow> getField dt' k = getField dt k" for k using f1(4) [of k] f2(4) [of k] by simp
  show fields: "h \<noteq> - 1 \<Longrightarrow> getField dt' 3 = h" "mi \<noteq> - 1 \<Longrightarrow> getField dt' 4 = mi" using f1(4) f2(4) by simp_all
  have clock: "getField dt' 3 \<in> {0..23}" "getField dt' 4 \<in> {0..59}"
    using f1(4) [of 3] f1(4) [of 4] f2(4) [of 3] f2(4) [of 4] assms(2,6,7) by (auto simp: least_def valid_point_def)
  show "in_range dt'"
    using assms(2,3) clock date [of 0] date [of 1] date [of 2] month_days_le [of "getField dt 0 + 1900" "getField dt 1"]
    by (auto simp: in_range_def valid_point_def valid_date_def)
  show "lex_le (getField dt') X" if "lex_le (getField dt) X" "valid_point X" "h = - 1 \<or> X 3 = h" "mi = - 1 \<or> X 4 = mi"
  proof -
    have "0 \<le> X 0" using lex_le_cascade(1) [OF that(1)] assms(3) by simp
    note lv = least_valid [OF that(2) this]
    have "lex_le (getField d1) X" unfolding d1_def using set_option(5) [OF o0 _ _ assms(4)] that(1,3) lv by simp
    then show ?thesis unfolding dt' using set_option(5) [OF o1(1) _ _ o1(2)] lv that(4) by simp
  qed
qed

section \<open>One round of the search\<close>

definition points :: "int \<Rightarrow> TimeSpec \<Rightarrow> int \<Rightarrow> (nat \<Rightarrow> int) set" where
  "points zone ts start = {X. valid_point X \<and> asked ts X \<and> start < instant zone X}"

definition end_of_date :: "int \<Rightarrow> (nat \<Rightarrow> int) \<Rightarrow> int" where
  "end_of_date zone p = instant zone (pt (p 0) (p 1) (p 2) 23 59)"

lemma end_of_date_minutes: "minute_no (pt (p 0) (p 1) (p 2) 23 59) = date_no p * 1440 + 1439"
  by (simp add: minute_no_def date_no_def)

lemma goToNextDay_point:
  assumes "valid_point p" and "minute_no p = minute_no (getField dt)"
  shows "goToNextDay zone dt = end_of_date zone p"
proof -
  have s: "mktime zone (tm_of dt) = instant zone p" unfolding mktime_minute_no instant_def assms(2) by simp
  note t = time_of_instant [OF assms(1), of zone]
  have f: "tm_year (localtime zone (instant zone p)) = p 0" "tm_mon (localtime zone (instant zone p)) = p 1"
    "tm_mday (localtime zone (instant zone p)) = p 2"
    using t(1) by (simp_all add: all_fields)
  have "goToNextDay zone dt = mktime zone ((localtime zone (instant zone p))\<lparr>tm_hour := 23, tm_min := 59\<rparr>)"
    by (simp only: goToNextDay_def DateTime_getTime_def Let_def snd_conv s)
  also have "\<dots> = end_of_date zone p"
  proof -
    have e: "end_of_date zone p = (date_no p * 1440 + 1439 - 719528 * 1440) * 60 - zone"
      by (simp only: end_of_date_def instant_def end_of_date_minutes)
    show ?thesis unfolding e by (simp add: mktime_def f t(2) date_no_def)
  qed
  finally show ?thesis .
qed

text \<open>The points to find are the ones that do not come before the current minute.\<close>

lemma points_lex:
  assumes "X \<in> points zone ts start"
  shows "valid_point X" "asked ts X" "lex_le (fields_of (next_minute zone start)) X"
proof -
  let ?c = "fields_of (next_minute zone start)"
  show x: "valid_point X" "asked ts X" using assms by (simp_all add: points_def)
  have c: "valid_point ?c" unfolding next_minute by (rule valid_fields_of) (rule localtime_valid)
  have "minute_no ?c \<le> minute_no X" using assms after_start [OF refl x(1), of start zone] by (simp add: points_def)
  then show "lex_le ?c X" using lex_le_of_minutes [OF c x(1)] by simp
qed

lemma search_ends_ranges:
  assumes "search_ends ts" and "ts_wdays ts = 0"
  shows "ts_mday ts \<in> {- 1} \<union> {1..31}" "ts_mon ts \<in> {- 1..11}" "- 1 \<le> ts_year ts"
  using assms TimeSpec_isValid_ranges [of ts] by (auto simp: search_ends_def)

text \<open>Finding the day.\<close>

lemma find_day:
  assumes ts: "search_ends ts" and t: "t = next_minute zone start" and y0: "0 \<le> tm_year t"
  defines "dt \<equiv> day_target (TimeSpec_getDay ts) (DateTime_new t)"
  shows "\<exists>res. tryResolve 10 zone (DateTime_new t) 0 2 dt = Some res \<and> resolution 3 (fields_of t) (points zone ts start) dt res
    \<and> (ts_wdays ts \<noteq> 0 \<longrightarrow> fst res \<noteq> Resolution_Unresolved)"
proof -
  define d m y w where spec: "d = ts_mday ts" "m = ts_mon ts" "y = ts_year ts" "w = ts_wdays ts"
  have dt: "dt = day_target (d, m, y, w) (DateTime_new t)" by (simp add: dt_def TimeSpec_getDay_def spec)
  have v: "valid_tm t" unfolding t next_minute by (rule localtime_valid)
  have c: "valid_point (fields_of t)" "0 \<le> fields_of t 0" using valid_fields_of [OF v] y0 by simp_all
  have g: "getField (DateTime_new t) = fields_of t" by (simp add: fields_of_def)
  have three: "Suc 2 = (3 :: nat)" by simp
  note X = points_lex [of _ zone ts start, folded t]
  have X0: "0 \<le> X 0" if "X \<in> points zone ts start" for X using lex_le_cascade(1) [OF X(3) [OF that]] c(2) by simp
  show ?thesis
  proof (cases "w = 0")
    case True
    have r: "d \<in> {- 1} \<union> {1..31}" "m \<in> {- 1..11}" "- 1 \<le> y" using search_ends_ranges [OF ts] True by (simp_all add: spec)
    note T = day_target_fixed [OF v y0 r, folded True, folded dt]
    have nr: "\<not> runaway dt"
      using ts T(4-8) T(10) True by (auto simp: runaway_def search_ends_def spec)
    have later: "later_points dt (points zone ts start)"
      unfolding later_points_def
    proof
      fix X assume "X \<in> points zone ts start"
      note x = X [OF this] and x0 = X0 [OF this]
      have a: "y = - 1 \<or> X 0 = y" "m = - 1 \<or> X 1 = m" "d = - 1 \<or> X 2 = d" using x(2) True by (auto simp: asked_def spec)
      have "meets dt X" unfolding meets_def all_fields using a T(4-11) least_valid [OF x(1) x0] by (auto simp: all_fields)
      then show "valid_point X \<and> meets dt X \<and> lex_le (getField dt) X" using x T(12) a by blast
    qed
    have "\<exists>res. tryResolve (7 + 3) zone (DateTime_new t) 0 2 dt = Some res
        \<and> resolution (Suc 2) (getField (DateTime_new t)) (points zone ts start) dt res"
    proof (rule tryResolve_no_weekdays [OF T(1,3) _ nr _ _ _ _ _ _ later])
      show "weekdays_m dt = 0" using T(2) True by simp
      show "\<forall>X \<in> points zone ts start. lex_le (getField (DateTime_new t)) X" using X(3) g by simp
    qed (use c g in \<open>simp_all add: ahead_def\<close>)
    then show ?thesis using True unfolding three g by (auto simp: spec)
  next
    case False
    note T = day_target_week [OF v y0 False, where d = d and m = m and y = y, folded dt]
    have w: "0 < weekdays_m dt" "weekdays_m dt < 128" using ts T(2) False by (auto simp: search_ends_def spec)
    have "\<exists>res. tryResolve (0 + 10) zone (DateTime_new t) 0 2 dt = Some res
        \<and> resolution (Suc 2) (getField (DateTime_new t)) (points zone ts start) dt res
        \<and> (fst res = Resolution_Resolved \<longrightarrow> weekday_ok (weekdays_m dt) (date_no (getField (snd res))))
        \<and> fst res \<noteq> Resolution_Unresolved"
    proof (rule tryResolve_weekdays [OF T(1) w T(3)])
      show "\<forall>X \<in> points zone ts start. valid_point X \<and> meets dt X \<and> weekday_ok (weekdays_m dt) (date_no X)
          \<and> lex_le (getField dt) X \<and> lex_le (getField (DateTime_new t)) X"
      proof
        fix X assume "X \<in> points zone ts start"
        note x = X [OF this] and x0 = X0 [OF this]
        have "meets dt X" using T(5) least_valid [OF x(1) x0] by (simp add: meets_def)
        moreover have "lex_le (getField dt) X" using point_cong(2) [OF T(4)] x(3) by simp
        ultimately show "valid_point X \<and> meets dt X \<and> weekday_ok (weekdays_m dt) (date_no X)
          \<and> lex_le (getField dt) X \<and> lex_le (getField (DateTime_new t)) X"
          using x T(2) False g by (auto simp: asked_def spec)
      qed
    qed (use c g in \<open>simp_all add: ahead_def\<close>)
    then show ?thesis unfolding three g by auto
  qed
qed

text \<open>What a target keeps of the specification: its fixed fields and its weekdays.\<close>

definition day_frame :: "TimeSpec \<Rightarrow> DateTime \<Rightarrow> bool" where
  "day_frame ts dt \<longleftrightarrow>
     wf dt \<and> weekdays_m dt = ts_wdays ts
     \<and> (if ts_wdays ts = 0
        then (isFieldFree dt 0 \<longleftrightarrow> ts_year ts = - 1) \<and> (isFieldFree dt 1 \<longleftrightarrow> ts_mon ts = - 1) \<and> (isFieldFree dt 2 \<longleftrightarrow> ts_mday ts = - 1)
             \<and> (ts_year ts \<noteq> - 1 \<longrightarrow> getField dt 0 = ts_year ts) \<and> (ts_mon ts \<noteq> - 1 \<longrightarrow> getField dt 1 = ts_mon ts)
             \<and> (ts_mday ts \<noteq> - 1 \<longrightarrow> getField dt 2 = ts_mday ts)
        else isFieldFree dt 0 \<and> isFieldFree dt 1 \<and> isFieldFree dt 2)"

lemma day_frame_keeps:
  assumes "day_frame ts dt" and "keeps_frame dt dt'" and "\<forall>k < 5. \<not> isFieldFree dt k \<longrightarrow> getField dt' k = getField dt k"
  shows "day_frame ts dt'"
  using assms keeps_frame_free [OF assms(2)] by (auto simp: day_frame_def keeps_frame_def all_fields split: if_splits)

lemma day_target_frame:
  assumes ts: "search_ends ts" and v: "valid_tm t" and y0: "0 \<le> tm_year t"
  defines "dt \<equiv> day_target (TimeSpec_getDay ts) (DateTime_new t)"
  shows "day_frame ts dt" "isFieldFree dt 3" "isFieldFree dt 4"
proof -
  have dt: "dt = day_target (ts_mday ts, ts_mon ts, ts_year ts, ts_wdays ts) (DateTime_new t)" by (simp add: dt_def TimeSpec_getDay_def)
  have "day_frame ts dt \<and> isFieldFree dt 3 \<and> isFieldFree dt 4"
  proof (cases "ts_wdays ts = 0")
    case True
    note T = day_target_fixed [OF v y0 search_ends_ranges [OF ts True], folded True, folded dt]
    show ?thesis using T(1,2,4-11) True by (simp add: day_frame_def)
  next
    case False
    note T = day_target_week [OF v y0 False, where d = "ts_mday ts" and m = "ts_mon ts" and y = "ts_year ts", folded dt]
    show ?thesis using T False by (simp add: day_frame_def free_date_def)
  qed
  then show "day_frame ts dt" "isFieldFree dt 3" "isFieldFree dt 4" by simp_all
qed

text \<open>Finding the time.\<close>

lemma find_time:
  assumes ts: "search_ends ts" and t: "t = next_minute zone start" and y0: "0 \<le> tm_year t"
    and fr: "day_frame ts d1" "isFieldFree d1 3" "isFieldFree d1 4"
    and v1: "valid_point (getField d1)" and a1: "ahead 3 (fields_of t) (getField d1)"
    and l1: "\<forall>X \<in> points zone ts start. lex_le (getField d1) X"
  defines "dt \<equiv> time_target (TimeSpec_getTime ts) d1"
  shows "\<exists>res. tryResolve 10 zone (DateTime_new t) 3 4 dt = Some res \<and> resolution 5 (fields_of t) (points zone ts start) dt res
    \<and> (fst res = Resolution_Resolved \<longrightarrow> asked ts (getField (snd res))) \<and> (ts_wdays ts \<noteq> 0 \<longrightarrow> fst res \<noteq> Resolution_Unresolved)
    \<and> (fst res \<noteq> Resolution_Impossible \<longrightarrow> day_frame ts (snd res))"
proof -
  define h mi where spec: "h = ts_hour ts" "mi = ts_min ts"
  have dt: "dt = time_target (mi, h) d1" by (simp add: dt_def TimeSpec_getTime_def spec)
  have v: "valid_tm t" unfolding t next_minute by (rule localtime_valid)
  have c: "valid_point (fields_of t)" "0 \<le> fields_of t 0" using valid_fields_of [OF v] y0 by simp_all
  have g: "getField (DateTime_new t) = fields_of t" by (simp add: fields_of_def)
  have five: "Suc 4 = (5 :: nat)" by simp
  note X = points_lex [of _ zone ts start, folded t]
  have X0: "0 \<le> X 0" if "X \<in> points zone ts start" for X using lex_le_cascade(1) [OF X(3) [OF that]] c(2) by simp
  have wf1: "wf d1" and w1: "weekdays_m d1 = ts_wdays ts" using fr(1) by (simp_all add: day_frame_def)
  have y1: "0 \<le> getField d1 0" using ahead_cascade(1) [OF a1] c(2) by simp
  have hm: "h \<in> {- 1..23}" "mi \<in> {- 1..59}" using ts by (simp_all add: search_ends_def spec)
  note T = time_target_fixed [OF wf1 v1 y1 fr(2,3) hm, folded dt]
  have frT: "day_frame ts dt"
    using fr(1) T(1,2) T(4) [of 0] T(4) [of 1] T(4) [of 2] T(5) [of 0] T(5) [of 1] T(5) [of 2] by (simp add: day_frame_def split: if_splits)
  have f34: "isFieldFree dt 3 \<longleftrightarrow> h = - 1" "isFieldFree dt 4 \<longleftrightarrow> mi = - 1" using T(4) by simp_all
  have aT: "ahead 3 (fields_of t) (getField dt)"
    using a1
  proof (rule ahead_cases)
    assume "\<forall>j < 3. getField d1 j = fields_of t j"
    then show ?thesis using T(5) by (simp add: ahead_def)
  next
    fix i assume "i < 3" "\<forall>j < i. getField d1 j = fields_of t j" "fields_of t i < getField d1 i"
    then show ?thesis using T(5) by (intro aheadI [of i]) auto
  qed
  have low: "valid_point X \<and> meets dt X \<and> asked ts X \<and> lex_le (getField dt) X \<and> lex_le (fields_of t) X"
    if "X \<in> points zone ts start" for X
  proof -
    note x = X [OF that] and x0 = X0 [OF that]
    have tm: "h = - 1 \<or> X 3 = h" "mi = - 1 \<or> X 4 = mi" using x(2) by (auto simp: asked_def spec)
    have "meets dt X"
      unfolding meets_def all_fields
      using least_valid [OF x(1) x0] x(2) frT f34 tm T(6,7) by (auto simp: asked_def day_frame_def all_fields spec split: if_splits)
    then show ?thesis using x T(8) [OF bspec [OF l1 that] x(1) tm] by blast
  qed
  have done_right: "asked ts (getField d2)"
    if "resolution 5 (fields_of t) (points zone ts start) dt (Resolution_Resolved, d2)"
      and "ts_wdays ts \<noteq> 0 \<longrightarrow> weekday_ok (ts_wdays ts) (date_no (getField d2))" for d2
  proof -
    have k: "\<forall>k < 5. \<not> isFieldFree dt k \<longrightarrow> getField d2 k = getField dt k" using that(1) by (simp add: resolution_def)
    then show ?thesis
      using that(2) frT f34 T(6,7) by (auto simp: asked_def day_frame_def all_fields spec split: if_splits)
  qed
  have keeps: "day_frame ts d2"
    if "resolution 5 (fields_of t) (points zone ts start) dt (r, d2)" "r \<noteq> Resolution_Impossible" for r d2
    using that day_frame_keeps [OF frT] by (simp add: resolution_def)
  show ?thesis
  proof (cases "ts_wdays ts = 0")
    case True
    have nr: "\<not> runaway dt"
    proof
      assume "runaway dt"
      moreover have "isFieldFree dt 0 \<longleftrightarrow> ts_year ts = - 1" "isFieldFree dt 1 \<longleftrightarrow> ts_mon ts = - 1" "isFieldFree dt 2 \<longleftrightarrow> ts_mday ts = - 1"
        "ts_mon ts \<noteq> - 1 \<Longrightarrow> getField dt 1 = ts_mon ts" "ts_mday ts \<noteq> - 1 \<Longrightarrow> getField dt 2 = ts_mday ts"
        using frT True by (simp_all add: day_frame_def)
      ultimately show False using ts f34 True unfolding runaway_def search_ends_def spec by metis
    qed
    have later: "later_points dt (points zone ts start)" using low by (simp add: later_points_def)
    have "\<exists>res. tryResolve (7 + 3) zone (DateTime_new t) 3 4 dt = Some res
        \<and> resolution (Suc 4) (getField (DateTime_new t)) (points zone ts start) dt res"
    proof (rule tryResolve_no_weekdays [OF T(1,3) _ nr _ _ _ _ _ _ later])
      show "weekdays_m dt = 0" using T(2) w1 True by simp
      show "\<forall>X \<in> points zone ts start. lex_le (getField (DateTime_new t)) X" using X(3) g by simp
    qed (use c g aT in simp_all)
    then obtain r d2 where "tryResolve 10 zone (DateTime_new t) 3 4 dt = Some (r, d2)"
      "resolution 5 (fields_of t) (points zone ts start) dt (r, d2)" unfolding five g by auto
    then show ?thesis using done_right [of d2] keeps [of r d2] True by (intro exI [of _ "(r, d2)"]) auto
  next
    case False
    have fd: "free_date dt"
      using frT False T(5) [of 2] v1 T(1) by (simp add: day_frame_def free_date_def valid_point_def valid_date_def)
    have w: "0 < weekdays_m dt" "weekdays_m dt < 128" using ts T(2) w1 False by (auto simp: search_ends_def)
    have "\<exists>res. tryResolve (0 + 10) zone (DateTime_new t) 3 4 dt = Some res
        \<and> resolution (Suc 4) (getField (DateTime_new t)) (points zone ts start) dt res
        \<and> (fst res = Resolution_Resolved \<longrightarrow> weekday_ok (weekdays_m dt) (date_no (getField (snd res))))
        \<and> fst res \<noteq> Resolution_Unresolved"
    proof (rule tryResolve_weekdays [OF fd w T(3)])
      show "\<forall>X \<in> points zone ts start. valid_point X \<and> meets dt X \<and> weekday_ok (weekdays_m dt) (date_no X)
          \<and> lex_le (getField dt) X \<and> lex_le (getField (DateTime_new t)) X"
        using low T(2) w1 False g by (auto simp: asked_def)
    qed (use c g aT in simp_all)
    then obtain r d2 where "tryResolve 10 zone (DateTime_new t) 3 4 dt = Some (r, d2)"
      "resolution 5 (fields_of t) (points zone ts start) dt (r, d2)"
      "r = Resolution_Resolved \<longrightarrow> weekday_ok (weekdays_m dt) (date_no (getField d2))" "r \<noteq> Resolution_Unresolved"
      unfolding five g by auto
    then show ?thesis using done_right [of d2] keeps [of r d2] T(2) w1 by (intro exI [of _ "(r, d2)"]) auto
  qed
qed


section \<open>One round of the search\<close>

lemma resolutionD:
  assumes "resolution n c Xs dt (r, dt')" and "r \<noteq> Resolution_Impossible"
  shows "keeps_frame dt dt'" "\<forall>k < 5. \<not> isFieldFree dt k \<longrightarrow> getField dt' k = getField dt k" "isFieldFree dt' k = isFieldFree dt k"
  using assms keeps_frame_free by (simp_all add: resolution_def)

lemma unresolved_day:
  assumes "resolution n c (points zone ts start) dt (Resolution_Unresolved, dt')" and "day_frame ts dt'" and "ts_wdays ts = 0"
  shows "\<exists>p. valid_point p \<and> date_no c \<le> date_no p \<and> (\<forall>X \<in> points zone ts start. date_no p < date_no X)
    \<and> (ts_year ts \<noteq> - 1 \<longrightarrow> p 0 = ts_year ts) \<and> goToNextDay zone dt' = end_of_date zone p"
proof -
  obtain p where p: "valid_point p" "minute_no p = minute_no (getField dt')" "p 0 = getField dt' 0" "date_no c \<le> date_no p"
    "\<forall>X \<in> points zone ts start. date_no p < date_no X"
    using assms(1) by (auto simp: resolution_def)
  moreover have "ts_year ts \<noteq> - 1 \<longrightarrow> p 0 = ts_year ts" using p(3) assms(2,3) by (simp add: day_frame_def)
  ultimately show ?thesis using goToNextDay_point [OF p(1,2), of zone] by blast
qed

lemma findNext_step:
  assumes ts: "search_ends ts" "ts_exception ts = DontCare" "0 \<le> ts_offset ts" and t: "t = next_minute zone start" and y0: "0 \<le> tm_year t"
    and z: "sc_zone sc = zone"
  obtains (none) "points zone ts start = {}" "\<forall>n \<ge> 10. findNext (Suc n) sc start (Some ts) = Some 0"
  | (found) X where "X \<in> points zone ts start" "\<forall>Y \<in> points zone ts start. lex_le X Y"
      "\<forall>n \<ge> 10. findNext (Suc n) sc start (Some ts) = Some (instant zone X + ts_offset ts)"
  | (again) p where "valid_point p" "date_no (fields_of t) \<le> date_no p" "\<forall>X \<in> points zone ts start. date_no p < date_no X"
      "ts_wdays ts = 0" "ts_year ts \<noteq> - 1 \<longrightarrow> p 0 = ts_year ts" "\<forall>n \<ge> 10. findNext (Suc n) sc start (Some ts) = findNext n sc (end_of_date zone p) (Some ts)"
proof -
  have v: "valid_tm t" unfolding t next_minute by (rule localtime_valid)
  have ok: "TimeSpec_isValid ts" and fixed: "ts_class ts = FixedSpec" using ts(1) by (simp_all add: search_ends_def)
  define dt where "dt = day_target (TimeSpec_getDay ts) (DateTime_new t)"
  obtain r1 d1 where r1: "tryResolve 10 zone (DateTime_new t) 0 2 dt = Some (r1, d1)"
    "resolution 3 (fields_of t) (points zone ts start) dt (r1, d1)" "ts_wdays ts \<noteq> 0 \<longrightarrow> r1 \<noteq> Resolution_Unresolved"
    using find_day [OF ts(1) t y0] by (auto simp: dt_def)
  note fr = day_target_frame [OF ts(1) v y0, folded dt_def]
  have more1: "tryResolve n zone (DateTime_new t) 0 2 dt = Some (r1, d1)" if "10 \<le> n" for n
    using tryResolve_more [OF r1(1), of "n - 10"] that by simp
  have f1: "day_frame ts d1" if "r1 \<noteq> Resolution_Impossible"
    using day_frame_keeps [OF fr(1) resolutionD(1,2) [OF r1(2) that]] .
  have unfold: "findNext (Suc n) sc start (Some ts) =
      (case tryResolve n zone (DateTime_new t) 0 2 dt of None \<Rightarrow> None
       | Some (Resolution_Unresolved, d1) \<Rightarrow> findNext n sc (goToNextDay zone d1) (Some ts)
       | Some (Resolution_Impossible, d1) \<Rightarrow> Some 0
       | Some (Resolution_Resolved, d1) \<Rightarrow>
       (case tryResolve n zone (DateTime_new t) 3 4 (time_target (TimeSpec_getTime ts) d1) of None \<Rightarrow> None
        | Some (Resolution_Unresolved, d2) \<Rightarrow> findNext n sc (goToNextDay zone d2) (Some ts)
        | Some (Resolution_Impossible, d2) \<Rightarrow> Some 0
        | Some (Resolution_Resolved, d2) \<Rightarrow>
            (if mktime zone (tm_of d2) \<le> start then Some 0
             else if mktime zone (tm_of d2) + ts_offset ts \<le> start then findNext n sc (mktime zone (tm_of d2)) (Some ts)
             else Some (mktime zone (tm_of d2) + ts_offset ts))))" for n
    using ok fixed ts(2)
    by (simp add: spec_getDay_def spec_getTime_def excluded_def DateTime_getTime_def Let_def z t dt_def
        split: option.split prod.split ResolutionResult.split)
  show thesis
  proof (cases r1)
    case Resolution_Impossible
    then show ?thesis using r1(2) by (intro none) (simp_all del: findNext.simps add: unfold more1 resolution_def)
  next
    case Resolution_Unresolved
    then obtain p where "valid_point p" "date_no (fields_of t) \<le> date_no p" "\<forall>X \<in> points zone ts start. date_no p < date_no X"
      "ts_year ts \<noteq> - 1 \<longrightarrow> p 0 = ts_year ts" "goToNextDay zone d1 = end_of_date zone p"
      using unresolved_day [of 3 "fields_of t" zone ts start dt d1] r1(2,3) f1 by auto
    then show ?thesis using Resolution_Unresolved r1(3) by (intro again [of p]) (simp_all del: findNext.simps add: unfold more1)
  next
    case Resolution_Resolved
    note Resolution_Resolved1 = Resolution_Resolved
    have d1: "valid_point (getField d1)" "ahead 3 (fields_of t) (getField d1)" "\<forall>X \<in> points zone ts start. lex_le (getField d1) X"
      using r1(2) Resolution_Resolved by (simp_all add: resolution_def)
    have free: "isFieldFree d1 3" "isFieldFree d1 4" using resolutionD(3) [OF r1(2)] fr Resolution_Resolved by simp_all
    obtain r2 d2 where r2: "tryResolve 10 zone (DateTime_new t) 3 4 (time_target (TimeSpec_getTime ts) d1) = Some (r2, d2)"
      "resolution 5 (fields_of t) (points zone ts start) (time_target (TimeSpec_getTime ts) d1) (r2, d2)"
      "r2 = Resolution_Resolved \<longrightarrow> asked ts (getField d2)" "ts_wdays ts \<noteq> 0 \<longrightarrow> r2 \<noteq> Resolution_Unresolved"
      "r2 \<noteq> Resolution_Impossible \<longrightarrow> day_frame ts d2"
      using find_time [OF ts(1) t y0 f1 free d1] Resolution_Resolved by auto
    have more2: "tryResolve n zone (DateTime_new t) 3 4 (time_target (TimeSpec_getTime ts) d1) = Some (r2, d2)" if "10 \<le> n" for n
      using tryResolve_more [OF r2(1), of "n - 10"] that by simp
    show ?thesis
    proof (cases r2)
      case Resolution_Impossible
      then show ?thesis using r2(2) Resolution_Resolved1 by (intro none) (simp_all del: findNext.simps add: unfold more1 more2 resolution_def)
    next
      case Resolution_Unresolved
      then obtain p where "valid_point p" "date_no (fields_of t) \<le> date_no p" "\<forall>X \<in> points zone ts start. date_no p < date_no X"
        "ts_year ts \<noteq> - 1 \<longrightarrow> p 0 = ts_year ts" "goToNextDay zone d2 = end_of_date zone p"
        using unresolved_day [of 5 "fields_of t" zone ts start "time_target (TimeSpec_getTime ts) d1" d2] r2(2,4,5) by auto
      then show ?thesis using Resolution_Unresolved Resolution_Resolved1 r2(4) by (intro again [of p]) (simp_all del: findNext.simps add: unfold more1 more2)
    next
      case Resolution_Resolved
      have X: "valid_point (getField d2)" "ahead 5 (fields_of t) (getField d2)" "\<forall>X \<in> points zone ts start. lex_le (getField d2) X"
        using r2(2) Resolution_Resolved by (simp_all add: resolution_def)
      have m: "mktime zone (tm_of d2) = instant zone (getField d2)" unfolding mktime_minute_no instant_def ..
      have "lex_le (fields_of t) (getField d2)"
        using X(2) by (rule ahead_cases) (auto simp: lex_le_def)
      then have s: "start < instant zone (getField d2)"
        using after_start [OF refl X(1), of start zone] lex_le_minute_no [OF valid_fields_of [OF v] X(1)] by (simp add: t)
      then have "getField d2 \<in> points zone ts start" using X(1) r2(3) Resolution_Resolved by (simp add: points_def)
      then show ?thesis
        using X(3) s ts(3) Resolution_Resolved Resolution_Resolved1 by (intro found [of "getField d2"]) (simp_all del: findNext.simps add: unfold more1 more2 m)
    qed
  qed
qed


text \<open>The next round starts at midnight of the next day, and loses no point.\<close>

lemma next_round:
  assumes "c = fields_of (next_minute zone (end_of_date zone p))"
  shows "minute_no c = (date_no p + 1) * 1440" "date_no c = date_no p + 1"
proof -
  define e where "e = end_of_date zone p"
  let ?s = "tm_sec (localtime zone (e + 60))"
  have s: "0 \<le> ?s" "?s \<le> 59" and v: "valid_point c"
    using localtime_valid [of zone "e + 60"] by (simp_all add: valid_tm_def assms next_minute valid_fields_of e_def)
  have "instant zone c = e + 60 - ?s" unfolding assms e_def [symmetric] next_minute by (rule instant_of_time)
  then have "(minute_no c - (date_no p + 1) * 1440) * 60 = - ?s"
    unfolding e_def end_of_date_def instant_def end_of_date_minutes by (simp add: algebra_simps)
  moreover define d where "d = minute_no c - (date_no p + 1) * 1440"
  ultimately have "d * 60 = - ?s" by simp
  then have "- 1 < d" "d < 1" using s by linarith+
  then show m: "minute_no c = (date_no p + 1) * 1440" unfolding d_def by simp
  show "date_no c = date_no p + 1" using date_of_valid [OF v] unfolding m by simp
qed

lemma points_again:
  assumes c: "c = fields_of (next_minute zone start)" and p: "date_no c \<le> date_no p"
    and later: "\<forall>X \<in> points zone ts start. date_no p < date_no X"
  defines "c' \<equiv> fields_of (next_minute zone (end_of_date zone p))"
  shows "minute_no c \<le> minute_no c'" "points zone ts (end_of_date zone p) = points zone ts start"
proof -
  have v: "valid_point c" unfolding c next_minute by (rule valid_fields_of) (rule localtime_valid)
  have n: "minute_no c' = (date_no p + 1) * 1440" unfolding c'_def by (rule next_round(1) [OF refl])
  have le: "minute_no c \<le> minute_no c'"
    using v p unfolding n by (simp add: minute_no_def valid_point_def)
  then show "minute_no c \<le> minute_no c'" .
  show "points zone ts (end_of_date zone p) = points zone ts start"
  proof (intro set_eqI iffI)
    fix X assume X: "X \<in> points zone ts start"
    then have x: "valid_point X" "asked ts X" by (simp_all add: points_def)
    have "date_no p + 1 \<le> date_no X" using later X by auto
    moreover have "date_no X * 1440 \<le> minute_no X" using x(1) by (simp add: minute_no_def valid_point_def)
    ultimately have "minute_no c' \<le> minute_no X" unfolding n by simp
    then show "X \<in> points zone ts (end_of_date zone p)"
      using x after_start [OF c'_def [THEN meta_eq_to_obj_eq] x(1)] by (simp add: points_def)
  next
    fix X assume X: "X \<in> points zone ts (end_of_date zone p)"
    then have x: "valid_point X" "asked ts X" by (simp_all add: points_def)
    have "minute_no c' \<le> minute_no X"
      using X after_start [OF c'_def [THEN meta_eq_to_obj_eq] x(1)] by (simp add: points_def)
    then have "minute_no c \<le> minute_no X" using le by simp
    then show "X \<in> points zone ts start" using x after_start [OF c x(1)] by (simp add: points_def)
  qed
qed

text \<open>A specification without a year always has a later point.\<close>

lemma point_exists:
  assumes ts: "search_ends ts" and w: "ts_wdays ts = 0" and y: "ts_year ts = - 1" and y0: "0 \<le> tm_year (next_minute zone start)"
  shows "points zone ts start \<noteq> {}"
proof -
  let ?c = "fields_of (next_minute zone start)"
  define Y where "Y = 400 * (tm_year (next_minute zone start) + 5) - 1900"
  define X where "X = pt Y (if ts_mon ts = - 1 then 0 else ts_mon ts) (if ts_mday ts = - 1 then 1 else ts_mday ts)
    (if ts_hour ts = - 1 then 0 else ts_hour ts) (if ts_min ts = - 1 then 0 else ts_min ts)"
  have "leap (Y + 1900)" by (simp add: Y_def leap_def)
  moreover have "TimeSpec_isValid ts" using ts by (simp add: search_ends_def)
  moreover from this have "- 1 \<le> ts_mon ts" "ts_mon ts \<le> 11" "ts_mday ts = - 1 \<or> 1 \<le> ts_mday ts"
    using TimeSpec_isValid_ranges [of ts] by auto
  moreover from \<open>TimeSpec_isValid ts\<close> have "ts_mday ts \<le>
      (if ts_mon ts = 1 then 29 else if ts_mon ts = 3 \<or> ts_mon ts = 5 \<or> ts_mon ts = 8 \<or> ts_mon ts = 10 then 30 else 31)"
    using y by (simp add: TimeSpec_isValid_def Let_def split: if_splits) (elim disjE; simp)+
  ultimately have d: "valid_date (X 0 + 1900) (X 1) (X 2)"
    by (simp add: X_def valid_date_def month_days_def split: if_splits) auto
  have "X 3 \<in> {0..23} \<and> X 4 \<in> {0..59}" using ts by (auto simp: X_def search_ends_def)
  with d have v: "valid_point X" by (simp add: valid_point_def)
  have c: "valid_point ?c" unfolding next_minute by (rule valid_fields_of) (rule localtime_valid)
  have "?c 0 < X 0" using y0 by (simp add: X_def Y_def)
  then have "lex_le ?c X" by (intro lex_le_less [of 0]) simp_all
  then have "start < instant zone X" using after_start [OF refl v] lex_le_minute_no [OF c v] by simp
  moreover have "asked ts X" using w y by (simp add: asked_def X_def)
  ultimately show ?thesis using v by (auto simp: points_def)
qed

lemma search_bound:
  assumes ts: "search_ends ts" and w: "ts_wdays ts = 0" and y0: "0 \<le> tm_year (next_minute zone start)"
  obtains N where "\<And>p. valid_point p \<Longrightarrow> \<forall>X \<in> points zone ts start. date_no p < date_no X \<Longrightarrow>
    ts_year ts \<noteq> - 1 \<longrightarrow> p 0 = ts_year ts \<Longrightarrow> date_no p < N"
proof (cases "ts_year ts = - 1")
  case True
  then obtain X where "X \<in> points zone ts start" using point_exists [OF ts w True y0] by blast
  then show ?thesis using that [of "date_no X"] by blast
next
  case False
  define E where "E = pt (ts_year ts + 1) 0 1 0 0"
  have v: "valid_point E" by (simp add: E_def valid_point_def valid_date_def month_days_def)
  show ?thesis
  proof (rule that [of "date_no E"])
    fix p assume "valid_point p" and "ts_year ts \<noteq> - 1 \<longrightarrow> p 0 = ts_year ts"
    then show "date_no p < date_no E" using False v by (intro date_no_less) (simp_all add: E_def)
  qed
qed


section \<open>What the search returns\<close>

definition search_result :: "schedule \<Rightarrow> TimeSpec \<Rightarrow> int \<Rightarrow> (nat \<Rightarrow> int) set \<Rightarrow> bool" where
  "search_result sc ts start Xs \<longleftrightarrow>
     (\<exists>n. (Xs = {} \<and> (\<forall>k \<ge> n. findNext k sc start (Some ts) = Some 0))
        \<or> (\<exists>X \<in> Xs. (\<forall>Y \<in> Xs. lex_le X Y) \<and> (\<forall>k \<ge> n. findNext k sc start (Some ts) = Some (instant (sc_zone sc) X + ts_offset ts))))"

lemma search_result_again:
  assumes "search_result sc ts s Xs" and "\<forall>n \<ge> 10. findNext (Suc n) sc start (Some ts) = findNext n sc s (Some ts)"
  shows "search_result sc ts start Xs"
proof -
  obtain n where n: "(Xs = {} \<and> (\<forall>k \<ge> n. findNext k sc s (Some ts) = Some 0))
        \<or> (\<exists>X \<in> Xs. (\<forall>Y \<in> Xs. lex_le X Y) \<and> (\<forall>k \<ge> n. findNext k sc s (Some ts) = Some (instant (sc_zone sc) X + ts_offset ts)))"
    using assms(1) unfolding search_result_def by blast
  have "findNext k sc start (Some ts) = findNext (k - 1) sc s (Some ts)" if "Suc (n + 10) \<le> k" for k
    using assms(2) [rule_format, of "k - 1"] that by (cases k) (simp_all del: findNext.simps)
  moreover have "n \<le> k - 1" if "Suc (n + 10) \<le> k" for k using that by simp
  ultimately show ?thesis using n unfolding search_result_def by (intro exI [of _ "Suc (n + 10)"]) metis
qed

lemma search_returns:
  assumes ts: "search_ends ts" "ts_exception ts = DontCare" "0 \<le> ts_offset ts" and y0: "0 \<le> tm_year (next_minute (sc_zone sc) start)"
  shows "search_result sc ts start (points (sc_zone sc) ts start)"
proof -
  define zone where "zone = sc_zone sc"
  define Xs where "Xs = points zone ts start"
  have "\<exists>N. \<forall>p. ts_wdays ts = 0 \<longrightarrow> valid_point p \<longrightarrow> (\<forall>X \<in> Xs. date_no p < date_no X) \<longrightarrow>
      (ts_year ts \<noteq> - 1 \<longrightarrow> p 0 = ts_year ts) \<longrightarrow> date_no p < N"
  proof (cases "ts_wdays ts = 0")
    case True
    show ?thesis by (rule search_bound [OF ts(1) True y0, folded zone_def, folded Xs_def]) blast
  qed simp
  then obtain N where N: "\<forall>p. ts_wdays ts = 0 \<longrightarrow> valid_point p \<longrightarrow> (\<forall>X \<in> Xs. date_no p < date_no X) \<longrightarrow>
      (ts_year ts \<noteq> - 1 \<longrightarrow> p 0 = ts_year ts) \<longrightarrow> date_no p < N" ..
  have "search_result sc ts s Xs" if "points zone ts s = Xs" "0 \<le> tm_year (next_minute zone s)" for s
    using that
  proof (induction "nat (N - date_no (fields_of (next_minute zone s)))" arbitrary: s rule: less_induct)
    case less
    define c where "c = fields_of (next_minute zone s)"
    have v: "valid_point c" "0 \<le> c 0" using less.prems(2) by (simp_all add: c_def next_minute valid_fields_of localtime_valid)
    consider (none) "Xs = {}" "\<forall>n \<ge> 10. findNext (Suc n) sc s (Some ts) = Some 0"
      | (found) X where "X \<in> Xs" "\<forall>Y \<in> Xs. lex_le X Y" "\<forall>n \<ge> 10. findNext (Suc n) sc s (Some ts) = Some (instant zone X + ts_offset ts)"
      | (again) p where "valid_point p" "date_no c \<le> date_no p" "\<forall>X \<in> Xs. date_no p < date_no X"
          "ts_wdays ts = 0" "ts_year ts \<noteq> - 1 \<longrightarrow> p 0 = ts_year ts"
          "\<forall>n \<ge> 10. findNext (Suc n) sc s (Some ts) = findNext n sc (end_of_date zone p) (Some ts)"
      using findNext_step [OF ts refl less.prems(2) zone_def [symmetric], unfolded less.prems(1), folded c_def] by metis
    then show ?case
    proof cases
      case none
      have "findNext k sc s (Some ts) = Some 0" if "11 \<le> k" for k
        using none(2) [rule_format, of "k - 1"] that by (cases k) (simp_all del: findNext.simps)
      then show ?thesis using none(1) unfolding search_result_def by blast
    next
      case (found X)
      have "findNext k sc s (Some ts) = Some (instant zone X + ts_offset ts)" if "11 \<le> k" for k
        using found(3) [rule_format, of "k - 1"] that by (cases k) (simp_all del: findNext.simps)
      then show ?thesis using found(1,2) unfolding search_result_def zone_def [symmetric] by blast
    next
      case (again p)
      define c' where "c' = fields_of (next_minute zone (end_of_date zone p))"
      have d: "date_no c' = date_no p + 1" unfolding c'_def by (rule next_round(2) [OF refl])
      have v': "valid_point c'" by (simp add: c'_def next_minute valid_fields_of localtime_valid)
      have lt: "date_no p < N" using N again(1,3-5) by blast
      have pts: "points zone ts (end_of_date zone p) = Xs" and le: "minute_no c \<le> minute_no c'"
        using points_again [OF c_def, where p = p and ts = ts] again(2,3) less.prems(1) by (simp_all add: c_def c'_def)
      have "lex_le c c'" using lex_le_of_minutes [OF v(1) v' le] .
      then have "0 \<le> c' 0" using lex_le_cascade(1) v(2) by fastforce
      then have "search_result sc ts (end_of_date zone p) Xs"
        using less.hyps [OF _ pts] lt d again(2) by (simp add: c'_def c_def)
      then show ?thesis using again(6) by (rule search_result_again)
    qed
  qed
  from this [of start] show ?thesis using y0 by (simp add: Xs_def zone_def)
qed

lemma first_point:
  assumes "X \<in> points zone ts start" and "\<forall>Y \<in> points zone ts start. lex_le X Y"
  shows "first_after zone ts start (instant zone X)"
proof -
  have X: "valid_point X" "asked ts X" "start < instant zone X" using assms(1) by (simp_all add: points_def)
  have "\<not> fires ts (localtime zone u)" if u: "start < u" "u < instant zone X" for u
  proof
    assume "fires ts (localtime zone u)"
    then obtain Y where Y: "valid_point Y" "u = instant zone Y" "asked ts Y" by (rule fires_point)
    then have "lex_le X Y" using assms(2) u by (simp add: points_def)
    then show False using u(2) Y(1,2) lex_le_minute_no [OF X(1)] instant_mono [of zone X Y] by simp
  qed
  then show ?thesis using X fires_instant [OF X(1), of ts zone] by (simp add: first_after_def)
qed

text \<open>
  C25.  For a specification with fixed fields (none of the two traps), no exception days and an offset that is not negative,
  the search ends, and what it returns is the first whole minute after the start at which the specification
  fires, moved by the offset; it is 0 exactly when the specification never fires again.
\<close>

theorem findNext_finds_first:
  assumes "search_ends ts" and "ts_exception ts = DontCare" and "0 \<le> ts_offset ts"
    and "0 \<le> tm_year (next_minute (sc_zone sc) start)"
  shows "\<exists>r n. (\<forall>k \<ge> n. findNext k sc start (Some ts) = Some r)
    \<and> (if \<exists>t > start. fires ts (localtime (sc_zone sc) t)
       then first_after (sc_zone sc) ts start (r - ts_offset ts) else r = 0)"
proof -
  have "points (sc_zone sc) ts start = {} \<longleftrightarrow> \<not> (\<exists>t > start. fires ts (localtime (sc_zone sc) t))"
  proof
    assume none: "points (sc_zone sc) ts start = {}"
    show "\<not> (\<exists>t > start. fires ts (localtime (sc_zone sc) t))"
    proof
      assume "\<exists>t > start. fires ts (localtime (sc_zone sc) t)"
      then obtain t where t: "start < t" "fires ts (localtime (sc_zone sc) t)" by blast
      from t(2) obtain X where "valid_point X" "t = instant (sc_zone sc) X" "asked ts X" by (rule fires_point)
      with t(1) none show False by (auto simp: points_def)
    qed
  next
    assume "\<not> (\<exists>t > start. fires ts (localtime (sc_zone sc) t))"
    then show "points (sc_zone sc) ts start = {}" using fires_instant [of _ ts "sc_zone sc"] by (auto simp: points_def)
  qed
  moreover obtain n where "points (sc_zone sc) ts start = {} \<and> (\<forall>k \<ge> n. findNext k sc start (Some ts) = Some 0)
      \<or> (\<exists>X \<in> points (sc_zone sc) ts start. (\<forall>Y \<in> points (sc_zone sc) ts start. lex_le X Y)
          \<and> (\<forall>k \<ge> n. findNext k sc start (Some ts) = Some (instant (sc_zone sc) X + ts_offset ts)))"
    using search_returns [OF assms] unfolding search_result_def by blast
  then consider "points (sc_zone sc) ts start = {}" "\<forall>k \<ge> n. findNext k sc start (Some ts) = Some 0"
    | X where "X \<in> points (sc_zone sc) ts start" "\<forall>Y \<in> points (sc_zone sc) ts start. lex_le X Y"
      "\<forall>k \<ge> n. findNext k sc start (Some ts) = Some (instant (sc_zone sc) X + ts_offset ts)"
    by blast
  then show ?thesis
  proof cases
    case 1
    then show ?thesis using calculation by (intro exI [of _ "0 :: int"] exI [of _ n]) auto
  next
    case (2 X)
    then have "points (sc_zone sc) ts start \<noteq> {}" by blast
    then show ?thesis
      using 2(3) calculation first_point [OF 2(1,2)] by (intro exI [of _ "instant (sc_zone sc) X + ts_offset ts"] exI [of _ n]) simp
  qed
qed


theorem findNext_finds_first_witness:
  "\<exists>r n. (\<forall>k \<ge> n. findNext k \<lparr>sc_zone = 3600, sc_values = (\<lambda>_. None), sc_sun = (\<lambda>_ _ _ _. (0, 0)), sc_days = []\<rparr>
      1640000000 (Some (TimeSpec_of_date 30 6 (- 1) (- 1) (- 1) 60)) = Some r)
    \<and> (if \<exists>t > 1640000000. fires (TimeSpec_of_date 30 6 (- 1) (- 1) (- 1) 60) (localtime 3600 t)
       then first_after 3600 (TimeSpec_of_date 30 6 (- 1) (- 1) (- 1) 60) 1640000000 (r - 60) else r = 0)"
proof -
  let ?ts = "TimeSpec_of_date 30 6 (- 1) (- 1) (- 1) 60"
  let ?sc = "\<lparr>sc_zone = 3600, sc_values = (\<lambda>_. None), sc_sun = (\<lambda>_ _ _ _. (0, 0)), sc_days = []\<rparr> :: schedule"
  have "search_ends ?ts" "ts_exception ?ts = DontCare" "0 \<le> ts_offset ?ts" "ts_offset ?ts = 60"
    by (simp_all add: TimeSpec_of_date_def TimeSpec_new_def search_ends_def TimeSpec_isValid_def)
  moreover have "0 \<le> tm_year (next_minute (sc_zone ?sc) 1640000000)"
    by (simp add: next_minute) code_simp
  ultimately show ?thesis using findNext_finds_first [of ?ts ?sc 1640000000] unfolding schedule.simps by metis
qed


section \<open>A search that does not end\<close>

text \<open>
  On the last day of a December without a year, once its hour is over, the day after is the 32nd; the projection moves
  the year on but keeps the day and the month, and so on for ever.
\<close>

definition december_32 :: "int \<Rightarrow> DateTime" where
  "december_32 y = \<lparr>fields_m = [y, 11, 32, 6, 30], freeFields_m = 5, weekdays_m = 0\<rparr>"

lemma december_32_projected: "projectOnActualCalendar zone (december_32 y) = (Projection_Changed, december_32 (y + 1))"
proof -
  define p where "p = pt (y + 1) 0 1 6 30"
  have v: "valid_point p" by (simp add: p_def valid_point_def valid_date_def month_days_def)
  have m: "minute_no p = minute_no (getField (december_32 y))"
    using day_number_overflow [of 11 "y + 1900" 1]
    by (simp add: p_def minute_no_def date_no_def december_32_def getField_def month_days_def algebra_simps)
  define q where "q = DateTime_new (snd (DateTime_getTime zone (december_32 y)))"
  have q: "\<forall>k < 5. getField q k = p k" unfolding q_def fields_of_def [symmetric] by (rule projected_point [OF v m])
  have five: "[Year ..< Suc Minute] = [0, 1, 2, 3, 4]" by (simp add: upt_rec)
  have fields: "getField (december_32 z) 0 = z" "getField (december_32 z) 1 = 11" for z
    by (simp_all add: december_32_def getField_def)
  have qs: "getField q 0 = y + 1" "getField q 1 = 0" using q by (simp_all add: p_def all_fields)
  have free: "isFieldFree (december_32 z) 0" "\<not> isFieldFree (december_32 z) 1" for z
    by (simp_all add: december_32_def isFieldFree_def)
  have d: "december_32 y\<lparr>fields_m := (fields_m (december_32 y))[0 := y + 1]\<rparr> = december_32 (y + 1)"
    by (simp add: december_32_def)
  have "projectOnActualCalendar zone (december_32 y) = project_fields q [0, 1, 2, 3, 4] False False (december_32 y)"
    unfolding projectOnActualCalendar_def q_def five ..
  also have "\<dots> = (Projection_Changed, december_32 (y + 1))"
    unfolding project_fields.simps fields qs d using free by simp
  finally show ?thesis .
qed

lemma december_32_for_ever:
  assumes "getField c 0 < y"
  shows "tryResolve n zone c 3 4 (december_32 y) = None"
  using assms
proof (induction n arbitrary: y)
  case (Suc n)
  have "tryResolveUnprojected n zone c 3 4 (december_32 y) \<in> {None, Some (True, december_32 y)}"
    using Suc.prems
    by (cases n) (simp_all add: tryResolveWithoutWeekdays_def upt_rec december_32_def getField_def isCompatibleWithWeekDays_def)
  then show ?case using december_32_projected [of zone y] Suc by auto
qed simp



end
