(* ===== verification/TimerManager.thy ===== *)
theory TimerManager
  imports Schedule_Laws "HOL-Library.Multiset"
begin

text \<open>
  The tasks of src/timermanager.h and .cpp: \<open>PeriodicTask\<close>, \<open>FixedTimeTask\<close> (of which \<open>TimeCounterCondition\<close> is the
  only one) and the list of tasks of \<open>TimerManager\<close>.  Tasks are shared by pointer with the conditions that own them.
  The functions on the state take any extension of the record \<open>timers\<close>, since the callbacks of the
  tasks change the rules and the objects too.
\<close>

section \<open>Tasks\<close>

record PeriodicTask =
  at_m :: "TimeSpec option"
  until_m :: "TimeSpec option"
  during_m :: int
  after_m :: int
  nextExecTime_m :: int
  pt_cl_m :: "listener option"
  value_m :: bool

definition PeriodicTask_new :: "listener option \<Rightarrow> PeriodicTask" where
  "PeriodicTask_new cl =
     \<lparr>at_m = None, until_m = None, during_m = 0, after_m = - 1, nextExecTime_m = 0, pt_cl_m = cl, value_m = False\<rparr>"

text \<open>The members of \<open>TimeCounterCondition\<close> besides its nested condition; \<open>execTime_m\<close> is that of \<open>FixedTimeTask\<close>.\<close>

record TimeCounter =
  execTime_m :: int
  tc_cl_m :: "listener option"
  lastTime_m :: int
  lastVal_m :: bool
  counter_m :: int
  threshold_m :: int
  resetDelay_m :: int

definition TimeCounter_new :: "listener option \<Rightarrow> TimeCounter" where
  "TimeCounter_new cl =
     \<lparr>execTime_m = 0, tc_cl_m = cl, lastTime_m = 0, lastVal_m = False, counter_m = 0, threshold_m = 0, resetDelay_m = 0\<rparr>"

datatype TimerTask = Periodic PeriodicTask | Counter TimeCounter

fun getExecTime :: "TimerTask \<Rightarrow> int" where
  "getExecTime (Periodic t) = nextExecTime_m t"
| "getExecTime (Counter t) = execTime_m t"

section \<open>The task list\<close>

record timers =
  taskList_m :: "ptr list"
  tasks :: "ptr \<Rightarrow> TimerTask option"

definition exec_time :: "'a timers_scheme \<Rightarrow> ptr \<Rightarrow> int" where
  "exec_time s p = (case tasks s p of None \<Rightarrow> 0 | Some t \<Rightarrow> getExecTime t)"

fun insert_task :: "(ptr \<Rightarrow> int) \<Rightarrow> ptr \<Rightarrow> ptr list \<Rightarrow> ptr list" where
  "insert_task exec p [] = [p]"
| "insert_task exec p (q # qs) = (if exec p < exec q then p # q # qs else q # insert_task exec p qs)"

definition addTask :: "ptr \<Rightarrow> 'a timers_scheme \<Rightarrow> 'a timers_scheme" where
  "addTask p s = s\<lparr>taskList_m := insert_task (exec_time s) p (taskList_m s)\<rparr>"

definition removeTask :: "ptr \<Rightarrow> 'a timers_scheme \<Rightarrow> 'a timers_scheme" where
  "removeTask p s = s\<lparr>taskList_m := removeAll p (taskList_m s)\<rparr>"

definition set_task :: "ptr \<Rightarrow> TimerTask \<Rightarrow> 'a timers_scheme \<Rightarrow> 'a timers_scheme" where
  "set_task p t s = s\<lparr>tasks := (tasks s)(p \<mapsto> t)\<rparr>"

section \<open>Scheduling\<close>

text \<open>The first schedule guesses the value from which of the two times comes first.\<close>

definition first_schedule :: "nat \<Rightarrow> schedule \<Rightarrow> int \<Rightarrow> PeriodicTask \<Rightarrow> PeriodicTask option" where
  "first_schedule n sc now t =
     Option.bind
       (if during_m t \<noteq> - 1 then
          (if after_m t = - 1 then map_option (\<lambda>x. x + during_m t) (findNext n sc (now - during_m t) (at_m t))
           else Some (now + during_m t))
        else findNext n sc now (until_m t))
       (\<lambda>stop.
     Option.bind (if after_m t \<noteq> - 1 then Some (now + after_m t) else findNext n sc now (at_m t))
       (\<lambda>start.
          Some (if stop < start then t\<lparr>value_m := True, nextExecTime_m := stop\<rparr>
                else t\<lparr>value_m := False, nextExecTime_m := start\<rparr>)))"

definition next_schedule :: "nat \<Rightarrow> schedule \<Rightarrow> int \<Rightarrow> PeriodicTask \<Rightarrow> PeriodicTask option" where
  "next_schedule n sc now t =
     (if nextExecTime_m t = 0 \<and> during_m t \<noteq> 0 then first_schedule n sc now t
      else map_option (\<lambda>x. t\<lparr>nextExecTime_m := x\<rparr>)
        (if value_m t then (if during_m t \<noteq> - 1 then Some (now + during_m t) else findNext n sc now (until_m t))
         else (if after_m t \<noteq> - 1 then Some (now + after_m t) else findNext n sc now (at_m t))))"

text \<open>
  \<open>reschedule\<close> of the two classes; \<open>time0\<close> is what \<open>time (0)\<close> returns, and \<open>None\<close> a search that does not
  return within the fuel.
\<close>

definition reschedule :: "nat \<Rightarrow> schedule \<Rightarrow> int \<Rightarrow> int \<Rightarrow> ptr \<Rightarrow> 'a timers_scheme \<Rightarrow> 'a timers_scheme option" where
  "reschedule n sc time0 now p s =
     (let now = (if now = 0 then time0 else now) in
      case tasks s p of
        None \<Rightarrow> Some s
      | Some (Periodic t) \<Rightarrow>
          map_option (\<lambda>t. let s = set_task p (Periodic t) s in if nextExecTime_m t \<noteq> 0 then addTask p s else s)
            (next_schedule n sc now t)
      | Some (Counter t) \<Rightarrow> Some (if execTime_m t > now then addTask p s else s))"

definition PeriodicTask_onChange :: "nat \<Rightarrow> schedule \<Rightarrow> int \<Rightarrow> ptr \<Rightarrow> 'a timers_scheme \<Rightarrow> 'a timers_scheme option" where
  "PeriodicTask_onChange n sc time0 p s = reschedule n sc time0 0 p (removeTask p s)"

section \<open>Execution\<close>

text \<open>\<open>call l\<close> is what the listener \<open>l\<close> does to the state.\<close>

definition notify :: "(listener \<Rightarrow> 's \<Rightarrow> 's outcome) \<Rightarrow> listener option \<Rightarrow> 's \<Rightarrow> 's outcome" where
  "notify call cl s = (case cl of None \<Rightarrow> finish s | Some l \<Rightarrow> call l s)"

definition onTimer ::
    "(listener \<Rightarrow> 'a timers_scheme \<Rightarrow> 'a timers_scheme outcome) \<Rightarrow> ptr \<Rightarrow> 'a timers_scheme \<Rightarrow> 'a timers_scheme outcome" where
  "onTimer call p s =
     (case tasks s p of
        None \<Rightarrow> throw Null_deref s
      | Some (Counter t) \<Rightarrow> notify call (tc_cl_m t) s
      | Some (Periodic t) \<Rightarrow>
          and_then (notify call (pt_cl_m t) (set_task p (Periodic (t\<lparr>value_m := \<not> value_m t\<rparr>)) s))
            (\<lambda>s. case tasks s p of
                   Some (Periodic t) \<Rightarrow>
                     if during_m t = 0 \<and> value_m t
                     then notify call (pt_cl_m t) (set_task p (Periodic (t\<lparr>value_m := False\<rparr>)) s)
                     else finish s
                 | _ \<Rightarrow> throw Null_deref s))"

datatype TimerCheck = Immediate | Short | Long

text \<open>A task that is late by a minute or more is not executed; \<open>front ()\<close> of an empty list is an error of its own.\<close>

definition checkTaskList ::
    "nat \<Rightarrow> schedule \<Rightarrow> int \<Rightarrow> (listener \<Rightarrow> 'a timers_scheme \<Rightarrow> 'a timers_scheme outcome) \<Rightarrow> int \<Rightarrow> 'a timers_scheme \<Rightarrow>
       (TimerCheck \<times> 'a timers_scheme outcome) option" where
  "checkTaskList n sc time0 call now s =
     (case taskList_m s of
        [] \<Rightarrow> Some (Long, finish s)
      | first # _ \<Rightarrow>
          if exec_time s first > now then Some (Short, finish s)
          else
            (case (if exec_time s first > now - 60 then onTimer call first s else finish s) of
               (effs, Some e, s1) \<Rightarrow> Some (Immediate, effs, Some e, s1)
             | (effs, None, s1) \<Rightarrow>
                 (case taskList_m s1 of
                    [] \<Rightarrow> Some (Immediate, effs, Some Null_deref, s1)
                  | front # rest \<Rightarrow>
                      if front = first then
                        map_option (\<lambda>s2. (Immediate, effs, None, s2))
                          (reschedule n sc time0 now first (s1\<lparr>taskList_m := rest\<rparr>))
                      else Some (Immediate, effs, None, s1))))"

text \<open>The seconds the loop of \<open>Run\<close> waits, and the loop for the times it reads until it is stopped.\<close>

fun wait_time :: "TimerCheck \<Rightarrow> int" where
  "wait_time Immediate = 0"
| "wait_time Short = 1"
| "wait_time Long = 10"

fun TimerManager_Run ::
    "nat \<Rightarrow> schedule \<Rightarrow> (listener \<Rightarrow> 'a timers_scheme \<Rightarrow> 'a timers_scheme outcome) \<Rightarrow> int list \<Rightarrow> 'a timers_scheme \<Rightarrow>
       (int list \<times> 'a timers_scheme outcome) option" where
  "TimerManager_Run n sc call [] s = Some ([], finish s)"
| "TimerManager_Run n sc call (now # readings) s =
     (case checkTaskList n sc now call now s of
        None \<Rightarrow> None
      | Some (c, effs, Some e, s1) \<Rightarrow> Some ([], effs, Some e, s1)
      | Some (c, effs, None, s1) \<Rightarrow>
          map_option (\<lambda>(ws, r). (wait_time c # ws, and_then (effs, None, s1) (\<lambda>_. r))) (TimerManager_Run n sc call readings s1))"

section \<open>Status\<close>

definition show_time :: "int \<Rightarrow> int \<Rightarrow> string" where
  "show_time zone time =
     (let t = localtime zone time in
      show_int (tm_year t + 1900) @ ''-'' @ show_int (tm_mon t + 1) @ ''-'' @ show_int (tm_mday t) @ '' ''
      @ pad0 2 (show_int (tm_hour t)) @ '':'' @ pad0 2 (show_int (tm_min t)) @ '':'' @ pad0 2 (show_int (tm_sec t)))"

definition PeriodicTask_statusXml :: "int \<Rightarrow> (listener \<Rightarrow> string) \<Rightarrow> PeriodicTask \<Rightarrow> xml \<Rightarrow> xml" where
  "PeriodicTask_statusXml zone ids t e =
     (let e = SetAttribute ''next-exec'' (show_time zone (nextExecTime_m t)) e
      in case pt_cl_m t of None \<Rightarrow> e | Some l \<Rightarrow> SetAttribute ''owner'' (ids l) e)"

definition FixedTimeTask_statusXml :: "int \<Rightarrow> TimeCounter \<Rightarrow> xml \<Rightarrow> xml" where
  "FixedTimeTask_statusXml zone t e = SetAttribute ''next-exec'' (show_time zone (execTime_m t)) e"

text \<open>The status of a task is that of the condition it belongs to.\<close>

definition TimerManager_statusXml :: "(ptr \<Rightarrow> xml \<Rightarrow> xml) \<Rightarrow> 'a timers_scheme \<Rightarrow> xml \<Rightarrow> xml" where
  "TimerManager_statusXml status s e = foldl (\<lambda>e p. LinkEndChild (status p (Element ''task'' [] [])) e) e (taskList_m s)"

end
