(* ===== verification/Timer_Laws.thy ===== *)
theory Timer_Laws
  imports TimerManager
begin

text \<open>
  The list of tasks as a queue: what its client relies on is stated as a locale, and interpreted for the
  list of \<open>TimerManager\<close>.  Then the order of execution, and what a schedule means.
\<close>

section \<open>Stable queues\<close>

locale stable_queue =
  fixes ins :: "'p \<Rightarrow> 'q \<Rightarrow> 'q" and del :: "'p \<Rightarrow> 'q \<Rightarrow> 'q" and items :: "'q \<Rightarrow> 'p list" and key :: "'p \<Rightarrow> int"
  assumes items_ins:
      "sorted (map key (items q)) \<Longrightarrow>
         \<exists>ls rs. items q = ls @ rs \<and> items (ins p q) = ls @ p # rs \<and> (\<forall>x \<in> set ls. key x \<le> key p) \<and> (\<forall>x \<in> set rs. key p < key x)"
    and items_del: "items (del p q) = removeAll p (items q)"
begin

lemma sorted_ins: "sorted (map key (items q)) \<Longrightarrow> sorted (map key (items (ins p q)))"
  using items_ins [of q p] by (fastforce simp: sorted_append)

lemma mset_ins: "sorted (map key (items q)) \<Longrightarrow> mset (items (ins p q)) = add_mset p (mset (items q))"
  using items_ins [of q p] by auto

lemma set_ins: "sorted (map key (items q)) \<Longrightarrow> set (items (ins p q)) = insert p (set (items q))"
  using items_ins [of q p] by auto

lemma sorted_del: "sorted (map key (items q)) \<Longrightarrow> sorted (map key (items (del p q)))"
  unfolding items_del removeAll_filter_not_eq by (rule sorted_filter)

text \<open>Entries with the same key keep their order.\<close>

lemma filter_ins:
  assumes "sorted (map key (items q))"
  shows "filter (\<lambda>x. k = key x) (items (ins p q)) = filter (\<lambda>x. k = key x) (items q) @ (if k = key p then [p] else [])"
proof -
  obtain ls rs where q: "items q = ls @ rs" "items (ins p q) = ls @ p # rs" "\<forall>x \<in> set rs. key p < key x"
    using items_ins [OF assms, of p] by blast
  have "k = key p \<Longrightarrow> filter (\<lambda>x. k = key x) rs = []" using q(3) by (auto simp: filter_empty_conv)
  then show ?thesis unfolding q by simp
qed

text \<open>Inserting one after the other sorts, and sorts stably.\<close>

lemma ins_all:
  fixes ps :: "'p list"
  assumes "sorted (map key (items q))"
  defines "q' \<equiv> foldl (\<lambda>q p. ins p q) q ps"
  shows "sorted (map key (items q'))" "mset (items q') = mset (items q) + mset ps"
    "filter (\<lambda>x. k = key x) (items q') = filter (\<lambda>x. k = key x) (items q) @ filter (\<lambda>x. k = key x) ps"
proof -
  have "sorted (map key (items q')) \<and> mset (items q') = mset (items q) + mset ps
    \<and> filter (\<lambda>x. k = key x) (items q') = filter (\<lambda>x. k = key x) (items q) @ filter (\<lambda>x. k = key x) ps"
    using assms(1) unfolding q'_def
  proof (induction ps arbitrary: q)
    case (Cons p ps)
    show ?case using Cons.IH [OF sorted_ins [OF Cons.prems, of p]] mset_ins [OF Cons.prems, of p] filter_ins [OF Cons.prems, of k p]
      by simp
  qed simp
  then show "sorted (map key (items q'))" "mset (items q') = mset (items q) + mset ps"
    "filter (\<lambda>x. k = key x) (items q') = filter (\<lambda>x. k = key x) (items q) @ filter (\<lambda>x. k = key x) ps" by simp_all
qed

lemma ins_all_sorts:
  assumes "items q = []"
  shows "items (foldl (\<lambda>q p. ins p q) q ps) = sort_key key ps"
proof -
  have "sorted (map key (items q))" using assms by simp
  note i = ins_all [OF this, where ps = ps]
  show ?thesis using i assms by (intro properties_for_sort_key [symmetric]) simp_all
qed

end

lemma insert_task_split:
  assumes "sorted (map key q)"
  shows "\<exists>ls rs. q = ls @ rs \<and> insert_task key p q = ls @ p # rs \<and> (\<forall>x \<in> set ls. key x \<le> key p) \<and> (\<forall>x \<in> set rs. key p < key x)"
  using assms
proof (induction q)
  case (Cons a q)
  show ?case
  proof (cases "key p < key a")
    case True
    then show ?thesis using Cons.prems by (intro exI [of _ "[]"] exI [of _ "a # q"]) auto
  next
    case False
    then obtain ls rs where "q = ls @ rs" "insert_task key p q = ls @ p # rs" "\<forall>x \<in> set ls. key x \<le> key p" "\<forall>x \<in> set rs. key p < key x"
      using Cons by auto
    then show ?thesis using False by (intro exI [of _ "a # ls"] exI [of _ rs]) auto
  qed
qed simp

interpretation tq: stable_queue "insert_task key" removeAll "\<lambda>q. q" key for key
  by unfold_locales (simp_all add: insert_task_split)

section \<open>The task list refines a log\<close>

lemma exec_time_frame [simp]:
  "exec_time (s\<lparr>taskList_m := l\<rparr>) = exec_time s" "exec_time (addTask p s) = exec_time s" "exec_time (removeTask p s) = exec_time s"
  by (auto simp: exec_time_def addTask_def removeTask_def fun_eq_iff)

lemma exec_time_set_task: "exec_time (set_task p t s) = (exec_time s)(p := getExecTime t)"
  by (auto simp: exec_time_def set_task_def fun_eq_iff)

lemma taskList_frame [simp]:
  "taskList_m (addTask p s) = insert_task (exec_time s) p (taskList_m s)" "taskList_m (removeTask p s) = removeAll p (taskList_m s)"
  "taskList_m (set_task p t s) = taskList_m s"
  by (simp_all add: addTask_def removeTask_def set_task_def)

lemma tasks_frame [simp]:
  "tasks (addTask p s) = tasks s" "tasks (removeTask p s) = tasks s" "tasks (set_task p t s) = (tasks s)(p \<mapsto> t)"
  by (simp_all add: addTask_def removeTask_def set_task_def)

lemma insert_task_sort_key: "insert_task key p (sort_key key ps) = sort_key key (ps @ [p])"
proof -
  have "insert_task key p (sort_key key ps) = foldl (\<lambda>q p. insert_task key p q) [] (ps @ [p])"
    using tq.ins_all_sorts [of "[]" key ps] by simp
  then show ?thesis using tq.ins_all_sorts [of "[]" key "ps @ [p]"] by simp
qed

lemma removeAll_sort_key: "removeAll p (sort_key key ps) = sort_key key (removeAll p ps)"
  by (simp add: removeAll_filter_not_eq filter_sort)

lemma sort_key_same:
  assumes "\<forall>x \<in> set xs. f x = g x"
  shows "sort_key f xs = sort_key g xs"
proof (rule properties_for_sort_key)
  show "filter (\<lambda>x. f k = f x) (sort_key g xs) = filter (\<lambda>x. f k = f x) xs" if "k \<in> set (sort_key g xs)" for k
  proof -
    have "filter (\<lambda>x. f k = f x) (sort_key g xs) = filter (\<lambda>x. g k = g x) (sort_key g xs)"
      using assms that by (intro filter_cong) auto
    also have "\<dots> = filter (\<lambda>x. g k = g x) xs" using sort_key_stable [of g "g k" xs] by (simp add: eq_commute)
    also have "\<dots> = filter (\<lambda>x. f k = f x) xs" using assms that by (intro filter_cong) auto
    finally show ?thesis .
  qed
  have "map f (sort_key g xs) = map g (sort_key g xs)" using assms by (intro map_cong) auto
  then show "sorted (map f (sort_key g xs))" by (simp only: sorted_sort_key)
qed simp

text \<open>
  The calls the program makes: a task is added, removed, or gets a new time; a task with a new time is taken out of
  the list first, as \<open>TimeCounterCondition::evaluate\<close> and \<open>PeriodicTask::onChange\<close> do.  The log keeps the tasks in the order
  of the calls.
\<close>

datatype task_call = Add ptr | Remove ptr | Renew ptr TimerTask

fun do_call :: "task_call \<Rightarrow> 'a timers_scheme \<Rightarrow> 'a timers_scheme" where
  "do_call (Add p) s = addTask p s"
| "do_call (Remove p) s = removeTask p s"
| "do_call (Renew p t) s = addTask p (removeTask p (set_task p t s))"

fun log_call :: "task_call \<Rightarrow> ptr list \<Rightarrow> ptr list" where
  "log_call (Add p) ps = ps @ [p]"
| "log_call (Remove p) ps = removeAll p ps"
| "log_call (Renew p t) ps = removeAll p ps @ [p]"

lemma do_call_refines:
  assumes "taskList_m s = sort_key (exec_time s) ps"
  shows "taskList_m (do_call c s) = sort_key (exec_time (do_call c s)) (log_call c ps)"
proof (cases c)
  case (Renew p t)
  let ?k = "exec_time (set_task p t s)"
  have "sort_key (exec_time s) (removeAll p ps) = sort_key ?k (removeAll p ps)"
    by (rule sort_key_same) (auto simp: exec_time_set_task)
  then show ?thesis
    using assms Renew insert_task_sort_key [of ?k p "removeAll p ps"] by (simp add: removeAll_sort_key)
qed (use assms in \<open>simp_all add: insert_task_sort_key removeAll_sort_key\<close>)

text \<open>
  C12.  Whatever calls the conditions make, the list of tasks is the log of the pending ones sorted by the time of
  execution, where tasks with the same time keep the order in which they were added.
\<close>

theorem task_list_refines_log:
  fixes s :: "'a timers_scheme"
  assumes "taskList_m s = []"
  shows "let s' = foldl (\<lambda>s c. do_call c s) s cs
    in taskList_m s' = sort_key (exec_time s') (foldl (\<lambda>ps c. log_call c ps) [] cs)"
proof -
  have "taskList_m (foldl (\<lambda>s c. do_call c s) s cs) =
      sort_key (exec_time (foldl (\<lambda>s c. do_call c s) s cs)) (foldl (\<lambda>ps c. log_call c ps) ps cs)"
    if "taskList_m s = sort_key (exec_time s) ps" for s :: "'a timers_scheme" and ps
    using that
  proof (induction cs arbitrary: s ps)
    case (Cons c cs)
    then show ?case using do_call_refines [of s ps c] by simp
  qed simp
  then show ?thesis using assms by (simp add: Let_def)
qed

theorem task_list_refines_log_witness:
  "taskList_m (foldl (\<lambda>s c. do_call c s) \<lparr>taskList_m = [], tasks = (\<lambda>_. None)\<rparr>
     [Renew 1 (Counter (TimeCounter_new None\<lparr>execTime_m := 50\<rparr>)), Renew 2 (Counter (TimeCounter_new None\<lparr>execTime_m := 30\<rparr>)),
      Renew 3 (Counter (TimeCounter_new None\<lparr>execTime_m := 50\<rparr>)), Remove 4]) = [2, 1, 3]"
proof -
  define s :: timers where "s = \<lparr>taskList_m = [], tasks = (\<lambda>_. None)\<rparr>"
  let ?cs = "[Renew 1 (Counter (TimeCounter_new None\<lparr>execTime_m := 50\<rparr>)), Renew 2 (Counter (TimeCounter_new None\<lparr>execTime_m := 30\<rparr>)),
      Renew 3 (Counter (TimeCounter_new None\<lparr>execTime_m := 50\<rparr>)), Remove 4]"
  have "taskList_m s = []" by (simp add: s_def)
  from task_list_refines_log [OF this, of ?cs] show ?thesis unfolding s_def [symmetric] by (simp add: exec_time_set_task Let_def)
qed

section \<open>Catching up\<close>

text \<open>What a task does when its time has come, with callbacks that are only recorded.\<close>

definition record_call :: "listener \<Rightarrow> 's \<Rightarrow> 's outcome" where
  "record_call l s = ([OnChange l None], None, s)"

definition calls_of :: "listener option \<Rightarrow> effect list" where
  "calls_of cl = (case cl of None \<Rightarrow> [] | Some l \<Rightarrow> [OnChange l None])"

fun run_once :: "int \<Rightarrow> TimerTask \<Rightarrow> effect list \<times> TimerTask" where
  "run_once now t =
     (if getExecTime t \<le> now - 60 then ([], t)
      else case t of
        Counter c \<Rightarrow> (calls_of (tc_cl_m c), t)
      | Periodic p \<Rightarrow>
          if during_m p = 0 \<and> \<not> value_m p then (calls_of (pt_cl_m p) @ calls_of (pt_cl_m p), t)
          else (calls_of (pt_cl_m p), Periodic (p\<lparr>value_m := \<not> value_m p\<rparr>)))"

fun renewed :: "nat \<Rightarrow> schedule \<Rightarrow> int \<Rightarrow> TimerTask \<Rightarrow> TimerTask option" where
  "renewed n sc now (Periodic t) = map_option Periodic (next_schedule n sc now t)"
| "renewed n sc now (Counter t) = Some (Counter t)"

text \<open>The search for the next time returns, and finds nothing or a time that is later.\<close>

definition settles :: "nat \<Rightarrow> schedule \<Rightarrow> int \<Rightarrow> TimerTask \<Rightarrow> bool" where
  "settles n sc now t \<longleftrightarrow>
     (case renewed n sc now (snd (run_once now t)) of
        None \<Rightarrow> False
      | Some (Periodic u) \<Rightarrow> nextExecTime_m u = 0 \<or> now < nextExecTime_m u
      | Some (Counter u) \<Rightarrow> True)"

lemma set_same_task: "tasks s p = Some t \<Longrightarrow> set_task p t s = s"
  by (simp add: set_task_def fun_upd_idem)

lemma set_task_twice: "set_task p t (set_task p u s) = set_task p t s"
  by (simp add: set_task_def)

lemma notify_record: "notify record_call cl s = (calls_of cl, None, s)"
  by (simp add: notify_def record_call_def calls_of_def finish_def split: option.split)

lemma onTimer_recorded:
  assumes "tasks s p = Some t" and "now - 60 < getExecTime t"
  shows "onTimer record_call p s = (fst (run_once now t), None, set_task p (snd (run_once now t)) s)"
proof (cases t)
  case (Counter c)
  then show ?thesis using assms set_same_task [OF assms(1)] by (simp add: onTimer_def notify_record)
next
  case (Periodic u)
  have off: "set_task p (Periodic (u\<lparr>value_m := False\<rparr>)) s = s" if "\<not> value_m u"
  proof -
    have "u\<lparr>value_m := False\<rparr> = u" using that by (cases u) simp
    then show ?thesis using set_same_task [OF assms(1)] Periodic by simp
  qed
  show ?thesis
    using assms off set_same_task [OF assms(1)] Periodic
    by (auto simp: onTimer_def notify_record and_then_def finish_def set_task_twice)
qed

declare run_once.simps [simp del]

lemma reschedule_settled:
  fixes s :: "'a timers_scheme"
  assumes "tasks s p = Some u" and "renewed n sc now u = Some t'"
    and "case t' of Periodic v \<Rightarrow> nextExecTime_m v = 0 \<or> now < nextExecTime_m v | Counter v \<Rightarrow> True"
  obtains s' where "reschedule n sc now now p s = Some s'" "exec_time s' = (exec_time s)(p := getExecTime t')"
    "tasks s' = (tasks s)(p \<mapsto> t')"
    "taskList_m s' = taskList_m s \<or> now < getExecTime t' \<and> taskList_m s' = insert_task (exec_time s') p (taskList_m s)"
proof (cases u)
  case (Counter c)
  then have t: "t' = Counter c" using assms(2) by simp
  have same: "set_task p t' s = s" using assms(1) Counter t by (simp add: set_same_task)
  define s' where "s' = (if execTime_m c > now then addTask p s else s)"
  have "reschedule n sc now now p s = Some s'" using assms(1) Counter by (simp add: reschedule_def s'_def)
  moreover have "exec_time s' = (exec_time s)(p := getExecTime t')" "tasks s' = (tasks s)(p \<mapsto> t')"
    using assms(1) Counter t by (auto simp: s'_def exec_time_def fun_eq_iff)
  ultimately show ?thesis using that [of s'] t by (cases "now < execTime_m c") (simp_all add: s'_def)
next
  case (Periodic v)
  obtain w where w: "next_schedule n sc now v = Some w" "t' = Periodic w" using assms(2) Periodic by auto
  define s1 where "s1 = set_task p t' s"
  define s' where "s' = (if nextExecTime_m w \<noteq> 0 then addTask p s1 else s1)"
  have "reschedule n sc now now p s = Some s'" using assms(1) Periodic w by (simp add: reschedule_def s'_def s1_def Let_def)
  moreover have "exec_time s' = (exec_time s)(p := getExecTime t')" "tasks s' = (tasks s)(p \<mapsto> t')"
    by (auto simp: s'_def s1_def exec_time_set_task)
  ultimately show ?thesis using that [of s'] w assms(3) by (cases "nextExecTime_m w = 0") (simp_all add: s'_def s1_def)
qed

lemma insert_task_later: "\<forall>q \<in> set ds. key q \<le> key p \<Longrightarrow> insert_task key p (ds @ rs) = ds @ insert_task key p rs"
  by (induction ds) auto

lemma set_insert_task: "set (insert_task key p qs) = insert p (set qs)"
  by (induction qs) auto

lemma distinct_insert_task: "distinct (insert_task key p qs) \<longleftrightarrow> distinct qs \<and> p \<notin> set qs"
  by (induction qs) (auto simp: set_insert_task)

lemma check_due:
  fixes s :: "'a timers_scheme"
  assumes "taskList_m s = p # ds @ rs" and "distinct (p # ds @ rs)" and "tasks s p = Some t"
    and "getExecTime t \<le> now" and "settles n sc now t" and "\<forall>q \<in> set ds. exec_time s q \<le> now"
  obtains s' rs' where "checkTaskList n sc now record_call now s = Some (Immediate, fst (run_once now t), None, s')"
    "taskList_m s' = ds @ rs'" "distinct (ds @ rs')" "\<forall>q. q \<noteq> p \<longrightarrow> tasks s' q = tasks s q \<and> exec_time s' q = exec_time s q"
    "rs' = rs \<or> now < exec_time s' p \<and> set rs' = insert p (set rs)" "tasks s' p \<noteq> None"
proof -
  define u where "u = snd (run_once now t)"
  define s1 where "s1 = set_task p u s"
  have e: "exec_time s p = getExecTime t" using assms(3) by (simp add: exec_time_def)
  have run: "(if exec_time s p > now - 60 then onTimer record_call p s else finish s) = (fst (run_once now t), None, s1)"
  proof (cases "exec_time s p > now - 60")
    case True
    then show ?thesis using onTimer_recorded [OF assms(3)] e by (simp add: u_def s1_def)
  next
    case False
    then show ?thesis using e set_same_task [OF assms(3)] by (simp add: finish_def u_def s1_def run_once.simps)
  qed
  obtain t' where t': "renewed n sc now u = Some t'"
    "case t' of Periodic v \<Rightarrow> nextExecTime_m v = 0 \<or> now < nextExecTime_m v | Counter v \<Rightarrow> True"
    using assms(5) by (auto simp: settles_def u_def split: option.splits TimerTask.splits)
  define s2 where "s2 = s1\<lparr>taskList_m := ds @ rs\<rparr>"
  have s2: "tasks s2 p = Some u" by (simp add: s2_def s1_def)
  obtain s' where s': "reschedule n sc now now p s2 = Some s'" "exec_time s' = (exec_time s2)(p := getExecTime t')"
    "tasks s' = (tasks s2)(p \<mapsto> t')"
    "taskList_m s' = taskList_m s2 \<or> now < getExecTime t' \<and> taskList_m s' = insert_task (exec_time s') p (taskList_m s2)"
    using reschedule_settled [OF s2 t'] by metis
  have check: "checkTaskList n sc now record_call now s = Some (Immediate, fst (run_once now t), None, s')"
    using run s'(1) assms(1,4) e by (simp add: checkTaskList_def s2_def s1_def)
  have others: "\<forall>q. q \<noteq> p \<longrightarrow> tasks s' q = tasks s q \<and> exec_time s' q = exec_time s q"
    using s'(2,3) by (simp add: s2_def s1_def exec_time_set_task)
  have p: "exec_time s' p = getExecTime t'" "tasks s' p \<noteq> None" using s'(2,3) by simp_all
  show thesis
  proof (cases "taskList_m s' = taskList_m s2")
    case True
    then show ?thesis using that [of s' rs] check others p(2) assms(2) by (simp add: s2_def)
  next
    case False
    then have l: "now < getExecTime t'" "taskList_m s' = insert_task (exec_time s') p (ds @ rs)" using s'(4) by (auto simp: s2_def)
    have "\<forall>q \<in> set ds. exec_time s' q \<le> exec_time s' p" using assms(2,6) others l(1) p(1) by fastforce
    then have "taskList_m s' = ds @ insert_task (exec_time s') p rs" using l(2) by (simp add: insert_task_later)
    then show ?thesis
      using that [of s' "insert_task (exec_time s') p rs"] check others p l(1) assms(2)
      by (simp add: distinct_insert_task set_insert_task)
  qed
qed

lemma run_due:
  fixes s :: "'a timers_scheme"
  assumes "taskList_m s = ds @ rs" and "distinct (ds @ rs)"
    and "\<forall>p \<in> set ds. \<exists>t. tasks s p = Some t \<and> getExecTime t \<le> now \<and> settles n sc now t" and "\<forall>p \<in> set rs. now < exec_time s p"
  shows "\<exists>s' w. TimerManager_Run n sc record_call (replicate (Suc (length ds)) now) s =
      Some (replicate (length ds) 0 @ [w], concat (map (\<lambda>p. fst (run_once now (the (tasks s p)))) ds), None, s')
    \<and> (\<forall>p \<in> set (taskList_m s'). now < exec_time s' p) \<and> w = (if taskList_m s' = [] then 10 else 1)"
  using assms
proof (induction ds arbitrary: s rs)
  case Nil
  then show ?case by (cases rs) (auto simp: checkTaskList_def finish_def and_then_def)
next
  case (Cons p ds)
  obtain t where t: "tasks s p = Some t" "getExecTime t \<le> now" "settles n sc now t" using Cons.prems(3) by auto
  have due: "\<forall>q \<in> set ds. exec_time s q \<le> now" using Cons.prems(3) by (fastforce simp: exec_time_def)
  have "taskList_m s = p # ds @ rs" "distinct (p # ds @ rs)" using Cons.prems(1,2) by simp_all
  then obtain s1 rs1 where s1: "checkTaskList n sc now record_call now s = Some (Immediate, fst (run_once now t), None, s1)"
    "taskList_m s1 = ds @ rs1" "distinct (ds @ rs1)" "\<forall>q. q \<noteq> p \<longrightarrow> tasks s1 q = tasks s q \<and> exec_time s1 q = exec_time s q"
    "rs1 = rs \<or> now < exec_time s1 p \<and> set rs1 = insert p (set rs)"
    using t due by (rule check_due)
  have p: "p \<notin> set ds" "p \<notin> set rs" using Cons.prems(2) by auto
  have "\<forall>q \<in> set ds. \<exists>t. tasks s1 q = Some t \<and> getExecTime t \<le> now \<and> settles n sc now t"
    using Cons.prems(3) s1(4) p(1) by (metis list.set_intros(2))
  moreover have "\<forall>q \<in> set rs1. now < exec_time s1 q"
    using Cons.prems(4) s1(4,5) p(2) by (metis insert_iff)
  ultimately obtain s' w where IH: "TimerManager_Run n sc record_call (replicate (Suc (length ds)) now) s1 =
      Some (replicate (length ds) 0 @ [w], concat (map (\<lambda>p. fst (run_once now (the (tasks s1 p)))) ds), None, s')"
    "\<forall>p \<in> set (taskList_m s'). now < exec_time s' p" "w = (if taskList_m s' = [] then 10 else 1)"
    using Cons.IH [OF s1(2,3)] by blast
  have "concat (map (\<lambda>p. fst (run_once now (the (tasks s1 p)))) ds) = concat (map (\<lambda>p. fst (run_once now (the (tasks s p)))) ds)"
    using s1(4) p(1) by (intro arg_cong [of _ _ concat] map_cong) auto
  then show ?case using s1(1) IH t(1) by (intro exI [of _ s'] exI [of _ w]) (simp add: and_then_def)
qed


text \<open>
  Three tasks are due: one is an hour late and rescheduled in silence, two call their listeners.
\<close>

definition example_task :: "int \<Rightarrow> listener option \<Rightarrow> TimerTask" where
  "example_task time cl = Counter (TimeCounter_new cl\<lparr>execTime_m := time\<rparr>)"


section \<open>The first schedule\<close>

text \<open>A specification for which the search ends, without exceptions.\<close>

definition plain_spec :: "TimeSpec \<Rightarrow> bool" where
  "plain_spec ts \<longleftrightarrow> search_ends ts \<and> ts_exception ts = DontCare \<and> 0 \<le> ts_offset ts"

lemma first_after_unique: "first_after zone ts s t \<Longrightarrow> first_after zone ts s u \<Longrightarrow> t = u"
  by (metis first_after_def linorder_neqE)

lemma findNext_first:
  assumes "plain_spec ts" and "0 \<le> tm_year (next_minute (sc_zone sc) s)" and "first_after (sc_zone sc) ts s t"
  shows "\<exists>n. \<forall>k \<ge> n. findNext k sc s (Some ts) = Some (t + ts_offset ts)"
proof -
  have "t \<in> instant (sc_zone sc) ` points (sc_zone sc) ts s"
    using assms(3) fires_instant by (auto simp: first_after_def points_def elim!: fires_point)
  then have "points (sc_zone sc) ts s \<noteq> {}" by blast
  then obtain n X where X: "X \<in> points (sc_zone sc) ts s" "\<forall>Y \<in> points (sc_zone sc) ts s. lex_le X Y"
    "\<forall>k \<ge> n. findNext k sc s (Some ts) = Some (instant (sc_zone sc) X + ts_offset ts)"
    using search_returns [of ts sc s] assms(1,2) unfolding search_result_def plain_spec_def by blast
  then show ?thesis using first_after_unique [OF assms(3) first_point [OF X(1,2)]] by blast
qed

lemma findNext_never:
  assumes "plain_spec ts" and "0 \<le> tm_year (next_minute (sc_zone sc) s)" and "\<not> (\<exists>t > s. fires ts (localtime (sc_zone sc) t))"
  shows "\<exists>n. \<forall>k \<ge> n. findNext k sc s (Some ts) = Some 0"
proof -
  have "points (sc_zone sc) ts s = {}" using assms(3) fires_instant [of _ ts "sc_zone sc"] by (auto simp: points_def)
  then show ?thesis using search_returns [of ts sc s] assms(1,2) unfolding search_result_def plain_spec_def by blast
qed

text \<open>
   A timer with a start and an end guesses its value from its next times: when both are still to come it is on iff the
  end comes first, and it waits for the earlier of the two.  But when the end never comes again, it is on for ever and is
  not scheduled at all, although its start is still to come.
\<close>

theorem timer_first_schedule:
  assumes "plain_spec a" and "plain_spec u" and "0 \<le> tm_year (next_minute (sc_zone sc) now)" and "0 \<le> now"
    and "at_m t = Some a" and "until_m t = Some u" and "during_m t = - 1" and "after_m t = - 1" and "nextExecTime_m t = 0"
    and "first_after (sc_zone sc) a now start"
  shows
    "(first_after (sc_zone sc) u now stop \<longrightarrow>
       (\<exists>n. \<forall>k \<ge> n. next_schedule k sc now t =
         Some (t\<lparr>value_m := stop + ts_offset u < start + ts_offset a,
                 nextExecTime_m := min (stop + ts_offset u) (start + ts_offset a)\<rparr>)))
     \<and> (\<not> (\<exists>x > now. fires u (localtime (sc_zone sc) x)) \<longrightarrow>
       (\<exists>n. \<forall>k \<ge> n. next_schedule k sc now t = Some (t\<lparr>value_m := True, nextExecTime_m := 0\<rparr>)))"
proof -
  obtain na where na: "\<forall>k \<ge> na. findNext k sc now (Some a) = Some (start + ts_offset a)"
    using findNext_first [OF assms(1,3,10)] by blast
  have later: "0 < start + ts_offset a" using assms(1,4,10) by (simp add: plain_spec_def first_after_def)
  have A: "\<exists>n. \<forall>k \<ge> n. next_schedule k sc now t =
         Some (t\<lparr>value_m := stop + ts_offset u < start + ts_offset a,
                 nextExecTime_m := min (stop + ts_offset u) (start + ts_offset a)\<rparr>)"
    if f: "first_after (sc_zone sc) u now stop"
  proof -
    obtain nu where nu: "\<forall>k \<ge> nu. findNext k sc now (Some u) = Some (stop + ts_offset u)"
      using findNext_first [OF assms(2,3) f] by blast
    show ?thesis
      using na nu assms(5-9) by (intro exI [of _ "max na nu"]) (auto simp: next_schedule_def first_schedule_def min_def)
  qed
  have B: "\<exists>n. \<forall>k \<ge> n. next_schedule k sc now t = Some (t\<lparr>value_m := True, nextExecTime_m := 0\<rparr>)"
    if f: "\<not> (\<exists>x > now. fires u (localtime (sc_zone sc) x))"
  proof -
    obtain nu where nu: "\<forall>k \<ge> nu. findNext k sc now (Some u) = Some 0"
      using findNext_never [OF assms(2,3) f] by blast
    show ?thesis
      using na nu assms(5-9) later by (intro exI [of _ "max na nu"]) (auto simp: next_schedule_def first_schedule_def)
  qed
  show ?thesis using A B by blast
qed

text \<open>Every minute, from a second before a whole minute.\<close>

theorem timer_first_schedule_witness:
  "\<exists>n. \<forall>k \<ge> n. next_schedule k \<lparr>sc_zone = 0, sc_values = (\<lambda>_. None), sc_sun = (\<lambda>_ _ _ _. (0, 0)), sc_days = []\<rparr> 1640000039
     (PeriodicTask_new None\<lparr>at_m := Some (TimeSpec_of_date (- 1) (- 1) (- 1) (- 1) (- 1) 30),
                            until_m := Some (TimeSpec_of_date (- 1) (- 1) (- 1) (- 1) (- 1) 0), during_m := - 1\<rparr>) =
     Some (PeriodicTask_new None\<lparr>at_m := Some (TimeSpec_of_date (- 1) (- 1) (- 1) (- 1) (- 1) 30),
                            until_m := Some (TimeSpec_of_date (- 1) (- 1) (- 1) (- 1) (- 1) 0), during_m := - 1,
                            value_m := True, nextExecTime_m := 1640000040\<rparr>)"
proof -
  let ?sc = "\<lparr>sc_zone = 0, sc_values = (\<lambda>_. None), sc_sun = (\<lambda>_ _ _ _. (0, 0)), sc_days = []\<rparr> :: schedule"
  let ?a = "TimeSpec_of_date (- 1) (- 1) (- 1) (- 1) (- 1) 30" and ?u = "TimeSpec_of_date (- 1) (- 1) (- 1) (- 1) (- 1) 0"
  let ?t = "PeriodicTask_new None\<lparr>at_m := Some ?a, until_m := Some ?u, during_m := - 1\<rparr>"
  have s: "plain_spec ?a" "plain_spec ?u" "ts_offset ?a = 30" "ts_offset ?u = 0"
    by (simp_all add: plain_spec_def TimeSpec_of_date_def TimeSpec_new_def search_ends_def TimeSpec_isValid_def)
  have y: "0 \<le> tm_year (next_minute (sc_zone ?sc) 1640000039)" by (simp add: next_minute) code_simp
  have z: "tm_sec (localtime 0 1640000040) = 0" by code_simp
  have f: "first_after (sc_zone ?sc) ts 1640000039 1640000040" if "ts = ?a \<or> ts = ?u" for ts
    using that z by (auto simp: first_after_def fires_def TimeSpec_of_date_def TimeSpec_new_def)
  have t: "at_m ?t = Some ?a" "until_m ?t = Some ?u" "during_m ?t = - 1" "after_m ?t = - 1" "nextExecTime_m ?t = 0"
    by (simp_all add: PeriodicTask_new_def)
  have "(0 :: int) \<le> 1640000039" by simp
  note r = timer_first_schedule [OF s(1,2) y this t f, of 1640000040]
  have "\<exists>n. \<forall>k \<ge> n. next_schedule k ?sc 1640000039 ?t =
      Some (?t\<lparr>value_m := 1640000040 + ts_offset ?u < 1640000040 + ts_offset ?a,
              nextExecTime_m := min (1640000040 + ts_offset ?u) (1640000040 + ts_offset ?a)\<rparr>)"
    using r f [of ?u] by blast
  then show ?thesis unfolding s(3,4) by (simp add: PeriodicTask_new_def)
qed

end
