(* ===== verification/Engine.thy ===== *)
theory Engine
  imports Timer_Laws
begin

text \<open>
  What conditions, actions and rules work on: the objects, the timers, the reference values of the threshold
  conditions, and a supply of pointers; with the results of operations that return a value, and the access to
  objects by pointer and by ID.
\<close>

section \<open>State\<close>

record engine = timers +
  objects :: ObjectController
  refValue_m :: "ptr \<Rightarrow> rat"
  next_id :: ptr

text \<open>
  What an operation is given from outside: the services, the telegrams that arrive while an object is being read, what
  \<open>time (0)\<close> returns, the time zone, the position of the sun and the exception days, the fuel for a search, and the
  value and the export of the conditions that are not modelled, by their configuration, whether the connection to
  the bus is ready, and \<open>pow\<close> of the mathematical library.
\<close>

record inputs =
  in_sv :: services
  in_arrivals :: "ptr \<Rightarrow> arrival list"
  in_now :: int
  in_schedule :: schedule
  in_fuel :: nat
  in_foreign :: "xml \<Rightarrow> bool"
  in_foreign_xml :: "xml \<Rightarrow> xml \<Rightarrow> xml"
  in_ready :: bool
  in_pow :: "rat \<Rightarrow> rat \<Rightarrow> rat"

text \<open>The schedule reads the objects of the state.\<close>

definition schedule_of :: "inputs \<Rightarrow> 'a engine_scheme \<Rightarrow> schedule" where
  "schedule_of i s = (in_schedule i)\<lparr>sc_values := (\<lambda>p. map_option obj_value (heap (objects s) p))\<rparr>"

section \<open>Operations that return a value\<close>

text \<open>The effects, the value or the exception, and the state.\<close>

type_synonym ('v, 's) run = "effect list \<times> 'v result \<times> 's"

definition return :: "'v \<Rightarrow> 's \<Rightarrow> ('v, 's) run" where
  "return v s = ([], Inr v, s)"

definition fail :: "exn \<Rightarrow> 's \<Rightarrow> ('v, 's) run" where
  "fail e s = ([], Inl e, s)"

definition bind :: "('v, 's) run \<Rightarrow> ('v \<Rightarrow> 's \<Rightarrow> ('w, 's) run) \<Rightarrow> ('w, 's) run" where
  "bind r f =
     (case r of
        (effs, Inl e, s) \<Rightarrow> (effs, Inl e, s)
      | (effs, Inr v, s) \<Rightarrow> (case f v s of (effs', w, s') \<Rightarrow> (effs @ effs', w, s')))"

definition value_of :: "'s outcome \<Rightarrow> 'v \<Rightarrow> ('v, 's) run" where
  "value_of r v = (case r of (effs, None, s) \<Rightarrow> (effs, Inr v, s) | (effs, Some e, s) \<Rightarrow> (effs, Inl e, s))"

definition outcome_of :: "('v, 's) run \<Rightarrow> 's outcome" where
  "outcome_of r = (case r of (effs, Inl e, s) \<Rightarrow> (effs, Some e, s) | (effs, Inr v, s) \<Rightarrow> (effs, None, s))"

definition from_result :: "'v result \<Rightarrow> 's \<Rightarrow> ('v, 's) run" where
  "from_result r s = ([], r, s)"

lemma bind_simps [simp]:
  "bind (return v s) f = f v s" "bind (fail e s) f = fail e s" "bind ([], Inr v, s) f = f v s" "bind (effs, Inl e, s) f = (effs, Inl e, s)"
  by (simp_all add: bind_def return_def fail_def)

lemma value_of_simps [simp]: "value_of (finish s) v = return v s" "value_of (throw e s) v = fail e s"
  by (simp_all add: value_of_def finish_def throw_def return_def fail_def)

lemma outcome_of_simps [simp]: "outcome_of (return v s) = finish s" "outcome_of (fail e s) = throw e s"
  by (simp_all add: outcome_of_def finish_def throw_def return_def fail_def)

lemma from_result_simps [simp]: "from_result (Inr v) s = return v s" "from_result (Inl e) s = fail e s"
  by (simp_all add: from_result_def return_def fail_def)

text \<open>\<open>bind\<close> continues with the run of the first operation; congruence for the termination of recursive ones.\<close>

lemma bind_cong [fundef_cong]:
  assumes "r = r'" and "\<And>effs v s. r' = (effs, Inr v, s) \<Longrightarrow> f v s = f' v s"
  shows "bind r f = bind r' f'"
  using assms by (cases r') (auto simp: bind_def split: sum.split)

section \<open>Objects\<close>

definition on_objects :: "(ObjectController \<Rightarrow> ObjectController outcome) \<Rightarrow> 'a engine_scheme \<Rightarrow> 'a engine_scheme outcome" where
  "on_objects f s = (case f (objects s) of (effs, e, oc) \<Rightarrow> (effs, e, s\<lparr>objects := oc\<rparr>))"

definition the_object :: "ptr \<Rightarrow> 'a engine_scheme \<Rightarrow> (Object, 'a engine_scheme) run" where
  "the_object p s = (case heap (objects s) p of None \<Rightarrow> fail Null_deref s | Some obj \<Rightarrow> return obj s)"

definition call :: "ptr \<Rightarrow> (Object \<Rightarrow> Object outcome) \<Rightarrow> 'a engine_scheme \<Rightarrow> (unit, 'a engine_scheme) run" where
  "call p f s = value_of (on_objects (call_object p f) s) ()"

text \<open>\<open>object->get ()\<close>: the value, after the read it may cause.\<close>

definition get_value :: "inputs \<Rightarrow> ptr \<Rightarrow> 'a engine_scheme \<Rightarrow> (ObjectValue, 'a engine_scheme) run" where
  "get_value i p s =
     bind (call p (get (in_sv i) (in_arrivals i p)) s) (\<lambda>_ s.
     bind (the_object p s) (\<lambda>obj. return (obj_value obj)))"

text \<open>\<open>ObjectController::instance ()->getObject (id)\<close>\<close>

definition lookup :: "string \<Rightarrow> 'a engine_scheme \<Rightarrow> (ptr, 'a engine_scheme) run" where
  "lookup oid s =
     (case getObject oid (objects s) of
        (r, None) \<Rightarrow> (case on_objects (\<lambda>_. r) s of (effs, e, s') \<Rightarrow> (effs, Inl (case e of None \<Rightarrow> Null_deref | Some e \<Rightarrow> e), s'))
      | (r, Some p) \<Rightarrow> value_of (on_objects (\<lambda>_. r) s) p)"

definition release :: "ptr \<Rightarrow> 'a engine_scheme \<Rightarrow> (unit, 'a engine_scheme) run" where
  "release p s = call p (\<lambda>obj. case decRefCount obj of None \<Rightarrow> throw Null_deref obj | Some obj' \<Rightarrow> finish obj') s"

definition listen :: "listener \<Rightarrow> ptr \<Rightarrow> 'a engine_scheme \<Rightarrow> (unit, 'a engine_scheme) run" where
  "listen l p s = call p (\<lambda>obj. finish (addChangeListener l obj)) s"

text \<open>A new pointer.\<close>

definition new_id :: "'a engine_scheme \<Rightarrow> (ptr, 'a engine_scheme) run" where
  "new_id s = return (next_id s) (s\<lparr>next_id := next_id s + 1\<rparr>)"

definition attribute_double :: "xml \<Rightarrow> string \<Rightarrow> rat \<Rightarrow> rat result" where
  "attribute_double cfg name d =
     (case attribute cfg name of
        None \<Rightarrow> Inr d
      | Some s \<Rightarrow> (case get_float 53 s of None \<Rightarrow> Inl (Bad_config s) | Some (x, _) \<Rightarrow> Inr x))"

definition attribute_float :: "xml \<Rightarrow> string \<Rightarrow> rat \<Rightarrow> rat result" where
  "attribute_float cfg name d =
     (case attribute cfg name of
        None \<Rightarrow> Inr d
      | Some s \<Rightarrow> (case get_float 24 s of None \<Rightarrow> Inl (Bad_config s) | Some (x, _) \<Rightarrow> Inr x))"

text \<open>\<open>GetAttribute (name, &value)\<close> for a string, an \<open>int\<close> and an \<open>unsigned int\<close>: a missing attribute throws.\<close>

definition need_attribute :: "xml \<Rightarrow> string \<Rightarrow> string result" where
  "need_attribute cfg name = (case attribute cfg name of None \<Rightarrow> Inl (Missing_element name) | Some s \<Rightarrow> Inr s)"

definition need_int :: "xml \<Rightarrow> string \<Rightarrow> int result" where
  "need_int cfg name =
     (case attribute cfg name of
        None \<Rightarrow> Inl (Missing_element name)
      | Some s \<Rightarrow> (case get_int s of None \<Rightarrow> Inl (Bad_config s) | Some (i, _) \<Rightarrow> Inr i))"

definition need_unsigned :: "xml \<Rightarrow> string \<Rightarrow> int result" where
  "need_unsigned cfg name =
     (case attribute cfg name of
        None \<Rightarrow> Inl (Missing_element name)
      | Some s \<Rightarrow> (case get_unsigned 32 10 s of None \<Rightarrow> Inl (Bad_config s) | Some (i, _) \<Rightarrow> Inr i))"

end
