(* ===== verification/Conditions.thy ===== *)
theory Conditions
  imports Engine
begin

text \<open>
  The conditions of src/ruleserver.h and .cpp: their construction from the configuration, their evaluation
  and their export.  The conditions of src/ioport.cpp and src/luacondition.cpp are foreign: they
  keep their configuration, and their value is an input.
\<close>

section \<open>State\<close>

text \<open>\<open>op_m\<close> is a set of the bits 1 (equal), 2 (greater) and 4 (less).\<close>

record object_cond =
  cd_object :: ptr
  cd_value :: "ObjectValue option"
  cd_op :: int
  cd_trigger :: bool

record threshold_cond = object_cond +
  deltaUp_m :: rat
  deltaLow_m :: rat
  cd_ref :: ptr

datatype InitialValue = initValTrue | initValFalse | initValGuess

datatype condition =
    AndCondition "condition list"
  | OrCondition "condition list"
  | NotCondition condition
  | ObjectCondition object_cond
  | ObjectComparisonCondition object_cond ptr
  | ObjectSourceCondition eibaddr_t object_cond
  | ObjectThresholdCondition threshold_cond condition
  | TimerCondition ptr bool InitialValue
  | TimeCounterCondition ptr condition
  | ForeignCondition xml

definition eq :: int where "eq = 1"
definition gt :: int where "gt = 2"
definition lt :: int where "lt = 4"

lemmas op_defs = eq_def gt_def lt_def

definition holds :: "int \<Rightarrow> int \<Rightarrow> bool" where
  "holds op res \<longleftrightarrow> op AND eq \<noteq> 0 \<and> res = 0 \<or> op AND lt \<noteq> 0 \<and> res = - 1 \<or> op AND gt \<noteq> 0 \<and> res = 1"

section \<open>Evaluation\<close>

definition ObjectCondition_evaluate :: "inputs \<Rightarrow> object_cond \<Rightarrow> 'a engine_scheme \<Rightarrow> (bool, 'a engine_scheme) run" where
  "ObjectCondition_evaluate i c s =
     (case cd_value c of
        None \<Rightarrow> return True s
      | Some v \<Rightarrow> bind (get_value i (cd_object c) s) (\<lambda>w. return (holds (cd_op c) (ov_compare (env.truncate (in_sv i)) w v))))"

definition ObjectComparisonCondition_evaluate ::
    "inputs \<Rightarrow> object_cond \<Rightarrow> ptr \<Rightarrow> 'a engine_scheme \<Rightarrow> (bool, 'a engine_scheme) run" where
  "ObjectComparisonCondition_evaluate i c p s =
     bind (get_value i (cd_object c) s) (\<lambda>v s.
     bind (get_value i p s) (\<lambda>w. return (holds (cd_op c) (ov_compare (env.truncate (in_sv i)) v w))))"

definition ObjectSourceCondition_evaluate ::
    "inputs \<Rightarrow> eibaddr_t \<Rightarrow> object_cond \<Rightarrow> 'a engine_scheme \<Rightarrow> (bool, 'a engine_scheme) run" where
  "ObjectSourceCondition_evaluate i src c s =
     bind (the_object (cd_object c) s) (\<lambda>obj s.
       if src = lastTx_m obj then ObjectCondition_evaluate i c s else return False s)"

text \<open>The threshold, once the condition that resets it has the value \<open>val\<close>.\<close>

definition threshold_step :: "inputs \<Rightarrow> threshold_cond \<Rightarrow> bool \<Rightarrow> 'a engine_scheme \<Rightarrow> (bool, 'a engine_scheme) run" where
  "threshold_step i c val s =
     bind (get_value i (cd_object c) s) (\<lambda>v s.
       if val then return False (s\<lparr>refValue_m := (refValue_m s)(cd_ref c := ov_toNumber v)\<rparr>)
       else
         (let delta = fl 53 (ov_toNumber v - refValue_m s (cd_ref c)) in
          if deltaUp_m c \<ge> 0 \<and> delta > deltaUp_m c then return True s
          else if deltaLow_m c \<ge> 0 \<and> delta < - deltaLow_m c then return True s
          else return False s))"

text \<open>
  The time counter, once its condition has the value \<open>val\<close>: its value, its new state, and whether the task is
  taken out and scheduled again.
\<close>

definition counter_step :: "int \<Rightarrow> bool \<Rightarrow> TimeCounter \<Rightarrow> bool \<times> TimeCounter \<times> bool" where
  "counter_step now val t =
     (let t1 = (if lastVal_m t \<and> counter_m t < threshold_m t then t\<lparr>counter_m := counter_m t + (now - lastTime_m t)\<rparr> else t);
          (t2, renew) =
            (if val then
               (let t2 = t1\<lparr>lastTime_m := now, lastVal_m := True\<rparr> in
                if counter_m t2 < threshold_m t2
                then (t2\<lparr>execTime_m := now + (threshold_m t2 - counter_m t2) + 1\<rparr>, True) else (t2, False))
             else if lastVal_m t1 then
               (t1\<lparr>lastTime_m := now, lastVal_m := False, execTime_m := now + resetDelay_m t1 + 1\<rparr>, True)
             else (t1, False))
      in if \<not> lastVal_m t2 \<and> lastTime_m t2 > 0 \<and> now - lastTime_m t2 > resetDelay_m t2 \<or> lastTime_m t2 = 0
         then (False, t2\<lparr>counter_m := 0, lastTime_m := 0\<rparr>, renew)
         else (counter_m t2 \<ge> threshold_m t2, t2, renew))"

definition TimeCounterCondition_step :: "inputs \<Rightarrow> ptr \<Rightarrow> bool \<Rightarrow> 'a engine_scheme \<Rightarrow> (bool, 'a engine_scheme) run" where
  "TimeCounterCondition_step i p val s =
     (case tasks s p of
        Some (Counter t) \<Rightarrow>
          (case counter_step (in_now i) val t of
             (r, t', renew) \<Rightarrow>
               (let s' = set_task p (Counter t') s in
                if renew then
                  (case reschedule (in_fuel i) (schedule_of i s') (in_now i) 0 p (removeTask p s') of
                     None \<Rightarrow> fail No_return s'
                   | Some s'' \<Rightarrow> return r s'')
                else return r s'))
      | _ \<Rightarrow> fail Null_deref s)"

fun evaluate :: "inputs \<Rightarrow> condition \<Rightarrow> 'a engine_scheme \<Rightarrow> (bool, 'a engine_scheme) run"
  and evaluate_and :: "inputs \<Rightarrow> condition list \<Rightarrow> 'a engine_scheme \<Rightarrow> (bool, 'a engine_scheme) run"
  and evaluate_or :: "inputs \<Rightarrow> condition list \<Rightarrow> 'a engine_scheme \<Rightarrow> (bool, 'a engine_scheme) run" where
  "evaluate i (AndCondition cs) s = evaluate_and i cs s"
| "evaluate i (OrCondition cs) s = evaluate_or i cs s"
| "evaluate i (NotCondition c) s = bind (evaluate i c s) (\<lambda>b. return (\<not> b))"
| "evaluate i (ObjectCondition c) s = ObjectCondition_evaluate i c s"
| "evaluate i (ObjectComparisonCondition c p) s = ObjectComparisonCondition_evaluate i c p s"
| "evaluate i (ObjectSourceCondition src c) s = ObjectSourceCondition_evaluate i src c s"
| "evaluate i (ObjectThresholdCondition t c) s = bind (evaluate i c s) (threshold_step i t)"
| "evaluate i (TimerCondition p trigger init) s =
     (case tasks s p of Some (Periodic t) \<Rightarrow> return (value_m t) s | _ \<Rightarrow> fail Null_deref s)"
| "evaluate i (TimeCounterCondition p c) s = bind (evaluate i c s) (TimeCounterCondition_step i p)"
| "evaluate i (ForeignCondition cfg) s = return (in_foreign i cfg) s"
| "evaluate_and i [] s = return True s"
| "evaluate_and i (c # cs) s = bind (evaluate i c s) (\<lambda>b s. if b then evaluate_and i cs s else return False s)"
| "evaluate_or i [] s = return False s"
| "evaluate_or i (c # cs) s = bind (evaluate i c s) (\<lambda>b s. if b then return True s else evaluate_or i cs s)"

section \<open>Export\<close>

definition op_name :: "int \<Rightarrow> string" where
  "op_name op =
     (if op = lt then ''lt'' else if op = gt then ''gt'' else if op = lt OR eq then ''lte''
      else if op = gt OR eq then ''gte'' else ''ne'')"

definition export_op :: "int \<Rightarrow> xml \<Rightarrow> xml" where
  "export_op op e = (if op \<noteq> eq then SetAttribute ''op'' (op_name op) e else e)"

definition export_trigger :: "bool \<Rightarrow> xml \<Rightarrow> xml" where
  "export_trigger trigger e = (if trigger then SetAttribute ''trigger'' ''true'' e else e)"

definition ObjectCondition_exportXml :: "inputs \<Rightarrow> ObjectController \<Rightarrow> object_cond \<Rightarrow> xml \<Rightarrow> xml" where
  "ObjectCondition_exportXml i oc c e =
     (let e = SetAttribute ''id'' (object_id oc (cd_object c)) (SetAttribute ''type'' ''object'' e);
          e = export_op (cd_op c) e;
          e = (case cd_value c of None \<Rightarrow> e | Some v \<Rightarrow> SetAttribute ''value'' (ov_toString (env.truncate (in_sv i)) v) e)
      in export_trigger (cd_trigger c) e)"

definition ObjectComparisonCondition_exportXml :: "ObjectController \<Rightarrow> object_cond \<Rightarrow> ptr \<Rightarrow> xml \<Rightarrow> xml" where
  "ObjectComparisonCondition_exportXml oc c p e =
     export_trigger (cd_trigger c) (export_op (cd_op c)
       (SetAttribute ''id2'' (object_id oc p) (SetAttribute ''id'' (object_id oc (cd_object c)) (SetAttribute ''type'' ''object-compare'' e))))"

definition ObjectSourceCondition_exportXml :: "inputs \<Rightarrow> ObjectController \<Rightarrow> eibaddr_t \<Rightarrow> object_cond \<Rightarrow> xml \<Rightarrow> xml" where
  "ObjectSourceCondition_exportXml i oc src c e =
     SetAttribute ''src'' (WriteAddr src) (SetAttribute ''type'' ''object-src'' (ObjectCondition_exportXml i oc c e))"

definition TimerCondition_exportXml :: "ObjectController \<Rightarrow> PeriodicTask \<Rightarrow> bool \<Rightarrow> InitialValue \<Rightarrow> xml \<Rightarrow> xml" where
  "TimerCondition_exportXml oc t trigger init e =
     (let e = export_trigger trigger (SetAttribute ''type'' ''timer'' e);
          e = (case init of initValTrue \<Rightarrow> SetAttribute ''initval'' ''true'' e
               | initValFalse \<Rightarrow> SetAttribute ''initval'' ''false'' e | initValGuess \<Rightarrow> e);
          e = (if after_m t = - 1 then
                 LinkEndChild (case at_m t of None \<Rightarrow> Element ''at'' [] []
                               | Some ts \<Rightarrow> TimeSpec_exportXml_virtual oc ts (Element ''at'' [] [])) e
               else LinkEndChild (SetText (formatDuration (if during_m t > 0 then after_m t + during_m t else after_m t) False)
                      (Element ''every'' [] [])) e)
      in if during_m t = - 1 then
           LinkEndChild (case until_m t of None \<Rightarrow> Element ''until'' [] []
                         | Some ts \<Rightarrow> TimeSpec_exportXml_virtual oc ts (Element ''until'' [] [])) e
         else if during_m t \<noteq> 0 then
           LinkEndChild (SetText (formatDuration (during_m t) False) (Element ''during'' [] [])) e
         else e)"

definition export_duration :: "string \<Rightarrow> int \<Rightarrow> xml \<Rightarrow> xml" where
  "export_duration name d e = (if d \<noteq> 0 then SetAttribute name (formatDuration d False) e else e)"

fun Condition_exportXml :: "inputs \<Rightarrow> 'a engine_scheme \<Rightarrow> condition \<Rightarrow> xml \<Rightarrow> xml"
  and export_conditions :: "inputs \<Rightarrow> 'a engine_scheme \<Rightarrow> condition list \<Rightarrow> xml \<Rightarrow> xml" where
  "Condition_exportXml i s (AndCondition cs) e = export_conditions i s cs (SetAttribute ''type'' ''and'' e)"
| "Condition_exportXml i s (OrCondition cs) e = export_conditions i s cs (SetAttribute ''type'' ''or'' e)"
| "Condition_exportXml i s (NotCondition c) e =
     LinkEndChild (Condition_exportXml i s c (Element ''condition'' [] [])) (SetAttribute ''type'' ''not'' e)"
| "Condition_exportXml i s (ObjectCondition c) e = ObjectCondition_exportXml i (objects s) c e"
| "Condition_exportXml i s (ObjectComparisonCondition c p) e = ObjectComparisonCondition_exportXml (objects s) c p e"
| "Condition_exportXml i s (ObjectSourceCondition src c) e = ObjectSourceCondition_exportXml i (objects s) src c e"
| "Condition_exportXml i s (ObjectThresholdCondition t c) e =
     (let e = SetAttribute ''type'' ''threshold'' e;
          e = (if deltaUp_m t \<ge> 0 then SetAttribute ''delta-up'' (fmt_g 6 (deltaUp_m t)) e else e);
          e = (if deltaLow_m t \<ge> 0 then SetAttribute ''delta-low'' (fmt_g 6 (deltaLow_m t)) e else e);
          e = LinkEndChild (Condition_exportXml i s c (Element ''resetcondition'' [] [])) e;
          e = SetAttribute ''id'' (object_id (objects s) (cd_object t)) e
      in export_trigger (cd_trigger t) (export_op (cd_op t) e))"
| "Condition_exportXml i s (TimerCondition p trigger init) e =
     (case tasks s p of Some (Periodic t) \<Rightarrow> TimerCondition_exportXml (objects s) t trigger init e | _ \<Rightarrow> e)"
| "Condition_exportXml i s (TimeCounterCondition p c) e =
     (let e = SetAttribute ''type'' ''time-counter'' e;
          e = (case tasks s p of
                 Some (Counter t) \<Rightarrow> export_duration ''reset-delay'' (resetDelay_m t) (export_duration ''threshold'' (threshold_m t) e)
               | _ \<Rightarrow> e)
      in LinkEndChild (Condition_exportXml i s c (Element ''condition'' [] [])) e)"
| "Condition_exportXml i s (ForeignCondition cfg) e = in_foreign_xml i cfg e"
| "export_conditions i s [] e = e"
| "export_conditions i s (c # cs) e =
     export_conditions i s cs (LinkEndChild (Condition_exportXml i s c (Element ''condition'' [] [])) e)"

section \<open>Status\<close>

definition ObjectCondition_statusXml :: "inputs \<Rightarrow> object_cond \<Rightarrow> xml \<Rightarrow> 'a engine_scheme \<Rightarrow> (xml, 'a engine_scheme) run" where
  "ObjectCondition_statusXml i c e s =
     bind (get_value i (cd_object c) s) (\<lambda>v s. return
       (export_trigger (cd_trigger c)
          (SetAttribute ''value'' (ov_toString (env.truncate (in_sv i)) v)
             (SetAttribute ''id'' (object_id (objects s) (cd_object c)) (SetAttribute ''type'' ''object'' e)))) s)"

fun Condition_statusXml ::
    "inputs \<Rightarrow> (listener \<Rightarrow> string) \<Rightarrow> condition \<Rightarrow> xml \<Rightarrow> 'a engine_scheme \<Rightarrow> (xml, 'a engine_scheme) run"
  and status_conditions ::
    "inputs \<Rightarrow> (listener \<Rightarrow> string) \<Rightarrow> condition list \<Rightarrow> xml \<Rightarrow> 'a engine_scheme \<Rightarrow> (xml, 'a engine_scheme) run" where
  "Condition_statusXml i ids (AndCondition cs) e s = status_conditions i ids cs (SetAttribute ''type'' ''and'' e) s"
| "Condition_statusXml i ids (OrCondition cs) e s = status_conditions i ids cs (SetAttribute ''type'' ''or'' e) s"
| "Condition_statusXml i ids (NotCondition c) e s = status_conditions i ids [c] (SetAttribute ''type'' ''not'' e) s"
| "Condition_statusXml i ids (ObjectCondition c) e s = ObjectCondition_statusXml i c e s"
| "Condition_statusXml i ids (ObjectComparisonCondition c p) e s =
     return (export_trigger (cd_trigger c)
       (SetAttribute ''id2'' (object_id (objects s) p)
          (SetAttribute ''id'' (object_id (objects s) (cd_object c)) (SetAttribute ''type'' ''object-compare'' e)))) s"
| "Condition_statusXml i ids (ObjectSourceCondition src c) e s =
     bind (ObjectCondition_statusXml i c e s) (\<lambda>e. return (SetAttribute ''type'' ''object-src'' e))"
| "Condition_statusXml i ids (ObjectThresholdCondition t c) e s =
     bind (status_conditions i ids [c] (SetAttribute ''type'' ''threshold'' e) s) (\<lambda>e s. return
       (export_trigger (cd_trigger t) (SetAttribute ''id'' (object_id (objects s) (cd_object t)) e)) s)"
| "Condition_statusXml i ids (TimerCondition p trigger init) e s =
     (case tasks s p of
        Some (Periodic t) \<Rightarrow>
          return (PeriodicTask_statusXml (sc_zone (in_schedule i)) ids t
            (export_trigger trigger (SetAttribute ''type'' ''timer'' e))) s
      | _ \<Rightarrow> fail Null_deref s)"
| "Condition_statusXml i ids (TimeCounterCondition p c) e s =
     (case tasks s p of
        Some (Counter t) \<Rightarrow>
          status_conditions i ids [c]
            (SetAttribute ''counter'' (show_int (counter_m t))
               (FixedTimeTask_statusXml (sc_zone (in_schedule i)) t (SetAttribute ''type'' ''time-counter'' e))) s
      | _ \<Rightarrow> fail Null_deref s)"
| "Condition_statusXml i ids (ForeignCondition cfg) e s = return (in_foreign_xml i cfg e) s"
| "status_conditions i ids [] e s = return e s"
| "status_conditions i ids (c # cs) e s =
     bind (Condition_statusXml i ids c (Element ''condition'' [] []) s) (\<lambda>child. status_conditions i ids cs (LinkEndChild child e))"

section \<open>Construction\<close>

text \<open>\<open>op\<close>, and the trigger: it needs a listener to call.\<close>

definition parse_op :: "string \<Rightarrow> int result" where
  "parse_op op =
     (if op = '''' \<or> op = ''eq'' then Inr eq
      else if op = ''lt'' then Inr lt
      else if op = ''gt'' then Inr gt
      else if op = ''ne'' then Inr (lt OR gt)
      else if op = ''lte'' then Inr (lt OR eq)
      else if op = ''gte'' then Inr (gt OR eq)
      else Inl (Bad_operation op))"

fun set_trigger :: "listener option \<Rightarrow> string \<Rightarrow> ptr list \<Rightarrow> 'a engine_scheme \<Rightarrow> (bool, 'a engine_scheme) run" where
  "set_trigger cl trigger [] s =
     (if trigger = ''true'' then (case cl of None \<Rightarrow> fail Bad_trigger s | Some l \<Rightarrow> return True s) else return False s)"
| "set_trigger cl trigger (p # ps) s =
     (if trigger = ''true'' then
        (case cl of None \<Rightarrow> fail Bad_trigger s | Some l \<Rightarrow> bind (listen l p s) (\<lambda>_. set_trigger cl trigger ps))
      else return False s)"

definition create_value :: "inputs \<Rightarrow> string \<Rightarrow> ptr \<Rightarrow> 'a engine_scheme \<Rightarrow> (ObjectValue, 'a engine_scheme) run" where
  "create_value i text p s =
     bind (the_object p s) (\<lambda>obj. from_result (createObjectValue (env.truncate (in_sv i)) (obj_value obj) text))"

definition ObjectCondition_importXml ::
    "inputs \<Rightarrow> listener option \<Rightarrow> xml \<Rightarrow> 'a engine_scheme \<Rightarrow> (object_cond, 'a engine_scheme) run" where
  "ObjectCondition_importXml i cl cfg s =
     bind (lookup (GetAttribute cfg ''id'') s) (\<lambda>p s.
     bind (set_trigger cl (GetAttribute cfg ''trigger'') [p] s) (\<lambda>trigger s.
     bind (if GetAttribute cfg ''value'' \<noteq> '''' then
             bind (create_value i (GetAttribute cfg ''value'') p s) (\<lambda>v. return (Some v))
           else return None s) (\<lambda>value s.
     bind (from_result (parse_op (GetAttribute cfg ''op'')) s) (\<lambda>op s.
       return \<lparr>cd_object = p, cd_value = value, cd_op = op, cd_trigger = trigger\<rparr> s))))"

definition ObjectComparisonCondition_importXml ::
    "listener option \<Rightarrow> xml \<Rightarrow> 'a engine_scheme \<Rightarrow> (object_cond \<times> ptr, 'a engine_scheme) run" where
  "ObjectComparisonCondition_importXml cl cfg s =
     bind (lookup (GetAttribute cfg ''id'') s) (\<lambda>p s.
     bind (lookup (GetAttribute cfg ''id2'') s) (\<lambda>p2 s.
     bind (set_trigger cl (GetAttribute cfg ''trigger'') [p, p2] s) (\<lambda>trigger s.
     bind (from_result (parse_op (GetAttribute cfg ''op'')) s) (\<lambda>op s.
       return (\<lparr>cd_object = p, cd_value = None, cd_op = op, cd_trigger = trigger\<rparr>, p2) s))))"

text \<open>The parts of \<open>TimerCondition::importXml\<close>; the listener of a variable specification is the timer itself.\<close>

definition create_spec :: "listener \<Rightarrow> xml \<Rightarrow> 'a engine_scheme \<Rightarrow> (TimeSpec, 'a engine_scheme) run" where
  "create_spec l cfg s =
     (case TimeSpec_create (Some l) cfg (objects s) of
        (effs, e, (oc, ts)) \<Rightarrow> (effs, case e of None \<Rightarrow> Inr ts | Some e \<Rightarrow> Inl e, s\<lparr>objects := oc\<rparr>))"

definition text_duration :: "xml \<Rightarrow> int result" where
  "text_duration e = (case GetText e of None \<Rightarrow> Inl (Missing_element ''text'') | Some t \<Rightarrow> parseDuration t False False)"

definition import_start :: "ptr \<Rightarrow> xml \<Rightarrow> PeriodicTask \<Rightarrow> 'a engine_scheme \<Rightarrow> (PeriodicTask, 'a engine_scheme) run" where
  "import_start p cfg t s =
     (case (FirstChildElement ''at'' cfg, FirstChildElement ''every'' cfg) of
        (Some _, Some _) \<Rightarrow> fail (Bad_config ''every'') s
      | (Some e, None) \<Rightarrow> bind (create_spec p e s) (\<lambda>ts. return (t\<lparr>at_m := Some ts\<rparr>))
      | (None, Some every) \<Rightarrow> bind (from_result (text_duration every) s) (\<lambda>d. return (t\<lparr>after_m := d\<rparr>))
      | (None, None) \<Rightarrow> fail (Missing_element ''at'') s)"

definition import_end :: "ptr \<Rightarrow> xml \<Rightarrow> PeriodicTask \<Rightarrow> 'a engine_scheme \<Rightarrow> (PeriodicTask, 'a engine_scheme) run" where
  "import_end p cfg t s =
     (case (FirstChildElement ''during'' cfg, FirstChildElement ''until'' cfg) of
        (Some _, Some _) \<Rightarrow> fail (Bad_config ''until'') s
      | (Some during, None) \<Rightarrow>
          bind (from_result (text_duration during) s) (\<lambda>d s.
            let t = t\<lparr>during_m := d\<rparr> in
            if FirstChildElement ''every'' cfg \<noteq> None then
              (if after_m t > during_m t then return (t\<lparr>after_m := after_m t - during_m t\<rparr>) s
               else fail (Bad_config ''during'') s)
            else return t s)
      | (None, Some until) \<Rightarrow> bind (create_spec p until s) (\<lambda>ts. return (t\<lparr>until_m := Some ts, during_m := - 1\<rparr>))
      | (None, None) \<Rightarrow> return (t\<lparr>during_m := 0\<rparr>) s)"

definition parse_initval :: "string \<Rightarrow> InitialValue" where
  "parse_initval s = (if s = ''true'' then initValTrue else if s = ''false'' then initValFalse else initValGuess)"

definition set_initial :: "InitialValue \<Rightarrow> TimerTask \<Rightarrow> TimerTask" where
  "set_initial init t =
     (case t of
        Periodic t \<Rightarrow> Periodic (case init of initValTrue \<Rightarrow> t\<lparr>value_m := True\<rparr> | initValFalse \<Rightarrow> t\<lparr>value_m := False\<rparr> | initValGuess \<Rightarrow> t)
      | Counter t \<Rightarrow> Counter t)"

definition TimerCondition_importXml ::
    "inputs \<Rightarrow> listener option \<Rightarrow> xml \<Rightarrow> 'a engine_scheme \<Rightarrow> (condition, 'a engine_scheme) run" where
  "TimerCondition_importXml i cl cfg s =
     bind (new_id s) (\<lambda>p s.
     bind (set_trigger cl (GetAttribute cfg ''trigger'') [] s) (\<lambda>trigger s.
     bind (import_start p cfg (PeriodicTask_new (if trigger then cl else None)) s) (\<lambda>t s.
     bind (import_end p cfg t s) (\<lambda>t s.
       case reschedule (in_fuel i) (schedule_of i s) (in_now i) 0 p (set_task p (Periodic t) s) of
         None \<Rightarrow> fail No_return s
       | Some s \<Rightarrow>
           (let init = parse_initval (GetAttribute cfg ''initval'') in
            return (TimerCondition p trigger init)
              (case tasks s p of None \<Rightarrow> s | Some t \<Rightarrow> set_task p (set_initial init t) s))))))"

text \<open>\<open>Condition::create (pConfig, cl)\<close>, with the \<open>importXml\<close> of the class it chooses.\<close>

function (sequential) Condition_create ::
    "inputs \<Rightarrow> listener option \<Rightarrow> xml \<Rightarrow> 'a engine_scheme \<Rightarrow> (condition, 'a engine_scheme) run"
  and create_conditions ::
    "inputs \<Rightarrow> listener option \<Rightarrow> xml list \<Rightarrow> 'a engine_scheme \<Rightarrow> (condition list, 'a engine_scheme) run" where
  "Condition_create i cl cfg s =
     (let type = GetAttribute cfg ''type'' in
      if type = ''and'' \<or> type = ''or'' then
        (if elements ''condition'' cfg = [] then fail (Missing_element ''condition'') s
         else bind (create_conditions i cl (elements ''condition'' cfg) s) (\<lambda>cs.
                return (if type = ''and'' then AndCondition cs else OrCondition cs)))
      else if type = ''not'' then
        (case FirstChildElement ''condition'' cfg of
           None \<Rightarrow> fail (Missing_element ''condition'') s
         | Some child \<Rightarrow> bind (Condition_create i cl child s) (\<lambda>c. return (NotCondition c)))
      else if type = ''object'' then
        bind (ObjectCondition_importXml i cl cfg s) (\<lambda>c. return (ObjectCondition c))
      else if type = ''timer'' then TimerCondition_importXml i cl cfg s
      else if type = ''object-compare'' then
        bind (ObjectComparisonCondition_importXml cl cfg s) (\<lambda>(c, p). return (ObjectComparisonCondition c p))
      else if type = ''object-src'' then
        bind (from_result (ReadAddr (GetAttribute cfg ''src'')) s) (\<lambda>src s.
        bind (ObjectCondition_importXml i cl cfg s) (\<lambda>c. return (ObjectSourceCondition src c)))
      else if type = ''threshold'' then
        (if cl = None then fail Bad_trigger s
         else
           bind (from_result (attribute_double cfg ''delta-up'' (- 1)) s) (\<lambda>up s.
           bind (from_result (attribute_double cfg ''delta-low'' (- 1)) s) (\<lambda>low s.
             case FirstChildElement ''resetcondition'' cfg of
               None \<Rightarrow> fail (Missing_element ''resetcondition'') s
             | Some child \<Rightarrow>
                 bind (Condition_create i cl child s) (\<lambda>c s.
                 bind (lookup (GetAttribute cfg ''id'') s) (\<lambda>p s.
                 bind (set_trigger cl (GetAttribute cfg ''trigger'') [p] s) (\<lambda>trigger s.
                 bind (new_id s) (\<lambda>r s.
                   return (ObjectThresholdCondition
                     \<lparr>cd_object = p, cd_value = None, cd_op = eq, cd_trigger = trigger,
                      deltaUp_m = up, deltaLow_m = low, cd_ref = r\<rparr> c) (s\<lparr>refValue_m := (refValue_m s)(r := 0)\<rparr>))))))))
      else if type = ''time-counter'' then
        (if cl = None then fail Bad_trigger s
         else
           bind (from_result (parseDuration (GetAttribute cfg ''threshold'') False False) s) (\<lambda>threshold s.
           bind (from_result (parseDuration (GetAttribute cfg ''reset-delay'') False False) s) (\<lambda>delay s.
             case FirstChildElement ''condition'' cfg of
               None \<Rightarrow> fail (Missing_element ''condition'') s
             | Some child \<Rightarrow>
                 bind (Condition_create i cl child s) (\<lambda>c s.
                 bind (new_id s) (\<lambda>p s.
                   return (TimeCounterCondition p c)
                     (set_task p (Counter (TimeCounter_new cl\<lparr>threshold_m := threshold, resetDelay_m := delay\<rparr>)) s))))))
      else if type = ''ioport-rx'' \<or> type = ''ioport-connect'' \<or> type = ''script'' then return (ForeignCondition cfg) s
      else fail (Bad_type type) s)"
| "create_conditions i cl [] s = return [] s"
| "create_conditions i cl (cfg # cfgs) s =
     bind (Condition_create i cl cfg s) (\<lambda>c s. bind (create_conditions i cl cfgs s) (\<lambda>cs. return (c # cs)))"
  by pat_completeness auto
termination
  by (relation "measure (\<lambda>x. case x of Inl (_, _, cfg, _) \<Rightarrow> 2 * size cfg + 1 | Inr (_, _, cfgs, _) \<Rightarrow> 2 * size_list size cfgs)")
    (use size_elements in \<open>auto simp: less_Suc_eq_le dest!: size_FirstChildElement\<close>)

declare Condition_create.simps [simp del] create_conditions.simps [simp del]

section \<open>Destruction\<close>

text \<open>
  The destructors.  A condition takes its listener \<open>cl\<close>, the one it was created with, out of its object whether it had
  put it there or not, and \<open>removeChangeListener\<close> takes out every entry.
\<close>

definition silence :: "listener option \<Rightarrow> ptr \<Rightarrow> 'a engine_scheme \<Rightarrow> (unit, 'a engine_scheme) run" where
  "silence cl p s = (case cl of None \<Rightarrow> return () s | Some l \<Rightarrow> call p (\<lambda>obj. finish (removeChangeListener l obj)) s)"

definition ObjectCondition_delete :: "listener option \<Rightarrow> ptr \<Rightarrow> 'a engine_scheme \<Rightarrow> (unit, 'a engine_scheme) run" where
  "ObjectCondition_delete cl p s = bind (silence cl p s) (\<lambda>_. release p)"

fun if_some :: "('v \<Rightarrow> 's \<Rightarrow> (unit, 's) run) \<Rightarrow> 'v option \<Rightarrow> 's \<Rightarrow> (unit, 's) run" where
  "if_some f None s = return () s"
| "if_some f (Some v) s = f v s"

definition TimeSpec_delete :: "listener \<Rightarrow> TimeSpec \<Rightarrow> 'a engine_scheme \<Rightarrow> (unit, 'a engine_scheme) run" where
  "TimeSpec_delete l ts s =
     (case ts_class ts of
        VariableSpec time date \<Rightarrow>
          bind (if_some (silence (Some l)) time s) (\<lambda>_ s.
          bind (if_some (silence (Some l)) date s) (\<lambda>_ s.
          bind (if_some release time s) (\<lambda>_. if_some release date)))
      | _ \<Rightarrow> return () s)"

definition PeriodicTask_delete :: "ptr \<Rightarrow> 'a engine_scheme \<Rightarrow> (unit, 'a engine_scheme) run" where
  "PeriodicTask_delete p s =
     (case tasks s p of
        Some (Periodic t) \<Rightarrow>
          bind (if_some (TimeSpec_delete p) (at_m t) (removeTask p s)) (\<lambda>_ s.
          bind (if_some (TimeSpec_delete p) (until_m t) s) (\<lambda>_ s.
            return () (s\<lparr>tasks := (tasks s)(p := None)\<rparr>)))
      | _ \<Rightarrow> fail Null_deref s)"

definition FixedTimeTask_delete :: "ptr \<Rightarrow> 'a engine_scheme \<Rightarrow> 'a engine_scheme" where
  "FixedTimeTask_delete p s = (removeTask p s)\<lparr>tasks := (tasks s)(p := None)\<rparr>"

fun Condition_delete :: "listener option \<Rightarrow> condition \<Rightarrow> 'a engine_scheme \<Rightarrow> (unit, 'a engine_scheme) run"
  and delete_conditions :: "listener option \<Rightarrow> condition list \<Rightarrow> 'a engine_scheme \<Rightarrow> (unit, 'a engine_scheme) run" where
  "Condition_delete cl (AndCondition cs) s = delete_conditions cl cs s"
| "Condition_delete cl (OrCondition cs) s = delete_conditions cl cs s"
| "Condition_delete cl (NotCondition c) s = Condition_delete cl c s"
| "Condition_delete cl (ObjectCondition c) s = ObjectCondition_delete cl (cd_object c) s"
| "Condition_delete cl (ObjectComparisonCondition c p) s =
     bind (ObjectCondition_delete cl p s) (\<lambda>_. ObjectCondition_delete cl (cd_object c))"
| "Condition_delete cl (ObjectSourceCondition src c) s = ObjectCondition_delete cl (cd_object c) s"
| "Condition_delete cl (ObjectThresholdCondition t c) s =
     bind (Condition_delete cl c s) (\<lambda>_. ObjectCondition_delete cl (cd_object t))"
| "Condition_delete cl (TimerCondition p trigger init) s = PeriodicTask_delete p s"
| "Condition_delete cl (TimeCounterCondition p c) s =
     bind (Condition_delete cl c s) (\<lambda>_ s. return () (FixedTimeTask_delete p s))"
| "Condition_delete cl (ForeignCondition cfg) s = return () s"
| "delete_conditions cl [] s = return () s"
| "delete_conditions cl (c # cs) s = bind (Condition_delete cl c s) (\<lambda>_. delete_conditions cl cs)"

end
