(* ===== verification/Condition_Laws.thy ===== *)
theory Condition_Laws
  imports Conditions
begin

text \<open>What the evaluation of a condition means, the time counter, and the way back from the configuration.\<close>

section \<open>The truth of a condition\<close>

text \<open>
  Conditions without a memory, over objects that hold a value already (the others ask the bus for it first); and their
  truth as a predicate of the state, with no order of evaluation.
\<close>

fun memoryless :: "condition \<Rightarrow> bool" where
  "memoryless (AndCondition cs) = list_all memoryless cs"
| "memoryless (OrCondition cs) = list_all memoryless cs"
| "memoryless (NotCondition c) = memoryless c"
| "memoryless (ObjectThresholdCondition t c) = False"
| "memoryless (TimeCounterCondition p c) = False"
| "memoryless _ = True"

definition has_value :: "'a engine_scheme \<Rightarrow> ptr \<Rightarrow> bool" where
  "has_value s p \<longleftrightarrow> (case heap (objects s) p of None \<Rightarrow> False | Some obj \<Rightarrow> init_m obj)"

definition value_at :: "'a engine_scheme \<Rightarrow> ptr \<Rightarrow> ObjectValue" where
  "value_at s p = obj_value (the (heap (objects s) p))"

fun ready :: "'a engine_scheme \<Rightarrow> condition \<Rightarrow> bool" where
  "ready s (AndCondition cs) = list_all (ready s) cs"
| "ready s (OrCondition cs) = list_all (ready s) cs"
| "ready s (NotCondition c) = ready s c"
| "ready s (ObjectCondition c) = has_value s (cd_object c)"
| "ready s (ObjectComparisonCondition c p) = (has_value s (cd_object c) \<and> has_value s p)"
| "ready s (ObjectSourceCondition src c) = has_value s (cd_object c)"
| "ready s (ObjectThresholdCondition t c) = (has_value s (cd_object t) \<and> ready s c)"
| "ready s (TimerCondition p trigger init) = (\<exists>t. tasks s p = Some (Periodic t))"
| "ready s (TimeCounterCondition p c) = ready s c"
| "ready s (ForeignCondition cfg) = True"

definition object_truth :: "inputs \<Rightarrow> 'a engine_scheme \<Rightarrow> object_cond \<Rightarrow> bool" where
  "object_truth i s c \<longleftrightarrow>
     (case cd_value c of None \<Rightarrow> True
      | Some v \<Rightarrow> holds (cd_op c) (ov_compare (env.truncate (in_sv i)) (value_at s (cd_object c)) v))"

fun truth :: "inputs \<Rightarrow> 'a engine_scheme \<Rightarrow> condition \<Rightarrow> bool" where
  "truth i s (AndCondition cs) \<longleftrightarrow> (\<forall>c \<in> set cs. truth i s c)"
| "truth i s (OrCondition cs) \<longleftrightarrow> (\<exists>c \<in> set cs. truth i s c)"
| "truth i s (NotCondition c) \<longleftrightarrow> \<not> truth i s c"
| "truth i s (ObjectCondition c) \<longleftrightarrow> object_truth i s c"
| "truth i s (ObjectComparisonCondition c p) \<longleftrightarrow>
     holds (cd_op c) (ov_compare (env.truncate (in_sv i)) (value_at s (cd_object c)) (value_at s p))"
| "truth i s (ObjectSourceCondition src c) \<longleftrightarrow> src = lastTx_m (the (heap (objects s) (cd_object c))) \<and> object_truth i s c"
| "truth i s (ObjectThresholdCondition t c) \<longleftrightarrow> False"
| "truth i s (TimerCondition p trigger init) \<longleftrightarrow> (case tasks s p of Some (Periodic t) \<Rightarrow> value_m t | _ \<Rightarrow> False)"
| "truth i s (TimeCounterCondition p c) \<longleftrightarrow> False"
| "truth i s (ForeignCondition cfg) \<longleftrightarrow> in_foreign i cfg"

lemma get_value_ready: "has_value s p \<Longrightarrow> get_value i p s = return (value_at s p) s"
  by (auto simp: has_value_def value_at_def get_value_def call_def on_objects_def call_object_def get_def finish_def
      update_object_def the_object_def value_of_def fun_upd_idem split: option.splits)

lemma ObjectCondition_truth:
  "has_value s (cd_object c) \<Longrightarrow> ObjectCondition_evaluate i c s = return (object_truth i s c) s"
  by (simp add: ObjectCondition_evaluate_def object_truth_def get_value_ready split: option.split)

lemma evaluate_truth:
  "memoryless c \<Longrightarrow> ready s c \<Longrightarrow> evaluate i c s = return (truth i s c) s"
  "list_all memoryless cs \<Longrightarrow> list_all (ready s) cs \<Longrightarrow> evaluate_and i cs s = return (\<forall>c \<in> set cs. truth i s c) s"
  "list_all memoryless cs \<Longrightarrow> list_all (ready s) cs \<Longrightarrow> evaluate_or i cs s = return (\<exists>c \<in> set cs. truth i s c) s"
proof (induction i c s and i cs s and i cs s rule: evaluate_evaluate_and_evaluate_or.induct)
  case (6 i src c s)
  then have "\<exists>obj. heap (objects s) (cd_object c) = Some obj" by (auto simp: has_value_def split: option.splits)
  then show ?case using 6
    by (auto simp: ObjectSourceCondition_evaluate_def the_object_def ObjectCondition_truth)
qed (auto simp: ObjectCondition_truth ObjectComparisonCondition_evaluate_def get_value_ready return_def)

text \<open>
  C7.  The evaluation of a condition without memory, over objects that have a value, with all its short cuts
  computes the truth of the condition, and changes and sends nothing; so the order of the parts of an
  and or or condition does not matter.
\<close>

theorem evaluate_is_truth:
  assumes "memoryless c" and "ready s c"
  shows "evaluate i c s = return (truth i s c) s"
  using assms by (rule evaluate_truth(1))

theorem evaluate_is_truth_witness:
  "\<exists>(i :: inputs) (s :: engine) c. memoryless c \<and> ready s c \<and> \<not> truth i s c \<and> evaluate i c s = return False s
     \<and> c = AndCondition [ObjectCondition \<lparr>cd_object = 0, cd_value = Some (Switching \<lparr>sw_eis = 1, sw_value = True\<rparr>), cd_op = eq, cd_trigger = False\<rparr>,
                          NotCondition (ObjectCondition \<lparr>cd_object = 0, cd_value = None, cd_op = eq, cd_trigger = False\<rparr>)]"
proof -
  define obj where "obj = (Object_new 0 (Switching \<lparr>sw_eis = 1, sw_value = True\<rparr>))\<lparr>init_m := True\<rparr>"
  define s :: engine where "s = \<lparr>taskList_m = [], tasks = (\<lambda>_. None), objects = ObjectController_new\<lparr>heap := [0 \<mapsto> obj]\<rparr>,
      refValue_m = (\<lambda>_. 0), next_id = 0\<rparr>"
  define c where "c = AndCondition [ObjectCondition \<lparr>cd_object = 0, cd_value = Some (Switching \<lparr>sw_eis = 1, sw_value = True\<rparr>), cd_op = eq, cd_trigger = False\<rparr>,
                          NotCondition (ObjectCondition \<lparr>cd_object = 0, cd_value = None, cd_op = eq, cd_trigger = False\<rparr>)]"
  have m: "memoryless c" by (simp add: c_def)
  have r: "ready s c" by (simp add: c_def s_def has_value_def obj_def)
  have t: "\<not> truth i s c" for i by (simp add: c_def object_truth_def)
  show ?thesis
    unfolding c_def [symmetric] using m r t evaluate_is_truth [OF m r] by (metis (full_types))
qed

section \<open>The time counter\<close>

text \<open>
  A history of evaluations, newest first, each with its time and the value of the nested condition: how long the value
  was on between the evaluations, and since when it is off.
\<close>

type_synonym history = "(int \<times> bool) list"

fun on_time :: "history \<Rightarrow> int" where
  "on_time ((t, v) # (u, w) # h) = on_time ((u, w) # h) + (if w then t - u else 0)"
| "on_time _ = 0"

fun switched_at :: "history \<Rightarrow> int" where
  "switched_at ((t, True) # h) = t"
| "switched_at ((t, False) # (u, True) # h) = t"
| "switched_at ((t, False) # h) = switched_at h"
| "switched_at [] = 0"

text \<open>Times go up, it was on first, and it was never evaluated off when it had been off for longer than the delay.\<close>

fun in_time :: "int \<Rightarrow> history \<Rightarrow> bool" where
  "in_time d [(t, v)] \<longleftrightarrow> v \<and> 0 < t"
| "in_time d ((t, v) # (u, w) # h) \<longleftrightarrow>
     u \<le> t \<and> in_time d ((u, w) # h) \<and> (\<not> v \<and> \<not> w \<longrightarrow> t - switched_at ((u, w) # h) \<le> d)"
| "in_time d [] \<longleftrightarrow> False"

fun count :: "history \<Rightarrow> TimeCounter \<Rightarrow> bool \<times> TimeCounter" where
  "count [] tc = (False, tc)"
| "count ((t, v) # h) tc = (case counter_step t v (snd (count h tc)) of (r, tc', _) \<Rightarrow> (r, tc'))"

lemma on_time_nonneg: "in_time d h \<Longrightarrow> 0 \<le> on_time h"
  by (induction d h rule: in_time.induct) auto

definition measured :: "int \<Rightarrow> int \<Rightarrow> history \<Rightarrow> bool \<Rightarrow> TimeCounter \<Rightarrow> bool" where
  "measured th d h r tc \<longleftrightarrow>
     threshold_m tc = th \<and> resetDelay_m tc = d \<and> lastVal_m tc = snd (hd h) \<and> lastTime_m tc = switched_at h \<and> 0 < lastTime_m tc
     \<and> (r \<longleftrightarrow> th \<le> on_time h) \<and> (if on_time h < th then counter_m tc = on_time h else th \<le> counter_m tc)"

lemma measured_first:
  assumes "0 < t"
  shows "measured th d [(t, True)] (fst (counter_step t True (TimeCounter_new cl\<lparr>threshold_m := th, resetDelay_m := d\<rparr>)))
    (fst (snd (counter_step t True (TimeCounter_new cl\<lparr>threshold_m := th, resetDelay_m := d\<rparr>))))"
  using assms by (simp add: counter_step_def TimeCounter_new_def Let_def measured_def)

lemma measured_step:
  assumes d0: "0 \<le> d" and m: "measured th d ((u, w) # h) r tc" and t: "in_time d ((t, v) # (u, w) # h)"
  shows "measured th d ((t, v) # (u, w) # h) (fst (counter_step t v tc)) (fst (snd (counter_step t v tc)))"
proof -
  have le: "u \<le> t" and pos: "0 \<le> on_time ((u, w) # h)" using t on_time_nonneg by auto
  show ?thesis
  proof (cases w)
    case True
    then have tc: "threshold_m tc = th" "resetDelay_m tc = d" "lastVal_m tc" "lastTime_m tc = u" "0 < u"
      "if on_time ((u, w) # h) < th then counter_m tc = on_time ((u, w) # h) else th \<le> counter_m tc"
      using m by (simp_all add: measured_def)
    have on: "on_time ((t, v) # (u, w) # h) = on_time ((u, w) # h) + (t - u)" using True by simp
    have sw: "switched_at ((t, v) # (u, w) # h) = t" using True by (cases v) simp_all
    show ?thesis unfolding measured_def on sw using tc le d0
      by (cases "on_time ((u, w) # h) < th"; cases v) (simp_all add: counter_step_def Let_def)
  next
    case False
    then have tc: "threshold_m tc = th" "resetDelay_m tc = d" "\<not> lastVal_m tc" "lastTime_m tc = switched_at ((u, w) # h)"
      "0 < switched_at ((u, w) # h)" "if on_time ((u, w) # h) < th then counter_m tc = on_time ((u, w) # h) else th \<le> counter_m tc"
      using m by (simp_all add: measured_def)
    have on: "on_time ((t, v) # (u, w) # h) = on_time ((u, w) # h)" using False by simp
    have sw: "switched_at ((t, v) # (u, w) # h) = (if v then t else switched_at ((u, w) # h))" using False by (cases v) simp_all
    have d: "\<not> v \<Longrightarrow> t - switched_at ((u, w) # h) \<le> d" using t False by simp
    have "0 < t" if "in_time d ((u, w) # h)" "u \<le> t" using that by (induction d "(u, w) # h" arbitrary: u w h rule: in_time.induct) auto
    then have "0 < t" using t by simp
    then show ?thesis unfolding measured_def on sw using tc d
      by (cases "on_time ((u, w) # h) < th"; cases v) (simp_all add: counter_step_def Let_def)
  qed
qed

lemma count_measured:
  assumes "in_time d h" and "0 \<le> d"
  shows "measured th d h (fst (count h (TimeCounter_new cl\<lparr>threshold_m := th, resetDelay_m := d\<rparr>)))
    (snd (count h (TimeCounter_new cl\<lparr>threshold_m := th, resetDelay_m := d\<rparr>)))"
  using assms
proof (induction d h rule: in_time.induct)
  case (1 d t v)
  then show ?case using measured_first [of t] by (simp add: split_beta)
next
  case (2 d t v u w h)
  define r tc where "r = fst (count ((u, w) # h) (TimeCounter_new cl\<lparr>threshold_m := th, resetDelay_m := d\<rparr>))"
    and "tc = snd (count ((u, w) # h) (TimeCounter_new cl\<lparr>threshold_m := th, resetDelay_m := d\<rparr>))"
  have c: "count ((t, v) # (u, w) # h) (TimeCounter_new cl\<lparr>threshold_m := th, resetDelay_m := d\<rparr>) =
      (fst (counter_step t v tc), fst (snd (counter_step t v tc)))"
    by (simp only: count.simps(2) [of t v] tc_def [symmetric] split_beta)
  have m: "measured th d ((u, w) # h) r tc" unfolding r_def tc_def using 2 by (simp del: count.simps)
  show ?case unfolding c fst_conv snd_conv by (rule measured_step [OF 2(3) m 2(2)])
qed simp

lemma counter_wakes:
  assumes "measured th d ((u, True) # h) r tc" and "on_time ((u, True) # h) < th"
  shows "snd (snd (counter_step t True tc)) \<longleftrightarrow> on_time ((t, True) # (u, True) # h) < th"
    "on_time ((t, True) # (u, True) # h) < th \<Longrightarrow>
       execTime_m (fst (snd (counter_step t True tc))) = t + (th - on_time ((t, True) # (u, True) # h)) + 1"
  using assms by (auto simp: measured_def counter_step_def Let_def)



section \<open>Configuration\<close>

text \<open>References and listeners come and go; the IDs and the values of the objects stay.\<close>

definition same_objects :: "'a engine_scheme \<Rightarrow> 'a engine_scheme \<Rightarrow> bool" where
  "same_objects s s' \<longleftrightarrow>
     objectIdMap_m (objects s') = objectIdMap_m (objects s)
     \<and> (\<forall>p. map_option (\<lambda>obj. (id_m obj, obj_value obj)) (heap (objects s') p) = map_option (\<lambda>obj. (id_m obj, obj_value obj)) (heap (objects s) p))"

lemma same_objects_refl [simp]: "same_objects s s"
  by (simp add: same_objects_def)

lemma same_objects_trans: "same_objects a b \<Longrightarrow> same_objects b c \<Longrightarrow> same_objects a c"
  by (simp add: same_objects_def)

definition registered :: "'a engine_scheme \<Rightarrow> ptr \<Rightarrow> bool" where
  "registered s p \<longleftrightarrow> (\<exists>obj. heap (objects s) p = Some obj \<and> map_of (objectIdMap_m (objects s)) (id_m obj) = Some p)"

lemma registered_same: "same_objects s s' \<Longrightarrow> registered s p \<Longrightarrow> registered s' p"
proof -
  assume s: "same_objects s s'" and r: "registered s p"
  then obtain obj where obj: "heap (objects s) p = Some obj" "map_of (objectIdMap_m (objects s)) (id_m obj) = Some p"
    by (auto simp: registered_def)
  have "map_option (\<lambda>obj. (id_m obj, obj_value obj)) (heap (objects s') p) = Some (id_m obj, obj_value obj)"
    using s obj(1) by (simp add: same_objects_def)
  then show ?thesis using s obj(2) by (auto simp: registered_def same_objects_def)
qed

lemma object_id_same: "same_objects s s' \<Longrightarrow> object_id (objects s') p = object_id (objects s) p"
proof -
  assume "same_objects s s'"
  then have "map_option (\<lambda>obj. (id_m obj, obj_value obj)) (heap (objects s') p) = map_option (\<lambda>obj. (id_m obj, obj_value obj)) (heap (objects s) p)"
    by (simp add: same_objects_def)
  then show ?thesis by (auto simp: object_id_def split: option.splits)
qed

lemma call_silent:
  assumes "registered s p" and "\<And>obj. f obj = finish (g obj)" and "\<And>obj. id_m (g obj) = id_m obj \<and> obj_value (g obj) = obj_value obj"
  shows "\<exists>s'. call p f s = ([], Inr (), s') \<and> same_objects s s'"
  using assms
  by (auto simp: registered_def call_def on_objects_def call_object_def update_object_def finish_def value_of_def same_objects_def)

lemma lookup_registered:
  assumes "registered s p"
  shows "\<exists>s'. lookup (object_id (objects s) p) s = ([], Inr p, s') \<and> same_objects s s'"
  using assms
  by (auto simp: registered_def object_id_def lookup_def getObject_def on_objects_def call_object_def update_object_def finish_def
      value_of_def same_objects_def incRefCount_def)

lemma listen_registered: "registered s p \<Longrightarrow> \<exists>s'. listen l p s = ([], Inr (), s') \<and> same_objects s s'"
  unfolding listen_def by (rule call_silent [where g = "addChangeListener l"]) (simp_all add: addChangeListener_def)

lemma set_trigger_registered:
  assumes "\<forall>p \<in> set ps. registered s p" and "trigger \<longrightarrow> cl \<noteq> None"
  shows "\<exists>s'. set_trigger cl (if trigger then ''true'' else '''') ps s = ([], Inr trigger, s') \<and> same_objects s s'"
proof (cases trigger)
  case True
  then obtain l where l: "cl = Some l" using assms(2) by auto
  have "\<exists>s'. set_trigger cl ''true'' ps s = ([], Inr True, s') \<and> same_objects s s'"
    using assms(1)
  proof (induction ps arbitrary: s)
    case (Cons p ps)
    obtain s1 where s1: "listen l p s = ([], Inr (), s1)" "same_objects s s1" using listen_registered [of s p l] Cons.prems by auto
    have "\<forall>p \<in> set ps. registered s1 p" using Cons.prems registered_same [OF s1(2)] by simp
    then obtain s2 where s2: "set_trigger cl ''true'' ps s1 = ([], Inr True, s2)" "same_objects s1 s2" using Cons.IH by blast
    then show ?case using s1 same_objects_trans [OF s1(2) s2(2)] l by simp
  qed (simp add: l return_def)
  then show ?thesis using True by simp
next
  case False
  then show ?thesis by (cases ps) (simp_all add: return_def)
qed

text \<open>What can be written down and read back.\<close>

definition proper_op :: "int \<Rightarrow> bool" where
  "proper_op op \<longleftrightarrow> op \<in> {eq, lt, gt, lt OR gt, lt OR eq, gt OR eq}"

definition proper_value :: "inputs \<Rightarrow> 'a engine_scheme \<Rightarrow> object_cond \<Rightarrow> bool" where
  "proper_value i s c \<longleftrightarrow>
     (\<forall>v. cd_value c = Some v \<longrightarrow>
        ov_toString (env.truncate (in_sv i)) v \<noteq> ''''
        \<and> createObjectValue (env.truncate (in_sv i)) (value_at s (cd_object c)) (ov_toString (env.truncate (in_sv i)) v) = Inr v)"

fun proper :: "inputs \<Rightarrow> listener option \<Rightarrow> 'a engine_scheme \<Rightarrow> condition \<Rightarrow> bool" where
  "proper i cl s (AndCondition cs) = (cs \<noteq> [] \<and> list_all (proper i cl s) cs)"
| "proper i cl s (OrCondition cs) = (cs \<noteq> [] \<and> list_all (proper i cl s) cs)"
| "proper i cl s (NotCondition c) = proper i cl s c"
| "proper i cl s (ObjectCondition c) =
     (registered s (cd_object c) \<and> proper_op (cd_op c) \<and> proper_value i s c \<and> (cd_trigger c \<longrightarrow> cl \<noteq> None))"
| "proper i cl s (ObjectComparisonCondition c p) =
     (registered s (cd_object c) \<and> registered s p \<and> proper_op (cd_op c) \<and> cd_value c = None \<and> (cd_trigger c \<longrightarrow> cl \<noteq> None))"
| "proper i cl s (ObjectSourceCondition src c) =
     (registered s (cd_object c) \<and> proper_op (cd_op c) \<and> proper_value i s c \<and> (cd_trigger c \<longrightarrow> cl \<noteq> None))"
| "proper i cl s _ = False"

lemma value_at_same: "same_objects s s' \<Longrightarrow> registered s p \<Longrightarrow> value_at s' p = value_at s p"
proof -
  assume s: "same_objects s s'" and r: "registered s p"
  then obtain obj where "heap (objects s) p = Some obj" by (auto simp: registered_def)
  moreover have "map_option (\<lambda>obj. (id_m obj, obj_value obj)) (heap (objects s') p) = map_option (\<lambda>obj. (id_m obj, obj_value obj)) (heap (objects s) p)"
    using s by (simp add: same_objects_def)
  ultimately show ?thesis by (auto simp: value_at_def)
qed

lemma proper_same: "proper i cl s c \<Longrightarrow> same_objects s s' \<Longrightarrow> proper i cl s' c"
  by (induction c) (auto simp: registered_same value_at_same proper_value_def list_all_iff)

lemma parse_op_name: "proper_op op \<Longrightarrow> parse_op (if op \<noteq> eq then op_name op else '''') = Inr op"
  by (auto simp: proper_op_def parse_op_def op_name_def op_defs)

text \<open>An object condition, and one with a second object, from attributes that describe it.\<close>

definition described :: "inputs \<Rightarrow> 'a engine_scheme \<Rightarrow> object_cond \<Rightarrow> xml \<Rightarrow> bool" where
  "described i s c e \<longleftrightarrow>
     GetAttribute e ''id'' = object_id (objects s) (cd_object c)
     \<and> GetAttribute e ''trigger'' = (if cd_trigger c then ''true'' else '''')
     \<and> GetAttribute e ''value'' = (case cd_value c of None \<Rightarrow> '''' | Some v \<Rightarrow> ov_toString (env.truncate (in_sv i)) v)
     \<and> GetAttribute e ''op'' = (if cd_op c \<noteq> eq then op_name (cd_op c) else '''')"

lemma create_value_registered:
  assumes "same_objects s s'" and "registered s p" and "createObjectValue (env.truncate (in_sv i)) (value_at s p) text = Inr v"
  shows "create_value i text p s' = ([], Inr v, s')"
proof -
  have v: "value_at s' p = value_at s p" using assms(1,2) by (rule value_at_same)
  obtain obj where "heap (objects s') p = Some obj" using registered_same [OF assms(1,2)] by (auto simp: registered_def)
  then show ?thesis using assms(3) v by (simp add: create_value_def the_object_def value_at_def return_def)
qed

lemma import_described:
  assumes "described i s c e" and "same_objects s s1" and "registered s (cd_object c)"
    and "proper_op (cd_op c)" and "proper_value i s c" and "cd_trigger c \<longrightarrow> cl \<noteq> None"
  shows "\<exists>s2. ObjectCondition_importXml i cl e s1 = ([], Inr c, s2) \<and> same_objects s s2"
proof -
  let ?p = "cd_object c"
  have r: "registered s1 ?p" using assms(2,3) by (rule registered_same)
  obtain s2 where s2: "lookup (object_id (objects s) ?p) s1 = ([], Inr ?p, s2)" "same_objects s1 s2"
    using lookup_registered [OF r] object_id_same [OF assms(2)] by auto
  have r2: "\<forall>p \<in> set [?p]. registered s2 p" using registered_same [OF s2(2) r] by simp
  obtain s3 where s3: "set_trigger cl (if cd_trigger c then ''true'' else '''') [?p] s2 = ([], Inr (cd_trigger c), s3)" "same_objects s2 s3"
    using set_trigger_registered [OF r2 assms(6)] by blast
  have s: "same_objects s s3" using assms(2) s2(2) s3(2) by (blast intro: same_objects_trans)
  have v: "create_value i (ov_toString (env.truncate (in_sv i)) v) ?p s3 = ([], Inr v, s3)" if "cd_value c = Some v" for v
    using create_value_registered [OF s assms(3)] assms(5) that by (simp add: proper_value_def)
  have nonempty: "ov_toString (env.truncate (in_sv i)) v \<noteq> ''''" if "cd_value c = Some v" for v
    using assms(5) that by (simp add: proper_value_def)
  have "ObjectCondition_importXml i cl e s1 = ([], Inr c, s3)"
    using assms(1) s2(1) s3(1) v nonempty parse_op_name [OF assms(4)]
    by (cases "cd_value c") (simp_all add: ObjectCondition_importXml_def described_def return_def)
  then show ?thesis using s by blast
qed

text \<open>The shape of what is exported.\<close>

lemma tag_SetAttribute [simp]: "tag (SetAttribute name value e) = tag e"
  by (cases e) auto

lemma tag_LinkEndChild [simp]: "tag (LinkEndChild c e) = tag e"
  by (cases e) auto

lemma export_shape [simp]:
  "is_element (export_op op e) = is_element e" "tag (export_op op e) = tag e" "children (export_op op e) = children e"
  "is_element (export_trigger b e) = is_element e" "tag (export_trigger b e) = tag e" "children (export_trigger b e) = children e"
  "is_element e \<Longrightarrow> attribute (export_op op e) n = (if n = ''op'' \<and> op \<noteq> eq then Some (op_name op) else attribute e n)"
  "is_element e \<Longrightarrow> attribute (export_trigger b e) n = (if n = ''trigger'' \<and> b then Some ''true'' else attribute e n)"
  by (auto simp: export_op_def export_trigger_def)

lemma export_conditions_shape:
  "is_element e \<Longrightarrow> is_element (export_conditions i s cs e)"
  "is_element e \<Longrightarrow> attribute (export_conditions i s cs e) n = attribute e n"
  "is_element e \<Longrightarrow>
     children (export_conditions i s cs e) = children e @ map (\<lambda>c. Condition_exportXml i s c (Element ''condition'' [] [])) cs"
  "tag (export_conditions i s cs e) = tag e"
  by (induction cs arbitrary: e) simp_all

lemma Condition_exportXml_shape:
  assumes "proper i cl s c" and "is_element e"
  shows "is_element (Condition_exportXml i s c e)" and "tag (Condition_exportXml i s c e) = tag e"
  using assms
  by (cases c; simp add: export_conditions_shape ObjectCondition_exportXml_def ObjectComparisonCondition_exportXml_def
      ObjectSourceCondition_exportXml_def Let_def split: option.split)+

lemma elements_exported:
  "is_element e \<Longrightarrow> children e = [] \<Longrightarrow> list_all (proper i cl s) cs \<Longrightarrow>
   elements ''condition'' (export_conditions i s cs e) = map (\<lambda>c. Condition_exportXml i s c (Element ''condition'' [] [])) cs"
  by (auto simp: elements_def export_conditions_shape list_all_iff filter_id_conv Condition_exportXml_shape)

text \<open>An element of the configuration, whatever its tag.\<close>

definition blank :: "xml \<Rightarrow> bool" where
  "blank e \<longleftrightarrow> is_element e \<and> attributes e = [] \<and> children e = []"

lemma blank_attribute: "blank e \<Longrightarrow> attribute e n = None"
  by (simp add: blank_def attribute_def)

lemma described_exported: "blank e \<Longrightarrow> described i s c (ObjectCondition_exportXml i (objects s) c e)"
  by (cases "cd_value c")
    (simp_all add: described_def ObjectCondition_exportXml_def GetAttribute_def Let_def blank_attribute blank_def [THEN iffD1])

lemma described_source:
  "is_element e \<Longrightarrow> described i s c e \<Longrightarrow> described i s c (SetAttribute ''src'' src (SetAttribute ''type'' t e))"
  by (simp add: described_def GetAttribute_def)

lemma type_exported:
  assumes "blank e"
  shows "GetAttribute (Condition_exportXml i s (AndCondition cs) e) ''type'' = ''and''"
    "GetAttribute (Condition_exportXml i s (OrCondition cs) e) ''type'' = ''or''"
    "GetAttribute (Condition_exportXml i s (NotCondition c) e) ''type'' = ''not''"
    "GetAttribute (Condition_exportXml i s (ObjectCondition oc) e) ''type'' = ''object''"
    "GetAttribute (Condition_exportXml i s (ObjectComparisonCondition oc p) e) ''type'' = ''object-compare''"
    "GetAttribute (Condition_exportXml i s (ObjectSourceCondition src oc) e) ''type'' = ''object-src''"
  using assms
  by (auto simp: blank_def GetAttribute_def export_conditions_shape ObjectCondition_exportXml_def ObjectComparisonCondition_exportXml_def
      ObjectSourceCondition_exportXml_def Let_def split: option.split)

section \<open>The way back\<close>

definition comes_back :: "inputs \<Rightarrow> listener option \<Rightarrow> 'a engine_scheme \<Rightarrow> condition \<Rightarrow> xml \<Rightarrow> bool" where
  "comes_back i cl s c e \<longleftrightarrow>
     (\<forall>s1. same_objects s s1 \<longrightarrow> (\<exists>s2. Condition_create i cl e s1 = ([], Inr c, s2) \<and> same_objects s s2))"

lemma comes_backE:
  assumes "comes_back i cl s c e" and "same_objects s s1"
  obtains s2 where "Condition_create i cl e s1 = ([], Inr c, s2)" and "same_objects s s2"
  using assms by (auto simp: comes_back_def)

lemma conditions_come_back:
  assumes "\<forall>c \<in> set cs. comes_back i cl s c (ex c)" and "same_objects s s1"
  shows "\<exists>s2. create_conditions i cl (map ex cs) s1 = ([], Inr cs, s2) \<and> same_objects s s2"
  using assms
proof (induction cs arbitrary: s1)
  case (Cons c cs)
  obtain s2 where s2: "Condition_create i cl (ex c) s1 = ([], Inr c, s2)" "same_objects s s2"
    using Cons.prems by (auto elim: comes_backE)
  obtain s3 where "create_conditions i cl (map ex cs) s2 = ([], Inr cs, s3)" "same_objects s s3"
    using Cons.IH [OF _ s2(2)] Cons.prems(1) by auto
  then show ?case using s2 by (auto simp: create_conditions.simps return_def)
qed (auto simp: create_conditions.simps return_def)

abbreviation "exported \<equiv> \<lambda>i s c. Condition_exportXml i s c (Element ''condition'' [] [])"

lemma list_comes_back:
  assumes "blank e" and "cs \<noteq> []" and "list_all (proper i cl s) cs" and "\<forall>c \<in> set cs. comes_back i cl s c (exported i s c)"
  shows "comes_back i cl s (AndCondition cs) (Condition_exportXml i s (AndCondition cs) e)"
    and "comes_back i cl s (OrCondition cs) (Condition_exportXml i s (OrCondition cs) e)"
proof -
  have e: "is_element (SetAttribute n v e)" "children (SetAttribute n v e) = []" for n v using assms(1) by (simp_all add: blank_def)
  have elements: "elements ''condition'' (export_conditions i s cs (SetAttribute n v e)) = map (exported i s) cs" for n v
    by (rule elements_exported [OF e assms(3)])
  have type: "GetAttribute (export_conditions i s cs (SetAttribute ''type'' v e)) ''type'' = v" for v
    using assms(1) by (simp add: GetAttribute_def export_conditions_shape blank_def)
  have "\<exists>s2. create_conditions i cl (map (exported i s) cs) s1 = ([], Inr cs, s2) \<and> same_objects s s2" if "same_objects s s1" for s1
    by (rule conditions_come_back [OF assms(4) that])
  then show "comes_back i cl s (AndCondition cs) (Condition_exportXml i s (AndCondition cs) e)"
    and "comes_back i cl s (OrCondition cs) (Condition_exportXml i s (OrCondition cs) e)"
    using assms(2) by (fastforce simp: comes_back_def Condition_create.simps elements type return_def)+
qed

lemma object_comes_back:
  assumes "blank e" and "proper i cl s (ObjectCondition c)"
  shows "comes_back i cl s (ObjectCondition c) (Condition_exportXml i s (ObjectCondition c) e)"
    and "comes_back i cl s (ObjectSourceCondition src c) (Condition_exportXml i s (ObjectSourceCondition src c) e)"
proof -
  let ?e = "ObjectCondition_exportXml i (objects s) c e"
  have element: "is_element ?e"
    using assms(1) by (simp add: ObjectCondition_exportXml_def Let_def blank_def split: option.split)
  have d: "described i s c ?e" "described i s c (ObjectSourceCondition_exportXml i (objects s) src c e)"
    unfolding ObjectSourceCondition_exportXml_def
    by (rule described_exported [OF assms(1)], rule described_source [OF element described_exported [OF assms(1)]])
  have src: "GetAttribute (ObjectSourceCondition_exportXml i (objects s) src c e) ''src'' = WriteAddr src"
    using element by (simp add: ObjectSourceCondition_exportXml_def GetAttribute_def)
  note import = import_described [of i s c _ _ cl]
  show "comes_back i cl s (ObjectCondition c) (Condition_exportXml i s (ObjectCondition c) e)"
    unfolding comes_back_def
  proof safe
    fix s1 :: "'a engine_scheme" assume "same_objects s s1"
    then obtain s2 where "ObjectCondition_importXml i cl ?e s1 = ([], Inr c, s2)" "same_objects s s2"
      using import [OF d(1)] assms(2) by simp blast
    then show "\<exists>s2. Condition_create i cl (Condition_exportXml i s (ObjectCondition c) e) s1 = ([], Inr (ObjectCondition c), s2) \<and> same_objects s s2"
      using type_exported(4) [OF assms(1), of i s c] by (simp add: Condition_create.simps return_def)
  qed
  show "comes_back i cl s (ObjectSourceCondition src c) (Condition_exportXml i s (ObjectSourceCondition src c) e)"
    unfolding comes_back_def
  proof safe
    fix s1 :: "'a engine_scheme" assume "same_objects s s1"
    then obtain s2 where "ObjectCondition_importXml i cl (ObjectSourceCondition_exportXml i (objects s) src c e) s1 = ([], Inr c, s2)" "same_objects s s2"
      using import [OF d(2)] assms(2) by simp blast
    then show "\<exists>s2. Condition_create i cl (Condition_exportXml i s (ObjectSourceCondition src c) e) s1
        = ([], Inr (ObjectSourceCondition src c), s2) \<and> same_objects s s2"
      using type_exported(6) [OF assms(1), of i s src c] src by (simp add: Condition_create.simps individual_addr_roundtrip return_def)
  qed
qed

lemma comparison_comes_back:
  assumes "blank e" and "proper i cl s (ObjectComparisonCondition c p)"
  shows "comes_back i cl s (ObjectComparisonCondition c p) (Condition_exportXml i s (ObjectComparisonCondition c p) e)"
  unfolding comes_back_def
proof safe
  fix s1 :: "'a engine_scheme" assume s1: "same_objects s s1"
  let ?e = "ObjectComparisonCondition_exportXml (objects s) c p e" and ?q = "cd_object c"
  have r: "registered s ?q" "registered s p" and c: "proper_op (cd_op c)" "cd_value c = None" "cd_trigger c \<longrightarrow> cl \<noteq> None"
    using assms(2) by simp_all
  have e: "GetAttribute ?e ''id'' = object_id (objects s) ?q" "GetAttribute ?e ''id2'' = object_id (objects s) p"
    "GetAttribute ?e ''trigger'' = (if cd_trigger c then ''true'' else '''')"
    "GetAttribute ?e ''op'' = (if cd_op c \<noteq> eq then op_name (cd_op c) else '''')"
    using assms(1) by (simp_all add: ObjectComparisonCondition_exportXml_def GetAttribute_def blank_def blank_attribute)
  obtain s2 where s2: "lookup (object_id (objects s) ?q) s1 = ([], Inr ?q, s2)" "same_objects s1 s2"
    using lookup_registered [OF registered_same [OF s1 r(1)]] object_id_same [OF s1] by auto
  have to2: "same_objects s s2" using s1 s2(2) by (rule same_objects_trans)
  obtain s3 where s3: "lookup (object_id (objects s) p) s2 = ([], Inr p, s3)" "same_objects s2 s3"
    using lookup_registered [OF registered_same [OF to2 r(2)]] object_id_same [OF to2] by auto
  have to3: "same_objects s s3" using to2 s3(2) by (rule same_objects_trans)
  have r3: "\<forall>p \<in> set [?q, p]. registered s3 p" using registered_same [OF to3] r by simp
  obtain s4 where s4: "set_trigger cl (if cd_trigger c then ''true'' else '''') [?q, p] s3 = ([], Inr (cd_trigger c), s4)" "same_objects s3 s4"
    using set_trigger_registered [OF r3 c(3)] by blast
  have "Condition_create i cl (Condition_exportXml i s (ObjectComparisonCondition c p) e) s1 = ([], Inr (ObjectComparisonCondition c p), s4)"
    using type_exported(5) [OF assms(1), of i s c p] e s2(1) s3(1) s4(1) parse_op_name [OF c(1)] c(2)
    by (cases c) (simp add: Condition_create.simps ObjectComparisonCondition_importXml_def return_def)
  then show "\<exists>s2. Condition_create i cl (Condition_exportXml i s (ObjectComparisonCondition c p) e) s1
      = ([], Inr (ObjectComparisonCondition c p), s2) \<and> same_objects s s2"
    using same_objects_trans [OF to3 s4(2)] by blast
qed

lemma negation_comes_back:
  assumes "blank e" and "proper i cl s c" and "comes_back i cl s c (exported i s c)"
  shows "comes_back i cl s (NotCondition c) (Condition_exportXml i s (NotCondition c) e)"
proof -
  have "is_element (exported i s c)" "tag (exported i s c) = ''condition''"
    using Condition_exportXml_shape [OF assms(2), of "Element ''condition'' [] []"] by simp_all
  then have "FirstChildElement ''condition'' (Condition_exportXml i s (NotCondition c) e) = Some (exported i s c)"
    using assms(1) by (simp add: FirstChildElement_def elements_def blank_def)
  then have create: "Condition_create i cl (Condition_exportXml i s (NotCondition c) e) s1
      = bind (Condition_create i cl (exported i s c) s1) (\<lambda>c. return (NotCondition c))" for s1 :: "'a engine_scheme"
    using type_exported(3) [OF assms(1), of i s c]
    by (subst Condition_create.simps) (simp del: Condition_exportXml.simps)
  show ?thesis
    unfolding comes_back_def
  proof safe
    fix s1 :: "'a engine_scheme" assume s1: "same_objects s s1"
    obtain s2 where "Condition_create i cl (exported i s c) s1 = ([], Inr c, s2)" "same_objects s s2"
      by (rule comes_backE [OF assms(3) s1])
    then show "\<exists>s2. Condition_create i cl (Condition_exportXml i s (NotCondition c) e) s1 = ([], Inr (NotCondition c), s2) \<and> same_objects s s2"
      by (simp add: create return_def del: Condition_exportXml.simps)
  qed
qed

lemma condition_comes_back:
  assumes "proper i cl s c" and "blank e"
  shows "comes_back i cl s c (Condition_exportXml i s c e)"
  using assms
proof (induction c arbitrary: e)
  have blank: "blank (Element t [] [])" for t by (simp add: blank_def)
  case (AndCondition cs)
  then show ?case using blank by (intro list_comes_back(1)) (auto simp: list_all_iff)
next
  have blank: "blank (Element t [] [])" for t by (simp add: blank_def)
  case (OrCondition cs)
  then show ?case using blank by (intro list_comes_back(2)) (auto simp: list_all_iff)
next
  have blank: "blank (Element t [] [])" for t by (simp add: blank_def)
  case (NotCondition c)
  then show ?case using blank by (intro negation_comes_back) auto
next
  case (ObjectCondition c)
  then show ?case by (intro object_comes_back(1))
next
  case (ObjectSourceCondition src c)
  then show ?case by (intro object_comes_back(2)) simp_all
next
  case (ObjectComparisonCondition c p)
  then show ?case by (intro comparison_comes_back)
qed simp_all



end
