(* ===== verification/VarStrings.thy ===== *)
theory VarStrings
  imports Condition_Laws
begin

text \<open>
  \<open>Action::parseVarString\<close>: the values of objects in the texts of actions.  The model follows the index of the code; the
  law compares it with a function on the text.
\<close>

section \<open>Texts by index\<close>

text \<open>\<open>str.find (c, idx)\<close>\<close>

definition find_char :: "char \<Rightarrow> string \<Rightarrow> nat \<Rightarrow> nat option" where
  "find_char c str idx =
     (if c \<in> set (drop idx str) then Some (idx + length (takeWhile (\<lambda>x. x \<noteq> c) (drop idx str))) else None)"

definition substr :: "string \<Rightarrow> nat \<Rightarrow> nat \<Rightarrow> string" where
  "substr str idx n = take n (drop idx str)"

definition replace_at :: "string \<Rightarrow> nat \<Rightarrow> nat \<Rightarrow> string \<Rightarrow> string" where
  "replace_at str idx n text = take idx str @ text @ drop (idx + n) str"

lemma takeWhile_shorter: "c \<in> set xs \<Longrightarrow> length (takeWhile (\<lambda>x. x \<noteq> c) xs) < length xs"
  by (induction xs) auto

lemma find_char_bounds: "find_char c str idx = Some k \<Longrightarrow> idx \<le> k \<and> k < length str"
proof -
  assume *: "find_char c str idx = Some k"
  then have c: "c \<in> set (drop idx str)" and k: "k = idx + length (takeWhile (\<lambda>x. x \<noteq> c) (drop idx str))"
    by (auto simp: find_char_def split: if_splits)
  have "length (takeWhile (\<lambda>x. x \<noteq> c) (drop idx str)) < length (drop idx str)"
    using c by (rule takeWhile_shorter)
  then show ?thesis using k by simp
qed

section \<open>parseVarString\<close>

text \<open>The loop, from \<open>idx\<close> on; the text so far and whether it was modified are its result.\<close>

function parse_vars ::
    "inputs \<Rightarrow> bool \<Rightarrow> string \<Rightarrow> nat \<Rightarrow> bool \<Rightarrow> 'a engine_scheme \<Rightarrow> (bool \<times> string, 'a engine_scheme) run" where
  "parse_vars i checkOnly str idx modified s =
     (case find_char CHR ''$'' str idx of
        None \<Rightarrow> return (modified, str) s
      | Some k \<Rightarrow>
          if length str \<le> k + 1 then return (modified, str) s
          else if str ! (k + 1) = CHR ''{'' then
            (case find_char CHR ''}'' str (k + 2) of
               None \<Rightarrow> return (modified, str) s
             | Some k2 \<Rightarrow>
                 bind (lookup (substr str (k + 2) (k2 - (k + 2))) s) (\<lambda>p s.
                   if checkOnly then bind (release p s) (\<lambda>_. parse_vars i checkOnly str (k + 2) True)
                   else
                     bind (get_value i p s) (\<lambda>v s.
                       let val = ov_toString (env.truncate (in_sv i)) v in
                       bind (release p s) (\<lambda>_.
                         parse_vars i checkOnly (replace_at str k (3 + k2 - (k + 2)) val) (k + length val) True))))
          else if str ! (k + 1) = CHR ''$'' then parse_vars i checkOnly (replace_at str (k + 1) 1 '''') (k + 1) True s
          else parse_vars i checkOnly str (k + 1) modified s)"
  by pat_completeness auto
termination
proof (relation "measure (\<lambda>(i, checkOnly, str, idx, modified, s). length str - idx)", goal_cases)
  case (3 i checkOnly str idx modified s k k2)
  then show ?case
    using find_char_bounds [of "CHR ''$''" str idx k] find_char_bounds [of "CHR ''}''" str "k + 2" k2]
    by (auto simp: replace_at_def min_def)
qed (auto simp: replace_at_def dest!: find_char_bounds)

declare parse_vars.simps [simp del]

definition parseVarString :: "inputs \<Rightarrow> bool \<Rightarrow> string \<Rightarrow> 'a engine_scheme \<Rightarrow> (bool \<times> string, 'a engine_scheme) run" where
  "parseVarString i checkOnly str s = parse_vars i checkOnly str 0 False s"

section \<open>Its meaning\<close>

text \<open>What is inserted is not looked at again; a dollar at the end and an open brace without a closing one stay.\<close>

lemma length_tl_dropWhile [termination_simp]: "length (dropWhile P xs) - Suc 0 < Suc (Suc (length xs))"
  using length_dropWhile_le [of P xs] by linarith

fun expand :: "(string \<Rightarrow> string) \<Rightarrow> string \<Rightarrow> string" where
  "expand val [] = []"
| "expand val [c] = [c]"
| "expand val (c # d # cs) =
     (if c \<noteq> CHR ''$'' then c # expand val (d # cs)
      else if d = CHR ''{'' then
        (if CHR ''}'' \<in> set cs
         then val (takeWhile (\<lambda>x. x \<noteq> CHR ''}'') cs) @ expand val (tl (dropWhile (\<lambda>x. x \<noteq> CHR ''}'') cs))
         else c # d # cs)
      else if d = CHR ''$'' then CHR ''$'' # expand val cs
      else c # expand val (d # cs))"

text \<open>The objects a text names.\<close>

fun names :: "string \<Rightarrow> string list" where
  "names [] = []"
| "names [c] = []"
| "names (c # d # cs) =
     (if c \<noteq> CHR ''$'' then names (d # cs)
      else if d = CHR ''{'' then
        (if CHR ''}'' \<in> set cs
         then takeWhile (\<lambda>x. x \<noteq> CHR ''}'') cs # names (tl (dropWhile (\<lambda>x. x \<noteq> CHR ''}'') cs)) else [])
      else if d = CHR ''$'' then names cs
      else names (d # cs))"

definition available :: "'a engine_scheme \<Rightarrow> string \<Rightarrow> bool" where
  "available s name \<longleftrightarrow>
     (case map_of (objectIdMap_m (objects s)) name of
        None \<Rightarrow> False
      | Some p \<Rightarrow> (case heap (objects s) p of None \<Rightarrow> False | Some obj \<Rightarrow> init_m obj \<and> refCount_m obj \<ge> 0))"

definition text_of :: "inputs \<Rightarrow> 'a engine_scheme \<Rightarrow> string \<Rightarrow> string" where
  "text_of i s name = ov_toString (env.truncate (in_sv i)) (value_at s (the (map_of (objectIdMap_m (objects s)) name)))"

lemma availableE:
  assumes "available s name"
  obtains p obj where "map_of (objectIdMap_m (objects s)) name = Some p" "heap (objects s) p = Some obj" "init_m obj" "refCount_m obj \<ge> 0"
  using assms by (auto simp: available_def split: option.splits)

text \<open>Looking an object up, reading it and letting it go leaves no trace.\<close>

lemma insert_value:
  assumes "available s name"
  shows "bind (lookup name s) (\<lambda>p s. bind (get_value i p s) (\<lambda>v s. bind (release p s) (f v))) =
     f (value_at s (the (map_of (objectIdMap_m (objects s)) name))) () s"
proof -
  obtain p obj where p: "map_of (objectIdMap_m (objects s)) name = Some p" "heap (objects s) p = Some obj" "init_m obj" "refCount_m obj \<ge> 0"
    using assms by (rule availableE)
  define s1 where "s1 = s\<lparr>objects := update_object p (incRefCount obj) (objects s)\<rparr>"
  have lookup: "lookup name s = ([], Inr p, s1)"
    using p by (simp add: lookup_def getObject_def on_objects_def call_object_def finish_def value_of_def s1_def)
  have h1: "heap (objects s1) p = Some (incRefCount obj)" by (simp add: s1_def update_object_def)
  have get: "get_value i p s1 = return (obj_value obj) s1"
    using get_value_ready [of s1 p i] h1 p(3) by (simp add: has_value_def value_at_def incRefCount_def)
  have "release p s1 = ([], Inr (), s1\<lparr>objects := update_object p obj (objects s1)\<rparr>)"
    using h1 p(4) by (simp add: release_def call_def on_objects_def call_object_def decRefCount_def incRefCount_def finish_def value_of_def)
  moreover have "s1\<lparr>objects := update_object p obj (objects s1)\<rparr> = s"
    using p(2) by (simp add: s1_def update_object_def fun_upd_idem)
  ultimately have release: "release p s1 = ([], Inr (), s)" by simp
  show ?thesis using p by (simp add: lookup get release value_at_def)
qed

lemma find_char_skip: "idx < length str \<Longrightarrow> str ! idx \<noteq> c \<Longrightarrow> find_char c str (Suc idx) = find_char c str idx"
  by (simp add: find_char_def flip: Cons_nth_drop_Suc)

lemma parse_vars_skip:
  assumes "c \<noteq> CHR ''$''"
  shows "parse_vars i b (pre @ c # cs) (length pre) m s = parse_vars i b (pre @ c # cs) (Suc (length pre)) m s"
proof -
  have "find_char CHR ''$'' (pre @ c # cs) (Suc (length pre)) = find_char CHR ''$'' (pre @ c # cs) (length pre)"
    using assms by (intro find_char_skip) simp_all
  then show ?thesis by (subst (1 2) parse_vars.simps) (simp only:)
qed

lemma find_dollar: "find_char CHR ''$'' (pre @ CHR ''$'' # cs) (length pre) = Some (length pre)"
  by (simp add: find_char_def)

lemma parse_vars_expand:
  "\<forall>name \<in> set (names str). available s name \<Longrightarrow>
   \<exists>m'. parse_vars i False (pre @ str) (length pre) m s = return (m', pre @ expand (text_of i s) str) s"
proof (induction "text_of i s" str arbitrary: pre m rule: expand.induct)
  case 1
  show ?case by (subst parse_vars.simps) (auto simp: find_char_def)
next
  case (2 c)
  show ?case by (subst parse_vars.simps) (auto simp: find_char_def)
next
  case (3 c d cs)
  let ?P = "\<lambda>str pre m. \<exists>m'. parse_vars i False (pre @ str) (length pre) m s = return (m', pre @ expand (text_of i s) str) s"
  show ?case
  proof (cases "c = CHR ''$''")
    case False
    then have "?P (d # cs) (pre @ [c]) m" using 3 by (intro "3.hyps"(1)) simp_all
    then show ?thesis using False by (simp add: parse_vars_skip)
  next
    case True
    show ?thesis
    proof (cases "d = CHR ''{''")
      case brace: True
      show ?thesis
      proof (cases "CHR ''}'' \<in> set cs")
        case False
        then show ?thesis unfolding True brace
          by (subst parse_vars.simps) (auto simp: find_dollar find_char_def nth_append)
      next
        case closed: True
        let ?name = "takeWhile (\<lambda>x. x \<noteq> CHR ''}'') cs" and ?rest = "tl (dropWhile (\<lambda>x. x \<noteq> CHR ''}'') cs)"
        have find: "find_char CHR ''}'' (pre @ c # d # cs) (length pre + 2) = Some (length pre + 2 + length ?name)"
          using closed by (simp add: find_char_def)
        have sub: "substr (pre @ c # d # cs) (length pre + 2) (length ?name) = ?name"
          by (simp add: substr_def takeWhile_eq_take [symmetric])
        have rest: "drop (Suc (length ?name)) cs = ?rest" by (simp add: dropWhile_eq_drop drop_Suc tl_drop)
        have replaced: "replace_at (pre @ c # d # cs) (length pre) (3 + (length pre + 2 + length ?name) - (length pre + 2)) val = (pre @ val) @ ?rest" for val
          using rest by (simp add: replace_at_def numeral_3_eq_3)
        have avail: "available s ?name" using 3 True brace closed by simp
        have "?P ?rest (pre @ text_of i s ?name) True"
          using 3 True brace closed by (intro "3.hyps"(2)) simp_all
        then show ?thesis
          using find sub replaced closed unfolding True brace
          by (subst parse_vars.simps) (simp add: find_dollar nth_append text_of_def Let_def insert_value [OF avail, of i])
      qed
    next
      case no_brace: False
      show ?thesis
      proof (cases "d = CHR ''$''")
        case double: True
        have "?P cs (pre @ [c]) True" using 3 True double by (intro "3.hyps"(3)) simp_all
        then show ?thesis unfolding True double
          by (subst parse_vars.simps) (simp add: find_dollar nth_append replace_at_def)
      next
        case False
        then have "?P (d # cs) (pre @ [c]) m" using 3 True no_brace by (intro "3.hyps"(4)) simp_all
        then show ?thesis using no_brace False unfolding True
          by (subst parse_vars.simps) (simp add: find_dollar nth_append)
      qed
    qed
  qed
qed

section \<open>The check\<close>

lemma bind_InrE:
  assumes "bind r f = (effs, Inr w, s')"
  obtains e1 v s1 e2 where "r = (e1, Inr v, s1)" "f v s1 = (e2, Inr w, s')"
  using assms by (cases r) (auto simp: bind_def split: sum.splits prod.splits)

lemma modified_stays: "parse_vars i b str idx True s = (effs, Inr (m', t), s') \<Longrightarrow> m'"
proof (induction i b str idx "True" s arbitrary: effs rule: parse_vars.induct)
  case (1 i b str idx s)
  show ?case
  proof (cases "find_char CHR ''$'' str idx")
    case None
    then show ?thesis using "1.prems" by (subst (asm) parse_vars.simps) (simp add: return_def)
  next
    case (Some k)
    note hyps = "1.hyps" [OF Some]
    note prems = "1.prems" [unfolded parse_vars.simps [of i b str idx True s] Some option.case]
    consider "length str \<le> k + 1" | "\<not> length str \<le> k + 1" "str ! (k + 1) = CHR ''{''"
      | "\<not> length str \<le> k + 1" "str ! (k + 1) \<noteq> CHR ''{''" "str ! (k + 1) = CHR ''$''"
      | "\<not> length str \<le> k + 1" "str ! (k + 1) \<noteq> CHR ''{''" "str ! (k + 1) \<noteq> CHR ''$''"
      by blast
    then show ?thesis
    proof cases
      case 1
      then show ?thesis using prems by (simp add: return_def)
    next
      case 2
      show ?thesis
      proof (cases "find_char CHR ''}'' str (k + 2)")
        case None
        then show ?thesis using prems 2 by (simp add: return_def)
      next
        case (Some k2)
        note hyps = hyps(1,2) [OF 2 Some]
        show ?thesis
        proof (cases b)
          case True
          then show ?thesis
            using prems 2 Some hyps(1) by (simp only: if_True if_False option.case) (auto elim!: bind_InrE)
        next
          case False
          then show ?thesis
            using prems 2 Some hyps(2) by (simp only: if_True if_False option.case Let_def) (auto elim!: bind_InrE)
        qed
      qed
    next
      case 3
      then show ?thesis using prems hyps(3) [OF 3] by simp
    next
      case 4
      then show ?thesis using prems hyps(4) [OF 4] by simp
    qed
  qed
qed

lemma unmodified_is_plain:
  "parse_vars i True (pre @ str) (length pre) m s = (effs, Inr (False, t), s') \<Longrightarrow> \<not> m \<and> expand val str = str"
proof (induction val str arbitrary: pre m effs rule: expand.induct)
  case (1 val)
  then show ?case by (subst (asm) parse_vars.simps) (auto simp: find_char_def return_def)
next
  case (2 val c)
  then show ?case by (subst (asm) parse_vars.simps) (auto simp: find_char_def return_def split: if_splits)
next
  case (3 val c d cs)
  show ?case
  proof (cases "c = CHR ''$''")
    case False
    have "parse_vars i True ((pre @ [c]) @ d # cs) (length (pre @ [c])) m s = (effs, Inr (False, t), s')"
      using "3.prems" False by (simp add: parse_vars_skip)
    then show ?thesis using "3.IH"(1) [of "pre @ [c]" m effs] False by simp
  next
    case True
    show ?thesis
    proof (cases "d = CHR ''{''")
      case brace: True
      have "CHR ''}'' \<notin> set cs \<and> \<not> m"
        using "3.prems" unfolding True brace
        by (subst (asm) parse_vars.simps)
          (auto simp: find_dollar find_char_def nth_append return_def split: if_splits elim!: bind_InrE dest: modified_stays)
      then show ?thesis using True brace by simp
    next
      case no_brace: False
      have "d \<noteq> CHR ''$'' \<and> parse_vars i True ((pre @ [c]) @ d # cs) (length (pre @ [c])) m s = (effs, Inr (False, t), s')"
        using "3.prems" no_brace unfolding True
        by (subst (asm) parse_vars.simps) (auto simp: find_dollar nth_append split: if_splits dest: modified_stays)
      then show ?thesis using "3.IH"(4) [of "pre @ [c]" m effs] True no_brace by simp
    qed
  qed
qed

section \<open>Properties\<close>

text \<open>
  C21.  \<open>parseVarString\<close> computes the expansion of the text, when the objects it names exist and have a value, sends nothing
  and leaves the objects, their reference counts included, as they were; and a text the check of the configuration
  found nothing in is its own expansion, so the actions that expand only the others always send the expansion.
\<close>

theorem parse_is_expansion:
  assumes "\<forall>name \<in> set (names str). available s name"
  shows "(\<exists>m. parseVarString i False str s = return (m, expand (text_of i s) str) s)
     \<and> (case parseVarString i True str s0 of (_, Inr (False, _), _) \<Rightarrow> expand (text_of i s) str = str | _ \<Rightarrow> True)"
proof
  show "\<exists>m. parseVarString i False str s = return (m, expand (text_of i s) str) s"
    using parse_vars_expand [OF assms, of i "[]" False] by (simp add: parseVarString_def)
  show "case parseVarString i True str s0 of (_, Inr (False, _), _) \<Rightarrow> expand (text_of i s) str = str | _ \<Rightarrow> True"
    using unmodified_is_plain [of i "[]" str False s0] by (auto simp: parseVarString_def split: sum.split bool.split prod.split)
qed

theorem parse_is_expansion_witness:
  "\<exists>(i :: inputs) (s :: engine) m. parseVarString i False ''T=${a} $$'' s = return (m, ''T=on $'') s"
proof -
  define obj where "obj = (Object_new 0 (Switching \<lparr>sw_eis = 1, sw_value = True\<rparr>))\<lparr>id_m := ''a'', init_m := True\<rparr>"
  define s :: engine where "s = \<lparr>taskList_m = [], tasks = (\<lambda>_. None),
      objects = ObjectController_new\<lparr>heap := [0 \<mapsto> obj], objectIdMap_m := [(''a'', 0)]\<rparr>, refValue_m = (\<lambda>_. 0), next_id = 0\<rparr>"
  have "\<forall>name \<in> set (names ''T=${a} $$''). available s name"
    by (simp add: available_def s_def obj_def Object_new_def)
  from parse_is_expansion [OF this]
  have "\<exists>m. parseVarString i False ''T=${a} $$'' s = return (m, expand (text_of i s) ''T=${a} $$'') s" for i by blast
  moreover have "expand (text_of i s) ''T=${a} $$'' = ''T=on $''" for i
    by (simp add: text_of_def s_def obj_def Object_new_def value_at_def SwitchingObjectValue_toString_def
        SwitchingObjectValue_getValueString_def SwitchingTypes_def)
  ultimately show ?thesis by metis
qed

end
