(* ===== verification/Actions.thy ===== *)
theory Actions
  imports VarStrings
begin

text \<open>
  The actions of src/ruleserver.h and .cpp: their construction from the configuration and their export; what their
  threads do is in theory \<open>Runs\<close>.  An action is known to its thread and to the objects by its pointer.  The actions of
  src/ioport.cpp and src/luacondition.cpp are foreign: they keep their configuration.
\<close>

section \<open>State\<close>

text \<open>\<open>varFlags_m\<close> holds the bits 1 (enabled), 2, 4 and 8 (the texts to expand).\<close>

datatype action = Action (action_ptr: ptr) (delay_m: int) (kind: action_kind)
  and action_kind =
    DimUpAction ptr u32 u32 u32
  | SetValueAction ptr ObjectValue
  | CopyValueAction ptr ptr
  | ToggleValueAction ptr
  | FormulaAction ptr "ptr option" "ptr option" rat rat rat rat rat
  | SetStringAction ptr string
  | SendReadRequestAction ptr
  | CycleOnOffAction ptr int int int
  | RepeatListAction int int "action list"
  | ConditionalAction condition "action list"
  | SendSmsAction int string string
  | SendEmailAction int string string string
  | ShellCommandAction int string
  | StartActionlistAction string bool
  | CancelAction string
  | SetRuleActiveAction string bool
  | ForeignAction xml

text \<open>The members of \<open>CycleOnOffAction\<close> its listener uses, by the pointer of the action.\<close>

record actors = engine +
  stopCondition_m :: "ptr \<Rightarrow> condition option"
  running_m :: "ptr \<Rightarrow> bool"

section \<open>Export\<close>

definition Action_exportXml :: "int \<Rightarrow> xml \<Rightarrow> xml" where
  "Action_exportXml delay e = (if delay \<noteq> 0 then SetAttribute ''delay'' (formatDuration delay True) e else e)"

definition DimUpAction_exportXml :: "ObjectController \<Rightarrow> ptr \<Rightarrow> u32 \<Rightarrow> u32 \<Rightarrow> u32 \<Rightarrow> int \<Rightarrow> xml \<Rightarrow> xml" where
  "DimUpAction_exportXml oc p start stop duration delay e =
     Action_exportXml delay
       (SetAttribute ''duration'' (formatDuration (sint duration) True)
       (SetAttribute ''stop'' (show_int (uint stop))
       (SetAttribute ''start'' (show_int (uint start))
       (SetAttribute ''id'' (object_id oc p) (SetAttribute ''type'' ''dim-up'' e)))))"

definition SetValueAction_exportXml :: "inputs \<Rightarrow> ObjectController \<Rightarrow> ptr \<Rightarrow> ObjectValue \<Rightarrow> int \<Rightarrow> xml \<Rightarrow> xml" where
  "SetValueAction_exportXml i oc p v delay e =
     Action_exportXml delay
       (SetAttribute ''value'' (ov_toString (env.truncate (in_sv i)) v)
       (SetAttribute ''id'' (object_id oc p) (SetAttribute ''type'' ''set-value'' e)))"

definition CopyValueAction_exportXml :: "ObjectController \<Rightarrow> ptr \<Rightarrow> ptr \<Rightarrow> int \<Rightarrow> xml \<Rightarrow> xml" where
  "CopyValueAction_exportXml oc from to delay e =
     Action_exportXml delay
       (SetAttribute ''to'' (object_id oc to)
       (SetAttribute ''from'' (object_id oc from) (SetAttribute ''type'' ''copy-value'' e)))"

text \<open>The actions whose only own member is the object.\<close>

definition ToggleValueAction_exportXml :: "ObjectController \<Rightarrow> ptr \<Rightarrow> int \<Rightarrow> xml \<Rightarrow> xml" where
  "ToggleValueAction_exportXml oc p delay e =
     Action_exportXml delay (SetAttribute ''id'' (object_id oc p) (SetAttribute ''type'' ''toggle-value'' e))"

definition SendReadRequestAction_exportXml :: "ObjectController \<Rightarrow> ptr \<Rightarrow> int \<Rightarrow> xml \<Rightarrow> xml" where
  "SendReadRequestAction_exportXml oc p delay e =
     Action_exportXml delay (SetAttribute ''id'' (object_id oc p) (SetAttribute ''type'' ''send-read-request'' e))"

definition export_object :: "ObjectController \<Rightarrow> string \<Rightarrow> ptr option \<Rightarrow> xml \<Rightarrow> xml" where
  "export_object oc name x e = (case x of None \<Rightarrow> e | Some p \<Rightarrow> SetAttribute name (object_id oc p) e)"

definition export_factor :: "string \<Rightarrow> rat \<Rightarrow> rat \<Rightarrow> xml \<Rightarrow> xml" where
  "export_factor name d x e = (if x \<noteq> d then SetAttribute name (fmt_g 6 x) e else e)"

definition FormulaAction_exportXml ::
    "ObjectController \<Rightarrow> ptr \<Rightarrow> ptr option \<Rightarrow> ptr option \<Rightarrow> rat \<Rightarrow> rat \<Rightarrow> rat \<Rightarrow> rat \<Rightarrow> rat \<Rightarrow> int \<Rightarrow> xml \<Rightarrow> xml" where
  "FormulaAction_exportXml oc p x y a b c m n delay e =
     (let e = SetAttribute ''id'' (object_id oc p) (SetAttribute ''type'' ''formula'' e);
          e = export_object oc ''y'' y (export_object oc ''x'' x e);
          e = export_factor ''c'' 0 c (export_factor ''b'' 1 b (export_factor ''a'' 1 a e))
      in Action_exportXml delay (export_factor ''n'' 1 n (export_factor ''m'' 1 m e)))"

definition SetStringAction_exportXml :: "ObjectController \<Rightarrow> ptr \<Rightarrow> string \<Rightarrow> int \<Rightarrow> xml \<Rightarrow> xml" where
  "SetStringAction_exportXml oc p text delay e =
     Action_exportXml delay
       (SetAttribute ''value'' text (SetAttribute ''id'' (object_id oc p) (SetAttribute ''type'' ''set-string'' e)))"

definition CycleOnOffAction_exportXml ::
    "inputs \<Rightarrow> 'a actors_scheme \<Rightarrow> ptr \<Rightarrow> ptr \<Rightarrow> int \<Rightarrow> int \<Rightarrow> int \<Rightarrow> int \<Rightarrow> xml \<Rightarrow> xml" where
  "CycleOnOffAction_exportXml i s self p on off rounds delay e =
     (let e = SetAttribute ''id'' (object_id (objects s) p) (SetAttribute ''type'' ''cycle-on-off'' e);
          e = SetAttribute ''off'' (formatDuration off True) (SetAttribute ''on'' (formatDuration on True) e);
          e = Action_exportXml delay (SetAttribute ''count'' (show_int rounds) e)
      in case stopCondition_m s self of
           None \<Rightarrow> e
         | Some c \<Rightarrow> LinkEndChild (Condition_exportXml i s c (Element ''stopcondition'' [] [])) e)"

definition export_var :: "int \<Rightarrow> xml \<Rightarrow> xml" where
  "export_var flags e = (if flags AND 1 \<noteq> 0 then SetAttribute ''var'' ''true'' e else e)"

definition SendSmsAction_exportXml :: "int \<Rightarrow> string \<Rightarrow> string \<Rightarrow> int \<Rightarrow> xml \<Rightarrow> xml" where
  "SendSmsAction_exportXml flags ident text delay e =
     Action_exportXml delay
       (export_var flags (SetAttribute ''value'' text (SetAttribute ''id'' ident (SetAttribute ''type'' ''send-sms'' e))))"

definition SendEmailAction_exportXml :: "int \<Rightarrow> string \<Rightarrow> string \<Rightarrow> string \<Rightarrow> int \<Rightarrow> xml \<Rightarrow> xml" where
  "SendEmailAction_exportXml flags to subject text delay e =
     (let e = SetAttribute ''subject'' subject (SetAttribute ''to'' to (SetAttribute ''type'' ''send-email'' e));
          e = export_var flags e
      in Action_exportXml delay (if text \<noteq> '''' then LinkEndChild (Text text) e else e))"

definition ShellCommandAction_exportXml :: "int \<Rightarrow> string \<Rightarrow> int \<Rightarrow> xml \<Rightarrow> xml" where
  "ShellCommandAction_exportXml flags cmd delay e =
     Action_exportXml delay (export_var flags (SetAttribute ''cmd'' cmd (SetAttribute ''type'' ''shell-cmd'' e)))"

definition StartActionlistAction_exportXml :: "string \<Rightarrow> bool \<Rightarrow> int \<Rightarrow> xml \<Rightarrow> xml" where
  "StartActionlistAction_exportXml rule_id lst delay e =
     Action_exportXml delay
       (SetAttribute ''list'' (if lst then ''true'' else ''false'')
       (SetAttribute ''rule-id'' rule_id (SetAttribute ''type'' ''start-actionlist'' e)))"

definition CancelAction_exportXml :: "string \<Rightarrow> int \<Rightarrow> xml \<Rightarrow> xml" where
  "CancelAction_exportXml rule_id delay e =
     Action_exportXml delay (SetAttribute ''rule-id'' rule_id (SetAttribute ''type'' ''cancel'' e))"

definition SetRuleActiveAction_exportXml :: "string \<Rightarrow> bool \<Rightarrow> int \<Rightarrow> xml \<Rightarrow> xml" where
  "SetRuleActiveAction_exportXml rule_id active delay e =
     Action_exportXml delay
       (SetAttribute ''active'' (if active then ''yes'' else ''no'')
       (SetAttribute ''rule-id'' rule_id (SetAttribute ''type'' ''set-rule-active'' e)))"

text \<open>The virtual function; the delay is that of the action.\<close>

fun exportXml_virtual :: "inputs \<Rightarrow> 'a actors_scheme \<Rightarrow> action \<Rightarrow> xml \<Rightarrow> xml"
  and export_action_list :: "inputs \<Rightarrow> 'a actors_scheme \<Rightarrow> action list \<Rightarrow> xml \<Rightarrow> xml" where
  "exportXml_virtual i s (Action self delay k) e =
     (case k of
        DimUpAction p start stop duration \<Rightarrow> DimUpAction_exportXml (objects s) p start stop duration delay e
      | SetValueAction p v \<Rightarrow> SetValueAction_exportXml i (objects s) p v delay e
      | CopyValueAction from to \<Rightarrow> CopyValueAction_exportXml (objects s) from to delay e
      | ToggleValueAction p \<Rightarrow> ToggleValueAction_exportXml (objects s) p delay e
      | FormulaAction p x y a b c m n \<Rightarrow> FormulaAction_exportXml (objects s) p x y a b c m n delay e
      | SetStringAction p text \<Rightarrow> SetStringAction_exportXml (objects s) p text delay e
      | SendReadRequestAction p \<Rightarrow> SendReadRequestAction_exportXml (objects s) p delay e
      | CycleOnOffAction p on off rounds \<Rightarrow> CycleOnOffAction_exportXml i s self p on off rounds delay e
      | RepeatListAction period rounds acts \<Rightarrow>
          (let e = SetAttribute ''period'' (formatDuration period True) (SetAttribute ''type'' ''repeat'' e)
           in export_action_list i s acts (Action_exportXml delay (SetAttribute ''count'' (show_int rounds) e)))
      | ConditionalAction c acts \<Rightarrow>
          (let e = LinkEndChild (Condition_exportXml i s c (Element ''condition'' [] [])) (SetAttribute ''type'' ''conditional'' e)
           in export_action_list i s acts (Action_exportXml delay e))
      | SendSmsAction flags ident text \<Rightarrow> SendSmsAction_exportXml flags ident text delay e
      | SendEmailAction flags to subject text \<Rightarrow> SendEmailAction_exportXml flags to subject text delay e
      | ShellCommandAction flags cmd \<Rightarrow> ShellCommandAction_exportXml flags cmd delay e
      | StartActionlistAction rule_id lst \<Rightarrow> StartActionlistAction_exportXml rule_id lst delay e
      | CancelAction rule_id \<Rightarrow> CancelAction_exportXml rule_id delay e
      | SetRuleActiveAction rule_id active \<Rightarrow> SetRuleActiveAction_exportXml rule_id active delay e
      | ForeignAction cfg \<Rightarrow> in_foreign_xml i cfg e)"
| "export_action_list i s [] e = e"
| "export_action_list i s (a # acts) e =
     export_action_list i s acts (LinkEndChild (exportXml_virtual i s a (Element ''action'' [] [])) e)"

section \<open>Construction\<close>

text \<open>\<open>dynamic_cast\<close> of the object found by its ID; the reference is given back when it has another class.\<close>

definition lookup_class :: "(ObjectValue \<Rightarrow> 'c option) \<Rightarrow> string \<Rightarrow> 'a engine_scheme \<Rightarrow> (ptr, 'a engine_scheme) run" where
  "lookup_class cast oid s =
     bind (lookup oid s) (\<lambda>p s.
     bind (the_object p s) (\<lambda>obj s.
       if cast (obj_value obj) = None then bind (release p s) (\<lambda>_. fail (Bad_type oid)) else return p s))"

definition DimUpAction_importXml :: "xml \<Rightarrow> 'a engine_scheme \<Rightarrow> (action_kind, 'a engine_scheme) run" where
  "DimUpAction_importXml cfg s =
     bind (lookup_class cast_uint (GetAttribute cfg ''id'') s) (\<lambda>p s.
     bind (from_result (need_unsigned cfg ''start'') s) (\<lambda>start s.
     bind (from_result (need_unsigned cfg ''stop'') s) (\<lambda>stop s.
     bind (from_result (parseDuration (GetAttribute cfg ''duration'') False True) s) (\<lambda>duration.
       return (DimUpAction p (word_of_int start) (word_of_int stop) (word_of_int duration))))))"

definition SetValueAction_importXml :: "inputs \<Rightarrow> xml \<Rightarrow> 'a engine_scheme \<Rightarrow> (action_kind, 'a engine_scheme) run" where
  "SetValueAction_importXml i cfg s =
     bind (lookup (GetAttribute cfg ''id'') s) (\<lambda>p s.
     bind (create_value i (GetAttribute cfg ''value'') p s) (\<lambda>v. return (SetValueAction p v)))"

definition CopyValueAction_importXml :: "xml \<Rightarrow> 'a engine_scheme \<Rightarrow> (action_kind, 'a engine_scheme) run" where
  "CopyValueAction_importXml cfg s =
     bind (lookup (GetAttribute cfg ''to'') s) (\<lambda>to s.
     bind (lookup (GetAttribute cfg ''from'') s) (\<lambda>from s.
     bind (the_object from s) (\<lambda>f s.
     bind (the_object to s) (\<lambda>t s.
       if ov_getType (obj_value f) \<noteq> ov_getType (obj_value t) then fail (Bad_type (id_m f)) s
       else return (CopyValueAction from to) s))))"

definition ToggleValueAction_importXml :: "xml \<Rightarrow> 'a engine_scheme \<Rightarrow> (action_kind, 'a engine_scheme) run" where
  "ToggleValueAction_importXml cfg s =
     bind (lookup_class cast_switching (GetAttribute cfg ''id'') s) (\<lambda>p. return (ToggleValueAction p))"

definition lookup_optional :: "string \<Rightarrow> 'a engine_scheme \<Rightarrow> (ptr option, 'a engine_scheme) run" where
  "lookup_optional oid s = (if oid = '''' then return None s else bind (lookup oid s) (\<lambda>p. return (Some p)))"

definition FormulaAction_importXml :: "xml \<Rightarrow> 'a engine_scheme \<Rightarrow> (action_kind, 'a engine_scheme) run" where
  "FormulaAction_importXml cfg s =
     bind (lookup (GetAttribute cfg ''id'') s) (\<lambda>p s.
     bind (lookup_optional (GetAttribute cfg ''x'') s) (\<lambda>x s.
     bind (lookup_optional (GetAttribute cfg ''y'') s) (\<lambda>y s.
     bind (from_result (attribute_float cfg ''a'' 1) s) (\<lambda>a s.
     bind (from_result (attribute_float cfg ''b'' 1) s) (\<lambda>b s.
     bind (from_result (attribute_float cfg ''c'' 0) s) (\<lambda>c s.
     bind (from_result (attribute_float cfg ''m'' 1) s) (\<lambda>m s.
     bind (from_result (attribute_float cfg ''n'' 1) s) (\<lambda>n. return (FormulaAction p x y a b c m n)))))))))"

definition SetStringAction_importXml :: "inputs \<Rightarrow> xml \<Rightarrow> 'a engine_scheme \<Rightarrow> (action_kind, 'a engine_scheme) run" where
  "SetStringAction_importXml i cfg s =
     bind (lookup (GetAttribute cfg ''id'') s) (\<lambda>p s.
     bind (parseVarString i True (GetAttribute cfg ''value'') s) (\<lambda>_. return (SetStringAction p (GetAttribute cfg ''value''))))"

definition SendReadRequestAction_importXml :: "xml \<Rightarrow> 'a engine_scheme \<Rightarrow> (action_kind, 'a engine_scheme) run" where
  "SendReadRequestAction_importXml cfg s =
     bind (lookup (GetAttribute cfg ''id'') s) (\<lambda>p. return (SendReadRequestAction p))"

definition CycleOnOffAction_importXml :: "inputs \<Rightarrow> ptr \<Rightarrow> xml \<Rightarrow> 'a actors_scheme \<Rightarrow> (action_kind, 'a actors_scheme) run" where
  "CycleOnOffAction_importXml i self cfg s =
     (let s = s\<lparr>stopCondition_m := (stopCondition_m s)(self := None), running_m := (running_m s)(self := False)\<rparr> in
      bind (lookup_class cast_switching (GetAttribute cfg ''id'') s) (\<lambda>p s.
      bind (from_result (parseDuration (GetAttribute cfg ''on'') False True) s) (\<lambda>on s.
      bind (from_result (parseDuration (GetAttribute cfg ''off'') False True) s) (\<lambda>off s.
      bind (from_result (need_int cfg ''count'') s) (\<lambda>rounds s.
        case FirstChildElement ''stopcondition'' cfg of
          None \<Rightarrow> return (CycleOnOffAction p on off rounds) s
        | Some child \<Rightarrow>
            bind (Condition_create i (Some self) child s) (\<lambda>c s.
              return (CycleOnOffAction p on off rounds) (s\<lparr>stopCondition_m := (stopCondition_m s)(self \<mapsto> c)\<rparr>)))))))"

text \<open>The flag \<open>var\<close> of a text the check finds something in.\<close>

definition var_flag :: "inputs \<Rightarrow> int \<Rightarrow> string \<Rightarrow> int \<Rightarrow> 'a engine_scheme \<Rightarrow> (int, 'a engine_scheme) run" where
  "var_flag i var text flags s =
     bind (parseVarString i True text s) (\<lambda>(modified, _). return (if modified then flags OR var else flags))"

definition SendSmsAction_importXml :: "inputs \<Rightarrow> xml \<Rightarrow> 'a engine_scheme \<Rightarrow> (action_kind, 'a engine_scheme) run" where
  "SendSmsAction_importXml i cfg s =
     (let ident = GetAttribute cfg ''id''; text = GetAttribute cfg ''value'' in
      if GetAttribute cfg ''var'' = ''true'' then
        bind (var_flag i 2 ident 1 s) (\<lambda>flags s.
        bind (var_flag i 4 text flags s) (\<lambda>flags. return (SendSmsAction flags ident text)))
      else return (SendSmsAction 0 ident text) s)"

definition SendEmailAction_importXml :: "inputs \<Rightarrow> xml \<Rightarrow> 'a engine_scheme \<Rightarrow> (action_kind, 'a engine_scheme) run" where
  "SendEmailAction_importXml i cfg s =
     (let to = GetAttribute cfg ''to''; subject = GetAttribute cfg ''subject'' in
      case GetText cfg of
        None \<Rightarrow> fail (Missing_element ''text'') s
      | Some text \<Rightarrow>
          if GetAttribute cfg ''var'' = ''true'' then
            bind (var_flag i 2 to 1 s) (\<lambda>flags s.
            bind (var_flag i 4 subject flags s) (\<lambda>flags s.
            bind (var_flag i 8 text flags s) (\<lambda>flags. return (SendEmailAction flags to subject text))))
          else return (SendEmailAction 0 to subject text) s)"

definition ShellCommandAction_importXml :: "inputs \<Rightarrow> xml \<Rightarrow> 'a engine_scheme \<Rightarrow> (action_kind, 'a engine_scheme) run" where
  "ShellCommandAction_importXml i cfg s =
     (let cmd = GetAttribute cfg ''cmd'' in
      if GetAttribute cfg ''var'' = ''true''
      then bind (var_flag i 2 cmd 1 s) (\<lambda>flags. return (ShellCommandAction flags cmd))
      else return (ShellCommandAction 0 cmd) s)"

definition StartActionlistAction_importXml :: "xml \<Rightarrow> action_kind result" where
  "StartActionlistAction_importXml cfg =
     res_bind (need_attribute cfg ''rule-id'') (\<lambda>rule_id.
       Inr (StartActionlistAction rule_id (GetAttribute cfg ''list'' \<noteq> ''false'')))"

definition CancelAction_importXml :: "xml \<Rightarrow> action_kind result" where
  "CancelAction_importXml cfg = res_bind (need_attribute cfg ''rule-id'') (\<lambda>rule_id. Inr (CancelAction rule_id))"

definition truthy :: "string \<Rightarrow> bool" where
  "truthy value \<longleftrightarrow> value \<noteq> ''off'' \<and> value \<noteq> ''false'' \<and> value \<noteq> ''no''"

definition SetRuleActiveAction_importXml :: "xml \<Rightarrow> action_kind result" where
  "SetRuleActiveAction_importXml cfg =
     res_bind (need_attribute cfg ''rule-id'') (\<lambda>rule_id. Inr (SetRuleActiveAction rule_id (truthy (GetAttribute cfg ''active''))))"

text \<open>\<open>Action::create (type)\<close>, for the classes without nested actions, and their \<open>importXml\<close>.\<close>

definition create_simple :: "inputs \<Rightarrow> ptr \<Rightarrow> string \<Rightarrow> xml \<Rightarrow> 'a actors_scheme \<Rightarrow> (action_kind, 'a actors_scheme) run" where
  "create_simple i self type cfg s =
     (if type = ''dim-up'' then DimUpAction_importXml cfg s
      else if type = ''set-value'' then SetValueAction_importXml i cfg s
      else if type = ''copy-value'' then CopyValueAction_importXml cfg s
      else if type = ''toggle-value'' then ToggleValueAction_importXml cfg s
      else if type = ''set-string'' then SetStringAction_importXml i cfg s
      else if type = ''send-read-request'' then SendReadRequestAction_importXml cfg s
      else if type = ''cycle-on-off'' then CycleOnOffAction_importXml i self cfg s
      else if type = ''send-sms'' then SendSmsAction_importXml i cfg s
      else if type = ''send-email'' then SendEmailAction_importXml i cfg s
      else if type = ''shell-cmd'' then ShellCommandAction_importXml i cfg s
      else if type = ''ioport-tx'' \<or> type = ''script'' then return (ForeignAction cfg) s
      else if type = ''start-actionlist'' then from_result (StartActionlistAction_importXml cfg) s
      else if type = ''cancel'' then from_result (CancelAction_importXml cfg) s
      else if type = ''set-rule-active'' then from_result (SetRuleActiveAction_importXml cfg) s
      else if type = ''formula'' then FormulaAction_importXml cfg s
      else fail (Bad_type type) s)"

function (sequential) Action_create :: "inputs \<Rightarrow> xml \<Rightarrow> 'a actors_scheme \<Rightarrow> (action, 'a actors_scheme) run"
  and create_actions :: "inputs \<Rightarrow> xml list \<Rightarrow> 'a actors_scheme \<Rightarrow> (action list, 'a actors_scheme) run" where
  "Action_create i cfg s =
     (let type = GetAttribute cfg ''type'' in
      bind (from_result (parseDuration (GetAttribute cfg ''delay'') False True) s) (\<lambda>delay s.
      bind (new_id s) (\<lambda>self s.
        if type = ''repeat'' then
          bind (from_result (parseDuration (GetAttribute cfg ''period'') False True) s) (\<lambda>period s.
          bind (from_result (need_int cfg ''count'') s) (\<lambda>rounds s.
          bind (create_actions i (elements ''action'' cfg) s) (\<lambda>acts.
            return (Action self delay (RepeatListAction period rounds acts)))))
        else if type = ''conditional'' then
          (case FirstChildElement ''condition'' cfg of
             None \<Rightarrow> fail (Missing_element ''condition'') s
           | Some child \<Rightarrow>
               bind (Condition_create i None child s) (\<lambda>c s.
               bind (create_actions i (elements ''action'' cfg) s) (\<lambda>acts.
                 return (Action self delay (ConditionalAction c acts)))))
        else bind (create_simple i self type cfg s) (\<lambda>k. return (Action self delay k)))))"
| "create_actions i [] s = return [] s"
| "create_actions i (cfg # cfgs) s =
     bind (Action_create i cfg s) (\<lambda>a s. bind (create_actions i cfgs s) (\<lambda>acts. return (a # acts)))"
  by pat_completeness auto
termination
  by (relation "measure (\<lambda>x. case x of Inl (_, cfg, _) \<Rightarrow> 2 * size cfg + 1 | Inr (_, cfgs, _) \<Rightarrow> 2 * size_list size cfgs)")
    (use size_elements in \<open>auto simp: less_Suc_eq_le\<close>)

declare Action_create.simps [simp del] create_actions.simps [simp del]

end
