(* ===== verification/Threads.thy ===== *)
theory Threads
  imports Knx_Prelude
begin

text \<open>
  The class \<open>Thread\<close> of src/threads.h and .cpp over the threads of the pth library.  Of the library the model has
  which threads are alive, and for which object they run; they are numbered in the order in which they are
  spawned, and \<open>pth_spawn\<close> never returns 0.  The scheduling is cooperative: the operations are atomic.
\<close>

section \<open>State\<close>

record Thread =
  joinable :: bool
  tid :: nat
  should_stop :: nat

definition Thread_new :: Thread where
  "Thread_new = \<lparr>joinable = True, tid = 0, should_stop = 0\<rparr>"

record pth =
  threads :: "nat \<Rightarrow> Thread"
  alive :: "(nat \<times> nat) list"
  next_tid :: nat

definition pth_new :: pth where
  "pth_new = \<lparr>threads = (\<lambda>_. Thread_new), alive = [], next_tid = 1\<rparr>"

definition is_alive :: "nat \<Rightarrow> pth \<Rightarrow> bool" where
  "is_alive n s \<longleftrightarrow> n \<in> fst ` set (alive s)"

definition set_thread :: "nat \<Rightarrow> Thread \<Rightarrow> pth \<Rightarrow> pth" where
  "set_thread p t s = s\<lparr>threads := (threads s)(p := t)\<rparr>"

section \<open>Operations\<close>

text \<open>\<open>pth_join\<close> waits until the thread has ended; a detached thread is not waited for, and its \<open>tid\<close> is forgotten at once.\<close>

definition Stop :: "nat \<Rightarrow> pth \<Rightarrow> pth" where
  "Stop p s =
     (let t = threads s p in
      if tid t = 0 then s
      else
        (let s1 = (if joinable t then s\<lparr>alive := filter (\<lambda>e. fst e \<noteq> tid t) (alive s)\<rparr> else s) in
         set_thread p (t\<lparr>should_stop := should_stop t + 1, tid := 0\<rparr>) s1))"

definition spawn :: "bool \<Rightarrow> nat \<Rightarrow> pth \<Rightarrow> pth" where
  "spawn detach p s =
     (set_thread p \<lparr>joinable = \<not> detach, tid = next_tid s, should_stop = 0\<rparr> s)
       \<lparr>alive := alive s @ [(next_tid s, p)], next_tid := next_tid s + 1\<rparr>"

definition Start :: "bool \<Rightarrow> nat \<Rightarrow> pth \<Rightarrow> pth" where
  "Start detach p s =
     (let t = threads s p in
      if joinable t \<and> tid t \<noteq> 0 then
        (if is_alive (tid t) s then s else spawn detach p (Stop p s))
      else spawn detach p s)"

text \<open>The end of \<open>ThreadWrapper\<close>, for the thread \<open>n\<close> that ran the object \<open>p\<close>.\<close>

definition ThreadWrapper_end :: "nat \<Rightarrow> nat \<Rightarrow> pth \<Rightarrow> pth" where
  "ThreadWrapper_end n p s =
     (let t = threads s p;
          s1 = (if \<not> joinable t then set_thread p (t\<lparr>tid := 0\<rparr>) s else s)
      in s1\<lparr>alive := removeAll (n, p) (alive s1)\<rparr>)"

definition isFinished :: "nat \<Rightarrow> pth \<Rightarrow> bool" where
  "isFinished p s \<longleftrightarrow> tid (threads s p) = 0 \<or> \<not> is_alive (tid (threads s p)) s"

text \<open>What a thread of \<open>p\<close> sees when it wakes up.\<close>

definition stop_requested :: "nat \<Rightarrow> pth \<Rightarrow> bool" where
  "stop_requested p s \<longleftrightarrow> should_stop (threads s p) > 0"

section \<open>Actions\<close>

text \<open>\<open>Action::execute\<close> starts its thread detached; the threads of actions are only used in these three ways.\<close>

datatype action_step = Execute_step nat | Cancel_step nat | End_step nat nat

inductive step :: "pth \<Rightarrow> action_step \<Rightarrow> pth \<Rightarrow> bool" where
  execute: "step s (Execute_step p) (Start True p s)"
| cancel: "step s (Cancel_step p) (Stop p s)"
| ended: "(n, p) \<in> set (alive s) \<Longrightarrow> step s (End_step n p) (ThreadWrapper_end n p s)"

inductive_cases stepE: "step s l s'"

inductive reachable :: "pth \<Rightarrow> bool" where
  initially: "reachable pth_new"
| onwards: "reachable s \<Longrightarrow> step s l s' \<Longrightarrow> reachable s'"

text \<open>The handle of an action is that of its last thread, unless one of its threads has ended since or it was cancelled.\<close>

definition handles_ok :: "pth \<Rightarrow> bool" where
  "handles_ok s \<longleftrightarrow>
     0 < next_tid s \<and> (\<forall>(n, p) \<in> set (alive s). 0 < n \<and> n < next_tid s) \<and> distinct (map fst (alive s))
     \<and> (\<forall>p. if tid (threads s p) = 0 then True else \<not> joinable (threads s p) \<and> (tid (threads s p), p) \<in> set (alive s))"

lemma handles_okD:
  assumes "handles_ok s"
  shows "0 < next_tid s" and "(n, p) \<in> set (alive s) \<Longrightarrow> 0 < n \<and> n < next_tid s"
    and "tid (threads s p) \<noteq> 0 \<Longrightarrow> \<not> joinable (threads s p) \<and> (tid (threads s p), p) \<in> set (alive s)"
    and "distinct (map fst (alive s))"
  using assms by (auto simp: handles_ok_def split: if_splits)

lemma one_thread_per_number: "handles_ok s \<Longrightarrow> (n, p) \<in> set (alive s) \<Longrightarrow> (n, q) \<in> set (alive s) \<Longrightarrow> p = q"
  using handles_okD(4) by (metis eq_key_imp_eq_value)

lemma Start_detached: "handles_ok s \<Longrightarrow> Start True p s = spawn True p s"
  using handles_okD(3) by (auto simp: Start_def Let_def)

lemma Stop_detached:
  "handles_ok s \<Longrightarrow> Stop p s =
     (if tid (threads s p) = 0 then s
      else set_thread p ((threads s p)\<lparr>should_stop := should_stop (threads s p) + 1, tid := 0\<rparr>) s)"
  using handles_okD(3) [of s p] by (simp add: Stop_def Let_def)

lemmas step_defs = spawn_def set_thread_def ThreadWrapper_end_def Let_def

lemma distinct_fst_filter: "distinct (map fst xs) \<Longrightarrow> distinct (map fst (filter P xs))"
  by (induction xs) auto

lemma step_handles_ok: "step s l s' \<Longrightarrow> handles_ok s \<Longrightarrow> handles_ok s'"
proof (induction rule: step.induct)
  case (execute s p)
  then show ?case
    by (fastforce simp: Start_detached handles_ok_def step_defs dest: handles_okD(2))
next
  case (cancel s p)
  then show ?case by (auto simp: Stop_detached handles_ok_def set_thread_def)
next
  case (ended n p s)
  have alive: "set (alive (ThreadWrapper_end n p s)) = set (alive s) - {(n, p)}"
    by (auto simp: step_defs)
  have "distinct (map fst (alive (ThreadWrapper_end n p s)))"
    using handles_okD(4) [OF ended(2)] by (simp add: step_defs removeAll_filter_not_eq distinct_fst_filter)
  moreover have "if tid (threads (ThreadWrapper_end n p s) q) = 0 then True
      else \<not> joinable (threads (ThreadWrapper_end n p s) q)
        \<and> (tid (threads (ThreadWrapper_end n p s) q), q) \<in> set (alive (ThreadWrapper_end n p s))" for q
    using handles_okD(3) [OF ended(2), of q] handles_okD(3) [OF ended(2), of p] by (auto simp: step_defs)
  moreover have "\<forall>(m, q) \<in> set (alive (ThreadWrapper_end n p s)). 0 < m \<and> m < next_tid (ThreadWrapper_end n p s)"
    using handles_okD(2) [OF ended(2)] by (auto simp: step_defs)
  moreover have "0 < next_tid (ThreadWrapper_end n p s)" using handles_okD(1) [OF ended(2)] by (simp add: step_defs)
  ultimately show ?case unfolding handles_ok_def by blast
qed

lemma reachable_handles_ok: "reachable s \<Longrightarrow> handles_ok s"
proof (induction rule: reachable.induct)
  case initially
  show ?case by (simp add: handles_ok_def pth_new_def Thread_new_def)
next
  case (onwards s l s')
  then show ?case by (blast intro: step_handles_ok)
qed

text \<open>
  C39.  Executing an action again while its thread still runs loses the new thread: when the first thread ends, the action
  counts as finished, cancelling it does nothing, and the second thread, which still runs, is never asked to stop.
\<close>

theorem second_thread_is_lost:
  assumes "reachable s" and "(n, p) \<in> set (alive s)" and "s' = ThreadWrapper_end n p (Start True p s)"
  shows "(next_tid s, p) \<in> set (alive s') \<and> isFinished p s' \<and> Stop p s' = s' \<and> \<not> stop_requested p s'"
proof -
  have ok: "handles_ok s" using assms(1) by (rule reachable_handles_ok)
  then have "n < next_tid s" using handles_okD(2) assms(2) by blast
  then show ?thesis
    using assms(3) by (simp add: Start_detached [OF ok] step_defs Stop_def isFinished_def stop_requested_def)
qed

theorem second_thread_is_lost_witness:
  "\<exists>s. reachable s \<and> (1, 5) \<in> set (alive s) \<and> isFinished 5 (ThreadWrapper_end 1 5 (Start True 5 s))
     \<and> alive (ThreadWrapper_end 1 5 (Start True 5 s)) = [(2, 5)]"
proof -
  define s where "s = Start True 5 pth_new"
  have r: "reachable s" unfolding s_def by (rule onwards [OF initially execute])
  have a: "(1, 5) \<in> set (alive s)" by (simp add: s_def Start_def step_defs pth_new_def Thread_new_def)
  have "alive (ThreadWrapper_end 1 5 (Start True 5 s)) = [(2, 5)]"
    by (simp add: s_def Start_def step_defs pth_new_def Thread_new_def)
  then show ?thesis using r a second_thread_is_lost [OF r a refl] by blast
qed

section \<open>Actions that are not restarted\<close>

text \<open>When no action is executed while one of its threads runs, the handle tells the truth.\<close>

inductive reachable_once :: "pth \<Rightarrow> bool" where
  once_initially: "reachable_once pth_new"
| once_execute: "reachable_once s \<Longrightarrow> p \<notin> snd ` set (alive s) \<Longrightarrow> reachable_once (Start True p s)"
| once_cancel: "reachable_once s \<Longrightarrow> reachable_once (Stop p s)"
| once_ended: "reachable_once s \<Longrightarrow> (n, p) \<in> set (alive s) \<Longrightarrow> reachable_once (ThreadWrapper_end n p s)"

lemma reachable_once_reachable: "reachable_once s \<Longrightarrow> reachable s"
  by (induction rule: reachable_once.induct) (auto intro: reachable.intros step.intros)

definition tells_the_truth :: "pth \<Rightarrow> bool" where
  "tells_the_truth s \<longleftrightarrow>
     (\<forall>n p. (n, p) \<in> set (alive s) \<longrightarrow> stop_requested p s \<or> tid (threads s p) = n)"

lemma reachable_once_one: "reachable_once s \<Longrightarrow> (n, p) \<in> set (alive s) \<Longrightarrow> (m, p) \<in> set (alive s) \<Longrightarrow> m = n"
proof (induction arbitrary: n m p rule: reachable_once.induct)
  case (once_execute s q)
  then have "handles_ok s" by (blast intro: reachable_handles_ok reachable_once_reachable)
  then have "alive (Start True q s) = alive s @ [(next_tid s, q)]" by (simp add: Start_detached step_defs)
  then show ?case using once_execute.prems once_execute.IH once_execute.hyps(2) by (auto simp: image_iff)
next
  case (once_cancel s q)
  then have "handles_ok s" by (blast intro: reachable_handles_ok reachable_once_reachable)
  then have "alive (Stop q s) = alive s" by (simp add: Stop_detached step_defs)
  then show ?case using once_cancel by simp
next
  case (once_ended s k q)
  have "set (alive (ThreadWrapper_end k q s)) \<subseteq> set (alive s)" by (auto simp: step_defs)
  then show ?case using once_ended by blast
qed (simp add: pth_new_def)

lemma reachable_once_truth: "reachable_once s \<Longrightarrow> tells_the_truth s"
proof (induction rule: reachable_once.induct)
  case once_initially
  show ?case by (simp add: tells_the_truth_def pth_new_def)
next
  case (once_execute s p)
  then have "handles_ok s" by (blast intro: reachable_handles_ok reachable_once_reachable)
  then show ?case using once_execute
    by (force simp: Start_detached tells_the_truth_def step_defs stop_requested_def)
next
  case (once_cancel s p)
  then have "handles_ok s" by (blast intro: reachable_handles_ok reachable_once_reachable)
  then show ?case using once_cancel.IH
    by (auto simp: Stop_detached tells_the_truth_def step_defs stop_requested_def)
next
  case (once_ended s n p)
  have "m = n" if "(m, p) \<in> set (alive s)" for m
    using reachable_once_one [OF once_ended(1,2) that] .
  then show ?case
    using once_ended.IH by (auto simp: tells_the_truth_def step_defs stop_requested_def)
qed



end
