(* ===== verification/Rules.thy ===== *)
theory Rules
  imports Actions Threads
begin

text \<open>
  The classes \<open>Rule\<close>, \<open>ActionList\<close> and \<open>RuleServer\<close> of src/ruleserver.h and .cpp, and what happens when an object tells its
  listeners about a change.  Executing an action starts its thread; it runs later (theory \<open>Runs\<close>).
\<close>

section \<open>State\<close>

datatype TriggerType = IfTrue | IfFalse | OnTrue | OnFalse

record Rule =
  rule_id :: string
  rule_descr :: string
  condition_m :: "condition option"
  actionsOnTrue_m :: "action list"
  actionsIfTrue_m :: "action list"
  actionsOnFalse_m :: "action list"
  actionsIfFalse_m :: "action list"
  prevValue_m :: bool
  rule_flags :: int

definition Active :: int where "Active = 1"
definition InitEval :: int where "InitEval = 16"
definition InitTrue :: int where "InitTrue = 32"

lemmas rule_flag_defs = Active_def InitEval_def InitTrue_def

definition Rule_new :: Rule where
  "Rule_new =
     \<lparr>rule_id = '''', rule_descr = '''', condition_m = None, actionsOnTrue_m = [], actionsIfTrue_m = [], actionsOnFalse_m = [],
      actionsIfFalse_m = [], prevValue_m = False, rule_flags = Active\<rparr>"

text \<open>The open connections of the configuration server have the objects they listen to (\<open>notifyList_m\<close>).\<close>

record system = actors +
  pth_m :: pth
  rules :: "ptr \<Rightarrow> Rule option"
  rulesMap_m :: id_map
  clients :: "ptr \<Rightarrow> ptr list option"

definition the_rule :: "ptr \<Rightarrow> 'a system_scheme \<Rightarrow> (Rule, 'a system_scheme) run" where
  "the_rule r s = (case rules s r of None \<Rightarrow> fail Null_deref s | Some rule \<Rightarrow> return rule s)"

definition set_rule :: "ptr \<Rightarrow> Rule \<Rightarrow> 'a system_scheme \<Rightarrow> 'a system_scheme" where
  "set_rule r rule s = s\<lparr>rules := (rules s)(r \<mapsto> rule)\<rparr>"

definition change_rule :: "ptr \<Rightarrow> (Rule \<Rightarrow> Rule) \<Rightarrow> 'a system_scheme \<Rightarrow> (unit, 'a system_scheme) run" where
  "change_rule r f s = bind (the_rule r s) (\<lambda>rule s. return () (set_rule r (f rule) s))"

section \<open>Lists of actions\<close>

fun getTriggerTypeToString :: "TriggerType \<Rightarrow> string" where
  "getTriggerTypeToString IfTrue = ''if-true''"
| "getTriggerTypeToString OnTrue = ''on-true''"
| "getTriggerTypeToString IfFalse = ''if-false''"
| "getTriggerTypeToString OnFalse = ''on-false''"

definition parseTriggerType :: "string \<Rightarrow> TriggerType option" where
  "parseTriggerType trigger =
     (if trigger = ''if-true'' then Some IfTrue
      else if trigger = ''on-true'' then Some OnTrue
      else if trigger = ''if-false'' then Some IfFalse
      else if trigger = ''on-false'' then Some OnFalse
      else None)"

fun getActions :: "TriggerType \<Rightarrow> Rule \<Rightarrow> action list" where
  "getActions OnTrue rule = actionsOnTrue_m rule"
| "getActions IfTrue rule = actionsIfTrue_m rule"
| "getActions OnFalse rule = actionsOnFalse_m rule"
| "getActions IfFalse rule = actionsIfFalse_m rule"

fun addAction :: "action \<Rightarrow> TriggerType \<Rightarrow> Rule \<Rightarrow> Rule" where
  "addAction a OnTrue rule = rule\<lparr>actionsOnTrue_m := actionsOnTrue_m rule @ [a]\<rparr>"
| "addAction a IfTrue rule = rule\<lparr>actionsIfTrue_m := actionsIfTrue_m rule @ [a]\<rparr>"
| "addAction a OnFalse rule = rule\<lparr>actionsOnFalse_m := actionsOnFalse_m rule @ [a]\<rparr>"
| "addAction a IfFalse rule = rule\<lparr>actionsIfFalse_m := actionsIfFalse_m rule @ [a]\<rparr>"

definition execute :: "action \<Rightarrow> 'a system_scheme \<Rightarrow> (unit, 'a system_scheme) run" where
  "execute a s = ([Execute (action_ptr a)], Inr (), s\<lparr>pth_m := Start True (action_ptr a) (pth_m s)\<rparr>)"

definition cancel :: "action \<Rightarrow> 'a system_scheme \<Rightarrow> (unit, 'a system_scheme) run" where
  "cancel a s = ([Cancel (action_ptr a)], Inr (), s\<lparr>pth_m := Stop (action_ptr a) (pth_m s)\<rparr>)"

fun for_all :: "('v \<Rightarrow> 's \<Rightarrow> (unit, 's) run) \<Rightarrow> 'v list \<Rightarrow> 's \<Rightarrow> (unit, 's) run" where
  "for_all f [] s = return () s"
| "for_all f (v # vs) s = bind (f v s) (\<lambda>_. for_all f vs)"

definition executeActions :: "action list \<Rightarrow> 'a system_scheme \<Rightarrow> (unit, 'a system_scheme) run" where
  "executeActions acts s = for_all execute acts s"

definition ActionList_cancel :: "action list \<Rightarrow> 'a system_scheme \<Rightarrow> (unit, 'a system_scheme) run" where
  "ActionList_cancel acts s = for_all cancel acts s"

definition ActionList_exportXml :: "inputs \<Rightarrow> 'a actors_scheme \<Rightarrow> TriggerType \<Rightarrow> action list \<Rightarrow> xml \<Rightarrow> xml" where
  "ActionList_exportXml i s trigger acts e =
     export_action_list i s acts (if trigger \<noteq> OnTrue then SetAttribute ''type'' (getTriggerTypeToString trigger) e else e)"

section \<open>Rules\<close>

definition isActive :: "Rule \<Rightarrow> bool" where
  "isActive rule \<longleftrightarrow> rule_flags rule AND Active \<noteq> 0"

definition setActive :: "bool \<Rightarrow> Rule \<Rightarrow> Rule" where
  "setActive active rule = (if isActive rule = active then rule else rule\<lparr>rule_flags := rule_flags rule XOR Active\<rparr>)"

definition Rule_evaluate :: "inputs \<Rightarrow> ptr \<Rightarrow> 'a system_scheme \<Rightarrow> (unit, 'a system_scheme) run" where
  "Rule_evaluate i r s =
     bind (the_rule r s) (\<lambda>rule s.
       if \<not> isActive rule then return () s
       else
         (case condition_m rule of
            None \<Rightarrow> fail Null_deref s
          | Some c \<Rightarrow>
              bind (evaluate i c s) (\<lambda>curValue s.
              bind (the_rule r s) (\<lambda>rule s.
              bind (if curValue then
                      bind (executeActions (actionsIfTrue_m rule) s) (\<lambda>_ s.
                        if \<not> prevValue_m rule then executeActions (actionsOnTrue_m rule) s else return () s)
                    else
                      bind (executeActions (actionsIfFalse_m rule) s) (\<lambda>_ s.
                        if prevValue_m rule then executeActions (actionsOnFalse_m rule) s else return () s)) (\<lambda>_.
                change_rule r (\<lambda>rule. rule\<lparr>prevValue_m := curValue\<rparr>))))))"

definition Rule_initialize :: "inputs \<Rightarrow> ptr \<Rightarrow> 'a system_scheme \<Rightarrow> (unit, 'a system_scheme) run" where
  "Rule_initialize i r s =
     bind (the_rule r s) (\<lambda>rule s.
       if \<not> isActive rule then return () s
       else
         bind (if rule_flags rule AND InitEval \<noteq> 0 then
                 (case condition_m rule of None \<Rightarrow> fail Null_deref s | Some c \<Rightarrow> evaluate i c s)
               else return (rule_flags rule AND InitTrue \<noteq> 0) s) (\<lambda>value s.
         bind (change_rule r (\<lambda>rule. rule\<lparr>prevValue_m := value\<rparr>) s) (\<lambda>_ s.
         bind (the_rule r s) (\<lambda>rule.
           executeActions (if value then actionsIfTrue_m rule else actionsIfFalse_m rule)))))"

definition Rule_cancel :: "ptr \<Rightarrow> 'a system_scheme \<Rightarrow> (unit, 'a system_scheme) run" where
  "Rule_cancel r s =
     bind (the_rule r s) (\<lambda>rule s.
       if \<not> isActive rule then return () s
       else
         bind (ActionList_cancel (actionsOnTrue_m rule) s) (\<lambda>_ s.
         bind (ActionList_cancel (actionsIfTrue_m rule) s) (\<lambda>_ s.
         bind (ActionList_cancel (actionsOnFalse_m rule) s) (\<lambda>_.
           ActionList_cancel (actionsIfFalse_m rule)))))"

text \<open>\<open>delete condition_m; condition_m = condition\<close>: the new condition has been created before.\<close>

definition setCondition :: "ptr \<Rightarrow> condition \<Rightarrow> 'a system_scheme \<Rightarrow> (unit, 'a system_scheme) run" where
  "setCondition r c s =
     bind (the_rule r s) (\<lambda>rule s.
     bind (if_some (Condition_delete (Some r)) (condition_m rule) s) (\<lambda>_.
       change_rule r (\<lambda>rule. rule\<lparr>condition_m := Some c\<rparr>)))"

section \<open>Configuration of a rule\<close>

definition import_init_flags :: "string \<Rightarrow> Rule \<Rightarrow> Rule" where
  "import_init_flags init rule =
     (let flags = rule_flags rule AND NOT (InitEval OR InitTrue) in
      rule\<lparr>rule_flags := (if init = ''eval'' then flags OR InitEval else if init = ''true'' then flags OR InitTrue else flags)\<rparr>)"

definition import_description :: "xml \<Rightarrow> Rule \<Rightarrow> Rule" where
  "import_description cfg rule = (case attribute cfg ''description'' of None \<Rightarrow> rule | Some d \<Rightarrow> rule\<lparr>rule_descr := d\<rparr>)"

fun import_actions :: "inputs \<Rightarrow> ptr \<Rightarrow> TriggerType \<Rightarrow> xml list \<Rightarrow> 'a system_scheme \<Rightarrow> (unit, 'a system_scheme) run" where
  "import_actions i r trigger [] s = return () s"
| "import_actions i r trigger (cfg # cfgs) s =
     bind (Action_create i cfg s) (\<lambda>a s.
     bind (change_rule r (addAction a trigger) s) (\<lambda>_. import_actions i r trigger cfgs))"

text \<open>
  The action lists; one with an unknown type is skipped.  \<open>needed\<close> is whether \<open>FirstChildElement\<close> throws when a list has no
  action: it does in \<open>updateXml\<close> and does not in \<open>importXml\<close>.
\<close>

fun import_actionlists :: "inputs \<Rightarrow> bool \<Rightarrow> ptr \<Rightarrow> xml list \<Rightarrow> 'a system_scheme \<Rightarrow> (unit, 'a system_scheme) run" where
  "import_actionlists i needed r [] s = return () s"
| "import_actionlists i needed r (cfg # cfgs) s =
     (case parseTriggerType (GetAttributeOrDefault cfg ''type'' ''on-true'') of
        None \<Rightarrow> import_actionlists i needed r cfgs s
      | Some trigger \<Rightarrow>
          if needed \<and> elements ''action'' cfg = [] then fail (Missing_element ''action'') s
          else bind (import_actions i r trigger (elements ''action'' cfg) s) (\<lambda>_. import_actionlists i needed r cfgs))"

text \<open>The end of both: a rule is initialised when the bus is there.\<close>

definition import_state :: "inputs \<Rightarrow> ptr \<Rightarrow> 'a system_scheme \<Rightarrow> (unit, 'a system_scheme) run" where
  "import_state i r s =
     (if in_ready i then Rule_initialize i r s
      else change_rule r (\<lambda>rule. rule\<lparr>prevValue_m := (rule_flags rule AND InitTrue \<noteq> 0)\<rparr>) s)"

definition Rule_importXml :: "inputs \<Rightarrow> ptr \<Rightarrow> xml \<Rightarrow> 'a system_scheme \<Rightarrow> (unit, 'a system_scheme) run" where
  "Rule_importXml i r cfg s =
     bind (change_rule r (\<lambda>rule.
       import_init_flags (GetAttributeOrDefault cfg ''init'' '''')
         (import_description cfg
           (setActive (truthy (GetAttribute cfg ''active'')) (case attribute cfg ''id'' of None \<Rightarrow> rule | Some oid \<Rightarrow> rule\<lparr>rule_id := oid\<rparr>)))) s) (\<lambda>_ s.
     case FirstChildElement ''condition'' cfg of
       None \<Rightarrow> fail (Missing_element ''condition'') s
     | Some child \<Rightarrow>
         bind (Condition_create i (Some r) child s) (\<lambda>c s.
         bind (setCondition r c s) (\<lambda>_ s.
           if elements ''actionlist'' cfg = [] then fail (Missing_element ''actionlist'') s
           else
             bind (import_actionlists i False r (elements ''actionlist'' cfg) s) (\<lambda>_. import_state i r))))"

text \<open>
  \<open>clear ()\<close> deletes the actions: the references to objects are given back, except those of \<open>CopyValueAction\<close>, whose
  destructor is empty, and the destructor of \<open>Thread\<close> asks a thread that still runs to stop.
\<close>

fun Action_delete :: "action \<Rightarrow> 'a system_scheme \<Rightarrow> (unit, 'a system_scheme) run"
  and delete_actions :: "action list \<Rightarrow> 'a system_scheme \<Rightarrow> (unit, 'a system_scheme) run" where
  "Action_delete (Action self delay k) s =
     bind
       (case k of
          DimUpAction p start stop duration \<Rightarrow> release p s
        | SetValueAction p v \<Rightarrow> release p s
        | ToggleValueAction p \<Rightarrow> release p s
        | FormulaAction p x y a b c m n \<Rightarrow>
            bind (release p s) (\<lambda>_ s. bind (if_some release x s) (\<lambda>_. if_some release y))
        | SetStringAction p text \<Rightarrow> release p s
        | SendReadRequestAction p \<Rightarrow> release p s
        | CycleOnOffAction p on off rounds \<Rightarrow>
            bind (release p s) (\<lambda>_ s. if_some (Condition_delete (Some self)) (stopCondition_m s self) s)
        | RepeatListAction period rounds acts \<Rightarrow> bind (cancel (Action self delay k) s) (\<lambda>_. delete_actions acts)
        | ConditionalAction c acts \<Rightarrow>
            bind (cancel (Action self delay k) s) (\<lambda>_ s. bind (Condition_delete None c s) (\<lambda>_. delete_actions acts))
        | _ \<Rightarrow> return () s)
       (\<lambda>_. cancel (Action self delay k))"
| "delete_actions [] s = return () s"
| "delete_actions (a # acts) s = bind (Action_delete a s) (\<lambda>_. delete_actions acts)"

definition clear_actions :: "ptr \<Rightarrow> 'a system_scheme \<Rightarrow> (unit, 'a system_scheme) run" where
  "clear_actions r s =
     bind (the_rule r s) (\<lambda>rule s.
     bind (delete_actions (actionsOnTrue_m rule @ actionsIfTrue_m rule @ actionsOnFalse_m rule @ actionsIfFalse_m rule) s) (\<lambda>_.
       change_rule r (\<lambda>rule. rule\<lparr>actionsOnTrue_m := [], actionsIfTrue_m := [], actionsOnFalse_m := [], actionsIfFalse_m := []\<rparr>)))"

definition Rule_updateXml :: "inputs \<Rightarrow> ptr \<Rightarrow> xml \<Rightarrow> 'a system_scheme \<Rightarrow> (unit, 'a system_scheme) run" where
  "Rule_updateXml i r cfg s =
     (let value = GetAttribute cfg ''active''; init = GetAttributeOrDefault cfg ''init'' '''' in
      bind (change_rule r (\<lambda>rule.
        (if init \<noteq> '''' then import_init_flags init else id)
          (import_description cfg (if value \<noteq> '''' then setActive (truthy value) rule else rule))) s) (\<lambda>_ s.
      bind (case FirstChildElement ''condition'' cfg of
              None \<Rightarrow> return () s
            | Some child \<Rightarrow> bind (Condition_create i (Some r) child s) (setCondition r)) (\<lambda>_ s.
      bind (if elements ''actionlist'' cfg = [] then return () s
            else bind (clear_actions r s) (\<lambda>_. import_actionlists i True r (elements ''actionlist'' cfg))) (\<lambda>_ s.
        if init \<noteq> '''' then import_state i r s else return () s))))"

definition exportActions :: "inputs \<Rightarrow> 'a actors_scheme \<Rightarrow> TriggerType \<Rightarrow> action list \<Rightarrow> xml \<Rightarrow> xml" where
  "exportActions i s trigger acts e =
     (if acts \<noteq> [] then LinkEndChild (ActionList_exportXml i s trigger acts (Element ''actionlist'' [] [])) e else e)"

definition Rule_exportXml :: "inputs \<Rightarrow> 'a actors_scheme \<Rightarrow> Rule \<Rightarrow> xml \<Rightarrow> xml" where
  "Rule_exportXml i s rule e =
     (let e = (if rule_id rule \<noteq> '''' then SetAttribute ''id'' (rule_id rule) e else e);
          e = (if isActive rule then e else SetAttribute ''active'' ''no'' e);
          e = (if rule_descr rule \<noteq> '''' then SetAttribute ''description'' (rule_descr rule) e else e);
          e = SetAttribute ''init''
                (if rule_flags rule AND InitEval \<noteq> 0 then ''eval''
                 else if rule_flags rule AND InitTrue \<noteq> 0 then ''true'' else ''false'') e;
          e = (case condition_m rule of None \<Rightarrow> e
               | Some c \<Rightarrow> LinkEndChild (Condition_exportXml i s c (Element ''condition'' [] [])) e);
          e = exportActions i s OnTrue (actionsOnTrue_m rule) e;
          e = exportActions i s IfTrue (actionsIfTrue_m rule) e;
          e = exportActions i s OnFalse (actionsOnFalse_m rule) e
      in exportActions i s IfFalse (actionsIfFalse_m rule) e)"

definition Rule_statusXml ::
    "inputs \<Rightarrow> (listener \<Rightarrow> string) \<Rightarrow> Rule \<Rightarrow> xml \<Rightarrow> 'a system_scheme \<Rightarrow> (xml, 'a system_scheme) run" where
  "Rule_statusXml i ids rule e s =
     (let e = SetAttribute ''id'' (rule_id rule) e;
          e = SetAttribute ''active'' (if isActive rule then ''true'' else ''false'') e;
          e = SetAttribute ''state'' (if prevValue_m rule then ''true'' else ''false'') e
      in case condition_m rule of
           None \<Rightarrow> return e s
         | Some c \<Rightarrow> bind (Condition_statusXml i ids c (Element ''condition'' [] []) s) (\<lambda>child. return (LinkEndChild child e)))"

section \<open>The rule server\<close>

text \<open>The destructor of a rule deletes the condition; the lists do not own their actions.\<close>

definition Rule_delete :: "ptr \<Rightarrow> 'a system_scheme \<Rightarrow> (unit, 'a system_scheme) run" where
  "Rule_delete r s =
     bind (the_rule r s) (\<lambda>rule s.
     bind (if_some (Condition_delete (Some r)) (condition_m rule) s) (\<lambda>_ s. return () (s\<lparr>rules := (rules s)(r := None)\<rparr>)))"

text \<open>A rule whose \<open>importXml\<close> throws is not entered, and not deleted either.\<close>

definition import_rule :: "inputs \<Rightarrow> xml \<Rightarrow> 'a system_scheme \<Rightarrow> (unit, 'a system_scheme) run" where
  "import_rule i cfg s =
     (let oid = GetAttribute cfg ''id''; del = GetAttribute cfg ''delete'' = ''true'' in
      case map_of (rulesMap_m s) oid of
        None \<Rightarrow>
          if del then fail (Not_found oid) s
          else
            bind (new_id s) (\<lambda>r s.
            bind (Rule_importXml i r cfg (set_rule r Rule_new s)) (\<lambda>_ s.
              return () (s\<lparr>rulesMap_m := idm_insert oid r (rulesMap_m s)\<rparr>)))
      | Some r \<Rightarrow>
          if del then bind (Rule_delete r s) (\<lambda>_ s. return () (s\<lparr>rulesMap_m := idm_erase oid (rulesMap_m s)\<rparr>))
          else Rule_updateXml i r cfg s)"

definition RuleServer_importXml :: "inputs \<Rightarrow> xml \<Rightarrow> 'a system_scheme \<Rightarrow> (unit, 'a system_scheme) run" where
  "RuleServer_importXml i cfg s = for_all (import_rule i) (elements ''rule'' cfg) s"

definition RuleServer_exportXml :: "inputs \<Rightarrow> 'a system_scheme \<Rightarrow> xml \<Rightarrow> xml" where
  "RuleServer_exportXml i s e =
     foldl (\<lambda>e (_, r). case rules s r of None \<Rightarrow> e | Some rule \<Rightarrow> LinkEndChild (Rule_exportXml i s rule (Element ''rule'' [] [])) e)
       e (rulesMap_m s)"

fun status_rules ::
    "inputs \<Rightarrow> (listener \<Rightarrow> string) \<Rightarrow> ptr list \<Rightarrow> xml \<Rightarrow> 'a system_scheme \<Rightarrow> (xml, 'a system_scheme) run" where
  "status_rules i ids [] e s = return e s"
| "status_rules i ids (r # rs) e s =
     bind (the_rule r s) (\<lambda>rule s.
     bind (Rule_statusXml i ids rule (Element ''rule'' [] []) s) (\<lambda>child. status_rules i ids rs (LinkEndChild child e)))"

definition RuleServer_statusXml ::
    "inputs \<Rightarrow> (listener \<Rightarrow> string) \<Rightarrow> xml \<Rightarrow> 'a system_scheme \<Rightarrow> (xml, 'a system_scheme) run" where
  "RuleServer_statusXml i ids e s = status_rules i ids (map snd (rulesMap_m s)) e s"

text \<open>Once the connection is ready.\<close>

definition RuleServer_initialize :: "inputs \<Rightarrow> 'a system_scheme \<Rightarrow> (unit, 'a system_scheme) run" where
  "RuleServer_initialize i s = for_all (Rule_initialize i) (map snd (rulesMap_m s)) s"

definition getRule :: "string \<Rightarrow> 'a system_scheme \<Rightarrow> ptr option" where
  "getRule oid s = map_of (rulesMap_m s) oid"

section \<open>Listeners\<close>

definition CycleOnOffAction_onChange :: "inputs \<Rightarrow> ptr \<Rightarrow> 'a actors_scheme \<Rightarrow> (unit, 'a actors_scheme) run" where
  "CycleOnOffAction_onChange i p s =
     (case stopCondition_m s p of
        None \<Rightarrow> return () s
      | Some c \<Rightarrow>
          if \<not> running_m s p then return () s
          else bind (evaluate i c s) (\<lambda>v s. return () (if v then s\<lparr>running_m := (running_m s)(p := False)\<rparr> else s)))"

text \<open>A connection tells its client; every message ends with the byte 4.\<close>

definition quoted :: "string \<Rightarrow> string" where
  "quoted text = CHR 0x27 # text @ [CHR 0x27]"

definition sendmessage :: "listener \<Rightarrow> string \<Rightarrow> 's \<Rightarrow> (unit, 's) run" where
  "sendmessage c text s = ([Message c (text @ [CHR 0x04])], Inr (), s)"

definition ClientConnection_onChange :: "inputs \<Rightarrow> listener \<Rightarrow> string option \<Rightarrow> 'a engine_scheme \<Rightarrow> (unit, 'a engine_scheme) run" where
  "ClientConnection_onChange i c x s =
     (case x of
        None \<Rightarrow> fail Null_deref s
      | Some oid \<Rightarrow>
          (case map_of (objectIdMap_m (objects s)) oid of
             None \<Rightarrow> fail Null_deref s
           | Some p \<Rightarrow>
               bind (get_value i p s) (\<lambda>v.
                 sendmessage c (''<notify id='' @ quoted oid @ ''>'' @ ov_toString (env.truncate (in_sv i)) v @ ''</notify>'' @ [CHR 0x0A]))))"

text \<open>\<open>onChange\<close> of what the pointer stands for: a rule, a timer, an action or a connection.\<close>

definition call_listener :: "inputs \<Rightarrow> listener \<Rightarrow> string option \<Rightarrow> 'a system_scheme \<Rightarrow> (unit, 'a system_scheme) run" where
  "call_listener i l x s =
     (if rules s l \<noteq> None then Rule_evaluate i l s
      else if tasks s l \<noteq> None then
        (case PeriodicTask_onChange (in_fuel i) (schedule_of i s) (in_now i) l s of
           None \<Rightarrow> fail No_return s | Some s' \<Rightarrow> return () s')
      else if stopCondition_m s l \<noteq> None then CycleOnOffAction_onChange i l s
      else if clients s l \<noteq> None then ClientConnection_onChange i l x s
      else fail Null_deref s)"

text \<open>
  The calls of listeners among the effects of an operation are carried out, in their order; a condition that has to ask the
  bus first can cause further calls, so the nesting is limited by fuel.
\<close>

fun deliver :: "nat \<Rightarrow> inputs \<Rightarrow> effect list \<Rightarrow> 'a system_scheme \<Rightarrow> (unit, 'a system_scheme) run" where
  "deliver n i [] s = return () s"
| "deliver n i (OnChange l x # effs) s =
     (case n of
        0 \<Rightarrow> fail No_return s
      | Suc k \<Rightarrow>
          (case call_listener i l x s of
             (effs1, r, s1) \<Rightarrow>
               bind (deliver k i effs1 s1) (\<lambda>_ s2.
               bind (from_result r s2) (\<lambda>_. deliver n i effs))))"
| "deliver n i (e # effs) s = (case deliver n i effs s of (effs', r, s') \<Rightarrow> (e # effs', r, s'))"

definition with_listeners :: "nat \<Rightarrow> inputs \<Rightarrow> ('v, 'a system_scheme) run \<Rightarrow> ('v, 'a system_scheme) run" where
  "with_listeners n i r = (case r of (effs, v, s) \<Rightarrow> bind (deliver n i effs s) (\<lambda>_. from_result v))"

text \<open>A value set on an object, and a telegram for all objects that listen to its destination, with all that follows.\<close>

definition set_object :: "nat \<Rightarrow> inputs \<Rightarrow> ptr \<Rightarrow> ObjectValue \<Rightarrow> 'a system_scheme \<Rightarrow> (unit, 'a system_scheme) run" where
  "set_object n i p v s = with_listeners n i (call p (setValue (in_sv i) (in_arrivals i p) v) s)"

definition receive ::
    "nat \<Rightarrow> inputs \<Rightarrow> eibaddr_t \<Rightarrow> eibaddr_t \<Rightarrow> buffer \<Rightarrow> nat \<Rightarrow> 'a system_scheme \<Rightarrow> (unit, 'a system_scheme) run" where
  "receive n i src dest buf len s =
     for_all (\<lambda>p s. with_listeners n i (call p (onWrite (in_sv i) buf len src) s)) (mm_range dest (objectMap_m (objects s))) s"

end
