(* ===== verification/Runs.thy ===== *)
theory Runs
  imports Rules
begin

text \<open>
  What the thread of an action does: the \<open>Run\<close> of each class in src/ruleserver.cpp.  A thread only yields when it sleeps; a
  wake-up is what the other threads have done to the state meanwhile.  A run for a list of wake-ups goes on until it
  returns, throws, or sleeps with no wake-up left; its trace has the effects and the lengths of the sleeps.
\<close>

section \<open>Threads that sleep\<close>

datatype event = Did effect | Slept int

datatype 'v progress = Returned 'v | Raised exn | Asleep

type_synonym 's wake = "'s \<Rightarrow> 's"
type_synonym ('v, 's) thread = "event list \<times> 'v progress \<times> 's wake list \<times> 's"

definition tdone :: "'v \<Rightarrow> 's wake list \<Rightarrow> 's \<Rightarrow> ('v, 's) thread" where
  "tdone v ws s = ([], Returned v, ws, s)"

definition tbind :: "('v, 's) thread \<Rightarrow> ('v \<Rightarrow> 's wake list \<Rightarrow> 's \<Rightarrow> ('w, 's) thread) \<Rightarrow> ('w, 's) thread" where
  "tbind r f =
     (case r of
        (evs, Returned v, ws, s) \<Rightarrow> (case f v ws s of (evs', w, x) \<Rightarrow> (evs @ evs', w, x))
      | (evs, Raised e, ws, s) \<Rightarrow> (evs, Raised e, ws, s)
      | (evs, Asleep, ws, s) \<Rightarrow> (evs, Asleep, ws, s))"

definition run_now :: "('v, 's) run \<Rightarrow> 's wake list \<Rightarrow> ('v, 's) thread" where
  "run_now r ws = (case r of (effs, Inl e, s) \<Rightarrow> (map Did effs, Raised e, ws, s) | (effs, Inr v, s) \<Rightarrow> (map Did effs, Returned v, ws, s))"

text \<open>\<open>Action::sleep\<close>, in milliseconds: whether the thread was asked to stop.\<close>

definition Action_sleep :: "ptr \<Rightarrow> int \<Rightarrow> 'a system_scheme wake list \<Rightarrow> 'a system_scheme \<Rightarrow> (bool, 'a system_scheme) thread" where
  "Action_sleep self delay ws s =
     (case ws of
        [] \<Rightarrow> ([Slept delay], Asleep, [], s)
      | w # ws' \<Rightarrow> ([Slept delay], Returned (stop_requested self (pth_m (w s))), ws', w s))"

lemma tbind_simps [simp]:
  "tbind (tdone v ws s) f = f v ws s" "tbind ([], Returned v, ws, s) f = f v ws s"
  "tbind (evs, Raised e, ws, s) f = (evs, Raised e, ws, s)" "tbind (evs, Asleep, ws, s) f = (evs, Asleep, ws, s)"
  by (auto simp: tbind_def tdone_def split: prod.split)

lemma run_now_return [simp]: "run_now (return v s) ws = tdone v ws s"
  by (simp add: run_now_def return_def tdone_def)

lemma tbind_cong [fundef_cong]:
  assumes "r = r'" and "\<And>evs v ws s. r' = (evs, Returned v, ws, s) \<Longrightarrow> f v ws s = f' v ws s"
  shows "tbind r f = tbind r' f'"
  using assms by (cases r') (auto simp: tbind_def split: progress.split)

lemma run_now_wakes: "run_now r ws = (evs, Returned v, ws', s) \<Longrightarrow> ws' = ws"
  by (auto simp: run_now_def split: prod.splits sum.splits)

lemma Action_sleep_wakes: "Action_sleep self delay ws s = (evs, Returned v, ws', s') \<Longrightarrow> length ws' < length ws"
  by (cases ws) (auto simp: Action_sleep_def)

section \<open>Values\<close>

definition setIntValue :: "services \<Rightarrow> arrival list \<Rightarrow> u32 \<Rightarrow> Object \<Rightarrow> Object outcome" where
  "setIntValue sv arrivals v obj =
     (case obj_value obj of
        UIntValue u \<Rightarrow>
          (case UIntObject_setInt u v of
             (changed, u') \<Rightarrow>
               (let obj' = obj\<lparr>obj_value := UIntValue u'\<rparr>
                in if changed \<or> forceUpdate obj' then onInternalUpdate sv arrivals obj' else finish obj'))
      | _ \<Rightarrow> throw Null_deref obj)"

definition set_int :: "inputs \<Rightarrow> ptr \<Rightarrow> u32 \<Rightarrow> 'a system_scheme \<Rightarrow> (unit, 'a system_scheme) run" where
  "set_int i p v s = with_listeners (in_fuel i) i (call p (setIntValue (in_sv i) (in_arrivals i p) v) s)"

definition getIntValue :: "inputs \<Rightarrow> ptr \<Rightarrow> 'a system_scheme \<Rightarrow> (u32, 'a system_scheme) run" where
  "getIntValue i p s =
     with_listeners (in_fuel i) i
       (bind (get_value i p s) (\<lambda>v s. case v of UIntValue u \<Rightarrow> return (ui_value u) s | _ \<Rightarrow> fail Null_deref s))"

definition setBoolValue :: "inputs \<Rightarrow> ptr \<Rightarrow> bool \<Rightarrow> 'a system_scheme \<Rightarrow> (unit, 'a system_scheme) run" where
  "setBoolValue i p b s =
     bind (the_object p s) (\<lambda>obj s.
       case obj_value obj of
         Switching v \<Rightarrow> set_object (in_fuel i) i p (Switching (v\<lparr>sw_value := b\<rparr>)) s
       | _ \<Rightarrow> fail Null_deref s)"

definition getBoolValue :: "inputs \<Rightarrow> ptr \<Rightarrow> 'a system_scheme \<Rightarrow> (bool, 'a system_scheme) run" where
  "getBoolValue i p s =
     with_listeners (in_fuel i) i
       (bind (get_value i p s) (\<lambda>v s. case v of Switching b \<Rightarrow> return (sw_value b) s | _ \<Rightarrow> fail Null_deref s))"

definition getFloatValue :: "inputs \<Rightarrow> ptr \<Rightarrow> 'a system_scheme \<Rightarrow> (rat, 'a system_scheme) run" where
  "getFloatValue i p s = with_listeners (in_fuel i) i (bind (get_value i p s) (\<lambda>v. return (ov_toNumber v)))"

definition set_float :: "inputs \<Rightarrow> ptr \<Rightarrow> rat \<Rightarrow> 'a system_scheme \<Rightarrow> (unit, 'a system_scheme) run" where
  "set_float i p x s = with_listeners (in_fuel i) i (call p (setFloatValue (in_sv i) (in_arrivals i p) x) s)"

definition set_string :: "inputs \<Rightarrow> ptr \<Rightarrow> string \<Rightarrow> 'a system_scheme \<Rightarrow> (unit, 'a system_scheme) run" where
  "set_string i p text s = with_listeners (in_fuel i) i (call p (setValue_string (in_sv i) (in_arrivals i p) text) s)"

definition get_text :: "inputs \<Rightarrow> ptr \<Rightarrow> 'a system_scheme \<Rightarrow> (string, 'a system_scheme) run" where
  "get_text i p s =
     with_listeners (in_fuel i) i (bind (get_value i p s) (\<lambda>v. return (ov_toString (env.truncate (in_sv i)) v)))"

section \<open>Dimming\<close>

text \<open>
  The arithmetic is that of \<open>unsigned int\<close> and, for the increment of the first loop and the step, \<open>unsigned long\<close>; the pause
  is converted to \<open>int\<close>.  Adding \<open>1.0\<close> instead of 1 makes no difference, since a multiple of 4 is divided before.
\<close>

definition dim_up_incr :: "u32 \<Rightarrow> u32 \<Rightarrow> u32 \<Rightarrow> u64" where
  "dim_up_incr start stop duration = ucast (((stop - start) * 1000 div 2) div duration + 1)"

definition dim_down_incr :: "u32 \<Rightarrow> u32 \<Rightarrow> u32 \<Rightarrow> u32" where
  "dim_down_incr start stop duration = ((start - stop) * 500) div duration + 1"

definition dim_pause :: "u32 \<Rightarrow> u32 \<Rightarrow> u64 \<Rightarrow> int" where
  "dim_pause duration levels incr = sint (ucast (ucast (duration div levels) * incr) :: u32)"

text \<open>The loops: \<open>False\<close> when \<open>Run\<close> returned from inside, since it was stopped or the object was changed against the direction.\<close>

function dim_up_loop ::
    "inputs \<Rightarrow> ptr \<Rightarrow> ptr \<Rightarrow> u64 \<Rightarrow> int \<Rightarrow> u32 \<Rightarrow> u32 \<Rightarrow> 'a system_scheme wake list \<Rightarrow> 'a system_scheme \<Rightarrow> (bool, 'a system_scheme) thread" where
  "dim_up_loop i self p incr pause stop idx ws s =
     (if idx < stop then
        tbind (run_now (set_int i p idx s) ws) (\<lambda>_ ws s.
        tbind (Action_sleep self pause ws s) (\<lambda>stopped ws s.
          if stopped then tdone False ws s
          else
            tbind (run_now (getIntValue i p s) ws) (\<lambda>v ws s.
              if v < idx then tdone False ws s
              else dim_up_loop i self p incr pause stop (ucast (ucast idx + incr)) ws s)))
      else tdone True ws s)"
  by pat_completeness auto
termination
  by (relation "measure (\<lambda>(i, self, p, incr, pause, stop, idx, ws, s). length ws)")
    (auto dest!: run_now_wakes Action_sleep_wakes)

function dim_down_loop ::
    "inputs \<Rightarrow> ptr \<Rightarrow> ptr \<Rightarrow> u32 \<Rightarrow> int \<Rightarrow> u32 \<Rightarrow> u32 \<Rightarrow> 'a system_scheme wake list \<Rightarrow> 'a system_scheme \<Rightarrow> (bool, 'a system_scheme) thread" where
  "dim_down_loop i self p incr pause stop idx ws s =
     (if idx > stop then
        tbind (run_now (set_int i p idx s) ws) (\<lambda>_ ws s.
        tbind (Action_sleep self pause ws s) (\<lambda>stopped ws s.
          if stopped then tdone False ws s
          else
            tbind (run_now (getIntValue i p s) ws) (\<lambda>v ws s.
              if v > idx then tdone False ws s
              else if idx < incr then tdone True ws s
              else dim_down_loop i self p incr pause stop (idx - incr) ws s)))
      else tdone True ws s)"
  by pat_completeness auto
termination
  by (relation "measure (\<lambda>(i, self, p, incr, pause, stop, idx, ws, s). length ws)")
    (auto dest!: run_now_wakes Action_sleep_wakes)

declare dim_up_loop.simps [simp del] dim_down_loop.simps [simp del]

definition DimUpAction_Run ::
    "inputs \<Rightarrow> ptr \<Rightarrow> ptr \<Rightarrow> u32 \<Rightarrow> u32 \<Rightarrow> u32 \<Rightarrow> 'a system_scheme wake list \<Rightarrow> 'a system_scheme \<Rightarrow> (unit, 'a system_scheme) thread" where
  "DimUpAction_Run i self p start stop duration ws s =
     (if stop > start then
        (if duration = 0 then run_now (fail Division_by_zero s) ws
         else
           (let incr = dim_up_incr start stop duration in
            tbind (dim_up_loop i self p incr (dim_pause duration (stop - start) incr) stop start ws s) (\<lambda>go_on ws s.
              if go_on then run_now (set_int i p stop s) ws else tdone () ws s)))
      else
        (if duration = 0 \<or> start = stop then run_now (fail Division_by_zero s) ws
         else
           (let incr = dim_down_incr start stop duration in
            tbind (dim_down_loop i self p incr (dim_pause duration (start - stop) (ucast incr)) stop start ws s) (\<lambda>go_on ws s.
              if go_on then run_now (set_int i p stop s) ws else tdone () ws s))))"

section \<open>Cycles and lists\<close>

definition set_running :: "ptr \<Rightarrow> bool \<Rightarrow> 'a actors_scheme \<Rightarrow> 'a actors_scheme" where
  "set_running self b s = s\<lparr>running_m := (running_m s)(self := b)\<rparr>"

text \<open>The rounds that are left; \<open>False\<close> when it was asked to stop.\<close>

fun cycle_loop ::
    "inputs \<Rightarrow> ptr \<Rightarrow> ptr \<Rightarrow> int \<Rightarrow> int \<Rightarrow> nat \<Rightarrow> 'a system_scheme wake list \<Rightarrow> 'a system_scheme \<Rightarrow> (bool, 'a system_scheme) thread" where
  "cycle_loop i self p on off 0 ws s = tdone True ws s"
| "cycle_loop i self p on off (Suc n) ws s =
     (if \<not> running_m s self then tdone True ws s
      else
        tbind (run_now (setBoolValue i p True s) ws) (\<lambda>_ ws s.
        tbind (Action_sleep self on ws s) (\<lambda>stopped ws s.
          if stopped then tdone False ws s
          else if \<not> running_m s self then tdone True ws s
          else
            tbind (run_now (setBoolValue i p False s) ws) (\<lambda>_ ws s.
            tbind (Action_sleep self off ws s) (\<lambda>stopped ws s.
              if stopped then tdone False ws s else cycle_loop i self p on off n ws s)))))"

definition CycleOnOffAction_Run ::
    "inputs \<Rightarrow> ptr \<Rightarrow> int \<Rightarrow> ptr \<Rightarrow> int \<Rightarrow> int \<Rightarrow> int \<Rightarrow> 'a system_scheme wake list \<Rightarrow> 'a system_scheme \<Rightarrow> (unit, 'a system_scheme) thread" where
  "CycleOnOffAction_Run i self delay p on off rounds ws s =
     tbind (Action_sleep self delay ws (set_running self True s)) (\<lambda>stopped ws s.
       if stopped then tdone () ws s
       else
         tbind (cycle_loop i self p on off (nat rounds) ws s) (\<lambda>go_on ws s.
           tdone () ws (if go_on \<and> running_m s self then set_running self False s else s)))"

text \<open>Waiting for the actions of a list, to be able to cancel them.\<close>

function wait_finished ::
    "ptr \<Rightarrow> action list \<Rightarrow> 'a system_scheme wake list \<Rightarrow> 'a system_scheme \<Rightarrow> (unit, 'a system_scheme) thread" where
  "wait_finished self acts ws s =
     (if list_all (\<lambda>a. isFinished (action_ptr a) (pth_m s)) acts then tdone () ws s
      else
        tbind (Action_sleep self 1000 ws s) (\<lambda>stopped ws s.
          if stopped then run_now (for_all cancel acts s) ws else wait_finished self acts ws s))"
  by pat_completeness auto
termination
  by (relation "measure (\<lambda>(self, acts, ws, s). length ws)") (auto dest!: Action_sleep_wakes)

declare wait_finished.simps [simp del]

fun repeat_loop ::
    "ptr \<Rightarrow> int \<Rightarrow> action list \<Rightarrow> nat \<Rightarrow> 'a system_scheme wake list \<Rightarrow> 'a system_scheme \<Rightarrow> (bool, 'a system_scheme) thread" where
  "repeat_loop self period acts 0 ws s = tdone True ws s"
| "repeat_loop self period acts (Suc n) ws s =
     tbind (run_now (executeActions acts s) ws) (\<lambda>_ ws s.
     tbind (Action_sleep self period ws s) (\<lambda>stopped ws s.
       if stopped then tbind (run_now (for_all cancel acts s) ws) (\<lambda>_. tdone False)
       else repeat_loop self period acts n ws s))"

definition RepeatListAction_Run ::
    "ptr \<Rightarrow> int \<Rightarrow> int \<Rightarrow> action list \<Rightarrow> 'a system_scheme wake list \<Rightarrow> 'a system_scheme \<Rightarrow> (unit, 'a system_scheme) thread" where
  "RepeatListAction_Run self period rounds acts ws s =
     tbind (repeat_loop self period acts (nat rounds) ws s) (\<lambda>go_on ws s.
       if go_on then wait_finished self acts ws s else tdone () ws s)"

definition ConditionalAction_Run ::
    "inputs \<Rightarrow> ptr \<Rightarrow> condition \<Rightarrow> action list \<Rightarrow> 'a system_scheme wake list \<Rightarrow> 'a system_scheme \<Rightarrow> (unit, 'a system_scheme) thread" where
  "ConditionalAction_Run i self c acts ws s =
     tbind (run_now (with_listeners (in_fuel i) i (evaluate i c s)) ws) (\<lambda>curValue ws s.
     tbind (if curValue then run_now (executeActions acts s) ws else tdone () ws s) (\<lambda>_. wait_finished self acts))"

section \<open>The other actions\<close>

text \<open>An exception of the program can be caught; the other branches are not exceptions.\<close>

definition is_exception :: "exn \<Rightarrow> bool" where
  "is_exception e \<longleftrightarrow> e \<notin> {Null_deref, Out_of_bounds, Not_finite, Division_by_zero, No_return}"

definition catch :: "(unit, 's) run \<Rightarrow> (unit, 's) run" where
  "catch r = (case r of (effs, Inl e, s) \<Rightarrow> if is_exception e then (effs, Inr (), s) else (effs, Inl e, s) | (effs, Inr v, s) \<Rightarrow> (effs, Inr v, s))"

definition CopyValueAction_Run :: "inputs \<Rightarrow> ptr \<Rightarrow> ptr \<Rightarrow> 'a system_scheme \<Rightarrow> (unit, 'a system_scheme) run" where
  "CopyValueAction_Run i from to s = catch (bind (get_text i from s) (set_string i to))"

definition ToggleValueAction_Run :: "inputs \<Rightarrow> ptr \<Rightarrow> 'a system_scheme \<Rightarrow> (unit, 'a system_scheme) run" where
  "ToggleValueAction_Run i p s = bind (getBoolValue i p s) (\<lambda>b. setBoolValue i p (\<not> b))"

text \<open>The result is a \<open>float\<close>; the factors are \<open>float\<close> too, and the arithmetic between is that of \<open>double\<close>.\<close>

definition formula_term :: "inputs \<Rightarrow> rat \<Rightarrow> rat \<Rightarrow> ptr option \<Rightarrow> rat \<Rightarrow> 'a system_scheme \<Rightarrow> (rat, 'a system_scheme) run" where
  "formula_term i a m x res s =
     (case x of
        None \<Rightarrow> return res s
      | Some p \<Rightarrow> bind (getFloatValue i p s) (\<lambda>v. return (fl 24 (fl 53 (res + fl 53 (a * in_pow i v m))))))"

definition FormulaAction_Run ::
    "inputs \<Rightarrow> ptr \<Rightarrow> ptr option \<Rightarrow> ptr option \<Rightarrow> rat \<Rightarrow> rat \<Rightarrow> rat \<Rightarrow> rat \<Rightarrow> rat \<Rightarrow> 'a system_scheme \<Rightarrow> (unit, 'a system_scheme) run" where
  "FormulaAction_Run i p x y a b c m n s =
     bind (formula_term i a m x c s) (\<lambda>res s.
     bind (formula_term i b n y res s) (\<lambda>res. set_float i p res))"

definition SetStringAction_Run :: "inputs \<Rightarrow> ptr \<Rightarrow> string \<Rightarrow> 'a system_scheme \<Rightarrow> (unit, 'a system_scheme) run" where
  "SetStringAction_Run i p text s =
     bind (with_listeners (in_fuel i) i (parseVarString i False text s)) (\<lambda>(_, value). set_string i p value)"

text \<open>The text of an action, expanded when its flag is set.\<close>

definition var_text :: "inputs \<Rightarrow> int \<Rightarrow> int \<Rightarrow> string \<Rightarrow> 'a system_scheme \<Rightarrow> (string, 'a system_scheme) run" where
  "var_text i var flags text s =
     (if flags AND var \<noteq> 0
      then bind (with_listeners (in_fuel i) i (parseVarString i False text s)) (\<lambda>(_, value). return value)
      else return text s)"

definition SendSmsAction_Run :: "inputs \<Rightarrow> int \<Rightarrow> string \<Rightarrow> string \<Rightarrow> 'a system_scheme \<Rightarrow> (unit, 'a system_scheme) run" where
  "SendSmsAction_Run i flags ident text s =
     bind (var_text i 2 flags ident s) (\<lambda>ident s.
     bind (var_text i 4 flags text s) (\<lambda>text s. ([Sms ident text], Inr (), s)))"

definition SendEmailAction_Run ::
    "inputs \<Rightarrow> int \<Rightarrow> string \<Rightarrow> string \<Rightarrow> string \<Rightarrow> 'a system_scheme \<Rightarrow> (unit, 'a system_scheme) run" where
  "SendEmailAction_Run i flags to subject text s =
     bind (var_text i 2 flags to s) (\<lambda>to s.
     bind (var_text i 4 flags subject s) (\<lambda>subject s.
     bind (var_text i 8 flags text s) (\<lambda>text s. ([Email to subject text], Inr (), s))))"

definition ShellCommandAction_Run :: "inputs \<Rightarrow> int \<Rightarrow> string \<Rightarrow> 'a system_scheme \<Rightarrow> (unit, 'a system_scheme) run" where
  "ShellCommandAction_Run i flags cmd s = bind (var_text i 2 flags cmd s) (\<lambda>cmd s. ([Shell cmd], Inr (), s))"

definition on_rule :: "(ptr \<Rightarrow> 'a system_scheme \<Rightarrow> (unit, 'a system_scheme) run) \<Rightarrow> string \<Rightarrow> 'a system_scheme \<Rightarrow> (unit, 'a system_scheme) run" where
  "on_rule f rid s = (case getRule rid s of None \<Rightarrow> return () s | Some r \<Rightarrow> f r s)"

definition StartActionlistAction_Run :: "string \<Rightarrow> bool \<Rightarrow> 'a system_scheme \<Rightarrow> (unit, 'a system_scheme) run" where
  "StartActionlistAction_Run rid lst s =
     on_rule (\<lambda>r s. bind (the_rule r s) (\<lambda>rule s.
       if lst then bind (executeActions (getActions OnTrue rule) s) (\<lambda>_. executeActions (getActions IfTrue rule))
       else bind (executeActions (getActions OnFalse rule) s) (\<lambda>_. executeActions (getActions IfFalse rule)))) rid s"

definition CancelAction_Run :: "string \<Rightarrow> 'a system_scheme \<Rightarrow> (unit, 'a system_scheme) run" where
  "CancelAction_Run rid s = on_rule Rule_cancel rid s"

definition SetRuleActiveAction_Run :: "string \<Rightarrow> bool \<Rightarrow> 'a system_scheme \<Rightarrow> (unit, 'a system_scheme) run" where
  "SetRuleActiveAction_Run rid active s = on_rule (\<lambda>r. change_rule r (setActive active)) rid s"

section \<open>Run\<close>

text \<open>Every \<open>Run\<close> but that of \<open>CycleOnOffAction\<close> begins with the delay.\<close>

definition Run :: "inputs \<Rightarrow> action \<Rightarrow> 'a system_scheme wake list \<Rightarrow> 'a system_scheme \<Rightarrow> (unit, 'a system_scheme) thread" where
  "Run i a ws s =
     (let self = action_ptr a in
      case kind a of
        CycleOnOffAction p on off rounds \<Rightarrow> CycleOnOffAction_Run i self (delay_m a) p on off rounds ws s
      | k \<Rightarrow>
          tbind (Action_sleep self (delay_m a) ws s) (\<lambda>stopped ws s.
            if stopped then tdone () ws s
            else
              (case k of
                 DimUpAction p start stop duration \<Rightarrow> DimUpAction_Run i self p start stop duration ws s
               | RepeatListAction period rounds acts \<Rightarrow> RepeatListAction_Run self period rounds acts ws s
               | ConditionalAction c acts \<Rightarrow> ConditionalAction_Run i self c acts ws s
               | SetValueAction p v \<Rightarrow> run_now (set_object (in_fuel i) i p v s) ws
               | CopyValueAction from to \<Rightarrow> run_now (CopyValueAction_Run i from to s) ws
               | ToggleValueAction p \<Rightarrow> run_now (ToggleValueAction_Run i p s) ws
               | FormulaAction p x y a b c m n \<Rightarrow> run_now (FormulaAction_Run i p x y a b c m n s) ws
               | SetStringAction p text \<Rightarrow> run_now (SetStringAction_Run i p text s) ws
               | SendReadRequestAction p \<Rightarrow>
                   run_now (with_listeners (in_fuel i) i (call p (read (in_sv i) (in_arrivals i p)) s)) ws
               | SendSmsAction flags ident text \<Rightarrow> run_now (SendSmsAction_Run i flags ident text s) ws
               | SendEmailAction flags to subject text \<Rightarrow> run_now (SendEmailAction_Run i flags to subject text s) ws
               | ShellCommandAction flags cmd \<Rightarrow> run_now (ShellCommandAction_Run i flags cmd s) ws
               | StartActionlistAction rid lst \<Rightarrow> run_now (StartActionlistAction_Run rid lst s) ws
               | CancelAction rid \<Rightarrow> run_now (CancelAction_Run rid s) ws
               | SetRuleActiveAction rid active \<Rightarrow> run_now (SetRuleActiveAction_Run rid active s) ws
               | ForeignAction cfg \<Rightarrow> ([Did (Foreign cfg)], Returned (), ws, s)
               | CycleOnOffAction p on off rounds \<Rightarrow> tdone () ws s)))"

text \<open>\<open>ThreadWrapper\<close> of the thread \<open>n\<close>.\<close>

definition ThreadWrapper :: "inputs \<Rightarrow> nat \<Rightarrow> action \<Rightarrow> 'a system_scheme wake list \<Rightarrow> 'a system_scheme \<Rightarrow> (unit, 'a system_scheme) thread" where
  "ThreadWrapper i n a ws s =
     tbind (Run i a ws s) (\<lambda>_ ws s. tdone () ws (s\<lparr>pth_m := ThreadWrapper_end n (action_ptr a) (pth_m s)\<rparr>))"

end
