(* ===== verification/Rule_Laws.thy ===== *)
theory Rule_Laws
  imports Rules
begin

text \<open>What rules guarantee: the actions follow the edges of the condition; and what goes wrong when rules are configured again.\<close>

section \<open>Edges\<close>

lemma truth_cong:
  assumes "objects s' = objects s" and "tasks s' = tasks s"
  shows "truth i s' c = truth i s c"
  by (induction c) (auto simp: assms object_truth_def value_at_def split: option.splits)

lemma ready_cong:
  assumes "objects s' = objects s" and "tasks s' = tasks s"
  shows "ready s' c = ready s c"
  by (induction c) (auto simp: assms has_value_def list_all_iff)

lemma executeActions_run:
  "\<exists>t. executeActions acts s = (map (Execute \<circ> action_ptr) acts, Inr (), s\<lparr>pth_m := t\<rparr>)"
  unfolding executeActions_def
proof (induction acts arbitrary: s)
  case (Cons a acts)
  obtain t where "for_all execute acts (s\<lparr>pth_m := Start True (action_ptr a) (pth_m s)\<rparr>)
      = (map (Execute \<circ> action_ptr) acts, Inr (), s\<lparr>pth_m := t\<rparr>)"
    using Cons.IH [of "s\<lparr>pth_m := Start True (action_ptr a) (pth_m s)\<rparr>"] by auto
  moreover have "execute a s = ([Execute (action_ptr a)], Inr (), s\<lparr>pth_m := Start True (action_ptr a) (pth_m s)\<rparr>)"
    by (simp add: execute_def)
  ultimately show ?case by (auto simp: bind_def)
next
  case Nil
  show ?case by (rule exI [of _ "pth_m s"]) (simp add: return_def)
qed

text \<open>The actions due when the condition goes from \<open>was\<close> to \<open>is\<close>.\<close>

definition due :: "Rule \<Rightarrow> bool \<times> bool \<Rightarrow> action list" where
  "due rule = (\<lambda>(was, is).
     (if is then actionsIfTrue_m rule else actionsIfFalse_m rule)
     @ (if is \<and> \<not> was then actionsOnTrue_m rule else []) @ (if was \<and> \<not> is then actionsOnFalse_m rule else []))"

lemma Rule_evaluate_edge:
  assumes "rules s r = Some rule" and "isActive rule" and "condition_m rule = Some c" and "memoryless c" and "ready s c"
  shows "\<exists>t. Rule_evaluate i r s =
     (map (Execute \<circ> action_ptr) (due rule (prevValue_m rule, truth i s c)), Inr (),
      set_rule r (rule\<lparr>prevValue_m := truth i s c\<rparr>) (s\<lparr>pth_m := t\<rparr>))"
proof -
  let ?if = "if truth i s c then actionsIfTrue_m rule else actionsIfFalse_m rule"
  let ?on = "if truth i s c \<and> \<not> prevValue_m rule then actionsOnTrue_m rule
             else if prevValue_m rule \<and> \<not> truth i s c then actionsOnFalse_m rule else []"
  obtain t1 where t1: "executeActions ?if s = (map (Execute \<circ> action_ptr) ?if, Inr (), s\<lparr>pth_m := t1\<rparr>)"
    using executeActions_run by blast
  obtain t2 where t2: "executeActions ?on (s\<lparr>pth_m := t1\<rparr>) = (map (Execute \<circ> action_ptr) ?on, Inr (), s\<lparr>pth_m := t1\<rparr>\<lparr>pth_m := t2\<rparr>)"
    using executeActions_run by blast
  have none: "executeActions [] = (return () :: 'a system_scheme \<Rightarrow> _)" by (simp add: executeActions_def fun_eq_iff)
  have e: "evaluate i c s = return (truth i s c) s" using assms(4,5) by (rule evaluate_truth(1))
  have "Rule_evaluate i r s = bind (bind (executeActions ?if s) (\<lambda>_. executeActions ?on))
      (\<lambda>_. change_rule r (\<lambda>rule. rule\<lparr>prevValue_m := truth i s c\<rparr>))"
    unfolding Rule_evaluate_def the_rule_def
    by (cases "truth i s c"; cases "prevValue_m rule") (simp_all add: assms(1-3) e none)
  then have "Rule_evaluate i r s = (map (Execute \<circ> action_ptr) (?if @ ?on), Inr (),
      set_rule r (rule\<lparr>prevValue_m := truth i s c\<rparr>) (s\<lparr>pth_m := t2\<rparr>))"
    unfolding t1 bind_def prod.case sum.case t2
    by (simp add: change_rule_def the_rule_def assms(1) return_def)
  moreover have "?if @ ?on = due rule (prevValue_m rule, truth i s c)" by (simp add: due_def)
  ultimately show ?thesis by metis
qed

text \<open>A history of evaluations: before each, anything may have happened to the objects; what the condition is worth then.\<close>

type_synonym changes = "(inputs \<times> (ObjectController \<Rightarrow> ObjectController)) list"

fun evaluations :: "ptr \<Rightarrow> changes \<Rightarrow> 'a system_scheme \<Rightarrow> (unit, 'a system_scheme) run" where
  "evaluations r [] s = return () s"
| "evaluations r ((i, f) # xs) s =
     bind (Rule_evaluate i r (s\<lparr>objects := f (objects s)\<rparr>)) (\<lambda>_. evaluations r xs)"

fun worths :: "condition \<Rightarrow> changes \<Rightarrow> 'a engine_scheme \<Rightarrow> bool list" where
  "worths c [] s = []"
| "worths c ((i, f) # xs) s = truth i (s\<lparr>objects := f (objects s)\<rparr>) c # worths c xs (s\<lparr>objects := f (objects s)\<rparr>)"

fun ready_for :: "condition \<Rightarrow> changes \<Rightarrow> 'a engine_scheme \<Rightarrow> bool" where
  "ready_for c [] s = True"
| "ready_for c ((i, f) # xs) s = (ready (s\<lparr>objects := f (objects s)\<rparr>) c \<and> ready_for c xs (s\<lparr>objects := f (objects s)\<rparr>))"

lemma worths_cong: "objects s' = objects s \<Longrightarrow> tasks s' = tasks s \<Longrightarrow> worths c xs s' = worths c xs s"
proof (induction c xs s arbitrary: s' rule: worths.induct)
  case (2 c i f xs s)
  have "truth i (s'\<lparr>objects := f (objects s)\<rparr>) c = truth i (s\<lparr>objects := f (objects s)\<rparr>) c"
    using 2 by (intro truth_cong) simp_all
  then show ?case using 2 by simp
qed simp

lemma ready_for_cong: "objects s' = objects s \<Longrightarrow> tasks s' = tasks s \<Longrightarrow> ready_for c xs s' = ready_for c xs s"
proof (induction c xs s arbitrary: s' rule: ready_for.induct)
  case (2 c i f xs s)
  have "ready (s'\<lparr>objects := f (objects s)\<rparr>) c = ready (s\<lparr>objects := f (objects s)\<rparr>) c"
    using 2 by (intro ready_cong) simp_all
  then show ?case using 2 by simp
qed simp

text \<open>
  C6.  However the objects change between the evaluations of an active rule, the actions it executes are those due at the
  steps of its condition: on-true at a rising edge only, on-false at a falling edge only, if-true and if-false at
  every evaluation, and before those of the edge; and the rule keeps the last value.
\<close>

theorem rule_follows_edges:
  assumes "rules s r = Some rule" and "isActive rule" and "condition_m rule = Some c" and "memoryless c" and "ready_for c xs s"
  shows "\<exists>s'. evaluations r xs s =
     (map (Execute \<circ> action_ptr) (concat (map (due rule) (zip (prevValue_m rule # worths c xs s) (worths c xs s)))), Inr (), s')
     \<and> rules s' r = Some (rule\<lparr>prevValue_m := last (prevValue_m rule # worths c xs s)\<rparr>)"
  using assms
proof (induction xs arbitrary: s rule)
  case Nil
  then show ?case by (simp add: return_def)
next
  case (Cons x xs)
  obtain i f where x: "x = (i, f)" by (cases x)
  let ?s = "s\<lparr>objects := f (objects s)\<rparr>"
  let ?v = "truth i ?s c"
  let ?rule = "rule\<lparr>prevValue_m := ?v\<rparr>"
  have "ready ?s c" using Cons.prems(5) x by simp
  then obtain t where t: "Rule_evaluate i r ?s = (map (Execute \<circ> action_ptr) (due rule (prevValue_m rule, ?v)), Inr (), set_rule r ?rule (?s\<lparr>pth_m := t\<rparr>))"
    using Rule_evaluate_edge [of ?s r rule c i] Cons.prems by auto
  let ?s1 = "set_rule r ?rule (?s\<lparr>pth_m := t\<rparr>)"
  have same: "objects ?s1 = objects ?s" "tasks ?s1 = tasks ?s" by (simp_all add: set_rule_def)
  have w: "worths c xs ?s1 = worths c xs ?s" by (rule worths_cong [OF same])
  have rdy: "ready_for c xs ?s1" using Cons.prems(5) x by (simp add: ready_for_cong [OF same])
  have rule1: "rules ?s1 r = Some ?rule" "isActive ?rule" "condition_m ?rule = Some c"
    using Cons.prems by (simp_all add: set_rule_def isActive_def)
  obtain s' where s': "evaluations r xs ?s1 =
      (map (Execute \<circ> action_ptr) (concat (map (due ?rule) (zip (?v # worths c xs ?s) (worths c xs ?s)))), Inr (), s')"
      "rules s' r = Some (?rule\<lparr>prevValue_m := last (?v # worths c xs ?s)\<rparr>)"
    using Cons.IH [OF rule1 Cons.prems(4) rdy] w by auto
  have "due ?rule = due rule" by (auto simp: due_def)
  then show ?case using s' t x by (simp add: bind_def)
qed

text \<open>Inputs and a state for examples: no telegram arrives, and nothing is scheduled.\<close>

definition plain_inputs :: inputs where
  "plain_inputs =
     \<lparr>in_sv = env.extend plain_env (services.fields False None),
      in_arrivals = (\<lambda>_. []), in_now = 0,
      in_schedule = \<lparr>sc_zone = 0, sc_values = (\<lambda>_. None), sc_sun = (\<lambda>_ _ _ _. (0, 0)), sc_days = []\<rparr>,
      in_fuel = 0, in_foreign = (\<lambda>_. False), in_foreign_xml = (\<lambda>_ e. e), in_ready = True, in_pow = (\<lambda>x _. x)\<rparr>"

definition plain_system :: "ObjectController \<Rightarrow> system" where
  "plain_system oc =
     \<lparr>taskList_m = [], tasks = (\<lambda>_. None), objects = oc, refValue_m = (\<lambda>_. 0), next_id = 10,
      stopCondition_m = (\<lambda>_. None), running_m = (\<lambda>_. False), pth_m = pth_new, rules = (\<lambda>_. None), rulesMap_m = [], clients = (\<lambda>_. None)\<rparr>"

theorem rule_follows_edges_witness:
  "\<exists>s'. evaluations 3 (map (\<lambda>b. (plain_inputs\<lparr>in_foreign := \<lambda>_. b\<rparr>, id)) [True, True, False, True])
      ((plain_system ObjectController_new)\<lparr>rules :=
         [3 \<mapsto> Rule_new\<lparr>condition_m := Some (ForeignCondition (Text [])), actionsOnTrue_m := [Action 7 0 (CancelAction [])],
                         actionsIfTrue_m := [Action 8 0 (CancelAction [])]\<rparr>]\<rparr>)
     = ([Execute 8, Execute 7, Execute 8, Execute 8, Execute 7], Inr (), s')"
proof -
  let ?rule = "Rule_new\<lparr>condition_m := Some (ForeignCondition (Text [])), actionsOnTrue_m := [Action 7 0 (CancelAction [])],
                         actionsIfTrue_m := [Action 8 0 (CancelAction [])]\<rparr>"
  let ?s = "(plain_system ObjectController_new)\<lparr>rules := [3 \<mapsto> ?rule]\<rparr>"
  let ?xs = "map (\<lambda>b. (plain_inputs\<lparr>in_foreign := \<lambda>_. b\<rparr>, id)) [True, True, False, True]"
  have "rules ?s 3 = Some ?rule" "isActive ?rule" "condition_m ?rule = Some (ForeignCondition (Text []))"
    "memoryless (ForeignCondition (Text []))" "ready_for (ForeignCondition (Text [])) ?xs ?s"
    by (simp_all add: isActive_def Rule_new_def Active_def)
  from rule_follows_edges [OF this] obtain s' where
    ev: "evaluations 3 ?xs ?s = (map (Execute \<circ> action_ptr) (concat (map (due ?rule) (zip (prevValue_m ?rule # worths (ForeignCondition (Text [])) ?xs ?s)
       (worths (ForeignCondition (Text [])) ?xs ?s)))), Inr (), s')" by blast
  have acts: "concat (map (due ?rule) (zip (prevValue_m ?rule # worths (ForeignCondition (Text [])) ?xs ?s) (worths (ForeignCondition (Text [])) ?xs ?s)))
      = map (\<lambda>p. Action p 0 (CancelAction [])) [8, 7, 8, 8, 7]"
    by (simp add: due_def Rule_new_def)
  have effects: "map (Execute \<circ> action_ptr) (map (\<lambda>p. Action p 0 (CancelAction [])) [8, 7, 8, 8, 7]) = [Execute 8, Execute 7, Execute 8, Execute 8, Execute 7]"
    by simp
  show ?thesis using ev unfolding acts effects by (rule exI)
qed

section \<open>Configuring a rule again\<close>

definition trigger_on :: "string \<Rightarrow> xml" where
  "trigger_on oid = Element ''condition'' [(''type'', ''object''), (''id'', oid), (''trigger'', ''true'')] []"

definition listens :: "'a engine_scheme \<Rightarrow> ptr \<Rightarrow> listener \<Rightarrow> bool" where
  "listens s p l \<longleftrightarrow> (case heap (objects s) p of None \<Rightarrow> False | Some obj \<Rightarrow> l \<in> set (listenerList_m obj))"

definition registered_as :: "'a engine_scheme \<Rightarrow> string \<Rightarrow> ptr \<Rightarrow> Object \<Rightarrow> bool" where
  "registered_as s oid p obj \<longleftrightarrow>
     heap (objects s) p = Some obj \<and> map_of (objectIdMap_m (objects s)) oid = Some p \<and> refCount_m obj \<ge> 0"

text \<open>A condition on an object is created with its trigger.\<close>

lemma create_trigger:
  assumes "registered_as s oid p obj"
  shows "Condition_create i (Some r) (trigger_on oid) s =
    ([], Inr (ObjectCondition \<lparr>cd_object = p, cd_value = None, cd_op = eq, cd_trigger = True\<rparr>),
     s\<lparr>objects := update_object p (addChangeListener r (incRefCount obj)) (objects s)\<rparr>)"
  using assms
  by (simp add: registered_as_def trigger_on_def Condition_create.simps ObjectCondition_importXml_def GetAttribute_def attribute_def
      lookup_def getObject_def on_objects_def call_object_def finish_def value_of_def listen_def call_def update_object_def
      return_def parse_op_def Let_def)

lemma delete_trigger:
  assumes "heap (objects s) p = Some obj" and "refCount_m obj \<ge> 1"
  shows "Condition_delete (Some r) (ObjectCondition \<lparr>cd_object = p, cd_value = None, cd_op = op, cd_trigger = b\<rparr>) s =
    ([], Inr (), s\<lparr>objects := update_object p (removeChangeListener r obj\<lparr>refCount_m := refCount_m obj - 1\<rparr>) (objects s)\<rparr>)"
  using assms
  by (simp add: ObjectCondition_delete_def silence_def release_def call_def on_objects_def call_object_def finish_def value_of_def
      update_object_def decRefCount_def removeChangeListener_def)

text \<open>
   Giving a rule a new condition on the object its condition was on already takes the rule off the list of listeners
  of the object: the new condition is entered first, and then the destructor of the old one removes every entry of
  the rule.  The rule has its new condition, with its trigger, but no change of the object evaluates it any more.
\<close>

theorem update_silences_rule:
  assumes "registered_as s oid p obj" and "rules s r = Some rule"
    and "condition_m rule = Some (ObjectCondition \<lparr>cd_object = p, cd_value = None, cd_op = eq, cd_trigger = True\<rparr>)"
  shows "\<exists>s' rule'. Rule_updateXml i r (Element ''rule'' [] [trigger_on oid]) s = ([], Inr (), s')
     \<and> rules s' r = Some rule' \<and> condition_m rule' = Some (ObjectCondition \<lparr>cd_object = p, cd_value = None, cd_op = eq, cd_trigger = True\<rparr>)
     \<and> \<not> listens s' p r"
proof -
  let ?c = "ObjectCondition \<lparr>cd_object = p, cd_value = None, cd_op = eq, cd_trigger = True\<rparr>"
  let ?obj1 = "addChangeListener r (incRefCount obj)"
  let ?s0 = "set_rule r rule s"
  let ?s1 = "?s0\<lparr>objects := update_object p ?obj1 (objects s)\<rparr>"
  have reg: "registered_as ?s0 oid p obj" using assms(1) by (simp add: registered_as_def set_rule_def)
  have create: "Condition_create i (Some r) (trigger_on oid) ?s0 = ([], Inr ?c, ?s1)"
    using create_trigger [OF reg, of i r] by (simp add: set_rule_def)
  have "heap (objects ?s1) p = Some ?obj1" "refCount_m ?obj1 \<ge> 1"
    using assms(1) by (simp_all add: update_object_def registered_as_def addChangeListener_def incRefCount_def)
  note del = delete_trigger [OF this, of r eq True]
  have cfg: "FirstChildElement ''condition'' (Element ''rule'' [] [trigger_on oid]) = Some (trigger_on oid)"
    "elements ''actionlist'' (Element ''rule'' [] [trigger_on oid]) = []"
    by (simp_all add: FirstChildElement_def elements_def trigger_on_def)
  show ?thesis
    using assms(2,3) create del cfg
    by (simp add: Rule_updateXml_def Let_def GetAttribute_def GetAttributeOrDefault_def attribute_def import_description_def
        change_rule_def the_rule_def setCondition_def return_def)
      (simp add: set_rule_def listens_def update_object_def removeChangeListener_def change_rule_def the_rule_def return_def)
qed

text \<open>
  C38.  A rule whose configuration is refused after one of its conditions was entered with an object stays there: the rule is
  not known to the server, but the next change of the object evaluates it, and the evaluation uses its condition,
  a null pointer.
\<close>

theorem refused_rule_crashes:
  fixes s :: "'a system_scheme"
  assumes "registered_as s oid p obj" and "map_of (rulesMap_m s) rid = None"
    and "bad = Element ''condition'' as cs" and "\<forall>s1 :: 'a system_scheme. Condition_create i (Some (next_id s)) bad s1 = fail e s1"
  shows "\<exists>s'. import_rule i (Element ''rule'' [(''id'', rid)]
        [Element ''condition'' [(''type'', ''and'')] [trigger_on oid, bad]]) s = ([], Inl e, s')
     \<and> map_of (rulesMap_m s') rid = None \<and> listens s' p (next_id s)
     \<and> call_listener i' (next_id s) x s' = ([], Inl Null_deref, s')"
proof -
  let ?r = "next_id s"
  let ?cond = "Element ''condition'' [(''type'', ''and'')] [trigger_on oid, bad]"
  let ?rule = "import_init_flags '''' (setActive True (Rule_new\<lparr>rule_id := rid\<rparr>))"
  let ?s0 = "set_rule ?r ?rule (set_rule ?r Rule_new (s\<lparr>next_id := ?r + 1\<rparr>))"
  let ?s1 = "?s0\<lparr>objects := update_object p (addChangeListener ?r (incRefCount obj)) (objects s)\<rparr>"
  have reg: "registered_as ?s0 oid p obj" using assms(1) by (simp add: registered_as_def set_rule_def)
  have two: "elements ''condition'' ?cond = [trigger_on oid, bad]"
    using assms(3) by (simp add: elements_def trigger_on_def)
  have objs: "objects ?s0 = objects s" by (simp add: set_rule_def)
  have trigger: "Condition_create i (Some ?r) (trigger_on oid) ?s0
      = ([], Inr (ObjectCondition \<lparr>cd_object = p, cd_value = None, cd_op = eq, cd_trigger = True\<rparr>), ?s1)"
    using create_trigger [OF reg, of i ?r] by (simp only: objs)
  have "create_conditions i (Some ?r) [trigger_on oid, bad] ?s0 = ([], Inl e, ?s1)"
    unfolding create_conditions.simps trigger bind_simps assms(4) [rule_format] by (simp add: fail_def)
  then have create: "Condition_create i (Some ?r) ?cond ?s0 = ([], Inl e, ?s1)"
    unfolding Condition_create.simps [of i "Some ?r" ?cond] Let_def two
    by (simp add: GetAttribute_def attribute_def)
  have rule: "rules ?s1 ?r = Some ?rule" "condition_m ?rule = None" "isActive ?rule"
    by (simp_all add: set_rule_def Rule_new_def import_init_flags_def setActive_def isActive_def rule_flag_defs)
  have child: "FirstChildElement ''condition'' (Element ''rule'' [(''id'', rid)] [?cond]) = Some ?cond"
    by (simp add: FirstChildElement_def elements_def)
  have import: "import_rule i (Element ''rule'' [(''id'', rid)] [?cond]) s = ([], Inl e, ?s1)"
    using assms(2) create child
    by (simp add: import_rule_def Rule_importXml_def Let_def GetAttribute_def GetAttributeOrDefault_def attribute_def new_id_def
        import_description_def change_rule_def the_rule_def return_def truthy_def set_rule_def)
  have "call_listener i' ?r x ?s1 = ([], Inl Null_deref, ?s1)"
    using rule by (simp add: call_listener_def Rule_evaluate_def the_rule_def fail_def)
  moreover have "listens ?s1 p ?r" by (simp add: listens_def update_object_def addChangeListener_def)
  moreover have "map_of (rulesMap_m ?s1) rid = None" using assms(2) by (simp add: set_rule_def)
  ultimately show ?thesis using import by blast
qed

theorem refused_rule_crashes_witness:
  "\<exists>s'. import_rule plain_inputs (Element ''rule'' [(''id'', ''r'')]
        [Element ''condition'' [(''type'', ''and'')] [trigger_on ''a'', Element ''condition'' [(''type'', ''typo'')] []]])
      (plain_system (ObjectController_new\<lparr>heap := [0 \<mapsto> Object_new 0 (Switching \<lparr>sw_eis = 1, sw_value = False\<rparr>)], objectIdMap_m := [(''a'', 0)]\<rparr>))
     = ([], Inl (Bad_type ''typo''), s') \<and> listens s' 0 10 \<and> call_listener plain_inputs 10 (Some ''a'') s' = ([], Inl Null_deref, s')"
proof -
  let ?s = "plain_system (ObjectController_new\<lparr>heap := [0 \<mapsto> Object_new 0 (Switching \<lparr>sw_eis = 1, sw_value = False\<rparr>)], objectIdMap_m := [(''a'', 0)]\<rparr>)"
  have reg: "registered_as ?s ''a'' 0 (Object_new 0 (Switching \<lparr>sw_eis = 1, sw_value = False\<rparr>))"
    by (simp add: registered_as_def plain_system_def Object_new_def)
  have none: "map_of (rulesMap_m ?s) ''r'' = None" by (simp add: plain_system_def)
  have bad: "\<forall>s1 :: system. Condition_create plain_inputs (Some (next_id ?s)) (Element ''condition'' [(''type'', ''typo'')] []) s1 = fail (Bad_type ''typo'') s1"
    by (simp add: Condition_create.simps GetAttribute_def attribute_def)
  have ten: "next_id ?s = 10" by (simp add: plain_system_def)
  show ?thesis using refused_rule_crashes [OF reg none refl bad, of plain_inputs] unfolding ten by blast
qed

theorem update_silences_rule_witness:
  "\<exists>s'. Rule_updateXml plain_inputs 10 (Element ''rule'' [] [trigger_on ''a''])
      ((plain_system (ObjectController_new\<lparr>heap := [0 \<mapsto> (Object_new 0 (Switching \<lparr>sw_eis = 1, sw_value = False\<rparr>))\<lparr>listenerList_m := [10]\<rparr>],
         objectIdMap_m := [(''a'', 0)]\<rparr>))
       \<lparr>rules := [10 \<mapsto> Rule_new\<lparr>condition_m := Some (ObjectCondition \<lparr>cd_object = 0, cd_value = None, cd_op = eq, cd_trigger = True\<rparr>)\<rparr>]\<rparr>)
     = ([], Inr (), s') \<and> \<not> listens s' 0 10"
proof -
  let ?obj = "(Object_new 0 (Switching \<lparr>sw_eis = 1, sw_value = False\<rparr>))\<lparr>listenerList_m := [10]\<rparr>"
  let ?rule = "Rule_new\<lparr>condition_m := Some (ObjectCondition \<lparr>cd_object = 0, cd_value = None, cd_op = eq, cd_trigger = True\<rparr>)\<rparr>"
  let ?s = "(plain_system (ObjectController_new\<lparr>heap := [0 \<mapsto> ?obj], objectIdMap_m := [(''a'', 0)]\<rparr>))\<lparr>rules := [10 \<mapsto> ?rule]\<rparr>"
  have reg: "registered_as ?s ''a'' 0 ?obj" by (simp add: registered_as_def plain_system_def Object_new_def)
  have rule: "rules ?s 10 = Some ?rule" by simp
  have c: "condition_m ?rule = Some (ObjectCondition \<lparr>cd_object = 0, cd_value = None, cd_op = eq, cd_trigger = True\<rparr>)" by simp
  show ?thesis using update_silences_rule [OF reg rule c] by blast
qed

end

