(* ===== verification/Run_Laws.thy ===== *)
theory Run_Laws
  imports Runs Rule_Laws
begin

text \<open>What the longer actions send when nothing disturbs them, and how long they take.\<close>

section \<open>Quiet objects\<close>

text \<open>An object with a value and without listeners that sends its changes and is not stored.\<close>

definition quiet :: "Object \<Rightarrow> bool" where
  "quiet obj \<longleftrightarrow>
     init_m obj \<and> listenerList_m obj = [] \<and> \<not> persist_m obj \<and> \<not> writeLog_m obj \<and> has_flag Transmit obj \<and> has_flag Comm obj"

definition put :: "ptr \<Rightarrow> Object \<Rightarrow> 'a engine_scheme \<Rightarrow> 'a engine_scheme" where
  "put p obj s = s\<lparr>objects := update_object p obj (objects s)\<rparr>"

lemma put_put [simp]: "put p obj (put p obj' s) = put p obj s"
  by (simp add: put_def update_object_def)

lemma put_same: "heap (objects s) p = Some obj \<Longrightarrow> put p obj s = s"
  by (simp add: put_def update_object_def fun_upd_idem)

lemma put_fields [simp]:
  "heap (objects (put p obj s)) p = Some obj" "pth_m (put p obj s') = pth_m s'" "running_m (put p obj s') = running_m s'"
  by (simp_all add: put_def update_object_def)

lemma deliver_send [simp]: "deliver n i [Send a bs] s = ([Send a bs], Inr (), s)"
  by (simp add: return_def)

lemma internal_update_quiet:
  assumes "quiet obj" and "ov_doSend (env.truncate sv) True (obj_value obj) = Inr bs" and "\<not> is_dpt9 (obj_value obj)"
  shows "onInternalUpdate sv arrivals obj = ([Send (gad_m obj) bs], None, obj)"
proof -
  have "obj\<lparr>init_m := True\<rparr> = obj" using assms(1) by (cases obj) (simp add: quiet_def)
  then show ?thesis
    using assms by (simp add: quiet_def onInternalUpdate_def doSend_def send_value_def onUpdate_def and_then_def finish_def Let_def)
qed

lemma call_quiet:
  assumes "heap (objects s) p = Some obj" and "f obj = ([Send a bs], None, obj')"
  shows "with_listeners n i (call p f s) = ([Send a bs], Inr (), put p obj' s)"
  using assms by (simp add: with_listeners_def call_def on_objects_def call_object_def value_of_def put_def bind_def from_result_def return_def)

lemma set_bool_quiet:
  assumes "heap (objects s) p = Some obj" and "quiet obj" and "obj_value obj = Switching v" and "sw_value v \<noteq> b"
  shows "setBoolValue i p b s =
    ([Send (gad_m obj) [0, if b then 0x81 else 0x80]], Inr (), put p (obj\<lparr>obj_value := Switching (v\<lparr>sw_value := b\<rparr>)\<rparr>) s)"
proof -
  let ?obj = "obj\<lparr>obj_value := Switching (v\<lparr>sw_value := b\<rparr>)\<rparr>"
  have "quiet ?obj" using assms(2) by (simp add: quiet_def has_flag_def)
  then have "onInternalUpdate (in_sv i) (in_arrivals i p) ?obj = ([Send (gad_m ?obj) [0, if b then 0x81 else 0x80]], None, ?obj)"
    by (rule internal_update_quiet) (simp_all add: SwitchingObject_doSend_def apci_def)
  then have "setValue (in_sv i) (in_arrivals i p) (Switching (v\<lparr>sw_value := b\<rparr>)) obj = ([Send (gad_m obj) [0, if b then 0x81 else 0x80]], None, ?obj)"
    using assms(3,4) by (simp add: setValue_def SwitchingObjectValue_set_def SwitchingObjectValue_set_bool_def Let_def)
  from call_quiet [where f = "setValue (in_sv i) (in_arrivals i p) (Switching (v\<lparr>sw_value := b\<rparr>))", OF assms(1) this] show ?thesis
    using assms(1,3) by (simp add: setBoolValue_def the_object_def set_object_def)
qed

lemma tbind_Returned: "tbind (evs, Returned v, ws, s) f = (case f v ws s of (evs', x) \<Rightarrow> (evs @ evs', x))"
  by (simp add: tbind_def split: prod.split)

lemma run_now_Inr: "run_now (effs, Inr v, s) ws = (map Did effs, Returned v, ws, s)"
  by (simp add: run_now_def)

lemma Action_sleep_Cons: "Action_sleep self delay (w # ws) s = ([Slept delay], Returned (stop_requested self (pth_m (w s))), ws, w s)"
  by (simp add: Action_sleep_def)

lemmas thread_steps = tbind_Returned run_now_Inr Action_sleep_Cons

section \<open>Cycles\<close>

abbreviation "cycle_trace \<equiv> \<lambda>g on off. [Did (Send g [0, 0x81]), Slept on, Did (Send g [0, 0x80]), Slept off]"

lemma cycle_loop_trace:
  assumes "heap (objects s) p = Some obj" and "quiet obj" and "obj_value obj = Switching v" and "\<not> sw_value v"
    and "running_m s self" and "\<not> stop_requested self (pth_m s)"
  shows "cycle_loop i self p on off n (replicate (2 * n) id @ ws) s =
    (concat (replicate n (cycle_trace (gad_m obj) on off)), Returned True, ws, s)"
proof (induction n)
  case (Suc n)
  define v1 where "v1 = put p (obj\<lparr>obj_value := Switching (v\<lparr>sw_value := True\<rparr>)\<rparr>) s"
  have first: "setBoolValue i p True s = ([Send (gad_m obj) [0, 0x81]], Inr (), v1)"
    using set_bool_quiet [OF assms(1-3), of True i] assms(4) by (simp add: v1_def)
  have original: "obj\<lparr>obj_value := Switching (v\<lparr>sw_value := False\<rparr>)\<rparr> = obj"
  proof -
    have "v\<lparr>sw_value := False\<rparr> = v" using assms(4) by (cases v) simp
    then show ?thesis using assms(3) by (metis Object.surjective Object.update_convs(15))
  qed
  have "quiet (obj\<lparr>obj_value := Switching (v\<lparr>sw_value := True\<rparr>)\<rparr>)" using assms(2) by (simp add: quiet_def has_flag_def)
  then have "setBoolValue i p False v1 = ([Send (gad_m obj) [0, 0x80]], Inr (), put p (obj\<lparr>obj_value := Switching (v\<lparr>sw_value := False\<rparr>)\<rparr>) v1)"
    using set_bool_quiet [of v1 p "obj\<lparr>obj_value := Switching (v\<lparr>sw_value := True\<rparr>)\<rparr>" "v\<lparr>sw_value := True\<rparr>" False i]
    by (simp add: v1_def)
  then have second: "setBoolValue i p False v1 = ([Send (gad_m obj) [0, 0x80]], Inr (), s)"
    unfolding original by (simp add: v1_def put_same [OF assms(1)])
  have same: "running_m v1 = running_m s" "pth_m v1 = pth_m s" by (simp_all add: v1_def)
  have wakes: "replicate (2 * Suc n) id @ ws = id # id # replicate (2 * n) id @ ws" by simp
  show ?case
    unfolding wakes cycle_loop.simps first thread_steps
    using assms(5,6) by (simp add: second thread_steps same Suc.IH)
qed (simp add: tdone_def)


section \<open>Dimming up\<close>

definition lvl :: "Object \<Rightarrow> UIntObjectValue \<Rightarrow> u32 \<Rightarrow> Object" where
  "lvl obj u w = obj\<lparr>obj_value := UIntValue (u\<lparr>ui_value := w\<rparr>)\<rparr>"

definition dim_send :: "Object \<Rightarrow> UIntObjectValue \<Rightarrow> u32 \<Rightarrow> effect" where
  "dim_send obj u w = Send (gad_m obj) (uint_doSend True (u\<lparr>ui_value := w\<rparr>))"

lemma set_int_quiet:
  assumes "quiet obj" and "w \<noteq> v"
  shows "set_int i p v (put p (lvl obj u w) s) = ([dim_send obj u v], Inr (), put p (lvl obj u v) s)"
proof -
  have "quiet (lvl obj u v)" using assms(1) by (simp add: quiet_def has_flag_def lvl_def)
  then have "onInternalUpdate (in_sv i) (in_arrivals i p) (lvl obj u v) = ([Send (gad_m (lvl obj u v)) (uint_doSend True (u\<lparr>ui_value := v\<rparr>))], None, lvl obj u v)"
    by (rule internal_update_quiet) (simp_all add: lvl_def)
  then have "setIntValue (in_sv i) (in_arrivals i p) v (lvl obj u w) = ([dim_send obj u v], None, lvl obj u v)"
    using assms(2) by (simp add: setIntValue_def UIntObject_setInt_def Let_def lvl_def dim_send_def)
  then have "with_listeners (in_fuel i) i (call p (setIntValue (in_sv i) (in_arrivals i p) v) (put p (lvl obj u w) s))
      = ([dim_send obj u v], Inr (), put p (lvl obj u v) (put p (lvl obj u w) s))"
    unfolding dim_send_def by (intro call_quiet) simp_all
  then show ?thesis by (simp add: set_int_def)
qed

lemma get_int_quiet:
  assumes "quiet obj"
  shows "getIntValue i p (put p (lvl obj u w) s) = ([], Inr w, put p (lvl obj u w) s)"
proof -
  have "has_value (put p (lvl obj u w) s) p" "value_at (put p (lvl obj u w) s) p = UIntValue (u\<lparr>ui_value := w\<rparr>)"
    using assms by (simp_all add: has_value_def value_at_def lvl_def quiet_def)
  then show ?thesis by (simp add: getIntValue_def get_value_ready with_listeners_def return_def bind_def from_result_def)
qed

text \<open>How many levels below \<open>stop\<close> are sent, from \<open>idx\<close> on.\<close>

definition dim_count :: "nat \<Rightarrow> nat \<Rightarrow> nat \<Rightarrow> nat" where
  "dim_count idx stop incr = (stop - idx + incr - 1) div incr"

lemma dim_count_0: "stop \<le> idx \<Longrightarrow> 0 < incr \<Longrightarrow> dim_count idx stop incr = 0"
  by (simp add: dim_count_def)

lemma dim_count_Suc: "idx < stop \<Longrightarrow> 0 < incr \<Longrightarrow> dim_count idx stop incr = Suc (dim_count (idx + incr) stop incr)"
proof -
  assume "idx < stop" "0 < incr"
  define d where "d = stop - idx"
  have "d > 0" using \<open>idx < stop\<close> by (simp add: d_def)
  have "dim_count idx stop incr = Suc ((d - 1) div incr)"
    using \<open>0 < incr\<close> \<open>d > 0\<close> le_div_geq [of incr "d + incr - 1"] by (simp add: dim_count_def d_def)
  moreover have "dim_count (idx + incr) stop incr = (d - 1) div incr"
  proof (cases "d \<ge> incr")
    case True
    then show ?thesis using \<open>0 < incr\<close> by (simp add: dim_count_def d_def)
  next
    case False
    then show ?thesis using \<open>0 < incr\<close> by (simp add: dim_count_def d_def)
  qed
  ultimately show ?thesis by simp
qed

definition dim_trace :: "Object \<Rightarrow> UIntObjectValue \<Rightarrow> int \<Rightarrow> nat \<Rightarrow> nat \<Rightarrow> nat \<Rightarrow> event list" where
  "dim_trace obj u pause idx incr n =
     concat (map (\<lambda>k. [Did (dim_send obj u (word_of_nat (idx + k * incr))), Slept pause]) [0..<n])"

lemma dim_trace_Suc:
  "dim_trace obj u pause idx incr (Suc n) =
     Did (dim_send obj u (word_of_nat idx)) # Slept pause # dim_trace obj u pause (idx + incr) incr n"
proof -
  have "[0..<Suc n] = 0 # map Suc [0..<n]" by (simp add: upt_conv_Cons map_Suc_upt)
  then show ?thesis by (simp add: dim_trace_def o_def algebra_simps)
qed

lemma dim_next:
  fixes idx :: u32 and incr :: u64
  assumes "unat idx + unat incr < 2 ^ 32"
  shows "unat (ucast (ucast idx + incr) :: u32) = unat idx + unat incr"
proof -
  have "unat idx < 2 ^ 32" using unsigned_less [of idx] by simp
  then have idx: "unat (ucast idx :: u64) = unat idx" by (simp add: unsigned_ucast_eq take_bit_nat_eq_self)
  then have "unat (ucast idx + incr :: u64) = unat idx + unat incr"
    using assms by (simp add: unat_word_ariths)
  then show ?thesis using assms by (simp add: unsigned_ucast_eq take_bit_nat_eq_self)
qed

lemma dim_up_loop_trace:
  fixes idx stop :: u32 and incr :: u64
  assumes "quiet obj" and "\<not> stop_requested self (pth_m s)" and "0 < unat incr" and "unat stop + unat incr < 2 ^ 32"
    and "n = dim_count (unat idx) (unat stop) (unat incr)" and "w \<noteq> idx"
  shows "dim_up_loop i self p incr pause stop idx (replicate n id @ ws) (put p (lvl obj u w) s) =
    (dim_trace obj u pause (unat idx) (unat incr) n, Returned True, ws,
     put p (lvl obj u (if n = 0 then w else word_of_nat (unat idx + (n - 1) * unat incr))) s)"
  using assms(5,6)
proof (induction n arbitrary: idx w)
  case 0
  then have "\<not> idx < stop" using dim_count_Suc [of "unat idx" "unat stop" "unat incr"] assms(3) by (auto simp: word_less_nat_alt)
  then show ?case unfolding dim_up_loop.simps [of i self p incr pause stop idx] by (simp add: dim_trace_def tdone_def)
next
  case (Suc n)
  have less: "idx < stop"
    using Suc.prems(1) dim_count_0 [of "unat stop" "unat idx" "unat incr"] assms(3) by (cases "unat stop \<le> unat idx") (simp_all add: word_less_nat_alt)
  define idx1 where "idx1 = (ucast (ucast idx + incr) :: u32)"
  have idx1: "unat idx1 = unat idx + unat incr"
    unfolding idx1_def using less assms(4) by (intro dim_next) (simp add: word_less_nat_alt)
  have n: "n = dim_count (unat idx1) (unat stop) (unat incr)"
    using Suc.prems(1) dim_count_Suc less assms(3) idx1 by (simp add: word_less_nat_alt)
  have "idx \<noteq> idx1" using idx1 assms(3) by auto
  note IH = Suc.IH [OF n this]
  have level: "(if n = 0 then idx else word_of_nat (unat idx1 + (n - 1) * unat incr)) = word_of_nat (unat idx + n * unat incr)"
    using idx1 by (cases n) (simp_all add: algebra_simps)
  have continue: "(if stop_requested self (pth_m (put p (lvl obj u idx) s)) then x else y) = y" for x y :: "(bool, 'a system_scheme) thread"
    using assms(2) by simp
  have unfolded: "dim_up_loop i self p incr pause stop idx (id # ws1) (put p (lvl obj u w) s) =
      (case dim_up_loop i self p incr pause stop idx1 ws1 (put p (lvl obj u idx) s) of
         (evs, x) \<Rightarrow> (Did (dim_send obj u idx) # Slept pause # evs, x))" for ws1
    unfolding dim_up_loop.simps [of i self p incr pause stop idx "id # ws1"] if_P [OF less] set_int_quiet [OF assms(1) Suc.prems(2)]
      thread_steps continue id_apply get_int_quiet [OF assms(1)] idx1_def
    by (simp split: prod.split)
  show ?case
    unfolding replicate_Suc append_Cons unfolded IH level by (simp add: dim_trace_Suc idx1)
qed

lemma unat_stop_start:
  fixes start stop :: u32
  assumes "start < stop"
  shows "unat (stop - start) = unat stop - unat start"
  using assms by (simp add: unat_sub word_less_nat_alt word_le_nat_alt)

lemma unat_dim_up_incr:
  assumes "start < stop" and "unat stop * 1000 < 2 ^ 32"
  shows "unat (dim_up_incr start stop duration) = (unat stop - unat start) * 500 div unat duration + 1"
proof -
  define d where "d = unat stop - unat start"
  define x where "x = stop - start"
  have d: "unat x = d" "d * 1000 < 2 ^ 32" "d * 500 + 1 < 2 ^ 32"
    using assms unat_stop_start by (simp_all add: d_def x_def)
  have "unat (x * 1000) = d * 1000" using d by (simp add: unat_word_ariths)
  then have "unat (x * 1000 div 2) = d * 500" by (simp add: unat_div)
  then have "unat (x * 1000 div 2 div duration) = d * 500 div unat duration" by (simp add: unat_div)
  moreover have "d * 500 div unat duration + 1 < 2 ^ 32" using d(3) div_le_dividend [of "d * 500" "unat duration"] by linarith
  ultimately have "unat (x * 1000 div 2 div duration + 1) = d * 500 div unat duration + 1"
    by (simp add: unat_word_ariths)
  then show ?thesis
    using \<open>d * 500 div unat duration + 1 < 2 ^ 32\<close>
    by (simp add: dim_up_incr_def d_def x_def [symmetric] unsigned_ucast_eq take_bit_nat_eq_self)
qed

lemma dim_up_run:
  assumes "quiet obj" and "heap (objects s) p = Some obj" and "obj_value obj = UIntValue u" and "ui_value u \<noteq> start"
    and "\<not> stop_requested self (pth_m s)" and "start < stop" and "0 < duration" and "unat stop * 1000 < 2 ^ 32"
  shows "let incr = (unat stop - unat start) * 500 div unat duration + 1;
             n = dim_count (unat start) (unat stop) incr;
             pause = dim_pause duration (stop - start) (dim_up_incr start stop duration)
         in DimUpAction_Run i self p start stop duration (replicate n id) s =
              (dim_trace obj u pause (unat start) incr n @ [Did (dim_send obj u stop)], Returned (), [], put p (lvl obj u stop) s)"
proof -
  define incr where "incr = dim_up_incr start stop duration"
  define pause where "pause = dim_pause duration (stop - start) incr"
  define n where "n = dim_count (unat start) (unat stop) (unat incr)"
  define last_level where "last_level = (word_of_nat (unat start + (n - 1) * unat incr) :: u32)"
  have incr: "unat incr = (unat stop - unat start) * 500 div unat duration + 1"
    unfolding incr_def by (rule unat_dim_up_incr [OF assms(6,8)])
  have pos: "0 < unat incr" using incr by simp
  have "unat incr \<le> unat stop * 500 + 1"
    unfolding incr by (meson add_le_mono1 diff_le_self div_le_dividend le_trans mult_le_mono1)
  then have fits: "unat stop + unat incr < 2 ^ 32" using assms(8) by simp
  have less: "unat start < unat stop" using assms(6) by (simp add: word_less_nat_alt)
  obtain m where m: "n = Suc m" using dim_count_Suc [OF less pos] by (auto simp: n_def)
  have "m * unat incr \<le> unat stop - unat start - 1"
  proof -
    have "m = (unat stop - unat start - 1) div unat incr"
      using m pos less le_div_geq [of "unat incr" "unat stop - unat start + unat incr - 1"] by (simp add: n_def dim_count_def)
    then show ?thesis by simp
  qed
  then have "unat start + m * unat incr < unat stop" using less by linarith
  then have word_of_nat_level: "unat (word_of_nat (unat start + m * unat incr) :: u32) < unat stop"
    unfolding unsigned_of_nat of_nat_id by (rule le_less_trans [OF take_bit_nat_less_eq_self])
  then have below: "last_level \<noteq> stop"
    using word_of_nat_level unfolding last_level_def m diff_Suc_1 by blast
  have nonzero: "duration \<noteq> 0" using assms(7) by auto
  have first: "lvl obj u (ui_value u) = obj"
    using assms(3) by (simp add: lvl_def)
  have "dim_up_loop i self p incr pause stop start (replicate n id @ []) (put p (lvl obj u (ui_value u)) s) =
      (dim_trace obj u pause (unat start) (unat incr) n, Returned True, [], put p (lvl obj u last_level) s)"
    using dim_up_loop_trace [OF assms(1,5) pos fits n_def assms(4), of i p pause "[]" u] m by (simp add: last_level_def)
  then have loop: "dim_up_loop i self p incr pause stop start (replicate n id) s =
      (dim_trace obj u pause (unat start) (unat incr) n, Returned True, [], put p (lvl obj u last_level) s)"
    unfolding first put_same [OF assms(2)] by simp
  have "DimUpAction_Run i self p start stop duration (replicate n id) s =
      (dim_trace obj u pause (unat start) (unat incr) n @ [Did (dim_send obj u stop)], Returned (), [], put p (lvl obj u stop) s)"
    using assms(6) nonzero loop
    by (simp add: DimUpAction_Run_def Let_def incr_def [symmetric] pause_def [symmetric] thread_steps set_int_quiet [OF assms(1) below])
  then show ?thesis unfolding Let_def n_def pause_def incr incr_def [symmetric] by (simp add: incr)
qed


section \<open>The time dimming takes\<close>

lemma pause_fits:
  assumes "start < stop" and "unat stop * 1000 < 2 ^ 32" and "unat stop - unat start \<le> unat duration"
    and "unat duration + 500 < 2 ^ 31"
  shows "dim_pause duration (stop - start) (dim_up_incr start stop duration) =
      int (unat duration div (unat stop - unat start) * ((unat stop - unat start) * 500 div unat duration + 1))"
    and "unat duration div (unat stop - unat start) * ((unat stop - unat start) * 500 div unat duration + 1) \<le> 500 + unat duration"
proof -
  define d where "d = unat stop - unat start"
  define x where "x = stop - start"
  define incr where "incr = dim_up_incr start stop duration"
  define q where "q = unat duration div d"
  define k where "k = d * 500 div unat duration"
  have d: "unat x = d" "0 < d" "d \<le> unat duration"
    using assms(1,3) unat_stop_start [OF assms(1)] by (simp_all add: d_def x_def word_less_nat_alt)
  have incr: "unat incr = k + 1" using unat_dim_up_incr [OF assms(1,2), of duration] by (simp add: incr_def d_def k_def)
  have qd: "q * d \<le> unat duration" and kd: "k * unat duration \<le> d * 500" by (simp_all add: q_def k_def)
  have "q * k \<le> 500"
  proof -
    have "q * k * d = (q * d) * k" by simp
    also have "\<dots> \<le> unat duration * k" using qd by (rule mult_le_mono1)
    also have "\<dots> \<le> 500 * d" using kd by (simp add: mult.commute)
    finally show ?thesis using d(2) by simp
  qed
  moreover have "q \<le> unat duration" by (simp add: q_def)
  ultimately have small: "q * (k + 1) \<le> 500 + unat duration" by simp
  then show "unat duration div (unat stop - unat start) * ((unat stop - unat start) * 500 div unat duration + 1) \<le> 500 + unat duration"
    by (simp add: q_def k_def d_def)
  have "unat (duration div x) = q" using d(1) by (simp add: unat_div q_def)
  moreover have "q < 2 ^ 32" using \<open>q \<le> unat duration\<close> assms(4) by simp
  ultimately have "unat (ucast (duration div x) :: u64) = q" by (simp add: unsigned_ucast_eq take_bit_nat_eq_self)
  then have "unat (ucast (duration div x) * incr :: u64) = q * (k + 1)"
    using incr small assms(4) by (simp add: unat_word_ariths)
  then have "unat (ucast (ucast (duration div x) * incr :: u64) :: u32) = q * (k + 1)"
    using small assms(4) by (simp add: unsigned_ucast_eq take_bit_nat_eq_self)
  then have "uint (ucast (ucast (duration div x) * incr :: u64) :: u32) = int (q * (k + 1))"
    by (metis uint_nat)
  moreover have "int (q * (k + 1)) < 2 ^ 31"
    unfolding of_nat_less_numeral_power_cancel_iff using small assms(4) by linarith
  then have "signed_take_bit 31 (int (q * (k + 1))) = int (q * (k + 1))"
    by (intro signed_take_bit_int_eq_self) linarith
  ultimately have "sint (ucast (ucast (duration div x) * incr :: u64) :: u32) = int (q * (k + 1))"
    by (simp only: sint_uint) simp
  then show "dim_pause duration (stop - start) (dim_up_incr start stop duration) =
      int (unat duration div (unat stop - unat start) * ((unat stop - unat start) * 500 div unat duration + 1))"
    by (simp add: dim_pause_def incr_def x_def q_def k_def d_def)
qed


lemma half_quotient: "0 < d \<Longrightarrow> d \<le> m \<Longrightarrow> m < 2 * (m div d) * d" for m d :: nat
proof -
  assume "0 < d" "d \<le> m"
  then have "0 < m div d" by (simp add: div_greater_zero_iff)
  then have "d \<le> m div d * d" by simp
  moreover have "m = m div d * d + m mod d" by simp
  moreover have "m mod d < d" using \<open>0 < d\<close> by simp
  ultimately show ?thesis by linarith
qed

text \<open>With \<open>d\<close> levels, a duration \<open>m\<close>, the pause \<open>q * c\<close> and \<open>n\<close> values at a distance of \<open>c\<close>:\<close>

lemma dim_bounds:
  fixes d m :: nat
  assumes "0 < d" and "d \<le> m" and "q = m div d" and "c = d * 500 div m + 1" and "n = (d + c - 1) div c"
  shows "250 < q * c" and "n \<le> m div 500 + 1" and "n * (q * c) \<le> m + 500" and "m < 2 * (n * (q * c))"
proof -
  have half: "m < 2 * q * d" unfolding assms(3) by (rule half_quotient [OF assms(1,2)])
  have m: "0 < m" and c: "0 < c" using assms(1,2,4) by simp_all
  have qd: "q * d \<le> m" by (simp add: assms(3))
  have over: "d * 500 < c * m" using m dividend_less_div_times [of m "d * 500"] by (simp add: assms(4))
  have "500 * d * m < 2 * q * d * (c * m)"
  proof -
    have "500 * d * m \<le> c * m * m" using over by simp
    also have "\<dots> < c * m * (2 * q * d)" using half c m by simp
    finally show ?thesis by (simp add: ac_simps)
  qed
  then have "500 * (d * m) < 2 * (q * c) * (d * m)" by (simp add: ac_simps)
  then show "250 < q * c" using assms(1) m by (simp add: mult.commute)
  have upper: "n * c \<le> d + c - 1" by (simp add: assms(5))
  have lower: "d \<le> n * c"
  proof -
    have "d + c - 1 < n * c + c" using c dividend_less_div_times [of c "d + c - 1"] by (simp add: assms(5) add.commute)
    then show ?thesis using c by linarith
  qed
  have "m < 2 * q * d" by (rule half)
  also have "\<dots> \<le> 2 * q * (n * c)" using lower by simp
  finally show "m < 2 * (n * (q * c))" by (simp add: ac_simps)
  have "(c - 1) * m \<le> d * 500" by (simp add: assms(4))
  moreover have "q * d * (c - 1) \<le> m * (c - 1)" using qd by (rule mult_le_mono1)
  ultimately have "q * d * (c - 1) \<le> d * 500" by (simp only: mult.commute [of m])
  then have "d * (q * (c - 1)) \<le> d * 500" by (simp only: ac_simps)
  then have "q * (c - 1) \<le> 500" using assms(1) by simp
  have "n * c \<le> d + (c - 1)" using upper c by simp
  then have "q * (n * c) \<le> q * (d + (c - 1))" by (rule mult_le_mono2)
  also have "\<dots> = q * d + q * (c - 1)" by (rule distrib_left)
  also have "\<dots> \<le> m + 500" using qd \<open>q * (c - 1) \<le> 500\<close> by (rule add_le_mono)
  finally show "n * (q * c) \<le> m + 500" by (simp add: ac_simps)
  have "d - 1 < c * (m div 500 + 1)"
  proof (rule ccontr)
    assume "\<not> d - 1 < c * (m div 500 + 1)"
    then have "c * (m div 500 + 1) \<le> d" by linarith
    moreover have "m < 500 * (m div 500 + 1)" using dividend_less_div_times [of 500 m] by (simp add: ac_simps)
    then have "c * m < c * (500 * (m div 500 + 1))" by (rule mult_less_mono2 [OF _ c])
    moreover have "c * (500 * (m div 500 + 1)) = c * (m div 500 + 1) * 500" by (simp only: ac_simps)
    ultimately show False using over by linarith
  qed
  have "n = Suc ((d - 1) div c)" using assms(1,5) c le_div_geq [of c "d + c - 1"] by simp
  moreover have "(d - 1) div c < m div 500 + 1"
    using \<open>d - 1 < c * (m div 500 + 1)\<close> by (simp add: less_mult_imp_div_less mult.commute)
  ultimately show "n \<le> m div 500 + 1" by simp
qed


text \<open>
  C14.  Undisturbed, dimming up ends.  It sends the levels from \<open>start\<close> on at equal distances, as long as they are below \<open>stop\<close>,
  waits after each for the same time, sends \<open>stop\<close> at last and leaves the object at \<open>stop\<close>.  It sends at most one value
  in 500 ms of the configured duration and takes more than half of the duration and at most 500 ms more than it; but a
  single pause is only known to be longer than 250 ms, not 500 ms as the comment in the code says.  This is for levels below
  4294967 and a duration of at least one millisecond a level.
\<close>

theorem dim_up_runs:
  assumes "quiet obj" and "heap (objects s) p = Some obj" and "obj_value obj = UIntValue u" and "ui_value u \<noteq> start"
    and "\<not> stop_requested self (pth_m s)" and "start < stop" and "unat stop * 1000 < 2 ^ 32"
    and "unat stop - unat start \<le> unat duration" and "unat duration + 500 < 2 ^ 31"
  shows "\<exists>n step pause.
      DimUpAction_Run i self p start stop duration (replicate n id) s =
        (dim_trace obj u (int pause) (unat start) step n @ [Did (dim_send obj u stop)], Returned (), [], put p (lvl obj u stop) s) \<and>
      step = (unat stop - unat start) * 500 div unat duration + 1 \<and> n = dim_count (unat start) (unat stop) step \<and>
      n \<le> unat duration div 500 + 1 \<and> 250 < pause \<and> n * pause \<le> unat duration + 500 \<and> unat duration < 2 * (n * pause)"
proof -
  let ?step = "(unat stop - unat start) * 500 div unat duration + 1"
  let ?q = "unat duration div (unat stop - unat start)"
  have d: "0 < unat stop - unat start" using assms(6) by (simp add: word_less_nat_alt)
  then have "0 < unat duration" using assms(8) by linarith
  then have positive: "0 < duration" by (simp add: word_less_nat_alt)
  have run: "DimUpAction_Run i self p start stop duration (replicate (dim_count (unat start) (unat stop) ?step) id) s =
      (dim_trace obj u (int (?q * ?step)) (unat start) ?step (dim_count (unat start) (unat stop) ?step) @ [Did (dim_send obj u stop)],
       Returned (), [], put p (lvl obj u stop) s)"
    using dim_up_run [OF assms(1-6) positive assms(7), of i] unfolding Let_def pause_fits(1) [OF assms(6-9)] .
  show ?thesis
    by (rule exI, rule exI, rule exI, rule conjI [OF run])
      (simp only: dim_bounds [OF d assms(8) refl refl dim_count_def] simp_thms)
qed


section \<open>Concrete runs\<close>

text \<open>A lamp that is switched off and a dimmer at the level 5.\<close>

definition lamp_state :: system where
  "lamp_state = plain_system (ObjectController_new\<lparr>heap := [0 \<mapsto>
     (Object_new 0 (Switching \<lparr>sw_eis = 1, sw_value = False\<rparr>))\<lparr>init_m := True, gad_m := 0x0901\<rparr>]\<rparr>)"

definition dimmer_state :: system where
  "dimmer_state = plain_system (ObjectController_new\<lparr>heap := [0 \<mapsto>
     (Object_new 0 (UIntValue \<lparr>ui_class = U8, ui_value = 5\<rparr>))\<lparr>init_m := True, gad_m := 0x0902\<rparr>]\<rparr>)"


lemma dim_up_runs_witness:
  "\<exists>n step pause.
      DimUpAction_Run plain_inputs 7 0 0 10 1000 (replicate n id) dimmer_state =
        (dim_trace (the (heap (objects dimmer_state) 0)) \<lparr>ui_class = U8, ui_value = 5\<rparr> (int pause) (unat (0 :: u32)) step n @
         [Did (dim_send (the (heap (objects dimmer_state) 0)) \<lparr>ui_class = U8, ui_value = 5\<rparr> 10)],
         Returned (), [], put 0 (lvl (the (heap (objects dimmer_state) 0)) \<lparr>ui_class = U8, ui_value = 5\<rparr> 10) dimmer_state) \<and>
      step = (unat (10 :: u32) - unat (0 :: u32)) * 500 div unat (1000 :: u32) + 1 \<and> n = dim_count (unat (0 :: u32)) (unat (10 :: u32)) step \<and>
      n \<le> unat (1000 :: u32) div 500 + 1 \<and> 250 < pause \<and> n * pause \<le> unat (1000 :: u32) + 500 \<and> unat (1000 :: u32) < 2 * (n * pause)"
proof (rule dim_up_runs)
  show "quiet (the (heap (objects dimmer_state) 0))"
    by (simp add: dimmer_state_def plain_system_def quiet_def Object_new_def has_flag_def flag_defs)
  show "obj_value (the (heap (objects dimmer_state) 0)) = UIntValue \<lparr>ui_class = U8, ui_value = 5\<rparr>"
    by (simp add: dimmer_state_def plain_system_def Object_new_def)
  show "heap (objects dimmer_state) 0 = Some (the (heap (objects dimmer_state) 0))" by (simp add: dimmer_state_def plain_system_def)
  show "\<not> stop_requested 7 (pth_m dimmer_state)"
    by (simp add: dimmer_state_def plain_system_def stop_requested_def pth_new_def Thread_new_def)
qed simp_all

end
