(* ===== verification/Messages.thy ===== *)
theory Messages
  imports Knx_Prelude
begin

text \<open>
  The messages of the configuration server (src/xmlserver.cpp): texts that end with the byte 4, over a stream socket that may
  cut them anywhere.  The law compares the reader with a function on the whole stream.
\<close>

section \<open>Reading\<close>

abbreviation EOT :: char where "EOT \<equiv> CHR 0x04"

text \<open>\<open>substr (0, len)\<close> and what follows, when \<open>find_first_of\<close> finds the end of a message.\<close>

definition split_eot :: "string \<Rightarrow> (string \<times> string) option" where
  "split_eot s =
     (if EOT \<in> set s then Some (takeWhile (\<lambda>c. c \<noteq> EOT) s, tl (dropWhile (\<lambda>c. c \<noteq> EOT) s)) else None)"

text \<open>
  The reads of the socket that give data, until one does not: the message read, \<open>msgbuf_m\<close> and the reads that are left.  The
  buffer is only assigned when the end of a message arrives.
\<close>

fun read_chunks :: "string \<Rightarrow> string \<Rightarrow> string list \<Rightarrow> string option \<times> string \<times> string list" where
  "read_chunks msg msgbuf [] = (None, msgbuf, [])"
| "read_chunks msg msgbuf (tstr # chunks) =
     (case split_eot tstr of
        Some (front, rest) \<Rightarrow> (Some (msg @ front), rest, chunks)
      | None \<Rightarrow> read_chunks (msg @ tstr) msgbuf chunks)"

definition readmessage :: "string \<Rightarrow> string list \<Rightarrow> string option \<times> string \<times> string list" where
  "readmessage msgbuf chunks =
     (if msgbuf \<noteq> [] then
        (case split_eot msgbuf of
           Some (front, rest) \<Rightarrow> (Some front, rest, chunks)
         | None \<Rightarrow> read_chunks msgbuf msgbuf chunks)
      else read_chunks [] msgbuf chunks)"

lemma split_eot_length: "split_eot s = Some (front, rest) \<Longrightarrow> length rest < length s"
proof -
  assume *: "split_eot s = Some (front, rest)"
  then have "EOT \<in> set s" "rest = tl (dropWhile (\<lambda>c. c \<noteq> EOT) s)" by (auto simp: split_eot_def split: if_splits)
  moreover from this(1) have "dropWhile (\<lambda>c. c \<noteq> EOT) s \<noteq> []" by (simp add: dropWhile_eq_Nil_conv)
  moreover have "length (dropWhile (\<lambda>c. c \<noteq> EOT) s) \<le> length s" by (rule length_dropWhile_le)
  ultimately show ?thesis by (cases "dropWhile (\<lambda>c. c \<noteq> EOT) s") auto
qed

lemma read_chunks_fewer: "read_chunks msg msgbuf chunks = (Some m, rest, left) \<Longrightarrow> length left < length chunks"
  by (induction msg msgbuf chunks rule: read_chunks.induct) (auto split: option.splits)

lemma readmessage_less:
  assumes "readmessage msgbuf chunks = (Some m, rest, left)"
  shows "((length left, length rest), (length chunks, length msgbuf)) \<in> less_than <*lex*> less_than"
proof (cases "msgbuf \<noteq> [] \<and> split_eot msgbuf \<noteq> None")
  case True
  then show ?thesis using assms split_eot_length by (auto simp: readmessage_def)
next
  case False
  then show ?thesis using assms read_chunks_fewer by (fastforce simp: readmessage_def split: if_splits option.splits)
qed

text \<open>The messages a connection processes, one after the other.\<close>

function all_messages :: "string \<Rightarrow> string list \<Rightarrow> string list" where
  "all_messages msgbuf chunks =
     (case readmessage msgbuf chunks of
        (None, _, _) \<Rightarrow> []
      | (Some msg, msgbuf', chunks') \<Rightarrow> msg # all_messages msgbuf' chunks')"
  by pat_completeness auto
termination
  by (relation "inv_image (less_than <*lex*> less_than) (\<lambda>(msgbuf, chunks). (length chunks, length msgbuf))")
    (auto dest!: readmessage_less [OF sym])

declare all_messages.simps [simp del]

section \<open>Writing\<close>

text \<open>
  The loop around \<open>pth_write_ev\<close>, by the results of its calls: what was written, and whether it was all.  A call never writes more
  than it was given.
\<close>

fun write_bytes :: "int list \<Rightarrow> string \<Rightarrow> string \<times> bool" where
  "write_bytes results [] = ([], True)"
| "write_bytes [] (c # cs) = ([], False)"
| "write_bytes (i # results) (c # cs) =
     (if i \<le> 0 then ([], False)
      else (case write_bytes results (drop (nat i) (c # cs)) of (out, ok) \<Rightarrow> (take (nat i) (c # cs) @ out, ok)))"

section \<open>Framing\<close>

text \<open>The complete messages of a stream.\<close>

lemma split_eot_Some_length [termination_simp]: "Some (front, rest) = split_eot s \<Longrightarrow> length rest < length s"
  using split_eot_length by metis

fun complete_messages :: "string \<Rightarrow> string list" where
  "complete_messages s = (case split_eot s of None \<Rightarrow> [] | Some (msg, rest) \<Rightarrow> msg # complete_messages rest)"

declare complete_messages.simps [simp del]

lemma split_eot_append:
  "split_eot (s @ t) =
     (case split_eot s of
        Some (front, rest) \<Rightarrow> Some (front, rest @ t)
      | None \<Rightarrow> map_option (\<lambda>(front, rest). (s @ front, rest)) (split_eot t))"
proof (induction s)
  case Nil
  then show ?case by (simp add: split_eot_def)
next
  case (Cons c s)
  then show ?case by (cases "c = EOT") (auto simp: split_eot_def split: if_splits option.splits)
qed

lemma read_chunks_stream:
  fixes msg msgbuf :: string
  assumes "split_eot msg = None"
  shows "case read_chunks msg msgbuf chunks of
      (None, _, _) \<Rightarrow> split_eot (msg @ concat chunks) = None
    | (Some m, rest, left) \<Rightarrow> split_eot (msg @ concat chunks) = Some (m, rest @ concat left)"
  using assms
proof (induction msg msgbuf chunks rule: read_chunks.induct)
  case (2 msg msgbuf tstr chunks)
  show ?case
  proof (cases "split_eot tstr")
    case None
    then have "split_eot (msg @ tstr) = None" using 2(2) by (simp add: split_eot_append)
    then show ?thesis using 2(1) [OF None] None by (simp only: read_chunks.simps option.case concat.simps append_assoc)
  next
    case (Some x)
    then show ?thesis using 2(2) by (cases x) (simp add: split_eot_append)
  qed
qed (simp add: split_eot_append)

lemma readmessage_stream:
  "case readmessage msgbuf chunks of
      (None, _, _) \<Rightarrow> split_eot (msgbuf @ concat chunks) = None
    | (Some m, rest, left) \<Rightarrow> split_eot (msgbuf @ concat chunks) = Some (m, rest @ concat left)"
proof (cases "split_eot msgbuf")
  case None
  then show ?thesis using read_chunks_stream [OF None, where msgbuf = msgbuf and chunks = chunks] by (cases "msgbuf = []") (auto simp: readmessage_def)
next
  case (Some x)
  then have "msgbuf \<noteq> []" by (auto simp: split_eot_def)
  then show ?thesis using Some by (cases x) (simp add: readmessage_def split_eot_append)
qed

text \<open>However the network cuts the stream, the messages are those of the stream, after what is left from before.\<close>

lemma framed_stream: "all_messages msgbuf chunks = complete_messages (msgbuf @ concat chunks)"
proof (induction msgbuf chunks rule: all_messages.induct)
  case (1 msgbuf chunks)
  then show ?case
    using readmessage_stream [of msgbuf chunks]
    unfolding all_messages.simps [of msgbuf] complete_messages.simps [of "msgbuf @ concat chunks"]
    by (auto split: prod.splits option.splits)
qed

lemma write_bytes_all: "write_bytes results s = (out, True) \<Longrightarrow> out = s"
  by (induction results s arbitrary: out rule: write_bytes.induct) (auto split: if_splits prod.splits)

lemma complete_messages_Cons: "EOT \<notin> set msg \<Longrightarrow> complete_messages ((msg @ [EOT]) @ s) = msg # complete_messages s"
proof -
  assume "EOT \<notin> set msg"
  then have "split_eot msg = None" by (simp add: split_eot_def)
  then have "split_eot ((msg @ [EOT]) @ s) = Some (msg, s)" by (simp add: split_eot_append) (simp add: split_eot_def)
  then show ?thesis by (subst complete_messages.simps) simp
qed

lemma complete_messages_concat:
  "\<forall>t\<in>set texts. EOT \<notin> set t \<Longrightarrow> complete_messages (concat (map (\<lambda>t. t @ [EOT]) texts)) = texts"
proof (induction texts)
  case Nil
  then show ?case by (simp add: complete_messages.simps [of "[]"] split_eot_def)
next
  case (Cons t texts)
  then show ?case using complete_messages_Cons [of t] by simp
qed

text \<open>
  C11.  Messages travel: the texts one side sends, each with one or more writes that succeed, are the messages the
  other side processes, in their order, however the network cuts the stream of bytes into reads.
\<close>

theorem messages_travel:
  assumes "list_all2 (\<lambda>text (results, out). write_bytes results (text @ [EOT]) = (out, True)) texts writes"
    and "\<forall>text\<in>set texts. EOT \<notin> set text"
    and "concat chunks = concat (map snd writes)"
  shows "all_messages [] chunks = texts"
proof -
  have "concat (map snd writes) = concat (map (\<lambda>t. t @ [EOT]) texts)"
    using assms(1) by (induction rule: list_all2_induct) (auto dest!: write_bytes_all)
  then show ?thesis using assms(3) complete_messages_concat [OF assms(2)] by (simp add: framed_stream)
qed

theorem messages_travel_witness:
  "all_messages [] [''<read>'' @ [EOT, CHR 0x3C], ''wri'', ''te>'' @ [EOT]] = [''<read>'', ''<write>'']"
  by (rule messages_travel [where writes = "[([3, 1, 9], ''<read>'' @ [EOT]), ([100], ''<write>'' @ [EOT])]"]) simp_all

end
