(* ===== verification/XmlServer.thy ===== *)
theory XmlServer
  imports Runs Messages
begin

text \<open>
  The configuration server of src/xmlserver.cpp: the requests of a client, on the objects, the rules and the timers.  A connection
  is a listener of the objects it was asked to watch, known by its pointer; how its messages are cut out of the stream is
  in theory \<open>Messages\<close>.
\<close>

section \<open>What the server uses\<close>

text \<open>
  The XML library: the first element of a document, or the exception, and its text; the message of an exception; the
  configuration of the services and of the logging; whether a file can be written; the version; when the sun rises and sets and
  when it is noon on a day; the uninitialised addresses of new objects; and the condition a task of the timer manager is part of,
  since the model keeps conditions in their owners.
\<close>

record wire =
  w_parse :: "string \<Rightarrow> xml result"
  w_print :: "xml \<Rightarrow> string"
  w_explain :: "exn \<Rightarrow> string"
  w_services :: "xml \<Rightarrow> xml"
  w_logging :: "xml \<Rightarrow> xml"
  w_config_file :: string
  w_saves :: "string \<Rightarrow> bool"
  w_version :: string
  w_features :: "string list"
  w_sun :: "string \<Rightarrow> tm \<Rightarrow> (int \<times> int) option"
  w_junk :: u64
  w_task_condition :: "ptr \<Rightarrow> condition"

definition child_elements :: "xml \<Rightarrow> xml list" where
  "child_elements e = filter is_element (children e)"

text \<open>\<open>FirstChildElement ()\<close> throws when there is none; changing the first element in place.\<close>

definition first_element :: "xml \<Rightarrow> 's \<Rightarrow> (xml, 's) run" where
  "first_element e s = (case child_elements e of [] \<Rightarrow> fail (Missing_element '''') s | c # _ \<Rightarrow> return c s)"

fun replace_first :: "xml \<Rightarrow> xml list \<Rightarrow> xml list" where
  "replace_first e [] = []"
| "replace_first e (c # cs) = (if is_element c then e # cs else c # replace_first e cs)"

fun set_first_element :: "xml \<Rightarrow> xml \<Rightarrow> xml" where
  "set_first_element e (Element t as cs) = Element t as (replace_first e cs)"
| "set_first_element e other = other"

section \<open>Replies\<close>

definition reply :: "listener \<Rightarrow> string \<Rightarrow> 's \<Rightarrow> (unit, 's) run" where
  "reply c text s = sendmessage c (text @ [CHR 0x0A]) s"

definition sendreject :: "listener \<Rightarrow> string \<Rightarrow> string \<Rightarrow> 's \<Rightarrow> (unit, 's) run" where
  "sendreject c msgstr type s =
     (if type = '''' then reply c (''<error>'' @ msgstr @ ''</error>'') s
      else reply c (''<'' @ type @ '' status='' @ quoted ''error'' @ ''>'' @ msgstr @ ''</'' @ type @ ''>'') s)"

text \<open>The message itself, with the status, is the reply to most readings.\<close>

definition reply_read :: "wire \<Rightarrow> listener \<Rightarrow> xml \<Rightarrow> xml \<Rightarrow> 's \<Rightarrow> (unit, 's) run" where
  "reply_read w c msg item s = sendmessage c (w_print w (SetAttribute ''status'' ''success'' (set_first_element item msg))) s"

section \<open>Reading\<close>

definition object_text :: "inputs \<Rightarrow> string \<Rightarrow> 'a system_scheme \<Rightarrow> (string, 'a system_scheme) run" where
  "object_text i oid s =
     bind (lookup oid s) (\<lambda>p s.
     bind (get_text i p s) (\<lambda>text s.
     bind (release p s) (\<lambda>_. return text)))"

definition read_object :: "inputs \<Rightarrow> listener \<Rightarrow> xml \<Rightarrow> 'a system_scheme \<Rightarrow> (unit, 'a system_scheme) run" where
  "read_object i c item s =
     bind (object_text i (GetAttribute item ''id'') s) (\<lambda>text.
       reply c (''<read status='' @ quoted ''success'' @ ''>'' @ text @ ''</read>''))"

fun read_values :: "inputs \<Rightarrow> xml list \<Rightarrow> 'a system_scheme \<Rightarrow> (xml list, 'a system_scheme) run" where
  "read_values i [] s = return [] s"
| "read_values i (e # es) s =
     (if \<not> is_element e then bind (read_values i es s) (\<lambda>es. return (e # es))
      else if tag e = ''object'' then
        bind (object_text i (GetAttribute e ''id'') s) (\<lambda>text s.
        bind (read_values i es s) (\<lambda>es. return (SetAttribute ''value'' text e # es)))
      else fail (Refused ''Unknown objects element'') s)"

text \<open>Asked for all, \<open>exportObjectValues\<close> adds an element for every object.\<close>

definition read_objects :: "inputs \<Rightarrow> xml \<Rightarrow> 'a system_scheme \<Rightarrow> (xml, 'a system_scheme) run" where
  "read_objects i item s =
     (if children item = [] then
        with_listeners (in_fuel i) i
          (case exportObjectValues (in_sv i) (in_arrivals i) item (objects s) of
             (r, item') \<Rightarrow> value_of (on_objects (\<lambda>_. r) s) item')
      else
        bind (first_element item s) (\<lambda>_ s.
        bind (read_values i (children item) s) (\<lambda>es. return (Element (tag item) (attributes item) es))))"

definition export_objects_xml :: "xml \<Rightarrow> 'a engine_scheme \<Rightarrow> (xml, 'a engine_scheme) run" where
  "export_objects_xml e s = (case ObjectController_exportXml (objects s) e of None \<Rightarrow> fail Null_deref s | Some e' \<Rightarrow> return e' s)"

definition export_config :: "inputs \<Rightarrow> wire \<Rightarrow> string \<Rightarrow> xml \<Rightarrow> 'a system_scheme \<Rightarrow> (xml, 'a system_scheme) run" where
  "export_config i w part e s =
     (if part = ''objects'' then export_objects_xml e s
      else if part = ''rules'' then return (RuleServer_exportXml i s e) s
      else if part = ''services'' then return (w_services w e) s
      else if part = ''logging'' then return (w_logging w e) s
      else return e s)"

fun add_parts :: "(string \<Rightarrow> xml \<Rightarrow> 's \<Rightarrow> (xml, 's) run) \<Rightarrow> string list \<Rightarrow> xml \<Rightarrow> 's \<Rightarrow> (xml, 's) run" where
  "add_parts f [] e s = return e s"
| "add_parts f (part # parts) e s =
     bind (f part (Element part [] []) s) (\<lambda>child. add_parts f parts (LinkEndChild child e))"

text \<open>A reading of all parts, when none is named, or of the one that is.\<close>

definition read_parts :: "(string \<Rightarrow> xml \<Rightarrow> 's \<Rightarrow> (xml, 's) run) \<Rightarrow> string list \<Rightarrow> xml \<Rightarrow> 's \<Rightarrow> (xml, 's) run" where
  "read_parts f parts item s =
     (case child_elements item of
        [] \<Rightarrow> add_parts f parts item s
      | part # _ \<Rightarrow> bind (f (tag part) part s) (\<lambda>part'. return (set_first_element part' item)))"

definition read_config :: "inputs \<Rightarrow> wire \<Rightarrow> xml \<Rightarrow> 'a system_scheme \<Rightarrow> (xml, 'a system_scheme) run" where
  "read_config i w = read_parts (export_config i w) [''objects'', ''rules'', ''services'', ''logging'']"


definition listener_id :: "'a system_scheme \<Rightarrow> listener \<Rightarrow> string" where
  "listener_id s l = (case rules s l of None \<Rightarrow> ''?'' | Some rule \<Rightarrow> rule_id rule)"

fun status_tasks :: "inputs \<Rightarrow> wire \<Rightarrow> ptr list \<Rightarrow> xml \<Rightarrow> 'a system_scheme \<Rightarrow> (xml, 'a system_scheme) run" where
  "status_tasks i w [] e s = return e s"
| "status_tasks i w (p # ps) e s =
     bind (Condition_statusXml i (listener_id s) (w_task_condition w p) (Element ''task'' [] []) s) (\<lambda>child.
       status_tasks i w ps (LinkEndChild child e))"

definition export_status :: "inputs \<Rightarrow> wire \<Rightarrow> string \<Rightarrow> xml \<Rightarrow> 'a system_scheme \<Rightarrow> (xml, 'a system_scheme) run" where
  "export_status i w part e s =
     (if part = ''timers'' then status_tasks i w (taskList_m s) e s
      else if part = ''rules'' then RuleServer_statusXml i (listener_id s) e s
      else return e s)"

definition read_status :: "inputs \<Rightarrow> wire \<Rightarrow> xml \<Rightarrow> 'a system_scheme \<Rightarrow> (xml, 'a system_scheme) run" where
  "read_status i w item s = with_listeners (in_fuel i) i (read_parts (export_status i w) [''timers'', ''rules''] item s)"

text \<open>
  The date asked for: today, so many days after today, or a date, whose year and month default to those of today;
  \<open>mktime\<close> normalises it.
\<close>

definition calendar_date :: "int \<Rightarrow> int \<Rightarrow> int \<Rightarrow> int \<Rightarrow> int \<Rightarrow> tm" where
  "calendar_date zone now year month day =
     (let date = localtime zone now in
      if year = 0 \<and> month = 0 then date\<lparr>tm_mday := tm_mday date + day\<rparr>
      else
        (let y = (if year \<ge> 1900 then year - 1900 else year);
             date = (if month > 0 then date\<lparr>tm_mon := month - 1\<rparr> else date);
             date = (if y > 0 then date\<lparr>tm_year := y\<rparr> else date)
         in date\<lparr>tm_mday := day\<rparr>))"

definition hour_min :: "int \<times> int \<Rightarrow> xml \<Rightarrow> xml" where
  "hour_min t e = SetAttribute ''min'' (show_int (snd t)) (SetAttribute ''hour'' (show_int (fst t)) e)"

definition add_sun :: "wire \<Rightarrow> tm \<Rightarrow> string \<Rightarrow> xml \<Rightarrow> xml" where
  "add_sun w date what e = (case w_sun w what date of None \<Rightarrow> e | Some t \<Rightarrow> LinkEndChild (hour_min t (Element what [] [])) e)"

definition sun_error :: "string \<Rightarrow> string" where
  "sun_error what = ''Error while calculating '' @ (if what = ''noon'' then ''solar noon'' else what)"

text \<open>The rest of the reading, for a day and the time it stands for.\<close>

definition read_day :: "inputs \<Rightarrow> wire \<Rightarrow> xml \<Rightarrow> int \<Rightarrow> tm \<Rightarrow> xml result" where
  "read_day i w item ts date =
     (let exception = (if isException (sc_zone (in_schedule i)) (sc_days (in_schedule i)) ts then ''true'' else ''false'') in
      case child_elements item of
        [] \<Rightarrow>
          Inr (add_sun w date ''noon'' (add_sun w date ''sunset'' (add_sun w date ''sunrise''
            (LinkEndChild (SetText exception (Element ''exception-day'' [] [])) item))))
      | part # _ \<Rightarrow>
          if tag part = ''exception-day'' then Inr (set_first_element (SetText exception part) item)
          else if tag part \<in> {''sunrise'', ''sunset'', ''noon''} then
            (case w_sun w (tag part) date of
               None \<Rightarrow> Inl (Refused (sun_error (tag part)))
             | Some t \<Rightarrow> Inr (set_first_element (hour_min t part) item))
          else Inr item)"

definition read_calendar :: "inputs \<Rightarrow> wire \<Rightarrow> xml \<Rightarrow> xml result" where
  "read_calendar i w item =
     (let zone = sc_zone (in_schedule i) in
      res_bind (attribute_int item ''year'' 0) (\<lambda>year.
      res_bind (attribute_int item ''month'' 0) (\<lambda>month.
      res_bind (attribute_int item ''day'' 0) (\<lambda>day.
        if year = 0 \<and> month = 0 \<and> day = 0 then read_day i w item (in_now i) (localtime zone (in_now i))
        else
          (let ts = mktime zone (calendar_date zone (in_now i) year month day);
               date = localtime zone ts
           in read_day i w
                (SetAttribute ''day'' (show_int (tm_mday date))
                (SetAttribute ''month'' (show_int (tm_mon date + 1))
                (SetAttribute ''year'' (show_int (tm_year date + 1900)) item))) ts date)))))"

definition read_version :: "wire \<Rightarrow> xml \<Rightarrow> xml" where
  "read_version w item =
     (let features = foldl (\<lambda>e f. LinkEndChild (Element f [] []) e) (Element ''features'' [] []) (w_features w)
      in LinkEndChild features (LinkEndChild (SetText (w_version w) (Element ''value'' [] [])) item))"

definition handle_read :: "inputs \<Rightarrow> wire \<Rightarrow> listener \<Rightarrow> xml \<Rightarrow> 'a system_scheme \<Rightarrow> (unit, 'a system_scheme) run" where
  "handle_read i w c msg s =
     bind (first_element msg s) (\<lambda>item s.
       if tag item = ''object'' then read_object i c item s
       else
         bind (if tag item = ''objects'' then read_objects i item s
               else if tag item = ''config'' then read_config i w item s
               else if tag item = ''status'' then read_status i w item s
               else if tag item = ''calendar'' then from_result (read_calendar i w item) s
               else if tag item = ''version'' then return (read_version w item) s
               else fail (Refused ''Unknown read element'') s) (\<lambda>item'. reply_read w c msg item'))"

section \<open>Writing\<close>

text \<open>The imports of the objects and the rules, with the calls of listeners after each object and each rule.\<close>

definition import_part :: "inputs \<Rightarrow> wire \<Rightarrow> xml \<Rightarrow> 'a system_scheme \<Rightarrow> (unit, 'a system_scheme) run" where
  "import_part i w item s =
     (if tag item = ''objects'' then
        for_all (\<lambda>cfg s. with_listeners (in_fuel i) i (value_of (on_objects (import_object (in_sv i) (w_junk w) cfg) s) ()))
          (elements ''object'' item) s
      else if tag item = ''rules'' then
        for_all (\<lambda>cfg s. with_listeners (in_fuel i) i (import_rule i cfg s)) (elements ''rule'' item) s
      else if tag item = ''services'' \<or> tag item = ''logging'' then ([Foreign item], Inr (), s)
      else fail (Refused ''Unknown config element'') s)"

text \<open>The loops need at least one element; they stop at the first exception, and what was done before stays.\<close>

definition each_element :: "(xml \<Rightarrow> 's \<Rightarrow> (unit, 's) run) \<Rightarrow> xml \<Rightarrow> 's \<Rightarrow> (unit, 's) run" where
  "each_element f e s = bind (first_element e s) (\<lambda>_. for_all f (child_elements e))"

definition write_object :: "inputs \<Rightarrow> xml \<Rightarrow> 'a system_scheme \<Rightarrow> (unit, 'a system_scheme) run" where
  "write_object i item s =
     bind (lookup (GetAttribute item ''id'') s) (\<lambda>p s.
     bind (set_string i p (GetAttribute item ''value'') s) (\<lambda>_. release p))"

definition write_item :: "inputs \<Rightarrow> wire \<Rightarrow> xml \<Rightarrow> 'a system_scheme \<Rightarrow> (unit, 'a system_scheme) run" where
  "write_item i w item s =
     (if tag item = ''object'' then write_object i item s
      else if tag item = ''config'' then each_element (import_part i w) item s
      else fail (Refused ''Unknown write element'') s)"

definition handle_write :: "inputs \<Rightarrow> wire \<Rightarrow> listener \<Rightarrow> xml \<Rightarrow> 'a system_scheme \<Rightarrow> (unit, 'a system_scheme) run" where
  "handle_write i w c msg s =
     bind (each_element (write_item i w) msg s) (\<lambda>_. reply c (''<write status='' @ quoted ''success'' @ ''/>''))"


section \<open>Executing\<close>

definition Thread_pause :: "int \<Rightarrow> 's wake list \<Rightarrow> 's \<Rightarrow> (unit, 's) thread" where
  "Thread_pause delay ws s =
     (case ws of [] \<Rightarrow> ([Slept delay], Asleep, [], s) | w # ws' \<Rightarrow> ([Slept delay], Returned (), ws', w s))"

lemma Thread_pause_wakes: "Thread_pause delay ws s = (evs, Returned v, ws', s') \<Longrightarrow> length ws' < length ws"
  by (cases ws) (auto simp: Thread_pause_def)

definition rule_actions :: "xml \<Rightarrow> 'a system_scheme \<Rightarrow> (unit, 'a system_scheme) run" where
  "rule_actions item s =
     (case getRule (GetAttribute item ''id'') s of
        None \<Rightarrow> fail (Refused ''Unknown rule id'') s
      | Some r \<Rightarrow>
          bind (the_rule r s) (\<lambda>rule s.
            if GetAttribute item ''list'' = ''true'' then
              bind (executeActions (getActions OnTrue rule) s) (\<lambda>_. executeActions (getActions IfTrue rule))
            else if GetAttribute item ''list'' = ''false'' then
              bind (executeActions (getActions OnFalse rule) s) (\<lambda>_. executeActions (getActions IfFalse rule))
            else fail (Refused (''Invalid list attribute. (Must be '' @ quoted ''true'' @ '' or '' @ quoted ''false'' @ '')'')) s))"

text \<open>The actions created are executed at once; the result is their list, which the rest waits for.\<close>

fun execute_items :: "inputs \<Rightarrow> xml list \<Rightarrow> 'a system_scheme \<Rightarrow> (action list, 'a system_scheme) run" where
  "execute_items i [] s = return [] s"
| "execute_items i (item # items) s =
     (if tag item = ''action'' then
        bind (Action_create i item s) (\<lambda>a s.
        bind (execute a s) (\<lambda>_ s.
        bind (execute_items i items s) (\<lambda>al. return (a # al))))
      else if tag item = ''rule-actions'' then bind (rule_actions item s) (\<lambda>_. execute_items i items)
      else fail (Refused ''Unknown execute element'') s)"

text \<open>
  The wait for the first action of the list that has not finished: it yields to the other threads, and sleeps for a second when
  the action still runs.  The result is the number of waits.
\<close>

function await_actions ::
    "listener \<Rightarrow> int \<Rightarrow> int \<Rightarrow> action list \<Rightarrow> 'a system_scheme wake list \<Rightarrow> 'a system_scheme \<Rightarrow> (int, 'a system_scheme) thread" where
  "await_actions c timeout waits [] ws s = tdone waits ws s"
| "await_actions c timeout waits (a # al) ws s =
     tbind (Thread_pause 0 ws s) (\<lambda>_ ws s.
       if isFinished (action_ptr a) (pth_m s) \<or> waits = timeout then
         tbind (run_now (Action_delete a s) ws) (\<lambda>_. await_actions c timeout waits al)
       else
         tbind (run_now (if waits = 0 then reply c (''<execute status='' @ quoted ''ongoing'' @ ''/>'') s else return () s) ws) (\<lambda>_ ws s.
         tbind (Thread_pause 1000 ws s) (\<lambda>_. await_actions c timeout (waits + 1) (a # al))))"
  by pat_completeness auto
termination
  by (relation "measure (\<lambda>(c, timeout, waits, al, ws, s). length ws)")
    (auto dest!: run_now_wakes Thread_pause_wakes)

declare await_actions.simps [simp del]

definition handle_execute ::
    "inputs \<Rightarrow> listener \<Rightarrow> xml \<Rightarrow> 'a system_scheme wake list \<Rightarrow> 'a system_scheme \<Rightarrow> (unit, 'a system_scheme) thread" where
  "handle_execute i c msg ws s =
     tbind (run_now (from_result (attribute_int msg ''timeout'' 60) s) ws) (\<lambda>timeout ws s.
     tbind (run_now (bind (first_element msg s) (\<lambda>_. execute_items i (child_elements msg))) ws) (\<lambda>al ws s.
     tbind (await_actions c timeout 0 al ws s) (\<lambda>waits ws s.
       run_now (reply c (''<execute status='' @ quoted (if waits = timeout then ''timeout'' else ''success'') @ ''/>'') s) ws)))"

section \<open>Administration\<close>

definition save_config :: "inputs \<Rightarrow> wire \<Rightarrow> xml \<Rightarrow> 'a system_scheme \<Rightarrow> (unit, 'a system_scheme) run" where
  "save_config i w item s =
     (let filename = (if GetAttribute item ''file'' = '''' then w_config_file w else GetAttribute item ''file'') in
      if filename = '''' then fail (Refused ''No file to write config to'') s
      else
        bind (add_parts (export_config i w) [''services'', ''objects'', ''rules'', ''logging''] (Element ''config'' [] []) s) (\<lambda>cfg s.
          if w_saves w filename then ([SaveFile filename cfg], Inr (), s)
          else fail (Refused ''Error writing config to file'') s))"

definition set_notify :: "listener \<Rightarrow> ptr list \<Rightarrow> 'a system_scheme \<Rightarrow> 'a system_scheme" where
  "set_notify c ps s = s\<lparr>clients := (clients s)(c \<mapsto> ps)\<rparr>"

definition notify_list :: "listener \<Rightarrow> 'a system_scheme \<Rightarrow> ptr list" where
  "notify_list c s = (case clients s c of None \<Rightarrow> [] | Some ps \<Rightarrow> ps)"

definition watch :: "listener \<Rightarrow> ptr \<Rightarrow> 'a system_scheme \<Rightarrow> (unit, 'a system_scheme) run" where
  "watch c p s = listen c p (set_notify c (notify_list c s @ [p]) s)"

definition unwatch :: "listener \<Rightarrow> ptr \<Rightarrow> 'a system_scheme \<Rightarrow> (unit, 'a system_scheme) run" where
  "unwatch c p s = bind (call p (\<lambda>obj. finish (removeChangeListener c obj)) s) (\<lambda>_. release p)"

text \<open>\<open>unregister\<close> gives back the reference of the registration, whether there was one or not, and its own.\<close>

definition unregister :: "listener \<Rightarrow> string \<Rightarrow> 'a system_scheme \<Rightarrow> (unit, 'a system_scheme) run" where
  "unregister c oid s =
     bind (lookup oid s) (\<lambda>p s.
     bind (release p (set_notify c (filter (\<lambda>q. q \<noteq> p) (notify_list c s)) s)) (\<lambda>_.
       unwatch c p))"

definition unregister_all :: "listener \<Rightarrow> 'a system_scheme \<Rightarrow> (unit, 'a system_scheme) run" where
  "unregister_all c s = bind (for_all (unwatch c) (notify_list c s) s) (\<lambda>_ s. return () (set_notify c [] s))"

definition register_all :: "listener \<Rightarrow> 'a system_scheme \<Rightarrow> (unit, 'a system_scheme) run" where
  "register_all c s =
     bind (value_of (on_objects (\<lambda>oc. fst (getObjects oc)) s) ()) (\<lambda>_ s1. for_all (watch c) (snd (getObjects (objects s))) s1)"

definition notification_item :: "listener \<Rightarrow> xml \<Rightarrow> 'a system_scheme \<Rightarrow> (unit, 'a system_scheme) run" where
  "notification_item c item s =
     (if tag item = ''register'' then bind (lookup (GetAttribute item ''id'') s) (watch c)
      else if tag item = ''unregister'' then unregister c (GetAttribute item ''id'') s
      else if tag item = ''unregisterall'' then unregister_all c s
      else if tag item = ''registerall'' then bind (unregister_all c s) (\<lambda>_. register_all c)
      else fail (Refused ''Unknown objects element'') s)"

definition admin_item :: "inputs \<Rightarrow> wire \<Rightarrow> listener \<Rightarrow> xml \<Rightarrow> 'a system_scheme \<Rightarrow> (unit, 'a system_scheme) run" where
  "admin_item i w c item s =
     (if tag item = ''save'' then save_config i w item s
      else if tag item = ''notification'' then each_element (notification_item c) item s
      else fail (Refused ''Unknown admin element'') s)"

definition handle_admin :: "inputs \<Rightarrow> wire \<Rightarrow> listener \<Rightarrow> xml \<Rightarrow> 'a system_scheme \<Rightarrow> (unit, 'a system_scheme) run" where
  "handle_admin i w c msg s =
     bind (each_element (admin_item i w c) msg s) (\<lambda>_. reply c (''<admin status='' @ quoted ''success'' @ ''/>''))"

section \<open>A connection\<close>

definition handle ::
    "inputs \<Rightarrow> wire \<Rightarrow> listener \<Rightarrow> xml \<Rightarrow> 'a system_scheme wake list \<Rightarrow> 'a system_scheme \<Rightarrow> (unit, 'a system_scheme) thread" where
  "handle i w c msg ws s =
     (if tag msg = ''read'' then run_now (handle_read i w c msg s) ws
      else if tag msg = ''write'' then run_now (handle_write i w c msg s) ws
      else if tag msg = ''execute'' then handle_execute i c msg ws s
      else if tag msg = ''admin'' then run_now (handle_admin i w c msg s) ws
      else run_now (fail (Refused ''Unknown element'') s) ws)"

text \<open>What is thrown as a text is sent as it is, of the other exceptions the message.\<close>

definition what :: "wire \<Rightarrow> exn \<Rightarrow> string" where
  "what w e = (case e of Refused text \<Rightarrow> text | _ \<Rightarrow> w_explain w e)"

definition or_reject :: "wire \<Rightarrow> listener \<Rightarrow> string \<Rightarrow> (unit, 's) thread \<Rightarrow> (unit, 's) thread" where
  "or_reject w c type r =
     (case r of
        (evs, Raised e, ws, s) \<Rightarrow>
          if is_exception e then (case run_now (sendreject c (what w e) type s) ws of (evs', r') \<Rightarrow> (evs @ evs', r'))
          else (evs, Raised e, ws, s)
      | other \<Rightarrow> other)"

definition handle_text ::
    "inputs \<Rightarrow> wire \<Rightarrow> listener \<Rightarrow> string \<Rightarrow> 'a system_scheme wake list \<Rightarrow> 'a system_scheme \<Rightarrow> (unit, 'a system_scheme) thread" where
  "handle_text i w c text ws s =
     (case w_parse w text of
        Inl e \<Rightarrow> or_reject w c '''' (run_now (fail e s) ws)
      | Inr msg \<Rightarrow> or_reject w c (tag msg) (handle i w c msg ws s))"

text \<open>The destructor.\<close>

definition ClientConnection_delete :: "listener \<Rightarrow> 'a system_scheme \<Rightarrow> (unit, 'a system_scheme) run" where
  "ClientConnection_delete c s =
     bind (unregister_all c s) (\<lambda>_ s. return () (s\<lparr>clients := (clients s)(c := None)\<rparr>))"

text \<open>The thread of a connection: its messages, one after the other, until the socket gives no more; then it is deleted.\<close>

fun serve ::
    "inputs \<Rightarrow> wire \<Rightarrow> listener \<Rightarrow> string list \<Rightarrow> 'a system_scheme wake list \<Rightarrow> 'a system_scheme \<Rightarrow> (unit, 'a system_scheme) thread" where
  "serve i w c [] ws s = run_now (ClientConnection_delete c s) ws"
| "serve i w c (text # texts) ws s = tbind (handle_text i w c text ws s) (\<lambda>_. serve i w c texts)"

definition ClientConnection_Run ::
    "inputs \<Rightarrow> wire \<Rightarrow> listener \<Rightarrow> string list \<Rightarrow> 'a system_scheme wake list \<Rightarrow> 'a system_scheme \<Rightarrow> (unit, 'a system_scheme) thread" where
  "ClientConnection_Run i w c chunks ws s = serve i w c (all_messages [] chunks) ws s"

section \<open>The servers\<close>

text \<open>
  A server listens on a TCP port or at a path; what the operating system answers to \<open>socket\<close>, \<open>bind\<close> and \<open>listen\<close> is an input.  The
  path has to fit into the 108 bytes of its address.
\<close>

datatype XmlServer = XmlInetServer int | XmlUnixServer string

record server_os =
  so_socket :: bool
  so_bind :: bool
  so_listen :: bool

definition XmlInetServer_new :: "server_os \<Rightarrow> int \<Rightarrow> XmlServer result" where
  "XmlInetServer_new os port =
     (if \<not> so_socket os then Inl (Bad_config ''Unable to create TCP socket'')
      else if \<not> so_bind os then Inl (Bad_config (''Unable to register server on TCP port '' @ show_int port))
      else if \<not> so_listen os then Inl (Bad_config ''Unable to listen on TCP socket'')
      else Inr (XmlInetServer port))"

definition XmlUnixServer_new :: "server_os \<Rightarrow> string \<Rightarrow> XmlServer result" where
  "XmlUnixServer_new os path =
     (if length path \<ge> 108 then Inl (Bad_config ''Unable to create UNIX socket (path is too long)'')
      else if \<not> so_socket os then Inl (Bad_config ''Unable to create UNIX socket'')
      else if \<not> so_bind os then Inl (Bad_config (''Unable to register server on UNIX path '' @ path))
      else if \<not> so_listen os then Inl (Bad_config ''Unable to listen on UNIX socket'')
      else Inr (XmlUnixServer path))"

definition XmlServer_create :: "server_os \<Rightarrow> xml \<Rightarrow> XmlServer result" where
  "XmlServer_create os cfg =
     (let type = GetAttributeOrDefault cfg ''type'' ''inet'' in
      if type = ''inet'' then res_bind (attribute_int cfg ''port'' 1028) (XmlInetServer_new os)
      else if type = ''unix'' then XmlUnixServer_new os (GetAttributeOrDefault cfg ''path'' ''/tmp/xmlserver.sock'')
      else Inl (Bad_type type))"

fun XmlServer_exportXml :: "XmlServer \<Rightarrow> xml \<Rightarrow> xml" where
  "XmlServer_exportXml (XmlInetServer port) e = SetAttribute ''port'' (show_int port) (SetAttribute ''type'' ''inet'' e)"
| "XmlServer_exportXml (XmlUnixServer path) e = SetAttribute ''path'' path (SetAttribute ''type'' ''unix'' e)"

text \<open>\<open>XmlServer::Run\<close> for one connection accepted.\<close>

definition accept :: "'a system_scheme \<Rightarrow> (listener, 'a system_scheme) run" where
  "accept s = bind (new_id s) (\<lambda>c s. return c (set_notify c [] s))"

end
