(* ===== verification/Server_Laws.thy ===== *)
theory Server_Laws
  imports XmlServer Run_Laws
begin

text \<open>
  What the clients of the configuration server see, and what their requests do to the objects: notifications, the references a
  connection holds, and the dates of the calendar.
\<close>

section \<open>References\<close>

lemma lookup_of_registered:
  assumes "registered_as s oid p obj"
  shows "lookup oid s = ([], Inr p, put p (incRefCount obj) s)"
  using assms by (simp add: registered_as_def lookup_def getObject_def on_objects_def call_object_def finish_def value_of_def put_def)

lemma release_used:
  assumes "heap (objects s) p = Some obj" and "refCount_m obj \<ge> 1"
  shows "release p s = ([], Inr (), put p (obj\<lparr>refCount_m := refCount_m obj - 1\<rparr>) s)"
  using assms
  by (simp add: release_def call_def on_objects_def call_object_def finish_def value_of_def put_def decRefCount_def)

lemma release_unused:
  assumes "heap (objects s) p = Some obj" and "refCount_m obj < 1"
  shows "release p s = ([], Inl Null_deref, s)"
  using assms put_same [OF assms(1)]
  by (simp add: release_def call_def on_objects_def call_object_def throw_def value_of_def put_def decRefCount_def)

lemma call_finish:
  assumes "heap (objects s) p = Some obj"
  shows "call p (\<lambda>obj. finish (f obj)) s = ([], Inr (), put p (f obj) s)"
  using assms by (simp add: call_def on_objects_def call_object_def finish_def value_of_def put_def)

lemma incRefCount_back [simp]: "(incRefCount obj)\<lparr>refCount_m := refCount_m obj\<rparr> = obj" "refCount_m (incRefCount obj) = refCount_m obj + 1"
  by (simp_all add: incRefCount_def)

lemma release_counted:
  assumes "heap (objects s) p = Some (incRefCount obj)" and "refCount_m obj \<ge> 0"
  shows "release p s = ([], Inr (), put p obj s)"
  using release_used [OF assms(1)] assms(2) by simp

text \<open>Taking an object off the list does not depend on the objects.\<close>

abbreviation drop_notify :: "listener \<Rightarrow> ptr \<Rightarrow> 'a system_scheme \<Rightarrow> 'a system_scheme" where
  "drop_notify c p s \<equiv> set_notify c (filter (\<lambda>q. q \<noteq> p) (notify_list c s)) s"

lemma drop_notify_put: "drop_notify c p (put p obj s) = put p obj (drop_notify c p s)"
  by (simp add: set_notify_def notify_list_def put_def)

lemma unregister_counted:
  assumes "registered_as s oid p obj"
  shows "unregister c oid s = release p (put p (removeChangeListener c obj) (drop_notify c p s))"
proof -
  have released: "release p (put p (incRefCount obj) (drop_notify c p s)) = ([], Inr (), put p obj (drop_notify c p s))"
    using release_counted [of "put p (incRefCount obj) (drop_notify c p s)" p obj] assms by (simp add: registered_as_def)
  show ?thesis
    unfolding unregister_def lookup_of_registered [OF assms(1)] bind_simps drop_notify_put released unwatch_def
    by (simp add: call_finish [of "put p obj (drop_notify c p s)" p obj])
qed

section \<open>A bad value\<close>

text \<open>
   A request to write a text the class of the object does not accept is answered with the error, but the reference
  to the object is not given back: from then on the object cannot be deleted, for it counts as used.
\<close>

theorem bad_write_pins_object:
  assumes "registered_as s oid p obj" and "createObjectValue (env.truncate (in_sv i)) (obj_value obj) new = Inl e" and "is_exception e"
    and "w_parse w request = Inr (Element ''write'' [] [Element ''object'' [(''id'', oid), (''value'', new)] []])"
  shows "\<exists>s'. handle_text i w c request ws s =
      ([Did (Message c ((''<write status='' @ quoted ''error'' @ ''>'' @ what w e @ ''</write>'' @ [CHR 0x0A]) @ [CHR 0x04]))], Returned (), ws, s')
     \<and> fst (snd (import_object sv junk (Element ''object'' [(''id'', oid), (''delete'', ''true'')] []) (objects s'))) = Some In_use"
proof -
  let ?item = "Element ''object'' [(''id'', oid), (''value'', new)] []"
  let ?s' = "put p (incRefCount obj) s"
  have "call p (setValue_string (in_sv i) (in_arrivals i p) new) ?s' = ([], Inl e, ?s')"
    using assms(2)
    by (simp add: call_def on_objects_def call_object_def setValue_string_def incRefCount_def throw_def value_of_def put_def update_object_def)
  then have "set_string i p new ?s' = ([], Inl e, ?s')"
    by (simp add: set_string_def with_listeners_def fail_def)
  then have "write_item i w ?item s = ([], Inl e, ?s')"
    using lookup_of_registered [OF assms(1)] by (simp add: write_item_def write_object_def GetAttribute_def attribute_def)
  then have "handle_write i w c (Element ''write'' [] [?item]) s = ([], Inl e, ?s')"
    by (simp add: handle_write_def each_element_def first_element_def child_elements_def return_def)
  then have "handle_text i w c request ws s =
      ([Did (Message c ((''<write status='' @ quoted ''error'' @ ''>'' @ what w e @ ''</write>'' @ [CHR 0x0A]) @ [CHR 0x04]))], Returned (), ws, ?s')"
    using assms(3,4)
    by (simp add: handle_text_def handle_def run_now_def or_reject_def sendreject_def reply_def sendmessage_def)
  moreover have "fst (snd (import_object sv junk (Element ''object'' [(''id'', oid), (''delete'', ''true'')] []) (objects ?s'))) = Some In_use"
    using assms(1)
    by (simp add: import_object_def GetAttribute_def attribute_def registered_as_def put_def update_object_def inUse_def incRefCount_def
        throw_def leave_object_def)
  ultimately show ?thesis by blast
qed

section \<open>Unregistering\<close>

text \<open>
   A client that unregisters an object it never registered takes away a reference someone else holds, and when there is
  none, it ends the whole program, by the check in \<open>decRefCount\<close>.
\<close>

theorem stray_unregister_steals_reference:
  assumes "registered_as s oid p obj" and "p \<notin> set (notify_list c s)" and "c \<notin> set (listenerList_m obj)"
    and "clients s c = Some (notify_list c s)"
  shows "if refCount_m obj = 0 then unregister c oid s = ([], Inl Null_deref, s)
    else unregister c oid s = ([], Inr (), put p (obj\<lparr>refCount_m := refCount_m obj - 1\<rparr>) s)"
proof -
  have "filter (\<lambda>x. x \<noteq> c) (listenerList_m obj) = listenerList_m obj" using assms(3) by (auto simp: filter_id_conv)
  then have obj: "removeChangeListener c obj = obj" by (simp add: removeChangeListener_def)
  have "filter (\<lambda>q. q \<noteq> p) (notify_list c s) = notify_list c s" using assms(2) by (auto simp: filter_id_conv)
  moreover have "set_notify c (notify_list c s) s = s" using assms(4) by (simp add: set_notify_def fun_upd_idem)
  ultimately have "unregister c oid s = release p s"
    using unregister_counted [OF assms(1), of c] assms(1) by (simp add: obj put_same registered_as_def)
  then show ?thesis
    using assms(1) release_unused [of s p obj] release_used [of s p obj] by (simp add: registered_as_def)
qed


section \<open>The objects a connection listens to\<close>

text \<open>A state in which the connection \<open>c\<close> listens to the objects \<open>ps\<close>, and otherwise that of \<open>s\<close>.\<close>

definition attached :: "listener \<Rightarrow> ptr list \<Rightarrow> 'a system_scheme \<Rightarrow> 'a system_scheme" where
  "attached c ps s =
     s\<lparr>objects := (objects s)\<lparr>heap := (\<lambda>p. if p \<in> set ps then map_option (\<lambda>obj. addChangeListener c (incRefCount obj)) (heap (objects s) p)
                                       else heap (objects s) p)\<rparr>,
       clients := (clients s)(c \<mapsto> ps)\<rparr>"

text \<open>The objects \<open>ps\<close> exist, once each, and \<open>c\<close> does not listen to them.\<close>

definition watchable :: "listener \<Rightarrow> 'a engine_scheme \<Rightarrow> ptr \<Rightarrow> bool" where
  "watchable c s p \<longleftrightarrow>
     (case heap (objects s) p of None \<Rightarrow> False | Some obj \<Rightarrow> c \<notin> set (listenerList_m obj) \<and> refCount_m obj \<ge> 0)"

lemma watchableE:
  assumes "watchable c s p"
  obtains obj where "heap (objects s) p = Some obj" "removeChangeListener c (addChangeListener c (incRefCount obj)) = incRefCount obj" "refCount_m obj \<ge> 0"
proof -
  from assms obtain obj where *: "heap (objects s) p = Some obj" "c \<notin> set (listenerList_m obj)" "refCount_m obj \<ge> 0"
    by (auto simp: watchable_def split: option.splits)
  from *(2) have "filter (\<lambda>x. x \<noteq> c) (listenerList_m obj) = listenerList_m obj" by (auto simp: filter_id_conv)
  then have "removeChangeListener c (addChangeListener c (incRefCount obj)) = incRefCount obj"
    by (simp add: removeChangeListener_def addChangeListener_def incRefCount_def)
  with * that show thesis by blast
qed

lemma attached_Nil: "attached c [] s = set_notify c [] s"
  by (simp add: attached_def set_notify_def)

lemma set_notify_attached: "set_notify c ps (attached c ps s) = attached c ps s" "set_notify c ps (set_notify c qs s) = set_notify c ps s"
  by (simp_all add: attached_def set_notify_def)

lemma notify_list_attached [simp]: "notify_list c (attached c ps s) = ps" "notify_list c (put p obj s) = notify_list c s"
  by (simp_all add: attached_def notify_list_def put_def)

lemma watch_attached:
  assumes "heap (objects s) p = Some obj" and "p \<notin> set ps"
  shows "watch c p (put p (incRefCount obj) (attached c ps s)) = ([], Inr (), attached c (ps @ [p]) s)"
proof -
  have "heap (objects (set_notify c (ps @ [p]) (put p (incRefCount obj) (attached c ps s)))) p = Some (incRefCount obj)"
    by (simp add: set_notify_def put_def update_object_def)
  from call_finish [OF this] have "watch c p (put p (incRefCount obj) (attached c ps s)) =
      ([], Inr (), put p (addChangeListener c (incRefCount obj)) (set_notify c (ps @ [p]) (put p (incRefCount obj) (attached c ps s))))"
    by (simp add: watch_def listen_def)
  also have "put p (addChangeListener c (incRefCount obj)) (set_notify c (ps @ [p]) (put p (incRefCount obj) (attached c ps s))) =
      attached c (ps @ [p]) s"
    using assms by (auto simp: attached_def put_def update_object_def set_notify_def fun_eq_iff)
  finally show ?thesis .
qed

lemma unwatch_attached:
  assumes "watchable c s p" and "p \<notin> set qs"
  shows "unwatch c p (set_notify c ps (attached c (p # qs) s)) = ([], Inr (), set_notify c ps (attached c qs s))"
proof -
  obtain obj where obj: "heap (objects s) p = Some obj" "removeChangeListener c (addChangeListener c (incRefCount obj)) = incRefCount obj" "refCount_m obj \<ge> 0"
    using assms(1) by (rule watchableE)
  let ?s = "set_notify c ps (attached c (p # qs) s)"
  have "heap (objects ?s) p = Some (addChangeListener c (incRefCount obj))" using obj(1) by (simp add: set_notify_def attached_def)
  from call_finish [OF this] have "unwatch c p ?s = release p (put p (incRefCount obj) ?s)"
    by (simp add: unwatch_def obj(2))
  also have "\<dots> = ([], Inr (), put p obj ?s)" using release_counted [of "put p (incRefCount obj) ?s" p obj] obj(3) by simp
  also have "put p obj ?s = set_notify c ps (attached c qs s)"
    using assms(2) obj(1) by (auto simp: attached_def put_def update_object_def set_notify_def fun_eq_iff)
  finally show ?thesis .
qed

lemma unwatch_all:
  assumes "\<forall>p\<in>set qs. watchable c s p" and "distinct qs"
  shows "for_all (unwatch c) qs (set_notify c ps (attached c qs s)) = ([], Inr (), set_notify c ps (attached c [] s))"
  using assms by (induction qs) (simp_all add: unwatch_attached return_def)

lemma unregister_all_attached:
  assumes "\<forall>p\<in>set ps. watchable c s p" and "distinct ps"
  shows "unregister_all c (attached c ps s) = ([], Inr (), attached c [] s)"
  using unwatch_all [OF assms, of ps]
  by (simp add: unregister_all_def set_notify_attached return_def attached_Nil)


lemma lookup_attached:
  assumes "map_of (objectIdMap_m (objects s)) oid = Some p" and "watchable c s p" and "p \<notin> set ps"
  shows "bind (lookup oid (attached c ps s)) (watch c) = ([], Inr (), attached c (ps @ [p]) s)"
proof -
  obtain obj where obj: "heap (objects s) p = Some obj" "refCount_m obj \<ge> 0" using assms(2) by (rule watchableE)
  then have "registered_as (attached c ps s) oid p obj" using assms(1,3) by (simp add: registered_as_def attached_def)
  from lookup_of_registered [OF this] show ?thesis using watch_attached [OF obj(1) assms(3)] by simp
qed

lemma unregister_attached:
  assumes "map_of (objectIdMap_m (objects s)) oid = Some p" and "watchable c s p" and "p \<in> set ps"
  shows "unregister c oid (attached c ps s) = ([], Inr (), attached c (filter (\<lambda>q. q \<noteq> p) ps) s)"
proof -
  obtain obj where obj: "heap (objects s) p = Some obj" "removeChangeListener c (addChangeListener c (incRefCount obj)) = incRefCount obj" "refCount_m obj \<ge> 0"
    using assms(2) by (rule watchableE)
  let ?s = "drop_notify c p (attached c ps s)"
  have "registered_as (attached c ps s) oid p (addChangeListener c (incRefCount obj))"
    using assms(1,3) obj(1,3) by (simp add: registered_as_def attached_def addChangeListener_def)
  from unregister_counted [OF this, of c] have "unregister c oid (attached c ps s) = release p (put p (incRefCount obj) ?s)"
    by (simp add: obj(2))
  also have "\<dots> = ([], Inr (), put p obj ?s)" using release_counted [of "put p (incRefCount obj) ?s" p obj] obj(3) by simp
  also have "put p obj ?s = attached c (filter (\<lambda>q. q \<noteq> p) ps) s"
    using obj(1) by (auto simp: attached_def put_def update_object_def set_notify_def notify_list_def fun_eq_iff)
  finally show ?thesis .
qed

text \<open>\<open>getObjects\<close> counts a reference for each object first; then they are entered one by one.\<close>

definition counted :: "ptr list \<Rightarrow> ObjectController \<Rightarrow> ObjectController" where
  "counted ps oc = oc\<lparr>heap := (\<lambda>p. if p \<in> set ps then map_option incRefCount (heap oc p) else heap oc p)\<rparr>"

lemma count_all:
  assumes "\<forall>p\<in>set ps. heap oc p \<noteq> None" and "distinct ps"
  shows "call_all ps (\<lambda>obj. finish (incRefCount obj)) oc = finish (counted ps oc)"
  using assms
proof (induction ps arbitrary: oc)
  case Nil
  then show ?case by (simp add: counted_def finish_def)
next
  case (Cons p ps)
  then obtain obj where obj: "heap oc p = Some obj" by auto
  have "call_object p (\<lambda>obj. finish (incRefCount obj)) oc = finish (update_object p (incRefCount obj) oc)"
    using obj by (simp add: call_object_def finish_def)
  moreover have "counted ps (update_object p (incRefCount obj) oc) = counted (p # ps) oc"
    using Cons.prems(2) obj by (auto simp: counted_def update_object_def fun_eq_iff)
  ultimately show ?case using Cons by (simp add: update_object_def)
qed

lemma watch_all:
  assumes "\<forall>p\<in>set qs. watchable c s p" and "distinct (ps @ qs)"
  shows "for_all (watch c) qs ((attached c ps s)\<lparr>objects := counted qs (objects (attached c ps s))\<rparr>) = ([], Inr (), attached c (ps @ qs) s)"
  using assms
proof (induction qs arbitrary: ps)
  case Nil
  have "counted [] oc = oc" for oc by (simp add: counted_def)
  then show ?case by (simp add: return_def)
next
  case (Cons p qs)
  obtain obj where obj: "heap (objects s) p = Some obj" using Cons.prems(1) by (auto elim: watchableE)
  let ?s = "s\<lparr>objects := counted qs (objects s)\<rparr>"
  have p: "heap (objects ?s) p = Some obj" "p \<notin> set ps" using obj Cons.prems(2) by (simp_all add: counted_def)
  have before: "(attached c ps s)\<lparr>objects := counted (p # qs) (objects (attached c ps s))\<rparr> = put p (incRefCount obj) (attached c ps ?s)"
    by (intro system.equality ObjectController.equality ext)
      (use Cons.prems(2) obj in \<open>auto simp: attached_def counted_def put_def update_object_def\<close>)
  have after: "attached c (ps @ [p]) ?s = (attached c (ps @ [p]) s)\<lparr>objects := counted qs (objects (attached c (ps @ [p]) s))\<rparr>"
    by (intro system.equality ObjectController.equality ext)
      (use Cons.prems(2) in \<open>auto simp: attached_def counted_def\<close>)
  show ?case
    unfolding for_all.simps before watch_attached [OF p] bind_simps after using Cons.IH [of "ps @ [p]"] Cons.prems by simp
qed

lemma register_all_attached:
  assumes "distinct (map snd (objectIdMap_m (objects s)))" and "\<forall>p\<in>snd ` set (objectIdMap_m (objects s)). watchable c s p"
  shows "register_all c (attached c [] s) = ([], Inr (), attached c (map snd (objectIdMap_m (objects s))) s)"
proof -
  let ?ps = "map snd (objectIdMap_m (objects s))" and ?s = "attached c [] s"
  have ids: "objectIdMap_m (objects ?s) = objectIdMap_m (objects s)" by (simp add: attached_def)
  have "\<forall>p\<in>set ?ps. heap (objects ?s) p \<noteq> None" using assms(2) by (auto simp: attached_def elim: watchableE)
  from count_all [OF this assms(1)] have
    "value_of (on_objects (\<lambda>oc. fst (getObjects oc)) ?s) () = ([], Inr (), ?s\<lparr>objects := counted ?ps (objects ?s)\<rparr>)"
    by (simp add: getObjects_def ids on_objects_def finish_def value_of_def Let_def)
  moreover have "snd (getObjects (objects ?s)) = ?ps" by (simp add: getObjects_def ids Let_def)
  ultimately show ?thesis
    using watch_all [of ?ps c s "[]"] assms by (simp add: register_all_def)
qed

text \<open>Requests that register what is not registered and unregister what is, with the list they lead to.\<close>

fun well_paired :: "id_map \<Rightarrow> ptr list \<Rightarrow> xml list \<Rightarrow> bool" where
  "well_paired m ps [] = True"
| "well_paired m ps (item # items) =
     (if tag item = ''register'' then
        (case map_of m (GetAttribute item ''id'') of None \<Rightarrow> False | Some p \<Rightarrow> p \<notin> set ps \<and> well_paired m (ps @ [p]) items)
      else if tag item = ''unregister'' then
        (case map_of m (GetAttribute item ''id'') of None \<Rightarrow> False | Some p \<Rightarrow> p \<in> set ps \<and> well_paired m (filter (\<lambda>q. q \<noteq> p) ps) items)
      else if tag item = ''unregisterall'' then well_paired m [] items
      else tag item = ''registerall'' \<and> well_paired m (map snd m) items)"

lemma well_paired_attached:
  assumes "well_paired m ps items" and "m = objectIdMap_m (objects s)" and "distinct (map snd m)" and "\<forall>p\<in>snd ` set m. watchable c s p"
    and "set ps \<subseteq> snd ` set m" and "distinct ps"
  shows "\<exists>qs. for_all (notification_item c) items (attached c ps s) = ([], Inr (), attached c qs s) \<and> set qs \<subseteq> snd ` set m \<and> distinct qs"
  using assms(1,5,6)
proof (induction items arbitrary: ps)
  case Nil
  then show ?case by (auto simp: return_def)
next
  case (Cons item items)
  have next_list: "\<exists>ps'. notification_item c item (attached c ps s) = ([], Inr (), attached c ps' s) \<and> well_paired m ps' items
      \<and> set ps' \<subseteq> snd ` set m \<and> distinct ps'"
  proof -
    have in_m: "map_of m oid = Some p \<Longrightarrow> p \<in> snd ` set m" for oid p by (metis map_of_SomeD image_eqI snd_conv)
    have known: "watchable c s p" if "map_of m oid = Some p" for oid p using in_m [OF that] assms(4) by blast
    have all: "\<forall>p\<in>set ps. watchable c s p" using Cons.prems(2) assms(4) by blast
    note un = unregister_all_attached [OF all Cons.prems(3)]
    consider (reg) p where "tag item = ''register''" "map_of m (GetAttribute item ''id'') = Some p" "p \<notin> set ps" "well_paired m (ps @ [p]) items"
      | (unreg) p where "tag item = ''unregister''" "map_of m (GetAttribute item ''id'') = Some p" "p \<in> set ps" "well_paired m (filter (\<lambda>q. q \<noteq> p) ps) items"
      | (none) "tag item = ''unregisterall''" "well_paired m [] items"
      | (all) "tag item = ''registerall''" "well_paired m (map snd m) items"
      using Cons.prems(1) by (auto split: if_splits option.splits)
    then show ?thesis
    proof cases
      case reg
      then show ?thesis
        using lookup_attached [of s "GetAttribute item ''id''" p c ps] known [OF reg(2)] in_m [OF reg(2)] assms(2) Cons.prems
        by (intro exI [of _ "ps @ [p]"]) (simp add: notification_item_def)
    next
      case unreg
      then show ?thesis
        using unregister_attached [of s "GetAttribute item ''id''" p c ps] known [OF unreg(2)] assms(2) Cons.prems
        by (intro exI [of _ "filter (\<lambda>q. q \<noteq> p) ps"]) (auto simp: notification_item_def)
    next
      case none
      then show ?thesis using un by (intro exI [of _ "[]"]) (auto simp: notification_item_def)
    next
      case all
      then show ?thesis
        using un register_all_attached [of s c] assms(2-4) by (intro exI [of _ "map snd m"]) (auto simp: notification_item_def)
    qed
  qed
  then obtain ps' where ps': "notification_item c item (attached c ps s) = ([], Inr (), attached c ps' s)" "well_paired m ps' items"
      "set ps' \<subseteq> snd ` set m" "distinct ps'" by blast
  show ?case using Cons.IH [OF ps'(2-4)] ps'(1) by simp
qed

text \<open>
  C9.  A connection leaves no trace: whatever it registers and unregisters, as long as it unregisters only what it has
  registered and registers nothing twice, once it is closed every object has the listeners and the references it had before.
\<close>

theorem connection_leaves_no_trace:
  assumes "well_paired (objectIdMap_m (objects s)) [] items" and "distinct (map snd (objectIdMap_m (objects s)))"
    and "\<forall>p\<in>snd ` set (objectIdMap_m (objects s)). watchable c s p"
  shows "bind (for_all (notification_item c) items (set_notify c [] s)) (\<lambda>_. ClientConnection_delete c) =
    ([], Inr (), s\<lparr>clients := (clients s)(c := None)\<rparr>)"
proof -
  obtain qs where qs: "for_all (notification_item c) items (attached c [] s) = ([], Inr (), attached c qs s)"
      "set qs \<subseteq> snd ` set (objectIdMap_m (objects s))" "distinct qs"
    using well_paired_attached [OF assms(1) refl assms(2,3)] by auto
  have "\<forall>p\<in>set qs. watchable c s p" using qs(2) assms(3) by blast
  from unregister_all_attached [OF this qs(3)] have
    "ClientConnection_delete c (attached c qs s) = ([], Inr (), s\<lparr>clients := (clients s)(c := None)\<rparr>)"
    by (simp add: ClientConnection_delete_def attached_Nil set_notify_def return_def)
  then show ?thesis using qs(1) by (simp add: attached_Nil)
qed


section \<open>Notifications\<close>

definition notification :: "string \<Rightarrow> string \<Rightarrow> string" where
  "notification oid text = (''<notify id='' @ quoted oid @ ''>'' @ text @ ''</notify>'' @ [CHR 0x0A]) @ [CHR 0x04]"

text \<open>The listener is a connection and nothing else.\<close>

definition is_client :: "'a system_scheme \<Rightarrow> listener \<Rightarrow> bool" where
  "is_client s c \<longleftrightarrow> clients s c \<noteq> None \<and> rules s c = None \<and> tasks s c = None \<and> stopCondition_m s c = None"

lemma is_client_put [simp]: "is_client (put p obj s) c = is_client s c"
  by (simp add: is_client_def put_def)

lemma call_client:
  assumes "is_client s c" and "map_of (objectIdMap_m (objects s)) oid = Some p" and "heap (objects s) p = Some obj" and "init_m obj"
  shows "call_listener i c (Some oid) s = ([Message c (notification oid (ov_toString (env.truncate (in_sv i)) (obj_value obj)))], Inr (), s)"
proof -
  have "get_value i p s = return (obj_value obj) s"
    using get_value_ready [of s p i] assms(3,4) by (simp add: has_value_def value_at_def)
  then show ?thesis
    using assms(1,2) by (simp add: call_listener_def is_client_def ClientConnection_onChange_def sendmessage_def notification_def)
qed

text \<open>The connections that watch an object are told its value, in order.\<close>

lemma tell_clients:
  assumes "\<forall>c\<in>set cs. is_client s c" and "map_of (objectIdMap_m (objects s)) oid = Some p" and "heap (objects s) p = Some obj"
    and "init_m obj" and "in_fuel i > 0"
  shows "deliver (in_fuel i) i (map (\<lambda>l. OnChange l (Some oid)) cs) s =
    (map (\<lambda>c. Message c (notification oid (ov_toString (env.truncate (in_sv i)) (obj_value obj)))) cs, Inr (), s)"
  using assms(1)
proof (induction cs)
  case Nil
  then show ?case by (simp add: return_def)
next
  case (Cons c cs)
  have "call_listener i c (Some oid) s = ([Message c (notification oid (ov_toString (env.truncate (in_sv i)) (obj_value obj)))], Inr (), s)"
    using call_client [OF _ assms(2-4)] Cons.prems by simp
  moreover obtain k where "in_fuel i = Suc k" using assms(5) gr0_conv_Suc by blast
  ultimately show ?case using Cons by (simp add: return_def bind_def)
qed

text \<open>A text set on an initialised object that sends, and that has only such listeners.\<close>

definition announces :: "inputs \<Rightarrow> 'a system_scheme \<Rightarrow> string \<Rightarrow> Object \<Rightarrow> bool" where
  "announces i s oid obj \<longleftrightarrow>
     id_m obj = oid \<and> init_m obj \<and> \<not> persist_m obj \<and> \<not> writeLog_m obj \<and> has_flag Transmit obj \<and> has_flag Comm obj
     \<and> (\<forall>c\<in>set (listenerList_m obj). is_client s c) \<and> in_fuel i > 0"

lemma set_announced:
  assumes "announces i s oid obj" and "heap (objects s) p = Some obj" and "map_of (objectIdMap_m (objects s)) oid = Some p" and "\<not> is_dpt9 v'"
    and "createObjectValue (env.truncate (in_sv i)) (obj_value obj) new = Inr v"
    and "ov_set (env.truncate (in_sv i)) (obj_value obj) v = (True, v')" and "ov_doSend (env.truncate (in_sv i)) True v' = Inr bs"
  shows "set_string i p new s =
    (Send (gad_m obj) bs # map (\<lambda>c. Message c (notification oid (ov_toString (env.truncate (in_sv i)) v'))) (listenerList_m obj),
     Inr (), put p (obj\<lparr>obj_value := v'\<rparr>) s)"
proof -
  let ?obj = "obj\<lparr>obj_value := v'\<rparr>"
  let ?s = "put p ?obj s"
  have "?obj\<lparr>init_m := True\<rparr> = ?obj" using assms(1) by (cases obj) (simp add: announces_def)
  then have "setValue (in_sv i) (in_arrivals i p) v obj = (Send (gad_m obj) bs # map (\<lambda>l. OnChange l (Some oid)) (listenerList_m obj), None, ?obj)"
    using assms(1,4,6,7)
    by (simp add: announces_def setValue_def onInternalUpdate_def doSend_def send_value_def onUpdate_def and_then_def finish_def has_flag_def Let_def)
  then have called: "call p (setValue_string (in_sv i) (in_arrivals i p) new) s =
      (Send (gad_m obj) bs # map (\<lambda>l. OnChange l (Some oid)) (listenerList_m obj), Inr (), ?s)"
    using assms(2,5) by (simp add: setValue_string_def call_def on_objects_def call_object_def value_of_def put_def update_object_def)
  have "\<forall>c\<in>set (listenerList_m obj). is_client ?s c" "init_m ?obj" "in_fuel i > 0" using assms(1) by (simp_all add: announces_def)
  moreover have "map_of (objectIdMap_m (objects ?s)) oid = Some p" using assms(3) by (simp add: put_def update_object_def)
  ultimately show ?thesis
    unfolding set_string_def called with_listeners_def
    using tell_clients [of "listenerList_m obj" ?s oid p ?obj i] by (simp add: return_def bind_def)
qed

text \<open>
  C8.  A client that writes a new value to an object gets its answer after the telegram with the value has been sent and
  every connection that watches the object has been told the new value, in the order in which they registered.
\<close>

theorem write_is_announced:
  assumes "registered_as s oid p obj" and "announces i s oid obj" and "\<not> is_dpt9 v'"
    and "createObjectValue (env.truncate (in_sv i)) (obj_value obj) new = Inr v"
    and "ov_set (env.truncate (in_sv i)) (obj_value obj) v = (True, v')" and "ov_doSend (env.truncate (in_sv i)) True v' = Inr bs"
    and "w_parse w request = Inr (Element ''write'' [] [Element ''object'' [(''id'', oid), (''value'', new)] []])"
  shows "handle_text i w c' request ws s =
     (Did (Send (gad_m obj) bs)
      # map (\<lambda>c. Did (Message c (notification oid (ov_toString (env.truncate (in_sv i)) v')))) (listenerList_m obj)
      @ [Did (Message c' ((''<write status='' @ quoted ''success'' @ ''/>'' @ [CHR 0x0A]) @ [CHR 0x04]))],
      Returned (), ws, put p (obj\<lparr>obj_value := v'\<rparr>) s)"
proof -
  let ?item = "Element ''object'' [(''id'', oid), (''value'', new)] []"
  let ?told = "\<lambda>c. Message c (notification oid (ov_toString (env.truncate (in_sv i)) v'))"
  let ?s = "put p (incRefCount obj) s"
  have found: "heap (objects ?s) p = Some (incRefCount obj)" "map_of (objectIdMap_m (objects ?s)) oid = Some p"
    using assms(1) by (simp_all add: registered_as_def put_def update_object_def)
  have "announces i ?s oid (incRefCount obj)" using assms(2) by (simp add: announces_def incRefCount_def has_flag_def)
  moreover have "(incRefCount obj)\<lparr>obj_value := v'\<rparr> = incRefCount (obj\<lparr>obj_value := v'\<rparr>)" by (simp add: incRefCount_def)
  moreover have "obj_value (incRefCount obj) = obj_value obj" "gad_m (incRefCount obj) = gad_m obj" "listenerList_m (incRefCount obj) = listenerList_m obj"
    by (simp_all add: incRefCount_def)
  ultimately have said: "set_string i p new ?s =
      (Send (gad_m obj) bs # map ?told (listenerList_m obj), Inr (), put p (incRefCount (obj\<lparr>obj_value := v'\<rparr>)) s)"
    using set_announced [OF _ found assms(3), where new = new and v = v and bs = bs] assms(4-6) by simp
  have "release p (put p (incRefCount (obj\<lparr>obj_value := v'\<rparr>)) s) = ([], Inr (), put p (obj\<lparr>obj_value := v'\<rparr>) s)"
    using release_counted [of "put p (incRefCount (obj\<lparr>obj_value := v'\<rparr>)) s" p "obj\<lparr>obj_value := v'\<rparr>"] assms(1)
    by (simp add: registered_as_def)
  then have "write_item i w ?item s = (Send (gad_m obj) bs # map ?told (listenerList_m obj), Inr (), put p (obj\<lparr>obj_value := v'\<rparr>) s)"
    using lookup_of_registered [OF assms(1)] said
    by (simp add: write_item_def write_object_def GetAttribute_def attribute_def) (simp add: bind_def)
  then have "handle_write i w c' (Element ''write'' [] [?item]) s =
      (Send (gad_m obj) bs # map ?told (listenerList_m obj) @
         [Message c' ((''<write status='' @ quoted ''success'' @ ''/>'' @ [CHR 0x0A]) @ [CHR 0x04])], Inr (), put p (obj\<lparr>obj_value := v'\<rparr>) s)"
    by (simp add: handle_write_def each_element_def first_element_def child_elements_def)
      (simp add: bind_def return_def reply_def sendmessage_def)
  then show ?thesis
    using assms(7) by (simp add: handle_text_def handle_def run_now_def or_reject_def)
qed

section \<open>Waiting for actions\<close>

lemma Thread_pause_id: "Thread_pause delay (id # ws) s = ([Slept delay], Returned (), ws, s)"
  by (simp add: Thread_pause_def)

definition ongoing :: "listener \<Rightarrow> effect" where
  "ongoing c = Message c ((''<execute status='' @ quoted ''ongoing'' @ ''/>'' @ [CHR 0x0A]) @ [CHR 0x04])"

lemma await_running:
  assumes "\<not> isFinished (action_ptr a) (pth_m s)" and "Action_delete a s = (effs, Inr (), s')" and "timeout = int waits + int n"
  shows "await_actions c timeout (int waits) [a] (replicate (2 * n + 1) id) s =
     ((if waits = 0 \<and> n > 0 then [Slept 0, Did (ongoing c), Slept 1000] @ concat (replicate (n - 1) [Slept 0, Slept 1000])
       else concat (replicate n [Slept 0, Slept 1000])) @ Slept 0 # map Did effs, Returned timeout, [], s')"
  using assms(3)
proof (induction n arbitrary: waits)
  case 0
  then show ?case
    unfolding await_actions.simps(2) [of c timeout "int waits"] using assms(1,2)
    by (simp add: Thread_pause_id tbind_Returned run_now_Inr await_actions.simps(1) tdone_def)
next
  case (Suc n)
  have wakes: "replicate (2 * Suc n + 1) id = id # id # replicate (2 * n + 1) id" by simp
  have more: "int waits \<noteq> timeout" "timeout = int (Suc waits) + int n" using Suc.prems by simp_all
  have sent: "run_now (if int waits = 0 then reply c (''<execute status='' @ quoted ''ongoing'' @ ''/>'') s else return () s) ws =
      (if waits = 0 then [Did (ongoing c)] else [], Returned (), ws, s)" for ws
    by (simp add: reply_def sendmessage_def run_now_Inr ongoing_def tdone_def)
  have waits: "int waits + 1 = int (Suc waits)" by simp
  show ?case
    unfolding wakes await_actions.simps(2) [of c timeout "int waits"] Thread_pause_id tbind_Returned sent
    using assms(1) more(1) unfolding waits Suc.IH [OF more(2)] by simp
qed



section \<open>Concrete requests\<close>

text \<open>A connection 20 watches the lamp; a library that only knows one request.\<close>

definition plain_wire :: "xml \<Rightarrow> wire" where
  "plain_wire request =
     \<lparr>w_parse = (\<lambda>_. Inr request), w_print = (\<lambda>_. []), w_explain = (\<lambda>_. ''wrong''), w_services = id, w_logging = id, w_config_file = [],
      w_saves = (\<lambda>_. True), w_version = [], w_features = [], w_sun = (\<lambda>_ _. None), w_junk = 0, w_task_condition = (\<lambda>_. AndCondition [])\<rparr>"

definition watched_lamp :: Object where
  "watched_lamp = (Object_new 0 (Switching \<lparr>sw_eis = 1, sw_value = False\<rparr>))
     \<lparr>init_m := True, gad_m := 0x0901, id_m := ''lamp'', listenerList_m := [20], refCount_m := 1\<rparr>"

definition lamp_house :: "Object \<Rightarrow> system" where
  "lamp_house obj = (plain_system (ObjectController_new\<lparr>heap := [0 \<mapsto> obj], objectIdMap_m := [(''lamp'', 0)]\<rparr>))
     \<lparr>clients := [20 \<mapsto> [0], 21 \<mapsto> []]\<rparr>"

definition write_lamp :: "string \<Rightarrow> xml" where
  "write_lamp text = Element ''write'' [] [Element ''object'' [(''id'', ''lamp''), (''value'', text)] []]"

lemmas lamp_defs = watched_lamp_def Object_new_def lamp_house_def plain_system_def

lemma lamp_registered: "refCount_m obj \<ge> 0 \<Longrightarrow> registered_as (lamp_house obj) ''lamp'' 0 obj"
  by (simp add: registered_as_def lamp_house_def plain_system_def)

lemma write_is_announced_witness:
  "handle_text (plain_inputs\<lparr>in_fuel := 1\<rparr>) (plain_wire (write_lamp ''on'')) 21 '''' [] (lamp_house watched_lamp) =
     ([Did (Send 0x0901 [0, 0x81]), Did (Message 20 (notification ''lamp'' ''on'')),
       Did (Message 21 ((''<write status='' @ quoted ''success'' @ ''/>'' @ [CHR 0x0A]) @ [CHR 0x04]))],
      Returned (), [], put 0 (watched_lamp\<lparr>obj_value := Switching \<lparr>sw_eis = 1, sw_value = True\<rparr>\<rparr>) (lamp_house watched_lamp))"
proof -
  let ?i = "plain_inputs\<lparr>in_fuel := 1\<rparr>"
  have reg: "registered_as (lamp_house watched_lamp) ''lamp'' 0 watched_lamp" by (rule lamp_registered) (simp add: watched_lamp_def)
  note run = write_is_announced [OF reg, where i = "?i" and v = "Switching \<lparr>sw_eis = 1, sw_value = True\<rparr>"
      and v' = "Switching \<lparr>sw_eis = 1, sw_value = True\<rparr>" and new = "''on''" and bs = "[0, 0x81]" and w = "plain_wire (write_lamp ''on'')"
      and request = "''''" and c' = 21 and ws = "[]"]
  show ?thesis
    by (subst run)
      (simp_all add: lamp_defs announces_def is_client_def has_flag_def flag_defs SwitchingObjectValue_init_def SwitchingObjectValue_set_def
        SwitchingObjectValue_set_bool_def SwitchingObject_doSend_def apci_def SwitchingObjectValue_toString_def SwitchingTypes_def
        SwitchingObjectValue_getValueString_def lift_value_def plain_wire_def write_lamp_def plain_inputs_def)
qed


lemma bad_write_pins_object_witness:
  "\<exists>s'. handle_text plain_inputs (plain_wire (write_lamp ''maybe'')) 21 '''' [] (lamp_house watched_lamp) =
      ([Did (Message 21 ((''<write status='' @ quoted ''error'' @ ''>wrong</write>'' @ [CHR 0x0A]) @ [CHR 0x04]))], Returned (), [], s')
     \<and> fst (snd (import_object (in_sv plain_inputs) 0 (Element ''object'' [(''id'', ''lamp''), (''delete'', ''true'')] []) (objects s'))) = Some In_use"
proof -
  have reg: "registered_as (lamp_house watched_lamp) ''lamp'' 0 watched_lamp" by (rule lamp_registered) (simp add: watched_lamp_def)
  have "createObjectValue (env.truncate (in_sv plain_inputs)) (obj_value watched_lamp) ''maybe'' = Inl (Bad_value (SwitchingObjectValue_getType 1) ''maybe'')"
    by (simp add: lamp_defs SwitchingObjectValue_init_def SwitchingObjectValue_getValueString_def SwitchingTypes_def lift_value_def)
  moreover have "is_exception (Bad_value (SwitchingObjectValue_getType 1) ''maybe'')" by (simp add: is_exception_def)
  ultimately show ?thesis
    using bad_write_pins_object [OF reg, of plain_inputs "''maybe''" "Bad_value (SwitchingObjectValue_getType 1) ''maybe''" "plain_wire (write_lamp ''maybe'')" "''''"
        21 "[]" "in_sv plain_inputs" 0]
    by (simp add: plain_wire_def write_lamp_def what_def)
qed

lemma stray_unregister_steals_reference_witness:
  "unregister 21 ''lamp'' (lamp_house watched_lamp) = ([], Inr (), put 0 (watched_lamp\<lparr>refCount_m := 0\<rparr>) (lamp_house watched_lamp))
   \<and> unregister 21 ''lamp'' (lamp_house (watched_lamp\<lparr>refCount_m := 0\<rparr>)) = ([], Inl Null_deref, lamp_house (watched_lamp\<lparr>refCount_m := 0\<rparr>))"
proof -
  have "registered_as (lamp_house watched_lamp) ''lamp'' 0 watched_lamp"
    "registered_as (lamp_house (watched_lamp\<lparr>refCount_m := 0\<rparr>)) ''lamp'' 0 (watched_lamp\<lparr>refCount_m := 0\<rparr>)"
    by (rule lamp_registered, simp add: watched_lamp_def)+
  from this [THEN stray_unregister_steals_reference, of 21] show ?thesis
    by (simp add: notify_list_def lamp_defs)
qed

lemma connection_leaves_no_trace_witness:
  "bind (for_all (notification_item 22) [Element ''registerall'' [] [], Element ''unregister'' [(''id'', ''lamp'')] [], Element ''register'' [(''id'', ''lamp'')] []]
      (set_notify 22 [] (lamp_house watched_lamp))) (\<lambda>_. ClientConnection_delete 22) =
    ([], Inr (), (lamp_house watched_lamp)\<lparr>clients := (clients (lamp_house watched_lamp))(22 := None)\<rparr>)"
  by (rule connection_leaves_no_trace)
    (simp_all add: lamp_defs GetAttribute_def attribute_def watchable_def)

text \<open>A dimmer at work in the thread 1.\<close>

definition busy_house :: system where
  "busy_house = (lamp_house watched_lamp)\<lparr>pth_m := Start True 7 pth_new\<rparr>"


end
