(* ===== verification/IOPorts.thy ===== *)
theory IOPorts
  imports Runs
begin

text \<open>
  src/ioport.cpp: the ports to UDP, TCP and serial devices, the action that sends to a port and the two conditions on
  ports.  For rules such an action or condition is foreign: it is known by its configuration, and the value a condition has
  is an input of the evaluation (\<open>in_foreign\<close>).
\<close>

section \<open>State\<close>

text \<open>File descriptors; \<open>struct termios\<close> by what its flags say; the two control characters hold a byte.\<close>

datatype Parity = NoParity | Even | Odd
datatype Flow = NoFlow | XonXoff | RtsCts

record termios =
  data_bits :: nat
  parity :: Parity
  two_stop_bits :: bool
  flow_control :: Flow
  canonical :: bool
  vtime :: byte
  vmin :: byte

record UdpIOPort =
  udp_host :: string
  udp_port :: int
  rxport_m :: int
  udp_fd :: int

record TcpClientIOPort =
  tcp_host :: string
  tcp_port :: int
  permanent_m :: bool
  permanentSockfd_m :: int

record SerialIOPort =
  dev_m :: string
  speed_m :: int
  modeRaw_m :: bool
  timeout_m :: int
  msglength_m :: int
  newtio_m :: termios
  serial_fd :: int

datatype port_kind = Udp UdpIOPort | TcpClient TcpClientIOPort | Serial SerialIOPort

text \<open>\<open>RxThread\<close>: its listeners, and whether its loop runs.\<close>

record RxThread =
  rx_listeners :: "ptr list"
  rx_runs :: bool

record IOPort =
  io_id :: string
  rxThread_m :: "RxThread option"
  connectListenerList_m :: "ptr list"
  io_kind :: port_kind

text \<open>A condition on received data, with the configuration by which it is known to its rule, and one on connections.\<close>

record RxCondition =
  rc_config :: xml
  rc_port :: string
  exp_m :: string
  regexFlag_m :: bool
  rc_hex :: bool
  rc_objects :: "ptr option list"
  rc_cl :: "listener option"

record ConnectCondition =
  cc_config :: xml
  cc_port :: string
  cc_cl :: "listener option"

text \<open>The ports, and the bytes the operating system took from them.\<close>

record world = system +
  io_ports :: "ptr \<Rightarrow> IOPort option"
  portMap_m :: id_map
  rx_conditions :: "ptr \<Rightarrow> RxCondition option"
  connect_conditions :: "ptr \<Rightarrow> ConnectCondition option"
  sent :: "(int \<times> string) list"

text \<open>
  What the operating system answers: the descriptor of a new socket and of an opened device, whether a connection succeeds, how
  many bytes a descriptor takes; and the regular expressions of the C library: how many groups one has, when it is valid, and the
  groups of a match, by beginning and end.  The last field is what an uninitialised \<open>unsigned int\<close> holds.
\<close>

record os =
  os_socket :: int
  os_open :: int
  os_connect :: bool
  os_write :: "int \<Rightarrow> string \<Rightarrow> int"
  os_regcomp :: "string \<Rightarrow> nat option"
  os_regexec :: "string \<Rightarrow> string \<Rightarrow> (nat \<times> nat) option list option"
  os_junk :: u32

section \<open>The receiving thread\<close>

definition RxThread_new :: RxThread where
  "RxThread_new = \<lparr>rx_listeners = [], rx_runs = False\<rparr>"

text \<open>\<open>Start\<close> does nothing while the loop runs.\<close>

definition RxThread_addListener :: "ptr \<Rightarrow> RxThread \<Rightarrow> RxThread" where
  "RxThread_addListener l t =
     (let t' = (if rx_listeners t = [] then t\<lparr>rx_runs := True\<rparr> else t) in t'\<lparr>rx_listeners := rx_listeners t' @ [l]\<rparr>)"

definition RxThread_removeListener :: "ptr \<Rightarrow> RxThread \<Rightarrow> RxThread" where
  "RxThread_removeListener l t =
     (let t' = t\<lparr>rx_listeners := filter (\<lambda>x. x \<noteq> l) (rx_listeners t)\<rparr> in if rx_listeners t' = [] then t'\<lparr>rx_runs := False\<rparr> else t')"

definition IOPort_addListener :: "ptr \<Rightarrow> IOPort \<Rightarrow> IOPort" where
  "IOPort_addListener l io = io\<lparr>rxThread_m := map_option (RxThread_addListener l) (rxThread_m io)\<rparr>"

definition IOPort_removeListener :: "ptr \<Rightarrow> IOPort \<Rightarrow> IOPort" where
  "IOPort_removeListener l io = io\<lparr>rxThread_m := map_option (RxThread_removeListener l) (rxThread_m io)\<rparr>"

definition addConnectListener :: "ptr \<Rightarrow> IOPort \<Rightarrow> IOPort" where
  "addConnectListener l io = io\<lparr>connectListenerList_m := connectListenerList_m io @ [l]\<rparr>"

definition removeConnectListener :: "ptr \<Rightarrow> IOPort \<Rightarrow> IOPort" where
  "removeConnectListener l io = io\<lparr>connectListenerList_m := filter (\<lambda>x. x \<noteq> l) (connectListenerList_m io)\<rparr>"

fun isRxEnabled :: "port_kind \<Rightarrow> bool" where
  "isRxEnabled (Udp u) = (rxport_m u > 0)"
| "isRxEnabled (TcpClient t) = permanent_m t"
| "isRxEnabled (Serial s) = True"

fun mustConnect :: "port_kind \<Rightarrow> bool" where
  "mustConnect (Udp u) = False"
| "mustConnect (TcpClient t) = True"
| "mustConnect (Serial s) = True"

section \<open>Configuration of the ports\<close>

text \<open>The base class: a port that receives gets a new thread, and the old one is deleted.\<close>

definition IOPort_importXml :: "xml \<Rightarrow> IOPort \<Rightarrow> IOPort" where
  "IOPort_importXml cfg io =
     io\<lparr>io_id := GetAttribute cfg ''id'', rxThread_m := (if isRxEnabled (io_kind io) then Some RxThread_new else rxThread_m io)\<rparr>"

text \<open>Reading a setting, which may throw; the settings read before stay.\<close>

definition read_setting :: "'v result \<Rightarrow> 'p \<Rightarrow> ('v \<Rightarrow> 'p outcome) \<Rightarrow> 'p outcome" where
  "read_setting r p f = (case r of Inl e \<Rightarrow> throw e p | Inr v \<Rightarrow> f v)"

definition UdpIOPort_importXml :: "os \<Rightarrow> xml \<Rightarrow> UdpIOPort \<Rightarrow> UdpIOPort outcome" where
  "UdpIOPort_importXml os cfg u =
     read_setting (need_int cfg ''port'') u (\<lambda>port.
       let u = u\<lparr>udp_port := port, udp_host := GetAttribute cfg ''host''\<rparr> in
       read_setting (attribute_int cfg ''rxport'' 0) u (\<lambda>rxport.
         finish (u\<lparr>rxport_m := rxport, udp_fd := os_socket os\<rparr>)))"

definition UdpIOPort_exportXml :: "UdpIOPort \<Rightarrow> xml \<Rightarrow> xml" where
  "UdpIOPort_exportXml u e =
     (let e = SetAttribute ''port'' (show_int (udp_port u)) (SetAttribute ''host'' (udp_host u) (SetAttribute ''type'' ''udp'' e))
      in if rxport_m u > 0 then SetAttribute ''rxport'' (show_int (rxport_m u)) e else e)"

definition TcpClientIOPort_importXml :: "xml \<Rightarrow> TcpClientIOPort \<Rightarrow> TcpClientIOPort outcome" where
  "TcpClientIOPort_importXml cfg t =
     read_setting (need_int cfg ''port'') t (\<lambda>port.
       finish (t\<lparr>tcp_port := port, tcp_host := GetAttribute cfg ''host'',
              permanent_m := GetAttribute cfg ''permanent'' = ''true'' \<or> GetAttribute cfg ''permanent'' = ''yes''\<rparr>))"

definition TcpClientIOPort_exportXml :: "TcpClientIOPort \<Rightarrow> xml \<Rightarrow> xml" where
  "TcpClientIOPort_exportXml t e =
     (let e = SetAttribute ''port'' (show_int (tcp_port t)) (SetAttribute ''host'' (tcp_host t) (SetAttribute ''type'' ''tcp'' e))
      in if permanent_m t then SetAttribute ''permanent'' ''true'' e else e)"


text \<open>The framing is three characters: data bits, parity and stop bits; a shorter text ends with the byte 0.\<close>

definition char_at :: "string \<Rightarrow> nat \<Rightarrow> char" where
  "char_at s n = (if n < length s then s ! n else CHR 0x00)"

definition speeds :: "int list" where
  "speeds = [200, 300, 600, 1200, 1800, 2400, 4800, 9600, 19200, 38400, 57600, 115200, 230400]"

definition parse_framing :: "string \<Rightarrow> termios \<Rightarrow> termios result" where
  "parse_framing framing t =
     (let b = char_at framing 0; p = char_at framing 1; st = char_at framing 2 in
      if b \<notin> set ''5678'' then Inl (Bad_config [b])
      else if p \<notin> set ''EON'' then Inl (Bad_config [p])
      else if st \<noteq> CHR ''2'' \<and> st \<noteq> CHR ''1'' then Inl (Bad_config [st])
      else
        Inr (t\<lparr>data_bits := digit_val b,
               parity := (if p = CHR ''E'' then Even else if p = CHR ''O'' then Odd else NoParity),
               two_stop_bits := (st = CHR ''2'')\<rparr>))"

definition parse_flow :: "string \<Rightarrow> Flow result" where
  "parse_flow flow =
     (if flow = ''xon-xoff'' then Inr XonXoff
      else if flow = ''rts-cts'' then Inr RtsCts
      else if flow = ''none'' then Inr NoFlow
      else Inl (Bad_config flow))"

text \<open>A raw port has a timeout in tenths of a second and a length of messages, which are cut to a byte.\<close>

definition import_raw :: "xml \<Rightarrow> SerialIOPort \<Rightarrow> SerialIOPort outcome" where
  "import_raw cfg p =
     (if modeRaw_m p then
        read_setting (parseDuration (GetAttributeOrDefault cfg ''timeout'' ''0'') False True) p (\<lambda>timeout.
          let p = p\<lparr>timeout_m := c_div timeout 100\<rparr> in
          read_setting (attribute_int cfg ''msg-length'' 255) p (\<lambda>n. finish (p\<lparr>msglength_m := n\<rparr>)))
      else finish p)"

definition SerialIOPort_importXml :: "os \<Rightarrow> xml \<Rightarrow> SerialIOPort \<Rightarrow> SerialIOPort outcome" where
  "SerialIOPort_importXml os cfg p =
     (let p = p\<lparr>modeRaw_m := (GetAttributeOrDefault cfg ''mode'' ''text'' = ''raw'')\<rparr> in
      read_setting (need_int cfg ''speed'') p (\<lambda>speed.
      and_then (import_raw cfg p) (\<lambda>p.
        let t = \<lparr>data_bits = 0, parity = NoParity, two_stop_bits = False, flow_control = NoFlow, canonical = \<not> modeRaw_m p,
                 vtime = (if modeRaw_m p then word_of_int (timeout_m p) else 0),
                 vmin = (if modeRaw_m p then word_of_int (msglength_m p) else 0)\<rparr> in
        read_setting (parse_framing (GetAttributeOrDefault cfg ''framing'' ''8N1'') t) p (\<lambda>t.
        read_setting (parse_flow (GetAttributeOrDefault cfg ''flow'' ''none'')) p (\<lambda>flow.
        if speed \<notin> set speeds then throw (Bad_config (show_int speed)) p
        else
          (let p = p\<lparr>speed_m := speed\<rparr> in
           read_setting (need_attribute cfg ''dev'') p (\<lambda>dev.
             finish (p\<lparr>dev_m := dev, newtio_m := t\<lparr>flow_control := flow\<rparr>, serial_fd := os_open os\<rparr>))))))))"

text \<open>\<open>speed_m\<close> is the constant for the speed, which is unset before the first import that succeeds.\<close>

definition exported_speed :: "int \<Rightarrow> int" where
  "exported_speed speed = (if speed \<in> set speeds then speed else 9600)"

definition show_framing :: "termios \<Rightarrow> string" where
  "show_framing t =
     [if data_bits t \<in> {5, 6, 7} then digit_char (data_bits t) else CHR ''8'',
      case parity t of NoParity \<Rightarrow> CHR ''N'' | Odd \<Rightarrow> CHR ''O'' | Even \<Rightarrow> CHR ''E'',
      if two_stop_bits t then CHR ''2'' else CHR ''1'']"

definition show_flow :: "Flow \<Rightarrow> string" where
  "show_flow f = (case f of RtsCts \<Rightarrow> ''rts-cts'' | XonXoff \<Rightarrow> ''xon-xoff'' | NoFlow \<Rightarrow> ''none'')"

definition SerialIOPort_exportXml :: "SerialIOPort \<Rightarrow> xml \<Rightarrow> xml" where
  "SerialIOPort_exportXml p e =
     (let e = SetAttribute ''speed'' (show_int (exported_speed (speed_m p))) (SetAttribute ''dev'' (dev_m p) (SetAttribute ''type'' ''serial'' e));
          e = SetAttribute ''flow'' (show_flow (flow_control (newtio_m p))) (SetAttribute ''framing'' (show_framing (newtio_m p)) e)
      in if modeRaw_m p then
           (let e = SetAttribute ''mode'' ''raw'' e;
                e = (if timeout_m p \<noteq> 0 then SetAttribute ''timeout'' (formatDuration (timeout_m p * 100) True) e else e)
            in if msglength_m p \<noteq> 255 then SetAttribute ''msg-length'' (show_int (msglength_m p)) e else e)
         else e)"

text \<open>The virtual functions.  The base class comes before the socket is opened, and a new port listens to nothing.\<close>

definition port_outcome :: "('k \<Rightarrow> port_kind) \<Rightarrow> 'k outcome \<Rightarrow> xml \<Rightarrow> IOPort \<Rightarrow> IOPort outcome" where
  "port_outcome con r cfg io =
     (case r of
        (effs, Some e, k) \<Rightarrow> (effs, Some e, io\<lparr>io_kind := con k\<rparr>)
      | (effs, None, k) \<Rightarrow> (effs, None, IOPort_importXml cfg (io\<lparr>io_kind := con k\<rparr>)))"

definition port_importXml :: "os \<Rightarrow> xml \<Rightarrow> IOPort \<Rightarrow> IOPort outcome" where
  "port_importXml os cfg io =
     (case io_kind io of
        Udp u \<Rightarrow> port_outcome Udp (UdpIOPort_importXml os cfg u) cfg io
      | TcpClient t \<Rightarrow> port_outcome TcpClient (TcpClientIOPort_importXml cfg t) cfg io
      | Serial p \<Rightarrow> port_outcome Serial (SerialIOPort_importXml os cfg p) cfg io)"

definition port_exportXml :: "IOPort \<Rightarrow> xml \<Rightarrow> xml" where
  "port_exportXml io e =
     (let e = SetAttribute ''id'' (io_id io) e in
      case io_kind io of
        Udp u \<Rightarrow> UdpIOPort_exportXml u e
      | TcpClient t \<Rightarrow> TcpClientIOPort_exportXml t e
      | Serial p \<Rightarrow> SerialIOPort_exportXml p e)"

text \<open>\<open>IOPort::create\<close> by type; the members of the constructors, with the rest of a serial port uninitialised.\<close>

definition IOPort_new :: "SerialIOPort \<Rightarrow> string \<Rightarrow> IOPort option" where
  "IOPort_new junk type =
     map_option (\<lambda>k. \<lparr>io_id = '''', rxThread_m = None, connectListenerList_m = [], io_kind = k\<rparr>)
       (if type = '''' \<or> type = ''udp'' then Some (Udp \<lparr>udp_host = '''', udp_port = 0, rxport_m = 0, udp_fd = - 1\<rparr>)
        else if type = ''tcp'' then Some (TcpClient \<lparr>tcp_host = '''', tcp_port = 0, permanent_m = False, permanentSockfd_m = - 1\<rparr>)
        else if type = ''serial'' then Some (Serial (junk\<lparr>serial_fd := - 1\<rparr>))
        else None)"

section \<open>Access by pointer, and the listeners of a connection\<close>

definition the_port :: "ptr \<Rightarrow> 'a world_scheme \<Rightarrow> (IOPort, 'a world_scheme) run" where
  "the_port p w = (case io_ports w p of None \<Rightarrow> fail Null_deref w | Some io \<Rightarrow> return io w)"

definition set_port :: "ptr \<Rightarrow> IOPort \<Rightarrow> 'a world_scheme \<Rightarrow> 'a world_scheme" where
  "set_port p io w = w\<lparr>io_ports := (io_ports w)(p \<mapsto> io)\<rparr>"

definition change_port :: "ptr \<Rightarrow> (IOPort \<Rightarrow> IOPort) \<Rightarrow> 'a world_scheme \<Rightarrow> (unit, 'a world_scheme) run" where
  "change_port p f w = bind (the_port p w) (\<lambda>io w. return () (set_port p (f io) w))"

text \<open>
  A condition on a port is true only while it calls its listener, and then it calls it again.  Conditions with the same
  configuration are not told apart.
\<close>

definition notify_as :: "inputs \<Rightarrow> xml \<Rightarrow> bool \<Rightarrow> listener \<Rightarrow> 'a system_scheme \<Rightarrow> (unit, 'a system_scheme) run" where
  "notify_as i cfg b l s =
     (let i = i\<lparr>in_foreign := (in_foreign i)(cfg := b)\<rparr> in with_listeners (in_fuel i) i (call_listener i l None s))"

definition pulse :: "inputs \<Rightarrow> xml \<Rightarrow> listener \<Rightarrow> 'a system_scheme \<Rightarrow> (unit, 'a system_scheme) run" where
  "pulse i cfg l s = bind (notify_as i cfg True l s) (\<lambda>_. notify_as i cfg False l)"

definition ConnectCondition_onConnect :: "inputs \<Rightarrow> ptr \<Rightarrow> 'a world_scheme \<Rightarrow> (unit, 'a world_scheme) run" where
  "ConnectCondition_onConnect i c w =
     (case connect_conditions w c of
        None \<Rightarrow> fail Null_deref w
      | Some cc \<Rightarrow> (case cc_cl cc of None \<Rightarrow> fail Null_deref w | Some l \<Rightarrow> pulse i (cc_config cc) l w))"

definition onConnect :: "inputs \<Rightarrow> ptr \<Rightarrow> 'a world_scheme \<Rightarrow> (unit, 'a world_scheme) run" where
  "onConnect i p w = bind (the_port p w) (\<lambda>io. for_all (ConnectCondition_onConnect i) (connectListenerList_m io))"

section \<open>IOPortManager\<close>

definition getPort :: "string \<Rightarrow> 'a world_scheme \<Rightarrow> ptr option" where
  "getPort pid w = map_of (portMap_m w) pid"

text \<open>\<open>insert\<close> does not replace; the port is then not in the map.\<close>

definition addPort :: "ptr \<Rightarrow> 'a world_scheme \<Rightarrow> (unit, 'a world_scheme) run" where
  "addPort p w =
     bind (the_port p w) (\<lambda>io w.
       if getPort (io_id io) w = None then return () (w\<lparr>portMap_m := idm_insert (io_id io) p (portMap_m w)\<rparr>)
       else fail Duplicate_id w)"

definition delete_port :: "string \<Rightarrow> ptr \<Rightarrow> 'a world_scheme \<Rightarrow> 'a world_scheme" where
  "delete_port pid p w = w\<lparr>io_ports := (io_ports w)(p := None), portMap_m := idm_erase pid (portMap_m w)\<rparr>"

definition removePort :: "ptr \<Rightarrow> 'a world_scheme \<Rightarrow> (unit, 'a world_scheme) run" where
  "removePort p w =
     bind (the_port p w) (\<lambda>io w.
       case getPort (io_id io) w of None \<Rightarrow> return () w | Some q \<Rightarrow> return () (delete_port (io_id io) q w))"

text \<open>\<open>port->importXml\<close>; a serial device that could be opened is connected.\<close>

definition import_port :: "inputs \<Rightarrow> os \<Rightarrow> ptr \<Rightarrow> xml \<Rightarrow> 'a world_scheme \<Rightarrow> (unit, 'a world_scheme) run" where
  "import_port i os p cfg w =
     bind (the_port p w) (\<lambda>io w.
       case port_importXml os cfg io of
         (effs, Some e, io) \<Rightarrow> (effs, Inl e, set_port p io w)
       | (effs, None, io) \<Rightarrow>
           bind (effs, Inr (), set_port p io w) (\<lambda>_ w.
             case io_kind io of
               Serial s \<Rightarrow> if serial_fd s \<ge> 0 then onConnect i p w else return () w
             | _ \<Rightarrow> return () w))"

definition create_port :: "inputs \<Rightarrow> os \<Rightarrow> SerialIOPort \<Rightarrow> xml \<Rightarrow> 'a world_scheme \<Rightarrow> (ptr, 'a world_scheme) run" where
  "create_port i os junk cfg w =
     (case IOPort_new junk (GetAttribute cfg ''type'') of
        None \<Rightarrow> fail (Bad_type (GetAttribute cfg ''type'')) w
      | Some io \<Rightarrow>
          bind (new_id w) (\<lambda>p w.
          bind (import_port i os p cfg (set_port p io w)) (\<lambda>_. return p)))"

definition import_one_port :: "inputs \<Rightarrow> os \<Rightarrow> SerialIOPort \<Rightarrow> xml \<Rightarrow> 'a world_scheme \<Rightarrow> (unit, 'a world_scheme) run" where
  "import_one_port i os junk cfg w =
     (let pid = GetAttribute cfg ''id''; del = GetAttribute cfg ''delete'' = ''true'' in
      case getPort pid w of
        Some p \<Rightarrow> if del then return () (delete_port pid p w) else import_port i os p cfg w
      | None \<Rightarrow>
          if del then fail (Not_found pid) w
          else bind (create_port i os junk cfg w) (\<lambda>p w. return () (w\<lparr>portMap_m := idm_insert pid p (portMap_m w)\<rparr>)))"

definition IOPortManager_importXml :: "inputs \<Rightarrow> os \<Rightarrow> SerialIOPort \<Rightarrow> xml \<Rightarrow> 'a world_scheme \<Rightarrow> (unit, 'a world_scheme) run" where
  "IOPortManager_importXml i os junk cfg w = for_all (import_one_port i os junk) (elements ''ioport'' cfg) w"

definition IOPortManager_exportXml :: "'a world_scheme \<Rightarrow> xml \<Rightarrow> xml" where
  "IOPortManager_exportXml w e =
     foldl (\<lambda>e (_, p). case io_ports w p of None \<Rightarrow> e | Some io \<Rightarrow> LinkEndChild (port_exportXml io (Element ''ioport'' [] [])) e)
       e (portMap_m w)"

section \<open>Sending and receiving\<close>

text \<open>One call of the operating system; the ports return the number of bytes only when it took all of them.\<close>

definition write_all :: "os \<Rightarrow> int \<Rightarrow> string \<Rightarrow> 'a world_scheme \<Rightarrow> (int, 'a world_scheme) run" where
  "write_all os fd data w =
     (if fd \<ge> 0 then
        (let n = os_write os fd data; w' = w\<lparr>sent := sent w @ [(fd, take (nat n) data)]\<rparr> in
         return (if n = int (length data) then n else - 1) w')
      else return (- 1) w)"

text \<open>
  \<open>TcpClientIOPort::Socket\<close>: a permanent port keeps the descriptor, also one that could not be connected.  The result is the
  descriptor.
\<close>

definition keep_socket :: "ptr \<Rightarrow> int \<Rightarrow> 'a world_scheme \<Rightarrow> (unit, 'a world_scheme) run" where
  "keep_socket p fd w =
     change_port p (\<lambda>io. case io_kind io of
         TcpClient t \<Rightarrow> if permanent_m t then io\<lparr>io_kind := TcpClient (t\<lparr>permanentSockfd_m := fd\<rparr>)\<rparr> else io
       | _ \<Rightarrow> io) w"

definition Socket_new :: "inputs \<Rightarrow> os \<Rightarrow> ptr \<Rightarrow> TcpClientIOPort \<Rightarrow> 'a world_scheme \<Rightarrow> (int, 'a world_scheme) run" where
  "Socket_new i os p t w =
     (let fd = (if permanent_m t then permanentSockfd_m t else - 1) in
      if fd \<ge> 0 then bind (keep_socket p fd w) (\<lambda>_. return fd)
      else
        (let fd = os_socket os in
         bind (if fd \<ge> 0 \<and> os_connect os then onConnect i p w else return () w) (\<lambda>_ w.
         bind (keep_socket p fd w) (\<lambda>_. return fd))))"

definition port_send :: "inputs \<Rightarrow> os \<Rightarrow> ptr \<Rightarrow> string \<Rightarrow> 'a world_scheme \<Rightarrow> (int, 'a world_scheme) run" where
  "port_send i os p data w =
     bind (the_port p w) (\<lambda>io w.
       case io_kind io of
         Udp u \<Rightarrow> write_all os (udp_fd u) data w
       | TcpClient t \<Rightarrow> bind (Socket_new i os p t w) (\<lambda>fd. write_all os fd data)
       | Serial s \<Rightarrow> write_all os (serial_fd s) data w)"

text \<open>
  \<open>TcpClientIOPort::get\<close> reads until there is data or the thread is stopped: a round is what the operating system answers, the
  data, if any, and whether the stop has been signalled.
\<close>

record round =
  rd_os :: os
  rd_read :: "string option"
  rd_stop :: bool

datatype got = Got string | Aborted | Waiting

fun tcp_get :: "inputs \<Rightarrow> ptr \<Rightarrow> round list \<Rightarrow> 'a world_scheme \<Rightarrow> (got, 'a world_scheme) run" where
  "tcp_get i p [] w = return Waiting w"
| "tcp_get i p (r # rs) w =
     bind (the_port p w) (\<lambda>io w.
       case io_kind io of
         TcpClient t \<Rightarrow>
           bind (Socket_new i (rd_os r) p t w) (\<lambda>fd w.
             case (if fd \<ge> 0 then rd_read r else None) of
               Some data \<Rightarrow> return (Got data) w
             | None \<Rightarrow> if rd_stop r then return Aborted w else tcp_get i p rs w)
       | _ \<Rightarrow> return Aborted w)"

end
