(* ===== verification/PortListeners.thy ===== *)
theory PortListeners
  imports IOPorts
begin

text \<open>
  src/ioport.cpp: what listens and sends on the ports, the thread that hands out what is received, the action that sends
  (\<open>TxAction\<close>), the condition on received data (\<open>RxCondition\<close>) and the one on connections (\<open>ConnectCondition\<close>).
\<close>

section \<open>TxAction\<close>

text \<open>The bits of \<open>varFlags_m\<close> are those of the other actions: 1 (enabled) and 2 (the data).\<close>

record TxAction =
  tx_port :: string
  data_m :: string
  varFlags_m :: int
  hex_m :: bool

text \<open>Two characters at a time; what is no number is 0, and a sign is accepted.\<close>

definition hex_byte :: "string \<Rightarrow> char" where
  "hex_byte s = char_of (nat ((case get_signed 32 16 s of None \<Rightarrow> 0 | Some (v, _) \<Rightarrow> v) mod 256))"

fun parse_hex :: "string \<Rightarrow> string" where
  "parse_hex [] = []"
| "parse_hex [a] = [hex_byte [a]]"
| "parse_hex (a # b # s) = hex_byte [a, b] # parse_hex s"

text \<open>\<open>std::setw (2)\<close> with zeros; \<open>char\<close> is signed, so a byte from 0x80 on is printed as a negative \<open>int\<close>.\<close>

definition print_signed :: "char \<Rightarrow> string" where
  "print_signed c = pad0 2 (show_base 16 (unat (word_of_int (sint (byte_of c)) :: u32)))"

definition print_hex :: "string \<Rightarrow> string" where
  "print_hex data = concat (map print_signed data)"

definition TxAction_importXml :: "inputs \<Rightarrow> xml \<Rightarrow> 'a world_scheme \<Rightarrow> (TxAction, 'a world_scheme) run" where
  "TxAction_importXml i cfg w =
     (let port = GetAttribute cfg ''ioport''; data = GetAttribute cfg ''data'' in
      if getPort port w = None then fail (Bad_config port) w
      else if GetAttributeOrDefault cfg ''hex'' ''false'' \<noteq> ''false'' then
        return \<lparr>tx_port = port, data_m = parse_hex data, varFlags_m = 0, hex_m = True\<rparr> w
      else
        bind (if GetAttribute cfg ''var'' = ''true'' then var_flag i 2 data 1 w else return 0 w) (\<lambda>flags.
          return \<lparr>tx_port = port, data_m = data, varFlags_m = flags, hex_m = False\<rparr>))"

definition TxAction_exportXml :: "TxAction \<Rightarrow> int \<Rightarrow> xml \<Rightarrow> xml" where
  "TxAction_exportXml a delay e =
     (let e = SetAttribute ''type'' ''ioport-tx'' e;
          e = (if hex_m a then SetAttribute ''data'' (print_hex (data_m a)) (SetAttribute ''data'' (data_m a) (SetAttribute ''hex'' ''true'' e))
               else SetAttribute ''data'' (data_m a) e)
      in Action_exportXml delay (export_var (varFlags_m a) (SetAttribute ''ioport'' (tx_port a) e)))"

text \<open>What a port did not take is sent again, unless it failed.\<close>

function send_rest :: "inputs \<Rightarrow> os \<Rightarrow> ptr \<Rightarrow> string \<Rightarrow> 'a world_scheme \<Rightarrow> (unit, 'a world_scheme) run" where
  "send_rest i os p data w =
     bind (port_send i os p data w) (\<lambda>ret w.
       if ret < int (length data) then
         (if ret \<le> 0 then fail (Refused ''Unable to send data.'') w else send_rest i os p (drop (nat ret) data) w)
       else return () w)"
  by pat_completeness auto
termination by (relation "measure (\<lambda>(i, os, p, data, w). length data)") auto

definition sendData :: "inputs \<Rightarrow> os \<Rightarrow> ptr \<Rightarrow> TxAction \<Rightarrow> 'a world_scheme \<Rightarrow> (unit, 'a world_scheme) run" where
  "sendData i os p a w = bind (var_text i 2 (varFlags_m a) (data_m a) w) (\<lambda>data. send_rest i os p data)"

text \<open>\<open>Run\<close>, after the delay.\<close>

definition TxAction_Run :: "inputs \<Rightarrow> os \<Rightarrow> TxAction \<Rightarrow> 'a world_scheme \<Rightarrow> (unit, 'a world_scheme) run" where
  "TxAction_Run i os a w =
     catch (case getPort (tx_port a) w of
        None \<Rightarrow> fail (Not_found (tx_port a)) w
      | Some p \<Rightarrow> sendData i os p a w)"

section \<open>RxCondition\<close>

definition the_rx :: "ptr \<Rightarrow> 'a world_scheme \<Rightarrow> (RxCondition, 'a world_scheme) run" where
  "the_rx c w = (case rx_conditions w c of None \<Rightarrow> fail Null_deref w | Some rc \<Rightarrow> return rc w)"

definition set_rx :: "ptr \<Rightarrow> RxCondition \<Rightarrow> 'a world_scheme \<Rightarrow> 'a world_scheme" where
  "set_rx c rc w = w\<lparr>rx_conditions := (rx_conditions w)(c \<mapsto> rc)\<rparr>"

definition group_name :: "nat \<Rightarrow> string" where
  "group_name n = ''object'' @ show_base 10 n"

text \<open>The objects of the groups, from group \<open>n\<close> on; those found before an exception keep their reference.\<close>

fun import_groups :: "ptr \<Rightarrow> xml \<Rightarrow> nat list \<Rightarrow> 'a world_scheme \<Rightarrow> (unit, 'a world_scheme) run" where
  "import_groups c cfg [] w = return () w"
| "import_groups c cfg (n # ns) w =
     (let oid = GetAttributeOrDefault cfg (group_name n) '''' in
      if oid = '''' then import_groups c cfg ns w
      else
        bind (lookup oid w) (\<lambda>q w.
        bind (the_rx c w) (\<lambda>rc w.
          import_groups c cfg ns (set_rx c (rc\<lparr>rc_objects := (rc_objects rc)[n := Some q]\<rparr>) w))))"

definition RxCondition_importXml :: "inputs \<Rightarrow> os \<Rightarrow> ptr \<Rightarrow> xml \<Rightarrow> 'a world_scheme \<Rightarrow> (unit, 'a world_scheme) run" where
  "RxCondition_importXml i os c cfg w =
     bind (the_rx c w) (\<lambda>rc w.
       if rc_cl rc = None then fail Bad_trigger w
       else
         (let pid = GetAttribute cfg ''ioport''; e = GetAttribute cfg ''expected'';
              rc = rc\<lparr>rc_config := cfg, rc_port := pid, exp_m := e\<rparr>; w = set_rx c rc w in
          case getPort pid w of
            None \<Rightarrow> fail (Bad_config pid) w
          | Some p \<Rightarrow>
              bind (change_port p (IOPort_addListener c) w) (\<lambda>_ w.
                let rc = rc\<lparr>regexFlag_m := GetAttributeOrDefault cfg ''regex'' ''false'' \<noteq> ''false'',
                            rc_hex := GetAttributeOrDefault cfg ''hex'' ''false'' \<noteq> ''false''\<rparr>;
                    w = set_rx c rc w in
                if regexFlag_m rc then
                  (case os_regcomp os e of
                     None \<Rightarrow> fail (Bad_config e) w
                   | Some n \<Rightarrow> import_groups c cfg [0..<Suc n] (set_rx c (rc\<lparr>rc_objects := replicate (Suc n) None\<rparr>) w))
                else return () w)))"

fun export_groups :: "'a world_scheme \<Rightarrow> nat \<Rightarrow> ptr option list \<Rightarrow> xml \<Rightarrow> xml" where
  "export_groups w n [] e = e"
| "export_groups w n (q # qs) e =
     export_groups w (Suc n) qs
       (case q of None \<Rightarrow> e
        | Some p \<Rightarrow> (case heap (objects w) p of None \<Rightarrow> e | Some obj \<Rightarrow> SetAttribute (group_name n) (id_m obj) e))"

definition RxCondition_exportXml :: "'a world_scheme \<Rightarrow> RxCondition \<Rightarrow> xml \<Rightarrow> xml" where
  "RxCondition_exportXml w rc e =
     (let e = SetAttribute ''expected'' (exp_m rc) (SetAttribute ''type'' ''ioport-rx'' e);
          e = (if rc_hex rc then SetAttribute ''hex'' ''true'' e else e);
          e = (if regexFlag_m rc then SetAttribute ''regex'' ''true'' e else e)
      in SetAttribute ''ioport'' (rc_port rc) (export_groups w 0 (rc_objects rc) e))"

definition RxCondition_statusXml :: "RxCondition \<Rightarrow> xml \<Rightarrow> xml" where
  "RxCondition_statusXml rc e = SetAttribute ''ioport'' (rc_port rc) (SetAttribute ''type'' ''ioport-rx'' e)"

definition RxCondition_delete :: "ptr \<Rightarrow> 'a world_scheme \<Rightarrow> (unit, 'a world_scheme) run" where
  "RxCondition_delete c w =
     bind (the_rx c w) (\<lambda>rc w.
     bind (case getPort (rc_port rc) w of None \<Rightarrow> return () w | Some p \<Rightarrow> change_port p (IOPort_removeListener c) w) (\<lambda>_ w.
     bind (for_all (\<lambda>q w. case q of None \<Rightarrow> return () w | Some q \<Rightarrow> release q w) (rc_objects rc) w) (\<lambda>_ w.
       return () (w\<lparr>rx_conditions := (rx_conditions w)(c := None)\<rparr>))))"

text \<open>The text a condition compares: the bytes, which are unsigned here, in hexadecimal or as they are.\<close>

definition received_text :: "RxCondition \<Rightarrow> string \<Rightarrow> string" where
  "received_text rc buf = (if rc_hex rc then concat (map (\<lambda>c. pad0 2 (show_base 16 (of_char c))) buf) else buf)"

text \<open>The value for the object of a group; of no digits, \<open>value\<close> is not set.\<close>

definition group_value :: "os \<Rightarrow> RxCondition \<Rightarrow> string \<Rightarrow> string" where
  "group_value os rc text =
     (if rc_hex rc \<and> length text \<le> 8
      then show_int (if text = '''' then uint (os_junk os) else case get_unsigned 32 16 text of None \<Rightarrow> 0 | Some (v, _) \<Rightarrow> v)
      else text)"

definition set_group :: "inputs \<Rightarrow> os \<Rightarrow> RxCondition \<Rightarrow> string \<Rightarrow> (nat \<times> nat) option \<times> ptr option \<Rightarrow> 'a world_scheme \<Rightarrow> (unit, 'a world_scheme) run" where
  "set_group i os rc rx m w =
     (case m of
        (Some (so, eo), Some q) \<Rightarrow> catch (set_string i q (group_value os rc (take (eo - so) (drop so rx))) w)
      | _ \<Rightarrow> return () w)"

text \<open>The expected text is a prefix: what is received is cut, or filled with zeros; a regular expression sees the text up to a zero.\<close>

definition onDataReceived :: "inputs \<Rightarrow> os \<Rightarrow> string \<Rightarrow> ptr \<Rightarrow> 'a world_scheme \<Rightarrow> (unit, 'a world_scheme) run" where
  "onDataReceived i os buf c w =
     bind (the_rx c w) (\<lambda>rc w.
       let rx = received_text rc buf; z = takeWhile (\<lambda>c. c \<noteq> CHR 0x00) rx in
       case rc_cl rc of
         None \<Rightarrow> return () w
       | Some l \<Rightarrow>
           if regexFlag_m rc then
             (case os_regexec os (exp_m rc) z of
                None \<Rightarrow> return () w
              | Some ms \<Rightarrow>
                  bind (for_all (set_group i os rc z) (zip ms (rc_objects rc)) w) (\<lambda>_. pulse i (rc_config rc) l))
           else if take (length (exp_m rc)) (rx @ replicate (length (exp_m rc)) (CHR 0x00)) = exp_m rc
           then pulse i (rc_config rc) l w
           else return () w)"

section \<open>The receiving thread\<close>

text \<open>\<open>Run\<close> hands each piece of data a port gets to the listeners the thread has then.\<close>

definition hand_out :: "inputs \<Rightarrow> os \<Rightarrow> ptr \<Rightarrow> string \<Rightarrow> 'a world_scheme \<Rightarrow> (unit, 'a world_scheme) run" where
  "hand_out i os p buf w =
     bind (the_port p w) (\<lambda>io w.
       case rxThread_m io of None \<Rightarrow> return () w | Some t \<Rightarrow> for_all (onDataReceived i os buf) (rx_listeners t) w)"

definition RxThread_Run :: "inputs \<Rightarrow> os \<Rightarrow> ptr \<Rightarrow> string list \<Rightarrow> 'a world_scheme \<Rightarrow> (unit, 'a world_scheme) run" where
  "RxThread_Run i os p bufs w = for_all (hand_out i os p) bufs w"

section \<open>ConnectCondition\<close>

text \<open>A TCP port must be permanent.\<close>

definition ConnectCondition_importXml :: "ptr \<Rightarrow> xml \<Rightarrow> 'a world_scheme \<Rightarrow> (unit, 'a world_scheme) run" where
  "ConnectCondition_importXml c cfg w =
     (case connect_conditions w c of
        None \<Rightarrow> fail Null_deref w
      | Some cc \<Rightarrow>
          if cc_cl cc = None then fail Bad_trigger w
          else
            (let pid = GetAttribute cfg ''ioport'';
                 w = w\<lparr>connect_conditions := (connect_conditions w)(c \<mapsto> cc\<lparr>cc_config := cfg, cc_port := pid\<rparr>)\<rparr> in
             case getPort pid w of
               None \<Rightarrow> fail (Bad_config pid) w
             | Some p \<Rightarrow>
                 bind (the_port p w) (\<lambda>io w.
                   if \<not> mustConnect (io_kind io) then fail (Bad_config pid) w
                   else if (case io_kind io of TcpClient t \<Rightarrow> \<not> permanent_m t | _ \<Rightarrow> False) then fail (Bad_config pid) w
                   else change_port p (addConnectListener c) w)))"

definition ConnectCondition_exportXml :: "ConnectCondition \<Rightarrow> xml \<Rightarrow> xml" where
  "ConnectCondition_exportXml cc e = SetAttribute ''ioport'' (cc_port cc) (SetAttribute ''type'' ''ioport-connect'' e)"

definition ConnectCondition_statusXml :: "ConnectCondition \<Rightarrow> xml \<Rightarrow> xml" where
  "ConnectCondition_statusXml cc e = SetAttribute ''ioport'' (cc_port cc) (SetAttribute ''type'' ''ioport-connect'' e)"

definition ConnectCondition_delete :: "ptr \<Rightarrow> 'a world_scheme \<Rightarrow> (unit, 'a world_scheme) run" where
  "ConnectCondition_delete c w =
     (case connect_conditions w c of
        None \<Rightarrow> fail Null_deref w
      | Some cc \<Rightarrow>
          bind (case getPort (cc_port cc) w of None \<Rightarrow> return () w | Some p \<Rightarrow> change_port p (removeConnectListener c) w) (\<lambda>_ w.
            return () (w\<lparr>connect_conditions := (connect_conditions w)(c := None)\<rparr>)))"

end
