(* ===== verification/IO_Laws.thy ===== *)
theory IO_Laws
  imports PortListeners Run_Laws
begin

text \<open>What the IO ports guarantee: the texts of their data, the configuration of a serial port, the pulse a condition on received
  data gives to its rule, and what becomes of connections and listeners.\<close>

section \<open>Data in hexadecimal\<close>

lemma parse_hex_append: "even (length xs) \<Longrightarrow> parse_hex (xs @ ys) = parse_hex xs @ parse_hex ys"
  by (induction xs rule: parse_hex.induct) auto

lemma show_base_16_step: "0 < m \<Longrightarrow> r < 16 \<Longrightarrow> show_base 16 (m * 16 + r) = show_base 16 m @ [digit_char r]"
  by (subst show_base.simps) simp

lemma two_digits: "n < 256 \<Longrightarrow> pad0 2 (show_base 16 n) = [digit_char (n div 16), digit_char (n mod 16)]"
proof -
  have "digit_char 0 = CHR ''0''" by code_simp
  then show "n < 256 \<Longrightarrow> pad0 2 (show_base 16 n) = [digit_char (n div 16), digit_char (n mod 16)]"
    by (cases "n < 16")
      (simp_all add: show_base.simps [of 16 n] show_base.simps [of 16 "n div 16"] pad0_def numeral_2_eq_2 less_mult_imp_div_less)
qed

lemma hex_byte_digits:
  assumes "n < 256"
  shows "hex_byte [digit_char (n div 16), digit_char (n mod 16)] = char_of n"
proof -
  have "get_signed 32 16 (pad0 2 (show_base 16 n)) = Some (int n, [])"
    using assms by (simp add: get_signed_def scan_num_hex_pad)
  then show ?thesis using assms by (simp add: hex_byte_def two_digits)
qed

text \<open>What comes back of one byte.\<close>

definition reread :: "char \<Rightarrow> string" where
  "reread c = (if of_char c < (128 :: nat) then [c] else [CHR 0xFF, CHR 0xFF, CHR 0xFF, c])"

lemma print_signed_low: "of_char c < (128 :: nat) \<Longrightarrow> print_signed c = [digit_char (of_char c div 16), digit_char (of_char c mod 16)]"
proof -
  assume c: "of_char c < (128 :: nat)"
  then have "sint (byte_of c) = int (of_char c)"
    by (simp add: byte_of_def sint_uint take_bit_eq_mod unsigned_of_nat signed_take_bit_int_eq_self)
  then show ?thesis using c by (simp add: print_signed_def two_digits unsigned_of_nat take_bit_nat_eq_self)
qed

lemma print_signed_high:
  assumes "\<not> of_char c < (128 :: nat)"
  shows "print_signed c = ''ffffff'' @ [digit_char (of_char c div 16), digit_char (of_char c mod 16)]"
proof -
  define n :: nat where "n = of_char c"
  have n: "128 \<le> n" "n < 256" using assms by (simp_all add: n_def)
  have "(int n + 128) mod 256 = int n + 128 - 256"
    using n mod_pos_pos_trivial [of "int n - 128" 256] mod_add_self2 [of "int n - 128" 256] by (simp add: add.commute)
  then have "sint (byte_of c) = int n - 256"
    using n by (simp add: byte_of_def n_def [symmetric] sint_uint unsigned_of_nat take_bit_nat_eq_self signed_take_bit_eq_take_bit_shift take_bit_eq_mod)
  then have "uint (word_of_int (sint (byte_of c)) :: u32) = (int n - 256) mod 2 ^ 32"
    by (simp only: uint_word_of_int) simp
  also have "\<dots> = int n - 256 + 2 ^ 32"
    using n mod_pos_pos_trivial [of "int n - 256 + 2 ^ 32" "2 ^ 32"] mod_add_self2 [of "int n - 256" "2 ^ 32"] by simp
  also have "\<dots> = int ((0xFFFFFF * 16 + n div 16) * 16 + n mod 16)" by simp
  finally have "unat (word_of_int (sint (byte_of c)) :: u32) = (0xFFFFFF * 16 + n div 16) * 16 + n mod 16"
    by (simp only: unat_eq_nat_uint nat_int)
  moreover have "digit_char 15 = CHR ''f''" by code_simp
  then have "show_base 16 0xFFFFFF = ''ffffff''" by (simp add: show_base.simps [of 16 "numeral k" for k])
  moreover have "show_base 16 ((0xFFFFFF * 16 + n div 16) * 16 + n mod 16) = show_base 16 0xFFFFFF @ [digit_char (n div 16), digit_char (n mod 16)]"
    using n show_base_16_step [of "0xFFFFFF * 16 + n div 16" "n mod 16"] show_base_16_step [of "0xFFFFFF" "n div 16"]
    by (simp only: append.assoc) (simp add: less_mult_imp_div_less)
  ultimately show ?thesis
    unfolding print_signed_def n_def [symmetric] by (simp only:) (simp add: pad0_def)
qed

lemma parse_print_byte: "parse_hex (print_signed c @ s) = reread c @ parse_hex s"
proof -
  have "char_of (255 :: nat) = CHR 0xFF" by code_simp
  then have ff: "hex_byte ''ff'' = CHR 0xFF" by (simp add: hex_byte_def scan_defs)
  have "hex_byte [digit_char (of_char c div 16), digit_char (of_char c mod 16)] = c"
    using hex_byte_digits [of "of_char c"] by simp
  then show ?thesis
    by (cases "of_char c < (128 :: nat)") (simp_all add: print_signed_low print_signed_high reread_def ff)
qed

lemma parse_print_hex: "parse_hex (print_hex data) = concat (map reread data)"
  by (induction data) (simp_all add: print_hex_def parse_print_byte)

lemma reread_same_iff: "concat (map reread data) = data \<longleftrightarrow> (\<forall>c \<in> set data. of_char c < (128 :: nat))"
proof
  assume same: "concat (map reread data) = data"
  have "length (concat (map reread data)) = length data + 3 * length (filter (\<lambda>c. \<not> of_char c < (128 :: nat)) data)"
    by (induction data) (simp_all add: reread_def)
  with same show "\<forall>c \<in> set data. of_char c < (128 :: nat)" by (simp add: filter_empty_conv)
next
  assume "\<forall>c \<in> set data. of_char c < (128 :: nat)"
  then show "concat (map reread data) = data" by (induction data) (simp_all add: reread_def)
qed

text \<open>
   The configuration an action on a port writes of its data in hexadecimal is read back as the same action exactly when no byte
  has its top bit set: such a byte is written as the eight digits of a negative number and read as four bytes.
\<close>

theorem hex_action_roundtrip_iff:
  assumes "hex_m a" and "varFlags_m a = 0" and "getPort (tx_port a) w \<noteq> None" and "is_element e"
  shows "TxAction_importXml i (TxAction_exportXml a delay e) w = return a w \<longleftrightarrow> (\<forall>c \<in> set (data_m a). of_char c < (128 :: nat))"
proof -
  have "TxAction_importXml i (TxAction_exportXml a delay e) w = return (a\<lparr>data_m := concat (map reread (data_m a))\<rparr>) w"
    using assms
    by (cases a) (auto simp: TxAction_importXml_def TxAction_exportXml_def Action_exportXml_def export_var_def GetAttribute_def
        GetAttributeOrDefault_def parse_print_hex Let_def)
  then show ?thesis
    by (simp add: return_def reread_same_iff [symmetric]) (metis TxAction.surjective TxAction.update_convs(2) TxAction.select_convs(2))
qed

definition empty_world :: world where
  "empty_world = system.extend (plain_system ObjectController_new)
     \<lparr>io_ports = (\<lambda>_. None), portMap_m = [], rx_conditions = (\<lambda>_. None), connect_conditions = (\<lambda>_. None), sent = []\<rparr>"

theorem hex_action_roundtrip_iff_witness:
  "TxAction_importXml plain_inputs (TxAction_exportXml \<lparr>tx_port = ''p'', data_m = [CHR 0x02, CHR 0x80], varFlags_m = 0, hex_m = True\<rparr> 0 (Element ''action'' [] []))
     (empty_world\<lparr>portMap_m := [(''p'', 0)]\<rparr>)
   \<noteq> return \<lparr>tx_port = ''p'', data_m = [CHR 0x02, CHR 0x80], varFlags_m = 0, hex_m = True\<rparr> (empty_world\<lparr>portMap_m := [(''p'', 0)]\<rparr>)"
proof -
  have "\<not> (of_char (CHR 0x80) < (128 :: nat))" by code_simp
  then show ?thesis
    by (subst hex_action_roundtrip_iff) (simp_all add: getPort_def)
qed

section \<open>The configuration of a serial port\<close>

text \<open>The settings an import can leave: a speed and a framing of the tables, and control characters that hold what was configured.\<close>

definition serial_settings :: "SerialIOPort \<Rightarrow> bool" where
  "serial_settings p \<longleftrightarrow>
     speed_m p \<in> set speeds \<and> data_bits (newtio_m p) \<in> {5, 6, 7, 8} \<and> canonical (newtio_m p) = (\<not> modeRaw_m p)
     \<and> vtime (newtio_m p) = (if modeRaw_m p then word_of_int (timeout_m p) else 0)
     \<and> vmin (newtio_m p) = (if modeRaw_m p then word_of_int (msglength_m p) else 0)
     \<and> (modeRaw_m p \<longrightarrow> 0 \<le> timeout_m p \<and> timeout_m p * 100 < 2 ^ 31 \<and> - (2 ^ 31) \<le> msglength_m p \<and> msglength_m p < 2 ^ 31)"

lemma speed_text: "v \<in> set speeds \<Longrightarrow> get_int (show_int (exported_speed v)) = Some (v, [])"
  by (subst get_int_show) (auto simp: exported_speed_def speeds_def)

lemma parse_show_framing:
  assumes "data_bits t \<in> {5, 6, 7, 8}"
  shows "parse_framing (show_framing t) t' = Inr (t'\<lparr>data_bits := data_bits t, parity := parity t, two_stop_bits := two_stop_bits t\<rparr>)"
proof -
  have "digit_char 5 = CHR ''5''" "digit_char 6 = CHR ''6''" "digit_char 7 = CHR ''7''" by code_simp+
  then show ?thesis
    using assms by (cases "parity t") (auto simp: parse_framing_def show_framing_def char_at_def digit_val_def Let_def)
qed

lemma parse_show_flow: "parse_flow (show_flow f) = Inr f"
  by (cases f) (simp_all add: parse_flow_def show_flow_def)

lemma parse_timeout:
  "0 \<le> k \<Longrightarrow> k * 100 < 2 ^ 31 \<Longrightarrow> parseDuration (formatDuration (k * 100) True) False True = Inr (k * 100)"
  by (rule parse_format_duration) auto

lemma parse_0: "parseDuration ''0'' False True = Inr 0"
proof -
  have "show_int 0 = ''0''" by code_simp
  then show ?thesis using parseDuration_show [of 0 False "[]" True] by (simp add: s32_id)
qed

text \<open>What a raw port reads back, and what the import makes of a speed, a framing and a flow control that were exported.\<close>

lemma import_raw_exported:
  assumes "serial_settings p" and "attribute cfg ''timeout'' = (if modeRaw_m p \<and> timeout_m p \<noteq> 0 then Some (formatDuration (timeout_m p * 100) True) else None)"
    and "attribute cfg ''msg-length'' = (if modeRaw_m p \<and> msglength_m p \<noteq> 255 then Some (show_int (msglength_m p)) else None)"
    and "modeRaw_m q = modeRaw_m p" and "modeRaw_m p \<or> timeout_m q = timeout_m p \<and> msglength_m q = msglength_m p"
  shows "import_raw cfg q = finish (q\<lparr>timeout_m := timeout_m p, msglength_m := msglength_m p\<rparr>)"
proof (cases "modeRaw_m p")
  case True
  have "parseDuration (GetAttributeOrDefault cfg ''timeout'' ''0'') False True = Inr (timeout_m p * 100)"
    using assms(1,2) True parse_timeout [of "timeout_m p"] parse_0
    by (cases "timeout_m p = 0") (simp_all add: GetAttributeOrDefault_def serial_settings_def)
  moreover have "attribute_int cfg ''msg-length'' 255 = Inr (msglength_m p)"
    using assms(1,3) True get_int_show [of "msglength_m p"] by (auto simp: attribute_int_def serial_settings_def)
  ultimately show ?thesis using assms(4) True by (simp add: import_raw_def read_setting_def c_div_mult_self)
next
  case False
  then show ?thesis using assms(4,5) by (cases q) (auto simp: import_raw_def)
qed

text \<open>
   A serial port that is configured again with what it has exported opens its device with the same settings, whatever it was
  configured with before; a port in text mode keeps its timeout and length, which it does not use.
\<close>

theorem serial_config_roundtrip:
  assumes "serial_settings p" and "modeRaw_m p \<or> timeout_m q = timeout_m p \<and> msglength_m q = msglength_m p"
  shows "SerialIOPort_importXml os (SerialIOPort_exportXml p (Element name [(''id'', pid)] [])) q = finish (p\<lparr>serial_fd := os_open os\<rparr>)"
proof -
  define cfg where "cfg = SerialIOPort_exportXml p (Element name [(''id'', pid)] [])"
  have att: "attribute cfg ''speed'' = Some (show_int (exported_speed (speed_m p)))" "attribute cfg ''dev'' = Some (dev_m p)"
    "attribute cfg ''framing'' = Some (show_framing (newtio_m p))" "attribute cfg ''flow'' = Some (show_flow (flow_control (newtio_m p)))"
    "attribute cfg ''mode'' = (if modeRaw_m p then Some ''raw'' else None)"
    "attribute cfg ''timeout'' = (if modeRaw_m p \<and> timeout_m p \<noteq> 0 then Some (formatDuration (timeout_m p * 100) True) else None)"
    "attribute cfg ''msg-length'' = (if modeRaw_m p \<and> msglength_m p \<noteq> 255 then Some (show_int (msglength_m p)) else None)"
    by (simp_all add: cfg_def SerialIOPort_exportXml_def Let_def attribute_def)
  have raw: "import_raw cfg (q\<lparr>modeRaw_m := modeRaw_m p\<rparr>) = finish (q\<lparr>modeRaw_m := modeRaw_m p, timeout_m := timeout_m p, msglength_m := msglength_m p\<rparr>)"
    using import_raw_exported [OF assms(1) att(6,7), of "q\<lparr>modeRaw_m := modeRaw_m p\<rparr>"] assms(2) by simp
  have mode: "(GetAttributeOrDefault cfg ''mode'' ''text'' = ''raw'') = modeRaw_m p" using att(5) by (simp add: GetAttributeOrDefault_def)
  have speed: "need_int cfg ''speed'' = Inr (speed_m p)" "speed_m p \<in> set speeds"
    using assms(1) att(1) speed_text by (auto simp: need_int_def serial_settings_def)
  have bits: "data_bits (newtio_m p) \<in> {5, 6, 7, 8}" using assms(1) by (simp add: serial_settings_def)
  have same: "\<lparr>data_bits = data_bits (newtio_m p), parity = parity (newtio_m p), two_stop_bits = two_stop_bits (newtio_m p),
      flow_control = flow_control (newtio_m p), canonical = \<not> modeRaw_m p,
      vtime = (if modeRaw_m p then word_of_int (timeout_m p) else 0), vmin = (if modeRaw_m p then word_of_int (msglength_m p) else 0)\<rparr> = newtio_m p"
    using assms(1) by (cases "newtio_m p") (simp add: serial_settings_def)
  show ?thesis
    unfolding cfg_def [symmetric] SerialIOPort_importXml_def Let_def mode read_setting_def raw
    by (simp add: speed raw att(2,3,4) GetAttributeOrDefault_def need_attribute_def parse_show_framing [OF bits] parse_show_flow
        and_then_def finish_def same SerialIOPort.equality split del: if_split cong: if_cong)
qed

theorem serial_config_roundtrip_witness:
  "\<exists>os q p. timeout_m p = 15 \<and> speed_m p = 115200 \<and>
     SerialIOPort_importXml os (SerialIOPort_exportXml p (Element ''ioport'' [(''id'', ''bus'')] [])) q = finish (p\<lparr>serial_fd := os_open os\<rparr>)"
proof -
  define p where "p = \<lparr>dev_m = ''/dev/ttyS0'', speed_m = 115200, modeRaw_m = True, timeout_m = 15, msglength_m = 8,
    newtio_m = \<lparr>data_bits = 7, parity = Even, two_stop_bits = True, flow_control = RtsCts, canonical = False, vtime = 15, vmin = 8\<rparr>, serial_fd = 3\<rparr>"
  have "serial_settings p" by (simp add: p_def serial_settings_def speeds_def)
  moreover have "modeRaw_m p" "timeout_m p = 15" "speed_m p = 115200" by (simp_all add: p_def)
  ultimately show ?thesis using serial_config_roundtrip [of p] by blast
qed

section \<open>Connections and listeners\<close>

text \<open>
  C29.  A permanent TCP port that could not connect keeps its socket: from then on, whatever the network does, it sends to that
  descriptor, and its receiving thread reads it again and again until it is stopped; it never connects.
\<close>

theorem failed_connection_is_kept:
  assumes "io_ports w p = Some io" and "io_kind io = TcpClient t" and "permanent_m t" and "permanentSockfd_m t < 0"
    and "os_socket os \<ge> 0" and "\<not> os_connect os"
  shows "\<exists>w1. Socket_new i os p t w = return (os_socket os) w1
     \<and> (\<forall>os' data. port_send i os' p data w1 = write_all os' (os_socket os) data w1)
     \<and> (\<forall>rs. list_all (\<lambda>r. rd_read r = None \<and> \<not> rd_stop r) rs \<longrightarrow> tcp_get i p rs w1 = return Waiting w1)"
proof (intro exI conjI allI impI)
  let ?t = "t\<lparr>permanentSockfd_m := os_socket os\<rparr>"
  let ?w = "set_port p (io\<lparr>io_kind := TcpClient ?t\<rparr>) w"
  have port: "the_port p ?w = return (io\<lparr>io_kind := TcpClient ?t\<rparr>) ?w" by (simp add: the_port_def set_port_def)
  show "Socket_new i os p t w = return (os_socket os) ?w"
    using assms by (simp add: Socket_new_def Let_def keep_socket_def change_port_def the_port_def)
  have same: "set_port p (io\<lparr>io_kind := TcpClient ?t\<rparr>) ?w = ?w" by (simp add: set_port_def)
  have again: "Socket_new i os' p ?t ?w = return (os_socket os) ?w" for os'
    using assms(3,5) same by (simp add: Socket_new_def keep_socket_def change_port_def port Let_def)
  show "port_send i os' p data ?w = write_all os' (os_socket os) data ?w" for os' data
    by (simp add: port_send_def port again)
  show "tcp_get i p rs ?w = return Waiting ?w" if "list_all (\<lambda>r. rd_read r = None \<and> \<not> rd_stop r) rs" for rs
    using that by (induction rs) (simp_all add: port again)
qed

text \<open>An operating system for examples: nothing can be connected, and everything is written.\<close>

definition offline :: os where
  "offline = \<lparr>os_socket = 4, os_open = 3, os_connect = False, os_write = (\<lambda>_ data. int (length data)),
     os_regcomp = (\<lambda>_. None), os_regexec = (\<lambda>_ _. None), os_junk = 0\<rparr>"

definition some_port :: "port_kind \<Rightarrow> IOPort" where
  "some_port k = \<lparr>io_id = ''p'', rxThread_m = Some \<lparr>rx_listeners = [5], rx_runs = True\<rparr>, connectListenerList_m = [], io_kind = k\<rparr>"

theorem failed_connection_is_kept_witness:
  "\<exists>(t :: TcpClientIOPort) (w1 :: world).
     Socket_new plain_inputs offline 0 t (empty_world\<lparr>io_ports := [0 \<mapsto> some_port (TcpClient t)]\<rparr>) = return 4 w1
     \<and> tcp_get plain_inputs 0 [\<lparr>rd_os = offline\<lparr>os_connect := True\<rparr>, rd_read = None, rd_stop = False\<rparr>] w1 = return Waiting w1"
proof -
  define t where "t = \<lparr>tcp_host = ''10.0.0.1'', tcp_port = 80, permanent_m = True, permanentSockfd_m = - 1\<rparr>"
  let ?w = "empty_world\<lparr>io_ports := [0 \<mapsto> some_port (TcpClient t)]\<rparr>"
  have "io_ports ?w 0 = Some (some_port (TcpClient t))" "io_kind (some_port (TcpClient t)) = TcpClient t" "permanent_m t" "permanentSockfd_m t < 0"
    "os_socket offline \<ge> 0" "\<not> os_connect offline"
    by (simp_all add: t_def some_port_def offline_def)
  from failed_connection_is_kept [OF this, of plain_inputs] obtain w1 where
    "Socket_new plain_inputs offline 0 t ?w = return (os_socket offline) w1"
    "\<forall>rs. list_all (\<lambda>r. rd_read r = None \<and> \<not> rd_stop r) rs \<longrightarrow> tcp_get plain_inputs 0 rs w1 = return Waiting w1" by blast
  moreover have "os_socket offline = 4" by (simp add: offline_def)
  ultimately show ?thesis by (intro exI [of _ t] exI [of _ w1]) (simp del: tcp_get.simps)
qed

text \<open>
   A port that receives and is configured again, even with what it was configured with, loses its listeners: the conditions on
  it get no data any more.
\<close>

theorem reimport_silences_listeners:
  assumes "io_ports w p = Some io" and "map_of (portMap_m w) (GetAttribute cfg ''id'') = Some p" and "GetAttribute cfg ''delete'' \<noteq> ''true''"
    and "port_importXml os cfg io = ([], None, io')" and "isRxEnabled (io_kind io')" and "\<forall>s. io_kind io' \<noteq> Serial s"
  shows "\<exists>w1. import_one_port i os junk cfg w = return () w1 \<and> (\<forall>os' buf. hand_out i os' p buf w1 = return () w1)"
proof (intro exI conjI allI)
  have kinds: "\<exists>k. io' = IOPort_importXml cfg (io\<lparr>io_kind := k\<rparr>)"
    using assms(4) by (auto simp: port_importXml_def port_outcome_def split: port_kind.splits prod.splits option.splits)
  then have "rxThread_m io' = Some RxThread_new" using assms(5) by (auto simp: IOPort_importXml_def)
  then show "hand_out i os' p buf (set_port p io' w) = return () (set_port p io' w)" for os' buf
    by (simp add: hand_out_def the_port_def set_port_def RxThread_new_def)
  show "import_one_port i os junk cfg w = return () (set_port p io' w)"
    using assms by (cases "io_kind io'") (simp_all add: import_one_port_def getPort_def import_port_def the_port_def)
qed

theorem reimport_silences_listeners_witness:
  "\<forall>junk. \<exists>(w1 :: world). import_one_port plain_inputs offline junk (Element ''ioport'' [(''id'', ''p''), (''host'', ''h''), (''port'', ''9''), (''rxport'', ''7'')] [])
       (empty_world\<lparr>io_ports := [0 \<mapsto> some_port (Udp \<lparr>udp_host = ''h'', udp_port = 9, rxport_m = 7, udp_fd = 3\<rparr>)], portMap_m := [(''p'', 0)]\<rparr>) = return () w1
     \<and> hand_out plain_inputs offline 0 ''data'' w1 = return () w1"
proof
  fix junk
  let ?u = "\<lparr>udp_host = ''h'', udp_port = 9, rxport_m = 7, udp_fd = 3\<rparr>"
  let ?cfg = "Element ''ioport'' [(''id'', ''p''), (''host'', ''h''), (''port'', ''9''), (''rxport'', ''7'')] []"
  let ?w = "empty_world\<lparr>io_ports := [0 \<mapsto> some_port (Udp ?u)], portMap_m := [(''p'', 0)]\<rparr>"
  let ?io = "IOPort_importXml ?cfg ((some_port (Udp ?u))\<lparr>io_kind := Udp (?u\<lparr>udp_fd := 4\<rparr>)\<rparr>)"
  have "show_int 9 = ''9''" "show_int 7 = ''7''" by code_simp+
  then have "get_int ''9'' = Some (9, [])" "get_int ''7'' = Some (7, [])"
    using get_int_show [of 9] get_int_show [of 7] by simp_all
  then have "port_importXml offline ?cfg (some_port (Udp ?u)) = ([], None, ?io)"
    by (simp add: port_importXml_def some_port_def UdpIOPort_importXml_def need_int_def attribute_int_def attribute_def read_setting_def
        GetAttribute_def port_outcome_def finish_def offline_def)
  moreover have "isRxEnabled (io_kind ?io)" "\<forall>s. io_kind ?io \<noteq> Serial s" by (simp_all add: IOPort_importXml_def)
  moreover have "io_ports ?w 0 = Some (some_port (Udp ?u))" "map_of (portMap_m ?w) (GetAttribute ?cfg ''id'') = Some 0"
    "GetAttribute ?cfg ''delete'' \<noteq> ''true''"
    by (simp_all add: GetAttribute_def attribute_def)
  ultimately show "\<exists>w1. import_one_port plain_inputs offline junk ?cfg ?w = return () w1 \<and> hand_out plain_inputs offline 0 ''data'' w1 = return () w1"
    using reimport_silences_listeners [of ?w 0 "some_port (Udp ?u)" ?cfg offline ?io plain_inputs junk] by blast
qed

section \<open>The pulse of a condition on received data\<close>

lemma deliver_Execute [simp]: "deliver n i (map (Execute \<circ> f) acts) s = (map (Execute \<circ> f) acts, Inr (), s)"
  by (induction acts) (simp_all add: return_def)

text \<open>One call of the rule a condition belongs to.\<close>

lemma notify_rule:
  fixes i :: inputs and cfg :: xml and b :: bool
  assumes "rules s r = Some rule" and "isActive rule" and "condition_m rule = Some k" and "memoryless k" and "ready s k"
  defines "i' \<equiv> i\<lparr>in_foreign := (in_foreign i)(cfg := b)\<rparr>"
  shows "\<exists>t. notify_as i cfg b r s = (map (Execute \<circ> action_ptr) (due rule (prevValue_m rule, truth i' s k)), Inr (),
     set_rule r (rule\<lparr>prevValue_m := truth i' s k\<rparr>) (s\<lparr>pth_m := t\<rparr>))"
proof -
  obtain t where "Rule_evaluate i' r s = (map (Execute \<circ> action_ptr) (due rule (prevValue_m rule, truth i' s k)), Inr (),
     set_rule r (rule\<lparr>prevValue_m := truth i' s k\<rparr>) (s\<lparr>pth_m := t\<rparr>))"
    using Rule_evaluate_edge [OF assms(1-5)] by blast
  then show ?thesis
    using assms(1) by (auto simp: notify_as_def i'_def [symmetric] call_listener_def with_listeners_def bind_def return_def from_result_def)
qed

lemma pulse_rule:
  fixes i :: inputs and cfg :: xml
  assumes "rules s r = Some rule" and "isActive rule" and "condition_m rule = Some k" and "memoryless k" and "ready s k"
  defines "up \<equiv> truth (i\<lparr>in_foreign := (in_foreign i)(cfg := True)\<rparr>) s k" and "down \<equiv> truth (i\<lparr>in_foreign := (in_foreign i)(cfg := False)\<rparr>) s k"
  shows "\<exists>s'. pulse i cfg r s = (map (Execute \<circ> action_ptr) (due rule (prevValue_m rule, up) @ due rule (up, down)), Inr (), s')
     \<and> rules s' r = Some (rule\<lparr>prevValue_m := down\<rparr>)"
proof -
  obtain t where t: "notify_as i cfg True r s = (map (Execute \<circ> action_ptr) (due rule (prevValue_m rule, up)), Inr (),
      set_rule r (rule\<lparr>prevValue_m := up\<rparr>) (s\<lparr>pth_m := t\<rparr>))"
    using notify_rule [OF assms(1-5)] unfolding up_def by blast
  let ?s = "set_rule r (rule\<lparr>prevValue_m := up\<rparr>) (s\<lparr>pth_m := t\<rparr>)"
  have same: "objects ?s = objects s" "tasks ?s = tasks s" by (simp_all add: set_rule_def)
  have rule: "rules ?s r = Some (rule\<lparr>prevValue_m := up\<rparr>)" "isActive (rule\<lparr>prevValue_m := up\<rparr>)"
    "condition_m (rule\<lparr>prevValue_m := up\<rparr>) = Some k"
    using assms(2,3) by (simp_all add: set_rule_def isActive_def)
  have rdy: "ready ?s k" using assms(5) by (simp only: ready_cong [OF same])
  have "due (rule\<lparr>prevValue_m := up\<rparr>) = due rule" by (auto simp: due_def)
  moreover obtain t' where t': "notify_as i cfg False r ?s = (map (Execute \<circ> action_ptr) (due (rule\<lparr>prevValue_m := up\<rparr>) (up, down)), Inr (),
      set_rule r (rule\<lparr>prevValue_m := down\<rparr>) (?s\<lparr>pth_m := t'\<rparr>))"
    using notify_rule [OF rule assms(4) rdy, of i cfg False] truth_cong [OF same] unfolding down_def by auto
  ultimately show ?thesis by (simp add: pulse_def t t' bind_def set_rule_def)
qed

lemma prefix_match:
  assumes "CHR 0x00 \<notin> set e"
  shows "take (length e) (rx @ replicate (length e) (CHR 0x00)) = e \<longleftrightarrow> (\<exists>rest. rx = e @ rest)"
proof
  assume match: "take (length e) (rx @ replicate (length e) (CHR 0x00)) = e"
  have "length e \<le> length rx"
  proof (rule ccontr)
    assume "\<not> length e \<le> length rx"
    then have "CHR 0x00 \<in> set (take (length e) (rx @ replicate (length e) (CHR 0x00)))" by (auto simp: take_replicate)
    with match assms show False by simp
  qed
  with match show "\<exists>rest. rx = e @ rest" by (intro exI [of _ "drop (length e) rx"]) (metis append_take_drop_id take_append diff_is_0_eq take0 append_Nil2)
qed auto

text \<open>
  C10.  Data that begins with what a condition expects makes its rule see the condition true and then false again: it executes the
  actions due at the rise and those due at the fall, in this order, and is left as if nothing had come; other data does nothing.
\<close>

theorem data_pulses_rule:
  fixes i :: inputs and w :: "'a world_scheme"
  assumes "rx_conditions w c = Some rc" and "rc_cl rc = Some r" and "\<not> regexFlag_m rc" and "CHR 0x00 \<notin> set (exp_m rc)"
    and "rules w r = Some rule" and "isActive rule" and "condition_m rule = Some k" and "memoryless k" and "ready w k"
  defines "up \<equiv> truth (i\<lparr>in_foreign := (in_foreign i)(rc_config rc := True)\<rparr>) w k"
    and "down \<equiv> truth (i\<lparr>in_foreign := (in_foreign i)(rc_config rc := False)\<rparr>) w k"
  shows "\<exists>w'. onDataReceived i os buf c w =
       (if \<exists>rest. received_text rc buf = exp_m rc @ rest
        then (map (Execute \<circ> action_ptr) (due rule (prevValue_m rule, up) @ due rule (up, down)), Inr (), w')
        else return () w)
     \<and> rules w' r = Some (rule\<lparr>prevValue_m := down\<rparr>)"
proof -
  obtain w' where w': "pulse i (rc_config rc) r w = (map (Execute \<circ> action_ptr) (due rule (prevValue_m rule, up) @ due rule (up, down)), Inr (), w')"
    "rules w' r = Some (rule\<lparr>prevValue_m := down\<rparr>)"
    using pulse_rule [OF assms(5-9), of i "rc_config rc"] unfolding up_def down_def by blast
  then show ?thesis
    using assms(1-3) prefix_match [OF assms(4), of "received_text rc buf"]
    by (intro exI [of _ w']) (simp add: onDataReceived_def the_rx_def Let_def)
qed

theorem data_pulses_rule_witness:
  "\<exists>(w :: world) w'. onDataReceived plain_inputs offline ''RING 42'' 5 w = ([Execute 7, Execute 8], Inr (), w')"
proof -
  let ?cfg = "Element ''condition'' [(''expected'', ''RING'')] []"
  let ?rule = "Rule_new\<lparr>condition_m := Some (ForeignCondition ?cfg), actionsOnTrue_m := [Action 7 0 (CancelAction [])],
                         actionsOnFalse_m := [Action 8 0 (CancelAction [])]\<rparr>"
  let ?rc = "\<lparr>rc_config = ?cfg, rc_port = ''p'', exp_m = ''RING'', regexFlag_m = False, rc_hex = False, rc_objects = [], rc_cl = Some 3\<rparr>"
  let ?w = "empty_world\<lparr>rx_conditions := [5 \<mapsto> ?rc], rules := [3 \<mapsto> ?rule]\<rparr>"
  have "rx_conditions ?w 5 = Some ?rc" "rc_cl ?rc = Some 3" "\<not> regexFlag_m ?rc" "CHR 0x00 \<notin> set (exp_m ?rc)" "rules ?w 3 = Some ?rule"
    "isActive ?rule" "condition_m ?rule = Some (ForeignCondition ?cfg)" "memoryless (ForeignCondition ?cfg)" "ready ?w (ForeignCondition ?cfg)"
    by (simp_all add: isActive_def Rule_new_def Active_def)
  from data_pulses_rule [OF this, of plain_inputs offline "''RING 42''"]
  have "\<exists>w'. onDataReceived plain_inputs offline ''RING 42'' 5 ?w = ([Execute 7, Execute 8], Inr (), w')"
    by (simp add: received_text_def due_def Rule_new_def) blast
  then show ?thesis by blast
qed

end
