(* ===== verification/PersistentStorage.thy ===== *)
theory PersistentStorage
  imports Engine
begin

text \<open>
  src/persistentstorage.cpp: where objects keep their values and their logs: files, a MySQL database or InfluxDB.  The files
  are part of the state; the two databases are known by the statements they are given and by what they answer.
\<close>

section \<open>Files\<close>

text \<open>The content of each file; and which directories can be opened and which files can be written.\<close>

type_synonym files = "string \<Rightarrow> string option"

record file_os =
  fo_dir :: "string \<Rightarrow> bool"
  fo_writable :: "string \<Rightarrow> bool"

record FilePersistentStorage =
  path_m :: string
  logPath_m :: string

definition with_slash :: "string \<Rightarrow> string" where
  "with_slash path = (if path \<noteq> '''' \<and> last path \<noteq> CHR ''/'' then path @ ''/'' else path)"

definition FilePersistentStorage_new :: "file_os \<Rightarrow> xml \<Rightarrow> FilePersistentStorage result" where
  "FilePersistentStorage_new os cfg =
     (let path = with_slash (GetAttributeOrDefault cfg ''path'' ''/var/lib/linknx/persist''); log = GetAttribute cfg ''logPath'' in
      if \<not> fo_dir os path then Inl (Bad_config path)
      else
        (let log = (if log = '''' then path else with_slash log) in
         if \<not> fo_dir os log then Inl (Bad_config log) else Inr \<lparr>path_m = path, logPath_m = log\<rparr>))"

definition FilePersistentStorage_exportXml :: "FilePersistentStorage \<Rightarrow> xml \<Rightarrow> xml" where
  "FilePersistentStorage_exportXml st e =
     (let e = SetAttribute ''path'' (path_m st) (SetAttribute ''type'' ''file'' e)
      in if logPath_m st \<noteq> path_m st then SetAttribute ''logpath'' (logPath_m st) e else e)"

definition file_write :: "file_os \<Rightarrow> FilePersistentStorage \<Rightarrow> string \<Rightarrow> string \<Rightarrow> files \<Rightarrow> files" where
  "file_write os st oid value fs = (if fo_writable os (path_m st @ oid) then fs(path_m st @ oid \<mapsto> value) else fs)"

text \<open>\<open>std::getline\<close> up to the character -1, which fails when there is no character at all.\<close>

definition file_read :: "FilePersistentStorage \<Rightarrow> string \<Rightarrow> string \<Rightarrow> files \<Rightarrow> string" where
  "file_read st oid defval fs =
     (case fs (path_m st @ oid) of
        None \<Rightarrow> defval
      | Some content \<Rightarrow> if content = '''' then defval else takeWhile (\<lambda>c. c \<noteq> CHR 0xFF) content)"

text \<open>The date is not padded, the time is.\<close>

definition log_line :: "tm \<Rightarrow> string \<Rightarrow> string" where
  "log_line t value =
     show_int (tm_year t + 1900) @ ''-'' @ show_int (tm_mon t + 1) @ ''-'' @ show_int (tm_mday t) @ '' ''
     @ pad0 2 (show_int (tm_hour t)) @ '':'' @ pad0 2 (show_int (tm_min t)) @ '':'' @ pad0 2 (show_int (tm_sec t))
     @ '' > '' @ value @ [CHR 0x0A]"

definition file_writelog :: "file_os \<Rightarrow> FilePersistentStorage \<Rightarrow> tm \<Rightarrow> string \<Rightarrow> string \<Rightarrow> files \<Rightarrow> files" where
  "file_writelog os st t oid value fs =
     (let f = logPath_m st @ oid @ ''.log'' in
      if fo_writable os f then fs(f \<mapsto> (case fs f of None \<Rightarrow> '''' | Some old \<Rightarrow> old) @ log_line t value) else fs)"

section \<open>MySQL\<close>

record MysqlPersistentStorage =
  my_host :: string
  my_user :: string
  my_pass :: string
  my_db :: string
  my_table :: string
  my_logtable :: string
  my_charset :: string

text \<open>The client library: whether it can be initialised and connects, and the first column of the rows a query returns.\<close>

record mysql =
  my_init :: bool
  my_connects :: bool
  my_query :: "string \<Rightarrow> string list option"

definition MysqlPersistentStorage_new :: "mysql \<Rightarrow> xml \<Rightarrow> MysqlPersistentStorage result" where
  "MysqlPersistentStorage_new my cfg =
     (let st = \<lparr>my_host = GetAttribute cfg ''host'', my_user = GetAttribute cfg ''user'', my_pass = GetAttribute cfg ''pass'',
                my_db = GetAttribute cfg ''db'', my_table = GetAttribute cfg ''table'', my_logtable = GetAttribute cfg ''logtable'',
                my_charset = GetAttribute cfg ''charset''\<rparr> in
      if \<not> my_init my then Inl (Bad_config ''error initializing client'')
      else if \<not> my_connects my then Inl (Bad_config (my_host st))
      else Inr st)"

definition MysqlPersistentStorage_exportXml :: "MysqlPersistentStorage \<Rightarrow> xml \<Rightarrow> xml" where
  "MysqlPersistentStorage_exportXml st e =
     (let e = SetAttribute ''pass'' (my_pass st) (SetAttribute ''user'' (my_user st) (SetAttribute ''host'' (my_host st) (SetAttribute ''type'' ''mysql'' e)));
          e = SetAttribute ''logtable'' (my_logtable st) (SetAttribute ''table'' (my_table st) (SetAttribute ''db'' (my_db st) e))
      in if my_charset st \<noteq> '''' then SetAttribute ''charset'' (my_charset st) e else e)"

text \<open>The statements, with the ID and the value as they are.\<close>

definition sql_text :: "string \<Rightarrow> string" where
  "sql_text s = CHR 0x27 # s @ [CHR 0x27]"

definition sql_name :: "string \<Rightarrow> string" where
  "sql_name s = CHR 0x60 # s @ [CHR 0x60]"

definition mysql_write :: "MysqlPersistentStorage \<Rightarrow> string \<Rightarrow> string \<Rightarrow> string option" where
  "mysql_write st oid value =
     (if my_table st = '''' then None
      else Some (''INSERT INTO '' @ sql_name (my_table st) @ '' ('' @ sql_name ''object'' @ '', '' @ sql_name ''value'' @ '') VALUES (''
        @ sql_text oid @ '', '' @ sql_text value @ '') ON DUPLICATE KEY UPDATE '' @ sql_name ''value'' @ '' = '' @ sql_text value @ '';''))"

definition mysql_read :: "mysql \<Rightarrow> MysqlPersistentStorage \<Rightarrow> string \<Rightarrow> string \<Rightarrow> string" where
  "mysql_read my st oid defval =
     (if my_table st = '''' then defval
      else
        (case my_query my (''SELECT '' @ sql_name ''value'' @ '' FROM '' @ sql_name (my_table st) @ '' WHERE '' @ sql_name ''object''
                @ ''='' @ sql_text oid @ '';'') of
           Some (v # _) \<Rightarrow> v
         | _ \<Rightarrow> defval))"

definition mysql_writelog :: "MysqlPersistentStorage \<Rightarrow> string \<Rightarrow> string \<Rightarrow> string option" where
  "mysql_writelog st oid value =
     (if my_logtable st = '''' then None
      else Some (''INSERT INTO '' @ sql_name (my_logtable st) @ '' (ts, object, value) VALUES (NOW(), '' @ sql_text oid @ '', '' @ sql_text value @ '');''))"

section \<open>InfluxDB\<close>

record InfluxdbPersistentStorage =
  in_uri :: string
  in_user :: string
  in_pass :: string
  in_logDb :: string
  in_persistDb :: string

text \<open>
  The HTTP library: the answer to a request of a URL with a text, when the status is a success; and the JSON library: the
  databases an answer lists, and the value it has, if any.
\<close>

record influx =
  fx_request :: "string \<Rightarrow> string \<Rightarrow> string option"
  fx_databases :: "string \<Rightarrow> string list option"
  fx_value :: "string \<Rightarrow> string option"

definition influx_url :: "InfluxdbPersistentStorage \<Rightarrow> bool \<Rightarrow> string \<Rightarrow> string" where
  "influx_url st writing db =
     in_uri st @ ''/'' @ (if writing then ''write'' else ''query'') @ ''?db='' @ db
     @ (if in_user st \<noteq> '''' \<and> in_pass st \<noteq> '''' then ''&u='' @ in_user st @ ''&p='' @ in_pass st else '''')"

text \<open>The requests that are made, and the storage.\<close>

definition create_missing :: "InfluxdbPersistentStorage \<Rightarrow> string list \<Rightarrow> string \<Rightarrow> (string \<times> string) list" where
  "create_missing st known db = (if db \<in> set known then [] else [(influx_url st False db, ''q=CREATE DATABASE '' @ db)])"

definition InfluxdbPersistentStorage_new :: "influx \<Rightarrow> xml \<Rightarrow> (string \<times> string) list \<times> InfluxdbPersistentStorage" where
  "InfluxdbPersistentStorage_new fx cfg =
     (let st = \<lparr>in_uri = GetAttribute cfg ''uri'', in_user = GetAttribute cfg ''user'', in_pass = GetAttribute cfg ''pass'',
                in_logDb = GetAttribute cfg ''db'', in_persistDb = GetAttribute cfg ''persist_db''\<rparr>;
          url = influx_url st False (in_logDb st); query = ''q=SHOW DATABASES''
      in ((url, query) #
          (case fx_request fx url query of
             None \<Rightarrow> []
           | Some resp \<Rightarrow>
               (case fx_databases fx resp of
                  None \<Rightarrow> []
                | Some known \<Rightarrow> create_missing st known (in_logDb st) @ create_missing st known (in_persistDb st))), st))"

definition InfluxdbPersistentStorage_exportXml :: "InfluxdbPersistentStorage \<Rightarrow> xml \<Rightarrow> xml" where
  "InfluxdbPersistentStorage_exportXml st e =
     SetAttribute ''persistDb'' (in_persistDb st) (SetAttribute ''logDb'' (in_logDb st) (SetAttribute ''pass'' (in_pass st)
       (SetAttribute ''user'' (in_user st) (SetAttribute ''uri'' (in_uri st) (SetAttribute ''type'' ''influxdb'' e)))))"

text \<open>A text with a colon is put between quotes.\<close>

definition influx_write :: "InfluxdbPersistentStorage \<Rightarrow> string \<Rightarrow> string \<Rightarrow> string \<times> string" where
  "influx_write st oid value =
     (influx_url st True (in_persistDb st),
      oid @ '' val='' @ (if CHR '':'' \<in> set value then CHR 0x22 # value @ [CHR 0x22] else value) @ '' 0'')"

definition influx_read :: "influx \<Rightarrow> InfluxdbPersistentStorage \<Rightarrow> string \<Rightarrow> string \<Rightarrow> string" where
  "influx_read fx st oid defval =
     (case fx_request fx (influx_url st False (in_persistDb st)) (''q=SELECT val FROM '' @ CHR 0x22 # oid @ [CHR 0x22]) of
        None \<Rightarrow> defval
      | Some resp \<Rightarrow> (case fx_value fx resp of None \<Rightarrow> defval | Some v \<Rightarrow> v))"

text \<open>\<open>std::fixed\<close> with two digits.\<close>

definition fixed_2 :: "rat \<Rightarrow> string" where
  "fixed_2 q =
     (let m = nat (rne (\<bar>q\<bar> * 100)) in
      (if q < 0 then ''-'' else '''') @ show_base 10 (m div 100) @ ''.'' @ pad0 2 (show_base 10 (m mod 100)))"

text \<open>
  The field of a log entry, by the class of the value: the classes with eight unsigned bits, percentages among them, are
  unsigned integers too and are recognised as such first.
\<close>

definition influx_field :: "env \<Rightarrow> ObjectValue \<Rightarrow> string" where
  "influx_field e v =
     (case v of
        Switching _ \<Rightarrow> if ov_toNumber v \<noteq> 0 then ''t'' else ''f''
      | SwitchingControl _ \<Rightarrow> if ov_toNumber v \<noteq> 0 then ''t'' else ''f''
      | UIntValue _ \<Rightarrow> ov_toString e v @ ''i''
      | IntValue _ \<Rightarrow> ov_toString e v @ ''i''
      | S64Value _ \<Rightarrow> ov_toString e v @ ''i''
      | FloatValue _ \<Rightarrow> fixed_2 (ov_toNumber v)
      | TimeOfDay _ \<Rightarrow> CHR 0x22 # ov_toString e v @ [CHR 0x22]
      | _ \<Rightarrow> ov_toString e v)"

definition influx_writelog :: "env \<Rightarrow> InfluxdbPersistentStorage \<Rightarrow> string \<Rightarrow> ObjectValue \<Rightarrow> string \<times> string" where
  "influx_writelog e st oid v = (influx_url st True (in_logDb st), oid @ '' val='' @ influx_field e v)"

section \<open>The choice of the storage\<close>

datatype PersistentStorage =
    FileStorage FilePersistentStorage
  | MysqlStorage MysqlPersistentStorage
  | InfluxdbStorage InfluxdbPersistentStorage

text \<open>For a program built with both databases; no type is no storage.\<close>

definition PersistentStorage_create :: "file_os \<Rightarrow> mysql \<Rightarrow> influx \<Rightarrow> xml \<Rightarrow> PersistentStorage option result" where
  "PersistentStorage_create os my fx cfg =
     (let type = GetAttribute cfg ''type'' in
      if type = ''file'' then res_bind (FilePersistentStorage_new os cfg) (\<lambda>st. Inr (Some (FileStorage st)))
      else if type = ''mysql'' then res_bind (MysqlPersistentStorage_new my cfg) (\<lambda>st. Inr (Some (MysqlStorage st)))
      else if type = ''influxdb'' then Inr (Some (InfluxdbStorage (snd (InfluxdbPersistentStorage_new fx cfg))))
      else if type = '''' then Inr None
      else Inl (Bad_type type))"

fun PersistentStorage_exportXml :: "PersistentStorage \<Rightarrow> xml \<Rightarrow> xml" where
  "PersistentStorage_exportXml (FileStorage st) e = FilePersistentStorage_exportXml st e"
| "PersistentStorage_exportXml (MysqlStorage st) e = MysqlPersistentStorage_exportXml st e"
| "PersistentStorage_exportXml (InfluxdbStorage st) e = InfluxdbPersistentStorage_exportXml st e"

fun PersistentStorage_read :: "mysql \<Rightarrow> influx \<Rightarrow> files \<Rightarrow> PersistentStorage \<Rightarrow> string \<Rightarrow> string \<Rightarrow> string" where
  "PersistentStorage_read my fx fs (FileStorage st) oid defval = file_read st oid defval fs"
| "PersistentStorage_read my fx fs (MysqlStorage st) oid defval = mysql_read my st oid defval"
| "PersistentStorage_read my fx fs (InfluxdbStorage st) oid defval = influx_read fx st oid defval"

text \<open>What the effects of objects do to the files: a write and an entry of the log, at a time.\<close>

fun store :: "file_os \<Rightarrow> FilePersistentStorage \<Rightarrow> tm \<Rightarrow> effect \<Rightarrow> files \<Rightarrow> files" where
  "store os st t (PersistWrite oid value) fs = file_write os st oid value fs"
| "store os st t (PersistLog oid value) fs = file_writelog os st t oid value fs"
| "store os st t e fs = fs"

end
