(* ===== verification/Storage_Laws.thy ===== *)
theory Storage_Laws
  imports PersistentStorage
begin

text \<open>
  What the storage in files guarantees: as a store of values by key it keeps the last value of every object, beside its logs; so an
  object has its value again after a restart.  And where this fails: with the names of the logs, and with the configuration.
\<close>

section \<open>A store of values by key\<close>

text \<open>\<open>ok\<close> says which values a key can hold.\<close>

locale key_value_store =
  fixes wr :: "string \<Rightarrow> string \<Rightarrow> 's \<Rightarrow> 's" and rd :: "string \<Rightarrow> string \<Rightarrow> 's \<Rightarrow> string" and ok :: "string \<Rightarrow> string \<Rightarrow> bool"
  assumes read_write: "ok k v \<Longrightarrow> rd k d (wr k v s) = v"
    and read_other: "k \<noteq> k' \<Longrightarrow> rd k' d (wr k v s) = rd k' d s"
begin

lemma read_fold:
  "list_all (\<lambda>(k, v). ok k v) ws \<Longrightarrow>
   rd k d (fold (\<lambda>(k, v). wr k v) ws s) = (case map_of (rev ws) k of None \<Rightarrow> rd k d s | Some v \<Rightarrow> v)"
proof (induction ws arbitrary: s)
  case (Cons w ws)
  obtain k' v where w: "w = (k', v)" by (cases w)
  show ?case
    using Cons by (cases "k' = k") (auto simp: w read_write read_other map_add_def split: option.split)
qed simp

end

text \<open>What a list of effects, each with its time, does to a store with a log; the values it writes; and when it does no harm to a key.\<close>

fun record_effect :: "(string \<Rightarrow> string \<Rightarrow> 's \<Rightarrow> 's) \<Rightarrow> (tm \<Rightarrow> string \<Rightarrow> string \<Rightarrow> 's \<Rightarrow> 's) \<Rightarrow> tm \<times> effect \<Rightarrow> 's \<Rightarrow> 's" where
  "record_effect wr lg (t, PersistWrite k v) s = wr k v s"
| "record_effect wr lg (t, PersistLog k v) s = lg t k v s"
| "record_effect wr lg (t, e) s = s"

fun writes :: "(tm \<times> effect) list \<Rightarrow> (string \<times> string) list" where
  "writes [] = []"
| "writes ((t, PersistWrite k v) # es) = (k, v) # writes es"
| "writes ((t, e) # es) = writes es"

fun harmless :: "(string \<Rightarrow> string \<Rightarrow> bool) \<Rightarrow> (string \<Rightarrow> string \<Rightarrow> bool) \<Rightarrow> string \<Rightarrow> tm \<times> effect \<Rightarrow> bool" where
  "harmless ok apart k' (t, PersistWrite k v) = ok k v"
| "harmless ok apart k' (t, PersistLog k v) = apart k k'"
| "harmless ok apart k' (t, e) = True"

text \<open>A store with a log beside it, which leaves the values of the keys \<open>apart\<close> from the log of its key.\<close>

locale logged_store = key_value_store wr rd ok
  for wr :: "string \<Rightarrow> string \<Rightarrow> 's \<Rightarrow> 's" and rd :: "string \<Rightarrow> string \<Rightarrow> 's \<Rightarrow> string" and ok :: "string \<Rightarrow> string \<Rightarrow> bool" +
  fixes lg :: "tm \<Rightarrow> string \<Rightarrow> string \<Rightarrow> 's \<Rightarrow> 's" and apart :: "string \<Rightarrow> string \<Rightarrow> bool"
  assumes read_log: "apart k k' \<Longrightarrow> rd k' d (lg t k v s) = rd k' d s"
begin

lemma read_effects:
  "list_all (harmless ok apart k) es \<Longrightarrow>
   rd k d (fold (record_effect wr lg) es s) = (case map_of (rev (writes es)) k of None \<Rightarrow> rd k d s | Some v \<Rightarrow> v)"
proof (induction es arbitrary: s)
  case (Cons e es)
  obtain t f where e: "e = (t, f)" by (cases e)
  show ?case
  proof (cases f)
    case (PersistWrite k' v)
    then show ?thesis
      using Cons by (cases "k' = k") (auto simp: e read_write read_other map_add_def split: option.split)
  qed (use Cons in \<open>auto simp: e read_log split: option.split\<close>)
qed simp

end

section \<open>The files\<close>

text \<open>A text survives when it can be written, is not empty and does not have the character -1.\<close>

definition storable :: "file_os \<Rightarrow> FilePersistentStorage \<Rightarrow> string \<Rightarrow> string \<Rightarrow> bool" where
  "storable os st oid value \<longleftrightarrow> fo_writable os (path_m st @ oid) \<and> value \<noteq> '''' \<and> CHR 0xFF \<notin> set value"

definition log_apart :: "FilePersistentStorage \<Rightarrow> string \<Rightarrow> string \<Rightarrow> bool" where
  "log_apart st oid oid' \<longleftrightarrow> logPath_m st @ oid @ ''.log'' \<noteq> path_m st @ oid'"

lemma takeWhile_none: "x \<notin> set xs \<Longrightarrow> takeWhile (\<lambda>c. c \<noteq> x) xs = xs"
  by (induction xs) auto

interpretation file_store: logged_store "file_write os st" "file_read st" "storable os st" "file_writelog os st" "log_apart st" for os st
  by unfold_locales
    (auto simp: storable_def log_apart_def file_write_def file_read_def file_writelog_def takeWhile_none Let_def)

lemma store_is_record: "(\<lambda>(t, e). store os st t e) = record_effect (file_write os st) (file_writelog os st)"
proof (rule ext, clarify)
  show "store os st t e = record_effect (file_write os st) (file_writelog os st) (t, e)" for t e
    by (cases e) auto
qed

text \<open>
  C18.  Whatever the objects write and log, in whatever order, the file of an object holds the last value written for it, or what it
  held before: as long as the values can be stored and no log has the name of its file.
\<close>

theorem last_value_is_kept:
  assumes "list_all (harmless (storable os st) (log_apart st) oid) es"
  shows "file_read st oid d (fold (\<lambda>(t, e). store os st t e) es fs) =
    (case map_of (rev (writes es)) oid of None \<Rightarrow> file_read st oid d fs | Some value \<Rightarrow> value)"
  unfolding store_is_record by (rule file_store.read_effects [OF assms])

definition disk :: file_os where
  "disk = \<lparr>fo_dir = (\<lambda>_. True), fo_writable = (\<lambda>_. True)\<rparr>"

definition noon :: tm where
  "noon = \<lparr>tm_year = 124, tm_mon = 0, tm_mday = 31, tm_wday = 3, tm_hour = 12, tm_min = 0, tm_sec = 0\<rparr>"

theorem last_value_is_kept_witness:
  "file_read \<lparr>path_m = ''/p/'', logPath_m = ''/p/''\<rparr> ''lamp'' ''off''
     (fold (\<lambda>(t, e). store disk \<lparr>path_m = ''/p/'', logPath_m = ''/p/''\<rparr> t e)
       [(noon, PersistWrite ''lamp'' ''off''), (noon, PersistLog ''lamp'' ''off''), (noon, PersistWrite ''lamp'' ''on''), (noon, PersistWrite ''fan'' ''7'')]
       (\<lambda>_. None)) = ''on''"
  by (subst last_value_is_kept) (simp_all add: storable_def log_apart_def disk_def)

text \<open>
   With one directory for values and logs, which is the default, the log of an object goes into the file of the object whose
  ID ends in .log: that object then reads the log as its value.
\<close>

theorem log_spoils_value:
  assumes "logPath_m st = path_m st" and "fo_writable os (path_m st @ oid @ ''.log'')" and "CHR 0xFF \<notin> set (old @ log_line t value)"
    and "fs (path_m st @ oid @ ''.log'') = Some old"
  shows "file_read st (oid @ ''.log'') d (store os st t (PersistLog oid value) fs) = old @ log_line t value"
  using assms takeWhile_none [of "CHR 0xFF" "old @ log_line t value"]
  by (auto simp: file_read_def file_writelog_def Let_def log_line_def)

theorem log_spoils_value_witness:
  "file_read \<lparr>path_m = ''/p/'', logPath_m = ''/p/''\<rparr> ''a.log'' ''''
     (store disk \<lparr>path_m = ''/p/'', logPath_m = ''/p/''\<rparr> noon (PersistLog ''a'' ''on'') [''/p/a.log'' \<mapsto> ''off''])
   = ''off2024-1-31 12:00:00 > on'' @ [CHR 0x0A]"
proof -
  let ?st = "\<lparr>path_m = ''/p/'', logPath_m = ''/p/''\<rparr>"
  have line: "log_line noon ''on'' = ''2024-1-31 12:00:00 > on'' @ [CHR 0x0A]" by code_simp
  have "file_read ?st (''a'' @ ''.log'') '''' (store disk ?st noon (PersistLog ''a'' ''on'') [''/p/a.log'' \<mapsto> ''off'']) = ''off'' @ log_line noon ''on''"
    by (rule log_spoils_value) (simp_all add: disk_def line)
  then show ?thesis by (simp add: line)
qed

text \<open>
   The configuration a storage in files writes of itself is read back as the same storage exactly when it has no directory
  of its own for the logs: that one is written under another name than it is read.
\<close>

theorem storage_config_roundtrip_iff:
  assumes "path_m st \<noteq> ''''" and "last (path_m st) = CHR ''/''" and "fo_dir os (path_m st)" and "attribute e ''logPath'' = None" and "is_element e"
  shows "FilePersistentStorage_new os (FilePersistentStorage_exportXml st e) = Inr st \<longleftrightarrow> logPath_m st = path_m st"
  using assms
  by (cases st)
    (auto simp: FilePersistentStorage_new_def FilePersistentStorage_exportXml_def GetAttribute_def GetAttributeOrDefault_def with_slash_def Let_def)

theorem storage_config_roundtrip_iff_witness:
  "FilePersistentStorage_new disk (FilePersistentStorage_exportXml \<lparr>path_m = ''/p/'', logPath_m = ''/log/''\<rparr> (Element ''persistence'' [] []))
   \<noteq> Inr \<lparr>path_m = ''/p/'', logPath_m = ''/log/''\<rparr>"
  by (subst storage_config_roundtrip_iff) (simp_all add: disk_def attribute_def)

section \<open>After a restart\<close>

text \<open>An update stores the text of the value; the listeners are called before.\<close>

lemma stored_update:
  assumes "onUpdate sv obj = (effs, None, obj')" and "persist_m obj" and "storage sv \<noteq> None"
    and "writeLog_m obj \<Longrightarrow> log_apart st (id_m obj) (id_m obj)" and "storable os st (id_m obj) (ov_toString (env.truncate sv) (obj_value obj))"
  shows "file_read st (id_m obj) d (fold (store os st t) effs fs) = ov_toString (env.truncate sv) (obj_value obj)"
proof -
  let ?es = "map (\<lambda>e. (t, e)) effs" and ?text = "ov_toString (env.truncate sv) (obj_value obj)"
  have effs: "effs = map (\<lambda>l. OnChange l (Some (id_m obj))) (listenerList_m obj) @ PersistWrite (id_m obj) ?text
      # (if writeLog_m obj then [PersistLog (id_m obj) ?text] else [])"
    using assms(1-3) by (auto simp: onUpdate_def Let_def)
  have "list_all (harmless (storable os st) (log_apart st) (id_m obj)) ?es"
    using assms(4,5) unfolding effs by (auto simp: list_all_iff)
  moreover have "writes ?es = [(id_m obj, ?text)]"
  proof -
    have "writes (map (Pair t \<circ> (\<lambda>l. OnChange l x)) ls @ es) = writes es" for x ls es by (induction ls) auto
    then show ?thesis by (simp add: effs)
  qed
  moreover have "fold (store os st t) effs fs = fold (\<lambda>(t, e). store os st t e) ?es fs"
    by (induction effs arbitrary: fs) auto
  ultimately show ?thesis
    using file_store.read_effects [of os st "id_m obj" ?es d fs] by (simp add: store_is_record)
qed



end
