(* ===== verification/Scripts.thy ===== *)
theory Scripts
  imports PortListeners
begin

text \<open>
  src/luacondition.cpp: conditions and actions that are scripts.  The interpreter is a library: a run of a script is the tree of the functions of
  the program it calls, one after the other, each with what the script does with the answer.  A script keeps the state of its interpreter
  (\<open>'l\<close>) from run to run.  All scripts share one mutex.
\<close>

section \<open>The interpreter\<close>

datatype lua_value = LNil | LBool bool | LNumber rat | LString string

text \<open>The functions that conditions and actions register, with their arguments.\<close>

datatype host_call =
    Host_obj "lua_value list"
  | Host_isException "lua_value list"
  | Host_set "lua_value list"
  | Host_iosend "lua_value list"
  | Host_sleep "lua_value list"

text \<open>A script ends with a value, here as a boolean, or with an error; a function answers with an error too, which a script can catch.\<close>

datatype 'l script = Finished bool 'l | Failed string 'l | Calls host_call "string + lua_value \<Rightarrow> 'l script"

record 'l lua =
  lua_newstate :: 'l
  luaL_dostring :: "string \<Rightarrow> 'l \<Rightarrow> 'l script"
  lua_number_text :: "rat \<Rightarrow> string"
  lua_text_number :: "string \<Rightarrow> rat option"
  lua_integer :: "rat \<Rightarrow> int"

text \<open>The answers are C strings.\<close>

definition c_str :: "string \<Rightarrow> string" where
  "c_str s = takeWhile (\<lambda>c. c \<noteq> CHR 0x00) s"

fun lua_tostring :: "'l lua \<Rightarrow> lua_value \<Rightarrow> string option" where
  "lua_tostring L (LString s) = Some (c_str s)"
| "lua_tostring L (LNumber q) = Some (lua_number_text L q)"
| "lua_tostring L v = None"

fun lua_tonumber :: "'l lua \<Rightarrow> lua_value \<Rightarrow> rat option" where
  "lua_tonumber L (LNumber q) = Some q"
| "lua_tonumber L (LString s) = lua_text_number L s"
| "lua_tonumber L v = None"

section \<open>The functions of the program\<close>

definition bad_argument :: "string \<Rightarrow> string \<Rightarrow> string + lua_value" where
  "bad_argument what f = Inl (''Incorrect '' @ what @ [CHR 0x27] @ f @ [CHR 0x27])"

text \<open>The exceptions of the program become errors of the script.\<close>

definition lua_try :: "string \<Rightarrow> (string + lua_value, 's) run \<Rightarrow> (string + lua_value, 's) run" where
  "lua_try msg r =
     (case r of
        (effs, Inl e, s) \<Rightarrow> if is_exception e then (effs, Inr (Inl msg), s) else (effs, Inl e, s)
      | (effs, Inr v, s) \<Rightarrow> (effs, Inr v, s))"

definition host_obj :: "'l lua \<Rightarrow> inputs \<Rightarrow> lua_value list \<Rightarrow> 'a world_scheme \<Rightarrow> (string + lua_value, 'a world_scheme) run" where
  "host_obj L i args w =
     (case map (lua_tostring L) args of
        [Some oid] \<Rightarrow>
          lua_try ''Error while retrieving object value''
            (bind (lookup oid w) (\<lambda>p w.
             bind (get_text i p w) (\<lambda>ret w.
             bind (release p w) (\<lambda>_. return (Inr (LString (c_str ret)))))))
      | _ \<Rightarrow> return (bad_argument ''argument to '' ''obj'') w)"

definition host_isException :: "'l lua \<Rightarrow> inputs \<Rightarrow> lua_value list \<Rightarrow> 'a world_scheme \<Rightarrow> (string + lua_value, 'a world_scheme) run" where
  "host_isException L i args w =
     (let test = (\<lambda>ts. return (Inr (LBool (isException (sc_zone (in_schedule i)) (sc_days (in_schedule i)) ts))) w) in
      if args = [] then test (in_now i)
      else
        (case map (lua_tonumber L) args of
           [Some x] \<Rightarrow> test (lua_integer L x)
         | _ \<Rightarrow> return (bad_argument ''argument to '' ''isException'') w))"

definition host_set :: "'l lua \<Rightarrow> inputs \<Rightarrow> lua_value list \<Rightarrow> 'a world_scheme \<Rightarrow> (string + lua_value, 'a world_scheme) run" where
  "host_set L i args w =
     (case map (lua_tostring L) args of
        [Some oid, Some val] \<Rightarrow>
          lua_try ''Error while setting object value''
            (bind (lookup oid w) (\<lambda>p w.
             bind (set_string i p val w) (\<lambda>_ w.
             bind (release p w) (\<lambda>_. return (Inr LNil)))))
      | [Some oid, None] \<Rightarrow> return (bad_argument ''value for '' ''set'') w
      | _ \<Rightarrow> return (bad_argument ''argument to '' ''set'') w)"

text \<open>What was sent in part is sent once more, from the beginning.\<close>

definition host_iosend :: "'l lua \<Rightarrow> inputs \<Rightarrow> os \<Rightarrow> lua_value list \<Rightarrow> 'a world_scheme \<Rightarrow> (string + lua_value, 'a world_scheme) run" where
  "host_iosend L i os args w =
     (case map (lua_tostring L) args of
        [Some pid, Some val] \<Rightarrow>
          lua_try ''Error while sending on io port''
            (case getPort pid w of
               None \<Rightarrow> fail (Refused ''IO Port ID not found.'') w
             | Some p \<Rightarrow>
                 bind (port_send i os p val w) (\<lambda>ret w.
                   if ret \<noteq> int (length val) then
                     bind (port_send i os p val w) (\<lambda>ret w.
                       if ret \<noteq> int (length val) then fail (Refused ''Unable to send data.'') w else return (Inr LNil) w)
                   else return (Inr LNil) w))
      | [Some pid, None] \<Rightarrow> return (bad_argument ''value for '' ''iosend'') w
      | _ \<Rightarrow> return (bad_argument ''argument to '' ''iosend'') w)"

section \<open>The mutex\<close>

text \<open>A mutex of the pth library: the thread that owns it can acquire it again; a release by another thread fails and changes nothing.\<close>

record LuaMain =
  mutex_owner :: "nat option"
  mutex_count :: nat

definition LuaMain_new :: LuaMain where
  "LuaMain_new = \<lparr>mutex_owner = None, mutex_count = 0\<rparr>"

datatype mutex_op = Lock | Unlock

text \<open>A thread that cannot acquire it waits, which is \<open>None\<close>.\<close>

definition LuaMain_lock :: "nat \<Rightarrow> LuaMain \<Rightarrow> LuaMain option" where
  "LuaMain_lock t m =
     (case mutex_owner m of
        None \<Rightarrow> Some \<lparr>mutex_owner = Some t, mutex_count = 1\<rparr>
      | Some u \<Rightarrow> if u = t then Some (m\<lparr>mutex_count := mutex_count m + 1\<rparr>) else None)"

definition LuaMain_unlock :: "nat \<Rightarrow> LuaMain \<Rightarrow> LuaMain" where
  "LuaMain_unlock t m =
     (if mutex_owner m \<noteq> Some t then m
      else if mutex_count m \<le> 1 then \<lparr>mutex_owner = None, mutex_count = 0\<rparr>
      else m\<lparr>mutex_count := mutex_count m - 1\<rparr>)"

fun do_op :: "nat \<Rightarrow> mutex_op \<Rightarrow> LuaMain \<Rightarrow> LuaMain option" where
  "do_op t Lock m = LuaMain_lock t m"
| "do_op t Unlock m = Some (LuaMain_unlock t m)"

section \<open>Conditions\<close>

record 'l LuaCondition =
  lc_code :: string
  lc_state :: 'l

definition LuaCondition_new :: "'l lua \<Rightarrow> 'l LuaCondition" where
  "LuaCondition_new L = \<lparr>lc_code = '''', lc_state = lua_newstate L\<rparr>"

definition LuaCondition_importXml :: "xml \<Rightarrow> 'l LuaCondition \<Rightarrow> 'l LuaCondition result" where
  "LuaCondition_importXml cfg c =
     (case GetText cfg of None \<Rightarrow> Inl (Missing_element ''text'') | Some code \<Rightarrow> Inr (c\<lparr>lc_code := code\<rparr>))"

definition script_xml :: "string \<Rightarrow> xml \<Rightarrow> xml" where
  "script_xml code e = (let e = SetAttribute ''type'' ''script'' e in if code \<noteq> '''' then LinkEndChild (Text code) e else e)"

definition LuaCondition_exportXml :: "'l LuaCondition \<Rightarrow> xml \<Rightarrow> xml" where
  "LuaCondition_exportXml c e = script_xml (lc_code c) e"

definition LuaCondition_statusXml :: "xml \<Rightarrow> xml" where
  "LuaCondition_statusXml e = SetAttribute ''type'' ''script'' e"

text \<open>A function that is not registered is nil, and cannot be called.\<close>

definition not_registered :: "string + lua_value" where
  "not_registered = Inl ''attempt to call a nil value''"

definition condition_call :: "'l lua \<Rightarrow> inputs \<Rightarrow> host_call \<Rightarrow> 'a world_scheme \<Rightarrow> (string + lua_value, 'a world_scheme) run" where
  "condition_call L i h w =
     (case h of
        Host_obj args \<Rightarrow> host_obj L i args w
      | Host_isException args \<Rightarrow> host_isException L i args w
      | _ \<Rightarrow> return not_registered w)"

primrec run_condition :: "'l lua \<Rightarrow> inputs \<Rightarrow> 'l script \<Rightarrow> 'a world_scheme \<Rightarrow> ((string + bool) \<times> 'l, 'a world_scheme) run" where
  "run_condition L i (Finished b st) w = return (Inr b, st) w"
| "run_condition L i (Failed msg st) w = return (Inl msg, st) w"
| "run_condition L i (Calls h k) w = bind (condition_call L i h w) (\<lambda>r. run_condition L i (k r))"

text \<open>The value, what was done with the mutex, and the condition.\<close>

definition LuaCondition_evaluate ::
    "'l lua \<Rightarrow> inputs \<Rightarrow> 'l LuaCondition \<Rightarrow> 'a world_scheme \<Rightarrow> (bool \<times> mutex_op list \<times> 'l LuaCondition, 'a world_scheme) run" where
  "LuaCondition_evaluate L i c w =
     bind (run_condition L i (luaL_dostring L (lc_code c) (lc_state c)) w) (\<lambda>(r, st).
       case r of
         Inl msg \<Rightarrow> return (False, [Lock], c\<lparr>lc_state := st\<rparr>)
       | Inr ret \<Rightarrow> return (ret, [Lock, Unlock], c\<lparr>lc_state := st\<rparr>))"

section \<open>Actions\<close>

record 'l LuaScriptAction =
  la_code :: string
  la_state :: 'l

definition LuaScriptAction_new :: "'l lua \<Rightarrow> 'l LuaScriptAction" where
  "LuaScriptAction_new L = \<lparr>la_code = '''', la_state = lua_newstate L\<rparr>"

definition LuaScriptAction_importXml :: "xml \<Rightarrow> 'l LuaScriptAction \<Rightarrow> 'l LuaScriptAction result" where
  "LuaScriptAction_importXml cfg a =
     (case GetText cfg of None \<Rightarrow> Inl (Missing_element ''text'') | Some code \<Rightarrow> Inr (a\<lparr>la_code := code\<rparr>))"

definition LuaScriptAction_exportXml :: "'l LuaScriptAction \<Rightarrow> int \<Rightarrow> xml \<Rightarrow> xml" where
  "LuaScriptAction_exportXml a delay e = Action_exportXml delay (script_xml (la_code a) e)"

definition action_call :: "'l lua \<Rightarrow> inputs \<Rightarrow> os \<Rightarrow> host_call \<Rightarrow> 'a world_scheme \<Rightarrow> (string + lua_value, 'a world_scheme) run" where
  "action_call L i os h w =
     (case h of
        Host_obj args \<Rightarrow> host_obj L i args w
      | Host_set args \<Rightarrow> host_set L i args w
      | Host_iosend args \<Rightarrow> host_iosend L i os args w
      | _ \<Rightarrow> return not_registered w)"

text \<open>
  \<open>sleep\<close> gives the mutex away meanwhile; the delay is in seconds, and converted to an \<open>int\<close> of milliseconds.  (A script that overwrites the global
  \<open>__linknx_stop\<close> sleeps without noticing the stop; this is left out.)
\<close>

definition host_sleep ::
    "'l lua \<Rightarrow> ptr \<Rightarrow> lua_value list \<Rightarrow> 'a world_scheme wake list \<Rightarrow> 'a world_scheme
     \<Rightarrow> ((string + lua_value) \<times> mutex_op list, 'a world_scheme) thread" where
  "host_sleep L self args ws w =
     (case map (lua_tonumber L) args of
        [Some delay] \<Rightarrow>
          tbind (Action_sleep self (c_trunc (delay * 1000)) ws w) (\<lambda>stopped.
            tdone (if stopped then Inl ''Action interrupted'' else Inr (LNumber 0), [Unlock, Lock]))
      | _ \<Rightarrow> tdone (bad_argument ''argument to '' ''sleep'', []) ws w)"

definition action_thread_call ::
    "'l lua \<Rightarrow> inputs \<Rightarrow> os \<Rightarrow> ptr \<Rightarrow> host_call \<Rightarrow> 'a world_scheme wake list \<Rightarrow> 'a world_scheme
     \<Rightarrow> ((string + lua_value) \<times> mutex_op list, 'a world_scheme) thread" where
  "action_thread_call L i os self h ws w =
     (case h of
        Host_sleep args \<Rightarrow> host_sleep L self args ws w
      | _ \<Rightarrow> tbind (run_now (action_call L i os h w) ws) (\<lambda>r. tdone (r, [])))"

text \<open>Errors are logged; what is returned is what was done with the mutex, and the state of the interpreter.\<close>

primrec run_action ::
    "'l lua \<Rightarrow> inputs \<Rightarrow> os \<Rightarrow> ptr \<Rightarrow> 'l script \<Rightarrow> 'a world_scheme wake list \<Rightarrow> 'a world_scheme
     \<Rightarrow> (mutex_op list \<times> 'l, 'a world_scheme) thread" where
  "run_action L i os self (Finished b st) ws w = tdone ([], st) ws w"
| "run_action L i os self (Failed msg st) ws w = tdone ([], st) ws w"
| "run_action L i os self (Calls h k) ws w =
     tbind (action_thread_call L i os self h ws w) (\<lambda>(r, ops) ws w.
     tbind (run_action L i os self (k r) ws w) (\<lambda>(ops', st). tdone (ops @ ops', st)))"

definition LuaScriptAction_Run ::
    "'l lua \<Rightarrow> inputs \<Rightarrow> os \<Rightarrow> ptr \<Rightarrow> int \<Rightarrow> 'l LuaScriptAction \<Rightarrow> 'a world_scheme wake list \<Rightarrow> 'a world_scheme
     \<Rightarrow> (mutex_op list \<times> 'l LuaScriptAction, 'a world_scheme) thread" where
  "LuaScriptAction_Run L i os self delay a ws w =
     tbind (Action_sleep self delay ws w) (\<lambda>stopped ws w.
       if stopped then tdone ([], a) ws w
       else
         tbind (run_action L i os self (luaL_dostring L (la_code a) (la_state a)) ws w) (\<lambda>(ops, st).
           tdone (Lock # ops @ [Unlock], a\<lparr>la_state := st\<rparr>)))"

end
