(* ===== verification/Script_Laws.thy ===== *)
theory Script_Laws
  imports Scripts
begin

text \<open>The mutex of the scripts: scripts that do not fail leave it free; one condition that fails keeps it for ever.\<close>

section \<open>Threads that run scripts\<close>

text \<open>Each thread has operations on the mutex before it; it can begin a script at any time, also within another.\<close>

record lua_threads =
  lt_mutex :: LuaMain
  lt_todo :: "nat \<Rightarrow> mutex_op list"

inductive lua_step :: "(mutex_op list \<Rightarrow> bool) \<Rightarrow> lua_threads \<Rightarrow> lua_threads \<Rightarrow> bool" for scripts where
  does: "lt_todo s t = op # ops \<Longrightarrow> do_op t op (lt_mutex s) = Some m \<Longrightarrow>
    lua_step scripts s (s\<lparr>lt_mutex := m, lt_todo := (lt_todo s)(t := ops)\<rparr>)"
| begins: "scripts ops \<Longrightarrow> lua_step scripts s (s\<lparr>lt_todo := (lt_todo s)(t := ops @ lt_todo s t)\<rparr>)"

text \<open>The scripts of the program, with the number of times an action sleeps.\<close>

definition action_ops :: "nat \<Rightarrow> mutex_op list" where
  "action_ops n = Lock # concat (replicate n [Unlock, Lock]) @ [Unlock]"

definition orderly :: "mutex_op list \<Rightarrow> bool" where
  "orderly ops \<longleftrightarrow> ops = [] \<or> (\<exists>n. ops = action_ops n)"

definition of_script :: "mutex_op list \<Rightarrow> bool" where
  "of_script ops \<longleftrightarrow> orderly ops \<or> ops = [Lock]"

lemma evaluate_of_script:
  assumes "LuaCondition_evaluate L i c w = (effs, Inr (b, ops, c'), w')"
  shows "of_script ops"
proof -
  have short: "orderly [Lock, Unlock]" by (auto simp: orderly_def action_ops_def intro: exI [of _ 0])
  have "ops = [Lock, Unlock] \<or> ops = [Lock]"
    using assms by (auto simp: LuaCondition_evaluate_def bind_def return_def split: prod.splits sum.splits)
  then show ?thesis using short by (auto simp: of_script_def)
qed

lemma sleeping_ops:
  "run_action L i os self scr ws w = (evs, Returned (ops, st), ws', w') \<Longrightarrow> \<exists>n. ops = concat (replicate n [Unlock, Lock])"
proof (induction scr arbitrary: ws w evs ops st ws' w')
  case (Calls h k)
  obtain evs1 res ws1 w1 where one: "action_thread_call L i os self h ws w = (evs1, res, ws1, w1)" by (cases "action_thread_call L i os self h ws w")
  with Calls.prems obtain r ops1 where r: "res = Returned (r, ops1)" by (cases res) auto
  have ops1: "\<exists>n. ops1 = concat (replicate n [Unlock, Lock])"
  proof -
    have "ops1 = [] \<or> ops1 = [Unlock, Lock]"
      using one r by (auto simp: action_thread_call_def host_sleep_def tbind_def tdone_def
        split: host_call.splits prod.splits progress.splits list.splits option.splits)
    moreover have "[] = concat (replicate 0 [Unlock, Lock])" "[Unlock, Lock] = concat (replicate 1 [Unlock, Lock])" by simp_all
    ultimately show ?thesis by metis
  qed
  obtain evs2 res2 ws2 w2 where two: "run_action L i os self (k r) ws1 w1 = (evs2, res2, ws2, w2)" by (cases "run_action L i os self (k r) ws1 w1")
  with Calls.prems one r obtain ops2 st2 where "res2 = Returned (ops2, st2)" and ops: "ops = ops1 @ ops2"
    by (cases res2) (auto simp: tbind_def tdone_def)
  with Calls.IH [OF _ two [unfolded this(1)]] obtain n where "ops2 = concat (replicate n [Unlock, Lock])" by blast
  moreover obtain m where "ops1 = concat (replicate m [Unlock, Lock])" using ops1 by blast
  ultimately have "ops = concat (replicate (m + n) [Unlock, Lock])" by (simp add: ops replicate_add)
  then show ?case by blast
qed (auto simp: tdone_def intro: exI [of _ 0])

lemma action_orderly:
  assumes "LuaScriptAction_Run L i os self delay a ws w = (evs, Returned (ops, a'), ws', w')"
  shows "orderly ops"
  using assms
  by (auto simp: LuaScriptAction_Run_def tbind_def tdone_def orderly_def action_ops_def
      split: prod.splits progress.splits if_splits dest: sleeping_ops)

section \<open>A script that failed\<close>

text \<open>The operations never bring the count of the owner to 0.\<close>

fun kept :: "nat \<Rightarrow> mutex_op list \<Rightarrow> bool" where
  "kept n [] \<longleftrightarrow> 1 \<le> n"
| "kept n (Lock # ops) \<longleftrightarrow> 1 \<le> n \<and> kept (n + 1) ops"
| "kept n (Unlock # ops) \<longleftrightarrow> 2 \<le> n \<and> kept (n - 1) ops"

lemma kept_more: "kept n ops \<Longrightarrow> n \<le> m \<Longrightarrow> kept m ops"
  by (induction n ops arbitrary: m rule: kept.induct) auto

lemma kept_pos: "kept n ops \<Longrightarrow> 1 \<le> n"
  by (cases "(n, ops)" rule: kept.cases) auto

lemma kept_sleeps: "kept n ops \<Longrightarrow> kept (n + 1) (concat (replicate k [Unlock, Lock]) @ Unlock # ops)"
  using kept_pos by (induction k) fastforce+

lemma kept_script: "of_script new \<Longrightarrow> kept n ops \<Longrightarrow> kept n (new @ ops)"
  using kept_pos kept_sleeps kept_more [of n ops "n + 1"] by (auto simp: of_script_def orderly_def action_ops_def)

definition held_by :: "nat \<Rightarrow> lua_threads \<Rightarrow> bool" where
  "held_by t s \<longleftrightarrow> mutex_owner (lt_mutex s) = Some t \<and> kept (mutex_count (lt_mutex s)) (lt_todo s t)"

lemma held_for_ever: "lua_step of_script s s' \<Longrightarrow> held_by t s \<Longrightarrow> held_by t s'"
proof (induction rule: lua_step.induct)
  case (does s u op ops m)
  show ?case
  proof (cases "u = t")
    case True
    with does show ?thesis by (cases op) (auto simp: held_by_def LuaMain_lock_def LuaMain_unlock_def)
  next
    case False
    with does show ?thesis by (cases op) (auto simp: held_by_def LuaMain_lock_def LuaMain_unlock_def)
  qed
next
  case (begins ops s u)
  then show ?case by (auto simp: held_by_def kept_script)
qed

fun do_ops :: "nat \<Rightarrow> mutex_op list \<Rightarrow> LuaMain \<Rightarrow> LuaMain option" where
  "do_ops t [] m = Some m"
| "do_ops t (op # ops) m = (case do_op t op m of None \<Rightarrow> None | Some m' \<Rightarrow> do_ops t ops m')"

text \<open>
  C30.  When the script of a condition fails, the condition counts as not met, but its thread keeps the mutex: whatever scripts are run
  from then on, no other thread ever runs one again.
\<close>

theorem failed_script_blocks_others:
  assumes "run_condition L i (luaL_dostring L (lc_code c) (lc_state c)) w = (effs, Inr (Inl msg, st), w')"
    and "LuaCondition_evaluate L i c w = (effs', Inr (b, ops, c'), w'')"
    and "mutex_owner (lt_mutex s) = None" and "lt_todo s t = []" and "do_ops t ops (lt_mutex s) = Some m"
    and "(lua_step of_script)\<^sup>*\<^sup>* (s\<lparr>lt_mutex := m\<rparr>) s'" and "u \<noteq> t"
  shows "\<not> b \<and> LuaMain_lock u (lt_mutex s') = None"
proof -
  have b: "\<not> b" "ops = [Lock]" using assms(1,2) by (auto simp: LuaCondition_evaluate_def bind_def return_def)
  then have "held_by t (s\<lparr>lt_mutex := m\<rparr>)"
    using assms(3-5) by (auto simp: held_by_def LuaMain_lock_def)
  with assms(6) have "held_by t s'"
    by (induction rule: rtranclp_induct) (auto intro: held_for_ever)
  then show ?thesis using assms(7) b by (simp add: held_by_def LuaMain_lock_def)
qed

text \<open>A condition that fails in the thread 1, and another script in the thread 2.\<close>

theorem failed_script_blocks_others_witness:
  "\<forall>(i :: inputs) (w :: world).
     (let L = \<lparr>lua_newstate = (), luaL_dostring = (\<lambda>code st. Failed code st), lua_number_text = (\<lambda>_. ''''), lua_text_number = (\<lambda>_. None),
               lua_integer = (\<lambda>_. 0)\<rparr>;
          s = \<lparr>lt_mutex = \<lparr>mutex_owner = Some 1, mutex_count = 1\<rparr>, lt_todo = (\<lambda>_. [])(2 := [Lock, Unlock])\<rparr>
      in \<not> fst (projr (fst (snd (LuaCondition_evaluate L i (LuaCondition_new L) w)))) \<and> LuaMain_lock 2 (lt_mutex s) = None)"
proof (intro allI)
  fix i :: inputs and w :: world
  define L :: "unit lua" where "L = \<lparr>lua_newstate = (), luaL_dostring = (\<lambda>code st. Failed code st), lua_number_text = (\<lambda>_. ''''),
    lua_text_number = (\<lambda>_. None), lua_integer = (\<lambda>_. 0)\<rparr>"
  define s where "s = \<lparr>lt_mutex = LuaMain_new, lt_todo = (\<lambda>_ :: nat. [] :: mutex_op list)\<rparr>"
  define m where "m = \<lparr>mutex_owner = Some (1 :: nat), mutex_count = 1\<rparr>"
  have fails: "run_condition L i (luaL_dostring L (lc_code (LuaCondition_new L)) (lc_state (LuaCondition_new L))) w = ([], Inr (Inl '''', ()), w)"
    by (simp add: L_def LuaCondition_new_def return_def)
  have evals: "LuaCondition_evaluate L i (LuaCondition_new L) w = ([], Inr (False, [Lock], LuaCondition_new L), w)"
    unfolding LuaCondition_evaluate_def fails by (simp add: bind_def return_def LuaCondition_new_def)
  have "orderly [Lock, Unlock]" by (auto simp: orderly_def action_ops_def intro: exI [of _ 0])
  then have "lua_step of_script (s\<lparr>lt_mutex := m\<rparr>) (s\<lparr>lt_mutex := m, lt_todo := (lt_todo s)(2 := [Lock, Unlock])\<rparr>)"
    using lua_step.begins [of of_script "[Lock, Unlock]" "s\<lparr>lt_mutex := m\<rparr>" 2] by (simp add: of_script_def s_def)
  then have steps: "(lua_step of_script)\<^sup>*\<^sup>* (s\<lparr>lt_mutex := m\<rparr>) (s\<lparr>lt_mutex := m, lt_todo := (lt_todo s)(2 := [Lock, Unlock])\<rparr>)"
    by (rule r_into_rtranclp)
  have other: "(2 :: nat) \<noteq> 1" by simp
  have "\<not> False \<and> LuaMain_lock 2 (lt_mutex (s\<lparr>lt_mutex := m, lt_todo := (lt_todo s)(2 := [Lock, Unlock])\<rparr>)) = None"
    by (rule failed_script_blocks_others [OF fails evals _ _ _ steps other])
      (simp_all add: s_def m_def LuaMain_new_def LuaMain_lock_def)
  then show "let L = \<lparr>lua_newstate = (), luaL_dostring = (\<lambda>code st. Failed code st), lua_number_text = (\<lambda>_. ''''), lua_text_number = (\<lambda>_. None),
               lua_integer = (\<lambda>_. 0)\<rparr>;
          s = \<lparr>lt_mutex = \<lparr>mutex_owner = Some 1, mutex_count = 1\<rparr>, lt_todo = (\<lambda>_. [])(2 := [Lock, Unlock])\<rparr>
      in \<not> fst (projr (fst (snd (LuaCondition_evaluate L i (LuaCondition_new L) w)))) \<and> LuaMain_lock 2 (lt_mutex s) = None"
    using evals by (simp add: Let_def m_def flip: L_def)
qed

section \<open>Scripts that do not fail\<close>

text \<open>The count of a thread after its operations.\<close>

fun depth :: "nat \<Rightarrow> mutex_op list \<Rightarrow> nat" where
  "depth n [] = n"
| "depth n (Lock # ops) = depth (n + 1) ops"
| "depth n (Unlock # ops) = depth (n - 1) ops"

definition count_of :: "nat \<Rightarrow> LuaMain \<Rightarrow> nat" where
  "count_of t m = (if mutex_owner m = Some t then mutex_count m else 0)"

definition all_release :: "lua_threads \<Rightarrow> bool" where
  "all_release s \<longleftrightarrow> (\<forall>t. depth (count_of t (lt_mutex s)) (lt_todo s t) = 0 \<and> (mutex_owner (lt_mutex s) = Some t \<longrightarrow> 1 \<le> mutex_count (lt_mutex s)))"

lemma depth_sleeps: "depth (n + 1) (concat (replicate k [Unlock, Lock]) @ Unlock # ops) = depth n ops"
  by (induction k) auto

lemma depth_orderly: "orderly new \<Longrightarrow> depth n (new @ ops) = depth n ops"
  using depth_sleeps by (auto simp: orderly_def action_ops_def)

lemma release_step: "lua_step orderly s s' \<Longrightarrow> all_release s \<Longrightarrow> all_release s'"
proof (induction rule: lua_step.induct)
  case (does s t op ops m)
  have one: "depth (count_of t m) ops = depth (count_of t (lt_mutex s)) (op # ops)"
      "\<And>u. u \<noteq> t \<Longrightarrow> count_of u m = count_of u (lt_mutex s)"
      "\<And>u. mutex_owner m = Some u \<Longrightarrow> 1 \<le> mutex_count m"
    using does(2,3)
    by (cases op; auto simp: all_release_def count_of_def LuaMain_lock_def LuaMain_unlock_def split: option.splits if_splits)+
  moreover have "depth (count_of t (lt_mutex s)) (op # ops) = 0"
    using does(1,3) by (metis all_release_def)
  ultimately show ?case
    using does(3) by (auto simp: all_release_def)
next
  case (begins ops s t)
  then show ?case by (auto simp: all_release_def depth_orderly)
qed

text \<open>
   As long as no condition fails, the mutex is free when no thread has operations on it left: scripts that begin at any time, within
  each other, and actions that sleep in between give it back.
\<close>

theorem orderly_scripts_release:
  assumes "(lua_step orderly)\<^sup>*\<^sup>* \<lparr>lt_mutex = LuaMain_new, lt_todo = (\<lambda>_. [])\<rparr> s" and "\<forall>t. lt_todo s t = []"
  shows "mutex_owner (lt_mutex s) = None"
proof -
  have "all_release \<lparr>lt_mutex = LuaMain_new, lt_todo = (\<lambda>_. [])\<rparr>" by (simp add: all_release_def count_of_def LuaMain_new_def)
  with assms(1) have "all_release s"
    by (induction rule: rtranclp_induct) (auto intro: release_step)
  then have "count_of t (lt_mutex s) = 0 \<and> (mutex_owner (lt_mutex s) = Some t \<longrightarrow> 1 \<le> mutex_count (lt_mutex s))" for t
    using assms(2) unfolding all_release_def by (metis depth.simps(1))
  from this [of "the (mutex_owner (lt_mutex s))"] show ?thesis
    by (cases "mutex_owner (lt_mutex s)") (auto simp: count_of_def)
qed

theorem orderly_scripts_release_witness:
  "mutex_owner (lt_mutex \<lparr>lt_mutex = LuaMain_unlock 1 \<lparr>mutex_owner = Some 1, mutex_count = 1\<rparr>, lt_todo = (\<lambda>_. [])\<rparr>) = None"
proof (rule orderly_scripts_release)
  let ?s0 = "\<lparr>lt_mutex = LuaMain_new, lt_todo = (\<lambda>_. [])\<rparr>" and ?m = "\<lparr>mutex_owner = Some 1, mutex_count = 1\<rparr>"
  let ?s1 = "?s0\<lparr>lt_todo := (\<lambda>_. [])(1 := [Lock, Unlock])\<rparr>" and ?s2 = "\<lparr>lt_mutex = ?m, lt_todo = (\<lambda>_. [])(1 := [Unlock])\<rparr>"
  have "orderly [Lock, Unlock]" by (auto simp: orderly_def action_ops_def intro: exI [of _ 0])
  then have one: "lua_step orderly ?s0 ?s1" using lua_step.begins [of orderly "[Lock, Unlock]" ?s0 1] by simp
  have two: "lua_step orderly ?s1 ?s2"
    using lua_step.does [of ?s1 1 Lock "[Unlock]" ?m orderly] by (simp add: LuaMain_lock_def LuaMain_new_def)
  have "lua_step orderly ?s2 \<lparr>lt_mutex = LuaMain_unlock 1 ?m, lt_todo = (\<lambda>_. [])\<rparr>"
    using lua_step.does [of ?s2 1 Unlock "[]" "LuaMain_unlock 1 ?m" orderly] by (simp add: fun_upd_idem)
  with one two show "(lua_step orderly)\<^sup>*\<^sup>* ?s0 \<lparr>lt_mutex = LuaMain_unlock 1 ?m, lt_todo = (\<lambda>_. [])\<rparr>"
    by (meson converse_rtranclp_into_rtranclp r_into_rtranclp)
qed simp

end
