(* ===== verification/Base64.thy ===== *)
theory Base64
  imports Knx_Prelude
begin

text \<open>
  b64: the base 64 encoder and decoder (b64/src/cencode.c, b64/src/cdecode.c and their wrappers in b64/include/b64), which
  the subjects of e-mails go through.  The C functions are coroutines: a \<open>switch\<close> jumps into an endless loop that consumes a
  character at each step and leaves the step it is at in the state when the block is over.  Here the body of each step is a function of
  the state and the character, and a block is the list of its characters.
\<close>

section \<open>The encoder\<close>

datatype base64_encodestep = step_A | step_B | step_C

record base64_encodestate =
  e_step :: base64_encodestep
  e_result :: byte
  e_stepcount :: nat

definition base64_init_encodestate :: base64_encodestate where
  "base64_init_encodestate = \<lparr>e_step = step_A, e_result = 0, e_stepcount = 0\<rparr>"

definition CHARS_PER_LINE :: nat where
  "CHARS_PER_LINE = 72"

definition encoding :: "byte list" where
  "encoding = map of_char ''ABCDEFGHIJKLMNOPQRSTUVWXYZabcdefghijklmnopqrstuvwxyz0123456789+/''"

definition base64_encode_value :: "byte \<Rightarrow> byte" where
  "base64_encode_value v = (if 63 <s v then 0x3d else encoding ! unat v)"

text \<open>The body of the loop at each step; \<open>0x0a\<close> ends a line after 18 groups of four characters.\<close>

definition encode_step :: "base64_encodestate \<Rightarrow> byte \<Rightarrow> byte list \<times> base64_encodestate" where
  "encode_step st fragment =
     (case e_step st of
        step_A \<Rightarrow>
          ([base64_encode_value (drop_bit 2 (fragment AND 0xfc))],
           st\<lparr>e_step := step_B, e_result := push_bit 4 (fragment AND 0x03)\<rparr>)
      | step_B \<Rightarrow>
          ([base64_encode_value (e_result st OR drop_bit 4 (fragment AND 0xf0))],
           st\<lparr>e_step := step_C, e_result := push_bit 2 (fragment AND 0x0f)\<rparr>)
      | step_C \<Rightarrow>
          (let n = e_stepcount st + 1; full = (n = CHARS_PER_LINE div 4) in
           ([base64_encode_value (e_result st OR drop_bit 6 (fragment AND 0xc0)), base64_encode_value (fragment AND 0x3f)]
              @ (if full then [0x0a] else []),
            \<lparr>e_step = step_A, e_result = fragment AND 0x3f, e_stepcount = (if full then 0 else n)\<rparr>)))"

fun base64_encode_block :: "byte list \<Rightarrow> base64_encodestate \<Rightarrow> byte list \<times> base64_encodestate" where
  "base64_encode_block [] st = ([], st)"
| "base64_encode_block (b # bs) st =
     (let (out, st) = encode_step st b; (rest, st) = base64_encode_block bs st in (out @ rest, st))"

definition base64_encode_blockend :: "base64_encodestate \<Rightarrow> byte list" where
  "base64_encode_blockend st =
     (case e_step st of
        step_B \<Rightarrow> [base64_encode_value (e_result st), 0x3d, 0x3d]
      | step_C \<Rightarrow> [base64_encode_value (e_result st), 0x3d]
      | step_A \<Rightarrow> []) @ [0x0a]"

text \<open>The wrapper encodes the stream in the blocks it reads.\<close>

fun encode_blocks :: "byte list list \<Rightarrow> base64_encodestate \<Rightarrow> byte list" where
  "encode_blocks [] st = base64_encode_blockend st"
| "encode_blocks (block # blocks) st = (let (out, st) = base64_encode_block block st in out @ encode_blocks blocks st)"

definition encoder_encode :: "byte list list \<Rightarrow> byte list" where
  "encoder_encode blocks = encode_blocks blocks base64_init_encodestate"

section \<open>The decoder\<close>

datatype base64_decodestep = step_a | step_b | step_c | step_d

record base64_decodestate =
  d_step :: base64_decodestep
  d_plainchar :: byte

definition base64_init_decodestate :: base64_decodestate where
  "base64_init_decodestate = \<lparr>d_step = step_a, d_plainchar = 0\<rparr>"

definition decoding :: "int list" where
  "decoding = [62,-1,-1,-1,63,52,53,54,55,56,57,58,59,60,61,-1,-1,-1,-2,-1,-1,-1,0,1,2,3,4,5,6,7,8,9,10,11,12,13,14,15,16,17,18,19,
     20,21,22,23,24,25,-1,-1,-1,-1,-1,-1,26,27,28,29,30,31,32,33,34,35,36,37,38,39,40,41,42,43,44,45,46,47,48,49,50,51]"

definition base64_decode_value :: "byte \<Rightarrow> int" where
  "base64_decode_value c =
     (let v = sint (c - 43) in if v < 0 \<or> int (length decoding) \<le> v then -1 else decoding ! nat v)"

text \<open>
  A character: those outside of the alphabet are skipped.  \<open>d_plainchar\<close> is the cell the next bits are added to; after a group of
  four the code reads a cell it has not written, and does not use it.
\<close>

definition decode_step :: "base64_decodestate \<Rightarrow> byte \<Rightarrow> byte list \<times> base64_decodestate" where
  "decode_step st c =
     (let v = base64_decode_value c; fragment = word_of_int v :: byte in
      if v < 0 then ([], st)
      else
        (case d_step st of
           step_a \<Rightarrow> ([], \<lparr>d_step = step_b, d_plainchar = push_bit 2 (fragment AND 0x3f)\<rparr>)
         | step_b \<Rightarrow> ([d_plainchar st OR drop_bit 4 (fragment AND 0x30)], \<lparr>d_step = step_c, d_plainchar = push_bit 4 (fragment AND 0x0f)\<rparr>)
         | step_c \<Rightarrow> ([d_plainchar st OR drop_bit 2 (fragment AND 0x3c)], \<lparr>d_step = step_d, d_plainchar = push_bit 6 (fragment AND 0x03)\<rparr>)
         | step_d \<Rightarrow> ([d_plainchar st OR (fragment AND 0x3f)], st\<lparr>d_step := step_a\<rparr>)))"

fun base64_decode_block :: "byte list \<Rightarrow> base64_decodestate \<Rightarrow> byte list \<times> base64_decodestate" where
  "base64_decode_block [] st = ([], st)"
| "base64_decode_block (c # cs) st =
     (let (out, st) = decode_step st c; (rest, st) = base64_decode_block cs st in (out @ rest, st))"

fun decode_blocks :: "byte list list \<Rightarrow> base64_decodestate \<Rightarrow> byte list" where
  "decode_blocks [] st = []"
| "decode_blocks (block # blocks) st = (let (out, st) = base64_decode_block block st in out @ decode_blocks blocks st)"

definition decoder_decode :: "byte list list \<Rightarrow> byte list" where
  "decoder_decode blocks = decode_blocks blocks base64_init_decodestate"

end
