(* ===== verification/Gateways.thy ===== *)
theory Gateways
  imports Base64 Codecs Xml
begin

text \<open>
  src/smsgateway.cpp and src/emailgateway.cpp: the two ways to reach a person.  The libraries for HTTP and SMTP are known by what they are
  given: a URL, or the parts of a message.  The program is taken to be built with both of them.
\<close>

section \<open>SMS\<close>

datatype SmsGatewayType = Clickatell | FreeMobile | UnknownSms

record SmsGateway =
  sms_type :: SmsGatewayType
  sms_user :: string
  sms_pass :: string
  sms_data :: string
  sms_from :: string

definition SmsGateway_new :: SmsGateway where
  "SmsGateway_new = \<lparr>sms_type = UnknownSms, sms_user = '''', sms_pass = '''', sms_data = '''', sms_from = ''''\<rparr>"

text \<open>The getter with a pointer: it throws when there is no such attribute, and stores the text otherwise.\<close>

definition require :: "xml \<Rightarrow> string \<Rightarrow> (string \<Rightarrow> 'g \<Rightarrow> 'g) \<Rightarrow> (exn option \<times> 'g \<Rightarrow> exn option \<times> 'g)" where
  "require cfg name put =
     (\<lambda>(err, g). case err of
        Some x \<Rightarrow> (Some x, g)
      | None \<Rightarrow> (case attribute cfg name of None \<Rightarrow> (Some (Bad_config name), g) | Some v \<Rightarrow> (None, put v g)))"

text \<open>The gateway keeps what was set before an exception.\<close>

definition SmsGateway_importXml :: "xml \<Rightarrow> SmsGateway \<Rightarrow> exn option \<times> SmsGateway" where
  "SmsGateway_importXml cfg g =
     (let type = GetAttribute cfg ''type'' in
      if type = ''clickatell'' then
        (case require cfg ''api_id'' (\<lambda>v g. g\<lparr>sms_data := v\<rparr>) (require cfg ''pass'' (\<lambda>v g. g\<lparr>sms_pass := v\<rparr>)
            (require cfg ''user'' (\<lambda>v g. g\<lparr>sms_user := v\<rparr>) (None, g\<lparr>sms_type := Clickatell\<rparr>))) of
           (Some x, g) \<Rightarrow> (Some x, g)
         | (None, g) \<Rightarrow> (None, g\<lparr>sms_from := GetAttribute cfg ''from''\<rparr>))
      else if type = ''freemobile'' then
        (case require cfg ''pass'' (\<lambda>v g. g\<lparr>sms_pass := v\<rparr>)
            (require cfg ''user'' (\<lambda>v g. g\<lparr>sms_user := v\<rparr>) (None, g\<lparr>sms_type := FreeMobile\<rparr>)) of
           (Some x, g) \<Rightarrow> (Some x, g)
         | (None, g) \<Rightarrow> (None, g\<lparr>sms_data := '''', sms_from := ''''\<rparr>))
      else if type = '''' then (None, g\<lparr>sms_type := UnknownSms, sms_user := '''', sms_pass := '''', sms_data := ''''\<rparr>)
      else (Some (Bad_type type), g))"

definition SmsGateway_exportXml :: "SmsGateway \<Rightarrow> xml \<Rightarrow> xml" where
  "SmsGateway_exportXml g e =
     (case sms_type g of
        Clickatell \<Rightarrow>
          (let e = SetAttribute ''api_id'' (sms_data g) (SetAttribute ''pass'' (sms_pass g) (SetAttribute ''user'' (sms_user g)
                     (SetAttribute ''type'' ''clickatell'' e)))
           in if sms_from g \<noteq> '''' then SetAttribute ''from'' (sms_from g) e else e)
      | FreeMobile \<Rightarrow> SetAttribute ''pass'' (sms_pass g) (SetAttribute ''user'' (sms_user g) (SetAttribute ''type'' ''freemobile'' e))
      | UnknownSms \<Rightarrow> e)"

text \<open>The parameters are a \<open>std::map\<close>, ordered by name; \<open>curl_escape\<close> escapes their values.\<close>

fun rest_parameters :: "(string \<Rightarrow> string) \<Rightarrow> string \<Rightarrow> (string \<times> string) list \<Rightarrow> string" where
  "rest_parameters curl_escape separator [] = ''''"
| "rest_parameters curl_escape separator ((name, value) # ps) =
     separator @ name @ ''='' @ curl_escape value @ rest_parameters curl_escape ''&'' ps"

definition sendSmsThroughREST :: "(string \<Rightarrow> string) \<Rightarrow> string \<Rightarrow> (string \<times> string) list \<Rightarrow> string" where
  "sendSmsThroughREST curl_escape baseUrl parameters = baseUrl @ rest_parameters curl_escape ''?'' parameters"

definition sms_parameters :: "SmsGateway \<Rightarrow> string \<Rightarrow> string \<Rightarrow> (string \<times> string) list" where
  "sms_parameters g ident value =
     (case sms_type g of
        Clickatell \<Rightarrow> [(''api_id'', sms_data g)] @ (if sms_from g \<noteq> '''' then [(''from'', sms_from g)] else [])
                      @ [(''password'', sms_pass g), (''text'', value), (''to'', ident), (''user'', sms_user g)]
      | FreeMobile \<Rightarrow> [(''msg'', value), (''pass'', sms_pass g), (''user'', sms_user g)]
      | UnknownSms \<Rightarrow> [])"

text \<open>The URL that is requested, if any.\<close>

definition sendSms :: "(string \<Rightarrow> string) \<Rightarrow> SmsGateway \<Rightarrow> string \<Rightarrow> string \<Rightarrow> string option" where
  "sendSms curl_escape g ident value =
     (case sms_type g of
        Clickatell \<Rightarrow> Some (sendSmsThroughREST curl_escape ''http://api.clickatell.com/http/sendmsg'' (sms_parameters g ident value))
      | FreeMobile \<Rightarrow> Some (sendSmsThroughREST curl_escape ''https://smsapi.free-mobile.fr/sendmsg'' (sms_parameters g ident value))
      | UnknownSms \<Rightarrow> None)"

section \<open>The body of a message\<close>

record MessageBody =
  mb_text :: string
  mb_status :: nat

abbreviation CR :: char where "CR \<equiv> CHR 0x0D"
abbreviation LF :: char where "LF \<equiv> CHR 0x0A"

text \<open>The loop: \<open>start\<close> is where the current line begins; the position of the next line feed is searched from there.\<close>

definition find_from :: "string \<Rightarrow> char \<Rightarrow> nat \<Rightarrow> nat option" where
  "find_from text c start =
     (let rest = drop start text in if c \<in> set rest then Some (start + length (takeWhile (\<lambda>x. x \<noteq> c) rest)) else None)"

definition substr_len :: "string \<Rightarrow> nat \<Rightarrow> nat \<Rightarrow> string" where
  "substr_len text start len = take len (drop start text)"

lemma takeWhile_before: "c \<in> set xs \<Longrightarrow> length (takeWhile (\<lambda>x. x \<noteq> c) xs) < length xs"
  by (induction xs) auto

lemma find_from_bounds: "find_from text c start = Some pos \<Longrightarrow> start \<le> pos \<and> pos < length text"
proof -
  assume found: "find_from text c start = Some pos"
  let ?rest = "drop start text"
  have "c \<in> set ?rest" and pos: "pos = start + length (takeWhile (\<lambda>x. x \<noteq> c) ?rest)"
    using found by (simp_all add: find_from_def Let_def split: if_splits)
  then have "length (takeWhile (\<lambda>x. x \<noteq> c) ?rest) < length ?rest"
    by (intro takeWhile_before)
  then show ?thesis using pos by simp
qed

function crlf_lines :: "string \<Rightarrow> nat \<Rightarrow> string" where
  "crlf_lines text start =
     (case find_from text LF start of
        None \<Rightarrow> drop start text @ [CR, LF]
      | Some pos \<Rightarrow>
          (if pos = 0 then [CR, LF]
           else if text ! (pos - 1) = CR then substr_len text start (pos - start - 1) @ [CR, LF]
           else substr_len text start (pos - start) @ [CR, LF])
          @ crlf_lines text (pos + 1))"
  by pat_completeness auto
termination
  by (relation "measure (\<lambda>(text, start). length text - start)") (auto dest: find_from_bounds)

declare crlf_lines.simps [simp del]

definition MessageBody_new :: "string \<Rightarrow> MessageBody" where
  "MessageBody_new text = \<lparr>mb_text = crlf_lines text 0, mb_status = 0\<rparr>"

definition mime_header :: string where
  "mime_header = ''MIME-Version: 1.0'' @ [CR, LF] @ ''Content-Type: text/plain; charset=UTF-8; format=flowed'' @ [CR, LF]
     @ ''Content-Transfer-Encoding: 8bit'' @ [CR, LF] @ [CR, LF]"

text \<open>Without a pointer for the length the message starts over.\<close>

definition getData :: "bool \<Rightarrow> MessageBody \<Rightarrow> string option \<times> MessageBody" where
  "getData with_len body =
     (if \<not> with_len then (None, body\<lparr>mb_status := 0\<rparr>)
      else if mb_status body = 0 then (Some mime_header, body\<lparr>mb_status := 1\<rparr>)
      else if mb_status body = 1 then (Some (mb_text body), body\<lparr>mb_status := 2\<rparr>)
      else (None, body))"

section \<open>E-mail\<close>

datatype EmailGatewayType = SMTP | UnknownEmail

record EmailGateway =
  eg_type :: EmailGatewayType
  eg_host :: string
  eg_from :: string
  eg_login :: string
  eg_pass :: string

definition EmailGateway_new :: EmailGateway where
  "EmailGateway_new = \<lparr>eg_type = UnknownEmail, eg_host = '''', eg_from = '''', eg_login = '''', eg_pass = ''''\<rparr>"

definition EmailGateway_importXml :: "xml \<Rightarrow> EmailGateway \<Rightarrow> exn option \<times> EmailGateway" where
  "EmailGateway_importXml cfg g =
     (let type = GetAttribute cfg ''type'' in
      if type = ''smtp'' then
        (case require cfg ''from'' (\<lambda>v g. g\<lparr>eg_from := v\<rparr>) (require cfg ''host'' (\<lambda>v g. g\<lparr>eg_host := v\<rparr>) (None, g\<lparr>eg_type := SMTP\<rparr>)) of
           (Some x, g) \<Rightarrow> (Some x, g)
         | (None, g) \<Rightarrow> (None, g\<lparr>eg_login := GetAttribute cfg ''login'', eg_pass := GetAttribute cfg ''pass''\<rparr>))
      else if type = '''' then (None, g\<lparr>eg_type := UnknownEmail, eg_host := '''', eg_from := '''', eg_login := '''', eg_pass := ''''\<rparr>)
      else (Some (Bad_type type), g))"

definition EmailGateway_exportXml :: "EmailGateway \<Rightarrow> xml \<Rightarrow> xml" where
  "EmailGateway_exportXml g e =
     (case eg_type g of
        SMTP \<Rightarrow>
          (let e = SetAttribute ''from'' (eg_from g) (SetAttribute ''host'' (eg_host g) (SetAttribute ''type'' ''smtp'' e));
               e = (if eg_login g \<noteq> '''' then SetAttribute ''login'' (eg_login g) e else e)
           in if eg_pass g \<noteq> '''' then SetAttribute ''pass'' (eg_pass g) e else e)
      | UnknownEmail \<Rightarrow> e)"

text \<open>What the fields of an authentication are answered with: whether each asks for a password.\<close>

definition authCallback :: "EmailGateway \<Rightarrow> bool list \<Rightarrow> string list" where
  "authCallback g request = map (\<lambda>password. if password then eg_pass g else eg_login g) request"

text \<open>
  The encoder reads the subject in blocks of 2048 bytes; a read that does not fill its block ends the loop, and so does an empty one.
\<close>

fun read_blocks :: "nat \<Rightarrow> 'a list \<Rightarrow> 'a list list" where
  "read_blocks n xs = (if 0 < n \<and> n \<le> length xs then take n xs # read_blocks n (drop n xs) else [xs])"

declare read_blocks.simps [simp del]

definition subject_line :: "string \<Rightarrow> string" where
  "subject_line subject =
     (let encoded = map char_of_byte (encoder_encode (read_blocks 2048 (map byte_of subject)))
      in ''=?utf-8?B?'' @ butlast encoded @ ''?='')"

text \<open>What the SMTP library is given.\<close>

record mail =
  mail_server :: string
  mail_from :: string
  mail_to :: string
  mail_subject :: "string option"
  mail_body :: MessageBody

definition sendEmail :: "EmailGateway \<Rightarrow> string \<Rightarrow> string \<Rightarrow> string \<Rightarrow> mail option" where
  "sendEmail g to subject text =
     (case eg_type g of
        SMTP \<Rightarrow> Some \<lparr>mail_server = eg_host g, mail_from = eg_from g, mail_to = to,
                       mail_subject = (if subject \<noteq> '''' then Some (subject_line subject) else None),
                       mail_body = MessageBody_new text\<rparr>
      | UnknownEmail \<Rightarrow> None)"

end
