(* ===== verification/Services.thy ===== *)
theory Services
  imports PersistentStorage Gateways KnxConnection XmlServer PortListeners
begin

text \<open>
  src/services.cpp and the class \<open>LocationInfo\<close> of src/suncalc.cpp: the services of the program, as they are configured together, and how
  that configuration is written.
\<close>

section \<open>Where the sun is seen from\<close>

record LocationInfo =
  lon_m :: rat
  lat_m :: rat

definition LocationInfo_new :: LocationInfo where
  "LocationInfo_new = \<lparr>lon_m = 0, lat_m = 0\<rparr>"

text \<open>A conversion that fails throws, and has stored 0.\<close>

definition coordinate :: "xml \<Rightarrow> string \<Rightarrow> exn option \<times> rat" where
  "coordinate cfg name =
     (case attribute cfg name of
        None \<Rightarrow> (None, 0)
      | Some s \<Rightarrow> (case get_double s of None \<Rightarrow> (Some (Bad_config s), 0) | Some (x, _) \<Rightarrow> (None, x)))"

definition LocationInfo_importXml :: "xml \<Rightarrow> LocationInfo \<Rightarrow> exn option \<times> LocationInfo" where
  "LocationInfo_importXml cfg loc =
     (case coordinate cfg ''lon'' of
        (Some e, x) \<Rightarrow> (Some e, loc\<lparr>lon_m := x\<rparr>)
      | (None, x) \<Rightarrow> (case coordinate cfg ''lat'' of (err, y) \<Rightarrow> (err, loc\<lparr>lon_m := x, lat_m := y\<rparr>)))"

text \<open>The default precision of a stream is six digits.\<close>

definition LocationInfo_exportXml :: "LocationInfo \<Rightarrow> xml \<Rightarrow> xml" where
  "LocationInfo_exportXml loc e = SetAttribute ''lat'' (fmt_g 6 (lat_m loc)) (SetAttribute ''lon'' (fmt_g 6 (lon_m loc)) e)"

definition LocationInfo_isEmpty :: "LocationInfo \<Rightarrow> bool" where
  "LocationInfo_isEmpty loc \<longleftrightarrow> lon_m loc = 0 \<and> lat_m loc = 0"

section \<open>The services\<close>

text \<open>A pointer is null, points to a service, or to one that was deleted.\<close>

datatype 'b slot = Null | Live 'b | Freed

record Services =
  xmlServer_m :: "XmlServer slot"
  persistentStorage_m :: "PersistentStorage slot"
  smsGateway_m :: SmsGateway
  emailGateway_m :: EmailGateway
  knxConnection_m :: KnxConnection
  exceptionDays_m :: "DaySpec list"
  locationInfo_m :: LocationInfo

definition Services_new :: Services where
  "Services_new =
     \<lparr>xmlServer_m = Null, persistentStorage_m = Null, smsGateway_m = SmsGateway_new, emailGateway_m = EmailGateway_new,
      knxConnection_m = KnxConnection_new, exceptionDays_m = [], locationInfo_m = LocationInfo_new\<rparr>"

text \<open>What the operating system and the libraries answer.\<close>

record libraries =
  li_server :: server_os
  li_files :: file_os
  li_mysql :: mysql
  li_influx :: influx
  li_os :: os
  li_junk :: SerialIOPort

text \<open>\<open>if (p) delete p; p = create (...)\<close>: when \<open>create\<close> throws, the pointer still points to what was deleted.\<close>

definition replace_slot :: "'b option result \<Rightarrow> 'b slot \<Rightarrow> exn option \<times> 'b slot" where
  "replace_slot r old =
     (case r of
        Inl e \<Rightarrow> (Some e, case old of Null \<Rightarrow> Null | _ \<Rightarrow> Freed)
      | Inr None \<Rightarrow> (None, Null)
      | Inr (Some x) \<Rightarrow> (None, Live x))"

definition createDefault :: "libraries \<Rightarrow> Services \<Rightarrow> exn option \<times> Services" where
  "createDefault li s =
     (case replace_slot (res_bind (XmlInetServer_new (li_server li) 1028) (\<lambda>srv. Inr (Some srv))) (xmlServer_m s) of
        (err, p) \<Rightarrow> (err, s\<lparr>xmlServer_m := p\<rparr>))"

text \<open>A step of the configuration: it is skipped when there is no such element.\<close>

definition configure :: "string \<Rightarrow> xml \<Rightarrow> (xml \<Rightarrow> Services \<Rightarrow> exn option \<times> Services) \<Rightarrow> exn option \<times> Services \<Rightarrow> exn option \<times> Services" where
  "configure name cfg f r =
     (case r of
        (Some e, s) \<Rightarrow> (Some e, s)
      | (None, s) \<Rightarrow> (case FirstChildElement name cfg of None \<Rightarrow> (None, s) | Some c \<Rightarrow> f c s))"

definition configure_sms :: "xml \<Rightarrow> Services \<Rightarrow> exn option \<times> Services" where
  "configure_sms c s = (case SmsGateway_importXml c (smsGateway_m s) of (err, g) \<Rightarrow> (err, s\<lparr>smsGateway_m := g\<rparr>))"

definition configure_email :: "xml \<Rightarrow> Services \<Rightarrow> exn option \<times> Services" where
  "configure_email c s = (case EmailGateway_importXml c (emailGateway_m s) of (err, g) \<Rightarrow> (err, s\<lparr>emailGateway_m := g\<rparr>))"

definition configure_server :: "libraries \<Rightarrow> xml \<Rightarrow> Services \<Rightarrow> exn option \<times> Services" where
  "configure_server li c s =
     (case replace_slot (res_bind (XmlServer_create (li_server li) c) (\<lambda>srv. Inr (Some srv))) (xmlServer_m s) of
        (err, p) \<Rightarrow> (err, s\<lparr>xmlServer_m := p\<rparr>))"

definition configure_knx :: "xml \<Rightarrow> Services \<Rightarrow> exn option \<times> Services" where
  "configure_knx c s = (None, s\<lparr>knxConnection_m := KnxConnection_importXml c (knxConnection_m s)\<rparr>)"

definition configure_days :: "xml \<Rightarrow> Services \<Rightarrow> exn option \<times> Services" where
  "configure_days c s = (case ExceptionDays_importXml c (exceptionDays_m s) of (err, ds) \<Rightarrow> (err, s\<lparr>exceptionDays_m := ds\<rparr>))"

definition configure_location :: "xml \<Rightarrow> Services \<Rightarrow> exn option \<times> Services" where
  "configure_location c s = (case LocationInfo_importXml c (locationInfo_m s) of (err, loc) \<Rightarrow> (err, s\<lparr>locationInfo_m := loc\<rparr>))"

definition configure_storage :: "libraries \<Rightarrow> xml \<Rightarrow> Services \<Rightarrow> exn option \<times> Services" where
  "configure_storage li c s =
     (case replace_slot (PersistentStorage_create (li_files li) (li_mysql li) (li_influx li) c) (persistentStorage_m s) of
        (err, p) \<Rightarrow> (err, s\<lparr>persistentStorage_m := p\<rparr>))"

text \<open>The services, and then the ports, which are part of the state of the rest of the program.\<close>

definition Services_configure :: "libraries \<Rightarrow> xml \<Rightarrow> Services \<Rightarrow> exn option \<times> Services" where
  "Services_configure li cfg s =
     configure ''persistence'' cfg (configure_storage li)
      (configure ''location'' cfg configure_location
        (configure ''exceptiondays'' cfg configure_days
          (configure ''knxconnection'' cfg configure_knx
            (configure ''xmlserver'' cfg (configure_server li)
              (configure ''emailserver'' cfg configure_email
                (configure ''smsgateway'' cfg configure_sms (None, s)))))))"

definition Services_importXml ::
    "inputs \<Rightarrow> libraries \<Rightarrow> xml \<Rightarrow> Services \<Rightarrow> 'a world_scheme \<Rightarrow> (unit, 'a world_scheme) run \<times> Services" where
  "Services_importXml i li cfg s w =
     (case Services_configure li cfg s of
        (Some e, s) \<Rightarrow> (fail e w, s)
      | (None, s) \<Rightarrow>
          (case FirstChildElement ''ioports'' cfg of
             None \<Rightarrow> (return () w, s)
           | Some c \<Rightarrow> (IOPortManager_importXml i (li_os li) (li_junk li) c w, s)))"

text \<open>The export; a pointer to a deleted service is followed all the same.\<close>

definition export_slot :: "string \<Rightarrow> ('b \<Rightarrow> xml \<Rightarrow> xml) \<Rightarrow> 'b slot \<Rightarrow> xml \<Rightarrow> xml result" where
  "export_slot name f p e =
     (case p of Null \<Rightarrow> Inr e | Live x \<Rightarrow> Inr (LinkEndChild (f x (Element name [] [])) e) | Freed \<Rightarrow> Inl Null_deref)"

definition Services_exportXml :: "Services \<Rightarrow> 'a world_scheme \<Rightarrow> xml \<Rightarrow> xml result" where
  "Services_exportXml s w e =
     (let e = LinkEndChild (SmsGateway_exportXml (smsGateway_m s) (Element ''smsgateway'' [] [])) e;
          e = LinkEndChild (EmailGateway_exportXml (emailGateway_m s) (Element ''emailserver'' [] [])) e in
      res_bind (export_slot ''xmlserver'' XmlServer_exportXml (xmlServer_m s) e) (\<lambda>e.
        let e = LinkEndChild (KnxConnection_exportXml (knxConnection_m s) (Element ''knxconnection'' [] [])) e;
            e = LinkEndChild (ExceptionDays_exportXml (exceptionDays_m s) (Element ''exceptiondays'' [] [])) e;
            e = (if LocationInfo_isEmpty (locationInfo_m s) then e
                 else LinkEndChild (LocationInfo_exportXml (locationInfo_m s) (Element ''location'' [] [])) e) in
      res_bind (export_slot ''persistence'' PersistentStorage_exportXml (persistentStorage_m s) e) (\<lambda>e.
        Inr (LinkEndChild (IOPortManager_exportXml w (Element ''ioports'' [] [])) e))))"

end
