(* ===== verification/Logging.thy ===== *)
theory Logging
  imports TimeSpec
begin

text \<open>
  src/logger.cpp, in both variants: with the library log4cpp, which is known by what it is configured with, and without it, where the
  program decides which messages are shown and with which prefix.
\<close>

section \<open>With log4cpp\<close>

record Logging =
  conffile_m :: string
  output_m :: string
  format_m :: string
  log_level_m :: string
  maxSize_m :: int
  maxIndex_m :: int

definition Logging_new :: Logging where
  "Logging_new = \<lparr>conffile_m = '''', output_m = '''', format_m = '''', log_level_m = '''', maxSize_m = - 1, maxIndex_m = 0\<rparr>"

text \<open>What the root category gets: where the messages go, how they look, and from which level on.\<close>

datatype appender = RollingFile string int int | PlainFile string | Console
datatype layout = BasicLayout | SimpleLayout | PatternLayout string
datatype log_config = BasicConfig | Properties string | Root appender layout int

text \<open>
  What the library answers: the error of reading a file with properties, and the value of the name of a level, if it is one.
\<close>

record log4cpp =
  l4_properties :: "string \<Rightarrow> string option"
  l4_priority :: "string \<Rightarrow> int option"

definition layout_of :: "string \<Rightarrow> layout" where
  "layout_of format =
     (if format = ''basic'' then BasicLayout
      else if format = ''simple'' then SimpleLayout
      else PatternLayout (if format = '''' then ''%d [%5p] %c: %m%n'' else format))"

definition Logging_appender :: "xml \<Rightarrow> Logging \<Rightarrow> (exn + appender) \<times> Logging" where
  "Logging_appender cfg l =
     (if output_m l = '''' then (Inr Console, l)
      else
        (case attribute_int cfg ''maxfilesize'' (- 1) of
           Inl e \<Rightarrow> (Inl e, l)
         | Inr sz \<Rightarrow>
             (let l = l\<lparr>maxSize_m := sz\<rparr> in
              if sz > 0 then
                (case attribute_int cfg ''maxfileindex'' 10 of
                   Inl e \<Rightarrow> (Inl e, l)
                 | Inr idx \<Rightarrow> (Inr (RollingFile (output_m l) (sz * 1024) idx), l\<lparr>maxIndex_m := idx\<rparr>))
              else (Inr (PlainFile (output_m l)), l))))"

text \<open>\<open>INFO\<close> is 600.  An exception leaves the settings read so far.\<close>

definition Logging_importXml :: "log4cpp \<Rightarrow> xml option \<Rightarrow> Logging \<Rightarrow> (exn + log_config) \<times> Logging" where
  "Logging_importXml lib cfg l =
     (case cfg of
        None \<Rightarrow> (Inr BasicConfig, l)
      | Some cfg \<Rightarrow>
          (let l = l\<lparr>conffile_m := GetAttribute cfg ''config''\<rparr> in
           if conffile_m l \<noteq> '''' then
             (case l4_properties lib (conffile_m l) of None \<Rightarrow> (Inr (Properties (conffile_m l)), l) | Some e \<Rightarrow> (Inl (Bad_config e), l))
           else
             (let l = l\<lparr>output_m := GetAttribute cfg ''output'', format_m := GetAttribute cfg ''format'', log_level_m := GetAttribute cfg ''level''\<rparr> in
              case Logging_appender cfg l of
                (Inl e, l) \<Rightarrow> (Inl e, l)
              | (Inr app, l) \<Rightarrow>
                  if log_level_m l = '''' then (Inr (Root app (layout_of (format_m l)) 600), l)
                  else
                    (case l4_priority lib (log_level_m l) of
                       None \<Rightarrow> (Inl (Bad_config (log_level_m l)), l)
                     | Some prio \<Rightarrow> (Inr (Root app (layout_of (format_m l)) prio), l)))))"

definition Logging_exportXml :: "Logging \<Rightarrow> xml \<Rightarrow> xml" where
  "Logging_exportXml l e =
     (if conffile_m l \<noteq> '''' then SetAttribute ''config'' (conffile_m l) e
      else
        (let e = (if output_m l = '''' then e
                  else
                    (let e = SetAttribute ''output'' (output_m l) e in
                     if maxSize_m l = - 1 then e
                     else SetAttribute ''maxfileindex'' (show_int (maxIndex_m l)) (SetAttribute ''maxfilesize'' (show_int (maxSize_m l)) e)));
             e = (if format_m l \<noteq> '''' then SetAttribute ''format'' (format_m l) e else e)
         in if log_level_m l \<noteq> '''' then SetAttribute ''level'' (log_level_m l) e else e))"

section \<open>Without log4cpp\<close>

text \<open>The threshold and whether messages have a time are static; a level that is not known leaves the threshold.\<close>

record Logger =
  logger_level :: int
  timestamp_m :: bool

definition level_value :: "string \<Rightarrow> int option" where
  "level_value name =
     (if name = '''' \<or> name = ''INFO'' then Some 20
      else if name = ''NOTICE'' then Some 30
      else if name = ''WARN'' then Some 40
      else if name = ''ERROR'' then Some 50
      else if name = ''DEBUG'' then Some 10
      else None)"

definition Logging_importXml_plain :: "xml option \<Rightarrow> Logging \<times> Logger \<Rightarrow> Logging \<times> Logger" where
  "Logging_importXml_plain cfg s =
     (case (cfg, s) of
        (None, (l, g)) \<Rightarrow> (l, \<lparr>logger_level = 20, timestamp_m = True\<rparr>)
      | (Some cfg, (l, g)) \<Rightarrow>
          (let l = l\<lparr>format_m := GetAttribute cfg ''format'', log_level_m := GetAttribute cfg ''level''\<rparr> in
           (l, \<lparr>logger_level = (case level_value (log_level_m l) of None \<Rightarrow> logger_level g | Some v \<Rightarrow> v),
                timestamp_m = (format_m l \<noteq> ''simple'')\<rparr>)))"

definition Logging_exportXml_plain :: "Logging \<Rightarrow> xml \<Rightarrow> xml" where
  "Logging_exportXml_plain l e =
     (let e = (if format_m l \<noteq> '''' then SetAttribute ''format'' (format_m l) e else e)
      in if log_level_m l \<noteq> '''' then SetAttribute ''level'' (log_level_m l) e else e)"

text \<open>The streams: the prefix of a message, if it is shown.  Messages for debugging are not compiled in.\<close>

definition addPrefix :: "tm \<Rightarrow> string \<Rightarrow> string \<Rightarrow> Logger \<Rightarrow> string" where
  "addPrefix t cat level g =
     (if timestamp_m g then
        show_int (tm_year t + 1900) @ ''-'' @ pad0 2 (show_int (tm_mon t + 1)) @ ''-'' @ pad0 2 (show_int (tm_mday t)) @ '' ''
        @ pad0 2 (show_int (tm_hour t)) @ '':'' @ pad0 2 (show_int (tm_min t)) @ '':'' @ pad0 2 (show_int (tm_sec t)) @ '' ''
      else '''') @ level @ cat @ '': ''"

definition errorStream :: "tm \<Rightarrow> string \<Rightarrow> Logger \<Rightarrow> string option" where
  "errorStream t cat g = (if logger_level g \<le> 50 then Some (addPrefix t cat ''[ERROR] '' g) else None)"

definition warnStream :: "tm \<Rightarrow> string \<Rightarrow> Logger \<Rightarrow> string option" where
  "warnStream t cat g = (if logger_level g \<le> 40 then Some (addPrefix t cat ''[ WARN] '' g) else None)"

definition infoStream :: "tm \<Rightarrow> string \<Rightarrow> Logger \<Rightarrow> string option" where
  "infoStream t cat g = (if logger_level g \<le> 20 then Some (addPrefix t cat ''[ INFO] '' g) else None)"

definition debugStream :: "tm \<Rightarrow> string \<Rightarrow> Logger \<Rightarrow> string option" where
  "debugStream t cat g = None"

text \<open>One logger for each category, created when it is first asked for.\<close>

definition getInstance :: "string \<Rightarrow> (string \<times> nat) list \<Rightarrow> nat \<times> (string \<times> nat) list" where
  "getInstance cat m = (case map_of m cat of Some l \<Rightarrow> (l, m) | None \<Rightarrow> (length m, m @ [(cat, length m)]))"

end
