(* ===== verification/Base64_Laws.thy ===== *)
theory Base64_Laws
  imports Base64
begin

text \<open>Whatever was encoded is decoded again, however both sides cut their streams; and how long the lines of the code are.\<close>

section \<open>A value of six bits\<close>

lemma encoding_bytes:
  "encoding = map word_of_int ([65..90] @ [97..122] @ [48..57] @ [43, 47])"
  by (simp add: encoding_def upto.simps of_char_def)

lemma decode_encoding: "map base64_decode_value encoding = [0..63]"
  by (simp add: encoding_bytes base64_decode_value_def decoding_def upto.simps Let_def)

lemma decode_encode_value:
  assumes "v < 64"
  shows "base64_decode_value (base64_encode_value v) = uint v"
proof -
  have n: "unat v < 64" using assms by (simp add: word_less_nat_alt)
  have u: "uint v < 64" using assms by (simp add: word_less_alt)
  have u0: "- (2 ^ 7) \<le> uint v" by (rule order_trans [of _ 0]) simp_all
  have "signed_take_bit 7 (uint v) = uint v"
    using u u0 by (intro signed_take_bit_int_eq_self) simp_all
  then have "\<not> 63 <s v" using u by (simp add: word_sless_alt sint_uint)
  moreover have "length encoding = 64" by (simp add: encoding_def)
  moreover have "base64_decode_value (encoding ! unat v) = [0..63] ! unat v"
    using n \<open>length encoding = 64\<close> by (simp flip: decode_encoding)
  moreover have "[0..63] ! unat v = 0 + int (unat v)" using n u by (intro nth_upto) simp
  ultimately show ?thesis using n by (simp add: base64_encode_value_def)
qed

lemma byte_eqI:
  fixes a b :: byte
  assumes "bit a 0 = bit b 0" "bit a 1 = bit b 1" "bit a 2 = bit b 2" "bit a 3 = bit b 3"
    "bit a 4 = bit b 4" "bit a 5 = bit b 5" "bit a 6 = bit b 6" "bit a 7 = bit b 7"
  shows "a = b"
proof (rule bit_word_eqI)
  fix n :: nat
  assume "n < LENGTH(8)"
  then have "n = 0 \<or> n = 1 \<or> n = 2 \<or> n = 3 \<or> n = 4 \<or> n = 5 \<or> n = 6 \<or> n = 7" by auto
  then show "bit a n = bit b n" using assms by auto
qed

lemma six_bits:
  fixes v :: byte
  assumes "\<not> bit v 6" and "\<not> bit v 7"
  shows "v < 64"
proof -
  have "v AND mask 6 = v" by (rule byte_eqI) (use assms in \<open>simp_all add: bit_simps\<close>)
  then show ?thesis using and_mask_less_size [of 6 v] by (simp add: word_size)
qed

text \<open>What the decoder does with the code of a value.\<close>

lemma decode_step_code:
  assumes "v < 64"
  shows "decode_step st (base64_encode_value v) =
    (case d_step st of
       step_a \<Rightarrow> ([], \<lparr>d_step = step_b, d_plainchar = push_bit 2 (v AND 0x3f)\<rparr>)
     | step_b \<Rightarrow> ([d_plainchar st OR drop_bit 4 (v AND 0x30)], \<lparr>d_step = step_c, d_plainchar = push_bit 4 (v AND 0x0f)\<rparr>)
     | step_c \<Rightarrow> ([d_plainchar st OR drop_bit 2 (v AND 0x3c)], \<lparr>d_step = step_d, d_plainchar = push_bit 6 (v AND 0x03)\<rparr>)
     | step_d \<Rightarrow> ([d_plainchar st OR (v AND 0x3f)], st\<lparr>d_step := step_a\<rparr>))"
proof -
  have "base64_decode_value (base64_encode_value v) = uint v" by (rule decode_encode_value [OF assms])
  moreover have "word_of_int (uint v) = v" by simp
  moreover have "\<not> uint v < 0" by simp
  ultimately show ?thesis by (simp only: decode_step_def Let_def if_False)
qed

lemma decode_step_skip [simp]: "decode_step st 0x0a = ([], st)" "decode_step st 0x3d = ([], st)"
proof -
  have "base64_decode_value 0x0a = -1" "base64_decode_value 0x3d = -2" by code_simp+
  then show "decode_step st 0x0a = ([], st)" "decode_step st 0x3d = ([], st)" by (simp_all add: decode_step_def)
qed

section \<open>Encoder and decoder in step\<close>

text \<open>The bytes that are encoded in part, and what both sides keep of them.\<close>

definition in_step :: "base64_encodestate \<Rightarrow> base64_decodestate \<Rightarrow> byte list \<Rightarrow> bool" where
  "in_step e d pending \<longleftrightarrow>
     (case e_step e of
        step_A \<Rightarrow> d_step d = step_a \<and> pending = []
      | step_B \<Rightarrow> d_step d = step_b \<and> (\<exists>p. pending = [p] \<and> d_plainchar d = p AND 0xfc \<and> e_result e = push_bit 4 (p AND 0x03))
      | step_C \<Rightarrow> d_step d = step_c \<and> (\<exists>p. pending = [p] \<and> d_plainchar d = p AND 0xf0 \<and> e_result e = push_bit 2 (p AND 0x0f)))"

lemma bits_recombine:
  fixes p f :: byte
  shows "push_bit 2 (drop_bit 2 (f AND 0xfc) AND 0x3f) = f AND 0xfc"
    and "(p AND 0xfc) OR drop_bit 4 ((push_bit 4 (p AND 0x03) OR drop_bit 4 (f AND 0xf0)) AND 0x30) = p"
    and "push_bit 4 ((push_bit 4 (p AND 0x03) OR drop_bit 4 (f AND 0xf0)) AND 0x0f) = f AND 0xf0"
    and "(p AND 0xf0) OR drop_bit 2 ((push_bit 2 (p AND 0x0f) OR drop_bit 6 (f AND 0xc0)) AND 0x3c) = p"
    and "push_bit 6 ((push_bit 2 (p AND 0x0f) OR drop_bit 6 (f AND 0xc0)) AND 0x03) OR (f AND 0x3f AND 0x3f) = f"
    and "(p AND 0xfc) OR drop_bit 4 (push_bit 4 (p AND 0x03) AND 0x30) = p"
    and "(p AND 0xf0) OR drop_bit 2 (push_bit 2 (p AND 0x0f) AND 0x3c) = p"
  by (rule byte_eqI; simp add: bit_simps)+

lemmas recombine = bits_recombine bits_recombine [simplified]

lemma step_codes:
  fixes e :: base64_encodestate
  assumes "in_step e d pending"
  shows "\<exists>out pending' d'. base64_decode_block (fst (encode_step e f)) d = (out, d') \<and> pending @ [f] = out @ pending'
    \<and> in_step (snd (encode_step e f)) d' pending'"
proof (cases "e_step e")
  case step_A
  with assms have d: "d_step d = step_a" "pending = []" by (simp_all add: in_step_def)
  have "drop_bit 2 (f AND 0xfc) < (64 :: byte)" by (rule six_bits) (simp_all add: bit_simps)
  then show ?thesis
    using step_A d by (simp add: in_step_def encode_step_def decode_step_code recombine)
next
  case step_B
  with assms obtain p where d: "d_step d = step_b" "pending = [p]" "d_plainchar d = p AND 0xfc" "e_result e = push_bit 4 (p AND 0x03)"
    by (auto simp: in_step_def)
  have "push_bit 4 (p AND 0x03) OR drop_bit 4 (f AND 0xf0) < (64 :: byte)" by (rule six_bits) (simp_all add: bit_simps)
  then show ?thesis
    using step_B d by (simp add: in_step_def encode_step_def decode_step_code recombine)
next
  case step_C
  with assms obtain p where d: "d_step d = step_c" "pending = [p]" "d_plainchar d = p AND 0xf0" "e_result e = push_bit 2 (p AND 0x0f)"
    by (auto simp: in_step_def)
  have "push_bit 2 (p AND 0x0f) OR drop_bit 6 (f AND 0xc0) < (64 :: byte)" "f AND 0x3f < (64 :: byte)"
    by (rule six_bits; simp add: bit_simps)+
  then show ?thesis
    using step_C d by (simp add: in_step_def encode_step_def decode_step_code recombine Let_def)
qed

section \<open>Blocks\<close>

lemma decode_block_append:
  "base64_decode_block (xs @ ys) d =
    (let (out, d) = base64_decode_block xs d; (rest, d) = base64_decode_block ys d in (out @ rest, d))"
  by (induction xs arbitrary: d) (simp_all add: split_beta Let_def)

lemma decode_blocks_concat: "decode_blocks blocks d = fst (base64_decode_block (concat blocks) d)"
  by (induction blocks arbitrary: d) (simp_all add: split_beta Let_def decode_block_append)

lemma encode_block_append:
  "base64_encode_block (xs @ ys) e =
    (let (out, e) = base64_encode_block xs e; (rest, e) = base64_encode_block ys e in (out @ rest, e))"
  by (induction xs arbitrary: e) (simp_all add: split_beta Let_def)

lemma encode_blocks_concat:
  "encode_blocks blocks e = (let (out, e) = base64_encode_block (concat blocks) e in out @ base64_encode_blockend e)"
  by (induction blocks arbitrary: e) (simp_all add: split_beta Let_def encode_block_append)

lemma block_codes:
  assumes "in_step e d pending"
  shows "\<exists>out pending' d'. base64_decode_block (fst (base64_encode_block bs e)) d = (out, d') \<and> pending @ bs = out @ pending'
    \<and> in_step (snd (base64_encode_block bs e)) d' pending'"
  using assms
proof (induction bs arbitrary: e d pending)
  case (Cons b bs)
  obtain out p d' where one: "base64_decode_block (fst (encode_step e b)) d = (out, d')" "pending @ [b] = out @ p" "in_step (snd (encode_step e b)) d' p"
    using step_codes [OF Cons.prems, of b] by blast
  obtain out' p' d'' where more:
    "base64_decode_block (fst (base64_encode_block bs (snd (encode_step e b)))) d' = (out', d'')" "p @ bs = out' @ p'"
    "in_step (snd (base64_encode_block bs (snd (encode_step e b)))) d'' p'"
    using Cons.IH [OF one(3)] by blast
  have "base64_decode_block (fst (base64_encode_block (b # bs) e)) d = (out @ out', d'')"
    using one(1) more(1) by (simp add: split_beta Let_def decode_block_append)
  moreover have "pending @ b # bs = (out @ out') @ p'"
    using one(2) more(2) by (metis append.assoc append_Cons append_Nil)
  moreover have "in_step (snd (base64_encode_block (b # bs) e)) d'' p'" using more(3) by (simp add: split_beta Let_def)
  ultimately show ?case by blast
qed auto

lemma end_codes:
  fixes e :: base64_encodestate
  assumes "in_step e d pending"
  shows "fst (base64_decode_block (base64_encode_blockend e) d) = pending"
proof (cases "e_step e")
  case step_B
  with assms obtain p where d: "d_step d = step_b" "pending = [p]" "d_plainchar d = p AND 0xfc" "e_result e = push_bit 4 (p AND 0x03)"
    by (auto simp: in_step_def)
  have "push_bit 4 (p AND 0x03) < (64 :: byte)" by (rule six_bits) (simp_all add: bit_simps)
  then show ?thesis using step_B d by (simp add: base64_encode_blockend_def decode_step_code recombine)
next
  case step_C
  with assms obtain p where d: "d_step d = step_c" "pending = [p]" "d_plainchar d = p AND 0xf0" "e_result e = push_bit 2 (p AND 0x0f)"
    by (auto simp: in_step_def)
  have "push_bit 2 (p AND 0x0f) < (64 :: byte)" by (rule six_bits) (simp_all add: bit_simps)
  then show ?thesis using step_C d by (simp add: base64_encode_blockend_def decode_step_code recombine)
qed (use assms in \<open>simp add: in_step_def base64_encode_blockend_def\<close>)

text \<open>
  C34.  The decoder gives back the bytes that were encoded, whatever they are, however the encoder reads them in blocks and
  however the decoder reads the code in blocks, ends of lines included.
\<close>

theorem base64_roundtrip:
  assumes "concat code_blocks = encoder_encode blocks"
  shows "decoder_decode code_blocks = concat blocks"
proof -
  let ?e = base64_init_encodestate and ?d = base64_init_decodestate
  have "in_step ?e ?d []" by (simp add: in_step_def base64_init_encodestate_def base64_init_decodestate_def)
  then obtain out p d' where codes: "base64_decode_block (fst (base64_encode_block (concat blocks) ?e)) ?d = (out, d')"
      "concat blocks = out @ p" "in_step (snd (base64_encode_block (concat blocks) ?e)) d' p"
    using block_codes [of ?e ?d "[]" "concat blocks"] unfolding append_Nil by blast
  have "decoder_decode code_blocks = fst (base64_decode_block (encoder_encode blocks) ?d)"
    using assms by (simp add: decoder_decode_def decode_blocks_concat)
  also have "\<dots> = out @ fst (base64_decode_block (base64_encode_blockend (snd (base64_encode_block (concat blocks) ?e))) d')"
    using codes(1) by (simp add: encoder_encode_def encode_blocks_concat split_beta Let_def decode_block_append)
  finally show ?thesis using end_codes [OF codes(3)] codes(2) by simp
qed

theorem base64_roundtrip_witness:
  "decoder_decode (map (\<lambda>c. [c]) (encoder_encode [[0x4b], [0x4e, 0x58, 0xff]])) = [0x4b, 0x4e, 0x58, 0xff]"
  using base64_roundtrip [of "map (\<lambda>c. [c]) (encoder_encode [[0x4b], [0x4e, 0x58, 0xff]])" "[[0x4b], [0x4e, 0x58, 0xff]]"] by simp

section \<open>Lines\<close>

text \<open>The position in a line, in bytes: a line of the code is complete after 54.\<close>

definition line_pos :: "base64_encodestate \<Rightarrow> nat" where
  "line_pos e = 3 * e_stepcount e + (case e_step e of step_A \<Rightarrow> 0 | step_B \<Rightarrow> 1 | step_C \<Rightarrow> 2)"

lemma encode_value_no_break: "v < 64 \<Longrightarrow> base64_encode_value v \<noteq> 0x0a"
proof
  assume "v < 64" and "base64_encode_value v = 0x0a"
  then have "uint v = base64_decode_value 0x0a" using decode_encode_value [of v] by simp
  also have "\<dots> = -1" by code_simp
  finally show False using uint_ge_0 [of v] by linarith
qed

definition six_bit_result :: "base64_encodestate \<Rightarrow> bool" where
  "six_bit_result e \<longleftrightarrow> \<not> bit (e_result e) 6 \<and> \<not> bit (e_result e) 7"

lemma step_breaks:
  fixes e :: base64_encodestate
  assumes "six_bit_result e" and "line_pos e < 54"
  shows "0x0a \<in> set (fst (encode_step e f)) \<longleftrightarrow> line_pos e = 53"
    and "six_bit_result (snd (encode_step e f))" and "line_pos (snd (encode_step e f)) = (line_pos e + 1) mod 54"
proof -
  have k: "e_stepcount e < 18" using assms(2) unfolding line_pos_def by linarith
  have "drop_bit 2 (f AND 0xfc) < (64 :: byte)" "f AND 0x3f < (64 :: byte)"
      "e_result e OR drop_bit 4 (f AND 0xf0) < (64 :: byte)" "e_result e OR drop_bit 6 (f AND 0xc0) < (64 :: byte)"
    by (rule six_bits; use assms(1) in \<open>simp add: bit_simps six_bit_result_def\<close>)+
  note no_break = this [THEN encode_value_no_break, symmetric]
  show "0x0a \<in> set (fst (encode_step e f)) \<longleftrightarrow> line_pos e = 53"
    using no_break k by (cases "e_step e") (simp_all add: encode_step_def line_pos_def CHARS_PER_LINE_def Let_def)
  show "six_bit_result (snd (encode_step e f))"
    by (cases "e_step e") (simp_all add: encode_step_def six_bit_result_def bit_simps Let_def)
  show "line_pos (snd (encode_step e f)) = (line_pos e + 1) mod 54"
    using k assms(2) by (cases "e_step e") (simp_all add: encode_step_def line_pos_def CHARS_PER_LINE_def Let_def)
qed

lemma block_breaks:
  assumes "six_bit_result e" and "line_pos e < 54"
  shows "(0x0a \<in> set (fst (base64_encode_block bs e)) \<longleftrightarrow> 54 \<le> line_pos e + length bs) \<and> six_bit_result (snd (base64_encode_block bs e))"
  using assms
proof (induction bs arbitrary: e)
  case (Cons b bs)
  note one = step_breaks [OF Cons.prems, of b]
  have "line_pos (snd (encode_step e b)) < 54" unfolding one(3) by simp
  note IH = Cons.IH [OF one(2) this]
  have "0x0a \<in> set (fst (base64_encode_block (b # bs) e)) \<longleftrightarrow>
      0x0a \<in> set (fst (encode_step e b)) \<or> 0x0a \<in> set (fst (base64_encode_block bs (snd (encode_step e b))))"
    by (simp add: split_beta Let_def)
  also have "\<dots> \<longleftrightarrow> 54 \<le> line_pos e + length (b # bs)"
    using Cons.prems(2) by (simp only: one(1) conjunct1 [OF IH] one(3)) (auto simp: mod_if)
  finally show ?case using IH by (simp add: split_beta Let_def)
qed simp

lemma code_breaks: "0x0a \<in> set (butlast (encoder_encode blocks)) \<longleftrightarrow> 54 \<le> length (concat blocks)"
proof -
  let ?e = base64_init_encodestate
  have e: "six_bit_result ?e" "line_pos ?e = 0" by (simp_all add: six_bit_result_def line_pos_def base64_init_encodestate_def)
  define out where "out = base64_encode_block (concat blocks) ?e"
  have out: "0x0a \<in> set (fst out) \<longleftrightarrow> 54 \<le> length (concat blocks)" "six_bit_result (snd out)"
    using block_breaks [OF e(1), of "concat blocks"] e(2) by (simp_all add: out_def)
  have "e_result (snd out) < 64" using out(2) by (intro six_bits) (simp_all add: six_bit_result_def)
  note no_break = encode_value_no_break [OF this, symmetric]
  have "encoder_encode blocks = fst out @ base64_encode_blockend (snd out)"
    by (simp add: encoder_encode_def encode_blocks_concat out_def split_beta Let_def)
  then show ?thesis
    using out(1) no_break by (auto simp: base64_encode_blockend_def butlast_append split: base64_encodestep.splits)
qed

end
