(* ===== verification/Gateway_Laws.thy ===== *)
theory Gateway_Laws
  imports Gateways Base64_Laws
begin

text \<open>What is sent by SMS and by e-mail arrives: the body of a message, its subject, and the parameters of a request.\<close>

section \<open>Line ends\<close>

text \<open>The reference: each line feed, and each pair of carriage return and line feed, becomes such a pair; one is added.\<close>

fun crlf :: "string \<Rightarrow> string" where
  "crlf [] = [CR, LF]"
| "crlf (x # xs) =
     (if x = LF then CR # LF # crlf xs
      else if x = CR \<and> xs \<noteq> [] \<and> hd xs = LF then crlf xs
      else x # crlf xs)"

lemma crlf_last_line: "LF \<notin> set xs \<Longrightarrow> crlf xs = xs @ [CR, LF]"
proof (induction xs)
  case (Cons x xs)
  then show ?case by (cases xs) auto
qed simp

definition chop_cr :: "string \<Rightarrow> string" where
  "chop_cr l = (if l \<noteq> [] \<and> last l = CR then butlast l else l)"

lemma crlf_line: "LF \<notin> set l \<Longrightarrow> crlf (l @ LF # r) = chop_cr l @ CR # LF # crlf r"
proof (induction l)
  case (Cons x l)
  then show ?case by (cases l) (auto simp: chop_cr_def)
qed (simp add: chop_cr_def)

lemma find_from_None: "find_from text c start = None \<Longrightarrow> c \<notin> set (drop start text)"
  by (auto simp: find_from_def Let_def split: if_splits)

lemma find_from_Some:
  assumes "find_from text c start = Some pos"
  obtains l where "drop start text = l @ c # drop (pos + 1) text" and "c \<notin> set l" and "pos = start + length l"
proof -
  let ?rest = "drop start text" and ?P = "\<lambda>x. x \<noteq> c"
  let ?l = "takeWhile ?P ?rest"
  have c: "c \<in> set ?rest" and pos: "pos = start + length ?l"
    using assms by (simp_all add: find_from_def Let_def split: if_splits)
  have "dropWhile ?P ?rest \<noteq> []" using c by (auto simp: dropWhile_eq_Nil_conv)
  then obtain y r where r: "dropWhile ?P ?rest = y # r" by (cases "dropWhile ?P ?rest") auto
  then have y: "y = c" using hd_dropWhile [of ?P ?rest] by simp
  have rest: "?rest = ?l @ c # r" using takeWhile_dropWhile_id [of ?P ?rest] r y by simp
  have "drop (length ?l + 1) (?l @ c # r) = r" by simp
  then have "drop (length ?l + 1) ?rest = r" using rest by simp
  then have "r = drop (pos + 1) text" by (simp add: pos add.commute add.left_commute)
  moreover have "c \<notin> set ?l" by (auto dest: set_takeWhileD)
  ultimately show ?thesis using that rest pos by blast
qed

lemma crlf_lines_crlf: "start = 0 \<or> t ! (start - 1) = LF \<Longrightarrow> start \<le> length t \<Longrightarrow> crlf_lines t start = crlf (drop start t)"
proof (induction t start rule: crlf_lines.induct)
  case (1 t start)
  show ?case
  proof (cases "find_from t LF start")
    case None
    then show ?thesis by (simp add: crlf_lines.simps crlf_last_line find_from_None)
  next
    case (Some pos)
    then obtain l where l: "drop start t = l @ LF # drop (pos + 1) t" "LF \<notin> set l" "pos = start + length l"
      by (rule find_from_Some)
    have "pos < length t" using find_from_bounds [OF Some] by simp
    have "t ! pos = drop start t ! length l" using l(3) \<open>pos < length t\<close> by (simp add: add.commute)
    also have "\<dots> = LF" by (simp add: l(1))
    finally have rest: "crlf_lines t (pos + 1) = crlf (drop (pos + 1) t)"
      using 1(1) [OF Some] \<open>pos < length t\<close> by simp
    have line: "take (length l - k) (drop start t) = take (length l - k) l" for k by (simp add: l(1))
    have "crlf_lines t start = chop_cr l @ [CR, LF] @ crlf_lines t (pos + 1)"
    proof (cases "l = []")
      case True
      then show ?thesis
        using Some l(3) 1(2) by (auto simp: crlf_lines.simps [of t start] chop_cr_def substr_len_def)
    next
      case False
      have "t ! (pos - 1) = drop start t ! (length l - 1)"
        using l(3) False \<open>pos < length t\<close> by (cases l) simp_all
      also have "\<dots> = last l" using False by (simp add: l(1) nth_append last_conv_nth)
      finally show ?thesis
        using Some l(3) False line [of 0] line [of 1]
        by (simp add: crlf_lines.simps [of t start] chop_cr_def substr_len_def butlast_conv_take)
    qed
    then show ?thesis using rest by (simp add: l(1) crlf_line [OF l(2)])
  qed
qed

text \<open>
  C33.  The body of a message, built by searching for line feeds by index, is the text with all its line ends, LF or CR LF, written as CR LF,
  and one more at the end.
\<close>

theorem message_body_is_crlf:
  "MessageBody_new text = \<lparr>mb_text = crlf text, mb_status = 0\<rparr>"
  by (simp add: MessageBody_new_def crlf_lines_crlf)

section \<open>Subjects\<close>

lemma concat_read_blocks: "0 < n \<Longrightarrow> concat (read_blocks n xs) = xs"
proof (induction n xs rule: read_blocks.induct)
  case (1 n xs)
  then show ?case by (cases "n \<le> length xs") (simp_all add: read_blocks.simps [of n xs])
qed

lemma char_of_byte_inj: "inj char_of_byte"
proof (rule injI)
  fix a b :: byte
  assume "char_of_byte a = char_of_byte b"
  then have "of_char (char_of_byte a) = (of_char (char_of_byte b) :: nat)" by simp
  moreover have "unat x mod 256 = unat x" for x :: byte
  proof -
    have "unat x < 2 ^ LENGTH(8)" by (rule unsigned_less)
    then show ?thesis by simp
  qed
  ultimately show "a = b" by (simp add: char_of_byte_def word_unat_eq_iff)
qed

text \<open>
  C36.  The header with the subject of an e-mail is broken by a line feed exactly when the subject has 54 bytes or more: the encoder ends
  its lines after 72 characters, and only the line feed at the end is taken away.
\<close>

theorem long_subject_breaks_header:
  "LF \<in> set (subject_line subject) \<longleftrightarrow> 54 \<le> length subject"
proof -
  let ?code = "encoder_encode (read_blocks 2048 (map byte_of subject))"
  have lf: "char_of_byte 0x0a = LF" by code_simp
  have "LF \<in> set (subject_line subject) \<longleftrightarrow> LF \<in> char_of_byte ` set (butlast ?code)"
    by (simp add: subject_line_def Let_def flip: map_butlast)
  also have "\<dots> \<longleftrightarrow> char_of_byte 0x0a \<in> char_of_byte ` set (butlast ?code)" unfolding lf ..
  also have "\<dots> \<longleftrightarrow> 54 \<le> length subject"
    by (simp add: inj_image_mem_iff [OF char_of_byte_inj] code_breaks concat_read_blocks)
  finally show ?thesis .
qed

section \<open>Parameters\<close>

text \<open>What a server reads: the part after the question mark, cut at each ampersand, and each part at its first equals sign.\<close>

definition cut_at :: "char \<Rightarrow> string \<Rightarrow> string \<times> string" where
  "cut_at c s = (takeWhile (\<lambda>x. x \<noteq> c) s, drop 1 (dropWhile (\<lambda>x. x \<noteq> c) s))"

lemma cut_at_append [simp]: "c \<notin> set a \<Longrightarrow> cut_at c (a @ c # b) = (a, b)"
  by (simp add: cut_at_def takeWhile_tail dropWhile_append)

fun split_on :: "char \<Rightarrow> string \<Rightarrow> string list" where
  "split_on c [] = [[]]"
| "split_on c (x # xs) =
     (if x = c then [] # split_on c xs else (case split_on c xs of [] \<Rightarrow> [[x]] | part # parts \<Rightarrow> (x # part) # parts))"

lemma split_on_append: "c \<notin> set a \<Longrightarrow> split_on c (a @ c # b) = a # split_on c b"
  by (induction a) auto

lemma split_on_all: "c \<notin> set a \<Longrightarrow> split_on c a = [a]"
  by (induction a) auto

definition parse_query :: "(string \<Rightarrow> string) \<Rightarrow> string \<Rightarrow> (string \<times> string) list" where
  "parse_query unescape url =
     map (\<lambda>part. let (name, value) = cut_at CHR ''='' part in (name, unescape value)) (split_on CHR ''&'' (snd (cut_at CHR ''?'' url)))"

definition plain_name :: "string \<Rightarrow> bool" where
  "plain_name s \<longleftrightarrow> CHR ''&'' \<notin> set s \<and> CHR ''='' \<notin> set s"

lemma parse_parameters:
  assumes "\<And>name value. (name, value) \<in> set ps \<Longrightarrow> plain_name name \<and> unescape (escape value) = value \<and> CHR ''&'' \<notin> set (escape value)" and "ps \<noteq> []"
  shows "map (\<lambda>part. let (name, value) = cut_at CHR ''='' part in (name, unescape value)) (split_on CHR ''&'' (drop 1 (rest_parameters escape [sep] ps))) = ps"
  using assms
proof (induction ps arbitrary: sep)
  case (Cons p ps)
  obtain name val where p: "p = (name, val)" by (cases p)
  have ok: "plain_name name" "unescape (escape val) = val" "CHR ''&'' \<notin> set (escape val)" using Cons.prems(1) p by auto
  then have part: "CHR ''&'' \<notin> set (name @ CHR ''='' # escape val)" by (simp add: plain_name_def)
  have cut: "cut_at CHR ''='' (name @ CHR ''='' # escape val) = (name, escape val)" using ok(1) by (simp add: plain_name_def)
  show ?case
  proof (cases ps)
    case Nil
    then show ?thesis using split_on_all [OF part] cut ok(2) by (simp add: p)
  next
    case (Cons q qs)
    let ?rest = "drop 1 (rest_parameters escape ''&'' ps)"
    have "rest_parameters escape ''&'' ps = CHR ''&'' # ?rest" using Cons by (cases q) simp
    then have "drop 1 (rest_parameters escape [sep] (p # ps)) = (name @ CHR ''='' # escape val) @ CHR ''&'' # ?rest" by (simp add: p)
    moreover have "map (\<lambda>part. let (name, value) = cut_at CHR ''='' part in (name, unescape value)) (split_on CHR ''&'' ?rest) = ps"
      by (rule Cons.IH) (use Cons.prems(1) Cons in auto)
    ultimately show ?thesis using split_on_append [OF part, of ?rest] cut ok(2) by (simp only: list.map) (simp add: p)
  qed
qed simp

text \<open>
   The server that gets the request of an SMS reads exactly the parameters of the gateway with the receiver and the text, when
  \<open>curl_escape\<close> does what it promises for them: it leaves no ampersand and can be undone.
\<close>

theorem sms_parameters_arrive:
  assumes "sendSms curl_escape g ident value = Some url"
    and "\<forall>v \<in> snd ` set (sms_parameters g ident value). unescape (curl_escape v) = v \<and> CHR ''&'' \<notin> set (curl_escape v)"
  shows "parse_query unescape url = sms_parameters g ident value"
proof -
  let ?ps = "sms_parameters g ident value"
  obtain base where url: "url = base @ rest_parameters curl_escape ''?'' ?ps" and base: "CHR ''?'' \<notin> set base" and ps: "?ps \<noteq> []"
    using assms(1) by (auto simp: sendSms_def sendSmsThroughREST_def sms_parameters_def split: SmsGatewayType.splits)
  have "plain_name name" if "(name, v) \<in> set ?ps" for name v
    using that by (auto simp: sms_parameters_def plain_name_def split: SmsGatewayType.splits if_splits)
  then have "\<And>name v. (name, v) \<in> set ?ps \<Longrightarrow> plain_name name \<and> unescape (curl_escape v) = v \<and> CHR ''&'' \<notin> set (curl_escape v)"
    using assms(2) by (metis image_eqI snd_conv)
  note parsed = parse_parameters [OF this ps, of "CHR ''?''"]
  obtain q qs where "?ps = q # qs" using ps by (cases ?ps) auto
  then have "rest_parameters curl_escape ''?'' ?ps = CHR ''?'' # drop 1 (rest_parameters curl_escape ''?'' ?ps)" by (cases q) simp
  then have "cut_at CHR ''?'' url = (base, drop 1 (rest_parameters curl_escape ''?'' ?ps))" using base url cut_at_append by metis
  then show ?thesis using parsed by (simp add: parse_query_def)
qed

text \<open>An escape that writes ampersands and percent signs as two hexadecimal digits.\<close>

fun escape_2 :: "string \<Rightarrow> string" where
  "escape_2 [] = []"
| "escape_2 (c # cs) = (if c = CHR ''&'' then ''%26'' else if c = CHR ''%'' then ''%25'' else [c]) @ escape_2 cs"

fun unescape_2 :: "string \<Rightarrow> string" where
  "unescape_2 (a # b # c # cs) =
     (if a = CHR ''%'' then (if c = CHR ''6'' then CHR ''&'' else CHR ''%'') # unescape_2 cs else a # unescape_2 (b # c # cs))"
| "unescape_2 cs = cs"

theorem sms_parameters_arrive_witness:
  "parse_query unescape_2 ''https://smsapi.free-mobile.fr/sendmsg?msg=a%26b&pass=x&user=me'' = [(''msg'', ''a&b''), (''pass'', ''x''), (''user'', ''me'')]"
proof -
  let ?g = "\<lparr>sms_type = FreeMobile, sms_user = ''me'', sms_pass = ''x'', sms_data = '''', sms_from = ''''\<rparr>"
  have "parse_query unescape_2 ''https://smsapi.free-mobile.fr/sendmsg?msg=a%26b&pass=x&user=me'' = sms_parameters ?g '''' ''a&b''"
    by (rule sms_parameters_arrive [where curl_escape = escape_2])
      (simp_all add: sendSms_def sendSmsThroughREST_def sms_parameters_def)
  then show ?thesis by (simp add: sms_parameters_def)
qed

section \<open>Configuration\<close>

lemma sms_config:
  assumes "is_element e" and "\<forall>n \<in> {''type'', ''user'', ''pass'', ''api_id'', ''from''}. attribute e n = None"
  shows "SmsGateway_importXml (SmsGateway_exportXml g e) SmsGateway_new =
    (None, case sms_type g of Clickatell \<Rightarrow> g | FreeMobile \<Rightarrow> g\<lparr>sms_data := '''', sms_from := ''''\<rparr> | UnknownSms \<Rightarrow> SmsGateway_new)"
  using assms
  by (cases g; cases "sms_type g")
    (auto simp: SmsGateway_importXml_def SmsGateway_exportXml_def SmsGateway_new_def require_def GetAttribute_def Let_def)

lemma email_config:
  assumes "is_element e" and "\<forall>n \<in> {''type'', ''host'', ''from'', ''login'', ''pass''}. attribute e n = None"
  shows "EmailGateway_importXml (EmailGateway_exportXml g e) EmailGateway_new =
    (None, case eg_type g of SMTP \<Rightarrow> g | UnknownEmail \<Rightarrow> EmailGateway_new)"
  using assms
  by (cases g; cases "eg_type g")
    (auto simp: EmailGateway_importXml_def EmailGateway_exportXml_def EmailGateway_new_def require_def GetAttribute_def Let_def)

end
