(* ===== verification/Service_Laws.thy ===== *)
theory Service_Laws
  imports Services Logging Gateway_Laws
begin

text \<open>The configuration of the services survives its export, and what a refused part of it leaves behind.\<close>

section \<open>The parts\<close>

text \<open>An element that was just made.\<close>

definition bare :: "xml \<Rightarrow> bool" where
  "bare e \<longleftrightarrow> is_element e \<and> children e = [] \<and> (\<forall>n. attribute e n = None)"

lemma bare_Element [simp]: "bare (Element name [] [])"
  by (simp add: bare_def attribute_def)

lemma bareD: "bare e \<Longrightarrow> is_element e" "bare e \<Longrightarrow> attribute e n = None" "bare e \<Longrightarrow> children e = []"
  by (simp_all add: bare_def)

definition server_ready :: "server_os \<Rightarrow> bool" where
  "server_ready os \<longleftrightarrow> so_socket os \<and> so_bind os \<and> so_listen os"

fun exportable_server :: "XmlServer \<Rightarrow> bool" where
  "exportable_server (XmlInetServer port) = in_s32 port"
| "exportable_server (XmlUnixServer path) = (length path < 108)"

lemma server_config:
  assumes "server_ready os" and "exportable_server srv" and "bare e"
  shows "XmlServer_create os (XmlServer_exportXml srv e) = Inr srv"
  using assms(1,2) get_int_show bareD [OF assms(3)]
  by (cases srv)
    (simp_all add: XmlServer_create_def XmlInetServer_new_def XmlUnixServer_new_def server_ready_def attribute_int_def GetAttributeOrDefault_def Let_def)

text \<open>The storages whose export is read back: InfluxDB exports its databases under other names than it reads.\<close>

fun exportable_storage :: "libraries \<Rightarrow> PersistentStorage \<Rightarrow> bool" where
  "exportable_storage li (FileStorage st) \<longleftrightarrow>
     path_m st \<noteq> '''' \<and> last (path_m st) = CHR ''/'' \<and> logPath_m st = path_m st \<and> fo_dir (li_files li) (path_m st)"
| "exportable_storage li (MysqlStorage st) \<longleftrightarrow> my_init (li_mysql li) \<and> my_connects (li_mysql li)"
| "exportable_storage li (InfluxdbStorage st) \<longleftrightarrow> in_logDb st = '''' \<and> in_persistDb st = ''''"

lemma storage_config:
  assumes "exportable_storage li st" and "bare e"
  shows "PersistentStorage_create (li_files li) (li_mysql li) (li_influx li) (PersistentStorage_exportXml st e) = Inr (Some st)"
proof (cases st)
  case (FileStorage f)
  show ?thesis
    using assms(1) bareD [OF assms(2)] unfolding FileStorage
    by (cases f) (simp add: PersistentStorage_create_def FilePersistentStorage_new_def FilePersistentStorage_exportXml_def GetAttribute_def
        GetAttributeOrDefault_def with_slash_def Let_def)
next
  case (MysqlStorage m)
  show ?thesis
    using assms(1) bareD [OF assms(2)] unfolding MysqlStorage
    by (cases m) (simp add: PersistentStorage_create_def MysqlPersistentStorage_new_def MysqlPersistentStorage_exportXml_def GetAttribute_def Let_def)
next
  case (InfluxdbStorage m)
  show ?thesis
    using assms(1) bareD [OF assms(2)] unfolding InfluxdbStorage
    by (cases m) (simp add: PersistentStorage_create_def InfluxdbPersistentStorage_new_def InfluxdbPersistentStorage_exportXml_def GetAttribute_def Let_def)
qed

text \<open>Exception days: the year counts from 1900 and the month from 1 in the configuration.\<close>

definition exportable_day :: "DaySpec \<Rightarrow> bool" where
  "exportable_day d \<longleftrightarrow> in_s32 (dy_mday d) \<and> (dy_mon d = - 1 \<or> 0 \<le> dy_mon d \<and> in_s32 (dy_mon d + 1))
     \<and> (dy_year d = - 1 \<or> 0 \<le> dy_year d \<and> in_s32 (dy_year d + 1900))"

lemma day_config: "exportable_day d \<Longrightarrow> bare e \<Longrightarrow> DaySpec_importXml (DaySpec_exportXml d e) DaySpec_new = Inr d"
  using get_int_show [of "dy_mday d"] get_int_show [of "dy_mon d + 1"] get_int_show [of "dy_year d + 1900"]
  by (cases d) (auto simp: exportable_day_def DaySpec_importXml_def DaySpec_exportXml_def DaySpec_new_def attribute_int_def Let_def bareD)

lemma tag_kept_set [simp]: "tag (SetAttribute name val e) = tag e"
  by (cases e) auto

lemma tag_kept_link [simp]: "tag (LinkEndChild c e) = tag e"
  by (cases e) auto

lemma day_element: "bare e \<Longrightarrow> is_element (DaySpec_exportXml d e) \<and> tag (DaySpec_exportXml d e) = tag e"
  by (simp add: DaySpec_exportXml_def Let_def bareD)

lemma import_days_exported:
  "list_all exportable_day ds \<Longrightarrow> import_days (map (\<lambda>d. DaySpec_exportXml d (Element ''date'' [] [])) ds) before = (None, before @ ds)"
proof (induction ds arbitrary: before)
  case (Cons d ds)
  let ?e = "Element ''date'' [] []"
  have "is_element (DaySpec_exportXml d ?e)" "tag (DaySpec_exportXml d ?e) = ''date''" using day_element [of ?e d] by simp_all
  then show ?case using Cons day_config [of d ?e] by (simp del: DaySpec_exportXml_def)
qed simp

lemma days_export:
  "is_element e \<Longrightarrow> children (ExceptionDays_exportXml ds e) = children e @ map (\<lambda>d. DaySpec_exportXml d (Element ''date'' [] [])) ds
     \<and> is_element (ExceptionDays_exportXml ds e) \<and> tag (ExceptionDays_exportXml ds e) = tag e \<and> attribute (ExceptionDays_exportXml ds e) n = attribute e n"
proof (induction ds arbitrary: e)
  case (Cons d ds)
  have "is_element (LinkEndChild c e)" for c using Cons.prems by simp
  from Cons.IH [OF this, of "DaySpec_exportXml d (Element ''date'' [] [])"] show ?case
    using Cons.prems by (simp add: ExceptionDays_exportXml_def)
qed (simp add: ExceptionDays_exportXml_def)

lemma days_config:
  assumes "list_all exportable_day ds" and "bare e"
  shows "ExceptionDays_importXml (ExceptionDays_exportXml ds e) [] = (None, ds)"
  using days_export [OF bareD(1) [OF assms(2)], of ds] import_days_exported [OF assms(1), of "[]"] bareD(3) [OF assms(2)]
  by (simp add: ExceptionDays_importXml_def)

text \<open>Six digits are enough for the coordinates.\<close>

definition exportable_location :: "LocationInfo \<Rightarrow> bool" where
  "exportable_location loc \<longleftrightarrow> LocationInfo_isEmpty loc \<or> (\<forall>x \<in> {lon_m loc, lat_m loc}. \<exists>rest. get_double (fmt_g 6 x) = Some (x, rest))"

lemma location_config:
  "exportable_location loc \<Longrightarrow> \<not> LocationInfo_isEmpty loc \<Longrightarrow> bare e \<Longrightarrow> LocationInfo_importXml (LocationInfo_exportXml loc e) LocationInfo_new = (None, loc)"
  by (cases loc) (auto simp: exportable_location_def LocationInfo_importXml_def LocationInfo_exportXml_def coordinate_def bareD)

section \<open>All services\<close>

text \<open>The parts keep the names of their elements.\<close>

definition named :: "string \<Rightarrow> xml \<Rightarrow> bool" where
  "named t e \<longleftrightarrow> is_element e \<and> tag e = t"

lemma named_parts:
  "named ''smsgateway'' (SmsGateway_exportXml g (Element ''smsgateway'' [] []))"
  "named ''emailserver'' (EmailGateway_exportXml m (Element ''emailserver'' [] []))"
  "named ''xmlserver'' (XmlServer_exportXml srv (Element ''xmlserver'' [] []))"
  "named ''knxconnection'' (KnxConnection_exportXml kc (Element ''knxconnection'' [] []))"
  "named ''location'' (LocationInfo_exportXml loc (Element ''location'' [] []))"
  by (auto simp: named_def SmsGateway_exportXml_def EmailGateway_exportXml_def KnxConnection_exportXml_def LocationInfo_exportXml_def Let_def
      split: SmsGatewayType.split EmailGatewayType.split) (cases srv; simp)+

lemma named_days: "named ''exceptiondays'' (ExceptionDays_exportXml ds (Element ''exceptiondays'' [] []))"
  using days_export [of "Element ''exceptiondays'' [] []"] by (simp add: named_def)

lemma named_storage: "named ''persistence'' (PersistentStorage_exportXml st (Element ''persistence'' [] []))"
  by (cases st) (simp_all add: named_def FilePersistentStorage_exportXml_def MysqlPersistentStorage_exportXml_def
      InfluxdbPersistentStorage_exportXml_def Let_def)

lemma named_ports: "named ''ioports'' (IOPortManager_exportXml w (Element ''ioports'' [] []))"
proof -
  have "named t e \<Longrightarrow> named t (foldl (\<lambda>e (_, p). case io_ports w p of None \<Rightarrow> e | Some io \<Rightarrow> LinkEndChild (port_exportXml io (Element ''ioport'' [] [])) e) e ps)"
    for t e ps
  proof (induction ps arbitrary: e)
    case (Cons a ps)
    then show ?case by (cases "io_ports w (snd a)") (simp_all add: named_def split_beta)
  qed simp
  note keep = this
  show ?thesis unfolding IOPortManager_exportXml_def by (rule keep) (simp add: named_def)
qed

text \<open>A gateway that could have been configured; a connection that was not started.\<close>

definition exportable_gateways :: "Services \<Rightarrow> bool" where
  "exportable_gateways s \<longleftrightarrow>
     (case sms_type (smsGateway_m s) of
        Clickatell \<Rightarrow> True
      | FreeMobile \<Rightarrow> sms_data (smsGateway_m s) = '''' \<and> sms_from (smsGateway_m s) = ''''
      | UnknownSms \<Rightarrow> smsGateway_m s = SmsGateway_new)
     \<and> (eg_type (emailGateway_m s) = UnknownEmail \<longrightarrow> emailGateway_m s = EmailGateway_new)
     \<and> knxConnection_m s = KnxConnection_new\<lparr>url_m := url_m (knxConnection_m s)\<rparr>"

definition exportable_services :: "libraries \<Rightarrow> Services \<Rightarrow> bool" where
  "exportable_services li s \<longleftrightarrow>
     exportable_gateways s \<and> list_all exportable_day (exceptionDays_m s) \<and> exportable_location (locationInfo_m s)
     \<and> (case xmlServer_m s of Null \<Rightarrow> True | Live srv \<Rightarrow> server_ready (li_server li) \<and> exportable_server srv | Freed \<Rightarrow> False)
     \<and> (case persistentStorage_m s of Null \<Rightarrow> True | Live st \<Rightarrow> exportable_storage li st | Freed \<Rightarrow> False)"

lemma gateways_config:
  assumes "exportable_gateways s"
  shows "SmsGateway_importXml (SmsGateway_exportXml (smsGateway_m s) (Element ''smsgateway'' [] [])) SmsGateway_new = (None, smsGateway_m s)"
    and "EmailGateway_importXml (EmailGateway_exportXml (emailGateway_m s) (Element ''emailserver'' [] [])) EmailGateway_new = (None, emailGateway_m s)"
    and "KnxConnection_importXml (KnxConnection_exportXml (knxConnection_m s) (Element ''knxconnection'' [] [])) KnxConnection_new = knxConnection_m s"
proof -
  show "SmsGateway_importXml (SmsGateway_exportXml (smsGateway_m s) (Element ''smsgateway'' [] [])) SmsGateway_new = (None, smsGateway_m s)"
    using assms by (subst sms_config) (auto simp: bareD exportable_gateways_def split: SmsGatewayType.splits)
  show "EmailGateway_importXml (EmailGateway_exportXml (emailGateway_m s) (Element ''emailserver'' [] [])) EmailGateway_new = (None, emailGateway_m s)"
    using assms by (subst email_config) (auto simp: bareD exportable_gateways_def split: EmailGatewayType.splits)
  have "GetAttribute (KnxConnection_exportXml (knxConnection_m s) e) ''url'' = url_m (knxConnection_m s)" if "bare e" for e
    using bareD [OF that] by (simp add: KnxConnection_exportXml_def GetAttribute_def)
  then show "KnxConnection_importXml (KnxConnection_exportXml (knxConnection_m s) (Element ''knxconnection'' [] [])) KnxConnection_new = knxConnection_m s"
    using assms by (simp add: KnxConnection_importXml_def exportable_gateways_def)
qed

text \<open>The children of the export, in order.\<close>

definition exported_slot :: "(string) \<Rightarrow> ('b \<Rightarrow> xml \<Rightarrow> xml) \<Rightarrow> 'b slot \<Rightarrow> xml list" where
  "exported_slot name f p = (case p of Live x \<Rightarrow> [f x (Element name [] [])] | _ \<Rightarrow> [])"

lemma export_slot_children:
  "export_slot name f p e = Inr e' \<Longrightarrow> is_element e \<Longrightarrow> is_element e' \<and> children e' = children e @ exported_slot name f p"
  by (cases p) (auto simp: export_slot_def exported_slot_def)

definition exported_location :: "LocationInfo \<Rightarrow> xml list" where
  "exported_location loc = (if LocationInfo_isEmpty loc then [] else [LocationInfo_exportXml loc (Element ''location'' [] [])])"

lemma exported_children:
  assumes "Services_exportXml s w e = Inr x" and "bare e"
  shows "children x =
    [SmsGateway_exportXml (smsGateway_m s) (Element ''smsgateway'' [] []), EmailGateway_exportXml (emailGateway_m s) (Element ''emailserver'' [] [])]
    @ exported_slot ''xmlserver'' XmlServer_exportXml (xmlServer_m s)
    @ [KnxConnection_exportXml (knxConnection_m s) (Element ''knxconnection'' [] []), ExceptionDays_exportXml (exceptionDays_m s) (Element ''exceptiondays'' [] [])]
    @ exported_location (locationInfo_m s)
    @ exported_slot ''persistence'' PersistentStorage_exportXml (persistentStorage_m s)
    @ [IOPortManager_exportXml w (Element ''ioports'' [] [])]"
proof -
  let ?l = "\<lambda>c e. LinkEndChild c e"
  obtain e1 e2 where
      e1: "export_slot ''xmlserver'' XmlServer_exportXml (xmlServer_m s)
        (?l (EmailGateway_exportXml (emailGateway_m s) (Element ''emailserver'' [] [])) (?l (SmsGateway_exportXml (smsGateway_m s) (Element ''smsgateway'' [] [])) e)) = Inr e1"
    and e2: "export_slot ''persistence'' PersistentStorage_exportXml (persistentStorage_m s)
        (let e = ?l (ExceptionDays_exportXml (exceptionDays_m s) (Element ''exceptiondays'' [] [])) (?l (KnxConnection_exportXml (knxConnection_m s) (Element ''knxconnection'' [] [])) e1)
         in if LocationInfo_isEmpty (locationInfo_m s) then e else ?l (LocationInfo_exportXml (locationInfo_m s) (Element ''location'' [] [])) e) = Inr e2"
    and x: "x = ?l (IOPortManager_exportXml w (Element ''ioports'' [] [])) e2"
    using assms(1) by (auto simp: Services_exportXml_def res_bind_Inr Let_def)
  note e1 = export_slot_children [OF e1]
  from e2 have "is_element e2 \<and> children e2 = children e1
      @ [KnxConnection_exportXml (knxConnection_m s) (Element ''knxconnection'' [] []), ExceptionDays_exportXml (exceptionDays_m s) (Element ''exceptiondays'' [] [])]
      @ exported_location (locationInfo_m s) @ exported_slot ''persistence'' PersistentStorage_exportXml (persistentStorage_m s)"
    using e1 bareD [OF assms(2)]
    by (cases "LocationInfo_isEmpty (locationInfo_m s)")
      (auto simp: Let_def exported_location_def dest!: export_slot_children)
  then show ?thesis using e1 bareD [OF assms(2)] by (simp add: x)
qed

lemma first_child:
  "FirstChildElement t e = (case filter (named t) (children e) of [] \<Rightarrow> None | c # _ \<Rightarrow> Some c)"
  by (simp add: FirstChildElement_def elements_def named_def [abs_def])

lemma named_iff: "named u e \<Longrightarrow> named t e \<longleftrightarrow> t = u"
  by (auto simp: named_def)

lemmas name_of = named_parts [THEN named_iff] named_days [THEN named_iff] named_storage [THEN named_iff] named_ports [THEN named_iff]

lemma first_children:
  assumes "Services_exportXml s w e = Inr x" and "bare e"
  shows "FirstChildElement ''smsgateway'' x = Some (SmsGateway_exportXml (smsGateway_m s) (Element ''smsgateway'' [] []))"
    and "FirstChildElement ''emailserver'' x = Some (EmailGateway_exportXml (emailGateway_m s) (Element ''emailserver'' [] []))"
    and "FirstChildElement ''xmlserver'' x = (case xmlServer_m s of Live srv \<Rightarrow> Some (XmlServer_exportXml srv (Element ''xmlserver'' [] [])) | _ \<Rightarrow> None)"
    and "FirstChildElement ''knxconnection'' x = Some (KnxConnection_exportXml (knxConnection_m s) (Element ''knxconnection'' [] []))"
    and "FirstChildElement ''exceptiondays'' x = Some (ExceptionDays_exportXml (exceptionDays_m s) (Element ''exceptiondays'' [] []))"
    and "FirstChildElement ''location'' x = (if LocationInfo_isEmpty (locationInfo_m s) then None
           else Some (LocationInfo_exportXml (locationInfo_m s) (Element ''location'' [] [])))"
    and "FirstChildElement ''persistence'' x = (case persistentStorage_m s of
           Live st \<Rightarrow> Some (PersistentStorage_exportXml st (Element ''persistence'' [] [])) | _ \<Rightarrow> None)"
    and "FirstChildElement ''ioports'' x = Some (IOPortManager_exportXml w (Element ''ioports'' [] []))"
  unfolding first_child exported_children [OF assms]
  by (cases "xmlServer_m s"; cases "persistentStorage_m s"; simp add: name_of exported_slot_def exported_location_def)+


definition no_mysql :: mysql where
  "no_mysql = \<lparr>my_init = False, my_connects = False, my_query = (\<lambda>_. None)\<rparr>"

definition no_influx :: influx where
  "no_influx = \<lparr>fx_request = (\<lambda>_ _. None), fx_databases = (\<lambda>_. None), fx_value = (\<lambda>_. None)\<rparr>"

definition one_directory :: "string \<Rightarrow> file_os" where
  "one_directory dir = \<lparr>fo_dir = (\<lambda>d. d = dir), fo_writable = (\<lambda>_. True)\<rparr>"

definition plain_libraries :: "os \<Rightarrow> SerialIOPort \<Rightarrow> libraries" where
  "plain_libraries os junk =
     \<lparr>li_server = \<lparr>so_socket = True, so_bind = True, so_listen = True\<rparr>, li_files = one_directory ''/p/'', li_mysql = no_mysql, li_influx = no_influx,
      li_os = os, li_junk = junk\<rparr>"

definition home :: Services where
  "home =
     \<lparr>xmlServer_m = Live (XmlInetServer 1028), persistentStorage_m = Live (FileStorage \<lparr>path_m = ''/p/'', logPath_m = ''/p/''\<rparr>),
      smsGateway_m = \<lparr>sms_type = FreeMobile, sms_user = ''me'', sms_pass = ''x'', sms_data = '''', sms_from = ''''\<rparr>,
      emailGateway_m = EmailGateway_new, knxConnection_m = KnxConnection_new\<lparr>url_m := ''ip:localhost''\<rparr>,
      exceptionDays_m = [\<lparr>dy_mday = 25, dy_mon = 11, dy_year = - 1\<rparr>], locationInfo_m = LocationInfo_new\<rparr>"

lemma home_exportable: "exportable_services (plain_libraries os junk) home"
  by (simp add: exportable_services_def exportable_gateways_def home_def exportable_day_def exportable_location_def server_ready_def
      plain_libraries_def one_directory_def LocationInfo_isEmpty_def LocationInfo_new_def)


section \<open>A refused part\<close>

text \<open>
  C35.  When a new configuration of the storage is refused, the old storage is deleted already and the pointer to it is kept: the next use of it,
  such as the export of the configuration, follows a pointer to freed memory.
\<close>

theorem refused_storage_dangles:
  assumes "FirstChildElement ''persistence'' cfg = Some c"
    and "\<forall>t \<in> {''smsgateway'', ''emailserver'', ''xmlserver'', ''knxconnection'', ''exceptiondays'', ''location''}. FirstChildElement t cfg = None"
    and "PersistentStorage_create (li_files li) (li_mysql li) (li_influx li) c = Inl err" and "persistentStorage_m s = Live st"
    and "xmlServer_m s \<noteq> Freed"
  shows "Services_importXml i li cfg s w = (fail err w, s\<lparr>persistentStorage_m := Freed\<rparr>)
    \<and> Services_exportXml (s\<lparr>persistentStorage_m := Freed\<rparr>) w e = Inl Null_deref"
  using assms
  by (auto simp: Services_importXml_def Services_configure_def configure_def configure_storage_def replace_slot_def Services_exportXml_def
      export_slot_def res_bind_def Let_def split: slot.split)

theorem refused_storage_dangles_witness:
  "\<forall>(i :: inputs) (w :: world) os junk. snd (Services_importXml i (plain_libraries os junk)
     (Element ''services'' [] [Element ''persistence'' [(''type'', ''files'')] []]) home w) = home\<lparr>persistentStorage_m := Freed\<rparr>"
proof (intro allI)
  fix i :: inputs and w :: world and os junk
  let ?c = "Element ''persistence'' [(''type'', ''files'')] []"
  let ?cfg = "Element ''services'' [] [?c]" and ?li = "plain_libraries os junk"
  have "Services_importXml i ?li ?cfg home w = (fail (Bad_type ''files'') w, home\<lparr>persistentStorage_m := Freed\<rparr>)
    \<and> Services_exportXml (home\<lparr>persistentStorage_m := Freed\<rparr>) w ?cfg = Inl Null_deref"
  proof (rule refused_storage_dangles)
    show "PersistentStorage_create (li_files ?li) (li_mysql ?li) (li_influx ?li) ?c = Inl (Bad_type ''files'')"
      by (simp add: PersistentStorage_create_def GetAttribute_def attribute_def)
  qed (simp_all add: FirstChildElement_def elements_def home_def)
  then show "snd (Services_importXml i ?li ?cfg home w) = home\<lparr>persistentStorage_m := Freed\<rparr>" by simp
qed

section \<open>Logging\<close>

lemma attribute_int_range_10: "attribute_int cfg name 10 = Inr i \<Longrightarrow> in_s32 i"
  by (auto simp: attribute_int_def dest!: get_int_range split: option.splits)

text \<open>
  A configuration of the logging that was accepted is accepted again in the form it is exported, with the same effect and the same settings.
\<close>

lemma logging_config_roundtrip:
  assumes "Logging_importXml lib (Some cfg) Logging_new = (Inr c, l)" and "bare e"
  shows "Logging_importXml lib (Some (Logging_exportXml l e)) Logging_new = (Inr c, l)"
proof -
  show ?thesis
  proof (cases "GetAttribute cfg ''config'' = ''''")
    case False
    then have "conffile_m l = GetAttribute cfg ''config''" and "c = Properties (conffile_m l)" and "l4_properties lib (conffile_m l) = None"
        and l: "l = Logging_new\<lparr>conffile_m := GetAttribute cfg ''config''\<rparr>"
      using assms(1) by (auto simp: Logging_importXml_def Let_def split: option.splits)
    with False show ?thesis
      using bareD [OF assms(2)] by (simp add: Logging_importXml_def Logging_exportXml_def GetAttribute_def)
  next
    case True
    define l0 where "l0 = Logging_new\<lparr>conffile_m := '''', output_m := GetAttribute cfg ''output'', format_m := GetAttribute cfg ''format'',
      log_level_m := GetAttribute cfg ''level''\<rparr>"
    obtain app where app: "Logging_appender cfg l0 = (Inr app, l)"
      and prio: "c = Root app (layout_of (format_m l)) (if log_level_m l = '''' then 600 else the (l4_priority lib (log_level_m l)))"
        "log_level_m l \<noteq> '''' \<longrightarrow> l4_priority lib (log_level_m l) \<noteq> None"
      using assms(1) True by (auto simp: Logging_importXml_def Let_def l0_def split: prod.splits sum.splits if_splits option.splits)
    have l: "conffile_m l = ''''" "output_m l = output_m l0" "format_m l = format_m l0" "log_level_m l = log_level_m l0"
      using app by (auto simp: Logging_appender_def l0_def Let_def split: sum.splits if_splits)
    let ?x = "Logging_exportXml l e"
    have x: "attribute ?x ''config'' = None" "attribute ?x ''output'' = (if output_m l = '''' then None else Some (output_m l))"
        "attribute ?x ''format'' = (if format_m l = '''' then None else Some (format_m l))"
        "attribute ?x ''level'' = (if log_level_m l = '''' then None else Some (log_level_m l))"
        "attribute ?x ''maxfilesize'' = (if output_m l \<noteq> '''' \<and> maxSize_m l \<noteq> - 1 then Some (show_int (maxSize_m l)) else None)"
        "attribute ?x ''maxfileindex'' = (if output_m l \<noteq> '''' \<and> maxSize_m l \<noteq> - 1 then Some (show_int (maxIndex_m l)) else None)"
      using bareD [OF assms(2)] by (simp_all add: Logging_exportXml_def l(1) Let_def)
    have again: "Logging_appender ?x (Logging_new\<lparr>conffile_m := '''', output_m := output_m l, format_m := format_m l, log_level_m := log_level_m l\<rparr>) = (Inr app, l)"
    proof (cases "output_m l0 = ''''")
      case True
      then show ?thesis using app l by (auto simp: Logging_appender_def l0_def)
    next
      case False
      then obtain sz where sz: "attribute_int cfg ''maxfilesize'' (- 1) = Inr sz" "maxSize_m l = sz"
          "sz > 0 \<Longrightarrow> \<exists>idx. attribute_int cfg ''maxfileindex'' 10 = Inr idx \<and> app = RollingFile (output_m l0) (sz * 1024) idx
             \<and> l = l0\<lparr>maxSize_m := sz, maxIndex_m := idx\<rparr>"
          "\<not> sz > 0 \<Longrightarrow> app = PlainFile (output_m l0) \<and> l = l0\<lparr>maxSize_m := sz\<rparr>"
        using app by (auto simp: Logging_appender_def Let_def split: sum.splits if_splits)
      have "in_s32 sz" using sz(1) by (rule attribute_int_range)
      then have size: "attribute_int ?x ''maxfilesize'' (- 1) = Inr sz"
        using x(5) False l(2) sz(2) get_int_show [of sz] by (simp add: attribute_int_def)
      show ?thesis
      proof (cases "sz > 0")
        case True
        then obtain idx where idx: "attribute_int cfg ''maxfileindex'' 10 = Inr idx" "app = RollingFile (output_m l0) (sz * 1024) idx"
            "l = l0\<lparr>maxSize_m := sz, maxIndex_m := idx\<rparr>" using sz(3) by blast
        have "in_s32 idx" using idx(1) by (rule attribute_int_range_10)
        then have "attribute_int ?x ''maxfileindex'' 10 = Inr idx"
          using x(6) False l(2) sz(2) True idx(3) get_int_show [of idx] by (simp add: attribute_int_def)
        then show ?thesis using size True False idx l by (simp add: Logging_appender_def l0_def)
      next
        case False
        then show ?thesis using size sz(4) \<open>output_m l0 \<noteq> ''''\<close> l by (auto simp: Logging_appender_def l0_def)
      qed
    qed
    have "GetAttribute ?x ''output'' = output_m l" "GetAttribute ?x ''format'' = format_m l" "GetAttribute ?x ''level'' = log_level_m l"
        "GetAttribute ?x ''config'' = ''''"
      using x by (simp_all add: GetAttribute_def)
    then show ?thesis using again prio by (auto simp: Logging_importXml_def Let_def)
  qed
qed

end
