(* ===== verification/Sun.thy ===== *)
theory Sun
  imports Services
begin

text \<open>
  src/suncalc.cpp: when the sun rises and sets.  Every operation on \<open>double\<close> rounds, as \<open>fl 53\<close> does; the functions of the mathematical
  library are parameters.  Where the code goes on with an infinity or a NaN, after a division by zero, the result is \<open>Not_finite\<close>.
\<close>

section \<open>Arithmetic\<close>

record libm =
  l_sin :: "rat \<Rightarrow> rat"
  l_cos :: "rat \<Rightarrow> rat"
  l_acos :: "rat \<Rightarrow> rat"
  l_atan2 :: "rat \<Rightarrow> rat \<Rightarrow> rat"
  l_sqrt :: "rat \<Rightarrow> rat"

abbreviation dadd :: "rat \<Rightarrow> rat \<Rightarrow> rat" where "dadd x y \<equiv> fl_double (x + y)"
abbreviation dsub :: "rat \<Rightarrow> rat \<Rightarrow> rat" where "dsub x y \<equiv> fl_double (x - y)"
abbreviation dmul :: "rat \<Rightarrow> rat \<Rightarrow> rat" where "dmul x y \<equiv> fl_double (x * y)"
abbreviation ddiv :: "rat \<Rightarrow> rat \<Rightarrow> rat" where "ddiv x y \<equiv> fl_double (x / y)"

text \<open>A literal with digits after the point.\<close>

definition literal :: "int \<Rightarrow> nat \<Rightarrow> rat" where
  "literal n k = fl_double (of_int n / 10 ^ k)"

definition days_since_2000_Jan_0 :: "int \<Rightarrow> int \<Rightarrow> int \<Rightarrow> int" where
  "days_since_2000_Jan_0 y m d = 367 * y - c_div (7 * (y + c_div (m + 9) 12)) 4 + c_div (275 * m) 9 + d - 730530"

definition PI :: rat where "PI = literal 31415926535897932384 19"
definition RADEG :: rat where "RADEG = ddiv 180 PI"
definition DEGRAD :: rat where "DEGRAD = ddiv PI 180"
definition INV360 :: rat where "INV360 = ddiv 1 360"

definition sind :: "libm \<Rightarrow> rat \<Rightarrow> rat" where "sind L x = l_sin L (dmul x DEGRAD)"
definition cosd :: "libm \<Rightarrow> rat \<Rightarrow> rat" where "cosd L x = l_cos L (dmul x DEGRAD)"
definition acosd :: "libm \<Rightarrow> rat \<Rightarrow> rat" where "acosd L x = dmul RADEG (l_acos L x)"
definition atan2d :: "libm \<Rightarrow> rat \<Rightarrow> rat \<Rightarrow> rat" where "atan2d L y x = dmul RADEG (l_atan2 L y x)"

section \<open>The position of the sun\<close>

definition revolution :: "rat \<Rightarrow> rat" where
  "revolution x = dsub x (dmul 360 (of_int \<lfloor>dmul x INV360\<rfloor>))"

definition rev180 :: "rat \<Rightarrow> rat" where
  "rev180 x = dsub x (dmul 360 (of_int \<lfloor>dadd (dmul x INV360) (1 / 2)\<rfloor>))"

definition GMST0 :: "rat \<Rightarrow> rat" where
  "GMST0 d = revolution (dadd (dadd (dadd 180 (literal 3560470 4)) (literal 2829404 4))
     (dmul (dadd (literal 9856002585 10) (literal 470935 10)) d))"

text \<open>The longitude and the distance.\<close>

definition sunpos :: "libm \<Rightarrow> rat \<Rightarrow> rat \<times> rat" where
  "sunpos L d =
     (let M = revolution (dadd (literal 3560470 4) (dmul (literal 9856002585 10) d));
          w = dadd (literal 2829404 4) (dmul (literal 470935 10) d);
          e = dsub (literal 16709 6) (dmul (literal 1151 12) d);
          E = dadd M (dmul (dmul (dmul e RADEG) (sind L M)) (dadd 1 (dmul e (cosd L M))));
          x = dsub (cosd L E) e;
          y = dmul (l_sqrt L (dsub 1 (dmul e e))) (sind L E);
          r = l_sqrt L (dadd (dmul x x) (dmul y y));
          lon = dadd (atan2d L y x) w
      in (if 360 \<le> lon then dsub lon 360 else lon, r))"

definition obliquity :: "rat \<Rightarrow> rat" where
  "obliquity d = dsub (literal 234393 4) (dmul (literal 3563 10) d)"

text \<open>The right ascension, the declination and the distance.\<close>

definition sun_RA_dec :: "libm \<Rightarrow> rat \<Rightarrow> rat \<times> rat \<times> rat" where
  "sun_RA_dec L d =
     (case sunpos L d of
        (lon, r) \<Rightarrow>
          (let x = dmul r (cosd L lon);
               y = dmul r (sind L lon);
               z = dmul y (sind L (obliquity d));
               y = dmul y (cosd L (obliquity d))
           in (atan2d L y x, atan2d L z (l_sqrt L (dadd (dmul x x) (dmul y y))), r)))"

text \<open>The quotient of two numbers, when it is one.\<close>

definition quotient :: "rat \<Rightarrow> rat \<Rightarrow> rat result" where
  "quotient x y = (if y = 0 then Inl Not_finite else Inr (ddiv x y))"

definition noon_day :: "int \<Rightarrow> int \<Rightarrow> int \<Rightarrow> rat \<Rightarrow> rat" where
  "noon_day year month day lon = dsub (dadd (of_int (days_since_2000_Jan_0 year month day)) (1 / 2)) (ddiv lon 360)"

text \<open>Whether the sun rises and sets, and the two times.\<close>

definition sunriset :: "libm \<Rightarrow> int \<Rightarrow> int \<Rightarrow> int \<Rightarrow> rat \<Rightarrow> rat \<Rightarrow> rat \<Rightarrow> bool \<Rightarrow> (int \<times> rat \<times> rat) result" where
  "sunriset L year month day lon lat altit upper_limb =
     (let d = noon_day year month day lon;
          sidtime = revolution (dadd (dadd (GMST0 d) 180) lon) in
      case sun_RA_dec L d of
        (sRA, sdec, sr) \<Rightarrow>
          (let tsouth = dsub 12 (ddiv (rev180 (dsub sidtime sRA)) 15) in
           res_bind (quotient (literal 2666 4) sr) (\<lambda>sradius.
             let altit = (if upper_limb then dsub altit sradius else altit) in
             res_bind (quotient (dsub (sind L altit) (dmul (sind L lat) (sind L sdec))) (dmul (cosd L lat) (cosd L sdec))) (\<lambda>cost.
               let (rc, t) = (if cost \<ge> 1 then (- 1, 0) else if cost \<le> - 1 then (1, 12) else (0, ddiv (acosd L cost) 15))
               in Inr (rc, dsub tsouth t, dadd tsouth t)))))"

definition sun_rise_set :: "libm \<Rightarrow> int \<Rightarrow> int \<Rightarrow> int \<Rightarrow> rat \<Rightarrow> rat \<Rightarrow> (int \<times> rat \<times> rat) result" where
  "sun_rise_set L year month day lon lat = sunriset L year month day lon lat (ddiv (- 35) 60) True"

text \<open>The length of the day, which the program does not use.\<close>

definition daylen :: "libm \<Rightarrow> int \<Rightarrow> int \<Rightarrow> int \<Rightarrow> rat \<Rightarrow> rat \<Rightarrow> rat \<Rightarrow> bool \<Rightarrow> rat result" where
  "daylen L year month day lon lat altit upper_limb =
     (let d = noon_day year month day lon in
      case sunpos L d of
        (slon, sr) \<Rightarrow>
          (let sin_sdecl = dmul (sind L (obliquity d)) (sind L slon);
               cos_sdecl = l_sqrt L (dsub 1 (dmul sin_sdecl sin_sdecl)) in
           res_bind (quotient (literal 2666 4) sr) (\<lambda>sradius.
             let altit = (if upper_limb then dsub altit sradius else altit) in
             res_bind (quotient (dsub (sind L altit) (dmul (sind L lat) sin_sdecl)) (dmul (cosd L lat) cos_sdecl)) (\<lambda>cost.
               Inr (if cost \<ge> 1 then 0 else if cost \<le> - 1 then 24 else dmul (ddiv 2 15) (acosd L cost))))))"

section \<open>The time of the day\<close>

text \<open>Hours, of any number, and minutes of an hour.\<close>

definition clock_hours :: "rat \<Rightarrow> int" where
  "clock_hours x = c_mod (c_trunc x) 24"

definition clock_minutes :: "rat \<Rightarrow> int" where
  "clock_minutes x = c_mod (c_trunc (dmul (dsub x (of_int (clock_hours x))) 60)) 60"

text \<open>The time in GMT, in hours, and the offset in seconds, as hours and minutes.\<close>

definition local_minutes :: "rat \<Rightarrow> int \<Rightarrow> int" where
  "local_minutes res tzOffset = clock_minutes (dadd res (of_int (clock_minutes (ddiv (of_int tzOffset) 3600))))"

definition local_hours :: "rat \<Rightarrow> int \<Rightarrow> int" where
  "local_hours res tzOffset = clock_hours (dadd res (ddiv (of_int tzOffset) 3600))"

text \<open>\<open>mktime\<close> brings the fields of the structure into their ranges.\<close>

definition mktime_fields :: "int \<Rightarrow> int \<Rightarrow> int \<Rightarrow> int \<Rightarrow> int \<Rightarrow> int \<Rightarrow> int \<times> int" where
  "mktime_fields zone year mon mday h mi =
     (let t = localtime zone (mktime zone \<lparr>tm_year = year, tm_mon = mon, tm_mday = mday, tm_wday = 0, tm_hour = h, tm_min = mi, tm_sec = 0\<rparr>)
      in (tm_min t, tm_hour t))"

definition solar_time :: "int \<Rightarrow> int \<Rightarrow> int \<Rightarrow> int \<Rightarrow> int \<Rightarrow> rat \<Rightarrow> int \<times> int" where
  "solar_time zone tzOffset year mon mday res = mktime_fields zone year mon mday (local_hours res tzOffset) (local_minutes res tzOffset)"

fun computeTime :: "SpecClass \<Rightarrow> rat \<Rightarrow> rat \<Rightarrow> rat" where
  "computeTime SunriseSpec rise sets = rise"
| "computeTime SunsetSpec rise sets = sets"
| "computeTime SolarNoonSpec rise sets = ddiv (dadd rise sets) 2"

text \<open>The minute and the hour; midnight when the sun does not rise or does not set.\<close>

definition SolarTimeSpec_getTime :: "libm \<Rightarrow> LocationInfo \<Rightarrow> int \<Rightarrow> int \<Rightarrow> SpecClass \<Rightarrow> int \<Rightarrow> int \<Rightarrow> int \<Rightarrow> (int \<times> int) result" where
  "SolarTimeSpec_getTime L loc zone gmtOffset k mday mon year =
     res_bind (sun_rise_set L (year + 1900) (mon + 1) mday (lon_m loc) (lat_m loc)) (\<lambda>(rs, rise, sets).
       if rs = 0 then
         Inr (solar_time zone gmtOffset year mon mday (computeTime k rise sets))
       else Inr (0, 0))"

record SolarInfo =
  rise_m :: rat
  set_m :: rat
  rs_m :: int
  year_m :: int
  mon_m :: int
  mday_m :: int
  tz_offset_m :: int

definition SolarInfo_new :: "libm \<Rightarrow> LocationInfo \<Rightarrow> int \<Rightarrow> tm \<Rightarrow> SolarInfo result" where
  "SolarInfo_new L loc gmtOffset t =
     res_bind (sun_rise_set L (tm_year t + 1900) (tm_mon t + 1) (tm_mday t) (lon_m loc) (lat_m loc)) (\<lambda>(rs, rise, sets).
       Inr \<lparr>rise_m = rise, set_m = sets, rs_m = rs, year_m = tm_year t, mon_m = tm_mon t, mday_m = tm_mday t, tz_offset_m = gmtOffset\<rparr>)"

text \<open>Here a negative hour or minute becomes midnight.\<close>

definition SolarInfo_get :: "int \<Rightarrow> SolarInfo \<Rightarrow> rat \<Rightarrow> (int \<times> int) option" where
  "SolarInfo_get zone si res =
     (if rs_m si = 0 then
        (let m = local_minutes res (tz_offset_m si); h = local_hours res (tz_offset_m si);
             (m, h) = (if m < 0 \<or> h < 0 then (0, 0) else (m, h))
         in Some (mktime_fields zone (year_m si) (mon_m si) (mday_m si) h m))
      else None)"

definition getSunrise :: "int \<Rightarrow> SolarInfo \<Rightarrow> (int \<times> int) option" where
  "getSunrise zone si = SolarInfo_get zone si (rise_m si)"

definition getSunset :: "int \<Rightarrow> SolarInfo \<Rightarrow> (int \<times> int) option" where
  "getSunset zone si = SolarInfo_get zone si (set_m si)"

definition getNoon :: "int \<Rightarrow> SolarInfo \<Rightarrow> (int \<times> int) option" where
  "getNoon zone si = SolarInfo_get zone si (ddiv (dadd (rise_m si) (set_m si)) 2)"

text \<open>\<open>gmtOffset_m = -mktime (gmtime (&ref))\<close>, the start of 1970 in GMT read as local time.\<close>

definition gmtOffset :: "int \<Rightarrow> int" where
  "gmtOffset zone = - mktime zone (localtime 0 0)"

end
