(* ===== verification/Sun_Laws.thy ===== *)
theory Sun_Laws
  imports Sun
begin

text \<open>The number of the day, the order of sunrise and sunset, and the time of the day that is made of them.\<close>

section \<open>Days\<close>

lemma leap_19: "1901 \<le> y \<Longrightarrow> y \<le> 2099 \<Longrightarrow> leap y \<longleftrightarrow> y mod 4 = 0"
proof -
  assume y: "1901 \<le> y" "y \<le> 2099"
  then have "y mod 100 = 0 \<Longrightarrow> y = 2000" by presburger
  then show ?thesis by (auto simp: leap_def)
qed

lemma before_year_19: "1901 \<le> y \<Longrightarrow> y \<le> 2099 \<Longrightarrow> days_before_year y = 365 * y + (y + 3) div 4 - 15"
proof -
  assume y: "1901 \<le> y" "y \<le> 2099"
  have "(y + 99) div 100 - (y + 399) div 400 = 15"
  proof (cases "y \<le> 2000")
    case True
    have "(y + 99) div 100 = 20" by (rule int_div_pos_eq [where r = "y + 99 - 2000"]) (use y True in auto)
    moreover have "(y + 399) div 400 = 5" by (rule int_div_pos_eq [where r = "y + 399 - 2000"]) (use y True in auto)
    ultimately show ?thesis by simp
  next
    case False
    have "(y + 99) div 100 = 21" by (rule int_div_pos_eq [where r = "y + 99 - 2100"]) (use y False in auto)
    moreover have "(y + 399) div 400 = 6" by (rule int_div_pos_eq [where r = "y + 399 - 2400"]) (use y False in auto)
    ultimately show ?thesis by simp
  qed
  then show ?thesis by (simp add: days_before_year_def)
qed

lemma before_months:
  "days_before_month y 1 = 31" "days_before_month y 2 = (if leap y then 60 else 59)" "days_before_month y 3 = (if leap y then 91 else 90)"
  "days_before_month y 4 = (if leap y then 121 else 120)" "days_before_month y 5 = (if leap y then 152 else 151)"
  "days_before_month y 6 = (if leap y then 182 else 181)" "days_before_month y 7 = (if leap y then 213 else 212)"
  "days_before_month y 8 = (if leap y then 244 else 243)" "days_before_month y 9 = (if leap y then 274 else 273)"
  "days_before_month y 10 = (if leap y then 305 else 304)"
  by (simp_all add: days_before_month_def upto_rec1 month_days_def)

text \<open>
  C32.  The formula for the days since the last day of 1999 counts the days of the calendar, from 1901 to 2099.
\<close>

theorem days_since_counts_days:
  assumes "1901 \<le> y" and "y \<le> 2099" and "1 \<le> m" and "m \<le> 12"
  shows "days_since_2000_Jan_0 y m d = day_number y (m - 1) d - day_number 1999 11 31"
proof -
  have c: "c_div a b = a div b" if "0 \<le> a" "0 < b" for a b :: int using that by (simp add: c_div_def sgn_if)
  have m: "m = 1 \<or> m = 2 \<or> m = 3 \<or> m = 4 \<or> m = 5 \<or> m = 6 \<or> m = 7 \<or> m = 8 \<or> m = 9 \<or> m = 10 \<or> m = 11 \<or> m = 12"
    using assms(3,4) by presburger
  have day: "day_number y (m - 1) d = 365 * y + (y + 3) div 4 - 15 + days_before_month y (m - 1) + (d - 1)"
    using assms by (simp add: day_number_valid before_year_19)
  have start: "day_number 1999 11 31 = 730484" by (simp add: day_number_valid before_year_19 days_before_month_11 year_days_def leap_def)
  define q r where "q = y div 4" and "r = y mod 4"
  have y: "4 * q + r = y" "0 \<le> y" and r: "0 \<le> r" "r < 4" using assms(1) by (simp_all add: q_def r_def)
  have seven: "c_div (7 * (y + k)) 4 = 7 * q + (7 * (r + k)) div 4" if "0 \<le> k" for k
  proof -
    have "7 * (y + k) = 7 * (r + k) + 4 * (7 * q)" using y(1) by simp
    then show ?thesis using that y(2) c [of "7 * (y + k)" 4] by (simp only: div_mult_self2)  simp
  qed
  have quarter: "(y + 3) div 4 = q + (r + 3) div 4"
  proof -
    have "y + 3 = r + 3 + 4 * q" using y(1) by simp
    then show ?thesis by (simp only: div_mult_self2)
  qed
  have leap: "leap y \<longleftrightarrow> r = 0" using leap_19 [OF assms(1,2)] by (simp add: r_def)
  have "r = 0 \<or> r = 1 \<or> r = 2 \<or> r = 3" using r by presburger
  with m y show ?thesis
    unfolding days_since_2000_Jan_0_def day start quarter
    by (elim disjE; simp add: c seven [of 0, simplified] seven before_months days_before_month_11 year_days_def leap)
qed

theorem days_since_counts_days_witness: "days_since_2000_Jan_0 2024 2 29 = day_number 2024 1 29 - day_number 1999 11 31"
  using days_since_counts_days [of 2024 2 29] by simp

section \<open>Times\<close>

text \<open>Times on a grid of some nanoseconds, which \<open>double\<close> computes with exactly.\<close>

definition on_grid :: "rat \<Rightarrow> bool" where
  "on_grid x \<longleftrightarrow> (\<exists>n. x = of_int n * pow2 (- 40))"

lemma grid_int: "on_grid (of_int k)"
proof -
  have "of_int k = (of_int (k * 2 ^ 40) * pow2 (- 40) :: rat)" by (simp add: pow2_def)
  then show ?thesis unfolding on_grid_def by blast
qed

lemma grid_add: "on_grid x \<Longrightarrow> on_grid y \<Longrightarrow> on_grid (x + y)"
  unfolding on_grid_def by (metis distrib_right of_int_add)

lemma grid_diff: "on_grid x \<Longrightarrow> on_grid y \<Longrightarrow> on_grid (x - y)"
  unfolding on_grid_def by (metis left_diff_distrib of_int_diff)

lemma grid_times: "on_grid x \<Longrightarrow> on_grid (x * of_int k)"
  unfolding on_grid_def by (metis mult.assoc mult.commute of_int_mult)

lemma grid_exact:
  assumes "on_grid x" and "\<bar>x\<bar> < 8192"
  shows "fl_double x = x"
proof -
  obtain n where n: "x = of_int n * pow2 (- 40)" using assms(1) by (auto simp: on_grid_def)
  have "of_int \<bar>n\<bar> = \<bar>x\<bar> * 2 ^ 40" by (simp add: n pow2_def abs_mult)
  also have "\<dots> < 8192 * 2 ^ 40" using assms(2) by simp
  finally have "of_int \<bar>n\<bar> < (of_int (2 ^ 53) :: rat)" by simp
  then have "\<bar>n\<bar> < 2 ^ 53" by (simp only: of_int_less_iff)
  then show ?thesis using fl_exact [OF n] by simp
qed

lemma c_mod_small: "0 < b \<Longrightarrow> \<bar>a\<bar> < b \<Longrightarrow> c_mod a b = a"
  by (simp add: c_mod_def c_div_def)

lemma c_trunc_of_int [simp]: "c_trunc (of_int k) = k"
  by (simp add: c_trunc_def)

lemma c_trunc_bound: "\<bar>x\<bar> < of_int n \<Longrightarrow> \<bar>c_trunc x\<bar> < n"
proof (cases "0 \<le> x")
  case True
  assume "\<bar>x\<bar> < of_int n"
  with True have "\<lfloor>x\<rfloor> < n" by (simp add: floor_less_iff)
  moreover have "0 \<le> \<lfloor>x\<rfloor>" using True by simp
  ultimately show ?thesis using True by (simp add: c_trunc_def)
next
  case False
  assume "\<bar>x\<bar> < of_int n"
  with False have "- n < \<lceil>x\<rceil>" by (simp add: less_ceiling_iff)
  moreover have "\<lceil>x\<rceil> \<le> 0" using False by (simp add: ceiling_le_iff)
  ultimately show ?thesis using False by (simp add: c_trunc_def)
qed

text \<open>A whole number of hours has no minutes.\<close>

lemma whole_hours: "\<bar>z\<bar> < 24 \<Longrightarrow> clock_minutes (of_int z) = 0"
  by (simp add: clock_minutes_def clock_hours_def c_mod_small) (simp add: c_trunc_def c_mod_def c_div_def)

lemma local_clock:
  assumes "on_grid res" and "\<bar>res\<bar> < 24" and "\<bar>z\<bar> \<le> 14" and "0 \<le> res + of_int z" and "res + of_int z < 24"
  shows "local_hours res (3600 * z) = \<lfloor>res\<rfloor> + z"
    and "local_minutes res (3600 * z) = c_trunc ((res - of_int (c_trunc res)) * 60)"
proof -
  have off: "ddiv (of_int (3600 * z)) 3600 = of_int z" using grid_exact [OF grid_int, of z] assms(3) by simp
  have sum: "dadd res (of_int z) = res + of_int z"
    using assms by (intro grid_exact grid_add grid_int) auto
  have "c_trunc (res + of_int z) = \<lfloor>res\<rfloor> + z" using assms(4) by (simp add: c_trunc_def)
  moreover have "\<bar>c_trunc (res + of_int z)\<bar> < 24" using assms(4,5) by (intro c_trunc_bound) simp
  ultimately show "local_hours res (3600 * z) = \<lfloor>res\<rfloor> + z"
    unfolding local_hours_def off sum clock_hours_def by (simp add: c_mod_small)
  define h where "h = c_trunc res"
  have h: "\<bar>h\<bar> < 24" unfolding h_def using assms(2) by (intro c_trunc_bound) simp
  have near: "\<bar>res - of_int h\<bar> < 1" unfolding h_def c_trunc_def by (auto simp: abs_less_iff) linarith+
  have zero: "dadd res (of_int (clock_minutes (of_int z))) = res"
    using assms whole_hours [of z] grid_exact [OF assms(1)] by simp
  have diff: "dsub res (of_int h) = res - of_int h"
    using near by (intro grid_exact grid_diff grid_int assms(1)) simp
  have sixty: "\<bar>(res - of_int h) * 60\<bar> < of_int 60" using near by (simp add: abs_mult)
  have mult: "dmul (res - of_int h) 60 = (res - of_int h) * 60"
    using sixty grid_times [OF grid_diff [OF assms(1) grid_int], of h 60] by (intro grid_exact) simp_all
  have "clock_hours res = h" using h by (simp add: clock_hours_def c_mod_small flip: h_def)
  then have "clock_minutes res = c_mod (c_trunc ((res - of_int h) * 60)) 60"
    by (simp only: clock_minutes_def diff mult)
  also have "\<dots> = c_trunc ((res - of_int h) * 60)" using c_trunc_bound [OF sixty] by (simp add: c_mod_small)
  finally show "local_minutes res (3600 * z) = c_trunc ((res - of_int (c_trunc res)) * 60)"
    unfolding local_minutes_def off zero h_def .
qed

text \<open>The minutes of the day, from its hours and minutes; a negative number of them belongs to the day before.\<close>

lemma minutes_of_day:
  fixes T :: int
  shows "60 * (T mod 1440) div 3600 = T div 60 mod 24" and "60 * (T mod 1440) div 60 mod 60 = T mod 60"
proof -
  define q r where "q = T div 60 mod 24" and "r = T mod 60"
  have r: "0 \<le> r" "r < 60" by (simp_all add: r_def)
  have T: "T mod 1440 = 60 * q + r" using zmod_zmult2_eq [of 24 T 60] by (simp add: q_def r_def)
  have "60 * (T mod 1440) div 3600 = q" unfolding T by (rule int_div_pos_eq [where r = "60 * r"]) (use r in auto)
  then show "60 * (T mod 1440) div 3600 = T div 60 mod 24" by (simp add: q_def)
  have "60 * (T mod 1440) div 60 = 60 * q + r" unfolding T by simp
  then show "60 * (T mod 1440) div 60 mod 60 = T mod 60" using r by (simp add: r_def)
qed

lemma mktime_fields_minutes: "mktime_fields zone year mon mday h mi = ((60 * h + mi) mod 60, (60 * h + mi) div 60 mod 24)"
proof -
  let ?T = "60 * h + mi" and ?D = "day_number (year + 1900) mon mday - 719528"
  define s where "s = mktime zone \<lparr>tm_year = year, tm_mon = mon, tm_mday = mday, tm_wday = 0, tm_hour = h, tm_min = mi, tm_sec = 0\<rparr>"
  have "s + zone = ?D * 86400 + 60 * ?T" by (simp add: s_def mktime_def)
  also have "60 * ?T = 60 * (1440 * (?T div 1440) + ?T mod 1440)" by (simp only: mult_div_mod_eq)
  finally have "s + zone = (?D + ?T div 1440) * 86400 + 60 * (?T mod 1440)" by (simp only: algebra_simps)
  moreover have "0 \<le> 60 * (?T mod 1440)" "60 * (?T mod 1440) < 86400" by simp_all
  ultimately have r: "(s + zone) mod 86400 = 60 * (?T mod 1440)" by (simp only: mod_mult_self3 mod_pos_pos_trivial)
  then show ?thesis
    unfolding mktime_fields_def s_def [symmetric]
    by (simp only: localtime_def r Let_def minutes_of_day split: prod.split) simp
qed



text \<open>In a zone that is five and a half hours ahead, the half hour is lost: a sunrise at 6:15 of GMT is told as 11:15.\<close>

lemma half_hour_is_lost: "solar_time zone 19800 year mon mday (25 / 4) = (15, 11)"
proof -
  have quarter: "fl_double (x :: rat) = x" if "x = of_int n / 4" "\<bar>n\<bar> < 32768" for x n
  proof (rule grid_exact)
    have "x = of_int (n * 2 ^ 38) * pow2 (- 40)" by (simp add: that(1) pow2_def)
    then show "on_grid x" unfolding on_grid_def by blast
    have "of_int \<bar>n\<bar> < (of_int 32768 :: rat)" using that(2) by (simp only: of_int_less_iff)
    then show "\<bar>x\<bar> < 8192" by (simp add: that(1))
  qed
  have off: "fl_double (11 / 2) = 11 / 2" using quarter [of "11 / 2" 22] by simp
  have half: "fl_double (1 / 2) = 1 / 2" "fl_double 30 = 30" using quarter [of "1 / 2" 2] quarter [of 30 120] by simp_all
  have thirty: "clock_minutes (11 / 2) = 30"
    by (simp add: clock_minutes_def clock_hours_def c_trunc_def c_mod_def c_div_def half)
  have sums: "fl_double (145 / 4) = 145 / 4" "fl_double (97 / 4) = 97 / 4" "fl_double 1455 = 1455" "fl_double (47 / 4) = 47 / 4"
    using quarter [of "145 / 4" 145] quarter [of "97 / 4" 97] quarter [of 1455 5820] quarter [of "47 / 4" 47] by simp_all
  have "local_minutes (25 / 4) 19800 = 15"
    unfolding local_minutes_def by (simp add: off thirty sums clock_minutes_def [of "145 / 4"] clock_hours_def c_trunc_def c_mod_def c_div_def)
  moreover have "local_hours (25 / 4) 19800 = 11"
    unfolding local_hours_def by (simp add: off sums clock_hours_def c_trunc_def c_mod_def c_div_def)
  ultimately show ?thesis unfolding solar_time_def mktime_fields_minutes by simp
qed

end
