(* ===== verification/Spec2Isabelle.thy ===== *)
theory Spec2Isabelle
  imports Telegram_Codec Durations Object_Laws KnxConnection Schedule_Laws Condition_Laws Run_Laws Server_Laws IO_Laws Storage_Laws Script_Laws
    Service_Laws Sun_Laws
begin

text \<open>
  A verification development for linknx, a rule engine for KNX home automation.  A daemon keeps a set of
  group objects, each with a typed value and one or more 16 bit group addresses; telegrams of
  the bus update the objects, changes of objects are sent to the bus and drive rules.

  The theories, bottom up:

  \<^item> \<open>Knx_Prelude\<close>: machine types, the exceptions of the program as the type \<open>exn\<close>, \<open>struct tm\<close>, division of C.
  \<^item> \<open>Streams\<close>, \<open>CDouble\<close>, \<open>DoubleText\<close>: the parts of the C++ library the code relies on: reading
    numbers with \<open>operator>>\<close> and \<open>sscanf\<close>, printing them, \<open>float\<close> and \<open>double\<close> arithmetic on
    the rational numbers with rounding to nearest, and the texts of doubles.
  \<^item> \<open>EibAddr\<close>: \<open>Object::ReadGroupAddr\<close>, \<open>ReadAddr\<close>, \<open>WriteGroupAddr\<close>, \<open>WriteAddr\<close>.
  \<^item> \<open>Durations\<close>: \<open>RuleServer::parseDuration\<close> and \<open>formatDuration\<close>.
  \<^item> \<open>Value_Laws\<close>: the contract of \<open>ObjectValue\<close> as a locale; \<open>Values_Bool\<close>, \<open>Values_Time\<close>, \<open>Values_Number\<close>,
    \<open>Values_String\<close> model its subclasses in src/objectcontroller.cpp and interpret the
    locale; \<open>Dpt9\<close> gives the specification of the two byte float; \<open>ObjectValues\<close> puts the classes together
    (\<open>Object::create\<close> and the virtual calls) and interprets the contract for all of them.
  \<^item> \<open>Codecs\<close>: \<open>doSend\<close> and \<open>doWrite\<close> of every class; \<open>Telegram_Codec\<close>: the codec locale and round trips.
  \<^item> \<open>Xml\<close>: the element tree the configuration code works on.
  \<^item> \<open>GroupObject\<close>: the class \<open>Object\<close>; \<open>Object_Laws\<close>: what its operations guarantee.
  \<^item> \<open>ObjectController\<close>: the registry of objects; \<open>Controller_Laws\<close>: its invariant and the dispatch of telegrams.
  \<^item> \<open>KnxConnection\<close>: the connection to the bus, and the way of a value from one instance to another.
  \<^item> \<open>Calendar\<close>: \<open>localtime\<close> and \<open>mktime\<close> for a fixed offset from GMT.
  \<^item> \<open>DateTime\<close>, \<open>TimeSpec\<close>, \<open>Schedule\<close>: src/timermanager.cpp up to \<open>PeriodicTask::findNext\<close>, with fuel for its
    recursion; \<open>DateTime_Laws\<close>, \<open>Resolution\<close>, \<open>Search\<close> and \<open>Schedule_Laws\<close> show that the search ends and finds the first
    occurrence, and where it does not end.
  \<^item> \<open>TimerManager\<close>: \<open>PeriodicTask\<close>, \<open>FixedTimeTask\<close> and \<open>TimerManager\<close>, over any extension of its state; \<open>Timer_Laws\<close>: the
    list of tasks as a sorted log, and what is executed when.
  \<^item> \<open>Engine\<close>: the state conditions, actions and rules share, and operations that return a value.
  \<^item> \<open>Conditions\<close>: the subclasses of \<open>Condition\<close> in src/ruleserver.cpp; \<open>Condition_Laws\<close>: their meaning and their
    configuration.
  \<^item> \<open>Threads\<close>: src/threads.cpp; \<open>VarStrings\<close>: the texts with variables of actions.
  \<^item> \<open>Actions\<close>: the data of every subclass of \<open>Action\<close>, its construction from the configuration and its export; \<open>Rules\<close>: \<open>Rule\<close>,
    \<open>RuleServer\<close> and the delivery of a change of an object to the rules that listen to it; \<open>Rule_Laws\<close>: when a rule
    executes its actions.
  \<^item> \<open>Runs\<close>: the bodies of the actions, each as a thread that can wait; \<open>Run_Laws\<close>: what the longer ones send, and when.
  \<^item> \<open>Messages\<close>: how src/xmlserver.cpp cuts messages out of the stream of a connection, and that they travel; \<open>XmlServer\<close>: the
    requests of a client, the notifications it gets, and the servers; \<open>Server_Laws\<close>: the way of a written value, and what
    a connection leaves behind.
  \<^item> \<open>IOPorts\<close>: src/ioport.cpp, the three kinds of ports and their manager; \<open>PortListeners\<close>: the action and the two conditions on ports,
    and the receiving thread; \<open>IO_Laws\<close>: round trips of their configuration, and the pulse that data gives to a rule.

  \<^item> \<open>PersistentStorage\<close>: src/persistentstorage.cpp, files, MySQL and InfluxDB; \<open>Storage_Laws\<close>: the files as a store of the last
    values, whatever is logged, and the way of a value through a restart.
  \<^item> \<open>Base64\<close>: b64, the encoder and the decoder as machines that take a character at a step; \<open>Base64_Laws\<close>: both in step.
    \<open>Gateways\<close>: src/smsgateway.cpp and src/emailgateway.cpp; \<open>Gateway_Laws\<close>: bodies, subjects and requests.
  \<^item> \<open>Scripts\<close>: src/luacondition.cpp over any interpreter; \<open>Script_Laws\<close>: the mutex all scripts share.
  \<^item> \<open>Logging\<close>: src/logger.cpp; \<open>Services\<close>: src/services.cpp, the configuration of all services together; \<open>Service_Laws\<close>: its round
    trip, and what a refused part leaves behind.
  \<^item> \<open>Sun\<close>: src/suncalc.cpp, the position of the sun and the times it rises and sets, in \<open>double\<close> arithmetic over any mathematical
    library; \<open>Sun_Laws\<close>: the number of a day, and the time of the day made of a sunrise.

  A thread is a function of the list of wakes it gets: each says what the rest of the program did to the state while the thread slept.
  It returns the events (effects and times of sleep) and how it ended: returned, with an exception, or asleep with
  no wake left.  Listeners call each other through \<open>with_listeners\<close>, with fuel for the depth of calls (\<open>in_fuel\<close>):
  the exception \<open>No_return\<close> marks a call chain that is deeper.

  An operation that changes state returns the effects it has outside (telegrams, calls of listeners,
  persistent storage), the exception if it threw one, and the state it leaves (type \<open>outcome\<close>).

  A rule knows its conditions and actions on ports and its scripts by their configuration (\<open>ForeignCondition\<close>, \<open>ForeignAction\<close>).

  Not modelled: system calls (what they answer is an input), preemption inside of an operation (threads switch only where they
  sleep), the databases, the interpreter of scripts and the libraries for HTTP, SMTP and logging (what they are given is the result of the
  model, what they answer an input), the command line, the XML parser and printer, the functions of the
  mathematical library, which are a parameter of the position of the sun, and the client library of the eibd daemon.  The search for the next
  occurrence takes the time of sunrise and sunset as an input (\<open>sc_sun\<close>), which \<open>SolarTimeSpec_getTime\<close> computes.
\<close>

end
